(* ===== verification/Gline_Prelude.thy ===== *)
theory Gline_Prelude
  imports Complex_Main "HOL-Library.Word" "HOL-Library.Char_ord" "HOL-Library.List_Lexorder"
    "HOL-Library.Sublist" "HOL-Library.Code_Target_Nat"
begin

text \<open>
  Shared vocabulary of the development. A Go \<open>string\<close> and a Go \<open>[]byte\<close> are both finite
  byte sequences; both are modelled as \<open>string\<close> (a list of 8-bit characters). The theory holds
  the string operations of Go's standard library that the code calls
  (\<open>strings.TrimSpace\<close>, \<open>ToUpper\<close>, \<open>ToLower\<close>, \<open>Cut\<close>,
  \<open>Count\<close>, \<open>strconv.Itoa\<close>, \<open>ParseInt\<close>), the collections of rewrite rules that
  the component theories extend, and the generic lemmas about maps and lists that several of
  them use.
\<close>

named_theorems gsimps \<open>unfolding rules of the small operations of a component\<close>
named_theorems ginv \<open>preservation of the invariants of a component\<close>

section \<open>Types and bytes\<close>

type_synonym bytes = string

text \<open>Go's \<open>int64\<close> range; values are kept as \<open>int\<close> with the range written out where it matters.\<close>

definition in_int64 :: "int \<Rightarrow> bool" where
  "in_int64 n \<longleftrightarrow> - (2 ^ 63) \<le> n \<and> n < 2 ^ 63"

abbreviation byte_val :: "char \<Rightarrow> nat" where
  "byte_val c \<equiv> of_char c"

lemma byte_val_less: "byte_val c < 256"
  by simp

definition is_ascii :: "string \<Rightarrow> bool" where
  "is_ascii s \<longleftrightarrow> list_all (\<lambda>c. byte_val c < 128) s"

definition is_digit :: "char \<Rightarrow> bool" where
  "is_digit c \<longleftrightarrow> 48 \<le> byte_val c \<and> byte_val c \<le> 57"

definition ascii_upper :: "char \<Rightarrow> char" where
  "ascii_upper c = (if 97 \<le> byte_val c \<and> byte_val c \<le> 122 then char_of (byte_val c - 32) else c)"

definition ascii_lower :: "char \<Rightarrow> char" where
  "ascii_lower c = (if 65 \<le> byte_val c \<and> byte_val c \<le> 90 then char_of (byte_val c + 32) else c)"

text \<open>
  \<open>strings.ToUpper\<close> maps an ASCII string byte by byte and anything else rune by rune through the
  Unicode tables; the tables are the parameter \<open>umap\<close>. \<open>strings.ToLower\<close> is the same with
  \<open>lmap\<close>.
\<close>

definition to_upper :: "(string \<Rightarrow> string) \<Rightarrow> string \<Rightarrow> string" where
  "to_upper umap s = (if is_ascii s then map ascii_upper s else umap s)"

definition to_lower :: "(string \<Rightarrow> string) \<Rightarrow> string \<Rightarrow> string" where
  "to_lower lmap s = (if is_ascii s then map ascii_lower s else lmap s)"

section \<open>Trimming white space\<close>

text \<open>The UTF-8 encodings of the runes for which \<open>unicode.IsSpace\<close> holds.\<close>

definition space_seqs :: "string list" where
  "space_seqs =
     [[CHR 0x09], [CHR 0x0A], [CHR 0x0B], [CHR 0x0C], [CHR 0x0D], [CHR 0x20],
      [CHR 0xC2, CHR 0x85], [CHR 0xC2, CHR 0xA0], [CHR 0xE1, CHR 0x9A, CHR 0x80]] @
     map (\<lambda>c. [CHR 0xE2, CHR 0x80, c])
       [CHR 0x80, CHR 0x81, CHR 0x82, CHR 0x83, CHR 0x84, CHR 0x85, CHR 0x86, CHR 0x87, CHR 0x88, CHR 0x89,
        CHR 0x8A, CHR 0xA8, CHR 0xA9, CHR 0xAF] @
     [[CHR 0xE2, CHR 0x81, CHR 0x9F], [CHR 0xE3, CHR 0x80, CHR 0x80]]"

definition space_seqs_rev :: "string list" where
  "space_seqs_rev = map rev space_seqs"

text \<open>Dropping leading occurrences of the (non-empty) sequences of a list.\<close>

function strip_with :: "string list \<Rightarrow> string \<Rightarrow> string" where
  "strip_with seqs s =
     (case find (\<lambda>p. p \<noteq> [] \<and> prefix p s) seqs of
        None \<Rightarrow> s
      | Some p \<Rightarrow> strip_with seqs (drop (length p) s))"
  by pat_completeness auto
termination
  by (relation "measure (\<lambda>(seqs, s). length s)")
     (auto simp: find_Some_iff prefix_def)

declare strip_with.simps [simp del]

definition trim_space :: "string \<Rightarrow> string" where
  "trim_space s = rev (strip_with space_seqs_rev (rev (strip_with space_seqs s)))"

text \<open>\<open>strings.TrimSpace(s) == ""\<close>, the guard that most validations use.\<close>

definition blank :: "string \<Rightarrow> bool" where
  "blank s \<longleftrightarrow> trim_space s = []"

lemma strip_with_stop:
  "find (\<lambda>p. p \<noteq> [] \<and> prefix p s) seqs = None \<Longrightarrow> strip_with seqs s = s"
  by (subst strip_with.simps) simp

lemma strip_with_Nil [simp]: "strip_with seqs [] = []"
  by (rule strip_with_stop) (auto simp: find_None_iff)

lemma strip_with_suffix: "suffix (strip_with seqs s) s"
proof (induction seqs s rule: strip_with.induct)
  case (1 seqs s)
  show ?case
  proof (cases "find (\<lambda>p. p \<noteq> [] \<and> prefix p s) seqs")
    case None
    then show ?thesis by (simp add: strip_with_stop)
  next
    case (Some p)
    then have "suffix (strip_with seqs (drop (length p) s)) (drop (length p) s)"
      by (rule "1.IH")
    then have "suffix (strip_with seqs (drop (length p) s)) s"
      using suffix_drop suffix_order.trans by blast
    with Some show ?thesis by (subst strip_with.simps) simp
  qed
qed

text \<open>The result of stripping has no further leading sequence: stripping is idempotent.\<close>

lemma strip_with_fix: "find (\<lambda>p. p \<noteq> [] \<and> prefix p (strip_with seqs s)) seqs = None"
proof (induction seqs s rule: strip_with.induct)
  case (1 seqs s)
  show ?case
  proof (cases "find (\<lambda>p. p \<noteq> [] \<and> prefix p s) seqs")
    case None
    then show ?thesis by (simp add: strip_with_stop)
  next
    case (Some p)
    with "1.IH" [OF Some] show ?thesis by (subst strip_with.simps) simp
  qed
qed

lemma strip_with_idem [simp]: "strip_with seqs (strip_with seqs s) = strip_with seqs s"
  by (rule strip_with_stop, rule strip_with_fix)

lemma length_trim_space: "length (trim_space s) \<le> length s"
proof -
  have "length (strip_with space_seqs_rev (rev (strip_with space_seqs s)))
      \<le> length (strip_with space_seqs s)"
    using suffix_length_le [OF strip_with_suffix] by (metis length_rev)
  also have "\<dots> \<le> length s"
    by (rule suffix_length_le [OF strip_with_suffix])
  finally show ?thesis by (simp add: trim_space_def)
qed

lemma strip_with_prefix:
  assumes "prefix t (strip_with seqs s)"
  shows "strip_with seqs t = t"
proof (rule strip_with_stop)
  have "p = [] \<or> \<not> prefix p (strip_with seqs s)" if "p \<in> set seqs" for p
    using strip_with_fix [of seqs s] that by (auto simp: find_None_iff)
  then show "find (\<lambda>p. p \<noteq> [] \<and> prefix p t) seqs = None"
    using assms prefix_order.trans by (auto simp: find_None_iff)
qed

text \<open>What is trimmed has nothing left to trim.\<close>

lemma trim_space_idem [simp]: "trim_space (trim_space s) = trim_space s"
proof -
  define l where "l = strip_with space_seqs s"
  have "prefix (trim_space s) l"
    using strip_with_suffix [of space_seqs_rev "rev l"] by (simp add: trim_space_def l_def suffix_to_prefix)
  then have "strip_with space_seqs (trim_space s) = trim_space s"
    unfolding l_def by (rule strip_with_prefix)
  then show ?thesis by (simp add: trim_space_def)
qed

lemma blank_trim_space [simp]: "blank (trim_space s) \<longleftrightarrow> trim_space s = []"
  by (simp add: blank_def)

lemma blank_Nil [simp]: "blank []"
  by (simp add: blank_def trim_space_def)

text \<open>A text of visible ASCII characters has nothing to trim.\<close>

definition visible :: "char \<Rightarrow> bool" where
  "visible c \<longleftrightarrow> 0x20 < byte_val c \<and> byte_val c < 0x80"

lemma space_seqs_visible:
  "list_all (\<lambda>p. p \<noteq> [] \<longrightarrow> \<not> visible (hd p)) space_seqs" "list_all (\<lambda>p. p \<noteq> [] \<longrightarrow> \<not> visible (hd p)) space_seqs_rev"
  by code_simp+

lemma strip_with_visible:
  assumes "list_all visible s" "list_all (\<lambda>p. p \<noteq> [] \<longrightarrow> \<not> visible (hd p)) seqs"
  shows "strip_with seqs s = s"
proof (rule strip_with_stop)
  have "p = []" if "p \<in> set seqs" "prefix p s" for p
  proof (rule ccontr)
    assume p: "p \<noteq> []"
    then have "hd p \<in> set s" using that(2) by (meson hd_in_set in_mono set_mono_prefix)
    then show False using assms that(1) p by (auto simp: list_all_iff)
  qed
  then show "find (\<lambda>p. p \<noteq> [] \<and> prefix p s) seqs = None" by (auto simp: find_None_iff)
qed

lemma trim_space_visible: "list_all visible s \<Longrightarrow> trim_space s = s"
  unfolding trim_space_def using space_seqs_visible by (simp add: strip_with_visible)

section \<open>Cutting and counting\<close>

text \<open>\<open>strings.Cut\<close> and \<open>strings.Count\<close> with a one-byte separator.\<close>

fun str_cut :: "char \<Rightarrow> string \<Rightarrow> (string \<times> string) option" where
  "str_cut sep [] = None"
| "str_cut sep (c # cs) =
     (if c = sep then Some ([], cs) else map_option (\<lambda>(l, r). (c # l, r)) (str_cut sep cs))"

lemma str_cut_append: "sep \<notin> set l \<Longrightarrow> str_cut sep (l @ sep # r) = Some (l, r)"
  by (induction l) auto

lemma str_cut_SomeD: "str_cut sep s = Some (l, r) \<Longrightarrow> s = l @ sep # r \<and> sep \<notin> set l"
  by (induction s arbitrary: l) (auto split: if_splits)

lemma str_cut_None_iff: "str_cut sep s = None \<longleftrightarrow> sep \<notin> set s"
  by (induction s) auto

section \<open>Decimal numbers\<close>

text \<open>\<open>strconv.Itoa\<close> / \<open>FormatInt\<close> / \<open>FormatUint\<close> in base 10.\<close>

definition digit_char :: "nat \<Rightarrow> char" where
  "digit_char d = char_of (48 + d)"

fun nat_dec :: "nat \<Rightarrow> string" where
  "nat_dec n = (if n < 10 then [digit_char n] else nat_dec (n div 10) @ [digit_char (n mod 10)])"

declare nat_dec.simps [simp del]

definition int_dec :: "int \<Rightarrow> string" where
  "int_dec n = (if n < 0 then CHR ''-'' # nat_dec (nat (- n)) else nat_dec (nat n))"

definition digit_val :: "char \<Rightarrow> nat" where
  "digit_val c = byte_val c - 48"

definition dec_nat :: "string \<Rightarrow> nat" where
  "dec_nat s = foldl (\<lambda>a c. 10 * a + digit_val c) 0 s"

definition parse_uint :: "string \<Rightarrow> nat option" where
  "parse_uint s = (if s \<noteq> [] \<and> list_all is_digit s then Some (dec_nat s) else None)"

text \<open>\<open>strconv.ParseInt(s, 10, 64)\<close> (and \<open>Atoi\<close> on a 64-bit platform): one optional sign, digits,
  and the \<open>int64\<close> range.\<close>

definition parse_int64 :: "string \<Rightarrow> int option" where
  "parse_int64 s =
     (case (case s of
              [] \<Rightarrow> None
            | c # cs \<Rightarrow> (if c = CHR ''-'' then map_option (\<lambda>n. - int n) (parse_uint cs)
                        else if c = CHR ''+'' then map_option int (parse_uint cs)
                        else map_option int (parse_uint s))) of
        None \<Rightarrow> None
      | Some n \<Rightarrow> (if in_int64 n then Some n else None))"

lemma byte_val_digit_char [simp]: "d < 10 \<Longrightarrow> byte_val (digit_char d) = 48 + d"
  by (simp add: digit_char_def)

lemma digit_char_code [code]:
  "digit_char d =
     (if d = 0 then CHR ''0'' else if d = 1 then CHR ''1'' else if d = 2 then CHR ''2'' else if d = 3 then CHR ''3''
      else if d = 4 then CHR ''4'' else if d = 5 then CHR ''5'' else if d = 6 then CHR ''6'' else if d = 7 then CHR ''7''
      else if d = 8 then CHR ''8'' else if d = 9 then CHR ''9'' else char_of (48 + d))"
  by (simp add: digit_char_def char_of_eq_iff take_bit_eq_mod)

lemma is_digit_digit_char [simp]: "d < 10 \<Longrightarrow> is_digit (digit_char d)"
  by (simp add: is_digit_def)

lemma digit_val_digit_char [simp]: "d < 10 \<Longrightarrow> digit_val (digit_char d) = d"
  by (simp add: digit_val_def)

lemma digit_char_inj: "d < 10 \<Longrightarrow> e < 10 \<Longrightarrow> digit_char d = digit_char e \<longleftrightarrow> d = e"
  by (metis digit_val_digit_char)

lemma digit_char_digit_val: "is_digit c \<Longrightarrow> digit_char (digit_val c) = c"
  by (simp add: is_digit_def digit_char_def digit_val_def)

lemma nat_dec_nonempty [simp]: "nat_dec n \<noteq> []"
  by (subst nat_dec.simps) simp

lemma nat_dec_digits [simp]: "list_all is_digit (nat_dec n)"
proof (induction n rule: nat_dec.induct)
  case (1 n)
  then show ?case by (subst nat_dec.simps) auto
qed

lemma dec_nat_append_digit: "dec_nat (s @ [c]) = 10 * dec_nat s + digit_val c"
  by (simp add: dec_nat_def)

lemma dec_nat_nat_dec [simp]: "dec_nat (nat_dec n) = n"
proof (induction n rule: nat_dec.induct)
  case (1 n)
  show ?case
  proof (cases "n < 10")
    case True
    then show ?thesis by (subst nat_dec.simps) (simp add: dec_nat_def)
  next
    case False
    with 1 show ?thesis by (subst nat_dec.simps) (simp add: dec_nat_append_digit)
  qed
qed

lemma parse_uint_nat_dec [simp]: "parse_uint (nat_dec n) = Some n"
  by (simp add: parse_uint_def)

lemma hd_nat_dec: "is_digit (hd (nat_dec n))"
  using nat_dec_digits [of n] nat_dec_nonempty [of n] by (cases "nat_dec n") auto

lemma not_digit_sign [simp]: "\<not> is_digit CHR ''-''" "\<not> is_digit CHR ''+''"
  by (simp_all add: is_digit_def)

lemma parse_int64_int_dec [simp]:
  assumes "in_int64 n"
  shows "parse_int64 (int_dec n) = Some n"
proof (cases "n < 0")
  case True
  with assms show ?thesis by (simp add: int_dec_def parse_int64_def)
next
  case False
  obtain c cs where s: "nat_dec (nat n) = c # cs" by (cases "nat_dec (nat n)") auto
  have "is_digit c" using hd_nat_dec [of "nat n"] s by simp
  then have "c \<noteq> CHR ''-''" "c \<noteq> CHR ''+''" by auto
  with s False assms parse_uint_nat_dec [of "nat n"] show ?thesis
    by (auto simp: int_dec_def parse_int64_def)
qed

lemma parse_int64_range: "parse_int64 s = Some n \<Longrightarrow> in_int64 n"
  by (auto simp: parse_int64_def split: option.splits if_splits)

subsection \<open>Fixed width\<close>

definition pad_nat :: "nat \<Rightarrow> nat \<Rightarrow> string" where
  "pad_nat w n = replicate (w - length (nat_dec n)) (CHR ''0'') @ nat_dec n"

lemma length_nat_dec: "0 < w \<Longrightarrow> n < 10 ^ w \<Longrightarrow> length (nat_dec n) \<le> w"
proof (induction w arbitrary: n)
  case 0
  then show ?case by simp
next
  case (Suc w)
  show ?case
  proof (cases "n < 10")
    case True
    then show ?thesis by (subst nat_dec.simps) simp
  next
    case False
    with Suc.prems have "0 < w" by (cases w) auto
    moreover have "n div 10 < 10 ^ w" using Suc.prems by (simp add: less_mult_imp_div_less mult.commute)
    ultimately have "length (nat_dec (n div 10)) \<le> w" by (rule Suc.IH)
    with False show ?thesis by (subst nat_dec.simps) simp
  qed
qed

lemma length_pad_nat: "0 < w \<Longrightarrow> n < 10 ^ w \<Longrightarrow> length (pad_nat w n) = w"
  using length_nat_dec [of w n] by (simp add: pad_nat_def)

lemma dec_nat_zeros: "dec_nat (replicate k (CHR ''0'') @ s) = dec_nat s"
  by (induction k) (simp_all add: dec_nat_def digit_val_def)

lemma dec_nat_pad_nat [simp]: "dec_nat (pad_nat w n) = n"
  by (simp add: pad_nat_def dec_nat_zeros)

lemma pad_nat_digits [simp]: "list_all is_digit (pad_nat w n)"
  by (simp add: pad_nat_def list_all_append) (simp add: list_all_iff is_digit_def)

lemma parse_uint_pad_nat [simp]: "parse_uint (pad_nat w n) = Some n"
  by (simp add: parse_uint_def) (simp add: pad_nat_def)

end
