(* ===== verification/Crc32.thy ===== *)
theory Crc32
  imports Gline_Prelude
begin

text \<open>
  \<open>hash/crc32\<close> with the IEEE polynomial: \<open>crc32_sum\<close> is \<open>NewIEEE\<close>, \<open>Write\<close> and \<open>Sum32\<close>.
  One register step is injective (the polynomial has its top bit set), so two messages of the same
  length that differ in one byte have different sums (\<open>crc32_one_byte\<close>).
\<close>

unbundle bit_operations_syntax

definition crc_poly :: "32 word" where "crc_poly = 0xEDB88320"

definition crc_bit :: "32 word \<Rightarrow> 32 word" where
  "crc_bit c = (if bit c 0 then drop_bit 1 c XOR crc_poly else drop_bit 1 c)"

definition crc_byte :: "32 word \<Rightarrow> char \<Rightarrow> 32 word" where
  "crc_byte c b = (crc_bit ^^ 8) (c XOR of_nat (byte_val b))"

definition crc_update :: "32 word \<Rightarrow> string \<Rightarrow> 32 word" where
  "crc_update c s = foldl crc_byte c s"

definition crc32_sum :: "string \<Rightarrow> 32 word" where
  "crc32_sum s = NOT (crc_update 0xFFFFFFFF s)"

lemma crc_bits8: "(crc_bit ^^ 8) c = crc_bit (crc_bit (crc_bit (crc_bit (crc_bit (crc_bit (crc_bit (crc_bit c)))))))"
  by (simp add: numeral_eq_Suc)

lemma bit_crc_poly_top: "bit crc_poly 31"
  by (simp add: crc_poly_def)

lemma bit_drop_top: "\<not> bit (drop_bit 1 (c :: 32 word)) 31"
  using bit_imp_le_length [of c 32] by (auto simp: bit_drop_bit_eq)

lemma crc_bit_top: "bit (crc_bit c) 31 \<longleftrightarrow> bit c 0"
  using bit_crc_poly_top bit_drop_top [of c] by (simp add: crc_bit_def bit_xor_iff)

lemma drop_bit_one_inj:
  assumes "drop_bit 1 c = drop_bit 1 (d :: 32 word)" and "bit c 0 = bit d 0"
  shows "c = d"
proof (rule bit_eqI)
  fix n
  show "bit c n \<longleftrightarrow> bit d n"
  proof (cases n)
    case (Suc m)
    have "bit (drop_bit 1 c) m = bit (drop_bit 1 d) m" by (simp only: assms(1))
    with Suc show ?thesis by (simp add: bit_drop_bit_eq)
  qed (simp add: assms(2))
qed

lemma crc_bit_inj: "crc_bit c = crc_bit d \<Longrightarrow> c = d"
proof -
  assume e: "crc_bit c = crc_bit d"
  then have b: "bit c 0 = bit d 0" by (metis crc_bit_top)
  have "drop_bit 1 c = drop_bit 1 d"
  proof (cases "bit c 0")
    case True
    with e b have "drop_bit 1 c XOR crc_poly = drop_bit 1 d XOR crc_poly" by (simp add: crc_bit_def)
    then have "(drop_bit 1 c XOR crc_poly) XOR crc_poly = (drop_bit 1 d XOR crc_poly) XOR crc_poly" by simp
    then show ?thesis by (simp add: xor.assoc)
  next
    case False
    with e b show ?thesis by (simp add: crc_bit_def)
  qed
  then show ?thesis using b by (rule drop_bit_one_inj)
qed

lemma crc_bits_inj: "(crc_bit ^^ n) c = (crc_bit ^^ n) d \<Longrightarrow> c = d"
  by (induction n arbitrary: c d) (auto dest: crc_bit_inj)

lemma xor_cancel:
  assumes "x XOR z = y XOR z"
  shows "x = (y :: 32 word)"
proof -
  have "(x XOR z) XOR z = (y XOR z) XOR z" by (simp only: assms)
  then show ?thesis by (simp only: xor.assoc xor_self_eq xor.right_neutral)
qed

lemma crc_byte_inj: "crc_byte c b = crc_byte d b \<Longrightarrow> c = d"
  unfolding crc_byte_def by (drule crc_bits_inj) (rule xor_cancel)

lemma of_nat_byte_inj: "(of_nat (byte_val a) :: 32 word) = of_nat (byte_val b) \<Longrightarrow> a = b"
proof -
  assume e: "(of_nat (byte_val a) :: 32 word) = of_nat (byte_val b)"
  have "unat (of_nat (byte_val x) :: 32 word) = byte_val x" for x
    by (simp add: unsigned_of_nat take_bit_nat_eq_self_iff less_trans [OF byte_val_less])
  then have "byte_val a = byte_val b" by (metis e)
  then show ?thesis by (simp only: of_char_eq_iff)
qed

lemma crc_byte_inj_byte: "crc_byte c a = crc_byte c b \<Longrightarrow> a = b"
  unfolding crc_byte_def
  by (drule crc_bits_inj) (rule of_nat_byte_inj, rule xor_cancel [of _ c], simp add: xor.commute)

lemma crc_update_inj: "crc_update c s = crc_update d s \<Longrightarrow> c = d"
  unfolding crc_update_def by (induction s arbitrary: c d) (auto dest: crc_byte_inj)

lemma crc32_one_byte:
  assumes "a \<noteq> b"
  shows "crc32_sum (p @ a # s) \<noteq> crc32_sum (p @ b # s)"
proof
  assume "crc32_sum (p @ a # s) = crc32_sum (p @ b # s)"
  then have "crc_update 0xFFFFFFFF (p @ a # s) = crc_update 0xFFFFFFFF (p @ b # s)"
    by (simp add: crc32_sum_def)
  then have "crc_update (crc_byte (crc_update 0xFFFFFFFF p) a) s = crc_update (crc_byte (crc_update 0xFFFFFFFF p) b) s"
    by (simp add: crc_update_def)
  then have "crc_byte (crc_update 0xFFFFFFFF p) a = crc_byte (crc_update 0xFFFFFFFF p) b"
    by (rule crc_update_inj)
  then show False using assms crc_byte_inj_byte by blast
qed

text \<open>The published check value of the code: the sum of the digits 1 to 9.\<close>

lemma crc_bit_num: "crc_bit (numeral n) =
    (if bit (numeral n :: 32 word) 0 then drop_bit 1 (numeral n) XOR crc_poly else drop_bit 1 (numeral n))"
  by (rule crc_bit_def)

lemma crc32_check: "crc32_sum ''123456789'' = 0xCBF43926"
  by (simp add: crc32_sum_def crc_update_def crc_byte_def crc_bits8 crc_bit_num crc_poly_def)

end
