(* ===== verification/Spool_Frame.thy ===== *)
theory Spool_Frame
  imports Crc32
begin

text \<open>
  The record format of the agent's write-ahead log (\<open>internal/agent/spool/wal.go\<close>): a header of 16
  bytes (magic, version, kind, two reserved bytes, big-endian body length, checksum of kind and body)
  and the body. \<open>frame_record\<close>, \<open>parse_header\<close> and \<open>record_checksum\<close> are the functions of the same
  names; \<open>next_record\<close> is one turn of the loop of \<open>recover\<close> up to the checksum.
\<close>

section \<open>Big-endian integers\<close>

text \<open>\<open>binary.BigEndian.PutUint32\<close> and \<open>Uint32\<close>; a value that does not fit is cut, as the conversion does.\<close>

definition put_be32 :: "32 word \<Rightarrow> bytes" where
  "put_be32 w =
     [char_of (unat w div 2 ^ 24 mod 256), char_of (unat w div 2 ^ 16 mod 256),
      char_of (unat w div 2 ^ 8 mod 256), char_of (unat w mod 256)]"

definition get_be32 :: "bytes \<Rightarrow> 32 word" where
  "get_be32 s =
     of_nat (byte_val (s ! 0) * 2 ^ 24 + byte_val (s ! 1) * 2 ^ 16 + byte_val (s ! 2) * 2 ^ 8 + byte_val (s ! 3))"

lemma length_put_be32 [simp]: "length (put_be32 w) = 4"
  by (simp add: put_be32_def)

lemma base256: 
  fixes n :: nat
  shows "n div 16777216 mod 256 * 16777216 + n div 65536 mod 256 * 65536 + n div 256 mod 256 * 256 + n mod 256
    = n mod 4294967296"
proof -
  have "n mod 4294967296 = 16777216 * (n div 16777216 mod 256) + n mod 16777216"
    using mod_mult2_eq [of n 16777216 256] by simp
  moreover have "n mod 16777216 = 65536 * (n div 65536 mod 256) + n mod 65536"
    using mod_mult2_eq [of n 65536 256] by simp
  moreover have "n mod 65536 = 256 * (n div 256 mod 256) + n mod 256"
    using mod_mult2_eq [of n 256 256] by simp
  ultimately show ?thesis by simp
qed

lemma get_put_be32 [simp]: "get_be32 (put_be32 w @ r) = w"
proof -
  have "get_be32 (put_be32 w @ r) = of_nat (unat w mod 4294967296)"
    unfolding base256 [symmetric] get_be32_def put_be32_def by simp
  also have "unat w mod 4294967296 = unat w" using unsigned_less [of w, where ?'a = nat] by simp
  finally show ?thesis by simp
qed

lemma get_put_be32_only [simp]: "get_be32 (put_be32 w) = w"
  using get_put_be32 [of w "[]"] by simp

section \<open>Records\<close>

definition record_header_bytes :: nat where "record_header_bytes = 16"
definition record_version :: char where "record_version = CHR 0x01"
definition record_commit :: char where "record_commit = CHR 0x01"
definition record_ack :: char where "record_ack = CHR 0x02"
definition record_checkpoint :: char where "record_checkpoint = CHR 0x03"
definition record_quarantine :: char where "record_quarantine = CHR 0x04"
definition record_magic :: bytes where "record_magic = ''GLW1''"

definition record_checksum :: "char \<Rightarrow> bytes \<Rightarrow> 32 word" where
  "record_checksum kind body = crc32_sum (kind # body)"

text \<open>\<open>None\<close> when the body is longer than the length field can say.\<close>

definition frame_record :: "char \<Rightarrow> bytes \<Rightarrow> bytes option" where
  "frame_record kind body =
     (if length body > 2 ^ 32 - 1 then None
      else Some (record_magic @ [record_version, kind, CHR 0x00, CHR 0x00] @
                 put_be32 (of_nat (length body)) @ put_be32 (record_checksum kind body) @ body))"

datatype header_error = BadMagic | BadVersion | BadReserved

definition parse_header :: "bytes \<Rightarrow> header_error + (char \<times> 32 word \<times> 32 word)" where
  "parse_header header =
     (if length header \<noteq> record_header_bytes \<or> take 4 header \<noteq> record_magic then Inl BadMagic
      else if header ! 4 \<noteq> record_version then Inl BadVersion
      else if header ! 6 \<noteq> CHR 0x00 \<or> header ! 7 \<noteq> CHR 0x00 then Inl BadReserved
      else Inr (header ! 5, get_be32 (drop 8 header), get_be32 (drop 12 header)))"

text \<open>
  What \<open>recover\<close> finds at an offset of the file: the end, an incomplete tail, a corrupt record, or a
  record with its kind, its body, its total size and the bytes after it.
\<close>

datatype scan = AtEnd | TornTail | BadRecord | Found char bytes int bytes

definition next_record :: "int \<Rightarrow> bytes \<Rightarrow> scan" where
  "next_record max_record s =
     (if s = [] then AtEnd
      else if length s < record_header_bytes then TornTail
      else (case parse_header (take record_header_bytes s) of
              Inl _ \<Rightarrow> BadRecord
            | Inr (kind, len, checksum) \<Rightarrow>
                (let n = unat len in
                 if int n > max_record then BadRecord
                 else if length s < record_header_bytes + n then TornTail
                 else (let body = take n (drop record_header_bytes s) in
                       if record_checksum kind body \<noteq> checksum then BadRecord
                       else Found kind body (int (record_header_bytes + n)) (drop (record_header_bytes + n) s)))))"

lemma frame_record_length: "frame_record kind body = Some r \<Longrightarrow> length r = record_header_bytes + length body"
  by (auto simp: frame_record_def record_header_bytes_def record_magic_def split: if_splits)

lemma frame_record_Some_iff: "frame_record kind body \<noteq> None \<longleftrightarrow> length body < 2 ^ 32"
  by (auto simp: frame_record_def)

lemma parse_header_frame:
  assumes "frame_record kind body = Some r"
  shows "parse_header (take record_header_bytes r) = Inr (kind, of_nat (length body), record_checksum kind body)"
    and "drop record_header_bytes r = body"
proof -
  define h where "h = record_magic @ [record_version, kind, CHR 0x00, CHR 0x00] @
    put_be32 (of_nat (length body)) @ put_be32 (record_checksum kind body)"
  have r: "r = h @ body" using assms by (simp add: frame_record_def h_def split: if_splits)
  have len: "length h = record_header_bytes" by (simp add: h_def record_magic_def record_header_bytes_def)
  then have h: "take record_header_bytes r = h" "drop record_header_bytes r = body" by (simp_all add: r)
  then show "drop record_header_bytes r = body" by simp
  have "drop 8 h = put_be32 (of_nat (length body)) @ put_be32 (record_checksum kind body)"
    "drop 12 h = put_be32 (record_checksum kind body) @ []"
    by (simp_all add: h_def record_magic_def)
  moreover have "take 4 h = record_magic" "h ! 4 = record_version" "h ! 5 = kind" "h ! 6 = CHR 0x00" "h ! 7 = CHR 0x00"
    by (simp_all add: h_def record_magic_def nth_append numeral_eq_Suc)
  ultimately show "parse_header (take record_header_bytes r) = Inr (kind, of_nat (length body), record_checksum kind body)"
    unfolding h(1) parse_header_def using len by (simp only: get_put_be32) simp
qed

text \<open>A framed record is found again, whatever follows it.\<close>

lemma next_record_frame:
  assumes "frame_record kind body = Some r" and "int (length body) \<le> max_record"
  shows "next_record max_record (r @ rest) = Found kind body (int (length r)) rest"
proof -
  have l: "length body < 2 ^ 32" using assms(1) by (auto simp: frame_record_def split: if_splits)
  have len: "length r = record_header_bytes + length body" by (rule frame_record_length [OF assms(1)])
  have n: "unat (of_nat (length body) :: 32 word) = length body"
    using l by (simp add: unsigned_of_nat take_bit_nat_eq_self)
  then have u: "uint (of_nat (length body) :: 32 word) = int (length body)" by (metis uint_nat)
  have t: "take record_header_bytes (r @ rest) = take record_header_bytes r"
    "take (length body) (drop record_header_bytes (r @ rest)) = body"
    "drop (record_header_bytes + length body) (r @ rest) = rest"
    using len parse_header_frame(2) [OF assms(1)] by simp_all
  have "r \<noteq> []" using len by (auto simp: record_header_bytes_def)
  then show ?thesis
    unfolding next_record_def t(1) parse_header_frame(1) [OF assms(1)]
    using assms(2) len n u t by (simp add: Let_def)
qed

section \<open>Tampering\<close>

lemma horner256: "x < 256 \<Longrightarrow> y < 256 \<Longrightarrow> a * 256 + x = b * 256 + y \<longleftrightarrow> a = b \<and> x = (y :: nat)"
proof
  assume l: "x < 256" "y < 256" and e: "a * 256 + x = b * 256 + y"
  have "(a * 256 + x) div 256 = a" "(b * 256 + y) div 256 = b" using l by simp_all
  with e show "a = b \<and> x = y" by simp
qed simp

lemma unat_of_nat32: "n < 4294967296 \<Longrightarrow> unat (of_nat n :: 32 word) = n"
  by (simp add: unsigned_of_nat take_bit_nat_eq_self)

lemma four_bytes_less:
  fixes a b c d :: nat
  assumes "a < 256" "b < 256" "c < 256" "d < 256"
  shows "((a * 256 + b) * 256 + c) * 256 + d < 4294967296"
  using assms by simp

lemma get_be32_inj:
  assumes "get_be32 s = get_be32 t" and "i < 4"
  shows "s ! i = t ! i"
proof -
  let ?n = "\<lambda>s :: bytes. ((byte_val (s ! 0) * 256 + byte_val (s ! 1)) * 256 + byte_val (s ! 2)) * 256 + byte_val (s ! 3)"
  have less: "?n u < 4294967296" for u
    by (rule four_bytes_less) (rule byte_val_less)+
  have g: "get_be32 u = of_nat (?n u)" for u
    unfolding get_be32_def by (rule arg_cong [where f = of_nat]) simp
  have "unat (of_nat (?n u) :: 32 word) = ?n u" for u
    by (rule unat_of_nat32) (rule less)
  then have "?n s = ?n t" using assms(1) unfolding g by metis
  then have "byte_val (s ! 0) = byte_val (t ! 0)" "byte_val (s ! 1) = byte_val (t ! 1)"
    "byte_val (s ! 2) = byte_val (t ! 2)" "byte_val (s ! 3) = byte_val (t ! 3)"
    by (simp_all only: horner256 byte_val_less)
  then have "s ! 0 = t ! 0" "s ! 1 = t ! 1" "s ! 2 = t ! 2" "s ! 3 = t ! 3" by (simp_all only: of_char_eq_iff)
  moreover have "i = 0 \<or> i = 1 \<or> i = 2 \<or> i = 3" using assms(2) by linarith
  ultimately show ?thesis by auto
qed

lemma list_update_neq: "i < length xs \<Longrightarrow> c \<noteq> xs ! i \<Longrightarrow> xs[i := c] \<noteq> xs"
  by (metis nth_list_update_eq)

text \<open>
  Any other byte in place of one of a record's bytes, the four of the length field apart, is found to be
  corrupt: the magic, the version and the reserved bytes are compared, and kind, body and
  checksum are tied together by the checksum.
\<close>

lemma next_record_tamper:
  assumes "frame_record kind body = Some r" and "int (length body) \<le> max_record"
    and "i < length r" and "i < 8 \<or> 12 \<le> i" and "c \<noteq> r ! i"
  shows "next_record max_record (r[i := c] @ rest) = BadRecord"
proof -
  define h where "h = record_magic @ [record_version, kind, CHR 0x00, CHR 0x00] @
    put_be32 (of_nat (length body)) @ put_be32 (record_checksum kind body)"
  have r: "r = h @ body" using assms(1) by (simp add: frame_record_def h_def split: if_splits)
  have lh: "length h = 16" by (simp add: h_def record_magic_def)
  have l: "length body < 2 ^ 32" using assms(1) by (auto simp: frame_record_def split: if_splits)
  have n: "unat (of_nat (length body) :: 32 word) = length body"
    using l by (simp add: unsigned_of_nat take_bit_nat_eq_self)
  have parts: "take 4 h = record_magic" "h ! 4 = record_version" "h ! 5 = kind" "h ! 6 = CHR 0x00" "h ! 7 = CHR 0x00"
    "drop 8 h = put_be32 (of_nat (length body)) @ put_be32 (record_checksum kind body)"
    "drop 12 h = put_be32 (record_checksum kind body) @ []"
    by (simp_all add: h_def record_magic_def nth_append numeral_eq_Suc)
  show ?thesis
  proof (cases "i < 16")
    case True
    then have r': "r[i := c] = h[i := c] @ body" and ci: "c \<noteq> h ! i"
      using assms(5) lh by (simp_all add: r list_update_append nth_append)
    have t: "take record_header_bytes (r[i := c] @ rest) = h[i := c]"
      "drop record_header_bytes (r[i := c] @ rest) = body @ rest"
      using lh by (simp_all add: r' record_header_bytes_def)
    consider "i < 4" | "i = 4" | "i = 5" | "i = 6 \<or> i = 7" | "12 \<le> i" using assms(4) by linarith
    then have "parse_header (h[i := c]) \<in> range Inl \<or> 
      (\<exists>k s. parse_header (h[i := c]) = Inr (k, of_nat (length body), s) \<and> record_checksum k body \<noteq> s)"
    proof cases
      case 1
      then have "take 4 (h[i := c]) \<noteq> record_magic"
        using ci parts(1) list_update_neq [of i "take 4 h" c] lh
        by (simp add: take_update_swap flip: parts(1))
      then show ?thesis by (simp add: parse_header_def)
    next
      case 2
      with ci parts lh show ?thesis by (simp add: parse_header_def)
    next
      case 3
      then have "parse_header (h[i := c]) = Inr (c, of_nat (length body), record_checksum kind body)"
        using parts lh by (simp add: parse_header_def record_header_bytes_def drop_update_cancel)
      moreover have "record_checksum c body \<noteq> record_checksum kind body"
        using crc32_one_byte [of c kind "[]" body] ci parts(3) 3 by (simp add: record_checksum_def)
      ultimately show ?thesis by blast
    next
      case 4
      with ci parts lh show ?thesis by (auto simp: parse_header_def)
    next
      case 5
      let ?s = "drop 12 (h[i := c])"
      have i4: "i - 12 < 4" using True 5 by linarith
      have "get_be32 ?s \<noteq> record_checksum kind body"
      proof
        assume "get_be32 ?s = record_checksum kind body"
        then have "get_be32 ?s = get_be32 (drop 12 h)" by (simp only: parts(7) get_put_be32)
        from get_be32_inj [OF this i4] 5 lh ci True show False by simp
      qed
      moreover have "get_be32 (drop 8 (h[i := c])) = of_nat (length body)"
      proof -
        have "drop 8 (h[i := c]) = put_be32 (of_nat (length body)) @ (put_be32 (record_checksum kind body))[i - 12 := c]"
          using 5 not_less_iff_gr_or_eq [of "i - 8" 4]
          by (cases "i = 12") (auto simp: drop_update_swap parts(6) list_update_append)
        then show ?thesis by (simp only: get_put_be32)
      qed
      ultimately show ?thesis
        using parts 5 lh by (simp add: parse_header_def record_header_bytes_def take_update_swap del: drop_update_swap)
    qed
    then show ?thesis
      unfolding next_record_def t using n assms(2) lh r'
      by (auto simp: record_header_bytes_def Let_def)
  next
    case False
    define j where "j = i - 16"
    have j: "r[i := c] = h @ body[j := c]" "j < length body" "c \<noteq> body ! j"
      using False assms(3,5) lh by (simp_all add: r list_update_append j_def nth_append)
    have t: "take record_header_bytes (r[i := c] @ rest) = take record_header_bytes r"
      "drop record_header_bytes (r[i := c] @ rest) = body[j := c] @ rest"
      unfolding j(1) using lh by (simp_all add: r record_header_bytes_def)
    have b: "body = take j body @ body ! j # drop (Suc j) body" "body[j := c] = take j body @ c # drop (Suc j) body"
      using j(2) by (simp_all add: id_take_nth_drop upd_conv_take_nth_drop)
    have "record_checksum kind (body[j := c]) \<noteq> record_checksum kind body"
      using crc32_one_byte [OF j(3), of "kind # take j body" "drop (Suc j) body"]
      unfolding record_checksum_def by (subst (2) b(1), subst b(2)) simp
    then show ?thesis
      unfolding next_record_def t parse_header_frame(1) [OF assms(1)] using n assms(2) lh j
      by (auto simp: record_header_bytes_def Let_def)
  qed
qed

end
