(* ===== verification/Go_Utf8.thy ===== *)
theory Go_Utf8
  imports Gline_Prelude
begin

text \<open>
  The parts of Go's \<open>unicode/utf8\<close> that the code and \<open>encoding/json\<close> rest on: decoding the first
  rune of a byte string, encoding a rune, and validity of a whole string.
\<close>

definition cont_byte :: "nat \<Rightarrow> bool" where
  "cont_byte b \<longleftrightarrow> 0x80 \<le> b \<and> b \<le> 0xBF"

text \<open>
  The table of \<open>utf8.acceptRanges\<close>: the length of the sequence that a lead byte starts, with the
  range allowed for the second byte; \<open>None\<close> for a byte that starts none.
\<close>

definition lead_info :: "nat \<Rightarrow> (nat \<times> nat \<times> nat) option" where
  "lead_info b =
     (if b < 0xC2 then None
      else if b \<le> 0xDF then Some (2, 0x80, 0xBF)
      else if b = 0xE0 then Some (3, 0xA0, 0xBF)
      else if b = 0xED then Some (3, 0x80, 0x9F)
      else if b \<le> 0xEF then Some (3, 0x80, 0xBF)
      else if b = 0xF0 then Some (4, 0x90, 0xBF)
      else if b \<le> 0xF3 then Some (4, 0x80, 0xBF)
      else if b = 0xF4 then Some (4, 0x80, 0x8F)
      else None)"

text \<open>
  \<open>utf8.DecodeRuneInString\<close> on a non-empty string: the rune and its size, or \<open>None\<close> for
  \<open>(RuneError, 1)\<close>.
\<close>

definition multi_rune :: "nat \<Rightarrow> nat \<Rightarrow> nat \<Rightarrow> nat \<Rightarrow> nat \<Rightarrow> nat \<Rightarrow> nat \<Rightarrow> nat option" where
  "multi_rune n lo hi b0 b1 b2 b3 =
     (if b1 < lo \<or> hi < b1 then None
      else if n = 2 then Some ((b0 mod 32) * 64 + b1 mod 64)
      else if \<not> cont_byte b2 then None
      else if n = 3 then Some ((b0 mod 16) * 4096 + (b1 mod 64) * 64 + b2 mod 64)
      else if \<not> cont_byte b3 then None
      else Some ((b0 mod 8) * 262144 + (b1 mod 64) * 4096 + (b2 mod 64) * 64 + b3 mod 64))"

definition decode_multi :: "string \<Rightarrow> (nat \<times> nat) option" where
  "decode_multi s =
     (case s of
        [] \<Rightarrow> None
      | c # cs \<Rightarrow>
          (case lead_info (byte_val c) of
             None \<Rightarrow> None
           | Some (n, lo, hi) \<Rightarrow>
               (if length s < n then None
                else map_option (\<lambda>r. (r, n))
                  (multi_rune n lo hi (byte_val c) (byte_val (s ! 1)) (byte_val (s ! 2)) (byte_val (s ! 3))))))"

definition decode_rune :: "string \<Rightarrow> (nat \<times> nat) option" where
  "decode_rune s =
     (case s of
        [] \<Rightarrow> None
      | c # cs \<Rightarrow> if byte_val c < 0x80 then Some (byte_val c, 1) else decode_multi s)"

text \<open>\<open>utf8.AppendRune\<close>; a surrogate or a value beyond the last code point is encoded as U+FFFD.\<close>

definition rune_error_bytes :: string where
  "rune_error_bytes = [CHR 0xEF, CHR 0xBF, CHR 0xBD]"

definition encode_rune :: "nat \<Rightarrow> string" where
  "encode_rune r =
     (if r < 0x80 then [char_of r]
      else if r < 0x800 then [char_of (0xC0 + r div 64), char_of (0x80 + r mod 64)]
      else if (0xD800 \<le> r \<and> r \<le> 0xDFFF) \<or> 0x10FFFF < r then rune_error_bytes
      else if r < 0x10000 then
        [char_of (0xE0 + r div 4096), char_of (0x80 + r div 64 mod 64), char_of (0x80 + r mod 64)]
      else [char_of (0xF0 + r div 262144), char_of (0x80 + r div 4096 mod 64),
            char_of (0x80 + r div 64 mod 64), char_of (0x80 + r mod 64)])"

lemma lead_info_size: "lead_info b = Some (n, lo, hi) \<Longrightarrow> n = 2 \<or> n = 3 \<or> n = 4"
  by (auto simp: lead_info_def split: if_splits)

lemma multi_rune_cong:
  assumes "n = 2 \<or> n = 3 \<or> n = 4" and "\<And>i. i < n \<Longrightarrow> 0 < i \<Longrightarrow> b i = b' i"
  shows "multi_rune n lo hi b0 (b 1) (b 2) (b 3) = multi_rune n lo hi b0 (b' 1) (b' 2) (b' (3::nat))"
  using assms by (auto simp: multi_rune_def)

lemma decode_multi_size:
  "decode_multi s = Some (r, n) \<Longrightarrow> 2 \<le> n \<and> n \<le> 4 \<and> n \<le> length s"
  by (cases s) (auto simp: decode_multi_def Suc_le_eq dest!: lead_info_size split: option.splits if_splits)

lemma decode_rune_size: "decode_rune s = Some (r, n) \<Longrightarrow> 1 \<le> n \<and> n \<le> length s"
  by (auto simp: decode_rune_def split: list.splits if_splits dest: decode_multi_size)

text \<open>Decoding looks at the first \<open>n\<close> bytes only.\<close>

lemma decode_multi_take:
  assumes "decode_multi s = Some (r, n)"
  shows "decode_multi (take n s @ t) = Some (r, n)"
proof -
  obtain c cs where s: "s = c # cs" using assms by (cases s) (auto simp: decode_multi_def)
  have n: "2 \<le> n" "n \<le> length s" using decode_multi_size [OF assms] by auto
  obtain lo hi where info: "lead_info (byte_val c) = Some (n, lo, hi)"
    and r: "multi_rune n lo hi (byte_val c) (byte_val (s ! 1)) (byte_val (s ! 2)) (byte_val (s ! 3)) = Some r"
    using assms by (auto simp: decode_multi_def s split: option.splits if_splits)
  let ?s' = "take n s @ t"
  have c: "?s' = c # (take (n - 1) cs @ t)" using s n by (cases n) auto
  have "multi_rune n lo hi (byte_val c) (byte_val (?s' ! 1)) (byte_val (?s' ! 2)) (byte_val (?s' ! 3))
      = multi_rune n lo hi (byte_val c) (byte_val (s ! 1)) (byte_val (s ! 2)) (byte_val (s ! 3))"
    by (rule multi_rune_cong [OF lead_info_size [OF info]]) (use n in \<open>simp add: nth_append\<close>)
  with r have "multi_rune n lo hi (byte_val c) (byte_val (?s' ! 1)) (byte_val (?s' ! 2)) (byte_val (?s' ! 3)) = Some r"
    by simp
  moreover have "\<not> length ?s' < n" using n by simp
  ultimately show ?thesis
    unfolding decode_multi_def c by (simp add: info del: length_append)
qed

text \<open>\<open>utf8.ValidString\<close>.\<close>

function valid_utf8 :: "string \<Rightarrow> bool" where
  "valid_utf8 s =
     (s = [] \<or> (case decode_rune s of None \<Rightarrow> False | Some (r, n) \<Rightarrow> valid_utf8 (drop n s)))"
  by pat_completeness auto
termination
  by (relation "measure length") (auto dest!: decode_rune_size)

declare valid_utf8.simps [simp del]

lemma valid_utf8_Nil [simp]: "valid_utf8 []"
  by (simp add: valid_utf8.simps)

lemma valid_utf8_Cons_ascii [simp]: "byte_val c < 128 \<Longrightarrow> valid_utf8 (c # cs) = valid_utf8 cs"
  by (subst valid_utf8.simps) (simp add: decode_rune_def)

lemma valid_utf8_Cons_multi:
  "\<not> byte_val c < 128 \<Longrightarrow> valid_utf8 (c # cs) \<longleftrightarrow>
     (case decode_multi (c # cs) of None \<Rightarrow> False | Some (r, n) \<Rightarrow> valid_utf8 (drop n (c # cs)))"
  by (subst valid_utf8.simps) (simp add: decode_rune_def)

lemma valid_utf8_ascii: "is_ascii s \<Longrightarrow> valid_utf8 s"
  by (induction s) (auto simp: is_ascii_def)

section \<open>An encoded rune is valid\<close>

lemma byte_val_char_of: "n < 256 \<Longrightarrow> byte_val (char_of n) = n"
  by simp

lemma valid_multi:
  assumes "lead_info (byte_val c) = Some (n, lo, hi)" "\<not> byte_val c < 128"
    "multi_rune n lo hi (byte_val c) (byte_val ((c # cs) ! 1)) (byte_val ((c # cs) ! 2)) (byte_val ((c # cs) ! 3)) \<noteq> None"
    "n \<le> length (c # cs)"
  shows "valid_utf8 (c # cs) \<longleftrightarrow> valid_utf8 (drop n (c # cs))"
  using assms by (auto simp: valid_utf8_Cons_multi decode_multi_def)

lemma lead_info_3: "r < 0x10000 \<Longrightarrow> 0x800 \<le> r \<Longrightarrow> \<not> (0xD800 \<le> r \<and> r \<le> 0xDFFF) \<Longrightarrow>
   \<exists>lo hi. lead_info (0xE0 + r div 4096) = Some (3, lo, hi) \<and> lo \<le> 0x80 + r div 64 mod 64 \<and> 0x80 + r div 64 mod 64 \<le> hi"
proof -
  assume a: "r < 0x10000" "0x800 \<le> r" "\<not> (0xD800 \<le> r \<and> r \<le> 0xDFFF)"
  define q where "q = r div 64"
  have q: "q < 1024" "32 \<le> q" "\<not> (864 \<le> q \<and> q \<le> 895)" using a by (auto simp: q_def)
  have e: "r div 4096 = q div 64" by (simp add: q_def div_mult2_eq [symmetric])
  define x where "x = q div 64"
  define y where "y = q mod 64"
  have xy: "q = 64 * x + y" "y < 64" by (simp_all add: x_def y_def)
  have "x < 16" "x = 0 \<longrightarrow> 32 \<le> y" "x = 13 \<longrightarrow> y < 32" using q xy by auto
  then have "\<exists>lo hi. lead_info (0xE0 + x) = Some (3, lo, hi) \<and> lo \<le> 0x80 + y \<and> 0x80 + y \<le> hi"
    using xy(2) by (auto simp: lead_info_def)
  then show ?thesis unfolding e by (simp add: x_def y_def q_def)
qed

lemma lead_info_4: "0x10000 \<le> r \<Longrightarrow> r \<le> 0x10FFFF \<Longrightarrow>
   \<exists>lo hi. lead_info (0xF0 + r div 262144) = Some (4, lo, hi) \<and> lo \<le> 0x80 + r div 4096 mod 64 \<and> 0x80 + r div 4096 mod 64 \<le> hi"
proof -
  assume a: "0x10000 \<le> r" "r \<le> 0x10FFFF"
  define q where "q = r div 4096"
  have q: "16 \<le> q" "q \<le> 271" using a by (auto simp: q_def)
  have e: "r div 262144 = q div 64" by (simp add: q_def div_mult2_eq [symmetric])
  define x where "x = q div 64"
  define y where "y = q mod 64"
  have xy: "q = 64 * x + y" "y < 64" by (simp_all add: x_def y_def)
  have "x \<le> 4" "x = 0 \<longrightarrow> 16 \<le> y" "x = 4 \<longrightarrow> y < 16" using q xy by auto
  then have "\<exists>lo hi. lead_info (0xF0 + x) = Some (4, lo, hi) \<and> lo \<le> 0x80 + y \<and> 0x80 + y \<le> hi"
    using xy(2) by (auto simp: lead_info_def)
  then show ?thesis unfolding e by (simp add: x_def y_def q_def)
qed

lemma lead_info_size3: "lead_info b = Some (n, lo, hi) \<Longrightarrow> 194 \<le> b \<and> b < 256"
  by (auto simp: lead_info_def split: if_splits)

lemma valid_rune_error: "valid_utf8 (rune_error_bytes @ t) \<longleftrightarrow> valid_utf8 t"
  by (simp add: rune_error_bytes_def) (subst valid_multi, auto simp: lead_info_def multi_rune_def cont_byte_def)

lemma cont_byte_6 [simp]: "cont_byte (128 + n mod 64)"
proof -
  have "n mod 64 < 64" by simp
  then show ?thesis unfolding cont_byte_def by linarith
qed

lemma low6: "128 + n mod 64 < (256::nat)"
proof -
  have "n mod 64 < 64" by simp
  then show ?thesis by linarith
qed

lemma valid_encode_rune: "valid_utf8 (encode_rune r @ t) \<longleftrightarrow> valid_utf8 t"
proof -
  consider (one) "r < 0x80" | (two) "0x80 \<le> r" "r < 0x800"
    | (err) "0x800 \<le> r" "(0xD800 \<le> r \<and> r \<le> 0xDFFF) \<or> 0x10FFFF < r"
    | (three) "0x800 \<le> r" "\<not> (0xD800 \<le> r \<and> r \<le> 0xDFFF)" "r < 0x10000"
    | (four) "0x10000 \<le> r" "r \<le> 0x10FFFF"
    by linarith
  then show ?thesis
  proof cases
    case one
    then show ?thesis by (simp add: encode_rune_def)
  next
    case two
    define x where "x = r div 64"
    have x: "2 \<le> x" "x < 32" using two by (auto simp: x_def)
    then have l: "lead_info (0xC0 + x) = Some (2, 0x80, 0xBF)" by (simp add: lead_info_def)
    define a where "a = char_of (0xC0 + x)"
    define b where "b = char_of (0x80 + r mod 64)"
    have a: "byte_val a = 0xC0 + x" unfolding a_def using x by (intro byte_val_char_of) simp
    have b: "byte_val b = 0x80 + r mod 64" unfolding b_def by (intro byte_val_char_of low6)
    have "128 + r mod 64 \<le> 191" using cont_byte_6 [of r] by (simp add: cont_byte_def)
    then have "valid_utf8 (a # b # t) \<longleftrightarrow> valid_utf8 (drop 2 (a # b # t))"
      by (intro valid_multi [of _ _ "0x80" "0xBF"]) (use l a b in \<open>simp_all add: multi_rune_def numeral_2_eq_2\<close>)
    moreover have "encode_rune r = [a, b]" using two by (simp add: encode_rune_def x_def a_def b_def)
    ultimately show ?thesis by simp
  next
    case err
    then have "encode_rune r = rune_error_bytes" by (auto simp: encode_rune_def)
    then show ?thesis by (simp add: valid_rune_error)
  next
    case three
    obtain lo hi where l: "lead_info (0xE0 + r div 4096) = Some (3, lo, hi)" and
      lh: "lo \<le> 0x80 + r div 64 mod 64" "0x80 + r div 64 mod 64 \<le> hi"
      using lead_info_3 three by blast
    define a where "a = char_of (0xE0 + r div 4096)"
    define b where "b = char_of (0x80 + r div 64 mod 64)"
    define c where "c = char_of (0x80 + r mod 64)"
    have a: "byte_val a = 0xE0 + r div 4096" unfolding a_def using lead_info_size3 [OF l] by (intro byte_val_char_of) simp
    have b: "byte_val b = 0x80 + r div 64 mod 64" "byte_val c = 0x80 + r mod 64"
      unfolding b_def c_def by (intro byte_val_char_of low6)+
    have "valid_utf8 (a # b # c # t) \<longleftrightarrow> valid_utf8 (drop 3 (a # b # c # t))"
      by (rule valid_multi [of _ _ lo hi]) (use l lh a b in \<open>simp_all add: multi_rune_def numeral_2_eq_2 numeral_3_eq_3\<close>)
    moreover have "encode_rune r = [a, b, c]" using three by (auto simp: encode_rune_def a_def b_def c_def)
    ultimately show ?thesis by simp
  next
    case four
    obtain lo hi where l: "lead_info (0xF0 + r div 262144) = Some (4, lo, hi)" and
      lh: "lo \<le> 0x80 + r div 4096 mod 64" "0x80 + r div 4096 mod 64 \<le> hi"
      using lead_info_4 four by blast
    define a where "a = char_of (0xF0 + r div 262144)"
    define b where "b = char_of (0x80 + r div 4096 mod 64)"
    define c where "c = char_of (0x80 + r div 64 mod 64)"
    define d where "d = char_of (0x80 + r mod 64)"
    have a: "byte_val a = 0xF0 + r div 262144" unfolding a_def using lead_info_size3 [OF l] by (intro byte_val_char_of) simp
    have b: "byte_val b = 0x80 + r div 4096 mod 64" "byte_val c = 0x80 + r div 64 mod 64" "byte_val d = 0x80 + r mod 64"
      unfolding b_def c_def d_def by (intro byte_val_char_of low6)+
    have "valid_utf8 (a # b # c # d # t) \<longleftrightarrow> valid_utf8 (drop 4 (a # b # c # d # t))"
      by (rule valid_multi [of _ _ lo hi]) (use l lh a b in \<open>simp_all add: multi_rune_def numeral_2_eq_2 numeral_3_eq_3\<close>)
    moreover have "encode_rune r = [a, b, c, d]" using four by (simp add: encode_rune_def a_def b_def c_def d_def)
    ultimately show ?thesis by simp
  qed
qed

end
