(* ===== verification/Go_Json.thy ===== *)
theory Go_Json
  imports Go_Utf8
begin

text \<open>
  The part of Go's \<open>encoding/json\<close> that the code uses, on bytes: quoting and unquoting of strings
  (with \<open>Marshal\<close>'s HTML escaping), the scanner and parser behind \<open>Unmarshal\<close>,
  \<open>Valid\<close> and \<open>Decoder\<close>, the compaction that \<open>Marshal\<close> applies to a
  \<open>RawMessage\<close>, and the composition of objects and arrays. The scanner's nesting limit of 10000
  is not modelled. The lemmas show that what the encoder writes is read back by the parser
  (\<open>renders\<close>).
\<close>

section \<open>Strings\<close>

definition hex_digit :: "nat \<Rightarrow> char" where
  "hex_digit d = (if d < 10 then char_of (48 + d) else char_of (87 + d))"

lemma hex_digit_code [code]:
  "hex_digit d =
     (if d < 10 then digit_char d
      else if d = 10 then CHR ''a'' else if d = 11 then CHR ''b'' else if d = 12 then CHR ''c''
      else if d = 13 then CHR ''d'' else if d = 14 then CHR ''e'' else if d = 15 then CHR ''f''
      else char_of (87 + d))"
  by (simp add: hex_digit_def digit_char_def char_of_eq_iff take_bit_eq_mod)

definition hex_val :: "char \<Rightarrow> nat option" where
  "hex_val c =
     (let b = byte_val c in
      if 48 \<le> b \<and> b \<le> 57 then Some (b - 48)
      else if 97 \<le> b \<and> b \<le> 102 then Some (b - 87)
      else if 65 \<le> b \<and> b \<le> 70 then Some (b - 55)
      else None)"

text \<open>\<open>htmlSafeSet\<close>: the ASCII bytes that \<open>Marshal\<close> copies.\<close>

definition html_safe :: "char \<Rightarrow> bool" where
  "html_safe c \<longleftrightarrow> 0x20 \<le> byte_val c \<and> byte_val c < 0x80 \<and>
     c \<noteq> CHR 0x22 \<and> c \<noteq> CHR 0x5C \<and> c \<noteq> CHR ''<'' \<and> c \<noteq> CHR ''>'' \<and> c \<noteq> CHR ''&''"

definition u00_escape :: "char \<Rightarrow> string" where
  "u00_escape c = CHR 0x5C # ''u00'' @ [hex_digit (byte_val c div 16), hex_digit (byte_val c mod 16)]"

definition quote_ascii :: "char \<Rightarrow> string" where
  "quote_ascii c =
     (if html_safe c then [c]
      else if c = CHR 0x5C \<or> c = CHR 0x22 then [CHR 0x5C, c]
      else if byte_val c = 8 then [CHR 0x5C, CHR ''b'']
      else if byte_val c = 12 then [CHR 0x5C, CHR ''f'']
      else if byte_val c = 10 then [CHR 0x5C, CHR ''n'']
      else if byte_val c = 13 then [CHR 0x5C, CHR ''r'']
      else if byte_val c = 9 then [CHR 0x5C, CHR ''t'']
      else u00_escape c)"

text \<open>U+2028 and U+2029, as bytes, are escaped; any other well-formed sequence is copied.\<close>

definition quote_multi :: "string \<Rightarrow> string" where
  "quote_multi bs =
     (if bs = [CHR 0xE2, CHR 0x80, CHR 0xA8] then CHR 0x5C # ''u2028''
      else if bs = [CHR 0xE2, CHR 0x80, CHR 0xA9] then CHR 0x5C # ''u2029''
      else bs)"

function quote_body :: "string \<Rightarrow> string" where
  "quote_body s =
     (case s of
        [] \<Rightarrow> []
      | c # cs \<Rightarrow>
          if byte_val c < 0x80 then quote_ascii c @ quote_body cs
          else (case decode_multi s of
                  None \<Rightarrow> CHR 0x5C # ''ufffd'' @ quote_body cs
                | Some (r, n) \<Rightarrow> quote_multi (take n s) @ quote_body (drop n s)))"
  by pat_completeness auto
termination
  by (relation "measure length") (auto dest!: decode_multi_size)

declare quote_body.simps [simp del]

definition quote :: "string \<Rightarrow> string" where
  "quote s = CHR 0x22 # quote_body s @ [CHR 0x22]"

text \<open>Four hexadecimal digits after \<open>\u\<close>.\<close>

fun getu4 :: "string \<Rightarrow> nat option" where
  "getu4 (a # b # c # d # _) =
     (case (hex_val a, hex_val b, hex_val c, hex_val d) of
        (Some w, Some x, Some y, Some z) \<Rightarrow> Some (4096 * w + 256 * x + 16 * y + z)
      | _ \<Rightarrow> None)"
| "getu4 _ = None"

definition simple_escape :: "char \<Rightarrow> char option" where
  "simple_escape e =
     (if e = CHR 0x22 \<or> e = CHR 0x5C \<or> e = CHR ''/'' then Some e
      else if e = CHR ''b'' then Some (CHR 0x08)
      else if e = CHR ''f'' then Some (CHR 0x0C)
      else if e = CHR ''n'' then Some (CHR 0x0A)
      else if e = CHR ''r'' then Some (CHR 0x0D)
      else if e = CHR ''t'' then Some (CHR 0x09)
      else None)"

definition is_surrogate :: "nat \<Rightarrow> bool" where
  "is_surrogate r \<longleftrightarrow> 0xD800 \<le> r \<and> r < 0xE000"

text \<open>The low half of a surrogate pair that follows as a second \<open>\u\<close> escape.\<close>

definition low_surrogate :: "nat \<Rightarrow> string \<Rightarrow> nat option" where
  "low_surrogate r s =
     (case s of
        a # b # ds \<Rightarrow>
          (if a = CHR 0x5C \<and> b = CHR ''u'' then
             (case getu4 ds of
                Some r1 \<Rightarrow> (if r < 0xDC00 \<and> 0xDC00 \<le> r1 \<and> r1 < 0xE000
                            then Some ((r - 0xD800) * 1024 + (r1 - 0xDC00) + 0x10000) else None)
              | None \<Rightarrow> None)
           else None)
      | _ \<Rightarrow> None)"

function unquote_body :: "string \<Rightarrow> string option" where
  "unquote_body s =
     (case s of
        [] \<Rightarrow> Some []
      | c # cs \<Rightarrow>
          if c = CHR 0x5C then
            (case cs of
               [] \<Rightarrow> None
             | e # ds \<Rightarrow>
                 if e = CHR ''u'' then
                   (case getu4 ds of
                      None \<Rightarrow> None
                    | Some r \<Rightarrow>
                        if is_surrogate r then
                          (case low_surrogate r (drop 4 ds) of
                             Some r' \<Rightarrow> map_option (\<lambda>t. encode_rune r' @ t) (unquote_body (drop 10 ds))
                           | None \<Rightarrow> map_option (\<lambda>t. rune_error_bytes @ t) (unquote_body (drop 4 ds)))
                        else map_option (\<lambda>t. encode_rune r @ t) (unquote_body (drop 4 ds)))
                 else (case simple_escape e of
                         None \<Rightarrow> None
                       | Some d \<Rightarrow> map_option (\<lambda>t. d # t) (unquote_body ds)))
          else if c = CHR 0x22 \<or> byte_val c < 0x20 then None
          else if byte_val c < 0x80 then map_option (\<lambda>t. c # t) (unquote_body cs)
          else (case decode_multi s of
                  None \<Rightarrow> map_option (\<lambda>t. rune_error_bytes @ t) (unquote_body cs)
                | Some (r, n) \<Rightarrow> map_option (\<lambda>t. take n s @ t) (unquote_body (drop n s))))"
  by pat_completeness auto
termination
  by (relation "measure length") (auto dest!: decode_multi_size)

declare unquote_body.simps [simp del]

text \<open>The scanner's view of a string literal after its opening quote: raw content and what follows.\<close>

definition is_hex4 :: "string \<Rightarrow> bool" where
  "is_hex4 ds \<longleftrightarrow> 4 \<le> length ds \<and> list_all (\<lambda>c. hex_val c \<noteq> None) (take 4 ds)"

function scan_str :: "string \<Rightarrow> (string \<times> string) option" where
  "scan_str s =
     (case s of
        [] \<Rightarrow> None
      | c # cs \<Rightarrow>
          if c = CHR 0x22 then Some ([], cs)
          else if c = CHR 0x5C then
            (case cs of
               [] \<Rightarrow> None
             | e # ds \<Rightarrow>
                 if e = CHR ''u'' then
                   (if is_hex4 ds
                    then map_option (\<lambda>(b, r). (c # e # take 4 ds @ b, r)) (scan_str (drop 4 ds))
                    else None)
                 else if simple_escape e \<noteq> None
                   then map_option (\<lambda>(b, r). (c # e # b, r)) (scan_str ds)
                 else None)
          else if byte_val c < 0x20 then None
          else map_option (\<lambda>(b, r). (c # b, r)) (scan_str cs))"
  by pat_completeness auto
termination
  by (relation "measure length") auto

declare scan_str.simps [simp del]

subsection \<open>What is quoted is scanned and unquoted back\<close>

definition scan_chunk :: "string \<Rightarrow> bool" where
  "scan_chunk p \<longleftrightarrow> (\<forall>t. scan_str (p @ t) = map_option (\<lambda>(b, r). (p @ b, r)) (scan_str t))"

lemma scan_chunk_Nil: "scan_chunk []"
  by (auto simp: scan_chunk_def option.map_ident split_def)

lemma scan_chunk_append: "scan_chunk p \<Longrightarrow> scan_chunk q \<Longrightarrow> scan_chunk (p @ q)"
  by (simp add: scan_chunk_def option.map_comp comp_def split_def)

lemma scan_chunk_plain:
  "c \<noteq> CHR 0x22 \<Longrightarrow> c \<noteq> CHR 0x5C \<Longrightarrow> 0x20 \<le> byte_val c \<Longrightarrow> scan_chunk [c]"
  by (simp add: scan_chunk_def scan_str.simps [of "c # _"])

lemma scan_chunk_plains:
  "\<forall>c \<in> set p. c \<noteq> CHR 0x22 \<and> c \<noteq> CHR 0x5C \<and> 0x20 \<le> byte_val c \<Longrightarrow> scan_chunk p"
proof (induction p)
  case Nil
  show ?case by (rule scan_chunk_Nil)
next
  case (Cons c p)
  then have "scan_chunk ([c] @ p)"
    by (intro scan_chunk_append scan_chunk_plain) auto
  then show ?case by simp
qed

lemma scan_chunk_escape: "e \<noteq> CHR ''u'' \<Longrightarrow> simple_escape e \<noteq> None \<Longrightarrow> scan_chunk [CHR 0x5C, e]"
  by (simp add: scan_chunk_def scan_str.simps [of "CHR 0x5C # _"])

lemma scan_chunk_u4: "is_hex4 [a, b, c, d] \<Longrightarrow> scan_chunk (CHR 0x5C # CHR ''u'' # [a, b, c, d])"
  by (simp add: scan_chunk_def scan_str.simps [of "CHR 0x5C # _"] is_hex4_def)

lemma hex_val_hex_digit [simp]: "d < 16 \<Longrightarrow> hex_val (hex_digit d) = Some d"
  by (auto simp: hex_digit_def hex_val_def Let_def)

lemma byte_val_inj: "byte_val c = byte_val d \<longleftrightarrow> c = d"
  by (rule of_char_eq_iff)

lemma hex_val_0 [simp]: "hex_val CHR ''0'' = Some 0"
  by (simp add: hex_val_def)

lemma scan_chunk_u00: "scan_chunk (u00_escape c)"
proof -
  have "byte_val c div 16 < 16" using byte_val_less [of c] by linarith
  then have "is_hex4 [CHR ''0'', CHR ''0'', hex_digit (byte_val c div 16), hex_digit (byte_val c mod 16)]"
    by (simp add: is_hex4_def)
  from scan_chunk_u4 [OF this] show ?thesis by (simp add: u00_escape_def)
qed

lemma scan_chunk_quote_ascii: "scan_chunk (quote_ascii c)"
  by (auto simp: quote_ascii_def html_safe_def simple_escape_def
      intro!: scan_chunk_plain scan_chunk_escape scan_chunk_u00)

lemma decode_multi_bytes:
  assumes "decode_multi s = Some (r, n)"
  shows "\<forall>c \<in> set (take n s). 128 \<le> byte_val c"
proof -
  obtain c cs where s: "s = c # cs" using assms by (cases s) (auto simp: decode_multi_def)
  obtain lo hi where info: "lead_info (byte_val c) = Some (n, lo, hi)" and len: "n \<le> length s"
    and r: "multi_rune n lo hi (byte_val c) (byte_val (s ! 1)) (byte_val (s ! 2)) (byte_val (s ! 3)) = Some r"
    using assms by (auto simp: decode_multi_def s split: option.splits if_splits)
  have c: "128 \<le> byte_val c" and lo: "128 \<le> lo" and n: "n = 2 \<or> n = 3 \<or> n = 4"
    using info by (auto simp: lead_info_def split: if_splits)
  have "128 \<le> byte_val (s ! i)" if "i < n" for i
  proof (cases "i = 0")
    case True
    with c s show ?thesis by simp
  next
    case False
    with that n have "i = 1 \<or> i = 2 \<and> 2 < n \<or> i = 3 \<and> 3 < n" by auto
    with r lo n show ?thesis by (auto simp: multi_rune_def cont_byte_def split: if_splits)
  qed
  then show ?thesis by (auto simp: in_set_conv_nth)
qed

lemma scan_chunk_quote_multi:
  assumes "decode_multi s = Some (r, n)"
  shows "scan_chunk (quote_multi (take n s))"
proof -
  have "\<forall>c \<in> set (take n s). c \<noteq> CHR 0x22 \<and> c \<noteq> CHR 0x5C \<and> 0x20 \<le> byte_val c"
    using decode_multi_bytes [OF assms] by force
  then have "scan_chunk (take n s)" by (rule scan_chunk_plains)
  moreover have "scan_chunk (CHR 0x5C # ''u2028'')" "scan_chunk (CHR 0x5C # ''u2029'')"
    using scan_chunk_u4 [of "CHR ''2''" "CHR ''0''" "CHR ''2''" "CHR ''8''"]
      scan_chunk_u4 [of "CHR ''2''" "CHR ''0''" "CHR ''2''" "CHR ''9''"]
    by (simp_all add: is_hex4_def hex_val_def)
  ultimately show ?thesis by (simp add: quote_multi_def)
qed

lemma scan_chunk_quote_body: "scan_chunk (quote_body s)"
proof (induction s rule: quote_body.induct)
  case (1 s)
  show ?case
  proof (cases s)
    case Nil
    then show ?thesis by (simp add: quote_body.simps scan_chunk_Nil)
  next
    case (Cons c cs)
    note IH = "1.IH" [OF Cons]
    show ?thesis
    proof (cases "byte_val c < 128")
      case True
      then have "quote_body s = quote_ascii c @ quote_body cs"
        by (subst quote_body.simps) (simp add: Cons)
      with True show ?thesis using IH(1) scan_chunk_quote_ascii scan_chunk_append by auto
    next
      case False
      show ?thesis
      proof (cases "decode_multi s")
        case None
        with False have "quote_body s = (CHR 0x5C # ''ufffd'') @ quote_body cs"
          by (subst quote_body.simps) (simp add: Cons)
        moreover have "scan_chunk (CHR 0x5C # ''ufffd'')"
          using scan_chunk_u4 [of "CHR ''f''" "CHR ''f''" "CHR ''f''" "CHR ''d''"]
          by (simp add: is_hex4_def hex_val_def)
        ultimately show ?thesis using IH(2) False None scan_chunk_append by metis
      next
        case (Some rn)
        obtain r n where rn: "rn = (r, n)" by (cases rn)
        with False Some have "quote_body s = quote_multi (take n s) @ quote_body (drop n s)"
          by (subst quote_body.simps) (simp add: Cons)
        then show ?thesis
          using IH(3) [OF False] Some rn scan_chunk_quote_multi scan_chunk_append by metis
      qed
    qed
  qed
qed

lemma scan_str_end [simp]: "scan_str (CHR 0x22 # r) = Some ([], r)"
  by (subst scan_str.simps) simp

lemma scan_str_quote_body [simp]: "scan_str (quote_body s @ CHR 0x22 # r) = Some (quote_body s, r)"
  using scan_chunk_quote_body [of s] by (simp add: scan_chunk_def)

lemma unquote_plain:
  "c \<noteq> CHR 0x5C \<Longrightarrow> c \<noteq> CHR 0x22 \<Longrightarrow> 0x20 \<le> byte_val c \<Longrightarrow> byte_val c < 0x80 \<Longrightarrow>
     unquote_body (c # t) = map_option (\<lambda>t. c # t) (unquote_body t)"
  by (subst unquote_body.simps) simp

lemma unquote_escape:
  "e \<noteq> CHR ''u'' \<Longrightarrow> simple_escape e = Some d \<Longrightarrow>
     unquote_body (CHR 0x5C # e # t) = map_option (\<lambda>t. d # t) (unquote_body t)"
  by (subst unquote_body.simps) simp

lemma unquote_u4:
  assumes "getu4 [a, b, c, d] = Some r" and "\<not> is_surrogate r"
  shows "unquote_body (CHR 0x5C # CHR ''u'' # a # b # c # d # t)
    = map_option (\<lambda>t. encode_rune r @ t) (unquote_body t)"
proof -
  from assms(1) have "getu4 (a # b # c # d # t) = Some r" by (simp split: option.splits)
  with assms(2) show ?thesis by (subst unquote_body.simps) simp
qed

lemma unquote_u00:
  assumes "byte_val c < 128"
  shows "unquote_body (u00_escape c @ t) = map_option (\<lambda>t. c # t) (unquote_body t)"
proof -
  have d: "byte_val c div 16 < 16" using byte_val_less [of c] by linarith
  then have "getu4 [CHR ''0'', CHR ''0'', hex_digit (byte_val c div 16), hex_digit (byte_val c mod 16)]
      = Some (byte_val c)"
    by simp
  moreover have "\<not> is_surrogate (byte_val c)" using assms by (simp add: is_surrogate_def)
  ultimately show ?thesis
    using assms by (simp add: u00_escape_def unquote_u4 encode_rune_def)
qed

lemma byte_val_control:
  "byte_val c = 8 \<Longrightarrow> c = CHR 0x08" "byte_val c = 12 \<Longrightarrow> c = CHR 0x0C" "byte_val c = 10 \<Longrightarrow> c = CHR 0x0A"
  "byte_val c = 13 \<Longrightarrow> c = CHR 0x0D" "byte_val c = 9 \<Longrightarrow> c = CHR 0x09"
  by (simp_all flip: byte_val_inj)

lemma unquote_quote_ascii:
  assumes "byte_val c < 128"
  shows "unquote_body (quote_ascii c @ t) = map_option (\<lambda>t. c # t) (unquote_body t)"
proof (cases "html_safe c")
  case True
  then show ?thesis by (simp add: quote_ascii_def) (simp add: html_safe_def unquote_plain)
next
  case False
  have "quote_ascii c = u00_escape c \<or>
      (\<exists>e. quote_ascii c = [CHR 0x5C, e] \<and> e \<noteq> CHR ''u'' \<and> simple_escape e = Some c)"
    using False by (auto simp: quote_ascii_def simple_escape_def dest!: byte_val_control)
  with assms show ?thesis by (auto simp: unquote_u00 unquote_escape)
qed

lemma unquote_multi:
  assumes "decode_multi s = Some (r, n)"
  shows "unquote_body (take n s @ t) = map_option (\<lambda>t. take n s @ t) (unquote_body t)"
proof -
  obtain c cs where s: "s = c # cs" using assms by (cases s) (auto simp: decode_multi_def)
  have n: "2 \<le> n" "n \<le> length s" using decode_multi_size [OF assms] by auto
  then obtain m where m: "n = Suc m" by (cases n) auto
  have "128 \<le> byte_val c"
    using decode_multi_bytes [OF assms] s m by auto
  then have c: "c \<noteq> CHR 0x5C" "c \<noteq> CHR 0x22" "\<not> byte_val c < 0x20" "\<not> byte_val c < 0x80" by auto
  have app: "take n s @ t = c # (take m cs @ t)" by (simp add: s m)
  have dec: "decode_multi (c # (take m cs @ t)) = Some (r, n)"
    using decode_multi_take [OF assms, of t] by (simp only: app)
  have tk: "take n (c # (take m cs @ t)) = take n s" and dr: "drop n (c # (take m cs @ t)) = t"
    unfolding app [symmetric] using n by simp_all
  show ?thesis
    unfolding app by (subst unquote_body.simps) (simp only: list.case c dec option.case prod.case tk dr if_False simp_thms)
qed

lemma unquote_quote_multi:
  assumes "decode_multi s = Some (r, n)"
  shows "unquote_body (quote_multi (take n s) @ t) = map_option (\<lambda>t. take n s @ t) (unquote_body t)"
proof -
  have g: "getu4 (''2028'' @ t) = Some 0x2028" "getu4 (''2029'' @ t) = Some 0x2029" for t
    by (simp_all add: hex_val_def)
  have e: "encode_rune 0x2028 = [CHR 0xE2, CHR 0x80, CHR 0xA8]"
    "encode_rune 0x2029 = [CHR 0xE2, CHR 0x80, CHR 0xA9]"
    by (simp_all add: encode_rune_def flip: byte_val_inj)
  have "unquote_body ((CHR 0x5C # ''u2028'') @ t) = map_option (\<lambda>t. encode_rune 0x2028 @ t) (unquote_body t)"
    and "unquote_body ((CHR 0x5C # ''u2029'') @ t) = map_option (\<lambda>t. encode_rune 0x2029 @ t) (unquote_body t)"
    using g [of "[]"] unquote_u4 [of "CHR ''2''" "CHR ''0''" "CHR ''2''" _ _ t]
    by (simp_all add: is_surrogate_def)
  then show ?thesis
    using unquote_multi [OF assms, of t]
    by (cases "unquote_body t") (simp_all add: quote_multi_def e)
qed

lemma unquote_quote_body: "valid_utf8 s \<Longrightarrow> unquote_body (quote_body s) = Some s"
proof (induction s rule: quote_body.induct)
  case (1 s)
  show ?case
  proof (cases s)
    case Nil
    then show ?thesis by (simp add: quote_body.simps unquote_body.simps)
  next
    case (Cons c cs)
    note IH = "1.IH" [OF Cons]
    show ?thesis
    proof (cases "byte_val c < 128")
      case True
      then have "quote_body s = quote_ascii c @ quote_body cs"
        by (subst quote_body.simps) (simp add: Cons)
      with True show ?thesis using IH(1) "1.prems" Cons by (simp add: unquote_quote_ascii)
    next
      case False
      with "1.prems" obtain r n where rn: "decode_multi s = Some (r, n)" "valid_utf8 (drop n s)"
        by (auto simp: Cons valid_utf8_Cons_multi split: option.splits)
      with False have "quote_body s = quote_multi (take n s) @ quote_body (drop n s)"
        by (subst quote_body.simps) (simp add: Cons)
      then show ?thesis
        using IH(3) [OF False, of "(r, n)" r n] rn by (simp add: unquote_quote_multi)
    qed
  qed
qed

section \<open>Values\<close>

text \<open>
  A parsed value. Strings keep their raw content (between the quotes, still escaped), numbers their
  literal, and a member of an object its raw key, the raw text of its value (what a
  \<open>json.RawMessage\<close> field receives) and the value.
\<close>

datatype json =
    JNull
  | JBool bool
  | JNum string
  | JStr string
  | JArr "json list"
  | JObj "(string \<times> string \<times> json) list"

definition is_ws :: "char \<Rightarrow> bool" where
  "is_ws c \<longleftrightarrow> c = CHR 0x20 \<or> c = CHR 0x09 \<or> c = CHR 0x0D \<or> c = CHR 0x0A"

definition skip_ws :: "string \<Rightarrow> string" where
  "skip_ws s = dropWhile is_ws s"

text \<open>The number grammar: optional minus, integer part, optional fraction, optional exponent.\<close>

definition scan_digits :: "string \<Rightarrow> (string \<times> string) option" where
  "scan_digits s =
     (if takeWhile is_digit s = [] then None else Some (takeWhile is_digit s, dropWhile is_digit s))"

definition scan_int_part :: "string \<Rightarrow> (string \<times> string) option" where
  "scan_int_part s =
     (case s of [] \<Rightarrow> None | c # cs \<Rightarrow> if c = CHR ''0'' then Some ([c], cs) else scan_digits s)"

definition scan_frac :: "string \<Rightarrow> (string \<times> string) option" where
  "scan_frac s =
     (case s of
        c # cs \<Rightarrow> (if c = CHR ''.'' then map_option (\<lambda>(d, r). (c # d, r)) (scan_digits cs) else Some ([], s))
      | [] \<Rightarrow> Some ([], []))"

definition scan_exp :: "string \<Rightarrow> (string \<times> string) option" where
  "scan_exp s =
     (case s of
        c # cs \<Rightarrow>
          (if c = CHR ''e'' \<or> c = CHR ''E'' then
             (case cs of
                d # ds \<Rightarrow>
                  (if d = CHR ''+'' \<or> d = CHR ''-''
                   then map_option (\<lambda>(x, r). (c # d # x, r)) (scan_digits ds)
                   else map_option (\<lambda>(x, r). (c # x, r)) (scan_digits cs))
              | [] \<Rightarrow> None)
           else Some ([], s))
      | [] \<Rightarrow> Some ([], []))"

definition scan_unsigned :: "string \<Rightarrow> (string \<times> string) option" where
  "scan_unsigned s =
     (case scan_int_part s of
        None \<Rightarrow> None
      | Some (i, r1) \<Rightarrow>
          (case scan_frac r1 of
             None \<Rightarrow> None
           | Some (f, r2) \<Rightarrow> map_option (\<lambda>(e, r3). (i @ f @ e, r3)) (scan_exp r2)))"

definition scan_num :: "string \<Rightarrow> (string \<times> string) option" where
  "scan_num s =
     (case s of
        c # cs \<Rightarrow> (if c = CHR ''-'' then map_option (\<lambda>(d, r). (c # d, r)) (scan_unsigned cs)
                  else scan_unsigned s)
      | [] \<Rightarrow> None)"

text \<open>
  One value, the elements of an array after its bracket, the members of an object after its brace;
  each returns the value and the unread rest. The first argument is fuel; \<open>2 * length s + 2\<close> is
  enough for any value (\<open>parse_value_fuel\<close>).
\<close>

definition raw_between :: "string \<Rightarrow> string \<Rightarrow> string" where
  "raw_between s r = take (length s - length r) s"

definition parse_leaf :: "string \<Rightarrow> (json \<times> string) option" where
  "parse_leaf s =
     (if prefix [CHR 0x22] s then map_option (\<lambda>(raw, r). (JStr raw, r)) (scan_str (tl s))
      else if prefix ''null'' s then Some (JNull, drop 4 s)
      else if prefix ''true'' s then Some (JBool True, drop 4 s)
      else if prefix ''false'' s then Some (JBool False, drop 5 s)
      else map_option (\<lambda>(lit, r). (JNum lit, r)) (scan_num s))"

fun parse_value :: "nat \<Rightarrow> string \<Rightarrow> (json \<times> string) option"
and parse_elems :: "nat \<Rightarrow> string \<Rightarrow> (json list \<times> string) option"
and parse_members :: "nat \<Rightarrow> string \<Rightarrow> ((string \<times> string \<times> json) list \<times> string) option"
where
  "parse_value 0 s = None"
| "parse_value (Suc k) s =
     (case skip_ws s of
        [] \<Rightarrow> None
      | c # cs \<Rightarrow>
          if c = CHR ''['' then
            (case skip_ws cs of
               [] \<Rightarrow> None
             | d # ds \<Rightarrow> if d = CHR '']'' then Some (JArr [], ds)
                        else map_option (\<lambda>(vs, r). (JArr vs, r)) (parse_elems k cs))
          else if c = CHR ''{'' then
            (case skip_ws cs of
               [] \<Rightarrow> None
             | d # ds \<Rightarrow> if d = CHR ''}'' then Some (JObj [], ds)
                        else map_option (\<lambda>(ms, r). (JObj ms, r)) (parse_members k cs))
          else parse_leaf (c # cs))"
| "parse_elems 0 s = None"
| "parse_elems (Suc k) s =
     (case parse_value k s of
        None \<Rightarrow> None
      | Some (v, r) \<Rightarrow>
          (case skip_ws r of
             [] \<Rightarrow> None
           | d # ds \<Rightarrow> if d = CHR '','' then map_option (\<lambda>(vs, r'). (v # vs, r')) (parse_elems k ds)
                      else if d = CHR '']'' then Some ([v], ds)
                      else None))"
| "parse_members 0 s = None"
| "parse_members (Suc k) s =
     (case skip_ws s of
        [] \<Rightarrow> None
      | c # cs \<Rightarrow>
          if c \<noteq> CHR 0x22 then None
          else (case scan_str cs of
             None \<Rightarrow> None
           | Some (key, r) \<Rightarrow>
               (case skip_ws r of
                  [] \<Rightarrow> None
                | d # ds \<Rightarrow>
                    if d \<noteq> CHR '':'' then None
                    else (case parse_value k ds of
                       None \<Rightarrow> None
                     | Some (v, r2) \<Rightarrow>
                         (case skip_ws r2 of
                            [] \<Rightarrow> None
                          | e # es \<Rightarrow>
                              if e = CHR '','' then
                                map_option (\<lambda>(ms, r'). ((key, raw_between (skip_ws ds) r2, v) # ms, r'))
                                  (parse_members k es)
                              else if e = CHR ''}'' then Some ([(key, raw_between (skip_ws ds) r2, v)], es)
                              else None)))))"

definition json_fuel :: "string \<Rightarrow> nat" where
  "json_fuel s = 2 * length s + 2"

text \<open>The first value of a stream (\<open>Decoder.Decode\<close>) and a whole document (\<open>Unmarshal\<close>, \<open>Valid\<close>).\<close>

definition json_first :: "string \<Rightarrow> (json \<times> string) option" where
  "json_first s = parse_value (json_fuel s) s"

definition json_parse :: "string \<Rightarrow> json option" where
  "json_parse s =
     (case json_first s of
        None \<Rightarrow> None
      | Some (v, r) \<Rightarrow> if skip_ws r = [] then Some v else None)"

definition json_valid :: "string \<Rightarrow> bool" where
  "json_valid s \<longleftrightarrow> json_parse s \<noteq> None"

section \<open>Writing values\<close>

fun join_comma :: "string list \<Rightarrow> string" where
  "join_comma [] = []"
| "join_comma [t] = t"
| "join_comma (t # u # ts) = t @ CHR '','' # join_comma (u # ts)"

definition jarr :: "string list \<Rightarrow> string" where
  "jarr ts = CHR ''['' # join_comma ts @ [CHR '']'']"

definition jfield :: "string \<times> string \<Rightarrow> string" where
  "jfield f = quote (fst f) @ CHR '':'' # snd f"

definition jobj :: "(string \<times> string) list \<Rightarrow> string" where
  "jobj fs = CHR ''{'' # join_comma (map jfield fs) @ [CHR ''}'']"

text \<open>
  \<open>renders t v\<close>: the text \<open>t\<close>, put where a value is expected and followed by the end or by a
  delimiter, is read as \<open>v\<close> with nothing of the rest consumed.
\<close>

definition delim :: "string \<Rightarrow> bool" where
  "delim r \<longleftrightarrow> r = [] \<or> hd r = CHR '','' \<or> hd r = CHR '']'' \<or> hd r = CHR ''}''"

definition renders :: "string \<Rightarrow> json \<Rightarrow> bool" where
  "renders t v \<longleftrightarrow> t \<noteq> [] \<and> \<not> is_ws (hd t) \<and>
     (\<forall>k rest. json_fuel t \<le> k \<longrightarrow> delim rest \<longrightarrow> parse_value k (t @ rest) = Some (v, rest))"

lemma skip_ws_id [simp]: "t \<noteq> [] \<Longrightarrow> \<not> is_ws (hd t) \<Longrightarrow> skip_ws (t @ r) = t @ r"
  by (cases t) (simp_all add: skip_ws_def)

lemma skip_ws_Cons [simp]: "\<not> is_ws c \<Longrightarrow> skip_ws (c # r) = c # r"
  by (simp add: skip_ws_def)

lemma skip_ws_Nil [simp]: "skip_ws [] = []"
  by (simp add: skip_ws_def)

lemma not_is_ws [simp]:
  "\<not> is_ws CHR '',''" "\<not> is_ws CHR '']''" "\<not> is_ws CHR ''}''" "\<not> is_ws CHR ''[''" "\<not> is_ws CHR ''{''"
  "\<not> is_ws CHR '':''" "\<not> is_ws CHR 0x22" "\<not> is_ws CHR ''n''" "\<not> is_ws CHR ''t''" "\<not> is_ws CHR ''f''"
  by (simp_all add: is_ws_def)

lemma is_digit_not_ws [simp]: "is_digit c \<Longrightarrow> \<not> is_ws c"
  by (auto simp: is_ws_def is_digit_def)

lemma parse_leaf_simps [simp]:
  "parse_leaf (CHR 0x22 # cs) = map_option (\<lambda>(raw, r). (JStr raw, r)) (scan_str cs)"
  "parse_leaf (CHR ''n'' # CHR ''u'' # CHR ''l'' # CHR ''l'' # r) = Some (JNull, r)"
  "parse_leaf (CHR ''t'' # CHR ''r'' # CHR ''u'' # CHR ''e'' # r) = Some (JBool True, r)"
  "parse_leaf (CHR ''f'' # CHR ''a'' # CHR ''l'' # CHR ''s'' # CHR ''e'' # r) = Some (JBool False, r)"
  by (simp_all add: parse_leaf_def)

lemma parse_leaf_num:
  "c = CHR ''-'' \<or> is_digit c \<Longrightarrow> parse_leaf (c # cs) = map_option (\<lambda>(lit, r). (JNum lit, r)) (scan_num (c # cs))"
  by (auto simp: parse_leaf_def is_digit_def)

lemma raw_between_append [simp]: "raw_between (t @ r) r = t"
  by (simp add: raw_between_def)

lemma delim_simps [simp]:
  "delim []" "delim (CHR '','' # r)" "delim (CHR '']'' # r)" "delim (CHR ''}'' # r)"
  by (simp_all add: delim_def)

lemma renders_parse:
  "renders t v \<Longrightarrow> json_fuel t \<le> k \<Longrightarrow> delim rest \<Longrightarrow> parse_value k (t @ rest) = Some (v, rest)"
  by (simp add: renders_def)

lemma rendersI:
  assumes "t \<noteq> []" "\<not> is_ws (hd t)"
    and "\<And>k rest. json_fuel t \<le> Suc k \<Longrightarrow> delim rest \<Longrightarrow> parse_value (Suc k) (t @ rest) = Some (v, rest)"
  shows "renders t v"
  unfolding renders_def
proof (intro conjI allI impI)
  fix k rest assume "json_fuel t \<le> k" "delim rest"
  then show "parse_value k (t @ rest) = Some (v, rest)"
    using assms(3) [of "k - 1" rest] by (cases k) (auto simp: json_fuel_def)
qed (use assms in auto)

lemma renders_json_parse: "renders t v \<Longrightarrow> json_parse t = Some v"
  using renders_parse [of t v "json_fuel t" "[]"] by (simp add: json_parse_def json_first_def)

lemma renders_json_first: "renders t v \<Longrightarrow> json_first t = Some (v, [])"
  using renders_parse [of t v "json_fuel t" "[]"] by (simp add: json_first_def)

lemma renders_not_close: "renders t v \<Longrightarrow> hd t \<noteq> CHR '']''"
proof
  assume r: "renders t v" and h: "hd t = CHR '']''"
  then obtain cs where "t = CHR '']'' # cs" by (cases t) (auto simp: renders_def)
  with renders_parse [OF r, of "json_fuel t" "[]"] show False
    by (simp add: parse_leaf_def json_fuel_def scan_num_def scan_unsigned_def scan_int_part_def scan_digits_def is_digit_def)
qed

lemma renders_null [simp]: "renders ''null'' JNull"
  by (rule rendersI) simp_all

lemma renders_bool [simp]: "renders (if b then ''true'' else ''false'') (JBool b)"
  by (cases b; simp; rule rendersI) simp_all

lemma renders_quote [simp]: "renders (quote s) (JStr (quote_body s))"
  by (rule rendersI) (simp_all add: quote_def)

lemma renders_raw_string:
  assumes "\<And>r. scan_str (raw @ CHR 0x22 # r) = Some (raw, r)"
  shows "renders (CHR 0x22 # raw @ [CHR 0x22]) (JStr raw)"
  by (rule rendersI) (simp_all add: assms)

lemma takeWhile_digits: "list_all is_digit d \<Longrightarrow> (r = [] \<or> \<not> is_digit (hd r)) \<Longrightarrow> takeWhile is_digit (d @ r) = d"
  by (induction d) (cases r, auto)

lemma dropWhile_digits: "list_all is_digit d \<Longrightarrow> (r = [] \<or> \<not> is_digit (hd r)) \<Longrightarrow> dropWhile is_digit (d @ r) = r"
  by (induction d) (cases r, auto)

lemma scan_digits_append:
  "d \<noteq> [] \<Longrightarrow> list_all is_digit d \<Longrightarrow> (r = [] \<or> \<not> is_digit (hd r)) \<Longrightarrow> scan_digits (d @ r) = Some (d, r)"
  by (simp add: scan_digits_def takeWhile_digits dropWhile_digits)

lemma delim_no_number:
  assumes "delim r"
  shows "r = [] \<or> \<not> is_digit (hd r)" "scan_frac r = Some ([], r)" "scan_exp r = Some ([], r)"
  using assms by (cases r; auto simp: delim_def is_digit_def scan_frac_def scan_exp_def)+

lemma hd_nat_dec_zero: "hd (nat_dec n) = CHR ''0'' \<longleftrightarrow> n = 0"
proof (induction n rule: nat_dec.induct)
  case (1 n)
  show ?case
  proof (cases "n < 10")
    case True
    have "digit_char n = CHR ''0'' \<longleftrightarrow> n = 0"
      using True byte_val_inj [of "digit_char n" "CHR ''0''"] by simp
    with True show ?thesis by (subst nat_dec.simps) simp
  next
    case False
    with 1 show ?thesis by (subst nat_dec.simps) simp
  qed
qed

lemma scan_int_part_nat_dec:
  assumes "r = [] \<or> \<not> is_digit (hd r)"
  shows "scan_int_part (nat_dec n @ r) = Some (nat_dec n, r)"
proof (cases "n = 0")
  case True
  have "nat_dec 0 = ''0''" by (simp add: nat_dec.simps digit_char_def flip: byte_val_inj)
  with True show ?thesis by (simp add: scan_int_part_def)
next
  case False
  obtain c cs where d: "nat_dec n = c # cs" by (cases "nat_dec n") auto
  have "c \<noteq> CHR ''0''" using False hd_nat_dec_zero [of n] d by simp
  moreover have "scan_digits (nat_dec n @ r) = Some (nat_dec n, r)"
    by (rule scan_digits_append [OF nat_dec_nonempty nat_dec_digits assms])
  ultimately show ?thesis by (simp add: scan_int_part_def d)
qed

lemma scan_num_int_dec:
  assumes "delim r"
  shows "scan_num (int_dec n @ r) = Some (int_dec n, r)"
proof -
  have u: "scan_unsigned (nat_dec m @ r) = Some (nat_dec m, r)" for m
    using scan_int_part_nat_dec [OF delim_no_number(1) [OF assms], of m] delim_no_number [OF assms]
    by (simp add: scan_unsigned_def)
  show ?thesis
  proof (cases "n < 0")
    case True
    then show ?thesis by (simp add: int_dec_def scan_num_def u)
  next
    case False
    obtain c cs where d: "nat_dec (nat n) = c # cs" by (cases "nat_dec (nat n)") auto
    have "is_digit c" using hd_nat_dec [of "nat n"] d by simp
    then have "c \<noteq> CHR ''-''" by auto
    with False u [of "nat n"] d show ?thesis by (simp add: int_dec_def scan_num_def)
  qed
qed

lemma hd_int_dec: "int_dec n \<noteq> [] \<and> (hd (int_dec n) = CHR ''-'' \<or> is_digit (hd (int_dec n)))"
  by (simp add: int_dec_def hd_nat_dec)

subsection \<open>Arrays and objects\<close>

text \<open>An element or member may be followed by another one or by the closing bracket.\<close>

lemma parse_elems_join:
  assumes "list_all2 renders ts vs" and "ts \<noteq> []" and "2 * length (join_comma ts) + 3 \<le> k"
  shows "parse_elems k (join_comma ts @ CHR '']'' # rest) = Some (vs, rest)"
  using assms
proof (induction ts arbitrary: vs k rule: join_comma.induct)
  case 1
  then show ?case by simp
next
  case (2 t)
  then obtain v where v: "vs = [v]" "renders t v" by (auto simp: list_all2_Cons1)
  obtain k' where k: "k = Suc k'" using 2 by (cases k) auto
  have "parse_value k' (t @ CHR '']'' # rest) = Some (v, CHR '']'' # rest)"
    by (rule renders_parse [OF v(2)]) (use 2 k in \<open>simp_all add: json_fuel_def\<close>)
  with v k show ?case by simp
next
  case (3 t u ts)
  then obtain v vs' where v: "vs = v # vs'" "renders t v" "list_all2 renders (u # ts) vs'"
    by (auto simp: list_all2_Cons1)
  obtain k' where k: "k = Suc k'" using 3 by (cases k) auto
  have t: "t \<noteq> []" using v by (simp add: renders_def)
  let ?r = "CHR '','' # join_comma (u # ts) @ CHR '']'' # rest"
  have "parse_value k' (t @ ?r) = Some (v, ?r)"
    by (rule renders_parse [OF v(2)]) (use 3 k in \<open>simp_all add: json_fuel_def\<close>)
  moreover have "parse_elems k' (join_comma (u # ts) @ CHR '']'' # rest) = Some (vs', rest)"
    by (rule "3.IH" [OF v(3)]) (use 3 k t in \<open>simp_all add: Suc_le_eq flip: length_greater_0_conv\<close>)
  ultimately show ?case by (simp add: v k)
qed

lemma hd_join_comma: "ts \<noteq> [] \<Longrightarrow> hd ts \<noteq> [] \<Longrightarrow> join_comma ts \<noteq> [] \<and> hd (join_comma ts) = hd (hd ts)"
  by (cases ts rule: join_comma.cases) auto

lemma renders_arr:
  assumes "list_all2 renders ts vs"
  shows "renders (jarr ts) (JArr vs)"
proof (rule rendersI)
  show "jarr ts \<noteq> []" "\<not> is_ws (hd (jarr ts))" by (simp_all add: jarr_def)
  fix k rest assume k: "json_fuel (jarr ts) \<le> Suc k" and d: "delim rest"
  show "parse_value (Suc k) (jarr ts @ rest) = Some (JArr vs, rest)"
  proof (cases ts)
    case Nil
    with assms show ?thesis by (simp add: jarr_def)
  next
    case (Cons t ts')
    then obtain v where v: "renders t v" using assms by (auto simp: list_all2_Cons1)
    have h: "join_comma ts \<noteq> []" "hd (join_comma ts) = hd t"
      using hd_join_comma [of ts] Cons v by (auto simp: renders_def)
    have t: "\<not> is_ws (hd t)" "hd t \<noteq> CHR '']''" using v renders_not_close by (auto simp: renders_def)
    obtain c cs where j: "join_comma ts = c # cs" using h by (cases "join_comma ts") auto
    have "parse_elems k (join_comma ts @ CHR '']'' # rest) = Some (vs, rest)"
      by (rule parse_elems_join [OF assms]) (use Cons k in \<open>auto simp: json_fuel_def jarr_def\<close>)
    with t h j show ?thesis by (simp add: jarr_def)
  qed
qed

definition member_renders :: "string \<times> string \<Rightarrow> string \<times> string \<times> json \<Rightarrow> bool" where
  "member_renders f m \<longleftrightarrow>
     fst f = CHR 0x22 # fst m @ [CHR 0x22] \<and> (\<forall>r. scan_str (fst m @ CHR 0x22 # r) = Some (fst m, r)) \<and>
     snd f = fst (snd m) \<and> renders (snd f) (snd (snd m))"

definition member_text :: "string \<times> string \<Rightarrow> string" where
  "member_text f = fst f @ CHR '':'' # snd f"

lemma parse_members_step:
  assumes "member_renders f m" and "2 * length (member_text f) + 2 \<le> k"
    and "r = c # cs" and "c = CHR '','' \<or> c = CHR ''}''"
  shows "parse_members (Suc k) (member_text f @ r) =
    (if c = CHR '','' then map_option (\<lambda>(ms, r'). (m # ms, r')) (parse_members k cs) else Some ([m], cs))"
proof -
  obtain key tx v where m: "m = (key, tx, v)" by (cases m)
  have f: "f = (CHR 0x22 # key @ [CHR 0x22], tx)" and s: "\<And>r. scan_str (key @ CHR 0x22 # r) = Some (key, r)"
    and v: "renders tx v"
    using assms(1) by (auto simp: member_renders_def m prod_eq_iff)
  have d: "delim r" using assms(3,4) by auto
  have "parse_value k (tx @ r) = Some (v, r)"
    by (rule renders_parse [OF v _ d]) (use assms(2) f in \<open>simp add: json_fuel_def member_text_def\<close>)
  moreover have "skip_ws (tx @ r) = tx @ r" using v by (simp add: renders_def)
  moreover have "\<not> is_ws c" using assms(4) by auto
  ultimately show ?thesis
    using assms(3,4) by (auto simp: member_text_def f m s split: option.splits)
qed

lemma parse_members_join:
  assumes "list_all2 member_renders fs ms" and "fs \<noteq> []"
    and "2 * length (join_comma (map member_text fs)) + 3 \<le> k"
  shows "parse_members k (join_comma (map member_text fs) @ CHR ''}'' # rest) = Some (ms, rest)"
  using assms
proof (induction fs arbitrary: ms k)
  case Nil
  then show ?case by simp
next
  case (Cons f fs)
  then obtain m ms' where m: "ms = m # ms'" "member_renders f m" "list_all2 member_renders fs ms'"
    by (auto simp: list_all2_Cons1)
  obtain k' where k: "k = Suc k'" using Cons.prems by (cases k) auto
  show ?case
  proof (cases fs)
    case Nil
    have "parse_members (Suc k') (member_text f @ CHR ''}'' # rest) = Some ([m], rest)"
      by (subst parse_members_step [OF m(2) _ refl]) (use Cons.prems(3) k Nil in simp_all)
    with k m Nil show ?thesis by simp
  next
    case (Cons g gs)
    let ?j = "join_comma (map member_text fs)"
    have j: "join_comma (map member_text (f # fs)) = member_text f @ CHR '','' # ?j"
      by (simp add: Cons)
    have IH: "parse_members k' (?j @ CHR ''}'' # rest) = Some (ms', rest)"
      by (rule Cons.IH [OF m(3)]) (use Cons.prems(3) k j Cons in simp_all)
    have "parse_members (Suc k') (member_text f @ CHR '','' # (?j @ CHR ''}'' # rest)) = Some (m # ms', rest)"
      by (subst parse_members_step [OF m(2) _ refl]) (use Cons.prems(3) k j IH in simp_all)
    with k m show ?thesis by (simp only: j append_assoc append_Cons)
  qed
qed

definition obj_text :: "(string \<times> string) list \<Rightarrow> string" where
  "obj_text fs = CHR ''{'' # join_comma (map member_text fs) @ [CHR ''}'']"

lemma renders_obj_text:
  assumes "list_all2 member_renders fs ms"
  shows "renders (obj_text fs) (JObj ms)"
proof (rule rendersI)
  show "obj_text fs \<noteq> []" "\<not> is_ws (hd (obj_text fs))" by (simp_all add: obj_text_def)
  fix k rest assume k: "json_fuel (obj_text fs) \<le> Suc k" and d: "delim rest"
  show "parse_value (Suc k) (obj_text fs @ rest) = Some (JObj ms, rest)"
  proof (cases fs)
    case Nil
    with assms show ?thesis by (simp add: obj_text_def)
  next
    case (Cons f fs')
    then obtain m where "member_renders f m" using assms by (auto simp: list_all2_Cons1)
    then have h: "join_comma (map member_text fs) \<noteq> []" "hd (join_comma (map member_text fs)) = CHR 0x22"
      using hd_join_comma [of "map member_text fs"] Cons by (auto simp: member_renders_def member_text_def)
    then obtain cs where j: "join_comma (map member_text fs) = CHR 0x22 # cs"
      by (cases "join_comma (map member_text fs)") auto
    have "parse_members k (join_comma (map member_text fs) @ CHR ''}'' # rest) = Some (ms, rest)"
      by (rule parse_members_join [OF assms]) (use Cons k in \<open>auto simp: json_fuel_def obj_text_def\<close>)
    with j show ?thesis by (simp add: obj_text_def)
  qed
qed

lemma jobj_obj_text: "jobj fs = obj_text (map (\<lambda>(k, t). (quote k, t)) fs)"
  by (simp add: jobj_def obj_text_def jfield_def [abs_def] member_text_def comp_def split_def)

lemma renders_obj:
  assumes "list_all2 (\<lambda>f m. m = (quote_body (fst f), snd f, snd (snd m)) \<and> renders (snd f) (snd (snd m))) fs ms"
  shows "renders (jobj fs) (JObj ms)"
  unfolding jobj_obj_text
  by (rule renders_obj_text)
     (use assms in \<open>auto simp: list_all2_conv_all_nth member_renders_def quote_def split_def prod_eq_iff\<close>)

section \<open>Compaction\<close>

text \<open>
  What \<open>Marshal\<close> writes for a \<open>RawMessage\<close> (\<open>compact\<close> with HTML escaping): white space between
  tokens is dropped, the tokens are copied, and inside strings \<open><\<close>, \<open>>\<close>, \<open>&\<close>, U+2028 and U+2029
  become escapes.
\<close>

fun html_escape :: "string \<Rightarrow> string" where
  "html_escape [] = []"
| "html_escape (c # cs) =
     (if c = CHR ''<'' \<or> c = CHR ''>'' \<or> c = CHR ''&'' then u00_escape c @ html_escape cs
      else if c = CHR 0xE2 \<and> prefix [CHR 0x80, CHR 0xA8] cs then CHR 0x5C # ''u2028'' @ html_escape (drop 2 cs)
      else if c = CHR 0xE2 \<and> prefix [CHR 0x80, CHR 0xA9] cs then CHR 0x5C # ''u2029'' @ html_escape (drop 2 cs)
      else c # html_escape cs)"

definition raw_string :: "string \<Rightarrow> string" where
  "raw_string raw = CHR 0x22 # html_escape raw @ [CHR 0x22]"

fun jtext :: "json \<Rightarrow> string"
and jtexts :: "json list \<Rightarrow> string list"
and jmembers :: "(string \<times> string \<times> json) list \<Rightarrow> (string \<times> string) list"
where
  "jtext JNull = ''null''"
| "jtext (JBool b) = (if b then ''true'' else ''false'')"
| "jtext (JNum lit) = lit"
| "jtext (JStr raw) = raw_string raw"
| "jtext (JArr vs) = jarr (jtexts vs)"
| "jtext (JObj ms) = obj_text (jmembers ms)"
| "jtexts [] = []"
| "jtexts (v # vs) = jtext v # jtexts vs"
| "jmembers [] = []"
| "jmembers ((k, t, v) # ms) = (raw_string k, jtext v) # jmembers ms"

definition json_compact :: "string \<Rightarrow> string option" where
  "json_compact s = map_option jtext (json_parse s)"

text \<open>The value that the compacted text denotes, and the values the parser can return.\<close>

fun jnorm :: "json \<Rightarrow> json"
and jnorms :: "json list \<Rightarrow> json list"
and jnorm_members :: "(string \<times> string \<times> json) list \<Rightarrow> (string \<times> string \<times> json) list"
where
  "jnorm JNull = JNull"
| "jnorm (JBool b) = JBool b"
| "jnorm (JNum lit) = JNum lit"
| "jnorm (JStr raw) = JStr (html_escape raw)"
| "jnorm (JArr vs) = JArr (jnorms vs)"
| "jnorm (JObj ms) = JObj (jnorm_members ms)"
| "jnorms [] = []"
| "jnorms (v # vs) = jnorm v # jnorms vs"
| "jnorm_members [] = []"
| "jnorm_members ((k, t, v) # ms) = (html_escape k, jtext v, jnorm v) # jnorm_members ms"

definition raw_ok :: "string \<Rightarrow> bool" where
  "raw_ok raw \<longleftrightarrow> scan_str (raw @ [CHR 0x22]) = Some (raw, [])"

definition num_ok :: "string \<Rightarrow> bool" where
  "num_ok lit \<longleftrightarrow> scan_num lit = Some (lit, [])"

fun json_ok :: "json \<Rightarrow> bool"
and jsons_ok :: "json list \<Rightarrow> bool"
and members_ok :: "(string \<times> string \<times> json) list \<Rightarrow> bool"
where
  "json_ok JNull = True"
| "json_ok (JBool b) = True"
| "json_ok (JNum lit) = num_ok lit"
| "json_ok (JStr raw) = raw_ok raw"
| "json_ok (JArr vs) = jsons_ok vs"
| "json_ok (JObj ms) = members_ok ms"
| "jsons_ok [] = True"
| "jsons_ok (v # vs) \<longleftrightarrow> json_ok v \<and> jsons_ok vs"
| "members_ok [] = True"
| "members_ok ((k, t, v) # ms) \<longleftrightarrow> raw_ok k \<and> json_ok v \<and> members_ok ms"

lemma scan_chunk_cancel: "scan_chunk (p @ q) \<Longrightarrow> scan_chunk p \<Longrightarrow> scan_chunk q"
proof -
  assume pq: "scan_chunk (p @ q)" and p: "scan_chunk p"
  have "scan_str (q @ t) = map_option (\<lambda>(b, r). (q @ b, r)) (scan_str t)" for t
  proof -
    have "map_option (\<lambda>(b, r). (p @ b, r)) (scan_str (q @ t))
        = map_option (\<lambda>(b, r). (p @ b, r)) (map_option (\<lambda>(b, r). (q @ b, r)) (scan_str t))"
      using pq p by (simp add: scan_chunk_def option.map_comp comp_def split_def)
    moreover have "inj (\<lambda>(b :: string, r :: string). (p @ b, r))" by (auto simp: inj_def)
    ultimately show ?thesis using option.inj_map by (metis injD)
  qed
  then show ?thesis by (simp add: scan_chunk_def)
qed

definition html_plain :: "char \<Rightarrow> bool" where
  "html_plain c \<longleftrightarrow> c \<noteq> CHR ''<'' \<and> c \<noteq> CHR ''>'' \<and> c \<noteq> CHR ''&'' \<and> c \<noteq> CHR 0xE2"

lemma html_escape_plain: "list_all html_plain p \<Longrightarrow> html_escape (p @ s) = p @ html_escape s"
  by (induction p) (auto simp: html_plain_def)

lemma hex_html_plain: "hex_val c \<noteq> None \<Longrightarrow> html_plain c"
  by (auto simp: hex_val_def html_plain_def Let_def)

lemma simple_escape_html_plain: "simple_escape e \<noteq> None \<Longrightarrow> html_plain e"
  by (auto simp: simple_escape_def html_plain_def split: if_splits)

lemma scan_chunk_html_Cons:
  assumes c: "c \<noteq> CHR 0x22" "c \<noteq> CHR 0x5C" "0x20 \<le> byte_val c" and h: "scan_chunk (html_escape b)"
  shows "scan_chunk (html_escape (c # b))"
proof -
  have e: "scan_chunk ((CHR 0x5C # ''u202'' @ [d]) @ html_escape b')"
    if "d = CHR ''8'' \<or> d = CHR ''9''" and b: "b = CHR 0x80 # x # b'" and "x = CHR 0xA8 \<or> x = CHR 0xA9" for d x b'
  proof (rule scan_chunk_append)
    show "scan_chunk (CHR 0x5C # ''u202'' @ [d])"
      using scan_chunk_u4 [of "CHR ''2''" "CHR ''0''" "CHR ''2''" d] that(1)
      by (auto simp: is_hex4_def hex_val_def)
    have "html_escape b = [CHR 0x80, x] @ html_escape b'"
      unfolding b using that(3) by auto
    then have "scan_chunk ([CHR 0x80, x] @ html_escape b')" using h by simp
    moreover have "scan_chunk [CHR 0x80, x]" by (rule scan_chunk_plains) (use that(3) in auto)
    ultimately show "scan_chunk (html_escape b')" by (rule scan_chunk_cancel)
  qed
  have p: "scan_chunk (c # html_escape b)" using scan_chunk_append [OF scan_chunk_plain [OF c] h] by simp
  have u: "scan_chunk (u00_escape c @ html_escape b)" by (rule scan_chunk_append [OF scan_chunk_u00 h])
  show ?thesis
    using p u e [of "CHR ''8''" "CHR 0xA8"] e [of "CHR ''9''" "CHR 0xA9"] by (auto simp: prefix_def)
qed

lemma scan_str_SomeD:
  "scan_str s = Some (b, r) \<Longrightarrow> s = b @ CHR 0x22 # r \<and> scan_chunk b \<and> scan_chunk (html_escape b)"
proof (induction s arbitrary: b r rule: scan_str.induct)
  case (1 s)
  obtain c cs where s: "s = c # cs" using "1.prems" by (cases s) (auto simp: scan_str.simps [of "[]"])
  note prem = "1.prems" [unfolded s scan_str.simps [of "c # cs"], simplified]
  consider (q) "c = CHR 0x22" | (e) "c = CHR 0x5C" | (p) "c \<noteq> CHR 0x22" "c \<noteq> CHR 0x5C" by blast
  then show ?case
  proof cases
    case q
    with prem s show ?thesis by (simp add: scan_chunk_Nil)
  next
    case e
    with prem obtain x ds where cs: "cs = x # ds" by (cases cs) auto
    show ?thesis
    proof (cases "x = CHR ''u''")
      case True
      with prem e cs obtain b' where b': "is_hex4 ds" "scan_str (drop 4 ds) = Some (b', r)"
        and b: "b = c # x # take 4 ds @ b'" by (auto split: if_splits)
      have IH: "drop 4 ds = b' @ CHR 0x22 # r" "scan_chunk b'" "scan_chunk (html_escape b')"
        using "1.IH"(1) [OF s _ e cs True b'(1,2)] True e by simp_all
      have "length (take 4 ds) = 4" using b'(1) by (simp add: is_hex4_def)
      then obtain x1 x2 x3 x4 where x: "take 4 ds = [x1, x2, x3, x4]"
        by (auto simp: numeral_eq_Suc length_Suc_conv simp del: length_take)
      have u: "scan_chunk (CHR 0x5C # CHR ''u'' # take 4 ds)"
        unfolding x by (rule scan_chunk_u4) (use b'(1) in \<open>simp add: is_hex4_def x\<close>)
      have "list_all html_plain (take 4 ds)"
        using b'(1) hex_html_plain by (fastforce simp: is_hex4_def list_all_iff)
      then have "list_all html_plain (c # x # take 4 ds)" using e True by (simp add: html_plain_def)
      then have "html_escape b = (c # x # take 4 ds) @ html_escape b'"
        using html_escape_plain [of "c # x # take 4 ds" b'] b by simp
      moreover have "ds = take 4 ds @ b' @ CHR 0x22 # r" using IH(1) append_take_drop_id by metis
      ultimately show ?thesis
        using scan_chunk_append [OF u IH(2)] scan_chunk_append [OF u IH(3)] b s cs e True by simp
    next
      case False
      with prem e cs obtain b' where b': "simple_escape x \<noteq> None" "scan_str ds = Some (b', r)"
        and b: "b = c # x # b'" by (auto split: if_splits)
      have IH: "ds = b' @ CHR 0x22 # r" "scan_chunk b'" "scan_chunk (html_escape b')"
        using "1.IH"(2) [OF s _ e cs False b'(1,2)] e by simp_all
      have u: "scan_chunk [CHR 0x5C, x]" by (rule scan_chunk_escape [OF False b'(1)])
      have "html_escape ([c, x] @ b') = [c, x] @ html_escape b'"
        by (rule html_escape_plain) (use e simple_escape_html_plain [OF b'(1)] in \<open>simp add: html_plain_def\<close>)
      then show ?thesis
        using scan_chunk_append [OF u IH(2)] scan_chunk_append [OF u IH(3)] b s cs e IH(1) by simp
    qed
  next
    case p
    with prem obtain b' where b': "0x20 \<le> byte_val c" "scan_str cs = Some (b', r)" and b: "b = c # b'"
      by (auto split: if_splits)
    have IH: "cs = b' @ CHR 0x22 # r" "scan_chunk b'" "scan_chunk (html_escape b')"
      using "1.IH"(3) [OF s p(1,2) _ b'(2)] b'(1) by simp_all
    show ?thesis
      using scan_chunk_html_Cons [OF p b'(1) IH(3)] scan_chunk_append [OF scan_chunk_plain [OF p b'(1)] IH(2)]
        b s IH(1) by simp
  qed
qed

lemma raw_ok_scan: "raw_ok raw \<Longrightarrow> scan_str (raw @ CHR 0x22 # r) = Some (raw, r)"
  using scan_str_SomeD [of "raw @ [CHR 0x22]" raw "[]"] by (simp add: raw_ok_def scan_chunk_def)

lemma raw_ok_html_scan: "raw_ok raw \<Longrightarrow> scan_str (html_escape raw @ CHR 0x22 # r) = Some (html_escape raw, r)"
  using scan_str_SomeD [of "raw @ [CHR 0x22]" raw "[]"] by (simp add: raw_ok_def scan_chunk_def)

lemma scan_str_raw_ok: "scan_str s = Some (b, r) \<Longrightarrow> raw_ok b"
  using scan_str_SomeD [of s b r] by (simp add: raw_ok_def scan_chunk_def)

lemma scan_digits_SomeD:
  "scan_digits s = Some (a, r) \<Longrightarrow> s = a @ r \<and> a \<noteq> [] \<and> list_all is_digit a"
  by (auto simp: scan_digits_def list_all_iff dest: set_takeWhileD split: if_splits)

definition no_digit :: "string \<Rightarrow> bool" where
  "no_digit r \<longleftrightarrow> r = [] \<or> \<not> is_digit (hd r)"

lemma scan_digits_again: "scan_digits s = Some (a, r) \<Longrightarrow> no_digit r' \<Longrightarrow> scan_digits (a @ r') = Some (a, r')"
  using scan_digits_SomeD [of s a r] scan_digits_append [of a r'] by (simp add: no_digit_def)

lemma scan_int_part_SomeD:
  assumes "scan_int_part s = Some (a, r)"
  shows "s = a @ r \<and> a \<noteq> [] \<and> is_digit (hd a) \<and> (\<forall>r'. no_digit r' \<longrightarrow> scan_int_part (a @ r') = Some (a, r'))"
proof -
  obtain c cs where s: "s = c # cs" using assms by (cases s) (auto simp: scan_int_part_def)
  show ?thesis
  proof (cases "c = CHR ''0''")
    case True
    with assms s show ?thesis by (auto simp: scan_int_part_def is_digit_def)
  next
    case False
    with assms s have d: "scan_digits (c # cs) = Some (a, r)" by (simp add: scan_int_part_def)
    from scan_digits_SomeD [OF d] obtain a' where a: "a = c # a'" "cs = a' @ r" "is_digit c"
      by (cases a) auto
    show ?thesis
      using scan_digits_again [OF d] a s False by (simp add: scan_int_part_def)
  qed
qed

definition no_frac :: "string \<Rightarrow> bool" where
  "no_frac r \<longleftrightarrow> no_digit r \<and> (r = [] \<or> hd r \<noteq> CHR ''.'')"

lemma scan_frac_SomeD:
  assumes "scan_frac s = Some (a, r)"
  shows "s = a @ r \<and> (\<forall>r'. no_frac r' \<longrightarrow> scan_frac (a @ r') = Some (a, r') \<and> no_digit (a @ r'))"
proof (cases "\<exists>cs. s = CHR ''.'' # cs")
  case True
  with assms obtain cs d where d: "s = CHR ''.'' # cs" "scan_digits cs = Some (d, r)" "a = CHR ''.'' # d"
    by (auto simp: scan_frac_def)
  show ?thesis
    using scan_digits_SomeD [OF d(2)] scan_digits_again [OF d(2)] d(1,3)
    by (auto simp: scan_frac_def no_frac_def no_digit_def is_digit_def)
next
  case False
  with assms have a: "a = [] \<and> r = s" by (cases s) (auto simp: scan_frac_def split: if_splits)
  show ?thesis
    using a by (auto simp: no_frac_def scan_frac_def split: list.splits)
qed

lemma scan_exp_SomeD:
  assumes "scan_exp s = Some (a, r)"
  shows "s = a @ r \<and> (\<forall>r'. delim r' \<longrightarrow> scan_exp (a @ r') = Some (a, r') \<and> no_frac (a @ r'))"
proof -
  have nd: "delim r' \<Longrightarrow> no_digit r' \<and> no_frac r'" for r'
    by (cases r') (auto simp: delim_def no_frac_def no_digit_def is_digit_def)
  show ?thesis
  proof (cases "\<exists>c cs. s = c # cs \<and> (c = CHR ''e'' \<or> c = CHR ''E'')")
    case False
    with assms have "a = [] \<and> r = s" by (cases s) (auto simp: scan_exp_def split: if_splits)
    then show ?thesis using nd delim_no_number by auto
  next
    case True
    then obtain c cs where s: "s = c # cs" "c = CHR ''e'' \<or> c = CHR ''E''" by blast
    with assms obtain d ds where cs: "cs = d # ds" by (cases cs) (auto simp: scan_exp_def)
    have c: "no_frac (c # t)" for t using s(2) by (auto simp: no_frac_def no_digit_def is_digit_def)
    show ?thesis
    proof (cases "d = CHR ''+'' \<or> d = CHR ''-''")
      case True
      with assms s cs obtain x where x: "scan_digits ds = Some (x, r)" "a = c # d # x"
        by (auto simp: scan_exp_def)
      show ?thesis
        using scan_digits_SomeD [OF x(1)] scan_digits_again [OF x(1)] nd s cs x(2) True c
        by (auto simp: scan_exp_def)
    next
      case False
      with assms s cs obtain x where x: "scan_digits (d # ds) = Some (x, r)" "a = c # x"
        by (auto simp: scan_exp_def)
      from scan_digits_SomeD [OF x(1)] obtain x' where x': "x = d # x'" by (cases x) auto
      show ?thesis
        using scan_digits_SomeD [OF x(1)] scan_digits_again [OF x(1)] nd s cs x(2) x' False c
        by (auto simp: scan_exp_def)
    qed
  qed
qed

lemma scan_unsigned_SomeD:
  assumes "scan_unsigned s = Some (a, r)"
  shows "s = a @ r \<and> a \<noteq> [] \<and> is_digit (hd a) \<and> (\<forall>r'. delim r' \<longrightarrow> scan_unsigned (a @ r') = Some (a, r'))"
proof -
  obtain i r1 f r2 e where i: "scan_int_part s = Some (i, r1)" and f: "scan_frac r1 = Some (f, r2)"
    and e: "scan_exp r2 = Some (e, r)" and a: "a = i @ f @ e"
    using assms by (auto simp: scan_unsigned_def split: option.splits)
  show ?thesis
    using scan_int_part_SomeD [OF i] scan_frac_SomeD [OF f] scan_exp_SomeD [OF e] a
    by (auto simp: scan_unsigned_def)
qed

lemma scan_num_SomeD:
  assumes "scan_num s = Some (a, r)"
  shows "s = a @ r \<and> a \<noteq> [] \<and> (hd a = CHR ''-'' \<or> is_digit (hd a)) \<and>
    (\<forall>r'. delim r' \<longrightarrow> scan_num (a @ r') = Some (a, r'))"
proof -
  obtain c cs where s: "s = c # cs" using assms by (cases s) (auto simp: scan_num_def)
  show ?thesis
  proof (cases "c = CHR ''-''")
    case True
    with assms s obtain d where d: "scan_unsigned cs = Some (d, r)" "a = c # d" by (auto simp: scan_num_def)
    show ?thesis using scan_unsigned_SomeD [OF d(1)] d(2) s True by (auto simp: scan_num_def)
  next
    case False
    with assms s have u: "scan_unsigned (c # cs) = Some (a, r)" by (simp add: scan_num_def)
    from scan_unsigned_SomeD [OF u] obtain a' where a: "a = c # a'" by (cases a) auto
    show ?thesis using scan_unsigned_SomeD [OF u] a s False by (auto simp: scan_num_def)
  qed
qed

lemma scan_num_ok: "scan_num s = Some (a, r) \<Longrightarrow> num_ok a"
  using scan_num_SomeD [of s a r] by (simp add: num_ok_def) (metis append_Nil2 delim_simps(1))

lemma renders_num:
  assumes "num_ok lit"
  shows "renders lit (JNum lit)"
proof (rule rendersI)
  have s: "scan_num lit = Some (lit, [])" using assms by (simp add: num_ok_def)
  obtain c cs where lit: "lit = c # cs" using scan_num_SomeD [OF s] by (cases lit) auto
  have c: "c = CHR ''-'' \<or> is_digit c" using scan_num_SomeD [OF s] lit by simp
  then show "lit \<noteq> []" "\<not> is_ws (hd lit)" by (auto simp: lit is_ws_def is_digit_def)
  fix k rest assume "delim rest"
  then have "scan_num (c # cs @ rest) = Some (c # cs, rest)" using scan_num_SomeD [OF s] lit by simp
  moreover have "c \<noteq> CHR ''[''" "c \<noteq> CHR ''{''" "\<not> is_ws c"
    using c by (auto simp: is_ws_def is_digit_def)
  ultimately show "parse_value (Suc k) (lit @ rest) = Some (JNum lit, rest)"
    using parse_leaf_num [OF c] by (simp add: lit)
qed

lemma renders_int_dec [simp]: "renders (int_dec n) (JNum (int_dec n))"
  using scan_num_int_dec [of "[]" n] by (simp add: renders_num num_ok_def)

text \<open>The compacted text of a well-formed value is read back.\<close>

lemma renders_jtext:
  "json_ok v \<Longrightarrow> renders (jtext v) (jnorm v)"
  "jsons_ok vs \<Longrightarrow> list_all2 renders (jtexts vs) (jnorms vs)"
  "members_ok ms \<Longrightarrow> list_all2 member_renders (jmembers ms) (jnorm_members ms)"
proof (induction v and vs and ms rule: jtext_jtexts_jmembers.induct)
  case (4 raw)
  then show ?case by (simp add: raw_string_def renders_raw_string raw_ok_html_scan)
next
  case (10 k t v ms)
  then show ?case by (simp add: member_renders_def raw_string_def raw_ok_html_scan)
qed (simp_all add: renders_num renders_arr renders_obj_text del: jarr_def)

lemma parse_leaf_ok: "parse_leaf s = Some (v, r) \<Longrightarrow> json_ok v"
  unfolding parse_leaf_def
  by (auto split: if_splits intro: scan_str_raw_ok scan_num_ok)

lemma parse_json_ok:
  "parse_value k s = Some (v, r) \<Longrightarrow> json_ok v"
  "parse_elems k s = Some (vs, r) \<Longrightarrow> jsons_ok vs"
  "parse_members k s = Some (ms, r) \<Longrightarrow> members_ok ms"
proof (induction k s and k s and k s arbitrary: v r and vs r and ms r
    rule: parse_value_parse_elems_parse_members.induct)
  case (2 k s)
  then show ?case by (auto split: list.splits if_splits dest: parse_leaf_ok)
next
  case (4 k s)
  then show ?case by (auto split: list.splits if_splits option.splits)
next
  case (6 k s)
  then show ?case by (auto split: list.splits if_splits option.splits) (erule scan_str_raw_ok)+
qed simp_all

lemma json_parse_ok: "json_parse s = Some v \<Longrightarrow> json_ok v"
  by (auto simp: json_parse_def json_first_def dest: parse_json_ok(1) split: option.splits if_splits)

lemma json_parse_jtext: "json_parse s = Some v \<Longrightarrow> json_parse (jtext v) = Some (jnorm v)"
  by (blast intro: renders_json_parse renders_jtext(1) json_parse_ok)

text \<open>A text that compaction leaves alone is read back wherever a value is expected.\<close>

lemma compact_renders:
  assumes "json_compact p = Some p"
  obtains v where "json_parse p = Some v" "renders p v"
proof -
  obtain v where v: "json_parse p = Some v" "jtext v = p" using assms by (auto simp: json_compact_def)
  have "renders p (jnorm v)" using renders_jtext(1) [OF json_parse_ok [OF v(1)]] v(2) by simp
  moreover from json_parse_jtext [OF v(1)] v have "jnorm v = v" by simp
  ultimately show thesis using that v(1) by simp
qed

subsection \<open>Enough fuel\<close>

lemma length_skip_ws: "length (skip_ws s) \<le> length s"
  by (simp add: skip_ws_def length_dropWhile_le)

lemma skip_ws_ConsD: "skip_ws s = c # cs \<Longrightarrow> Suc (length cs) \<le> length s"
  using length_skip_ws [of s] by simp

lemma parse_leaf_length:
  assumes "parse_leaf s = Some (v, r)"
  shows "length r < length s"
proof -
  have "length r < length t" if "scan_num t = Some (a, r)" for t a
    using scan_num_SomeD [OF that] by auto
  moreover have "length r < length t" if "scan_str t = Some (a, r)" for t a
    using scan_str_SomeD [OF that] by auto
  ultimately show ?thesis
    using assms by (fastforce simp: parse_leaf_def prefix_def split: if_splits)
qed

lemma parse_members_cases:
  assumes "parse_members (Suc k) s = Some (ms, r)"
  obtains cs key r1 ds v r2 e es where "skip_ws s = CHR 0x22 # cs" "scan_str cs = Some (key, r1)"
    "skip_ws r1 = CHR '':'' # ds" "parse_value k ds = Some (v, r2)" "skip_ws r2 = e # es"
    "e = CHR '','' \<Longrightarrow> map_option (\<lambda>(ms, r'). ((key, raw_between (skip_ws ds) r2, v) # ms, r'))
        (parse_members k es) = Some (ms, r)"
    "e \<noteq> CHR '','' \<Longrightarrow> e = CHR ''}'' \<and> ms = [(key, raw_between (skip_ws ds) r2, v)] \<and> r = es"
proof -
  note A = assms [unfolded parse_members.simps]
  obtain cs where s: "skip_ws s = CHR 0x22 # cs"
    using A by (cases "skip_ws s") (auto split: if_splits)
  note A = A [unfolded s, simplified]
  obtain key r1 where key: "scan_str cs = Some (key, r1)" using A by (cases "scan_str cs") auto
  note A = A [unfolded key, simplified]
  obtain ds where r1: "skip_ws r1 = CHR '':'' # ds" using A by (cases "skip_ws r1") (auto split: if_splits)
  note A = A [unfolded r1, simplified]
  obtain v r2 where v: "parse_value k ds = Some (v, r2)" using A by (cases "parse_value k ds") auto
  note A = A [unfolded v, simplified]
  obtain e es where r2: "skip_ws r2 = e # es" using A by (cases "skip_ws r2") auto
  note A = A [unfolded r2, simplified]
  show thesis
    by (rule that [OF s key r1 v r2]) (use A in \<open>simp_all split: if_splits\<close>)
qed

lemma parse_fuel:
  "parse_value k s = Some (v, r) \<Longrightarrow> length r < length s \<and>
     (\<forall>k'. 2 * (length s - length r) \<le> k' \<longrightarrow> parse_value k' s = Some (v, r))"
  "parse_elems k s = Some (vs, r) \<Longrightarrow> length r < length s \<and>
     (\<forall>k'. 2 * (length s - length r) + 1 \<le> k' \<longrightarrow> parse_elems k' s = Some (vs, r))"
  "parse_members k s = Some (ms, r) \<Longrightarrow> length r < length s \<and>
     (\<forall>k'. 2 * (length s - length r) + 1 \<le> k' \<longrightarrow> parse_members k' s = Some (ms, r))"
proof (induction k s and k s and k s arbitrary: v r and vs r and ms r
    rule: parse_value_parse_elems_parse_members.induct)
  case (2 k s)
  obtain c cs where s: "skip_ws s = c # cs" using "2.prems" by (cases "skip_ws s") auto
  note len = skip_ws_ConsD [OF s]
  consider (arr) vs where "v = JArr vs" "parse_elems k cs = Some (vs, r)" "c = CHR ''[''"
        "hd (skip_ws cs) \<noteq> CHR '']''" "skip_ws cs \<noteq> []"
    | (obj) ms where "v = JObj ms" "parse_members k cs = Some (ms, r)" "c = CHR ''{''"
        "hd (skip_ws cs) \<noteq> CHR ''}''" "skip_ws cs \<noteq> []"
    | (leaf) "length r \<le> length cs" "\<And>j. parse_value (Suc j) s = Some (v, r)"
  proof (cases "c = CHR ''[''")
    case True
    then obtain d ds where d: "skip_ws cs = d # ds" using "2.prems" by (cases "skip_ws cs") (auto simp: s)
    show ?thesis
    proof (cases "d = CHR '']''")
      case e: True
      with skip_ws_ConsD [OF d] True d "2.prems" show ?thesis by (intro leaf) (simp_all add: s)
    next
      case False
      with True d "2.prems" obtain vs where "v = JArr vs" "parse_elems k cs = Some (vs, r)" by (auto simp: s)
      with True d False show ?thesis by (intro arr) simp_all
    qed
  next
    case no: False
    show ?thesis
    proof (cases "c = CHR ''{''")
      case True
      then obtain d ds where d: "skip_ws cs = d # ds" using "2.prems" by (cases "skip_ws cs") (auto simp: s)
      show ?thesis
      proof (cases "d = CHR ''}''")
        case e: True
        with skip_ws_ConsD [OF d] True d "2.prems" show ?thesis by (intro leaf) (simp_all add: s)
      next
        case False
        with True d "2.prems" obtain ms where "v = JObj ms" "parse_members k cs = Some (ms, r)" by (auto simp: s)
        with True d False show ?thesis by (intro obj) simp_all
      qed
    next
      case False
      with no "2.prems" have l: "parse_leaf (c # cs) = Some (v, r)" by (simp add: s)
      with no False parse_leaf_length [OF l] show ?thesis by (intro leaf) (simp_all add: s)
    qed
  qed
  then show ?case
  proof cases
    case arr
    have IH: "length r < length cs \<and> (\<forall>k'. 2 * (length cs - length r) + 1 \<le> k' \<longrightarrow> parse_elems k' cs = Some (vs, r))"
      using "2.IH"(1) [OF s] arr by (cases "skip_ws cs") auto
    have "parse_value k' s = Some (v, r)" if k: "2 * (length s - length r) \<le> k'" for k'
    proof -
      from k IH len obtain j where "k' = Suc j" by (cases k') auto
      with IH k len arr show ?thesis by (auto simp: s split: list.splits)
    qed
    with IH len show ?thesis by simp
  next
    case obj
    have IH: "length r < length cs \<and> (\<forall>k'. 2 * (length cs - length r) + 1 \<le> k' \<longrightarrow> parse_members k' cs = Some (ms, r))"
      using "2.IH"(2) [OF s] obj by (cases "skip_ws cs") auto
    have "parse_value k' s = Some (v, r)" if k: "2 * (length s - length r) \<le> k'" for k'
    proof -
      from k IH len obtain j where "k' = Suc j" by (cases k') auto
      with IH k len obj show ?thesis by (auto simp: s split: list.splits)
    qed
    with IH len show ?thesis by simp
  next
    case leaf
    have "parse_value k' s = Some (v, r)" if "2 * (length s - length r) \<le> k'" for k'
      using that leaf len by (cases k') auto
    with leaf(1) len show ?thesis by simp
  qed
next
  case (4 k s)
  from "4.prems" obtain v r1 d ds where v: "parse_value k s = Some (v, r1)" and d: "skip_ws r1 = d # ds"
    and rest: "if d = CHR '','' then map_option (\<lambda>(vs, r'). (v # vs, r')) (parse_elems k ds) = Some (vs, r)
      else d = CHR '']'' \<and> vs = [v] \<and> r = ds"
    by (auto split: option.splits list.splits if_splits)
  note IH1 = "4.IH"(1) [OF v] and len = skip_ws_ConsD [OF d]
  show ?case
  proof (cases "d = CHR '',''")
    case True
    with rest obtain vs' where vs: "parse_elems k ds = Some (vs', r)" "vs = v # vs'" by auto
    note IH2 = "4.IH"(2) [OF v refl d True vs(1)]
    have "parse_elems k' s = Some (vs, r)" if k: "2 * (length s - length r) + 1 \<le> k'" for k'
    proof -
      from k obtain j where j: "k' = Suc j" by (cases k') auto
      have "parse_value j s = Some (v, r1)" "parse_elems j ds = Some (vs', r)"
        using IH1 IH2 len k j by auto
      with j d True vs show ?thesis by simp
    qed
    with IH1 IH2 len show ?thesis by auto
  next
    case False
    have "parse_elems k' s = Some (vs, r)" if k: "2 * (length s - length r) + 1 \<le> k'" for k'
    proof -
      from k obtain j where j: "k' = Suc j" by (cases k') auto
      have "parse_value j s = Some (v, r1)" using IH1 len k j rest False by auto
      with j d False rest show ?thesis by simp
    qed
    with IH1 len rest False show ?thesis by auto
  qed
next
  case (6 k s)
  obtain cs key r1 ds v r2 e es where s: "skip_ws s = CHR 0x22 # cs" and key: "scan_str cs = Some (key, r1)"
    and r1: "skip_ws r1 = CHR '':'' # ds" and v: "parse_value k ds = Some (v, r2)" and r2: "skip_ws r2 = e # es"
    and more: "e = CHR '','' \<Longrightarrow> map_option (\<lambda>(ms, r'). ((key, raw_between (skip_ws ds) r2, v) # ms, r'))
        (parse_members k es) = Some (ms, r)"
    and last: "e \<noteq> CHR '','' \<Longrightarrow> e = CHR ''}'' \<and> ms = [(key, raw_between (skip_ws ds) r2, v)] \<and> r = es"
    by (rule parse_members_cases [OF "6.prems"]) blast
  note IH1 = "6.IH"(1) [OF s _ key refl r1 _ v] and len = skip_ws_ConsD [OF s] skip_ws_ConsD [OF r1] skip_ws_ConsD [OF r2]
  have lk: "length r1 < length cs" using scan_str_SomeD [OF key] by simp
  show ?case
  proof (cases "e = CHR '',''")
    case True
    with more obtain ms' where ms: "parse_members k es = Some (ms', r)"
      "ms = (key, raw_between (skip_ws ds) r2, v) # ms'" by auto
    note IH2 = "6.IH"(2) [OF s _ key refl r1 _ v refl r2 True ms(1)]
    have "parse_members k' s = Some (ms, r)" if k: "2 * (length s - length r) + 1 \<le> k'" for k'
    proof -
      from k obtain j where j: "k' = Suc j" by (cases k') auto
      have "parse_value j ds = Some (v, r2)" "parse_members j es = Some (ms', r)"
        using IH1 IH2 len k j lk by auto
      with j s key r1 r2 True ms show ?thesis by simp
    qed
    with IH1 IH2 len lk show ?thesis by auto
  next
    case False
    have "parse_members k' s = Some (ms, r)" if k: "2 * (length s - length r) + 1 \<le> k'" for k'
    proof -
      from k obtain j where j: "k' = Suc j" by (cases k') auto
      have "parse_value j ds = Some (v, r2)" using IH1 len k j last False lk by auto
      with j s key r1 r2 False last show ?thesis by simp
    qed
    with IH1 len last False lk show ?thesis by auto
  qed
qed simp_all

lemma parse_value_fuel: "json_fuel s \<le> k \<Longrightarrow> parse_value k s = json_first s"
proof (cases "json_first s")
  case None
  assume "json_fuel s \<le> k"
  show ?thesis
  proof (cases "parse_value k s")
    case (Some x)
    with parse_fuel(1) [of k s "fst x" "snd x"] have "parse_value (json_fuel s) s = Some x"
      by (simp add: json_fuel_def del: parse_value.simps)
    with None show ?thesis by (simp add: json_first_def)
  qed (simp add: None)
next
  case (Some x)
  assume k: "json_fuel s \<le> k"
  from Some parse_fuel(1) [of "json_fuel s" s "fst x" "snd x"] k show ?thesis
    by (simp add: json_first_def json_fuel_def del: parse_value.simps)
qed

section \<open>What is unquoted is valid UTF-8\<close>

lemma simple_escape_ascii: "simple_escape e = Some d \<Longrightarrow> byte_val d < 128"
  by (auto simp: simple_escape_def split: if_splits)

lemma valid_take_multi:
  assumes "decode_multi s = Some (r, n)"
  shows "valid_utf8 (take n s @ t) \<longleftrightarrow> valid_utf8 t"
proof -
  obtain c cs where s: "s = c # cs" using assms by (cases s) (auto simp: decode_multi_def)
  have n: "2 \<le> n" "n \<le> length s" using decode_multi_size [OF assms] by auto
  then obtain m where m: "n = Suc m" by (cases n) auto
  have "128 \<le> byte_val c" using decode_multi_bytes [OF assms] s m by auto
  then show ?thesis
    using decode_multi_take [OF assms, of t] n by (simp add: s m valid_utf8_Cons_multi)
qed

lemma unquote_body_utf8: "unquote_body raw = Some s \<Longrightarrow> valid_utf8 s"
proof (induction raw arbitrary: s rule: unquote_body.induct)
  case (1 raw)
  show ?case
  proof (cases raw)
    case Nil
    with "1.prems" show ?thesis by (simp add: unquote_body.simps)
  next
    case (Cons c cs)
    note IH = "1.IH" [OF Cons]
    show ?thesis
      using "1.prems" [unfolded unquote_body.simps [of raw]] IH Cons
      by (auto simp: valid_encode_rune valid_rune_error valid_take_multi simple_escape_ascii
          split: if_splits list.splits option.splits prod.splits)
  qed
qed
end
