(* ===== verification/Go_Time.thy ===== *)
theory Go_Time
  imports Gline_Prelude "HOL-Library.Monad_Syntax"
begin

text \<open>
  The part of Go's \<open>time\<close> that the code uses. An instant is the number of nanoseconds since
  0001-01-01T00:00:00Z, so that \<open>IsZero\<close> is equality with 0; every instant that the modelled code
  writes is in UTC, and an offset in a parsed text only shifts the instant. The theory holds the
  proleptic Gregorian calendar (400/100/4/1-year cycles of years that begin in March), the
  RFC 3339 text that \<open>MarshalJSON\<close> writes, \<open>time.Parse\<close> with the layouts
  \<open>RFC3339\<close> and \<open>RFC3339Nano\<close>, and saturating subtraction. The main lemmas are the round
  trip \<open>time_parse_format\<close> for the years 0 to 9999 and the injectivity \<open>time_format_inj\<close>.
\<close>

type_synonym time = int
type_synonym duration = int

definition second :: duration where "second = 1000000000"

definition zero_time :: time where "zero_time = 0"

definition is_zero :: "time \<Rightarrow> bool" where "is_zero t \<longleftrightarrow> t = zero_time"

text \<open>\<open>Time.Sub\<close>: the difference, saturated to a \<open>Duration\<close> (an \<open>int64\<close>).\<close>

definition time_sub :: "time \<Rightarrow> time \<Rightarrow> duration" where
  "time_sub t u = max (- (2 ^ 63)) (min (2 ^ 63 - 1) (t - u))"

section \<open>Calendar\<close>

definition leap_year :: "int \<Rightarrow> bool" where
  "leap_year y \<longleftrightarrow> 4 dvd y \<and> (\<not> 100 dvd y \<or> 400 dvd y)"

definition days_in :: "int \<Rightarrow> int \<Rightarrow> int" where
  "days_in y m =
     (if m = 2 then (if leap_year y then 29 else 28)
      else if m = 4 \<or> m = 6 \<or> m = 9 \<or> m = 11 then 30 else 31)"

text \<open>A day of a 400-year cycle that begins on 1 March: the year of the cycle and the day of that year.\<close>

definition split_cycle :: "int \<Rightarrow> int \<times> int" where
  "split_cycle doe =
     (let c = min 3 (doe div 36524);
          r = doe - 36524 * c;
          q = r div 1461;
          r2 = r - 1461 * q;
          y = min 3 (r2 div 365)
      in (100 * c + 4 * q + y, r2 - 365 * y))"

text \<open>Days since 0001-01-01 to year, month, day, and back.\<close>

definition civil_of_days :: "int \<Rightarrow> int \<times> int \<times> int" where
  "civil_of_days n =
     (let (yoe, doy) = split_cycle ((n + 306) mod 146097);
          mp = (5 * doy + 2) div 153;
          d = doy - (153 * mp + 2) div 5 + 1;
          m = (if mp < 10 then mp + 3 else mp - 9)
      in (yoe + 400 * ((n + 306) div 146097) + (if m \<le> 2 then 1 else 0), m, d))"

definition days_of_civil :: "int \<Rightarrow> int \<Rightarrow> int \<Rightarrow> int" where
  "days_of_civil y m d =
     (let y' = (if m \<le> 2 then y - 1 else y);
          yoe = y' mod 400;
          mp = (if m \<le> 2 then m + 9 else m - 3);
          doy = (153 * mp + 2) div 5 + d - 1
      in 146097 * (y' div 400) + 365 * yoe + yoe div 4 - yoe div 100 + doy - 306)"

lemma split_cycle_bounds:
  assumes "0 \<le> doe" "doe < 146097" "split_cycle doe = (yoe, doy)"
  shows "0 \<le> yoe" "yoe < 400" "0 \<le> doy" "doy \<le> 365" "doy = 365 \<Longrightarrow> leap_year (yoe + 1)"
    "365 * yoe + yoe div 4 - yoe div 100 + doy = doe"
proof -
  define c where "c = min 3 (doe div 36524)"
  define r where "r = doe - 36524 * c"
  define q where "q = r div 1461"
  define r2 where "r2 = r - 1461 * q"
  define y where "y = min 3 (r2 div 365)"
  have yoe: "yoe = 100 * c + 4 * q + y" and doy: "doy = r2 - 365 * y"
    using assms(3) by (simp_all add: split_cycle_def Let_def c_def r_def q_def r2_def y_def)
  have c: "0 \<le> c" "c \<le> 3" "0 \<le> r" "c < 3 \<Longrightarrow> r < 36524" "r \<le> 36524"
    using assms(1,2) by (auto simp: c_def r_def min_def)
  have q: "0 \<le> q" "q \<le> 24" "0 \<le> r2" "r2 \<le> 1460" "q = 24 \<Longrightarrow> c < 3 \<Longrightarrow> r2 < 1460"
    using c unfolding q_def r2_def by auto
  have "r2 - 365 * (r2 div 365) < 365" "0 \<le> r2 - 365 * (r2 div 365)" by linarith+
  then have y: "0 \<le> y" "y \<le> 3" "0 \<le> doy" "doy \<le> 365" "doy = 365 \<Longrightarrow> y = 3 \<and> r2 = 1460"
    using q by (auto simp: y_def doy min_def split: if_splits)
  show "0 \<le> yoe" "yoe < 400" "0 \<le> doy" "doy \<le> 365" using c q y by (auto simp: yoe)
  have d4: "yoe div 4 = 25 * c + q" and d100: "yoe div 100 = c" using c q y by (auto simp: yoe)
  show "365 * yoe + yoe div 4 - yoe div 100 + doy = doe"
    unfolding d4 d100 by (simp add: yoe doy r2_def r_def)
  assume "doy = 365"
  with y(5) have "y = 3" "r2 = 1460" by auto
  then have y1: "yoe + 1 = 100 * c + 4 * (q + 1)" by (simp add: yoe)
  have "4 dvd yoe + 1" unfolding y1 by presburger
  moreover have "\<not> 100 dvd yoe + 1" if "q < 24"
  proof
    assume "100 dvd yoe + 1"
    then have "(yoe + 1) mod 100 = 0" by presburger
    then show False using that c q by (simp add: y1)
  qed
  moreover have "400 dvd yoe + 1" if "q = 24"
  proof -
    have "c = 3" using q(5) [OF that] \<open>r2 = 1460\<close> c(2) by linarith
    with that show ?thesis by (simp add: y1)
  qed
  ultimately show "leap_year (yoe + 1)" using q(2) by (cases "q = 24") (auto simp: leap_year_def)
qed

lemma leap_year_cycle [simp]: "leap_year (y + 400 * k) = leap_year y"
proof -
  have "(4 :: int) dvd 400 * k" "(100 :: int) dvd 400 * k" "(400 :: int) dvd 400 * k"
    by (rule dvd_mult2; simp)+
  have "4 dvd y + 400 * k \<longleftrightarrow> 4 dvd y" "100 dvd y + 400 * k \<longleftrightarrow> 100 dvd y" "400 dvd y + 400 * k \<longleftrightarrow> 400 dvd y"
    by (simp_all add: dvd_add_left_iff)
  then show ?thesis by (simp add: leap_year_def)
qed

text \<open>The date of a day is a date of the calendar, and its day number is the day.\<close>

lemma civil_of_days_valid:
  assumes "civil_of_days n = (y, m, d)"
  shows "1 \<le> m" "m \<le> 12" "1 \<le> d" "d \<le> days_in y m" "days_of_civil y m d = n"
proof -
  define e where "e = (n + 306) div 146097"
  define doe where "doe = (n + 306) mod 146097"
  obtain yoe doy where sc: "split_cycle doe = (yoe, doy)" by (cases "split_cycle doe")
  have doe: "0 \<le> doe" "doe < 146097" by (simp_all add: doe_def)
  note b = split_cycle_bounds [OF doe sc]
  define mp where "mp = (5 * doy + 2) div 153"
  have mp: "0 \<le> mp" "mp \<le> 11" using b(3,4) by (auto simp: mp_def)
  have m: "m = (if mp < 10 then mp + 3 else mp - 9)" and d: "d = doy - (153 * mp + 2) div 5 + 1"
    and y: "y = yoe + 400 * e + (if m \<le> 2 then 1 else 0)"
    using assms by (auto simp: civil_of_days_def Let_def sc mp_def e_def split: if_splits simp flip: doe_def)
  show m12: "1 \<le> m" "m \<le> 12" using mp by (auto simp: m)
  have mpl: "153 * mp \<le> 5 * doy + 2" "5 * doy + 2 < 153 * mp + 153" unfolding mp_def by linarith+
  show "1 \<le> d" using mpl(1) unfolding d by linarith
  have m2: "m \<le> 2 \<longleftrightarrow> 10 \<le> mp" using mp by (auto simp: m)
  have "mp \<in> {0..11}" using mp by simp
  also have "{0..11} = {0, 1, 2, 3, 4, 5, 6, 7, 8, 9, 10, 11 :: int}" by (simp add: simp_from_to)
  finally have "mp = 0 \<or> mp = 1 \<or> mp = 2 \<or> mp = 3 \<or> mp = 4 \<or> mp = 5 \<or> mp = 6 \<or> mp = 7 \<or> mp = 8 \<or> mp = 9
      \<or> mp = 10 \<or> mp = 11" by simp
  moreover have "leap_year y" if "doy = 365" "mp = 11"
  proof -
    from that(2) have "m \<le> 2" by (simp add: m2)
    then have "y = (yoe + 1) + 400 * e" by (simp add: y)
    then show ?thesis using b(5) [OF that(1)] leap_year_cycle by metis
  qed
  ultimately show "d \<le> days_in y m"
    using mpl b(4) by (cases "doy = 365") (auto simp: days_in_def m d)
  have "(if m \<le> 2 then y - 1 else y) = yoe + 400 * e" by (simp add: y)
  moreover have "(yoe + 400 * e) mod 400 = yoe" "(yoe + 400 * e) div 400 = e" using b(1,2) by simp_all
  moreover have "(if m \<le> 2 then m + 9 else m - 3) = mp" using mp by (auto simp: m)
  ultimately have "days_of_civil y m d = 146097 * e + (365 * yoe + yoe div 4 - yoe div 100 + doy) - 306"
    by (simp add: days_of_civil_def Let_def d)
  also have "\<dots> = 146097 * e + doe - 306" by (simp add: b(6))
  also have "\<dots> = n" by (simp add: e_def doe_def)
  finally show "days_of_civil y m d = n" .
qed

section \<open>RFC 3339 text\<close>

definition day_ns :: int where "day_ns = 86400 * 1000000000"

text \<open>Fraction of a second with the trailing zeros removed; nothing for a whole second.\<close>

definition trim_zeros :: "string \<Rightarrow> string" where
  "trim_zeros s = rev (dropWhile (\<lambda>c. c = CHR ''0'') (rev s))"

definition frac_text :: "nat \<Rightarrow> string" where
  "frac_text ns = (if ns = 0 then [] else CHR ''.'' # trim_zeros (pad_nat 9 ns))"

text \<open>\<open>Format(RFC3339Nano)\<close> of an instant in UTC.\<close>

definition time_format :: "time \<Rightarrow> string" where
  "time_format t =
     (let (y, m, d) = civil_of_days (t div day_ns);
          r = t mod day_ns;
          sod = nat (r div 1000000000)
      in (if y < 0 then ''-'' else []) @ pad_nat 4 (nat \<bar>y\<bar>) @ ''-'' @ pad_nat 2 (nat m) @ ''-'' @ pad_nat 2 (nat d) @ ''T'' @
         pad_nat 2 (sod div 3600) @ '':'' @ pad_nat 2 (sod mod 3600 div 60) @ '':'' @ pad_nat 2 (sod mod 60) @
         frac_text (nat (r mod 1000000000)) @ ''Z'')"

definition year_of :: "time \<Rightarrow> int" where
  "year_of t = fst (civil_of_days (t div day_ns))"

text \<open>\<open>MarshalText\<close> and \<open>MarshalJSON\<close> fail outside the years 0 to 9999.\<close>

definition time_text_ok :: "time \<Rightarrow> bool" where
  "time_text_ok t \<longleftrightarrow> 0 \<le> year_of t \<and> year_of t \<le> 9999"

text \<open>
  \<open>time.Parse(RFC3339Nano, s)\<close>, equally \<open>time.Parse(RFC3339, s)\<close>: the hour may have one digit,
  the fraction may follow a period or a comma and is cut after nine digits, the zone is
  \<open>Z\<close> or an offset of at most 24 hours and 60 minutes.
\<close>

definition take_digits :: "nat \<Rightarrow> string \<Rightarrow> (nat \<times> string) option" where
  "take_digits w s =
     (if w \<le> length s \<and> list_all is_digit (take w s) then Some (dec_nat (take w s), drop w s) else None)"

definition take_num :: "nat \<Rightarrow> nat \<Rightarrow> nat \<Rightarrow> string \<Rightarrow> (nat \<times> string) option" where
  "take_num w lo hi s =
     do { (n, r) \<leftarrow> take_digits w s; if lo \<le> n \<and> n \<le> hi then Some (n, r) else None }"

definition take_char :: "char \<Rightarrow> string \<Rightarrow> string option" where
  "take_char c s = (case s of x # r \<Rightarrow> if x = c then Some r else None | [] \<Rightarrow> None)"

definition take_hour :: "string \<Rightarrow> (nat \<times> string) option" where
  "take_hour s =
     do { (n, r) \<leftarrow> (case take_digits 2 s of Some x \<Rightarrow> Some x | None \<Rightarrow> take_digits 1 s);
          if n < 24 then Some (n, r) else None }"

definition take_frac :: "string \<Rightarrow> nat \<times> string" where
  "take_frac s =
     (case s of
        p # r \<Rightarrow>
          (if (p = CHR ''.'' \<or> p = CHR '','') \<and> takeWhile is_digit r \<noteq> []
           then (let ds = take 9 (takeWhile is_digit r)
                 in (dec_nat ds * 10 ^ (9 - length ds), dropWhile is_digit r))
           else (0, s))
      | [] \<Rightarrow> (0, []))"

definition take_zone :: "string \<Rightarrow> (int \<times> string) option" where
  "take_zone s =
     (case s of
        [] \<Rightarrow> None
      | c # r \<Rightarrow>
          if c = CHR ''Z'' then Some (0, r)
          else do {
            sign \<leftarrow> (if c = CHR ''+'' then Some 1 else if c = CHR ''-'' then Some (-1) else None);
            (h, r) \<leftarrow> take_num 2 0 24 r;
            r \<leftarrow> take_char CHR '':'' r;
            (m, r) \<leftarrow> take_num 2 0 60 r;
            Some (sign * int ((h * 60 + m) * 60), r) })"

definition time_parse :: "string \<Rightarrow> time option" where
  "time_parse s =
     do {
       (y, s) \<leftarrow> take_digits 4 s;
       s \<leftarrow> take_char CHR ''-'' s;
       (mo, s) \<leftarrow> take_num 2 1 12 s;
       s \<leftarrow> take_char CHR ''-'' s;
       (d, s) \<leftarrow> take_digits 2 s;
       s \<leftarrow> take_char CHR ''T'' s;
       (h, s) \<leftarrow> take_hour s;
       s \<leftarrow> take_char CHR '':'' s;
       (mi, s) \<leftarrow> take_num 2 0 59 s;
       s \<leftarrow> take_char CHR '':'' s;
       (sec, s) \<leftarrow> take_num 2 0 59 s;
       let (ns, s) = take_frac s;
       (off, s) \<leftarrow> take_zone s;
       if s = [] \<and> 1 \<le> d \<and> int d \<le> days_in (int y) (int mo)
       then Some ((days_of_civil (int y) (int mo) (int d) * 86400 + int (h * 3600 + mi * 60 + sec) - off)
                  * 1000000000 + int ns)
       else None }"

subsection \<open>Round trip\<close>

lemma take_digits_pad: "0 < w \<Longrightarrow> n < 10 ^ w \<Longrightarrow> take_digits w (pad_nat w n @ r) = Some (n, r)"
  by (simp add: take_digits_def length_pad_nat)

lemma take_num_pad: "0 < w \<Longrightarrow> n < 10 ^ w \<Longrightarrow> lo \<le> n \<Longrightarrow> n \<le> hi \<Longrightarrow> take_num w lo hi (pad_nat w n @ r) = Some (n, r)"
  by (simp add: take_num_def take_digits_pad)

lemma take_char_Cons [simp]: "take_char c (c # r) = Some r"
  by (simp add: take_char_def)

lemma take_hour_pad: "n < 24 \<Longrightarrow> take_hour (pad_nat 2 n @ r) = Some (n, r)"
  by (simp add: take_hour_def take_digits_pad)

lemma dec_nat_append_zeros: "dec_nat (s @ replicate k (CHR ''0'')) = dec_nat s * 10 ^ k"
proof (induction k)
  case (Suc k)
  have "replicate (Suc k) (CHR ''0'') = replicate k (CHR ''0'') @ [CHR ''0'']"
    by (simp add: replicate_append_same)
  then have "dec_nat (s @ replicate (Suc k) (CHR ''0'')) = 10 * dec_nat (s @ replicate k (CHR ''0''))"
    using dec_nat_append_digit [of "s @ replicate k (CHR ''0'')" "CHR ''0''"] by (simp add: digit_val_def)
  with Suc show ?case by simp
qed simp

lemma trim_zeros_append:
  obtains k where "s = trim_zeros s @ replicate k (CHR ''0'')" "length (trim_zeros s) + k = length s"
proof -
  let ?z = "takeWhile (\<lambda>c. c = CHR ''0'') (rev s)"
  have z: "?z = replicate (length ?z) (CHR ''0'')"
    by (rule replicate_eqI) (auto dest: set_takeWhileD)
  have "rev s = ?z @ dropWhile (\<lambda>c. c = CHR ''0'') (rev s)" by simp
  then have s: "s = trim_zeros s @ rev ?z" by (metis rev_append rev_rev_ident trim_zeros_def)
  show thesis
  proof (rule that [of "length ?z"])
    show "s = trim_zeros s @ replicate (length ?z) (CHR ''0'')"
      using s z by (metis rev_replicate)
    then show "length (trim_zeros s) + length ?z = length s" by (metis length_append length_replicate)
  qed
qed

lemma take_frac_text:
  assumes "ns < 1000000000"
  shows "take_frac (frac_text ns @ CHR ''Z'' # r) = (ns, CHR ''Z'' # r)"
proof (cases "ns = 0")
  case True
  then show ?thesis by (simp add: frac_text_def take_frac_def)
next
  case False
  obtain k where k: "pad_nat 9 ns = trim_zeros (pad_nat 9 ns) @ replicate k (CHR ''0'')"
    "length (trim_zeros (pad_nat 9 ns)) + k = length (pad_nat 9 ns)"
    by (rule trim_zeros_append)
  define ds where "ds = trim_zeros (pad_nat 9 ns)"
  have len: "length ds + k = 9" using k(2) assms by (simp add: ds_def length_pad_nat)
  have dig: "list_all is_digit ds"
    using pad_nat_digits [of 9 ns] k(1) by (metis ds_def list_all_append)
  have val: "dec_nat ds * 10 ^ k = ns"
    using dec_nat_append_zeros [of ds k] k(1) dec_nat_pad_nat [of 9 ns] by (simp add: ds_def)
  then have ne: "ds \<noteq> []" using False by (auto simp: dec_nat_def)
  have nz: "\<not> is_digit CHR ''Z''" by (simp add: is_digit_def)
  have tw: "takeWhile is_digit (ds @ CHR ''Z'' # r) = ds" "dropWhile is_digit (ds @ CHR ''Z'' # r) = CHR ''Z'' # r"
    using dig nz by (auto simp: list_all_iff takeWhile_append dropWhile_append)
  have "9 - length ds = k" "take 9 ds = ds" using len by auto
  with val tw ne False show ?thesis
    by (simp add: frac_text_def take_frac_def Let_def flip: ds_def)
qed

lemma time_parse_format:
  assumes "time_text_ok t"
  shows "time_parse (time_format t) = Some t"
proof -
  obtain y m d where c: "civil_of_days (t div day_ns) = (y, m, d)" by (cases "civil_of_days (t div day_ns)")
  define r where "r = t mod day_ns"
  define sod where "sod = nat (r div 1000000000)"
  have r: "0 \<le> r" "r < 86400 * 1000000000" by (simp_all add: r_def day_ns_def)
  have sod: "sod < 86400" "int sod = r div 1000000000" using r by (auto simp: sod_def)
  have y: "0 \<le> y" "y \<le> 9999" using assms c by (simp_all add: time_text_ok_def year_of_def)
  note v = civil_of_days_valid [OF c]
  have dim: "days_in y m \<le> 31" by (simp add: days_in_def)
  have hms: "sod div 3600 < 24" "sod mod 3600 div 60 < 60" "sod mod 60 < 60" using sod by auto
  have sum: "sod div 3600 * 3600 + sod mod 3600 div 60 * 60 + sod mod 60 = sod"
    using div_mult_mod_eq [of "sod mod 3600" 60]
    by (simp add: mod_mod_cancel add.assoc)
  have p: "time_format t = pad_nat 4 (nat y) @ CHR ''-'' # pad_nat 2 (nat m) @ CHR ''-'' # pad_nat 2 (nat d) @
      CHR ''T'' # pad_nat 2 (sod div 3600) @ CHR '':'' # pad_nat 2 (sod mod 3600 div 60) @ CHR '':'' #
      pad_nat 2 (sod mod 60) @ frac_text (nat (r mod 1000000000)) @ CHR ''Z'' # []"
    using y by (simp add: time_format_def c Let_def r_def sod_def)
  have f: "take_frac (frac_text (nat (r mod 1000000000)) @ CHR ''Z'' # []) = (nat (r mod 1000000000), CHR ''Z'' # [])"
    by (rule take_frac_text) simp
  have "time_parse (time_format t) = Some ((days_of_civil y m d * 86400 + int sod) * 1000000000 + r mod 1000000000)"
    unfolding p time_parse_def
    using y v dim hms f sum
    by (simp add: take_digits_pad take_num_pad take_hour_pad take_zone_def)
  also have "\<dots> = Some t"
    using v(5) sod(2) r by (simp add: r_def day_ns_def)
  finally show ?thesis .
qed

section \<open>The text determines the instant\<close>

text \<open>Shifting an instant by a whole number of 400-year cycles changes only its year.\<close>

lemma civil_of_days_cycle:
  assumes "civil_of_days n = (y, m, d)"
  shows "civil_of_days (n + 146097 * k) = (y + 400 * k, m, d)"
proof -
  have e: "n + 146097 * k + 306 = (n + 306) + 146097 * k" by simp
  have "(n + 146097 * k + 306) mod 146097 = (n + 306) mod 146097" unfolding e by (rule mod_mult_self2)
  moreover have "(n + 146097 * k + 306) div 146097 = (n + 306) div 146097 + k"
    unfolding e by (subst div_mult_self2) simp_all
  moreover obtain yoe doy where "split_cycle ((n + 306) mod 146097) = (yoe, doy)"
    by (cases "split_cycle ((n + 306) mod 146097)")
  ultimately show ?thesis
    using assms by (simp only: civil_of_days_def Let_def prod.case prod.inject) auto
qed

text \<open>What follows the year.\<close>

definition time_rest :: "time \<Rightarrow> string" where
  "time_rest t =
     (let (y, m, d) = civil_of_days (t div day_ns);
          r = t mod day_ns;
          sod = nat (r div 1000000000)
      in pad_nat 2 (nat m) @ ''-'' @ pad_nat 2 (nat d) @ ''T'' @
         pad_nat 2 (sod div 3600) @ '':'' @ pad_nat 2 (sod mod 3600 div 60) @ '':'' @ pad_nat 2 (sod mod 60) @
         frac_text (nat (r mod 1000000000)) @ ''Z'')"

lemma time_format_rest:
  "time_format t = (if year_of t < 0 then ''-'' else []) @ pad_nat 4 (nat \<bar>year_of t\<bar>) @ CHR ''-'' # time_rest t"
  by (simp add: time_format_def time_rest_def year_of_def Let_def split_def)

lemma time_cycle:
  "year_of (t + 146097 * k * day_ns) = year_of t + 400 * k"
  "time_rest (t + 146097 * k * day_ns) = time_rest t"
proof -
  obtain y m d where c: "civil_of_days (t div day_ns) = (y, m, d)" by (cases "civil_of_days (t div day_ns)")
  have "(t + 146097 * k * day_ns) div day_ns = t div day_ns + 146097 * k" "(t + 146097 * k * day_ns) mod day_ns = t mod day_ns"
    by (simp_all add: mod_mult_self1) (simp add: day_ns_def)
  then show "year_of (t + 146097 * k * day_ns) = year_of t + 400 * k"
    "time_rest (t + 146097 * k * day_ns) = time_rest t"
    using civil_of_days_cycle [OF c, of k] c by (simp_all add: year_of_def time_rest_def)
qed

lemma year_text_inj:
  assumes "(if y < 0 then ''-'' else []) @ pad_nat 4 (nat \<bar>y\<bar>) @ CHR ''-'' # a
    = (if z < 0 then ''-'' else []) @ pad_nat 4 (nat \<bar>z\<bar>) @ CHR ''-'' # b"
  shows "y = z \<and> a = b"
proof -
  have tw: "takeWhile is_digit (pad_nat 4 n @ CHR ''-'' # x) = pad_nat 4 n"
    "dropWhile is_digit (pad_nat 4 n @ CHR ''-'' # x) = CHR ''-'' # x" for n x
    using pad_nat_digits [of 4 n] by (auto simp: list_all_iff)
  have inj: "n = k \<and> x = x'" if "pad_nat 4 n @ CHR ''-'' # x = pad_nat 4 k @ CHR ''-'' # x'" for n k x x'
    using that tw [of n x] tw [of k x'] dec_nat_pad_nat by (metis list.inject)
  have hd: "\<exists>c cs. pad_nat 4 n @ x = c # cs \<and> c \<noteq> CHR ''-''" for n x
  proof -
    have "pad_nat 4 n \<noteq> []" by (simp add: pad_nat_def)
    then obtain c cs where "pad_nat 4 n = c # cs" by (cases "pad_nat 4 n") auto
    then show ?thesis using pad_nat_digits [of 4 n] by auto
  qed
  obtain c cs where y: "pad_nat 4 (nat \<bar>y\<bar>) @ CHR ''-'' # a = c # cs" "c \<noteq> CHR ''-''" using hd by blast
  obtain d ds where z: "pad_nat 4 (nat \<bar>z\<bar>) @ CHR ''-'' # b = d # ds" "d \<noteq> CHR ''-''" using hd by blast
  have s: "y < 0 \<longleftrightarrow> z < 0" using assms y z by (auto split: if_splits)
  then have "pad_nat 4 (nat \<bar>y\<bar>) @ CHR ''-'' # a = pad_nat 4 (nat \<bar>z\<bar>) @ CHR ''-'' # b"
    using assms by (simp split: if_splits)
  then have "nat \<bar>y\<bar> = nat \<bar>z\<bar>" "a = b" using inj by blast+
  with s show ?thesis by (cases "y < 0") auto
qed

lemma time_format_inj: "time_format t = time_format u \<Longrightarrow> t = u"
proof -
  assume eq: "time_format t = time_format u"
  then have e: "year_of t = year_of u" "time_rest t = time_rest u"
    using year_text_inj [OF eq [unfolded time_format_rest]] by simp_all
  define k where "k = - (year_of t div 400)"
  define m where "m = year_of t + 400 * k"
  have m: "0 \<le> m" "m < 400"
    using pos_mod_bound [of 400 "year_of t"] pos_mod_sign [of 400 "year_of t"] mult_div_mod_eq [of 400 "year_of t"]
    unfolding k_def m_def by linarith+
  define c where "c = 146097 * k * day_ns"
  have y: "year_of (t + c) = m" "year_of (u + c) = m" unfolding c_def time_cycle m_def e(1) by (rule refl)+
  have r: "time_rest (t + c) = time_rest (u + c)" unfolding c_def time_cycle by (rule e)
  have ok: "time_text_ok (t + c)" "time_text_ok (u + c)" unfolding time_text_ok_def y using m by auto
  have "time_format (t + c) = time_format (u + c)" unfolding time_format_rest y r by (rule refl)
  then have "Some (t + c) = Some (u + c)" using time_parse_format [OF ok(1)] time_parse_format [OF ok(2)] by argo
  then show ?thesis by simp
qed
end
