(* ===== verification/Go_Struct.thy ===== *)
theory Go_Struct
  imports Go_Json Go_Time
begin

text \<open>
  Decoding a JSON value into a Go struct: \<open>json.Unmarshal\<close>, and a \<open>Decoder\<close> with
  \<open>DisallowUnknownFields\<close> that must reach the end of its input. A field is found by its exact name
  first and by case folding otherwise; \<open>null\<close> leaves the destination alone; a later duplicate
  overwrites an earlier one; a value of the wrong kind is an error. A decoder of a field therefore
  takes the old value of the destination and returns the new one, or \<open>None\<close> for an error.
\<close>

text \<open>
  The folding of \<open>encoding/json\<close>, for the ASCII field names of the code: letters to upper case,
  the Kelvin sign to \<open>K\<close> and the long s to \<open>S\<close>; any other rune folds to a non-ASCII one or to
  itself and matches no field.
\<close>

fun fold_key :: "string \<Rightarrow> string" where
  "fold_key [] = []"
| "fold_key (c # cs) =
     (if c = CHR 0xE2 \<and> prefix [CHR 0x84, CHR 0xAA] cs then CHR ''K'' # fold_key (drop 2 cs)
      else if c = CHR 0xC5 \<and> prefix [CHR 0xBF] cs then CHR ''S'' # fold_key (drop 1 cs)
      else ascii_upper c # fold_key cs)"

definition field_name :: "string list \<Rightarrow> string \<Rightarrow> string option" where
  "field_name names key =
     (if key \<in> set names then Some key else find (\<lambda>n. fold_key n = fold_key key) names)"

text \<open>
  The members of an object in the order of the text. \<open>set n t v a\<close> stores the value \<open>v\<close>, whose text
  is \<open>t\<close>, in the field \<open>n\<close> of \<open>a\<close>.
\<close>

fun dec_members ::
  "bool \<Rightarrow> string list \<Rightarrow> (string \<Rightarrow> string \<Rightarrow> json \<Rightarrow> 'a \<Rightarrow> 'a option) \<Rightarrow> (string \<times> string \<times> json) list \<Rightarrow> 'a \<Rightarrow> 'a option"
where
  "dec_members strict names set_field [] a = Some a"
| "dec_members strict names set_field ((k, t, v) # ms) a =
     do {
       key \<leftarrow> unquote_body k;
       (case field_name names key of
          None \<Rightarrow> (if strict then None else dec_members strict names set_field ms a)
        | Some n \<Rightarrow> do { a' \<leftarrow> set_field n t v a; dec_members strict names set_field ms a' }) }"

definition dec_struct ::
  "bool \<Rightarrow> string list \<Rightarrow> (string \<Rightarrow> string \<Rightarrow> json \<Rightarrow> 'a \<Rightarrow> 'a option) \<Rightarrow> json \<Rightarrow> 'a \<Rightarrow> 'a option"
where
  "dec_struct strict names set_field v a =
     (case v of
        JNull \<Rightarrow> Some a
      | JObj ms \<Rightarrow> dec_members strict names set_field ms a
      | _ \<Rightarrow> None)"

definition dec_string :: "json \<Rightarrow> string \<Rightarrow> string option" where
  "dec_string v old = (case v of JNull \<Rightarrow> Some old | JStr raw \<Rightarrow> unquote_body raw | _ \<Rightarrow> None)"

definition dec_int :: "json \<Rightarrow> int \<Rightarrow> int option" where
  "dec_int v old = (case v of JNull \<Rightarrow> Some old | JNum lit \<Rightarrow> parse_int64 lit | _ \<Rightarrow> None)"

text \<open>\<open>Time.UnmarshalJSON\<close> reads the text between the quotes as it is, without unescaping it.\<close>

definition dec_time :: "json \<Rightarrow> time \<Rightarrow> time option" where
  "dec_time v old = (case v of JNull \<Rightarrow> Some old | JStr raw \<Rightarrow> time_parse raw | _ \<Rightarrow> None)"

text \<open>\<open>json.Unmarshal(body, &dst)\<close> and \<open>decodeStrict\<close>: the document, then its decoding.\<close>

definition unmarshal :: "(json \<Rightarrow> 'a \<Rightarrow> 'a option) \<Rightarrow> string \<Rightarrow> 'a \<Rightarrow> 'a option" where
  "unmarshal dec body a = do { v \<leftarrow> json_parse body; dec v a }"

text \<open>\<open>MarshalJSON\<close> of an instant.\<close>

definition time_json :: "time \<Rightarrow> string option" where
  "time_json t = (if time_text_ok t then Some (quote (time_format t)) else None)"

lemma unquote_quote [simp]: "valid_utf8 s \<Longrightarrow> unquote_body (quote_body s) = Some s"
  by (rule unquote_quote_body)

lemma dec_string_quote [simp]: "valid_utf8 s \<Longrightarrow> dec_string (JStr (quote_body s)) old = Some s"
  by (simp add: dec_string_def)

lemma dec_int_dec [simp]: "in_int64 n \<Longrightarrow> dec_int (JNum (int_dec n)) old = Some n"
  by (simp add: dec_int_def)

lemma quote_body_html_safe: "list_all html_safe s \<Longrightarrow> quote_body s = s"
proof (induction s)
  case Nil
  then show ?case by (simp add: quote_body.simps)
next
  case (Cons c s)
  then show ?case by (subst quote_body.simps) (simp add: html_safe_def quote_ascii_def)
qed

lemma html_safe_digits: "list_all is_digit s \<Longrightarrow> list_all html_safe s"
  by (auto simp: list_all_iff is_digit_def html_safe_def)

lemma html_safe_pad [simp]: "list_all html_safe (pad_nat w n)"
  by (rule html_safe_digits) simp

lemma html_safe_trim_zeros: "list_all html_safe s \<Longrightarrow> list_all html_safe (trim_zeros s)"
  by (auto simp: trim_zeros_def list_all_iff dest: set_dropWhileD)

lemma html_safe_time_format: "list_all html_safe (time_format t)"
  by (auto simp: time_format_def frac_text_def Let_def split_def html_safe_trim_zeros) (simp_all add: html_safe_def)

text \<open>The text of an instant has nothing to escape, so it is read back.\<close>

lemma dec_time_json:
  "time_text_ok t \<Longrightarrow> dec_time (JStr (quote_body (time_format t))) old = Some t"
  by (simp add: dec_time_def quote_body_html_safe html_safe_time_format time_parse_format)

text \<open>What \<open>Marshal\<close> writes for a struct is parsed into its members.\<close>

lemma json_parse_jobj:
  assumes "list_all2 (\<lambda>f v. renders (snd f) v) fs vs"
  shows "json_parse (jobj fs) = Some (JObj (map2 (\<lambda>f v. (quote_body (fst f), snd f, v)) fs vs))"
    and "renders (jobj fs) (JObj (map2 (\<lambda>f v. (quote_body (fst f), snd f, v)) fs vs))"
proof -
  have "list_all2 (\<lambda>f m. m = (quote_body (fst f), snd f, snd (snd m)) \<and> renders (snd f) (snd (snd m))) fs
      (map2 (\<lambda>f v. (quote_body (fst f), snd f, v)) fs vs)"
    using assms by (auto simp: list_all2_conv_all_nth)
  then show "renders (jobj fs) (JObj (map2 (\<lambda>f v. (quote_body (fst f), snd f, v)) fs vs))"
    by (rule renders_obj)
  then show "json_parse (jobj fs) = Some (JObj (map2 (\<lambda>f v. (quote_body (fst f), snd f, v)) fs vs))"
    by (rule renders_json_parse)
qed

lemma dec_members_quote [simp]:
  "valid_utf8 k \<Longrightarrow> dec_members strict names f ((quote_body k, t, v) # ms) a =
     (case field_name names k of
        None \<Rightarrow> (if strict then None else dec_members strict names f ms a)
      | Some n \<Rightarrow> Option.bind (f n t v a) (dec_members strict names f ms))"
  by (simp split: option.splits)

lemma field_name_known [simp]: "k \<in> set names \<Longrightarrow> field_name names k = Some k"
  by (simp add: field_name_def)

text \<open>A property of the destination that every field keeps is kept by the decoding of an object.\<close>

lemma dec_members_inv:
  assumes "dec_members strict names f ms a = Some b" "P a"
    and "\<And>n t v a b. f n t v a = Some b \<Longrightarrow> P a \<Longrightarrow> P b"
  shows "P b"
  using assms(1,2)
proof (induction ms arbitrary: a)
  case (Cons m ms)
  obtain k t v where m: "m = (k, t, v)" by (cases m)
  from Cons.prems obtain a' where "dec_members strict names f ms a' = Some b" "P a'"
    by (auto simp: m split: option.splits if_splits Option.bind_splits intro: assms(3))
  then show ?case by (rule Cons.IH)
qed simp

lemma dec_struct_inv:
  assumes "dec_struct strict names f v a = Some b" "P a"
    and "\<And>n t v a b. f n t v a = Some b \<Longrightarrow> P a \<Longrightarrow> P b"
  shows "P b"
  using assms(1,2) dec_members_inv [of strict names f _ a b P] assms(3)
  by (auto simp: dec_struct_def split: json.splits)

text \<open>The texts of the fields can be read off the text of an object.\<close>

lemma jobj_inj:
  assumes "jobj fs = jobj gs" "list_all2 (\<lambda>f v. renders (snd f) v) fs vs" "list_all2 (\<lambda>f v. renders (snd f) v) gs ws"
  shows "map snd fs = map snd gs"
proof -
  define G where "G = (\<lambda>(f :: string \<times> string) (v :: json). (quote_body (fst f), snd f, v))"
  have eq: "map2 G fs vs = map2 G gs ws"
    using json_parse_jobj(1) [OF assms(2)] json_parse_jobj(1) [OF assms(3)] assms(1) by (simp add: G_def)
  have snd: "map (\<lambda>m. fst (snd m)) (map2 G hs xs) = map snd hs" if "length hs = length xs" for hs xs
    using that by (induction hs xs rule: list_induct2) (auto simp: G_def)
  have "map snd fs = map (\<lambda>m. fst (snd m)) (map2 G fs vs)" using snd [OF list_all2_lengthD [OF assms(2)]] by (rule sym)
  also have "\<dots> = map (\<lambda>m. fst (snd m)) (map2 G gs ws)" by (simp only: eq)
  also have "\<dots> = map snd gs" by (rule snd [OF list_all2_lengthD [OF assms(3)]])
  finally show ?thesis .
qed

lemma quote_inj:
  assumes "valid_utf8 s" "valid_utf8 t"
  shows "quote s = quote t \<longleftrightarrow> s = t"
proof
  assume "quote s = quote t"
  then have "quote_body s = quote_body t" by (simp add: quote_def)
  then show "s = t" using unquote_quote [OF assms(1)] unquote_quote [OF assms(2)] by (metis option.inject)
qed simp

lemma is_ascii_time_format: "is_ascii (time_format t)"
  using html_safe_time_format [of t] by (auto simp: is_ascii_def list_all_iff html_safe_def)

lemma quote_time_inj: "quote (time_format t) = quote (time_format u) \<longleftrightarrow> t = u"
  using time_format_inj [of t u] quote_inj valid_utf8_ascii is_ascii_time_format by metis

section \<open>Codecs\<close>

text \<open>The contract of an encoder and its decoder: the values that are \<open>good\<close> are encoded and read back.\<close>

locale json_codec =
  fixes enc :: "'a \<Rightarrow> bytes option"
    and dec :: "bytes \<Rightarrow> 'a option"
    and good :: "'a \<Rightarrow> bool"
  assumes enc_good: "good x \<Longrightarrow> enc x \<noteq> None"
    and dec_enc: "good x \<Longrightarrow> enc x = Some body \<Longrightarrow> dec body = Some x"
begin

lemma enc_inj:
  assumes "good x" "good y" "enc x = enc y"
  shows "x = y"
proof -
  obtain b where b: "enc x = Some b" using enc_good [OF assms(1)] by blast
  have "dec b = Some x" by (rule dec_enc [OF assms(1) b])
  moreover have "dec b = Some y" by (rule dec_enc [OF assms(2)]) (simp add: b flip: assms(3))
  ultimately show ?thesis by simp
qed

end

end
