(* ===== verification/Spool_Codec.thy ===== *)
theory Spool_Codec
  imports Spool_Frame Go_Struct
begin

text \<open>
  The data that the write-ahead log stores and its JSON form: \<open>source.Checkpoint\<close>,
  \<open>spool.Commit\<close>, \<open>Quarantined\<close> and the records \<open>commitRecord\<close>, \<open>ackRecord\<close>,
  \<open>quarantineRecord\<close>, with \<open>validateCheckpoint\<close>, \<open>encodeCommit\<close>, \<open>decodeCommit\<close> and
  \<open>decodeStrict\<close>. The locale \<open>record_codec\<close> is the contract that recovery relies on (what is encoded
  is decoded); it is interpreted on the four codecs, for values whose strings are valid UTF-8, whose
  instants have a four-digit year and whose payload is compact JSON.
\<close>

section \<open>Data\<close>

record checkpoint =
  cp_source_key :: string
  cp_file_identity :: string
  cp_offset_bytes :: int
  cp_observed_at :: time

record commit =
  cm_batch_id :: string
  cm_payload :: bytes
  cm_checkpoint :: checkpoint

record quarantine_record =
  qr_batch_id :: string
  qr_http_code :: int
  qr_error_code :: string
  qr_quarantined_at :: time

record quarantined =
  q_commit :: commit
  q_http_code :: int
  q_error_code :: string
  q_quarantined_at :: time

datatype spool_error =
    ErrCtx
  | ErrFull
  | ErrCorrupt nat
  | ErrClosed
  | ErrIO
  | ErrPathEmpty
  | ErrMaxRecord
  | ErrBatchIdEmpty
  | ErrPayloadNotJson
  | ErrBatchIdentity
  | ErrBatchMismatch
  | ErrCheckpointKey
  | ErrCheckpointOffset
  | ErrCheckpointTime
  | ErrMarshal
  | ErrDecode
  | ErrRecordTooLarge
  | ErrFormatLength
  | ErrDuplicateBatch
  | ErrUnknownBatch
  | ErrUnsupportedKind
  | ErrQuarantineInvalid
  | ErrTransitionConflict

definition of_option :: "'e \<Rightarrow> 'a option \<Rightarrow> 'e + 'a" where
  "of_option e x = (case x of None \<Rightarrow> Inl e | Some v \<Rightarrow> Inr v)"

section \<open>Checkpoints\<close>

definition validate_checkpoint :: "checkpoint \<Rightarrow> spool_error option" where
  "validate_checkpoint c =
     (if blank (cp_source_key c) \<or> blank (cp_file_identity c) then Some ErrCheckpointKey
      else if cp_offset_bytes c < 0 then Some ErrCheckpointOffset
      else if is_zero (cp_observed_at c) then Some ErrCheckpointTime
      else None)"

definition checkpoint_fields :: "string list" where
  "checkpoint_fields = [''source_key'', ''file_identity'', ''offset_bytes'', ''observed_at'']"

definition checkpoint_json :: "checkpoint \<Rightarrow> bytes option" where
  "checkpoint_json c =
     do {
       tm \<leftarrow> time_json (cp_observed_at c);
       Some (jobj [(''source_key'', quote (cp_source_key c)), (''file_identity'', quote (cp_file_identity c)),
                   (''offset_bytes'', int_dec (cp_offset_bytes c)), (''observed_at'', tm)]) }"

definition zero_checkpoint :: checkpoint where
  "zero_checkpoint = \<lparr>cp_source_key = [], cp_file_identity = [], cp_offset_bytes = 0, cp_observed_at = zero_time\<rparr>"

definition set_checkpoint_field :: "string \<Rightarrow> string \<Rightarrow> json \<Rightarrow> checkpoint \<Rightarrow> checkpoint option" where
  "set_checkpoint_field n t v c =
     (if n = ''source_key'' then map_option (\<lambda>x. c\<lparr>cp_source_key := x\<rparr>) (dec_string v (cp_source_key c))
      else if n = ''file_identity'' then map_option (\<lambda>x. c\<lparr>cp_file_identity := x\<rparr>) (dec_string v (cp_file_identity c))
      else if n = ''offset_bytes'' then map_option (\<lambda>x. c\<lparr>cp_offset_bytes := x\<rparr>) (dec_int v (cp_offset_bytes c))
      else map_option (\<lambda>x. c\<lparr>cp_observed_at := x\<rparr>) (dec_time v (cp_observed_at c)))"

definition dec_checkpoint :: "json \<Rightarrow> checkpoint \<Rightarrow> checkpoint option" where
  "dec_checkpoint = dec_struct True checkpoint_fields set_checkpoint_field"

definition decode_checkpoint :: "bytes \<Rightarrow> checkpoint option" where
  "decode_checkpoint body = unmarshal dec_checkpoint body zero_checkpoint"

section \<open>Commits\<close>

text \<open>The identity in the payload: \<open>json.Unmarshal(commit.Payload, &envelope)\<close>.\<close>

definition payload_batch_id :: "bytes \<Rightarrow> string option" where
  "payload_batch_id payload =
     unmarshal (dec_struct False [''batch_id''] (\<lambda>n t v old. dec_string v old)) payload []"

definition commit_json :: "commit \<Rightarrow> bytes option" where
  "commit_json c =
     do {
       payload \<leftarrow> json_compact (cm_payload c);
       cp \<leftarrow> checkpoint_json (cm_checkpoint c);
       Some (jobj [(''batch_id'', quote (cm_batch_id c)), (''payload'', payload), (''checkpoint'', cp)]) }"

definition encode_commit :: "commit \<Rightarrow> spool_error + bytes" where
  "encode_commit c =
     (if blank (cm_batch_id c) then Inl ErrBatchIdEmpty
      else if \<not> json_valid (cm_payload c) then Inl ErrPayloadNotJson
      else (case payload_batch_id (cm_payload c) of
              None \<Rightarrow> Inl ErrBatchIdentity
            | Some i \<Rightarrow>
                if i \<noteq> cm_batch_id c then Inl ErrBatchMismatch
                else (case validate_checkpoint (cm_checkpoint c) of
                        Some e \<Rightarrow> Inl e
                      | None \<Rightarrow> of_option ErrMarshal (commit_json c))))"

definition zero_commit :: commit where
  "zero_commit = \<lparr>cm_batch_id = [], cm_payload = [], cm_checkpoint = zero_checkpoint\<rparr>"

definition set_commit_field :: "string \<Rightarrow> string \<Rightarrow> json \<Rightarrow> commit \<Rightarrow> commit option" where
  "set_commit_field n t v c =
     (if n = ''batch_id'' then map_option (\<lambda>x. c\<lparr>cm_batch_id := x\<rparr>) (dec_string v (cm_batch_id c))
      else if n = ''payload'' then Some (c\<lparr>cm_payload := t\<rparr>)
      else map_option (\<lambda>x. c\<lparr>cm_checkpoint := x\<rparr>) (dec_checkpoint v (cm_checkpoint c)))"

definition commit_fields :: "string list" where
  "commit_fields = [''batch_id'', ''payload'', ''checkpoint'']"

definition decode_commit :: "bytes \<Rightarrow> spool_error + commit" where
  "decode_commit body =
     (case unmarshal (dec_struct True commit_fields set_commit_field) body zero_commit of
        None \<Rightarrow> Inl ErrDecode
      | Some c \<Rightarrow> (case encode_commit c of Inl e \<Rightarrow> Inl e | Inr _ \<Rightarrow> Inr c))"

section \<open>Acknowledgements and quarantine\<close>

definition ack_json :: "string \<Rightarrow> bytes" where
  "ack_json i = jobj [(''batch_id'', quote i)]"

definition decode_ack :: "bytes \<Rightarrow> string option" where
  "decode_ack body = unmarshal (dec_struct True [''batch_id''] (\<lambda>n t v old. dec_string v old)) body []"

definition quarantine_json :: "quarantine_record \<Rightarrow> bytes option" where
  "quarantine_json r =
     do {
       tm \<leftarrow> time_json (qr_quarantined_at r);
       Some (jobj [(''batch_id'', quote (qr_batch_id r)), (''http_code'', int_dec (qr_http_code r)),
                   (''error_code'', quote (qr_error_code r)), (''quarantined_at'', tm)]) }"

definition quarantine_fields :: "string list" where
  "quarantine_fields = [''batch_id'', ''http_code'', ''error_code'', ''quarantined_at'']"

definition set_quarantine_field ::
  "string \<Rightarrow> string \<Rightarrow> json \<Rightarrow> quarantine_record \<Rightarrow> quarantine_record option"
where
  "set_quarantine_field n t v r =
     (if n = ''batch_id'' then map_option (\<lambda>x. r\<lparr>qr_batch_id := x\<rparr>) (dec_string v (qr_batch_id r))
      else if n = ''http_code'' then map_option (\<lambda>x. r\<lparr>qr_http_code := x\<rparr>) (dec_int v (qr_http_code r))
      else if n = ''error_code'' then map_option (\<lambda>x. r\<lparr>qr_error_code := x\<rparr>) (dec_string v (qr_error_code r))
      else map_option (\<lambda>x. r\<lparr>qr_quarantined_at := x\<rparr>) (dec_time v (qr_quarantined_at r)))"

definition zero_quarantine :: quarantine_record where
  "zero_quarantine =
     \<lparr>qr_batch_id = [], qr_http_code = 0, qr_error_code = [], qr_quarantined_at = zero_time\<rparr>"

definition decode_quarantine :: "bytes \<Rightarrow> quarantine_record option" where
  "decode_quarantine body = unmarshal (dec_struct True quarantine_fields set_quarantine_field) body zero_quarantine"

section \<open>The contract\<close>

locale record_codec = json_codec enc dec good
  for enc :: "'a \<Rightarrow> bytes option" and dec :: "bytes \<Rightarrow> 'a option" and good :: "'a \<Rightarrow> bool"
begin

text \<open>A framed value is found at the head of a file and decodes to the value.\<close>

lemma framed:
  assumes "good x" "enc x = Some body" "frame_record kind body = Some r" "int (length body) \<le> max_record"
  shows "\<exists>b. next_record max_record (r @ rest) = Found kind b (int (length r)) rest \<and> dec b = Some x"
  using next_record_frame [OF assms(3,4)] dec_enc [OF assms(1,2)] by blast

end

text \<open>The values that survive the trip through JSON unchanged.\<close>

definition checkpoint_good :: "checkpoint \<Rightarrow> bool" where
  "checkpoint_good c \<longleftrightarrow> valid_utf8 (cp_source_key c) \<and> valid_utf8 (cp_file_identity c) \<and>
     in_int64 (cp_offset_bytes c) \<and> time_text_ok (cp_observed_at c)"

definition commit_good :: "commit \<Rightarrow> bool" where
  "commit_good c \<longleftrightarrow> valid_utf8 (cm_batch_id c) \<and> json_compact (cm_payload c) = Some (cm_payload c) \<and>
     checkpoint_good (cm_checkpoint c)"

definition quarantine_good :: "quarantine_record \<Rightarrow> bool" where
  "quarantine_good r \<longleftrightarrow> valid_utf8 (qr_batch_id r) \<and> in_int64 (qr_http_code r) \<and>
     valid_utf8 (qr_error_code r) \<and> time_text_ok (qr_quarantined_at r)"

lemma dec_checkpoint_json:
  assumes "checkpoint_good c"
  shows "\<exists>b v. checkpoint_json c = Some b \<and> renders b v \<and> dec_checkpoint v z = Some c"
proof -
  define vs where "vs = [JStr (quote_body (cp_source_key c)), JStr (quote_body (cp_file_identity c)),
    JNum (int_dec (cp_offset_bytes c)), JStr (quote_body (time_format (cp_observed_at c)))]"
  define fs where "fs = [(''source_key'', quote (cp_source_key c)), (''file_identity'', quote (cp_file_identity c)),
    (''offset_bytes'', int_dec (cp_offset_bytes c)), (''observed_at'', quote (time_format (cp_observed_at c)))]"
  have "checkpoint_json c = Some (jobj fs)"
    using assms by (simp add: checkpoint_json_def time_json_def checkpoint_good_def fs_def)
  moreover have "list_all2 (\<lambda>f v. renders (snd f) v) fs vs" by (simp add: vs_def fs_def)
  note json_parse_jobj(2) [OF this]
  moreover have "dec_checkpoint (JObj (map2 (\<lambda>f v. (quote_body (fst f), snd f, v)) fs vs)) z = Some c"
    using assms
    by (simp add: dec_checkpoint_def dec_struct_def fs_def vs_def checkpoint_fields_def
        set_checkpoint_field_def checkpoint_good_def dec_time_json del: dec_members.simps(2))
  ultimately show ?thesis by blast
qed

lemma decode_checkpoint_json:
  assumes "checkpoint_good c" "checkpoint_json c = Some b"
  shows "decode_checkpoint b = Some c"
  using dec_checkpoint_json [OF assms(1), of zero_checkpoint] assms(2) renders_json_parse
  by (auto simp: decode_checkpoint_def unmarshal_def)

interpretation checkpoint_codec: record_codec checkpoint_json decode_checkpoint checkpoint_good
proof
  fix c :: checkpoint and b
  show "checkpoint_good c \<Longrightarrow> checkpoint_json c \<noteq> None" using dec_checkpoint_json [of c] by auto
  show "checkpoint_good c \<Longrightarrow> checkpoint_json c = Some b \<Longrightarrow> decode_checkpoint b = Some c"
    by (rule decode_checkpoint_json)
qed

text \<open>\<open>decode_commit\<close> encodes again what it has read; the commit that was written passes.\<close>

definition option_of :: "'e + 'a \<Rightarrow> 'a option" where
  "option_of r = (case r of Inl _ \<Rightarrow> None | Inr x \<Rightarrow> Some x)"

definition commit_codec_good :: "commit \<Rightarrow> bool" where
  "commit_codec_good c \<longleftrightarrow> commit_good c \<and> option_of (encode_commit c) \<noteq> None"

lemma option_of_Some [simp]: "option_of r = Some x \<longleftrightarrow> r = Inr x"
  by (cases r) (auto simp: option_of_def)

lemma encode_commit_InrD:
  assumes "encode_commit c = Inr body"
  shows "commit_json c = Some body" "\<not> blank (cm_batch_id c)" "validate_checkpoint (cm_checkpoint c) = None"
    "payload_batch_id (cm_payload c) = Some (cm_batch_id c)"
  using assms by (auto simp: encode_commit_def of_option_def split: option.splits if_splits)

lemma decode_commit_encode:
  assumes "commit_good c" "encode_commit c = Inr b"
  shows "decode_commit b = Inr c"
proof -
  obtain v where v: "renders (cm_payload c) v"
    using assms(1) compact_renders by (metis commit_good_def)
  obtain cb cv where cp: "checkpoint_json (cm_checkpoint c) = Some cb" "renders cb cv"
    and cd: "dec_checkpoint cv zero_checkpoint = Some (cm_checkpoint c)"
    using dec_checkpoint_json [of "cm_checkpoint c" zero_checkpoint] assms(1) by (auto simp: commit_good_def)
  define fs where "fs = [(''batch_id'', quote (cm_batch_id c)), (''payload'', cm_payload c), (''checkpoint'', cb)]"
  define vs where "vs = [JStr (quote_body (cm_batch_id c)), v, cv]"
  have b: "b = jobj fs"
    using encode_commit_InrD(1) [OF assms(2)] assms(1) cp by (simp add: commit_json_def commit_good_def fs_def)
  have "list_all2 (\<lambda>f v. renders (snd f) v) fs vs" using v cp by (simp add: fs_def vs_def)
  note p = json_parse_jobj(1) [OF this]
  have "dec_struct True commit_fields set_commit_field (JObj (map2 (\<lambda>f v. (quote_body (fst f), snd f, v)) fs vs)) zero_commit
      = Some c"
    using assms(1) cd
    by (simp add: dec_struct_def fs_def vs_def commit_fields_def set_commit_field_def commit_good_def
        zero_commit_def del: dec_members.simps(2))
  with p assms(2) show ?thesis
    by (simp add: decode_commit_def unmarshal_def b)
qed

interpretation commit_codec: record_codec "\<lambda>c. option_of (encode_commit c)" "\<lambda>b. option_of (decode_commit b)"
  commit_codec_good
  by standard (auto simp: commit_codec_good_def decode_commit_encode)

lemma decode_ack_json: "valid_utf8 i \<Longrightarrow> decode_ack (ack_json i) = Some i"
  using json_parse_jobj(1) [of "[(''batch_id'', quote i)]" "[JStr (quote_body i)]"]
  by (simp add: decode_ack_def ack_json_def unmarshal_def dec_struct_def del: dec_members.simps(2))

interpretation ack_codec: record_codec "\<lambda>i. Some (ack_json i)" decode_ack valid_utf8
  by standard (auto simp: decode_ack_json)

lemma dec_quarantine_json:
  assumes "quarantine_good r"
  shows "\<exists>b. quarantine_json r = Some b \<and> decode_quarantine b = Some r"
proof -
  define vs where "vs = [JStr (quote_body (qr_batch_id r)), JNum (int_dec (qr_http_code r)),
    JStr (quote_body (qr_error_code r)), JStr (quote_body (time_format (qr_quarantined_at r)))]"
  define fs where "fs = [(''batch_id'', quote (qr_batch_id r)), (''http_code'', int_dec (qr_http_code r)),
    (''error_code'', quote (qr_error_code r)), (''quarantined_at'', quote (time_format (qr_quarantined_at r)))]"
  have "quarantine_json r = Some (jobj fs)"
    using assms by (simp add: quarantine_json_def time_json_def quarantine_good_def fs_def)
  moreover have "list_all2 (\<lambda>f v. renders (snd f) v) fs vs" by (simp add: vs_def fs_def)
  note json_parse_jobj(1) [OF this]
  moreover have "dec_struct True quarantine_fields set_quarantine_field
      (JObj (map2 (\<lambda>f v. (quote_body (fst f), snd f, v)) fs vs)) zero_quarantine = Some r"
    using assms
    by (simp add: dec_struct_def fs_def vs_def quarantine_fields_def set_quarantine_field_def quarantine_good_def
        dec_time_json zero_quarantine_def del: dec_members.simps(2))
  ultimately show ?thesis by (simp add: decode_quarantine_def unmarshal_def)
qed

interpretation quarantine_codec: record_codec quarantine_json decode_quarantine quarantine_good
proof
  fix r :: quarantine_record and b
  show "quarantine_good r \<Longrightarrow> quarantine_json r \<noteq> None" using dec_quarantine_json [of r] by auto
  show "quarantine_good r \<Longrightarrow> quarantine_json r = Some b \<Longrightarrow> decode_quarantine b = Some r"
    using dec_quarantine_json [of r] by auto
qed

end
