(* ===== verification/Spool_Wal.thy ===== *)
theory Spool_Wal
  imports Spool_Codec "HOL-Library.Finite_Map" "HOL-Library.Multiset"
begin

text \<open>
  The agent's durable spool (\<open>internal/agent/spool/wal.go\<close>): the state of \<open>WAL\<close> and its operations.
  The maps of the code are finite maps; the handle \<open>w.file\<close> is on \<open>d_main\<close>, the first of the three
  files of the spool's directory (the log, its backup \<open>.bak\<close>, the new log \<open>.compact\<close>). What a
  system call does is an argument: an append can fail at the seek, after some bytes of the
  write, or at the sync, and the truncation that rolls it back can fail too. An operation returns the
  new state with an error or a value. The mutex makes each operation one step.
\<close>

section \<open>State\<close>

record spool_dir =
  d_main :: "bytes option"
  d_backup :: "bytes option"
  d_temp :: "bytes option"

record wal =
  w_dir :: spool_dir
  w_max_bytes :: int
  w_max_record :: int
  w_used_bytes :: int
  w_closed :: bool
  w_pending :: "(string, commit) fmap"
  w_pending_size :: "(string, int) fmap"
  w_order :: "string list"
  w_quarantined :: "(string, quarantined) fmap"
  w_quarantine_order :: "string list"
  w_seen :: "string set"
  w_checkpoints :: "(string, checkpoint) fmap"
  w_changed :: bool

type_synonym 'a wal_result = "wal \<times> (spool_error + 'a)"

definition wal_file :: "wal \<Rightarrow> bytes" where
  "wal_file w = (case d_main (w_dir w) of Some b \<Rightarrow> b | None \<Rightarrow> [])"

definition set_file :: "bytes \<Rightarrow> wal \<Rightarrow> wal" where
  "set_file b w = w\<lparr>w_dir := (w_dir w)\<lparr>d_main := Some b\<rparr>\<rparr>"

text \<open>\<open>signal\<close>: the channel holds at most one token.\<close>

definition signal :: "wal \<Rightarrow> wal" where
  "signal w = w\<lparr>w_changed := True\<rparr>"

section \<open>The index\<close>

definition apply_commit :: "commit \<Rightarrow> int \<Rightarrow> wal \<Rightarrow> wal" where
  "apply_commit c n w =
     w\<lparr>w_pending := fmupd (cm_batch_id c) c (w_pending w),
       w_pending_size := fmupd (cm_batch_id c) n (w_pending_size w),
       w_order := w_order w @ [cm_batch_id c],
       w_seen := insert (cm_batch_id c) (w_seen w),
       w_checkpoints := fmupd (cp_source_key (cm_checkpoint c)) (cm_checkpoint c) (w_checkpoints w),
       w_used_bytes := w_used_bytes w + n\<rparr>"

definition apply_quarantine :: "quarantined \<Rightarrow> wal \<Rightarrow> wal" where
  "apply_quarantine q w =
     w\<lparr>w_pending := fmdrop (cm_batch_id (q_commit q)) (w_pending w),
       w_quarantined := fmupd (cm_batch_id (q_commit q)) q (w_quarantined w),
       w_quarantine_order := w_quarantine_order w @ [cm_batch_id (q_commit q)]\<rparr>"

text \<open>Reading a missing key of \<open>pendingSize\<close> gives 0.\<close>

definition size_of :: "string \<Rightarrow> wal \<Rightarrow> int" where
  "size_of i w = (case fmlookup (w_pending_size w) i of Some n \<Rightarrow> n | None \<Rightarrow> 0)"

definition remove_active :: "string \<Rightarrow> wal \<Rightarrow> wal" where
  "remove_active i w =
     w\<lparr>w_pending := fmdrop i (w_pending w),
       w_quarantined := fmdrop i (w_quarantined w),
       w_used_bytes := w_used_bytes w - size_of i w,
       w_pending_size := fmdrop i (w_pending_size w)\<rparr>"

definition set_checkpoint :: "checkpoint \<Rightarrow> wal \<Rightarrow> wal" where
  "set_checkpoint c w = w\<lparr>w_checkpoints := fmupd (cp_source_key c) c (w_checkpoints w)\<rparr>"

definition is_pending :: "string \<Rightarrow> wal \<Rightarrow> bool" where
  "is_pending i w \<longleftrightarrow> fmlookup (w_pending w) i \<noteq> None"

definition is_quarantined :: "string \<Rightarrow> wal \<Rightarrow> bool" where
  "is_quarantined i w \<longleftrightarrow> fmlookup (w_quarantined w) i \<noteq> None"

section \<open>Appending\<close>

text \<open>
  The outcome of the system calls of \<open>appendRecord\<close>: all succeed; the seek fails; the write fails
  after some bytes; the sync fails. The flag tells whether \<open>rollbackAppend\<close> can truncate.
\<close>

datatype append_io = IoOk | IoSeekFails | IoWriteFails nat bool | IoSyncFails bool

definition rollback_append :: "bool \<Rightarrow> bytes \<Rightarrow> bytes \<Rightarrow> bytes" where
  "rollback_append truncated start now = (if truncated then take (length start) now else now)"

definition append_record :: "append_io \<Rightarrow> char \<Rightarrow> bytes \<Rightarrow> wal \<Rightarrow> wal \<times> spool_error option" where
  "append_record io kind body w =
     (if io = IoSeekFails then (w, Some ErrIO)
      else (case frame_record kind body of
              None \<Rightarrow> (w, Some ErrFormatLength)
            | Some r \<Rightarrow>
                (case io of
                   IoOk \<Rightarrow> (set_file (wal_file w @ r) w, None)
                 | IoSeekFails \<Rightarrow> (w, Some ErrIO)
                 | IoWriteFails k t \<Rightarrow> (set_file (rollback_append t (wal_file w) (wal_file w @ take k r)) w, Some ErrIO)
                 | IoSyncFails t \<Rightarrow> (set_file (rollback_append t (wal_file w) (wal_file w @ r)) w, Some ErrIO))))"

section \<open>Operations\<close>

definition wal_commit :: "bool \<Rightarrow> append_io \<Rightarrow> commit \<Rightarrow> wal \<Rightarrow> unit wal_result" where
  "wal_commit cancelled io c w =
     (if cancelled then (w, Inl ErrCtx)
      else (case encode_commit c of
              Inl e \<Rightarrow> (w, Inl e)
            | Inr body \<Rightarrow>
                (let record_bytes = int (record_header_bytes + length body) in
                 if int (length body) > w_max_record w then (w, Inl ErrRecordTooLarge)
                 else if w_closed w then (w, Inl ErrClosed)
                 else if cm_batch_id c \<in> w_seen w then (w, Inl ErrDuplicateBatch)
                 else if record_bytes > w_max_bytes w - w_used_bytes w then (w, Inl ErrFull)
                 else (case append_record io record_commit body w of
                         (w', Some e) \<Rightarrow> (w', Inl e)
                       | (w', None) \<Rightarrow> (signal (apply_commit c record_bytes w'), Inr ())))))"

definition wal_quarantine ::
  "bool \<Rightarrow> append_io \<Rightarrow> string \<Rightarrow> int \<Rightarrow> string \<Rightarrow> time \<Rightarrow> wal \<Rightarrow> quarantined wal_result"
where
  "wal_quarantine cancelled io i http_code error_code tm w =
     (if cancelled then (w, Inl ErrCtx)
      else if blank i \<or> http_code < 400 \<or> is_zero tm then (w, Inl ErrQuarantineInvalid)
      else
        (let r = \<lparr>qr_batch_id = i, qr_http_code = http_code, qr_error_code = trim_space error_code,
                  qr_quarantined_at = tm\<rparr> in
         case quarantine_json r of
           None \<Rightarrow> (w, Inl ErrMarshal)
         | Some body \<Rightarrow>
             if w_closed w then (w, Inl ErrClosed)
             else (case fmlookup (w_pending w) i of
                     None \<Rightarrow> (case fmlookup (w_quarantined w) i of
                                Some q \<Rightarrow> (w, Inr q)
                              | None \<Rightarrow> (w, Inl ErrUnknownBatch))
                   | Some c \<Rightarrow>
                       (case append_record io record_quarantine body w of
                          (w', Some e) \<Rightarrow> (w', Inl e)
                        | (w', None) \<Rightarrow>
                            (let q = \<lparr>q_commit = c, q_http_code = http_code, q_error_code = qr_error_code r,
                                      q_quarantined_at = tm\<rparr>
                             in (signal (apply_quarantine q w'), Inr q))))))"

definition same_checkpoint_position :: "checkpoint \<Rightarrow> checkpoint \<Rightarrow> bool" where
  "same_checkpoint_position a b \<longleftrightarrow>
     cp_source_key a = cp_source_key b \<and> cp_file_identity a = cp_file_identity b \<and>
     cp_offset_bytes a = cp_offset_bytes b"

text \<open>The guard of \<open>Transition\<close>: a compare-and-set on the durable checkpoint of the source.\<close>

definition transition_conflict :: "checkpoint option \<Rightarrow> checkpoint \<Rightarrow> wal \<Rightarrow> bool" where
  "transition_conflict expected nxt w =
     (case expected of
        None \<Rightarrow> fmlookup (w_checkpoints w) (cp_source_key nxt) \<noteq> None
      | Some e \<Rightarrow>
          (case fmlookup (w_checkpoints w) (cp_source_key nxt) of
             None \<Rightarrow> True
           | Some current \<Rightarrow> \<not> same_checkpoint_position current e))"

definition wal_transition ::
  "bool \<Rightarrow> append_io \<Rightarrow> checkpoint option \<Rightarrow> checkpoint \<Rightarrow> wal \<Rightarrow> unit wal_result"
where
  "wal_transition cancelled io expected nxt w =
     (if cancelled then (w, Inl ErrCtx)
      else (case validate_checkpoint nxt of
              Some e \<Rightarrow> (w, Inl e)
            | None \<Rightarrow>
                (case checkpoint_json nxt of
                   None \<Rightarrow> (w, Inl ErrMarshal)
                 | Some body \<Rightarrow>
                     if w_closed w then (w, Inl ErrClosed)
                     else if transition_conflict expected nxt w then (w, Inl ErrTransitionConflict)
                     else (case append_record io record_checkpoint body w of
                             (w', Some e) \<Rightarrow> (w', Inl e)
                           | (w', None) \<Rightarrow> (signal (set_checkpoint nxt w'), Inr ())))))"

text \<open>\<open>Pending\<close>, \<open>Peek\<close>, \<open>Quarantined\<close>, \<open>Checkpoint\<close>, \<open>Stats\<close>.\<close>

definition wal_pending :: "wal \<Rightarrow> commit list" where
  "wal_pending w = List.map_filter (fmlookup (w_pending w)) (w_order w)"

fun peek_order :: "(string, commit) fmap \<Rightarrow> string list \<Rightarrow> commit option" where
  "peek_order m [] = None"
| "peek_order m (i # is) = (case fmlookup m i of Some c \<Rightarrow> Some c | None \<Rightarrow> peek_order m is)"

definition wal_peek :: "wal \<Rightarrow> commit option" where
  "wal_peek w = peek_order (w_pending w) (w_order w)"

definition wal_quarantined :: "wal \<Rightarrow> quarantined list" where
  "wal_quarantined w = List.map_filter (fmlookup (w_quarantined w)) (w_quarantine_order w)"

definition wal_checkpoint :: "string \<Rightarrow> wal \<Rightarrow> checkpoint option" where
  "wal_checkpoint key w = fmlookup (w_checkpoints w) key"

record spool_stats =
  st_used_bytes :: int
  st_pending :: nat
  st_quarantined :: nat
  st_oldest :: time

definition older :: "time \<Rightarrow> time \<Rightarrow> time" where
  "older oldest tm =
     (if is_zero tm then oldest
      else if is_zero oldest \<or> tm < oldest then tm
      else oldest)"

text \<open>The loop over the map \<open>pending\<close>, in the order in which the commits were made; \<open>stats_order\<close>
  shows that any other order gives the same.\<close>

definition wal_stats :: "wal \<Rightarrow> spool_stats" where
  "wal_stats w =
     \<lparr>st_used_bytes = w_used_bytes w,
      st_pending = fcard (fmdom (w_pending w)),
      st_quarantined = fcard (fmdom (w_quarantined w)),
      st_oldest = foldl (\<lambda>t c. older t (cp_observed_at (cm_checkpoint c))) zero_time (wal_pending w)\<rparr>"

lemma older_commute: "older (older t a) b = older (older t b) a"
  by (auto simp: older_def)

lemma stats_order:
  assumes "mset cs = mset cs'"
  shows "foldl (\<lambda>t c. older t (cp_observed_at (cm_checkpoint c))) t0 cs =
    foldl (\<lambda>t c. older t (cp_observed_at (cm_checkpoint c))) t0 cs'"
proof -
  have "fold (\<lambda>c t. older t (cp_observed_at (cm_checkpoint c))) cs = fold (\<lambda>c t. older t (cp_observed_at (cm_checkpoint c))) cs'"
    by (rule fold_multiset_equiv [OF _ assms]) (simp add: fun_eq_iff older_commute)
  then show ?thesis by (simp add: foldl_conv_fold)
qed

text \<open>One turn of the loop of \<open>WaitForSpace\<close>: closed, enough space, or wait for the channel.\<close>

datatype wait_turn = WaitClosed | WaitReady | WaitBlocks

definition wait_for_space :: "int \<Rightarrow> wal \<Rightarrow> wait_turn" where
  "wait_for_space n w =
     (if w_closed w then WaitClosed
      else if n \<le> w_max_bytes w - w_used_bytes w then WaitReady
      else WaitBlocks)"

definition wal_close :: "wal \<Rightarrow> wal" where
  "wal_close w = (if w_closed w then w else signal (w\<lparr>w_closed := True\<rparr>))"

section \<open>Recovery\<close>

definition apply_recovered :: "char \<Rightarrow> bytes \<Rightarrow> int \<Rightarrow> wal \<Rightarrow> spool_error + wal" where
  "apply_recovered kind body record_bytes w =
     (if kind = record_commit then
        (case decode_commit body of
           Inl e \<Rightarrow> Inl e
         | Inr c \<Rightarrow> if cm_batch_id c \<in> w_seen w then Inl ErrDuplicateBatch
                    else Inr (apply_commit c record_bytes w))
      else if kind = record_ack then
        (case decode_ack body of
           None \<Rightarrow> Inl ErrDecode
         | Some i \<Rightarrow> if \<not> is_pending i w \<and> \<not> is_quarantined i w then Inl ErrUnknownBatch
                     else Inr (remove_active i w))
      else if kind = record_checkpoint then
        (case decode_checkpoint body of
           None \<Rightarrow> Inl ErrDecode
         | Some c \<Rightarrow> (case validate_checkpoint c of
                        Some e \<Rightarrow> Inl e
                      | None \<Rightarrow> Inr (set_checkpoint c w)))
      else if kind = record_quarantine then
        (case decode_quarantine body of
           None \<Rightarrow> Inl ErrDecode
         | Some r \<Rightarrow>
             (case fmlookup (w_pending w) (qr_batch_id r) of
                None \<Rightarrow> Inl ErrUnknownBatch
              | Some c \<Rightarrow>
                  if qr_http_code r < 400 \<or> is_zero (qr_quarantined_at r) then Inl ErrQuarantineInvalid
                  else Inr (apply_quarantine
                    \<lparr>q_commit = c, q_http_code = qr_http_code r, q_error_code = qr_error_code r,
                     q_quarantined_at = qr_quarantined_at r\<rparr> w)))
      else Inl ErrUnsupportedKind)"

text \<open>
  The loop of \<open>recover\<close> from an offset on: the index after the complete records and the offset of the
  end of the last one; \<open>Inl (ErrCorrupt off)\<close> for the first record that does not check or apply.
\<close>

lemma next_record_shorter: "next_record m s = Found kind body tot rest \<Longrightarrow> length rest < length s"
  by (auto simp: next_record_def record_header_bytes_def Let_def split: if_splits sum.splits prod.splits)

function recover_records :: "nat \<Rightarrow> bytes \<Rightarrow> wal \<Rightarrow> spool_error + (wal \<times> nat)" where
  "recover_records off s w =
     (case next_record (w_max_record w) s of
        AtEnd \<Rightarrow> Inr (w, off)
      | TornTail \<Rightarrow> Inr (w, off)
      | BadRecord \<Rightarrow> Inl (ErrCorrupt off)
      | Found kind body tot rest \<Rightarrow>
          (case apply_recovered kind body tot w of
             Inl _ \<Rightarrow> Inl (ErrCorrupt off)
           | Inr w' \<Rightarrow> recover_records (off + nat tot) rest w'))"
  by pat_completeness auto
termination
  by (relation "measure (\<lambda>(off, s, w). length s)") (auto dest!: next_record_shorter)

declare recover_records.simps [simp del]

text \<open>\<open>recover\<close>: an incomplete tail is cut off and the cut is synced (or the truncation fails).\<close>

definition wal_recover :: "bool \<Rightarrow> wal \<Rightarrow> spool_error + wal" where
  "wal_recover truncate_ok w =
     (case recover_records 0 (wal_file w) w of
        Inl e \<Rightarrow> Inl e
      | Inr (w', off) \<Rightarrow>
          if off < length (wal_file w)
          then (if truncate_ok then Inr (set_file (take off (wal_file w)) w') else Inl ErrIO)
          else Inr w')"

text \<open>\<open>recoverReplacement\<close>: an interrupted compaction is undone or completed.\<close>

definition recover_replacement :: "spool_dir \<Rightarrow> spool_dir" where
  "recover_replacement d =
     (let d' = (case (d_main d, d_backup d) of
                  (None, Some b) \<Rightarrow> d\<lparr>d_main := Some b, d_backup := None\<rparr>
                | (Some _, Some _) \<Rightarrow> d\<lparr>d_backup := None\<rparr>
                | _ \<Rightarrow> d)
      in d'\<lparr>d_temp := None\<rparr>)"

record spool_config =
  sc_path :: string
  sc_max_bytes :: int
  sc_max_record_bytes :: int

definition default_max_bytes :: int where "default_max_bytes = 2 ^ 30"
definition default_max_record_bytes :: int where "default_max_record_bytes = 8 * 2 ^ 20"

definition effective_config :: "spool_config \<Rightarrow> spool_config" where
  "effective_config c =
     c\<lparr>sc_max_bytes := (if sc_max_bytes c \<le> 0 then default_max_bytes else sc_max_bytes c),
       sc_max_record_bytes := (if sc_max_record_bytes c \<le> 0 then default_max_record_bytes else sc_max_record_bytes c)\<rparr>"

definition empty_wal :: "spool_config \<Rightarrow> spool_dir \<Rightarrow> wal" where
  "empty_wal c d =
     \<lparr>w_dir = d, w_max_bytes = sc_max_bytes c, w_max_record = sc_max_record_bytes c,
      w_used_bytes = 0, w_closed = False, w_pending = fmempty, w_pending_size = fmempty, w_order = [],
      w_quarantined = fmempty, w_quarantine_order = [], w_seen = {}, w_checkpoints = fmempty,
      w_changed = False\<rparr>"

text \<open>\<open>Open\<close> on a directory whose files can be opened; \<open>O_CREATE\<close> makes an empty log.\<close>

definition open_wal :: "bool \<Rightarrow> spool_config \<Rightarrow> spool_dir \<Rightarrow> spool_error + wal" where
  "open_wal truncate_ok config d =
     (if blank (sc_path config) then Inl ErrPathEmpty
      else
        (let c = effective_config config in
         if sc_max_record_bytes c > 2 ^ 32 - 1 then Inl ErrMaxRecord
         else
           (let d1 = recover_replacement d;
                d2 = (case d_main d1 of None \<Rightarrow> d1\<lparr>d_main := Some []\<rparr> | Some _ \<Rightarrow> d1)
            in wal_recover truncate_ok (empty_wal c d2))))"

end
