(* ===== verification/Spool_Compact.thy ===== *)
theory Spool_Compact
  imports Spool_Wal
begin

text \<open>
  Compaction of the spool (\<open>compactLocked\<close>), its crash points, and \<open>Ack\<close>, which starts it
  (\<open>internal/agent/spool/wal.go\<close>). \<open>snapshot\<close> is the contents of the new log: the pending commits in
  order, every quarantined commit with its quarantine record, and the checkpoints sorted by key.
\<close>

section \<open>The new log\<close>

fun collect :: "('e + 'a) list \<Rightarrow> 'e + 'a list" where
  "collect [] = Inr []"
| "collect (Inl e # rs) = Inl e"
| "collect (Inr x # rs) = (case collect rs of Inl e \<Rightarrow> Inl e | Inr xs \<Rightarrow> Inr (x # xs))"

definition framed :: "char \<Rightarrow> spool_error + bytes \<Rightarrow> spool_error + bytes" where
  "framed kind body = (case body of Inl e \<Rightarrow> Inl e | Inr b \<Rightarrow> of_option ErrFormatLength (frame_record kind b))"

definition quarantine_of :: "string \<Rightarrow> quarantined \<Rightarrow> quarantine_record" where
  "quarantine_of i q =
     \<lparr>qr_batch_id = i, qr_http_code = q_http_code q, qr_error_code = q_error_code q,
      qr_quarantined_at = q_quarantined_at q\<rparr>"

definition snapshot_pending :: "wal \<Rightarrow> (spool_error + bytes) list" where
  "snapshot_pending w = map (\<lambda>c. framed record_commit (encode_commit c)) (wal_pending w)"

definition snapshot_quarantined :: "wal \<Rightarrow> (spool_error + bytes) list" where
  "snapshot_quarantined w =
     concat (map (\<lambda>i. case fmlookup (w_quarantined w) i of
         None \<Rightarrow> []
       | Some q \<Rightarrow> [framed record_commit (encode_commit (q_commit q)),
                    framed record_quarantine (of_option ErrMarshal (quarantine_json (quarantine_of i q)))])
       (w_quarantine_order w))"

definition checkpoint_keys :: "wal \<Rightarrow> string list" where
  "checkpoint_keys w = sorted_list_of_fset (fmdom (w_checkpoints w))"

definition snapshot_checkpoints :: "wal \<Rightarrow> (spool_error + bytes) list" where
  "snapshot_checkpoints w =
     map (\<lambda>c. framed record_checkpoint (of_option ErrMarshal (checkpoint_json c)))
       (List.map_filter (fmlookup (w_checkpoints w)) (checkpoint_keys w))"

definition snapshot :: "wal \<Rightarrow> spool_error + bytes" where
  "snapshot w =
     (case collect (snapshot_pending w @ snapshot_quarantined w @ snapshot_checkpoints w) of
        Inl e \<Rightarrow> Inl e
      | Inr records \<Rightarrow> Inr (concat records))"

section \<open>Replacing the log\<close>

text \<open>The system calls of the replacement on the directory, in the order of the code.\<close>

datatype dir_op = RemoveTemp | WriteTemp bytes | RemoveBackup | MainToBackup | TempToMain | BackupToMain

fun do_op :: "dir_op \<Rightarrow> spool_dir \<Rightarrow> spool_dir" where
  "do_op RemoveTemp d = d\<lparr>d_temp := None\<rparr>"
| "do_op (WriteTemp b) d = d\<lparr>d_temp := Some b\<rparr>"
| "do_op RemoveBackup d = d\<lparr>d_backup := None\<rparr>"
| "do_op MainToBackup d = d\<lparr>d_backup := d_main d, d_main := None\<rparr>"
| "do_op TempToMain d = d\<lparr>d_main := d_temp d, d_temp := None\<rparr>"
| "do_op BackupToMain d = d\<lparr>d_main := d_backup d, d_backup := None\<rparr>"

definition compact_ops :: "bytes \<Rightarrow> dir_op list" where
  "compact_ops b = [RemoveTemp, WriteTemp b, RemoveBackup, MainToBackup, TempToMain, RemoveBackup]"

text \<open>
  How a compaction ends: all system calls succeed; opening, writing, syncing or closing the new log
  fails; closing the old one fails; the first rename fails, or the second does (then the code tries to put the backup
  back); the flags tell whether the code can open the log again, and whether the backup can be put back; opening
  or seeking the new log fails at the end.
\<close>

datatype compact_io =
    CompactOk
  | TempFails
  | CloseFails
  | FirstRenameFails bool
  | SecondRenameFails bool bool
  | ReopenFails
  | SeekFails

definition run_ops :: "dir_op list \<Rightarrow> spool_dir \<Rightarrow> spool_dir" where
  "run_ops ops d = fold do_op ops d"

definition reopened :: "bool \<Rightarrow> spool_dir \<Rightarrow> wal \<Rightarrow> wal" where
  "reopened ok d w = w\<lparr>w_dir := d, w_closed := \<not> (ok \<and> d_main d \<noteq> None)\<rparr>"

definition compact_locked :: "compact_io \<Rightarrow> wal \<Rightarrow> wal \<times> spool_error option" where
  "compact_locked io w =
     (let d = w_dir w in
      case snapshot w of
        Inl e \<Rightarrow> (w\<lparr>w_dir := run_ops [RemoveTemp] d\<rparr>, Some e)
      | Inr b \<Rightarrow>
          (case io of
             TempFails \<Rightarrow> (w\<lparr>w_dir := run_ops [RemoveTemp] d\<rparr>, Some ErrIO)
           | CloseFails \<Rightarrow> (w\<lparr>w_dir := run_ops [RemoveTemp] d\<rparr>, Some ErrIO)
           | FirstRenameFails ok \<Rightarrow> (reopened ok (run_ops [RemoveTemp, RemoveBackup] d) w, Some ErrIO)
           | SecondRenameFails back ok \<Rightarrow>
               (reopened ok (run_ops ([RemoveTemp, WriteTemp b, RemoveBackup, MainToBackup] @
                                      (if back then [BackupToMain] else [])) d) w, Some ErrIO)
           | ReopenFails \<Rightarrow> (reopened False (run_ops (compact_ops b) d) w, Some ErrIO)
           | SeekFails \<Rightarrow> (reopened True (run_ops (compact_ops b) d) w, Some ErrIO)
           | CompactOk \<Rightarrow> (reopened True (run_ops (compact_ops b) d) w, None)))"

section \<open>Acknowledgement\<close>

text \<open>\<open>Ack\<close>: a file larger than \<open>max(maxBytes, 64 KiB)\<close> is compacted; only a compaction that leaves
  the spool closed is reported.\<close>

definition compact_limit :: "wal \<Rightarrow> int" where
  "compact_limit w = max (w_max_bytes w) (64 * 2 ^ 10)"

definition wal_ack :: "bool \<Rightarrow> append_io \<Rightarrow> compact_io \<Rightarrow> string \<Rightarrow> wal \<Rightarrow> unit wal_result" where
  "wal_ack cancelled io cio i w =
     (if cancelled then (w, Inl ErrCtx)
      else if w_closed w then (w, Inl ErrClosed)
      else if \<not> is_pending i w \<and> \<not> is_quarantined i w then (w, Inr ())
      else (case append_record io record_ack (ack_json i) w of
              (w1, Some e) \<Rightarrow> (w1, Inl e)
            | (w1, None) \<Rightarrow>
                (let w2 = signal (remove_active i w1) in
                 if int (length (wal_file w2)) > compact_limit w2 then
                   (case compact_locked cio w2 of
                      (w3, Some e) \<Rightarrow> (if w_closed w3 then (w3, Inl e) else (w3, Inr ()))
                    | (w3, None) \<Rightarrow> (w3, Inr ()))
                 else (w2, Inr ()))))"

end
