(* ===== verification/Spool_Index.thy ===== *)
theory Spool_Index
  imports Spool_Compact
begin

text \<open>
  The index of the spool (the maps of \<open>WAL\<close>) against what it stands for: the queue of pending commits,
  the quarantine, and the durable checkpoint of every source (\<open>spool_view\<close>). \<open>wal_wf\<close> is the
  invariant of the index; each step of the index keeps it and acts on the view as a queue does.
\<close>

section \<open>The abstract spool\<close>

record spool_view =
  v_pending :: "commit list"
  v_quarantined :: "quarantined list"
  v_checkpoints :: "(string, checkpoint) fmap"

definition view :: "wal \<Rightarrow> spool_view" where
  "view w = \<lparr>v_pending = wal_pending w, v_quarantined = wal_quarantined w, v_checkpoints = w_checkpoints w\<rparr>"

definition view_commit :: "commit \<Rightarrow> spool_view \<Rightarrow> spool_view" where
  "view_commit c v =
     v\<lparr>v_pending := v_pending v @ [c],
       v_checkpoints := fmupd (cp_source_key (cm_checkpoint c)) (cm_checkpoint c) (v_checkpoints v)\<rparr>"

definition view_remove :: "string \<Rightarrow> spool_view \<Rightarrow> spool_view" where
  "view_remove i v =
     v\<lparr>v_pending := filter (\<lambda>c. cm_batch_id c \<noteq> i) (v_pending v),
       v_quarantined := filter (\<lambda>q. cm_batch_id (q_commit q) \<noteq> i) (v_quarantined v)\<rparr>"

definition view_quarantine :: "quarantined \<Rightarrow> spool_view \<Rightarrow> spool_view" where
  "view_quarantine q v =
     v\<lparr>v_pending := filter (\<lambda>c. cm_batch_id c \<noteq> cm_batch_id (q_commit q)) (v_pending v),
       v_quarantined := v_quarantined v @ [q]\<rparr>"

definition view_checkpoint :: "checkpoint \<Rightarrow> spool_view \<Rightarrow> spool_view" where
  "view_checkpoint c v = v\<lparr>v_checkpoints := fmupd (cp_source_key c) c (v_checkpoints v)\<rparr>"

lemmas view_defs = view_commit_def view_remove_def view_quarantine_def view_checkpoint_def

section \<open>The invariant\<close>

text \<open>A commit that the log can hold, with the size of its record.\<close>

definition commit_size :: "commit \<Rightarrow> int" where
  "commit_size c = (case encode_commit c of Inl _ \<Rightarrow> 0 | Inr body \<Rightarrow> int (record_header_bytes + length body))"

definition storable :: "int \<Rightarrow> commit \<Rightarrow> bool" where
  "storable max_record c \<longleftrightarrow>
     commit_good c \<and> (\<exists>body. encode_commit c = Inr body \<and> int (length body) \<le> max_record)"

definition quarantine_ok :: "int \<Rightarrow> string \<Rightarrow> quarantined \<Rightarrow> bool" where
  "quarantine_ok max_record i q \<longleftrightarrow>
     400 \<le> q_http_code q \<and> \<not> is_zero (q_quarantined_at q) \<and> quarantine_good (quarantine_of i q) \<and>
     (\<exists>body. quarantine_json (quarantine_of i q) = Some body \<and> int (length body) \<le> max_record)"

definition checkpoint_ok :: "int \<Rightarrow> checkpoint \<Rightarrow> bool" where
  "checkpoint_ok max_record c \<longleftrightarrow>
     checkpoint_good c \<and> validate_checkpoint c = None \<and>
     (\<exists>body. checkpoint_json c = Some body \<and> int (length body) \<le> max_record)"

text \<open>The source of an active commit has a durable checkpoint.\<close>

definition has_key :: "wal \<Rightarrow> commit \<Rightarrow> bool" where
  "has_key w c \<longleftrightarrow> fmlookup (w_checkpoints w) (cp_source_key (cm_checkpoint c)) \<noteq> None"

definition wal_wf :: "wal \<Rightarrow> bool" where
  "wal_wf w \<longleftrightarrow>
     w_max_record w \<le> 2 ^ 32 - 1 \<and>
     distinct (w_order w) \<and> set (w_order w) = w_seen w \<and>
     distinct (w_quarantine_order w) \<and> set (w_quarantine_order w) \<subseteq> w_seen w \<and>
     (\<forall>i \<in> set (w_quarantine_order w). fmlookup (w_pending w) i = None) \<and>
     (\<forall>i c. fmlookup (w_pending w) i = Some c \<longrightarrow>
        i \<in> w_seen w \<and> cm_batch_id c = i \<and> storable (w_max_record w) c \<and> has_key w c) \<and>
     (\<forall>i q. fmlookup (w_quarantined w) i = Some q \<longrightarrow>
        i \<in> set (w_quarantine_order w) \<and> cm_batch_id (q_commit q) = i \<and> storable (w_max_record w) (q_commit q) \<and>
        quarantine_ok (w_max_record w) i q \<and> has_key w (q_commit q)) \<and>
     (\<forall>i. fmlookup (w_pending_size w) i =
        (case fmlookup (w_pending w) i of
           Some c \<Rightarrow> Some (commit_size c)
         | None \<Rightarrow> map_option (\<lambda>q. commit_size (q_commit q)) (fmlookup (w_quarantined w) i))) \<and>
     (\<forall>k c. fmlookup (w_checkpoints w) k = Some c \<longrightarrow> cp_source_key c = k \<and> checkpoint_ok (w_max_record w) c) \<and>
     w_used_bytes w = (\<Sum>i \<in> fset (fmdom (w_pending_size w)). size_of i w)"

lemma wal_wfD:
  assumes "wal_wf w"
  shows "distinct (w_order w)" "set (w_order w) = w_seen w"
    "distinct (w_quarantine_order w)" "set (w_quarantine_order w) \<subseteq> w_seen w"
    "\<And>i. i \<in> set (w_quarantine_order w) \<Longrightarrow> fmlookup (w_pending w) i = None"
    "\<And>i c. fmlookup (w_pending w) i = Some c \<Longrightarrow> i \<in> w_seen w \<and> cm_batch_id c = i \<and> storable (w_max_record w) c \<and> has_key w c"
    "\<And>i q. fmlookup (w_quarantined w) i = Some q \<Longrightarrow>
        i \<in> set (w_quarantine_order w) \<and> cm_batch_id (q_commit q) = i \<and> storable (w_max_record w) (q_commit q) \<and>
        quarantine_ok (w_max_record w) i q \<and> has_key w (q_commit q)"
    "\<And>i. fmlookup (w_pending_size w) i =
        (case fmlookup (w_pending w) i of
           Some c \<Rightarrow> Some (commit_size c)
         | None \<Rightarrow> map_option (\<lambda>q. commit_size (q_commit q)) (fmlookup (w_quarantined w) i))"
    "\<And>k c. fmlookup (w_checkpoints w) k = Some c \<Longrightarrow> cp_source_key c = k \<and> checkpoint_ok (w_max_record w) c"
    "w_used_bytes w = (\<Sum>i \<in> fset (fmdom (w_pending_size w)). size_of i w)"
    "w_max_record w \<le> 2 ^ 32 - 1"
  using assms unfolding wal_wf_def by blast+

lemma wal_wf_empty [simp]: "sc_max_record_bytes c \<le> 2 ^ 32 - 1 \<Longrightarrow> wal_wf (empty_wal c d)"
  by (simp add: wal_wf_def empty_wal_def)

text \<open>The invariant and the view do not look at the files or at the channel.\<close>

lemma wal_wf_set_file [simp]: "wal_wf (set_file b w) = wal_wf w"
  by (simp add: wal_wf_def set_file_def size_of_def has_key_def cong: option.case_cong)

lemma wal_wf_signal [simp]: "wal_wf (signal w) = wal_wf w"
  by (simp add: wal_wf_def signal_def size_of_def has_key_def cong: option.case_cong)

lemma wal_wf_dir [simp]: "wal_wf (w\<lparr>w_dir := d\<rparr>) = wal_wf w"
  by (simp add: wal_wf_def size_of_def has_key_def cong: option.case_cong)

lemma wal_wf_closed [simp]: "wal_wf (w\<lparr>w_closed := b\<rparr>) = wal_wf w"
  by (simp add: wal_wf_def size_of_def has_key_def cong: option.case_cong)

lemma view_set_file [simp]: "view (set_file b w) = view w"
  by (simp add: view_def set_file_def wal_pending_def wal_quarantined_def)

lemma view_signal [simp]: "view (signal w) = view w"
  by (simp add: view_def signal_def wal_pending_def wal_quarantined_def)

lemma view_dir [simp]: "view (w\<lparr>w_dir := d\<rparr>) = view w"
  by (simp add: view_def wal_pending_def wal_quarantined_def)

lemma view_closed [simp]: "view (w\<lparr>w_closed := b\<rparr>) = view w"
  by (simp add: view_def wal_pending_def wal_quarantined_def)

section \<open>Steps of the index\<close>

lemma map_filter_cong: "(\<And>x. x \<in> set xs \<Longrightarrow> f x = g x) \<Longrightarrow> List.map_filter f xs = List.map_filter g xs"
  by (induction xs) (auto split: option.splits)

lemma map_filter_append: "List.map_filter f (xs @ ys) = List.map_filter f xs @ List.map_filter f ys"
  by (induction xs) (auto split: option.splits)

lemma map_filter_drop:
  assumes "\<And>j x. f j = Some x \<Longrightarrow> key x = j"
  shows "List.map_filter (\<lambda>j. if j = i then None else f j) js = filter (\<lambda>x. key x \<noteq> i) (List.map_filter f js)"
  using assms by (induction js) (auto split: option.splits)

lemma lookup_drop: "fmlookup (fmdrop i m) = (\<lambda>j. if j = i then None else fmlookup m j)"
  by auto

lemma apply_commit_view:
  assumes "wal_wf w" "cm_batch_id c \<notin> w_seen w"
  shows "view (apply_commit c n w) = view_commit c (view w)"
proof -
  have "List.map_filter (fmlookup (fmupd (cm_batch_id c) c (w_pending w))) (w_order w)
      = List.map_filter (fmlookup (w_pending w)) (w_order w)"
    by (rule map_filter_cong) (use assms wal_wfD(2) in auto)
  then show ?thesis
    by (simp add: view_def view_commit_def apply_commit_def wal_pending_def wal_quarantined_def map_filter_append)
qed

lemma remove_active_view:
  assumes "wal_wf w"
  shows "view (remove_active i w) = view_remove i (view w)"
  using map_filter_drop [of "fmlookup (w_pending w)" cm_batch_id i "w_order w"]
    map_filter_drop [of "fmlookup (w_quarantined w)" "\<lambda>q. cm_batch_id (q_commit q)" i "w_quarantine_order w"]
    wal_wfD(6,7) [OF assms]
  by (simp add: view_def view_remove_def remove_active_def wal_pending_def wal_quarantined_def lookup_drop)

lemma apply_quarantine_view:
  assumes "wal_wf w" "fmlookup (w_pending w) i = Some (q_commit q)"
  shows "view (apply_quarantine q w) = view_quarantine q (view w)"
proof -
  have i: "cm_batch_id (q_commit q) = i" using wal_wfD(6) [OF assms] by simp
  then have "i \<notin> set (w_quarantine_order w)" using wal_wfD(5) [OF assms(1)] assms(2) by auto
  then have "List.map_filter (fmlookup (fmupd i q (w_quarantined w))) (w_quarantine_order w)
      = List.map_filter (fmlookup (w_quarantined w)) (w_quarantine_order w)"
    by (intro map_filter_cong) auto
  then show ?thesis
    using map_filter_drop [of "fmlookup (w_pending w)" cm_batch_id i "w_order w"] wal_wfD(6) [OF assms(1)]
    by (simp add: view_def view_quarantine_def apply_quarantine_def wal_pending_def wal_quarantined_def
        map_filter_append lookup_drop i)
qed

lemma set_checkpoint_view [simp]: "view (set_checkpoint c w) = view_checkpoint c (view w)"
  by (simp add: view_def view_checkpoint_def set_checkpoint_def wal_pending_def wal_quarantined_def)

section \<open>The invariant is kept\<close>

definition active_sum :: "(string, int) fmap \<Rightarrow> int" where
  "active_sum m = (\<Sum>i \<in> fset (fmdom m). case fmlookup m i of Some n \<Rightarrow> n | None \<Rightarrow> 0)"

lemma active_sum_upd:
  assumes "fmlookup m i = None"
  shows "active_sum (fmupd i n m) = active_sum m + n"
proof -
  have i: "i \<notin> fset (fmdom m)" using assms by (simp add: fmdom_notI)
  have "(\<Sum>j \<in> fset (fmdom m). case fmlookup (fmupd i n m) j of Some n \<Rightarrow> n | None \<Rightarrow> 0) = active_sum m"
    unfolding active_sum_def by (rule sum.cong) (use i in auto)
  with i show ?thesis unfolding active_sum_def by simp
qed

lemma active_sum_drop:
  "active_sum (fmdrop i m) = active_sum m - (case fmlookup m i of Some n \<Rightarrow> n | None \<Rightarrow> 0)"
proof (cases "fmlookup m i")
  case None
  then have "fmdrop i m = m" by (intro fmdrop_idle) (simp add: fmdom_notI)
  with None show ?thesis by simp
next
  case (Some n)
  then have i: "i \<in> fset (fmdom m)" by (simp add: fmdomI)
  have "(\<Sum>j \<in> fset (fmdom m) - {i}. case fmlookup (fmdrop i m) j of Some n \<Rightarrow> n | None \<Rightarrow> 0)
      = (\<Sum>j \<in> fset (fmdom m) - {i}. case fmlookup m j of Some n \<Rightarrow> n | None \<Rightarrow> 0)"
    by (rule sum.cong) auto
  also have "\<dots> = active_sum m - n" unfolding active_sum_def using i Some by (simp add: sum_diff1)
  finally show ?thesis using Some by (simp add: active_sum_def)
qed

lemma wal_used: "wal_wf w \<Longrightarrow> w_used_bytes w = active_sum (w_pending_size w)"
  using wal_wfD(10) by (simp add: active_sum_def size_of_def has_key_def cong: option.case_cong)

lemma wal_wfI:
  assumes "distinct (w_order w)" "set (w_order w) = w_seen w"
    "distinct (w_quarantine_order w)" "set (w_quarantine_order w) \<subseteq> w_seen w"
    "\<And>i. i \<in> set (w_quarantine_order w) \<Longrightarrow> fmlookup (w_pending w) i = None"
    "\<And>i c. fmlookup (w_pending w) i = Some c \<Longrightarrow> i \<in> w_seen w \<and> cm_batch_id c = i \<and> storable (w_max_record w) c \<and> has_key w c"
    "\<And>i q. fmlookup (w_quarantined w) i = Some q \<Longrightarrow>
        i \<in> set (w_quarantine_order w) \<and> cm_batch_id (q_commit q) = i \<and> storable (w_max_record w) (q_commit q) \<and>
        quarantine_ok (w_max_record w) i q \<and> has_key w (q_commit q)"
    "\<And>i. fmlookup (w_pending_size w) i =
        (case fmlookup (w_pending w) i of
           Some c \<Rightarrow> Some (commit_size c)
         | None \<Rightarrow> map_option (\<lambda>q. commit_size (q_commit q)) (fmlookup (w_quarantined w) i))"
    "\<And>k c. fmlookup (w_checkpoints w) k = Some c \<Longrightarrow> cp_source_key c = k \<and> checkpoint_ok (w_max_record w) c"
    "w_used_bytes w = active_sum (w_pending_size w)"
    "w_max_record w \<le> 2 ^ 32 - 1"
  shows "wal_wf w"
  unfolding wal_wf_def
  using assms by (simp add: active_sum_def size_of_def has_key_def cong: option.case_cong)

lemma unseen:
  assumes "wal_wf w" "i \<notin> w_seen w"
  shows "fmlookup (w_pending w) i = None" "fmlookup (w_quarantined w) i = None"
    "fmlookup (w_pending_size w) i = None" "i \<notin> set (w_quarantine_order w)"
proof -
  note D = wal_wfD [OF assms(1)]
  show p: "fmlookup (w_pending w) i = None" using D(6) assms(2) by (cases "fmlookup (w_pending w) i") auto
  show q: "i \<notin> set (w_quarantine_order w)" using D(4) assms(2) by auto
  then show r: "fmlookup (w_quarantined w) i = None" using D(7) by (cases "fmlookup (w_quarantined w) i") auto
  show "fmlookup (w_pending_size w) i = None" using D(8) [of i] p r by simp
qed

lemma apply_commit_wf [ginv]:
  assumes "wal_wf w" "cm_batch_id c \<notin> w_seen w" "storable (w_max_record w) c"
    "checkpoint_ok (w_max_record w) (cm_checkpoint c)" "n = commit_size c"
  shows "wal_wf (apply_commit c n w)"
proof -
  note D = wal_wfD [OF assms(1)] and U = unseen [OF assms(1,2)]
  show ?thesis
    by (rule wal_wfI; use D(1-7,9,11) D(8) U assms(2-5) active_sum_upd [OF U(3), of n] wal_used [OF assms(1)] in
        \<open>auto simp: apply_commit_def has_key_def split: if_splits cong: option.case_cong\<close>)
qed

lemma remove_active_wf [ginv]:
  assumes "wal_wf w"
  shows "wal_wf (remove_active i w)"
proof -
  note D = wal_wfD [OF assms(1)]
  show ?thesis
    by (rule wal_wfI; use D(1-7,9,11) D(8) active_sum_drop [of i "w_pending_size w"] wal_used [OF assms(1)] in
        \<open>auto simp: remove_active_def size_of_def has_key_def split: if_splits cong: option.case_cong\<close>)
qed

lemma apply_quarantine_wf [ginv]:
  assumes "wal_wf w" "fmlookup (w_pending w) i = Some (q_commit q)" "quarantine_ok (w_max_record w) i q"
  shows "wal_wf (apply_quarantine q w)"
proof -
  note D = wal_wfD [OF assms(1)]
  have i: "cm_batch_id (q_commit q) = i" "i \<in> w_seen w" "storable (w_max_record w) (q_commit q)"
    using D(6) [OF assms(2)] by auto
  have n: "i \<notin> set (w_quarantine_order w)" using D(5) assms(2) by auto
  show ?thesis
    by (rule wal_wfI; use D(1-7,9,11) D(8) i n assms(2,3) wal_used [OF assms(1)] in
        \<open>auto simp: apply_quarantine_def has_key_def split: if_splits cong: option.case_cong\<close>)
qed

lemma set_checkpoint_wf [ginv]:
  assumes "wal_wf w" "checkpoint_ok (w_max_record w) c"
  shows "wal_wf (set_checkpoint c w)"
proof -
  note D = wal_wfD [OF assms(1)]
  show ?thesis
    by (rule wal_wfI; use D(1-7,9,11) D(8) assms(2) wal_used [OF assms(1)] in
        \<open>auto simp: set_checkpoint_def has_key_def split: if_splits cong: option.case_cong\<close>)
qed

end
