(* ===== verification/Spool_Durable.thy ===== *)
theory Spool_Durable
  imports Spool_Index
begin

text \<open>
  Durability of the spool: the bytes of the log always replay to what the memory holds, so that
  \<open>Open\<close> after a crash gives back the pending queue, the quarantine and the checkpoints. A crash in the
  middle of an append leaves a prefix of the record, which recovery cuts off; a byte that
  changed on disk is reported as corruption.
\<close>

section \<open>Replaying a log\<close>

lemma next_record_Found_iff:
  "next_record m s = Found kind body n rest \<longleftrightarrow>
     (\<exists>len. record_header_bytes + unat len \<le> length s \<and> int (unat len) \<le> m \<and>
        body = take (unat len) (drop record_header_bytes s) \<and> rest = drop (record_header_bytes + unat len) s \<and>
        n = int (record_header_bytes + unat len) \<and>
        parse_header (take record_header_bytes s) = Inr (kind, len, record_checksum kind body))"
  (is "?l \<longleftrightarrow> ?r")
proof
  assume ?l
  then show ?r
    unfolding next_record_def Let_def by (auto split: if_splits sum.splits prod.splits)
next
  assume ?r
  then obtain len where "record_header_bytes + unat len \<le> length s" "int (unat len) \<le> m"
    "body = take (unat len) (drop record_header_bytes s)" "rest = drop (record_header_bytes + unat len) s"
    "n = int (record_header_bytes + unat len)"
    "parse_header (take record_header_bytes s) = Inr (kind, len, record_checksum kind body)" by blast
  moreover from this(1) have "s \<noteq> []" by (auto simp: record_header_bytes_def)
  ultimately show ?l by (simp add: next_record_def Let_def)
qed

lemma next_record_append:
  "next_record m s = Found kind body n rest \<Longrightarrow> next_record m (s @ r) = Found kind body n (rest @ r)"
  unfolding next_record_Found_iff
proof (elim exE, goal_cases)
  case (1 len)
  then show ?case by (intro exI [of _ len]) simp
qed

lemma next_record_size:
  "next_record m s = Found kind body n rest \<Longrightarrow> 0 \<le> n \<and> nat n + length rest = length s"
  unfolding next_record_Found_iff by (elim exE conjE) (simp add: nat_int_add del: of_nat_add)

lemma next_record_Nil [simp]: "next_record m [] = AtEnd"
  by (simp add: next_record_def)

lemma next_record_AtEnd: "next_record m s = AtEnd \<Longrightarrow> s = []"
  by (auto simp: next_record_def record_header_bytes_def Let_def split: if_splits sum.splits prod.splits)

text \<open>A log that replays to its end is replayed first when more follows it.\<close>

lemma recover_append:
  assumes "recover_records off s w = Inr (w0, off + length s)"
  shows "recover_records off (s @ r) w = recover_records (off + length s) r w0"
  using assms
proof (induction off s w rule: recover_records.induct)
  case (1 off s w)
  show ?case
  proof (cases "next_record (w_max_record w) s")
    case AtEnd
    with "1.prems" next_record_AtEnd [OF AtEnd] show ?thesis by (simp add: recover_records.simps [of off "[]"])
  next
    case TornTail
    with "1.prems" have "s = []" by (subst (asm) recover_records.simps) simp
    with TornTail show ?thesis by simp
  next
    case BadRecord
    with "1.prems" show ?thesis by (subst (asm) recover_records.simps) simp
  next
    case (Found kind body n rest)
    with "1.prems" obtain w' where w': "apply_recovered kind body n w = Inr w'"
      by (subst (asm) recover_records.simps) (auto split: sum.splits)
    have len: "off + length s = off + nat n + length rest" using next_record_size [OF Found] by simp
    have "recover_records (off + nat n) rest w' = Inr (w0, off + nat n + length rest)"
      using "1.prems" by (subst (asm) recover_records.simps) (simp add: Found w' len)
    from "1.IH" [OF Found w' this] show ?thesis
      by (subst recover_records.simps) (simp add: next_record_append [OF Found] w' len)
  qed
qed

lemma recover_nothing [simp]: "recover_records off [] w = Inr (w, off)"
  by (simp add: recover_records.simps)

definition replays_to :: "wal \<Rightarrow> bytes \<Rightarrow> wal \<Rightarrow> bool" where
  "replays_to start b w \<longleftrightarrow>
     (\<exists>w0. recover_records 0 b start = Inr (w0, length b) \<and> wal_wf w0 \<and> w_max_record w0 = w_max_record w \<and>
        view w0 = view w \<and> w_seen w0 \<subseteq> w_seen w)"

text \<open>What a record must do for every index that looks like \<open>w\<close> for the log with it to replay to \<open>w'\<close>.\<close>

definition replay_step :: "char \<Rightarrow> bytes \<Rightarrow> wal \<Rightarrow> wal \<Rightarrow> bool" where
  "replay_step kind body w w' \<longleftrightarrow>
     (\<forall>w0. wal_wf w0 \<longrightarrow> w_max_record w0 = w_max_record w \<longrightarrow> view w0 = view w \<longrightarrow> w_seen w0 \<subseteq> w_seen w \<longrightarrow>
        (\<exists>w1. apply_recovered kind body (int (record_header_bytes + length body)) w0 = Inr w1 \<and> wal_wf w1 \<and>
              w_max_record w1 = w_max_record w' \<and> view w1 = view w' \<and> w_seen w1 \<subseteq> w_seen w'))"

lemma replays_to_append:
  assumes "replays_to start b w" "frame_record kind body = Some r" "int (length body) \<le> w_max_record w"
    and "replay_step kind body w w'"
  shows "replays_to start (b @ r) w'"
proof -
  obtain w0 where w0: "recover_records 0 b start = Inr (w0, length b)" "wal_wf w0"
    "w_max_record w0 = w_max_record w" "view w0 = view w" "w_seen w0 \<subseteq> w_seen w"
    using assms(1) by (auto simp: replays_to_def)
  obtain w1 where w1: "apply_recovered kind body (int (record_header_bytes + length body)) w0 = Inr w1" "wal_wf w1"
    "w_max_record w1 = w_max_record w'" "view w1 = view w'" "w_seen w1 \<subseteq> w_seen w'"
    using assms(4) w0 unfolding replay_step_def by blast
  have n: "next_record (w_max_record w0) (r @ []) = Found kind body (int (length r)) []"
    by (rule next_record_frame [OF assms(2)]) (use assms(3) w0(3) in simp)
  have len: "length r = record_header_bytes + length body" by (rule frame_record_length [OF assms(2)])
  have "recover_records (length b) r w0 = Inr (w1, length b + length r)"
    using n w1(1) by (subst recover_records.simps) (simp add: len)
  moreover have "recover_records 0 (b @ r) start = recover_records (length b) r w0"
    using recover_append [of 0 b start w0 r] w0(1) by simp
  ultimately show ?thesis using w1 by (auto simp: replays_to_def)
qed

lemma replays_to_cong:
  "replays_to start b w \<Longrightarrow> view w' = view w \<Longrightarrow> w_max_record w' = w_max_record w \<Longrightarrow> w_seen w \<subseteq> w_seen w' \<Longrightarrow>
     replays_to start b w'"
  unfolding replays_to_def by auto

section \<open>The four kinds of record\<close>

lemma pending_list_iff:
  assumes "wal_wf w"
  shows "fmlookup (w_pending w) i = Some c \<longleftrightarrow> c \<in> set (wal_pending w) \<and> cm_batch_id c = i"
  using wal_wfD(2,6) [OF assms] by (auto simp: wal_pending_def List.map_filter_def image_iff) force+

lemma quarantined_list_iff:
  assumes "wal_wf w"
  shows "fmlookup (w_quarantined w) i = Some q \<longleftrightarrow> q \<in> set (wal_quarantined w) \<and> cm_batch_id (q_commit q) = i"
  using wal_wfD(7) [OF assms] by (auto simp: wal_quarantined_def List.map_filter_def image_iff) force+

text \<open>Two indexes with the same view have the same maps.\<close>

lemma view_lookup:
  assumes "wal_wf w" "wal_wf w'" "view w = view w'"
  shows "fmlookup (w_pending w) i = fmlookup (w_pending w') i"
    "fmlookup (w_quarantined w) i = fmlookup (w_quarantined w') i" "w_checkpoints w = w_checkpoints w'"
proof -
  have v: "wal_pending w = wal_pending w'" "wal_quarantined w = wal_quarantined w'"
    using assms(3) by (simp_all add: view_def)
  show "fmlookup (w_pending w) i = fmlookup (w_pending w') i"
    using pending_list_iff [OF assms(1)] pending_list_iff [OF assms(2)] v by (metis option.exhaust)
  show "fmlookup (w_quarantined w) i = fmlookup (w_quarantined w') i"
    using quarantined_list_iff [OF assms(1)] quarantined_list_iff [OF assms(2)] v by (metis option.exhaust)
  show "w_checkpoints w = w_checkpoints w'" using assms(3) by (simp add: view_def)
qed

lemma record_kinds [simp]:
  "record_ack \<noteq> record_commit" "record_checkpoint \<noteq> record_commit" "record_checkpoint \<noteq> record_ack"
  "record_quarantine \<noteq> record_commit" "record_quarantine \<noteq> record_ack" "record_quarantine \<noteq> record_checkpoint"
  by (simp_all add: record_commit_def record_ack_def record_checkpoint_def record_quarantine_def)

lemma storable_checkpoint:
  assumes "storable m c"
  shows "checkpoint_ok m (cm_checkpoint c)"
proof -
  obtain body where b: "commit_good c" "encode_commit c = Inr body" "int (length body) \<le> m"
    using assms by (auto simp: storable_def)
  note e = encode_commit_InrD [OF b(2)]
  obtain cb where cb: "checkpoint_json (cm_checkpoint c) = Some cb" and "length cb \<le> length body"
    using e(1) by (auto simp: commit_json_def jobj_def jfield_def bind_eq_Some_conv)
  with b e show ?thesis by (auto simp: checkpoint_ok_def commit_good_def)
qed

lemma storable_ack:
  assumes "storable m c"
  shows "valid_utf8 (cm_batch_id c)" "int (length (ack_json (cm_batch_id c))) \<le> m"
proof -
  obtain body where b: "commit_good c" "encode_commit c = Inr body" "int (length body) \<le> m"
    using assms by (auto simp: storable_def)
  then show "valid_utf8 (cm_batch_id c)" by (simp add: commit_good_def)
  have "length (ack_json (cm_batch_id c)) \<le> length body"
    using encode_commit_InrD(1) [OF b(2)]
    by (auto simp: commit_json_def ack_json_def jobj_def jfield_def bind_eq_Some_conv)
  with b(3) show "int (length (ack_json (cm_batch_id c))) \<le> m" by simp
qed

lemma storable_size: "encode_commit c = Inr body \<Longrightarrow> commit_size c = int (record_header_bytes + length body)"
  by (simp add: commit_size_def)

lemma replay_commit:
  assumes "wal_wf w" "cm_batch_id c \<notin> w_seen w" "storable (w_max_record w) c" "encode_commit c = Inr body"
  shows "replay_step record_commit body w (apply_commit c (commit_size c) w)"
  unfolding replay_step_def
proof (intro allI impI)
  fix w0 assume w0: "wal_wf w0" "w_max_record w0 = w_max_record w" "view w0 = view w" "w_seen w0 \<subseteq> w_seen w"
  have fresh: "cm_batch_id c \<notin> w_seen w0" using assms(2) w0(4) by blast
  have "decode_commit body = Inr c"
    using assms(3,4) by (auto simp: storable_def intro!: decode_commit_encode)
  then have "apply_recovered record_commit body (int (record_header_bytes + length body)) w0
      = Inr (apply_commit c (commit_size c) w0)"
    using fresh storable_size [OF assms(4)] by (simp add: apply_recovered_def)
  moreover have "wal_wf (apply_commit c (commit_size c) w0)"
    using apply_commit_wf [OF w0(1) fresh] assms(3) storable_checkpoint w0(2) by simp
  moreover have "view (apply_commit c (commit_size c) w0) = view (apply_commit c (commit_size c) w)"
    using apply_commit_view [OF w0(1) fresh] apply_commit_view [OF assms(1,2)] w0(3) by simp
  moreover have "w_seen (apply_commit c (commit_size c) w0) \<subseteq> w_seen (apply_commit c (commit_size c) w)"
    "w_max_record (apply_commit c (commit_size c) w0) = w_max_record (apply_commit c (commit_size c) w)"
    using w0(2,4) by (auto simp: apply_commit_def)
  ultimately show "\<exists>w1. apply_recovered record_commit body (int (record_header_bytes + length body)) w0 = Inr w1 \<and>
      wal_wf w1 \<and> w_max_record w1 = w_max_record (apply_commit c (commit_size c) w) \<and>
      view w1 = view (apply_commit c (commit_size c) w) \<and> w_seen w1 \<subseteq> w_seen (apply_commit c (commit_size c) w)"
    by blast
qed

lemma replay_ack:
  assumes "wal_wf w" "is_pending i w \<or> is_quarantined i w"
  shows "replay_step record_ack (ack_json i) w (remove_active i w)"
  unfolding replay_step_def
proof (intro allI impI)
  fix w0 assume w0: "wal_wf w0" "w_max_record w0 = w_max_record w" "view w0 = view w" "w_seen w0 \<subseteq> w_seen w"
  obtain c where "storable (w_max_record w) c" "cm_batch_id c = i"
    using assms wal_wfD(6,7) [OF assms(1), of i] by (auto simp: is_pending_def is_quarantined_def)
  then have "valid_utf8 i" using storable_ack(1) by blast
  moreover have "is_pending i w0 \<or> is_quarantined i w0"
    using assms(2) view_lookup(1,2) [OF w0(1) assms(1) w0(3)] by (simp add: is_pending_def is_quarantined_def)
  ultimately have "apply_recovered record_ack (ack_json i) (int (record_header_bytes + length (ack_json i))) w0
      = Inr (remove_active i w0)"
    by (auto simp: apply_recovered_def decode_ack_json)
  moreover have "view (remove_active i w0) = view (remove_active i w)"
    using remove_active_view [OF w0(1)] remove_active_view [OF assms(1)] w0(3) by simp
  moreover have "w_seen (remove_active i w0) \<subseteq> w_seen (remove_active i w)"
    "w_max_record (remove_active i w0) = w_max_record (remove_active i w)"
    using w0(2,4) by (auto simp: remove_active_def)
  ultimately show "\<exists>w1. apply_recovered record_ack (ack_json i) (int (record_header_bytes + length (ack_json i))) w0
      = Inr w1 \<and> wal_wf w1 \<and> w_max_record w1 = w_max_record (remove_active i w) \<and>
      view w1 = view (remove_active i w) \<and> w_seen w1 \<subseteq> w_seen (remove_active i w)"
    using remove_active_wf [OF w0(1)] by blast
qed

lemma replay_quarantine:
  assumes "wal_wf w" "fmlookup (w_pending w) i = Some (q_commit q)" "quarantine_ok (w_max_record w) i q"
    and "quarantine_json (quarantine_of i q) = Some body"
  shows "replay_step record_quarantine body w (apply_quarantine q w)"
  unfolding replay_step_def
proof (intro allI impI)
  fix w0 assume w0: "wal_wf w0" "w_max_record w0 = w_max_record w" "view w0 = view w" "w_seen w0 \<subseteq> w_seen w"
  have p: "fmlookup (w_pending w0) i = Some (q_commit q)"
    using view_lookup(1) [OF w0(1) assms(1) w0(3)] assms(2) by simp
  have "quarantine_good (quarantine_of i q)" "400 \<le> q_http_code q" "\<not> is_zero (q_quarantined_at q)"
    using assms(3) by (auto simp: quarantine_ok_def)
  moreover from this(1) have "decode_quarantine body = Some (quarantine_of i q)"
    using assms(4) by (rule quarantine_codec.dec_enc)
  ultimately have "apply_recovered record_quarantine body (int (record_header_bytes + length body)) w0
      = Inr (apply_quarantine q w0)"
    using p by (cases q) (simp add: apply_recovered_def quarantine_of_def)
  moreover have "view (apply_quarantine q w0) = view (apply_quarantine q w)"
    using apply_quarantine_view [OF w0(1) p] apply_quarantine_view [OF assms(1,2)] w0(3) by simp
  moreover have "wal_wf (apply_quarantine q w0)"
    by (rule apply_quarantine_wf [OF w0(1) p]) (simp add: w0(2) assms(3))
  moreover have "w_seen (apply_quarantine q w0) \<subseteq> w_seen (apply_quarantine q w)"
    "w_max_record (apply_quarantine q w0) = w_max_record (apply_quarantine q w)"
    using w0(2,4) by (auto simp: apply_quarantine_def)
  ultimately show "\<exists>w1. apply_recovered record_quarantine body (int (record_header_bytes + length body)) w0 = Inr w1 \<and>
      wal_wf w1 \<and> w_max_record w1 = w_max_record (apply_quarantine q w) \<and>
      view w1 = view (apply_quarantine q w) \<and> w_seen w1 \<subseteq> w_seen (apply_quarantine q w)"
    by blast
qed

lemma replay_checkpoint:
  assumes "wal_wf w" "checkpoint_ok (w_max_record w) c" "checkpoint_json c = Some body"
  shows "replay_step record_checkpoint body w (set_checkpoint c w)"
  unfolding replay_step_def
proof (intro allI impI)
  fix w0 assume w0: "wal_wf w0" "w_max_record w0 = w_max_record w" "view w0 = view w" "w_seen w0 \<subseteq> w_seen w"
  have "checkpoint_good c" "validate_checkpoint c = None" using assms(2) by (auto simp: checkpoint_ok_def)
  moreover from this(1) have "decode_checkpoint body = Some c" using assms(3) by (rule checkpoint_codec.dec_enc)
  ultimately have "apply_recovered record_checkpoint body (int (record_header_bytes + length body)) w0
      = Inr (set_checkpoint c w0)"
    by (simp add: apply_recovered_def)
  moreover have "wal_wf (set_checkpoint c w0)"
    by (rule set_checkpoint_wf [OF w0(1)]) (simp add: w0(2) assms(2))
  moreover have "w_seen (set_checkpoint c w0) \<subseteq> w_seen (set_checkpoint c w)"
    "w_max_record (set_checkpoint c w0) = w_max_record (set_checkpoint c w)"
    using w0(2,4) by (auto simp: set_checkpoint_def)
  ultimately show "\<exists>w1. apply_recovered record_checkpoint body (int (record_header_bytes + length body)) w0 = Inr w1 \<and>
      wal_wf w1 \<and> w_max_record w1 = w_max_record (set_checkpoint c w) \<and>
      view w1 = view (set_checkpoint c w) \<and> w_seen w1 \<subseteq> w_seen (set_checkpoint c w)"
    using w0(3) by auto
qed

section \<open>Durability\<close>

text \<open>
  The log of \<open>w\<close> replays, from the empty index of any configuration with the same record limit, to an
  index with the view of \<open>w\<close>.
\<close>

definition durable :: "wal \<Rightarrow> bool" where
  "durable w \<longleftrightarrow> wal_wf w \<and>
     (\<forall>c d. sc_max_record_bytes c = w_max_record w \<longrightarrow> replays_to (empty_wal c d) (wal_file w) w)"

lemma durable_wf: "durable w \<Longrightarrow> wal_wf w"
  by (simp add: durable_def)

lemma wal_file_set_file [simp]: "wal_file (set_file b w) = b"
  by (simp add: wal_file_def set_file_def)

lemma wal_file_signal [simp]: "wal_file (signal w) = wal_file w"
  by (simp add: wal_file_def signal_def)

lemma wal_file_apply [simp]:
  "wal_file (apply_commit c n w) = wal_file w" "wal_file (remove_active i w) = wal_file w"
  "wal_file (apply_quarantine q w) = wal_file w" "wal_file (set_checkpoint p w) = wal_file w"
  by (simp_all add: wal_file_def apply_commit_def remove_active_def apply_quarantine_def set_checkpoint_def)

lemma w_max_record_apply [simp]:
  "w_max_record (apply_commit c n w) = w_max_record w" "w_max_record (remove_active i w) = w_max_record w"
  "w_max_record (apply_quarantine q w) = w_max_record w" "w_max_record (set_checkpoint p w) = w_max_record w"
  "w_max_record (set_file b w) = w_max_record w" "w_max_record (signal w) = w_max_record w"
  by (simp_all add: apply_commit_def remove_active_def apply_quarantine_def set_checkpoint_def set_file_def signal_def)

text \<open>
  How an append ends: it fails and leaves the state (if its rollback worked), or the framed record is at
  the end of the file and the index is untouched.
\<close>

definition io_recovers :: "append_io \<Rightarrow> bool" where
  "io_recovers io \<longleftrightarrow> (case io of IoWriteFails _ t \<Rightarrow> t | IoSyncFails t \<Rightarrow> t | _ \<Rightarrow> True)"

lemma append_record_failed:
  assumes "append_record io kind body w = (w', Some e)" "io_recovers io" "d_main (w_dir w) \<noteq> None"
  shows "w' = w"
  using assms
  by (auto simp: append_record_def io_recovers_def rollback_append_def set_file_def wal_file_def
      split: if_splits option.splits append_io.splits)

lemma append_record_done:
  assumes "append_record io kind body w = (w', None)"
  obtains r where "frame_record kind body = Some r" "w' = set_file (wal_file w @ r) w"
  using assms by (auto simp: append_record_def split: if_splits option.splits append_io.splits)

lemma durable_append:
  assumes "durable w" "frame_record kind body = Some r" "int (length body) \<le> w_max_record w"
    and "replay_step kind body w w1" "wal_wf w1" "w_max_record w1 = w_max_record w"
    and "view w' = view w1" "wal_file w' = wal_file w @ r" "wal_wf w'" "w_max_record w' = w_max_record w"
    and "w_seen w1 \<subseteq> w_seen w'"
  shows "durable w'"
  unfolding durable_def
proof (intro conjI allI impI)
  fix c :: spool_config and d :: spool_dir assume "sc_max_record_bytes c = w_max_record w'"
  then have "replays_to (empty_wal c d) (wal_file w) w" using assms(1,10) by (simp add: durable_def)
  then have "replays_to (empty_wal c d) (wal_file w @ r) w1"
    using assms(2-4) by (rule replays_to_append)
  then show "replays_to (empty_wal c d) (wal_file w') w'"
    unfolding assms(8) by (rule replays_to_cong) (simp_all add: assms)
qed (rule assms(9))

section \<open>Operations\<close>

definition opened :: "wal \<Rightarrow> bool" where
  "opened w \<longleftrightarrow> d_main (w_dir w) \<noteq> None"

lemma opened_simps [simp]:
  "opened (set_file b w)" "opened (signal w) = opened w" "opened (apply_commit c n w) = opened w"
  "opened (remove_active i w) = opened w" "opened (apply_quarantine q w) = opened w"
  "opened (set_checkpoint p w) = opened w"
  by (simp_all add: opened_def set_file_def signal_def apply_commit_def remove_active_def apply_quarantine_def
      set_checkpoint_def)

lemma index_set_file [simp]:
  "view (apply_commit c n (set_file b w)) = view (apply_commit c n w)"
  "view (remove_active i (set_file b w)) = view (remove_active i w)"
  "view (apply_quarantine q (set_file b w)) = view (apply_quarantine q w)"
  "wal_wf (apply_commit c n (set_file b w)) = wal_wf (apply_commit c n w)"
  "wal_wf (remove_active i (set_file b w)) = wal_wf (remove_active i w)"
  "wal_wf (apply_quarantine q (set_file b w)) = wal_wf (apply_quarantine q w)"
  "wal_wf (set_checkpoint p (set_file b w)) = wal_wf (set_checkpoint p w)"
proof -
  have "apply_commit c n (set_file b w) = set_file b (apply_commit c n w)"
    "remove_active i (set_file b w) = set_file b (remove_active i w)"
    "apply_quarantine q (set_file b w) = set_file b (apply_quarantine q w)"
    "set_checkpoint p (set_file b w) = set_file b (set_checkpoint p w)"
    by (simp_all add: apply_commit_def remove_active_def apply_quarantine_def set_checkpoint_def set_file_def
        size_of_def)
  then show "view (apply_commit c n (set_file b w)) = view (apply_commit c n w)"
    "view (remove_active i (set_file b w)) = view (remove_active i w)"
    "view (apply_quarantine q (set_file b w)) = view (apply_quarantine q w)"
    "wal_wf (apply_commit c n (set_file b w)) = wal_wf (apply_commit c n w)"
    "wal_wf (remove_active i (set_file b w)) = wal_wf (remove_active i w)"
    "wal_wf (apply_quarantine q (set_file b w)) = wal_wf (apply_quarantine q w)"
    "wal_wf (set_checkpoint p (set_file b w)) = wal_wf (set_checkpoint p w)"
    by simp_all
qed

lemma w_seen_simps [simp]:
  "w_seen (set_file b w) = w_seen w" "w_seen (signal w) = w_seen w"
  "w_seen (apply_commit c n w) = insert (cm_batch_id c) (w_seen w)" "w_seen (remove_active i w) = w_seen w"
  "w_seen (apply_quarantine q w) = w_seen w" "w_seen (set_checkpoint p w) = w_seen w"
  by (simp_all add: set_file_def signal_def apply_commit_def remove_active_def apply_quarantine_def set_checkpoint_def)

definition option_list :: "'a option \<Rightarrow> 'a list" where
  "option_list x = (case x of None \<Rightarrow> [] | Some y \<Rightarrow> [y])"

lemma wal_commit_durable:
  assumes "durable w" "opened w" "io_recovers io" "commit_good c" "wal_commit x io c w = (w', r)"
  shows "durable w' \<and> opened w' \<and> view w' = (case r of Inl _ \<Rightarrow> view w | Inr _ \<Rightarrow> view_commit c (view w))"
proof (cases r)
  case (Inl e)
  then have "w' = w"
    using assms(2,3,5) append_record_failed
    by (auto simp: wal_commit_def Let_def opened_def split: if_splits sum.splits prod.splits option.splits)
  with assms(1,2) Inl show ?thesis by simp
next
  case (Inr u)
  then obtain body w1 where enc: "encode_commit c = Inr body" and len: "int (length body) \<le> w_max_record w"
    and fresh: "cm_batch_id c \<notin> w_seen w" and app: "append_record io record_commit body w = (w1, None)"
    and w': "w' = signal (apply_commit c (commit_size c) w1)"
    using assms(5) by (auto simp: wal_commit_def Let_def commit_size_def split: if_splits sum.splits prod.splits option.splits)
  obtain rec where rec: "frame_record record_commit body = Some rec" and w1: "w1 = set_file (wal_file w @ rec) w"
    by (rule append_record_done [OF app])
  have wf: "wal_wf w" by (rule durable_wf [OF assms(1)])
  have st: "storable (w_max_record w) c" using assms(4) enc len by (auto simp: storable_def)
  have wfc: "wal_wf (apply_commit c (commit_size c) w)"
    by (rule apply_commit_wf [OF wf fresh st storable_checkpoint [OF st] refl])
  have "durable w'"
    by (rule durable_append [OF assms(1) rec len replay_commit [OF wf fresh st enc] wfc])
       (simp_all add: w' w1 wfc)
  then show ?thesis
    using apply_commit_view [OF wf fresh, of "commit_size c"] Inr by (simp add: w' w1)
qed

text \<open>
  \<open>Quarantine\<close> and \<open>Transition\<close> append their record without comparing it with \<open>maxRecordBytes\<close>, the limit
  that recovery enforces: what they append has to fit.
\<close>

definition checkpoint_fits :: "int \<Rightarrow> checkpoint \<Rightarrow> bool" where
  "checkpoint_fits m c \<longleftrightarrow> checkpoint_good c \<and> list_all (\<lambda>b. int (length b) \<le> m) (option_list (checkpoint_json c))"

definition quarantine_fits :: "int \<Rightarrow> quarantine_record \<Rightarrow> bool" where
  "quarantine_fits m r \<longleftrightarrow> quarantine_good r \<and> list_all (\<lambda>b. int (length b) \<le> m) (option_list (quarantine_json r))"

lemma wal_transition_durable:
  assumes "durable w" "opened w" "io_recovers io" "checkpoint_fits (w_max_record w) nxt"
    "wal_transition x io expected nxt w = (w', r)"
  shows "durable w' \<and> opened w' \<and> view w' = (case r of Inl _ \<Rightarrow> view w | Inr _ \<Rightarrow> view_checkpoint nxt (view w))"
proof (cases r)
  case (Inl e)
  then have "w' = w"
    using assms(2,3,5) append_record_failed
    by (auto simp: wal_transition_def Let_def opened_def split: if_splits sum.splits prod.splits option.splits)
  with assms(1,2) Inl show ?thesis by simp
next
  case (Inr u)
  then obtain body w1 where val: "validate_checkpoint nxt = None" and enc: "checkpoint_json nxt = Some body"
    and app: "append_record io record_checkpoint body w = (w1, None)" and w': "w' = signal (set_checkpoint nxt w1)"
    using assms(5) by (auto simp: wal_transition_def split: if_splits sum.splits prod.splits option.splits)
  have len: "int (length body) \<le> w_max_record w" using assms(4) enc by (simp add: checkpoint_fits_def option_list_def)
  have ok: "checkpoint_ok (w_max_record w) nxt"
    using assms(4) enc len val by (simp add: checkpoint_ok_def checkpoint_fits_def)
  obtain rec where rec: "frame_record record_checkpoint body = Some rec" and w1: "w1 = set_file (wal_file w @ rec) w"
    by (rule append_record_done [OF app])
  have wf: "wal_wf w" by (rule durable_wf [OF assms(1)])
  have wfc: "wal_wf (set_checkpoint nxt w)" by (rule set_checkpoint_wf [OF wf ok])
  have "durable w'"
    by (rule durable_append [OF assms(1) rec len replay_checkpoint [OF wf ok enc] wfc])
       (simp_all add: w' w1 wfc)
  then show ?thesis using Inr by (simp add: w' w1)
qed

lemma wal_quarantine_durable:
  assumes "durable w" "opened w" "io_recovers io"
    and "quarantine_fits (w_max_record w)
      \<lparr>qr_batch_id = i, qr_http_code = code, qr_error_code = trim_space err, qr_quarantined_at = tm\<rparr>"
    and "wal_quarantine x io i code err tm w = (w', r)"
  shows "durable w' \<and> opened w' \<and>
    view w' = (case r of Inl _ \<Rightarrow> view w | Inr q \<Rightarrow> if is_pending i w then view_quarantine q (view w) else view w)"
proof -
  have wf: "wal_wf w" by (rule durable_wf [OF assms(1)])
  consider (same) "w' = w" "isl r \<or> \<not> is_pending i w"
    | (moved) c body w1 where "fmlookup (w_pending w) i = Some c" "400 \<le> code \<and> \<not> is_zero tm"
      "quarantine_json \<lparr>qr_batch_id = i, qr_http_code = code, qr_error_code = trim_space err, qr_quarantined_at = tm\<rparr>
        = Some body"
      "append_record io record_quarantine body w = (w1, None)"
      "r = Inr \<lparr>q_commit = c, q_http_code = code, q_error_code = trim_space err, q_quarantined_at = tm\<rparr>"
      "w' = signal (apply_quarantine (projr r) w1)"
    using assms(2,3,5) append_record_failed
    by (auto simp: wal_quarantine_def Let_def is_pending_def opened_def split: if_splits option.splits prod.splits)
  then show ?thesis
  proof cases
    case same
    with assms(1,2) show ?thesis by (auto split: sum.splits)
  next
    case moved
    define q where "q = \<lparr>q_commit = c, q_http_code = code, q_error_code = trim_space err, q_quarantined_at = tm\<rparr>"
    have p: "fmlookup (w_pending w) i = Some (q_commit q)" using moved(1) by (simp add: q_def)
    have enc: "quarantine_json (quarantine_of i q) = Some body" using moved(3) by (simp add: quarantine_of_def q_def)
    have fits: "quarantine_fits (w_max_record w) (quarantine_of i q)" using assms(4) by (simp add: quarantine_of_def q_def)
    then have len: "int (length body) \<le> w_max_record w" using enc by (simp add: quarantine_fits_def option_list_def)
    have qo: "quarantine_ok (w_max_record w) i q"
      using fits enc len moved(2) by (simp add: quarantine_ok_def quarantine_fits_def q_def)
    obtain rec where rec: "frame_record record_quarantine body = Some rec" and w1: "w1 = set_file (wal_file w @ rec) w"
      by (rule append_record_done [OF moved(4)])
    have w': "w' = signal (apply_quarantine q w1)" "r = Inr q" using moved(5,6) by (simp_all add: q_def)
    have wfc: "wal_wf (apply_quarantine q w)" by (rule apply_quarantine_wf [OF wf p qo])
    have "durable w'"
      by (rule durable_append [OF assms(1) rec len replay_quarantine [OF wf p qo enc] wfc])
         (simp_all add: w'(1) w1 wfc)
    then show ?thesis
      using apply_quarantine_view [OF wf p] p w'(2) by (simp add: w'(1) w1 is_pending_def)
  qed
qed

end
