(* ===== verification/Spool_Snapshot.thy ===== *)
theory Spool_Snapshot
  imports Spool_Durable
begin

text \<open>
  Compaction keeps the spool: the snapshot replays to the same pending queue, quarantine and checkpoints,
  the replacement of the log can stop after any of its system calls, and \<open>recoverReplacement\<close> then
  finds the old or the new log. \<open>Ack\<close> is durable, and so is every sequence of operations.
\<close>

section \<open>The snapshot\<close>

lemma collect_Cons: "collect (x # xs) = Inr rs \<longleftrightarrow> (\<exists>y ys. x = Inr y \<and> collect xs = Inr ys \<and> rs = y # ys)"
  by (cases x) (auto split: sum.splits)

lemma collect_append:
  "collect (xs @ ys) = Inr rs \<longleftrightarrow> (\<exists>r1 r2. collect xs = Inr r1 \<and> collect ys = Inr r2 \<and> rs = r1 @ r2)"
proof (induction xs arbitrary: rs)
  case (Cons x xs)
  show ?case by (simp only: append_Cons collect_Cons Cons.IH) (metis (no_types, lifting) append_Cons)
qed simp

lemma framed_Inr: "framed kind e = Inr r \<longleftrightarrow> (\<exists>body. e = Inr body \<and> frame_record kind body = Some r)"
  by (auto simp: framed_def of_option_def split: sum.splits option.splits)

lemma of_option_Inr [simp]: "of_option e x = Inr y \<longleftrightarrow> x = Some y"
  by (auto simp: of_option_def split: option.splits)

text \<open>An index that the log written so far replays to.\<close>

definition built :: "wal \<Rightarrow> int \<Rightarrow> bytes \<Rightarrow> wal \<Rightarrow> bool" where
  "built start m b w \<longleftrightarrow> replays_to start b w \<and> wal_wf w \<and> w_max_record w = m"

lemma built_commit:
  assumes "built s m b w" "storable m c" "cm_batch_id c \<notin> w_seen w"
    "framed record_commit (encode_commit c) = Inr r"
  shows "\<exists>w'. built s m (b @ r) w' \<and> view w' = view_commit c (view w) \<and> w_seen w' = insert (cm_batch_id c) (w_seen w) \<and>
    fmlookup (w_pending w') (cm_batch_id c) = Some c"
proof -
  have w: "replays_to s b w" "wal_wf w" "w_max_record w = m" using assms(1) by (auto simp: built_def)
  obtain body where body: "encode_commit c = Inr body" "frame_record record_commit body = Some r"
    using assms(4) by (auto simp: framed_Inr)
  have st: "storable (w_max_record w) c" using assms(2) w(3) by simp
  have len: "int (length body) \<le> w_max_record w" using st body(1) by (auto simp: storable_def)
  have "replays_to s (b @ r) (apply_commit c (commit_size c) w)"
    by (rule replays_to_append [OF w(1) body(2) len replay_commit [OF w(2) assms(3) st body(1)]])
  moreover have "wal_wf (apply_commit c (commit_size c) w)"
    by (rule apply_commit_wf [OF w(2) assms(3) st storable_checkpoint [OF st] refl])
  moreover have "fmlookup (w_pending (apply_commit c (commit_size c) w)) (cm_batch_id c) = Some c"
    by (simp add: apply_commit_def)
  ultimately show ?thesis
    using apply_commit_view [OF w(2) assms(3)] w(3)
    by (intro exI [of _ "apply_commit c (commit_size c) w"]) (simp add: built_def)
qed

lemma built_pending:
  assumes "built s m b w" "\<forall>c \<in> set cs. storable m c" "distinct (map cm_batch_id cs)"
    "set (map cm_batch_id cs) \<inter> w_seen w = {}"
    "collect (map (\<lambda>c. framed record_commit (encode_commit c)) cs) = Inr rs"
  shows "\<exists>w'. built s m (b @ concat rs) w' \<and> view w' = fold view_commit cs (view w) \<and>
    w_seen w' = set (map cm_batch_id cs) \<union> w_seen w"
  using assms
proof (induction cs arbitrary: b w rs)
  case Nil
  then show ?case by auto
next
  case (Cons c cs)
  obtain r rs' where r: "framed record_commit (encode_commit c) = Inr r" "rs = r # rs'"
    "collect (map (\<lambda>c. framed record_commit (encode_commit c)) cs) = Inr rs'"
    using Cons.prems(5) by (auto simp: collect_Cons)
  obtain w1 where w1: "built s m (b @ r) w1" "view w1 = view_commit c (view w)"
    "w_seen w1 = insert (cm_batch_id c) (w_seen w)"
    using built_commit [OF Cons.prems(1) _ _ r(1)] Cons.prems(2,4) by auto
  have "\<exists>w'. built s m ((b @ r) @ concat rs') w' \<and> view w' = fold view_commit cs (view w1) \<and>
      w_seen w' = set (map cm_batch_id cs) \<union> w_seen w1"
    by (rule Cons.IH [OF w1(1) _ _ _ r(3)]) (use Cons.prems(2-4) w1(3) in auto)
  with w1 r(2) show ?case by auto
qed

definition view_dead :: "quarantined \<Rightarrow> spool_view \<Rightarrow> spool_view" where
  "view_dead q v = view_quarantine q (view_commit (q_commit q) v)"

lemma built_dead:
  assumes "built s m b w" "storable m (q_commit q)" "quarantine_ok m (cm_batch_id (q_commit q)) q"
    "cm_batch_id (q_commit q) \<notin> w_seen w" "framed record_commit (encode_commit (q_commit q)) = Inr r1"
    "framed record_quarantine (of_option ErrMarshal (quarantine_json (quarantine_of (cm_batch_id (q_commit q)) q))) = Inr r2"
  shows "\<exists>w'. built s m (b @ r1 @ r2) w' \<and> view w' = view_dead q (view w) \<and>
    w_seen w' = insert (cm_batch_id (q_commit q)) (w_seen w)"
proof -
  let ?i = "cm_batch_id (q_commit q)"
  obtain w1 where w1: "built s m (b @ r1) w1" "view w1 = view_commit (q_commit q) (view w)"
    "w_seen w1 = insert ?i (w_seen w)" "fmlookup (w_pending w1) ?i = Some (q_commit q)"
    using built_commit [OF assms(1,2,4,5)] by blast
  have wf: "wal_wf w1" "w_max_record w1 = m" "replays_to s (b @ r1) w1" using w1(1) by (auto simp: built_def)
  obtain body where body: "quarantine_json (quarantine_of ?i q) = Some body"
    "frame_record record_quarantine body = Some r2"
    using assms(6) by (auto simp: framed_Inr)
  have qo: "quarantine_ok (w_max_record w1) ?i q" using assms(3) wf(2) by simp
  have len: "int (length body) \<le> w_max_record w1" using qo body(1) by (auto simp: quarantine_ok_def)
  have "replays_to s ((b @ r1) @ r2) (apply_quarantine q w1)"
    by (rule replays_to_append [OF wf(3) body(2) len replay_quarantine [OF wf(1) w1(4) qo body(1)]])
  then show ?thesis
    using apply_quarantine_view [OF wf(1) w1(4)] apply_quarantine_wf [OF wf(1) w1(4) qo] w1 wf(2)
    by (intro exI [of _ "apply_quarantine q w1"]) (simp add: built_def view_dead_def)
qed

definition dead_records :: "quarantined \<Rightarrow> (spool_error + bytes) list" where
  "dead_records q =
     [framed record_commit (encode_commit (q_commit q)),
      framed record_quarantine (of_option ErrMarshal (quarantine_json (quarantine_of (cm_batch_id (q_commit q)) q)))]"

lemma snapshot_quarantined_list:
  assumes "wal_wf w"
  shows "snapshot_quarantined w = concat (map dead_records (wal_quarantined w))"
proof -
  have "concat (map (\<lambda>i. case fmlookup (w_quarantined w) i of None \<Rightarrow> []
       | Some q \<Rightarrow> [framed record_commit (encode_commit (q_commit q)),
                    framed record_quarantine (of_option ErrMarshal (quarantine_json (quarantine_of i q)))]) js)
    = concat (map dead_records (List.map_filter (fmlookup (w_quarantined w)) js))" for js
    using wal_wfD(7) [OF assms] by (induction js) (auto simp: dead_records_def split: option.splits)
  then show ?thesis by (simp add: snapshot_quarantined_def wal_quarantined_def)
qed

lemma built_quarantined:
  assumes "built s m b w" "\<forall>q \<in> set qs. storable m (q_commit q) \<and> quarantine_ok m (cm_batch_id (q_commit q)) q"
    "distinct (map (\<lambda>q. cm_batch_id (q_commit q)) qs)"
    "set (map (\<lambda>q. cm_batch_id (q_commit q)) qs) \<inter> w_seen w = {}"
    "collect (concat (map dead_records qs)) = Inr rs"
  shows "\<exists>w'. built s m (b @ concat rs) w' \<and> view w' = fold view_dead qs (view w) \<and>
    w_seen w' = set (map (\<lambda>q. cm_batch_id (q_commit q)) qs) \<union> w_seen w"
  using assms
proof (induction qs arbitrary: b w rs)
  case Nil
  then show ?case by auto
next
  case (Cons q qs)
  obtain r1 r2 rs' where r: "framed record_commit (encode_commit (q_commit q)) = Inr r1"
    "framed record_quarantine (of_option ErrMarshal (quarantine_json (quarantine_of (cm_batch_id (q_commit q)) q))) = Inr r2"
    "rs = r1 # r2 # rs'" "collect (concat (map dead_records qs)) = Inr rs'"
    using Cons.prems(5) by (auto simp: collect_append dead_records_def [of q] collect_Cons)
  obtain w1 where w1: "built s m (b @ r1 @ r2) w1" "view w1 = view_dead q (view w)"
    "w_seen w1 = insert (cm_batch_id (q_commit q)) (w_seen w)"
    using built_dead [OF Cons.prems(1) _ _ _ r(1,2)] Cons.prems(2,4) by auto
  have "\<exists>w'. built s m ((b @ r1 @ r2) @ concat rs') w' \<and> view w' = fold view_dead qs (view w1) \<and>
      w_seen w' = set (map (\<lambda>q. cm_batch_id (q_commit q)) qs) \<union> w_seen w1"
    by (rule Cons.IH [OF w1(1) _ _ _ r(4)]) (use Cons.prems(2-4) w1(3) in auto)
  with w1 r(3) show ?case by auto
qed

lemma built_checkpoints:
  assumes "built s m b w" "\<forall>c \<in> set cs. checkpoint_ok m c"
    "collect (map (\<lambda>c. framed record_checkpoint (of_option ErrMarshal (checkpoint_json c))) cs) = Inr rs"
  shows "\<exists>w'. built s m (b @ concat rs) w' \<and> view w' = fold view_checkpoint cs (view w) \<and> w_seen w' = w_seen w"
  using assms
proof (induction cs arbitrary: b w rs)
  case Nil
  then show ?case by auto
next
  case (Cons c cs)
  obtain body r rs' where r: "checkpoint_json c = Some body" "frame_record record_checkpoint body = Some r"
    "rs = r # rs'" "collect (map (\<lambda>c. framed record_checkpoint (of_option ErrMarshal (checkpoint_json c))) cs) = Inr rs'"
    using Cons.prems(3) by (auto simp: collect_Cons framed_Inr)
  have w: "replays_to s b w" "wal_wf w" "w_max_record w = m" using Cons.prems(1) by (auto simp: built_def)
  have ok: "checkpoint_ok (w_max_record w) c" using Cons.prems(2) w(3) by simp
  have len: "int (length body) \<le> w_max_record w" using ok r(1) by (auto simp: checkpoint_ok_def)
  have "replays_to s (b @ r) (set_checkpoint c w)"
    by (rule replays_to_append [OF w(1) r(2) len replay_checkpoint [OF w(2) ok r(1)]])
  then have "built s m (b @ r) (set_checkpoint c w)"
    using set_checkpoint_wf [OF w(2) ok] w(3) by (simp add: built_def)
  from Cons.IH [OF this _ r(4)] Cons.prems(2) r(3) show ?case by auto
qed

subsection \<open>The snapshot has the view of the index\<close>

lemma fold_view_commit:
  "v_pending (fold view_commit cs v) = v_pending v @ cs" "v_quarantined (fold view_commit cs v) = v_quarantined v"
  by (induction cs arbitrary: v) (simp_all add: view_commit_def)

lemma fold_view_checkpoint:
  "v_pending (fold view_checkpoint cs v) = v_pending v" "v_quarantined (fold view_checkpoint cs v) = v_quarantined v"
  by (induction cs arbitrary: v) (simp_all add: view_checkpoint_def)

lemma fold_view_dead:
  assumes "\<forall>q \<in> set qs. \<forall>c \<in> set (v_pending v). cm_batch_id c \<noteq> cm_batch_id (q_commit q)"
  shows "v_pending (fold view_dead qs v) = v_pending v" "v_quarantined (fold view_dead qs v) = v_quarantined v @ qs"
proof -
  have "v_pending (fold view_dead qs v) = v_pending v \<and> v_quarantined (fold view_dead qs v) = v_quarantined v @ qs"
    using assms
  proof (induction qs arbitrary: v)
    case (Cons q qs)
    have "v_pending (view_dead q v) = v_pending v"
      using Cons.prems by (auto simp: view_dead_def view_quarantine_def view_commit_def filter_id_conv)
    with Cons.IH [of "view_dead q v"] Cons.prems show ?case
      by (simp add: view_dead_def view_quarantine_def view_commit_def)
  qed simp
  then show "v_pending (fold view_dead qs v) = v_pending v" "v_quarantined (fold view_dead qs v) = v_quarantined v @ qs"
    by auto
qed

text \<open>Replaying commits sets no checkpoint of a source that has none.\<close>

definition keys_within :: "(string, checkpoint) fmap \<Rightarrow> spool_view \<Rightarrow> bool" where
  "keys_within m v \<longleftrightarrow> (\<forall>k. fmlookup m k = None \<longrightarrow> fmlookup (v_checkpoints v) k = None)"

lemma keys_within_commits:
  "keys_within m v \<Longrightarrow> \<forall>c \<in> set cs. fmlookup m (cp_source_key (cm_checkpoint c)) \<noteq> None \<Longrightarrow>
     keys_within m (fold view_commit cs v)"
  by (induction cs arbitrary: v) (auto simp: keys_within_def view_commit_def)

lemma keys_within_dead:
  "keys_within m v \<Longrightarrow> \<forall>q \<in> set qs. fmlookup m (cp_source_key (cm_checkpoint (q_commit q))) \<noteq> None \<Longrightarrow>
     keys_within m (fold view_dead qs v)"
  by (induction qs arbitrary: v) (auto simp: keys_within_def view_dead_def view_commit_def view_quarantine_def)

lemma fold_checkpoints_lookup:
  assumes "\<forall>c \<in> set cs. fmlookup m (cp_source_key c) = Some c"
  shows "fmlookup (v_checkpoints (fold view_checkpoint cs v)) k =
    (if k \<in> cp_source_key ` set cs then fmlookup m k else fmlookup (v_checkpoints v) k)"
  using assms
proof (induction cs arbitrary: v)
  case (Cons c cs)
  then have "fmlookup (v_checkpoints (fold view_checkpoint cs (view_checkpoint c v))) k =
    (if k \<in> cp_source_key ` set cs then fmlookup m k else fmlookup (v_checkpoints (view_checkpoint c v)) k)"
    by simp
  moreover have "v_checkpoints (view_checkpoint c v) = fmupd (cp_source_key c) c (v_checkpoints v)"
    by (simp add: view_checkpoint_def)
  ultimately show ?case using Cons.prems by simp (intro impI, simp)
qed simp

lemma distinct_pending_ids:
  assumes "wal_wf w"
  shows "distinct (map cm_batch_id (wal_pending w))" "set (map cm_batch_id (wal_pending w)) \<subseteq> w_seen w"
proof -
  have "map cm_batch_id (List.map_filter (fmlookup (w_pending w)) js) = filter (\<lambda>j. is_pending j w) js" for js
    using wal_wfD(6) [OF assms] by (induction js) (auto simp: is_pending_def split: option.splits)
  then show "distinct (map cm_batch_id (wal_pending w))" "set (map cm_batch_id (wal_pending w)) \<subseteq> w_seen w"
    using wal_wfD(1,2) [OF assms] by (auto simp: wal_pending_def)
qed

lemma distinct_quarantined_ids:
  assumes "wal_wf w"
  shows "distinct (map (\<lambda>q. cm_batch_id (q_commit q)) (wal_quarantined w))"
    "set (map (\<lambda>q. cm_batch_id (q_commit q)) (wal_quarantined w)) \<subseteq> w_seen w"
proof -
  have "map (\<lambda>q. cm_batch_id (q_commit q)) (List.map_filter (fmlookup (w_quarantined w)) js)
      = filter (\<lambda>j. is_quarantined j w) js" for js
    using wal_wfD(7) [OF assms] by (induction js) (auto simp: is_quarantined_def split: option.splits)
  then show "distinct (map (\<lambda>q. cm_batch_id (q_commit q)) (wal_quarantined w))"
    "set (map (\<lambda>q. cm_batch_id (q_commit q)) (wal_quarantined w)) \<subseteq> w_seen w"
    using wal_wfD(3,4) [OF assms] by (auto simp: wal_quarantined_def)
qed

lemma pending_quarantined_disjoint:
  assumes "wal_wf w" "c \<in> set (wal_pending w)" "q \<in> set (wal_quarantined w)"
  shows "cm_batch_id c \<noteq> cm_batch_id (q_commit q)"
proof
  assume e: "cm_batch_id c = cm_batch_id (q_commit q)"
  have "fmlookup (w_pending w) (cm_batch_id c) = Some c" using pending_list_iff [OF assms(1)] assms(2) by blast
  moreover have "fmlookup (w_quarantined w) (cm_batch_id (q_commit q)) = Some q"
    using quarantined_list_iff [OF assms(1)] assms(3) by blast
  then have "cm_batch_id (q_commit q) \<in> set (w_quarantine_order w)" using wal_wfD(7) [OF assms(1)] by blast
  then have "fmlookup (w_pending w) (cm_batch_id c) = None" using wal_wfD(5) [OF assms(1)] e by simp
  ultimately show False by simp
qed

lemma snapshot_checkpoint_list:
  "set (List.map_filter (fmlookup (w_checkpoints w)) (checkpoint_keys w)) = {c. \<exists>k. fmlookup (w_checkpoints w) k = Some c}"
  by (auto simp: List.map_filter_def checkpoint_keys_def image_iff) (metis fmdomI option.sel)

lemma snapshot_replays:
  assumes wf: "wal_wf w" and snap: "snapshot w = Inr b" and m: "sc_max_record_bytes c = w_max_record w"
  shows "replays_to (empty_wal c d) b w"
proof -
  let ?m = "w_max_record w" and ?e = "empty_wal c d" and ?M = "w_checkpoints w"
  let ?cps = "List.map_filter (fmlookup ?M) (checkpoint_keys w)"
  obtain r1 r2 r3 where r: "collect (map (\<lambda>c. framed record_commit (encode_commit c)) (wal_pending w)) = Inr r1"
    "collect (concat (map dead_records (wal_quarantined w))) = Inr r2"
    "collect (map (\<lambda>c. framed record_checkpoint (of_option ErrMarshal (checkpoint_json c))) ?cps) = Inr r3"
    "b = concat r1 @ concat r2 @ concat r3"
    using snap by (auto simp: snapshot_def snapshot_pending_def snapshot_checkpoints_def collect_append
        snapshot_quarantined_list [OF wf] split: sum.splits)
  have P: "\<And>c. c \<in> set (wal_pending w) \<Longrightarrow> storable ?m c \<and> has_key w c"
    using pending_list_iff [OF wf] wal_wfD(6) [OF wf] by blast
  have Q: "\<And>q. q \<in> set (wal_quarantined w) \<Longrightarrow> storable ?m (q_commit q) \<and>
      quarantine_ok ?m (cm_batch_id (q_commit q)) q \<and> has_key w (q_commit q)"
    using quarantined_list_iff [OF wf] wal_wfD(7) [OF wf] by blast
  have C: "\<And>c. c \<in> set ?cps \<Longrightarrow> fmlookup ?M (cp_source_key c) = Some c \<and> checkpoint_ok ?m c"
    using wal_wfD(9) [OF wf] by (auto simp: snapshot_checkpoint_list)
  have "wal_wf ?e" using wal_wfD(11) [OF wf] m by simp
  then have e: "built ?e ?m [] ?e" by (simp add: built_def replays_to_def empty_wal_def m)
  have e': "w_seen ?e = {}" "view ?e = \<lparr>v_pending = [], v_quarantined = [], v_checkpoints = fmempty\<rparr>"
    by (simp_all add: empty_wal_def view_def wal_pending_def wal_quarantined_def)
  obtain w1 where w1: "built ?e ?m (concat r1) w1" "view w1 = fold view_commit (wal_pending w) (view ?e)"
    "w_seen w1 = set (map cm_batch_id (wal_pending w))"
    using built_pending [OF e _ distinct_pending_ids(1) [OF wf] _ r(1)] P e' by auto
  have disj: "set (map (\<lambda>q. cm_batch_id (q_commit q)) (wal_quarantined w)) \<inter> w_seen w1 = {}"
    using pending_quarantined_disjoint [OF wf] w1(3) by fastforce
  obtain w2 where w2: "built ?e ?m (concat r1 @ concat r2) w2" "view w2 = fold view_dead (wal_quarantined w) (view w1)"
    "w_seen w2 \<subseteq> w_seen w"
    using built_quarantined [OF w1(1) _ distinct_quarantined_ids(1) [OF wf] disj r(2)] Q
      distinct_pending_ids(2) [OF wf] distinct_quarantined_ids(2) [OF wf] w1(3) by auto
  obtain w3 where w3: "built ?e ?m ((concat r1 @ concat r2) @ concat r3) w3" "view w3 = fold view_checkpoint ?cps (view w2)"
    "w_seen w3 = w_seen w2"
    using built_checkpoints [OF w2(1) _ r(3)] C by blast
  have p1: "v_pending (view w1) = wal_pending w" "v_quarantined (view w1) = []"
    by (simp_all add: w1(2) fold_view_commit e'(2))
  have p2: "v_pending (view w2) = wal_pending w" "v_quarantined (view w2) = wal_quarantined w"
    using fold_view_dead [of "wal_quarantined w" "view w1"] pending_quarantined_disjoint [OF wf] p1
    by (auto simp: w2(2))
  have "keys_within ?M (view w2)"
    unfolding w2(2) w1(2) using P Q
    by (intro keys_within_dead keys_within_commits) (auto simp: keys_within_def e'(2) has_key_def)
  then have "fmlookup (v_checkpoints (view w3)) k = fmlookup ?M k" for k
    unfolding w3(2) using fold_checkpoints_lookup [of ?cps ?M "view w2" k] C wal_wfD(9) [OF wf]
    by (cases "fmlookup ?M k") (auto simp: keys_within_def snapshot_checkpoint_list image_iff)
  then have cp: "v_checkpoints (view w3) = ?M" by (rule fmap_ext)
  have p3: "v_pending (view w3) = wal_pending w" "v_quarantined (view w3) = wal_quarantined w"
    using p2 by (simp_all add: w3(2) fold_view_checkpoint)
  have "view w3 = view w"
    by (rule spool_view.equality) (use p3 cp in \<open>simp_all add: view_def\<close>)
  then have v: "view w = view w3" by simp
  have b: "replays_to ?e b w3" and m3: "?m = w_max_record w3" using w3(1) by (simp_all add: built_def r(4))
  show ?thesis
    by (rule replays_to_cong [OF b v m3]) (use w2(3) w3(3) in simp)
qed

end
