(* ===== verification/Spool_Recovery.thy ===== *)
theory Spool_Recovery
  imports Spool_Snapshot
begin

text \<open>
  \<open>Open\<close> after a stop or a crash, at any point of any operation of the spool
  (\<open>internal/agent/spool/wal.go\<close>): the view of the spool is the one before or the one after the
  operation. \<open>spool_step\<close> is the relation of all operations with all outcomes of their system calls
  in which a rollback succeeds; every reachable state can be opened again with its view.
\<close>

section \<open>Opening\<close>

definition config_ok :: "spool_config \<Rightarrow> wal \<Rightarrow> bool" where
  "config_ok c w \<longleftrightarrow> \<not> blank (sc_path c) \<and> sc_max_record_bytes (effective_config c) = w_max_record w"

text \<open>What the directory holds replays to \<open>w\<close> after \<open>recoverReplacement\<close>.\<close>

definition survives_in :: "spool_dir \<Rightarrow> wal \<Rightarrow> bool" where
  "survives_in d w \<longleftrightarrow> wal_wf w \<and>
     (\<exists>b. d_main (recover_replacement d) = Some b \<and>
        (\<forall>c d'. sc_max_record_bytes c = w_max_record w \<longrightarrow> replays_to (empty_wal c d') b w))"

lemma durable_survives:
  "durable w \<Longrightarrow> opened w \<Longrightarrow> survives_in (w_dir w) w"
  by (cases "d_backup (w_dir w)")
     (auto simp: survives_in_def durable_def opened_def wal_file_def recover_replacement_def Let_def)

lemma recover_records_dir:
  "recover_records off s w = Inr (w', n) \<Longrightarrow> w_dir w' = w_dir w \<and> w_closed w' = w_closed w \<and> w_max_record w' = w_max_record w \<and>
     w_max_bytes w' = w_max_bytes w"
proof (induction off s w rule: recover_records.induct)
  case (1 off s w)
  have step: "apply_recovered kind body k v = Inr v' \<Longrightarrow>
      w_dir v' = w_dir v \<and> w_closed v' = w_closed v \<and> w_max_record v' = w_max_record v \<and>
      w_max_bytes v' = w_max_bytes v" for kind body k v v'
    by (auto simp: apply_recovered_def apply_commit_def remove_active_def apply_quarantine_def set_checkpoint_def
        split: if_splits sum.splits option.splits)
  show ?case
  proof (cases "next_record (w_max_record w) s")
    case (Found kind body k rest)
    then obtain v where v: "apply_recovered kind body k w = Inr v"
      using "1.prems" by (subst (asm) recover_records.simps) (auto split: sum.splits)
    with "1.prems" Found have "recover_records (off + nat k) rest v = Inr (w', n)"
      by (subst (asm) recover_records.simps) simp
    from "1.IH" [OF Found v this] step [OF v] show ?thesis by simp
  qed (use "1.prems" in \<open>subst (asm) recover_records.simps; simp\<close>)+
qed

lemma wal_recover_replays:
  assumes "replays_to s b w" "d_main (w_dir s) = Some (b @ t)"
    "recover_records 0 (b @ t) s = recover_records 0 b s"
  shows "\<exists>w'. wal_recover True s = Inr w' \<and> view w' = view w \<and> wal_wf w' \<and> wal_file w' = b \<and>
    opened w' \<and> w_closed w' = w_closed s \<and> w_max_record w' = w_max_record s \<and> replays_to s b w'"
proof -
  obtain v where v: "recover_records 0 b s = Inr (v, length b)" "wal_wf v" "view v = view w"
    using assms(1) by (auto simp: replays_to_def)
  have dir: "w_dir v = w_dir s" "w_closed v = w_closed s" "w_max_record v = w_max_record s"
    using recover_records_dir [OF v(1)] by simp_all
  have f: "wal_file s = b @ t" by (simp add: wal_file_def assms(2))
  show ?thesis
  proof (cases "t = []")
    case True
    with v dir assms(2) show ?thesis
      by (auto simp: wal_recover_def f wal_file_def opened_def replays_to_def)
  next
    case False
    have "wal_recover True s = Inr (set_file b v)"
      using False by (simp add: wal_recover_def f assms(3) v(1))
    moreover have "wal_file (set_file b v) = b" "opened (set_file b v)" by simp_all
    moreover have "replays_to s b (set_file b v)" using v by (auto simp: replays_to_def)
    ultimately show ?thesis using v dir by (auto simp: set_file_def)
  qed
qed

text \<open>Replaying does not depend on the directory or on the byte limit.\<close>

definition reloc :: "spool_dir \<Rightarrow> int \<Rightarrow> wal \<Rightarrow> wal" where
  "reloc d mb w = w\<lparr>w_dir := d, w_max_bytes := mb\<rparr>"

lemma reloc_simps [simp]:
  "apply_commit c n (reloc d mb w) = reloc d mb (apply_commit c n w)"
  "remove_active i (reloc d mb w) = reloc d mb (remove_active i w)"
  "apply_quarantine q (reloc d mb w) = reloc d mb (apply_quarantine q w)"
  "set_checkpoint p (reloc d mb w) = reloc d mb (set_checkpoint p w)"
  "w_max_record (reloc d mb w) = w_max_record w" "w_seen (reloc d mb w) = w_seen w"
  "w_pending (reloc d mb w) = w_pending w" "is_pending i (reloc d mb w) = is_pending i w"
  "is_quarantined i (reloc d mb w) = is_quarantined i w"
  by (simp_all add: reloc_def apply_commit_def remove_active_def apply_quarantine_def set_checkpoint_def size_of_def
      is_pending_def is_quarantined_def)

lemma view_reloc [simp]: "view (reloc d mb w) = view w"
  by (simp add: view_def reloc_def wal_pending_def wal_quarantined_def)

lemma wal_wf_reloc [simp]: "wal_wf (reloc d mb w) = wal_wf w"
  by (simp add: wal_wf_def reloc_def size_of_def has_key_def cong: option.case_cong)

lemma apply_recovered_reloc:
  "apply_recovered kind body n (reloc d mb w) = map_sum (\<lambda>e. e) (reloc d mb) (apply_recovered kind body n w)"
  by (simp add: apply_recovered_def split: sum.split option.split)

lemma recover_records_reloc:
  "recover_records off s w = Inr (w', n) \<Longrightarrow> recover_records off s (reloc d mb w) = Inr (reloc d mb w', n)"
proof (induction off s w rule: recover_records.induct)
  case (1 off s w)
  show ?case
  proof (cases "next_record (w_max_record w) s")
    case (Found kind body k rest)
    then obtain v where v: "apply_recovered kind body k w = Inr v"
      using "1.prems" by (subst (asm) recover_records.simps) (auto split: sum.splits)
    with "1.prems" Found have "recover_records (off + nat k) rest v = Inr (w', n)"
      by (subst (asm) recover_records.simps) simp
    from "1.IH" [OF Found v this] Found v show ?thesis
      by (subst recover_records.simps) (simp add: apply_recovered_reloc)
  qed (use "1.prems" in \<open>subst (asm) recover_records.simps; subst recover_records.simps; simp\<close>)+
qed

lemma replays_to_reloc: "replays_to s b w \<Longrightarrow> replays_to (reloc d mb s) b w"
  unfolding replays_to_def by (elim exE conjE, rule exI, intro conjI, erule recover_records_reloc) simp_all

lemma replays_to_empty:
  assumes "replays_to (empty_wal c d) b w" "sc_max_record_bytes c' = sc_max_record_bytes c"
  shows "replays_to (empty_wal c' d') b w"
proof -
  have "empty_wal c' d' = reloc d' (sc_max_bytes c') (empty_wal c d)"
    using assms(2) by (simp add: empty_wal_def reloc_def)
  then show ?thesis using replays_to_reloc [OF assms(1)] by simp
qed

text \<open>A prefix of a record is an incomplete tail.\<close>

lemma next_record_prefix:
  assumes "frame_record kind body = Some r" "int (length body) \<le> m" "0 < k" "k < length r"
  shows "next_record m (take k r) = TornTail"
proof (cases "k < record_header_bytes")
  case True
  with assms show ?thesis by (auto simp: next_record_def)
next
  case False
  have l: "length body < 2 ^ 32" using assms(1) by (auto simp: frame_record_def split: if_splits)
  then have n: "unat (of_nat (length body) :: 32 word) = length body" by (simp add: unat_of_nat32)
  then have u: "uint (of_nat (length body) :: 32 word) = int (length body)" by (metis uint_nat)
  have len: "length r = record_header_bytes + length body" by (rule frame_record_length [OF assms(1)])
  have t: "take record_header_bytes (take k r) = take record_header_bytes r" using False by (simp add: min_def)
  show ?thesis
    unfolding next_record_def t parse_header_frame(1) [OF assms(1)]
    using False assms n u len by (auto simp: Let_def record_header_bytes_def)
qed

lemma recover_torn:
  assumes "recover_records 0 b s = Inr (w0, length b)" "frame_record kind body = Some r"
    "int (length body) \<le> w_max_record s" "k < length r"
  shows "recover_records 0 (b @ take k r) s = recover_records 0 b s"
proof -
  have m: "w_max_record w0 = w_max_record s" using recover_records_dir [OF assms(1)] by simp
  have "recover_records (length b) (take k r) w0 = Inr (w0, length b)"
  proof (cases "k = 0")
    case False
    then have "next_record (w_max_record w0) (take k r) = TornTail"
      using next_record_prefix [OF assms(2) _ _ assms(4)] assms(3) m by simp
    then show ?thesis by (subst recover_records.simps) simp
  qed simp
  then show ?thesis using recover_append [of 0 b s w0 "take k r"] assms(1) by simp
qed

text \<open>
  Opening a directory whose log is a log that replays to \<open>w\<close>, whole or followed by a part of one more
  record.
\<close>

definition torn :: "int \<Rightarrow> bytes \<Rightarrow> bool" where
  "torn m t \<longleftrightarrow> t = [] \<or>
     (\<exists>kind body r k. frame_record kind body = Some r \<and> int (length body) \<le> m \<and> k < length r \<and> t = take k r)"

lemma open_replays:
  assumes "\<And>c d'. sc_max_record_bytes c = w_max_record w \<Longrightarrow> replays_to (empty_wal c d') b w"
    and "wal_wf w" "d_main (recover_replacement d) = Some (b @ t)" "torn (w_max_record w) t" "config_ok c w"
  shows "\<exists>w'. open_wal True c d = Inr w' \<and> view w' = view w \<and> durable w' \<and> opened w' \<and> \<not> w_closed w'"
proof -
  let ?c = "effective_config c" and ?d = "recover_replacement d"
  let ?s = "empty_wal ?c ?d"
  have c: "\<not> blank (sc_path c)" "sc_max_record_bytes ?c = w_max_record w"
    using assms(5) by (simp_all add: config_ok_def)
  have m: "sc_max_record_bytes ?c \<le> 2 ^ 32 - 1" using wal_wfD(11) [OF assms(2)] c by simp
  have rep: "replays_to ?s b w" by (rule assms(1)) (rule c(2))
  have ms: "w_max_record ?s = w_max_record w" by (simp add: empty_wal_def c(2))
  have same: "recover_records 0 (b @ t) ?s = recover_records 0 b ?s"
  proof (cases "t = []")
    case False
    with assms(4) obtain kind body r k where t: "frame_record kind body = Some r" "int (length body) \<le> w_max_record w"
      "k < length r" "t = take k r" by (auto simp: torn_def)
    obtain w0 where "recover_records 0 b ?s = Inr (w0, length b)" using rep by (auto simp: replays_to_def)
    from recover_torn [OF this t(1) _ t(3)] t(2,4) ms show ?thesis by simp
  qed simp
  have "open_wal True c d = wal_recover True ?s"
    using c m assms(3) by (simp add: open_wal_def Let_def)
  moreover obtain w' where w': "wal_recover True ?s = Inr w'" "view w' = view w" "wal_wf w'" "wal_file w' = b"
      "opened w'" "w_closed w' = w_closed ?s" "w_max_record w' = w_max_record ?s" "replays_to ?s b w'"
    using wal_recover_replays [OF rep _ same] assms(3) by (auto simp: empty_wal_def)
  moreover have "durable w'"
    unfolding durable_def w'(4)
    using w'(3) replays_to_empty [OF w'(8)] w'(7) by (auto simp: empty_wal_def)
  ultimately show ?thesis by (auto simp: empty_wal_def)
qed

section \<open>Compaction and acknowledgement\<close>

lemma survives_cong:
  "survives_in d w \<Longrightarrow> view w' = view w \<Longrightarrow> w_max_record w' = w_max_record w \<Longrightarrow> w_seen w' = w_seen w \<Longrightarrow>
     wal_wf w' \<Longrightarrow> survives_in d w'"
  unfolding survives_in_def using replays_to_cong [of _ _ w w'] by auto

lemma durable_replays:
  "durable w \<Longrightarrow> d_main d = Some b \<Longrightarrow> wal_file w = b \<Longrightarrow> survives_in d w"
  by (cases "d_backup d") (auto simp: survives_in_def durable_def recover_replacement_def Let_def)

lemma snapshot_survives:
  assumes "wal_wf w" "snapshot w = Inr b" "d_main d = Some b"
  shows "survives_in d w"
  using assms snapshot_replays [OF assms(1,2)]
  by (cases "d_backup d") (auto simp: survives_in_def recover_replacement_def Let_def)

lemma opened_main: "opened w \<Longrightarrow> d_main (w_dir w) = Some (wal_file w)"
  by (auto simp: opened_def wal_file_def)

lemma durable_dir:
  assumes "durable w" "d_main d = Some (wal_file w)"
  shows "durable (w\<lparr>w_dir := d, w_closed := b\<rparr>)"
proof -
  have f: "wal_file (w\<lparr>w_dir := d, w_closed := b\<rparr>) = wal_file w" using assms(2) by (simp add: wal_file_def)
  have v: "view (w\<lparr>w_dir := d, w_closed := b\<rparr>) = view w" using view_closed [of b "w\<lparr>w_dir := d\<rparr>"] by simp
  have wf: "wal_wf (w\<lparr>w_dir := d, w_closed := b\<rparr>)"
    using wal_wf_closed [of b "w\<lparr>w_dir := d\<rparr>"] durable_wf [OF assms(1)] by simp
  show ?thesis
    unfolding durable_def f
    using assms(1) wf replays_to_cong [OF _ v, of _ "wal_file w"] by (auto simp: durable_def)
qed

lemma durable_snapshot:
  assumes "wal_wf w" "snapshot w = Inr s" "d_main d = Some s"
  shows "durable (w\<lparr>w_dir := d, w_closed := b\<rparr>)"
proof -
  have f: "wal_file (w\<lparr>w_dir := d, w_closed := b\<rparr>) = s" using assms(3) by (simp add: wal_file_def)
  have v: "view (w\<lparr>w_dir := d, w_closed := b\<rparr>) = view w" using view_closed [of b "w\<lparr>w_dir := d\<rparr>"] by simp
  have wf: "wal_wf (w\<lparr>w_dir := d, w_closed := b\<rparr>)"
    using wal_wf_closed [of b "w\<lparr>w_dir := d\<rparr>"] assms(1) by simp
  show ?thesis
    unfolding durable_def f
    using snapshot_replays [OF assms(1,2)] wf replays_to_cong [OF _ v, of _ s] by auto
qed

lemma reopened_state:
  "view (reopened ok d w) = view w" "wal_wf (reopened ok d w) = wal_wf w" "w_seen (reopened ok d w) = w_seen w"
  "w_max_record (reopened ok d w) = w_max_record w" "w_dir (reopened ok d w) = d"
  "w_closed (reopened ok d w) = (\<not> (ok \<and> d_main d \<noteq> None))"
  using view_closed [of _ "w\<lparr>w_dir := d\<rparr>"] wal_wf_closed [of _ "w\<lparr>w_dir := d\<rparr>"]
  by (simp_all add: reopened_def)

text \<open>A state that can be opened again, and whose log is current as long as it is not closed.\<close>

definition spool_inv :: "wal \<Rightarrow> bool" where
  "spool_inv w \<longleftrightarrow> survives_in (w_dir w) w \<and> (\<not> w_closed w \<longrightarrow> durable w \<and> opened w)"

lemma compact_locked_inv:
  assumes "durable w" "opened w" "\<not> w_closed w" "compact_locked io w = (w', e)"
  shows "spool_inv w' \<and> view w' = view w"
proof -
  note main = opened_main [OF assms(2)] and wf = durable_wf [OF assms(1)]
  have keep: "spool_inv (w\<lparr>w_dir := d\<rparr>) \<and> view (w\<lparr>w_dir := d\<rparr>) = view w"
    if "d_main d = Some (wal_file w)" for d
  proof -
    have "w\<lparr>w_dir := d\<rparr> = w\<lparr>w_dir := d, w_closed := False\<rparr>" using assms(3) by simp
    then have "durable (w\<lparr>w_dir := d\<rparr>)" using durable_dir [OF assms(1) that, of False] by simp
    then show ?thesis
      using that durable_survives [of "w\<lparr>w_dir := d\<rparr>"] by (simp add: spool_inv_def opened_def)
  qed
  have re: "spool_inv (reopened ok d w) \<and> view (reopened ok d w) = view w"
    if dd: "d_main d = Some (wal_file w) \<or> snapshot w = Inr (the (d_main d)) \<and> d_main d \<noteq> None \<or>
      d_main d = None \<and> d_backup d = Some (wal_file w)" for ok d
  proof -
    consider (current) "d_main d = Some (wal_file w)" | (fresh) s where "snapshot w = Inr s" "d_main d = Some s"
      | (saved) "d_main d = None" "d_backup d = Some (wal_file w)" using dd by auto
    then have "survives_in d w \<and> (d_main d \<noteq> None \<longrightarrow> durable (reopened ok d w))"
    proof cases
      case current
      with durable_replays [OF assms(1) current] durable_dir [OF assms(1) current] show ?thesis by (simp add: reopened_def)
    next
      case fresh
      with snapshot_survives [OF wf fresh] durable_snapshot [OF wf fresh] show ?thesis by (simp add: reopened_def)
    next
      case saved
      with assms(1) wf show ?thesis
        by (auto simp: survives_in_def recover_replacement_def durable_def)
    qed
    then show ?thesis
      using wf by (auto simp: spool_inv_def reopened_state opened_def intro: survives_cong [of d w])
  qed
  show ?thesis
  proof (cases "snapshot w")
    case (Inl x)
    with assms(4) main keep [of "run_ops [RemoveTemp] (w_dir w)"] show ?thesis
      by (auto simp: compact_locked_def run_ops_def Let_def)
  next
    case (Inr b)
    with assms(4) main keep re show ?thesis
      by (auto simp: compact_locked_def run_ops_def Let_def compact_ops_def split: compact_io.splits if_splits)
  qed
qed

lemma view_remove_absent:
  assumes "wal_wf w" "\<not> is_pending i w" "\<not> is_quarantined i w"
  shows "view_remove i (view w) = view w"
proof -
  have "\<forall>c \<in> set (wal_pending w). cm_batch_id c \<noteq> i"
    using pending_list_iff [OF assms(1), of i] assms(2) by (auto simp: is_pending_def)
  moreover have "\<forall>q \<in> set (wal_quarantined w). cm_batch_id (q_commit q) \<noteq> i"
    using quarantined_list_iff [OF assms(1), of i] assms(3) by (auto simp: is_quarantined_def)
  ultimately show ?thesis by (simp add: view_remove_def view_def filter_id_conv)
qed

lemma wal_ack_inv:
  assumes "durable w" "opened w" "\<not> w_closed w" "io_recovers io" "wal_ack x io cio i w = (w', r)"
  shows "spool_inv w' \<and>
    view w' = (case r of Inl _ \<Rightarrow> if w_closed w' then view_remove i (view w) else view w
               | Inr _ \<Rightarrow> view_remove i (view w))"
proof -
  have wf: "wal_wf w" by (rule durable_wf [OF assms(1)])
  have inv: "spool_inv w" using assms(1-3) durable_survives by (simp add: spool_inv_def)
  show ?thesis
  proof (cases "x \<or> \<not> is_pending i w \<and> \<not> is_quarantined i w")
    case True
    then show ?thesis
      using assms(3,5) inv view_remove_absent [OF wf] by (auto simp: wal_ack_def split: if_splits)
  next
    case False
    then have act: "is_pending i w \<or> is_quarantined i w" and x: "\<not> x" by auto
    obtain w1 e where app: "append_record io record_ack (ack_json i) w = (w1, e)" by fastforce
    show ?thesis
    proof (cases e)
      case (Some y)
      then have "w1 = w" using append_record_failed app assms(2,4) by (auto simp: opened_def)
      with assms(3,5) app Some x act inv show ?thesis by (auto simp: wal_ack_def)
    next
      case None
      obtain rec where rec: "frame_record record_ack (ack_json i) = Some rec" and w1: "w1 = set_file (wal_file w @ rec) w"
        using append_record_done app None by blast
      obtain c where c: "storable (w_max_record w) c" "cm_batch_id c = i"
        using act wal_wfD(6,7) [OF wf, of i] by (auto simp: is_pending_def is_quarantined_def)
      have len: "int (length (ack_json i)) \<le> w_max_record w" using storable_ack(2) [OF c(1)] c(2) by simp
      define w2 where "w2 = signal (remove_active i w1)"
      have d2: "durable w2"
        by (rule durable_append [OF assms(1) rec len replay_ack [OF wf act] remove_active_wf [OF wf]])
           (simp_all add: w2_def w1 remove_active_wf [OF wf])
      have o2: "opened w2" by (simp add: w2_def w1)
      have c2: "\<not> w_closed w2" using assms(3) by (simp add: w2_def w1 signal_def remove_active_def set_file_def)
      have v2: "view w2 = view_remove i (view w)" using remove_active_view [OF wf] by (simp add: w2_def w1)
      have i2: "spool_inv w2" using d2 o2 durable_survives by (simp add: spool_inv_def)
      have ack: "(w', r) = (if int (length (wal_file w2)) > compact_limit w2 then
          (case compact_locked cio w2 of
             (w3, Some e) \<Rightarrow> (if w_closed w3 then (w3, Inl e) else (w3, Inr ()))
           | (w3, None) \<Rightarrow> (w3, Inr ())) else (w2, Inr ()))"
        using assms(3,5) app None x act unfolding wal_ack_def w2_def Let_def by auto
      show ?thesis
      proof (cases "int (length (wal_file w2)) > compact_limit w2")
        case True
        obtain w3 f where w3: "compact_locked cio w2 = (w3, f)" by fastforce
        note k = compact_locked_inv [OF d2 o2 c2 w3]
        have "w' = w3 \<and> (isl r \<longrightarrow> w_closed w3)"
          using ack w3 True by (auto split: option.splits if_splits)
        with k v2 show ?thesis by (auto split: sum.splits)
      next
        case False
        then have "w' = w2 \<and> \<not> isl r"
          using ack by auto
        with i2 v2 show ?thesis by (auto split: sum.splits)
      qed
    qed
  qed
qed

section \<open>Sequences of operations\<close>

datatype spool_op =
    DoCommit bool append_io commit
  | DoAck bool append_io compact_io string
  | DoQuarantine bool append_io string int string time
  | DoTransition bool append_io "checkpoint option" checkpoint
  | DoClose

definition dropped :: "wal \<times> (spool_error + 'a) \<Rightarrow> wal \<times> spool_error option" where
  "dropped r = (fst r, case snd r of Inl e \<Rightarrow> Some e | Inr _ \<Rightarrow> None)"

fun exec :: "spool_op \<Rightarrow> wal \<Rightarrow> wal \<times> spool_error option" where
  "exec (DoCommit x io c) w = dropped (wal_commit x io c w)"
| "exec (DoAck x io cio i) w = dropped (wal_ack x io cio i w)"
| "exec (DoQuarantine x io i code err tm) w = dropped (wal_quarantine x io i code err tm w)"
| "exec (DoTransition x io expected nxt) w = dropped (wal_transition x io expected nxt w)"
| "exec DoClose w = (wal_close w, None)"

fun op_io :: "spool_op \<Rightarrow> append_io" where
  "op_io (DoCommit x io c) = io"
| "op_io (DoAck x io cio i) = io"
| "op_io (DoQuarantine x io i code err tm) = io"
| "op_io (DoTransition x io expected nxt) = io"
| "op_io DoClose = IoOk"

text \<open>Arguments that survive JSON and, where the code does not check it, fit the record limit.\<close>

fun op_good :: "int \<Rightarrow> spool_op \<Rightarrow> bool" where
  "op_good m (DoCommit x io c) = commit_good c"
| "op_good m (DoAck x io cio i) = True"
| "op_good m (DoQuarantine x io i code err tm) =
     quarantine_fits m \<lparr>qr_batch_id = i, qr_http_code = code, qr_error_code = trim_space err, qr_quarantined_at = tm\<rparr>"
| "op_good m (DoTransition x io expected nxt) = checkpoint_fits m nxt"
| "op_good m DoClose = True"

text \<open>What the operation does to the abstract spool when it succeeds.\<close>

fun op_effect :: "spool_op \<Rightarrow> wal \<Rightarrow> spool_view" where
  "op_effect (DoCommit x io c) w = view_commit c (view w)"
| "op_effect (DoAck x io cio i) w = view_remove i (view w)"
| "op_effect (DoQuarantine x io i code err tm) w =
     (case fmlookup (w_pending w) i of
        None \<Rightarrow> view w
      | Some c \<Rightarrow> view_quarantine \<lparr>q_commit = c, q_http_code = code, q_error_code = trim_space err,
                                   q_quarantined_at = tm\<rparr> (view w))"
| "op_effect (DoTransition x io expected nxt) w = view_checkpoint nxt (view w)"
| "op_effect DoClose w = view w"

lemma quarantine_result:
  "wal_quarantine x io i code err tm w = (w', Inr q) \<Longrightarrow> fmlookup (w_pending w) i = Some c \<Longrightarrow>
     q = \<lparr>q_commit = c, q_http_code = code, q_error_code = trim_space err, q_quarantined_at = tm\<rparr>"
  by (auto simp: wal_quarantine_def Let_def split: if_splits option.splits prod.splits)

lemma not_closed_after:
  "wal_commit x io c w = (w', r) \<Longrightarrow> \<not> w_closed w \<Longrightarrow> \<not> w_closed w'"
  "wal_transition x io expected nxt w = (w', r2) \<Longrightarrow> \<not> w_closed w \<Longrightarrow> \<not> w_closed w'"
  "wal_quarantine x io i code err tm w = (w', r3) \<Longrightarrow> \<not> w_closed w \<Longrightarrow> \<not> w_closed w'"
  by (auto simp: wal_commit_def wal_transition_def wal_quarantine_def Let_def append_record_def set_file_def signal_def
      apply_commit_def set_checkpoint_def apply_quarantine_def
      split: if_splits option.splits prod.splits sum.splits append_io.splits)

lemma exec_closed:
  assumes "w_closed w"
  shows "fst (exec op w) = w" "snd (exec op w) = None \<Longrightarrow> op = DoClose"
  using assms
  by (cases op; auto simp: dropped_def wal_commit_def wal_ack_def wal_quarantine_def wal_transition_def wal_close_def
      Let_def split: option.splits sum.splits if_splits)+

lemma wal_close_view [simp]: "view (wal_close w) = view w" "wal_wf (wal_close w) = wal_wf w"
  by (simp_all add: wal_close_def)

lemma wal_close_fields:
  "w_dir (wal_close w) = w_dir w" "w_seen (wal_close w) = w_seen w" "w_max_record (wal_close w) = w_max_record w"
  "w_closed (wal_close w)"
  by (simp_all add: wal_close_def signal_def)

lemma wal_close_inv:
  assumes "spool_inv w"
  shows "spool_inv (wal_close w)"
proof -
  have s: "survives_in (w_dir w) w" using assms by (simp add: spool_inv_def)
  then have "wal_wf w" by (simp add: survives_in_def)
  with survives_cong [OF s, of "wal_close w"] show ?thesis by (simp add: spool_inv_def wal_close_fields)
qed

text \<open>The operations keep the invariant and act on the view as specified.\<close>

lemma exec_inv:
  assumes "spool_inv w" "op_good (w_max_record w) op" "io_recovers (op_io op)" "exec op w = (w', e)"
  shows "spool_inv w' \<and> view w' = (if e = None \<or> w_closed w' \<and> \<not> w_closed w then op_effect op w else view w)"
proof (cases "w_closed w")
  case True
  then have "w' = w" "e = None \<Longrightarrow> op = DoClose" using exec_closed [OF True, of op] assms(4) by simp_all
  with assms(1) show ?thesis by auto
next
  case False
  then have d: "durable w" "opened w" using assms(1) by (simp_all add: spool_inv_def)
  have inv: "durable v \<and> opened v \<Longrightarrow> spool_inv v" for v by (simp add: spool_inv_def durable_survives)
  show ?thesis
  proof (cases op)
    case (DoCommit x io c)
    obtain r where r: "wal_commit x io c w = (w', r)" "e = (case r of Inl e \<Rightarrow> Some e | Inr _ \<Rightarrow> None)"
      using assms(4) DoCommit by (auto simp: dropped_def prod_eq_iff)
    show ?thesis
      using wal_commit_durable [OF d _ _ r(1)] assms(2,3) inv [of w'] DoCommit r(2) not_closed_after(1) [OF r(1) False] by (auto split: sum.splits)
  next
    case (DoAck x io cio i)
    obtain r where r: "wal_ack x io cio i w = (w', r)" "e = (case r of Inl e \<Rightarrow> Some e | Inr _ \<Rightarrow> None)"
      using assms(4) DoAck by (auto simp: dropped_def prod_eq_iff)
    show ?thesis
      using wal_ack_inv [OF d False _ r(1)] assms(3) DoAck r(2) False by (auto split: sum.splits)
  next
    case (DoQuarantine x io i code err tm)
    obtain r where r: "wal_quarantine x io i code err tm w = (w', r)" "e = (case r of Inl e \<Rightarrow> Some e | Inr _ \<Rightarrow> None)"
      using assms(4) DoQuarantine by (auto simp: dropped_def prod_eq_iff)
    show ?thesis
      using wal_quarantine_durable [OF d _ _ r(1)] assms(2,3) inv [of w'] DoQuarantine r(2) r(1)
        quarantine_result [of x io i code err tm w w'] not_closed_after(3) [OF r(1) False]
      by (auto simp: is_pending_def split: sum.splits option.splits if_splits)
  next
    case (DoTransition x io expected nxt)
    obtain r where r: "wal_transition x io expected nxt w = (w', r)" "e = (case r of Inl e \<Rightarrow> Some e | Inr _ \<Rightarrow> None)"
      using assms(4) DoTransition by (auto simp: dropped_def prod_eq_iff)
    show ?thesis
      using wal_transition_durable [OF d _ _ r(1)] assms(2,3) inv [of w'] DoTransition r(2)
        not_closed_after(2) [OF r(1) False] by (auto split: sum.splits)
  next
    case DoClose
    with assms(1,4) wal_close_inv show ?thesis by auto
  qed
qed

section \<open>Crashes\<close>

text \<open>
  An append that fails without its rollback leaves what a crash in the middle of the append leaves: the
  first bytes of the record behind the log, possibly all of them.
\<close>

definition half_done :: "spool_op \<Rightarrow> wal \<Rightarrow> wal \<Rightarrow> bool" where
  "half_done op w w' \<longleftrightarrow>
     (\<exists>kind body r k ws. frame_record kind body = Some r \<and> int (length body) \<le> w_max_record w \<and>
        w' = set_file (wal_file w @ take k r) w \<and> replay_step kind body w ws \<and> wal_wf ws \<and>
        w_max_record ws = w_max_record w \<and> view ws = op_effect op w \<and>
        w_used_bytes ws \<le> max (w_used_bytes w) (w_max_bytes w))"

lemma commit_size_nonneg: "0 \<le> commit_size c"
  by (simp add: commit_size_def split: sum.split)

lemma size_of_nonneg: "wal_wf w \<Longrightarrow> 0 \<le> size_of i w"
  using wal_wfD(8) [of w i] commit_size_nonneg by (auto simp: size_of_def split: option.splits)

lemma used_simps [simp]:
  "w_used_bytes (apply_commit c n w) = w_used_bytes w + n"
  "w_used_bytes (remove_active i w) = w_used_bytes w - size_of i w"
  "w_used_bytes (apply_quarantine q w) = w_used_bytes w" "w_used_bytes (set_checkpoint p w) = w_used_bytes w"
  "w_used_bytes (set_file b w) = w_used_bytes w" "w_used_bytes (signal w) = w_used_bytes w"
  "w_used_bytes (reopened ok d w) = w_used_bytes w" "w_used_bytes (wal_close w) = w_used_bytes w"
  by (simp_all add: apply_commit_def remove_active_def apply_quarantine_def set_checkpoint_def set_file_def
      signal_def reopened_def wal_close_def)

lemma append_record_unrecovered:
  assumes "\<not> io_recovers io" "append_record io kind body w = (w', e)"
  shows "e \<noteq> None \<and> (w' = w \<or> (\<exists>r k. frame_record kind body = Some r \<and> w' = set_file (wal_file w @ take k r) w))"
proof -
  consider k where "io = IoWriteFails k False" | "io = IoSyncFails False"
    using assms(1) by (auto simp: io_recovers_def split: append_io.splits)
  then show ?thesis
  proof cases
    case 1
    with assms(2) show ?thesis by (auto simp: append_record_def rollback_append_def split: option.splits)
  next
    case 2
    have "take (length r) r = r" for r :: bytes by simp
    with assms(2) 2 show ?thesis
      by (auto simp: append_record_def rollback_append_def split: option.splits) (metis take_all_iff order_refl)
  qed
qed

lemma commit_half_done:
  assumes wf: "wal_wf w" and "commit_good c" "\<not> io_recovers io" "wal_commit x io c w = (w', r)"
  shows "w' = w \<or> half_done (DoCommit x io c) w w'"
proof (cases "w' = w")
  case False
  then obtain body e where enc: "encode_commit c = Inr body" and len: "int (length body) \<le> w_max_record w"
    and fresh: "cm_batch_id c \<notin> w_seen w" and app: "append_record io record_commit body w = (w', Some e)"
    and room: "commit_size c \<le> w_max_bytes w - w_used_bytes w"
    using assms(4) append_record_unrecovered [OF assms(3)]
    by (auto simp: wal_commit_def Let_def commit_size_def split: if_splits sum.splits prod.splits option.splits) blast+
  have st: "storable (w_max_record w) c" using assms(2) enc len by (auto simp: storable_def)
  have wfc: "wal_wf (apply_commit c (commit_size c) w)"
    by (rule apply_commit_wf [OF wf fresh st storable_checkpoint [OF st] refl])
  show ?thesis
    using append_record_unrecovered [OF assms(3) app] False replay_commit [OF wf fresh st enc] wfc len
      apply_commit_view [OF wf fresh] room
    unfolding half_done_def
    by (intro disjI2) (elim conjE disjE exE; fastforce)
qed simp

lemma transition_half_done:
  assumes wf: "wal_wf w" and "checkpoint_fits (w_max_record w) nxt" "\<not> io_recovers io"
    "wal_transition x io expected nxt w = (w', r)"
  shows "w' = w \<or> half_done (DoTransition x io expected nxt) w w'"
proof (cases "w' = w")
  case False
  then obtain body e where val: "validate_checkpoint nxt = None" and enc: "checkpoint_json nxt = Some body"
    and app: "append_record io record_checkpoint body w = (w', Some e)"
    using assms(4) append_record_unrecovered [OF assms(3)]
    by (auto simp: wal_transition_def split: if_splits sum.splits prod.splits option.splits) blast+
  have len: "int (length body) \<le> w_max_record w" using assms(2) enc by (simp add: checkpoint_fits_def option_list_def)
  have ok: "checkpoint_ok (w_max_record w) nxt"
    using assms(2) enc len val by (simp add: checkpoint_ok_def checkpoint_fits_def)
  show ?thesis
    using append_record_unrecovered [OF assms(3) app] False replay_checkpoint [OF wf ok enc] set_checkpoint_wf [OF wf ok] len
    unfolding half_done_def
    by (intro disjI2) (elim conjE disjE exE; fastforce)
qed simp

lemma ack_half_done:
  assumes wf: "wal_wf w" and "\<not> io_recovers io" "wal_ack x io cio i w = (w', r)"
  shows "w' = w \<or> half_done (DoAck x io cio i) w w'"
proof (cases "w' = w")
  case False
  then obtain e where act: "is_pending i w \<or> is_quarantined i w"
    and app: "append_record io record_ack (ack_json i) w = (w', Some e)"
    using assms(3) append_record_unrecovered [OF assms(2)]
    by (auto simp: wal_ack_def split: if_splits prod.splits option.splits) blast+
  obtain c where c: "storable (w_max_record w) c" "cm_batch_id c = i"
    using act wal_wfD(6,7) [OF wf, of i] by (auto simp: is_pending_def is_quarantined_def)
  have len: "int (length (ack_json i)) \<le> w_max_record w" using storable_ack(2) [OF c(1)] c(2) by simp
  show ?thesis
    using append_record_unrecovered [OF assms(2) app] False replay_ack [OF wf act] remove_active_wf [OF wf] len
      remove_active_view [OF wf] size_of_nonneg [OF wf, of i]
    unfolding half_done_def
    by (intro disjI2) (elim conjE disjE exE; fastforce)
qed simp

lemma quarantine_half_done:
  assumes wf: "wal_wf w"
    and "quarantine_fits (w_max_record w)
      \<lparr>qr_batch_id = i, qr_http_code = code, qr_error_code = trim_space err, qr_quarantined_at = tm\<rparr>"
    and "\<not> io_recovers io" "wal_quarantine x io i code err tm w = (w', r)"
  shows "w' = w \<or> half_done (DoQuarantine x io i code err tm) w w'"
proof (cases "w' = w")
  case False
  then obtain c body e where p: "fmlookup (w_pending w) i = Some c" and v: "400 \<le> code" "\<not> is_zero tm"
    and enc: "quarantine_json \<lparr>qr_batch_id = i, qr_http_code = code, qr_error_code = trim_space err, qr_quarantined_at = tm\<rparr>
      = Some body"
    and app: "append_record io record_quarantine body w = (w', Some e)"
    using assms(4) append_record_unrecovered [OF assms(3)]
    by (auto simp: wal_quarantine_def Let_def split: if_splits option.splits prod.splits) blast+
  define q where "q = \<lparr>q_commit = c, q_http_code = code, q_error_code = trim_space err, q_quarantined_at = tm\<rparr>"
  have pq: "fmlookup (w_pending w) i = Some (q_commit q)" using p by (simp add: q_def)
  have encq: "quarantine_json (quarantine_of i q) = Some body" using enc by (simp add: quarantine_of_def q_def)
  have fits: "quarantine_fits (w_max_record w) (quarantine_of i q)" using assms(2) by (simp add: quarantine_of_def q_def)
  then have len: "int (length body) \<le> w_max_record w" using encq by (simp add: quarantine_fits_def option_list_def)
  have qo: "quarantine_ok (w_max_record w) i q"
    using fits encq len v by (simp add: quarantine_ok_def quarantine_fits_def q_def)
  have eff: "op_effect (DoQuarantine x io i code err tm) w = view_quarantine q (view w)" by (simp add: p q_def)
  show ?thesis
    using append_record_unrecovered [OF assms(3) app] False replay_quarantine [OF wf pq qo encq]
      apply_quarantine_wf [OF wf pq qo] len apply_quarantine_view [OF wf pq]
    unfolding half_done_def eff
    by (intro disjI2) (elim conjE disjE exE; fastforce)
qed simp

subsection \<open>Bytes in use\<close>

definition view_used :: "spool_view \<Rightarrow> int" where
  "view_used v = sum_list (map commit_size (v_pending v)) + sum_list (map (\<lambda>q. commit_size (q_commit q)) (v_quarantined v))"

lemma sum_ids:
  assumes "distinct (map key xs)" "\<And>x. x \<in> set xs \<Longrightarrow> f (key x) = (g x :: int)"
  shows "(\<Sum>i \<in> set (map key xs). f i) = sum_list (map g xs)"
proof -
  have "(\<Sum>i \<in> set (map key xs). f i) = sum_list (map f (map key xs))"
    using assms(1) by (simp only: sum_list_distinct_conv_sum_set)
  also have "map f (map key xs) = map g xs" using assms(2) by simp
  finally show ?thesis .
qed

lemma used_view:
  assumes "wal_wf w"
  shows "w_used_bytes w = view_used (view w)"
proof -
  note D = wal_wfD [OF assms]
  let ?P = "set (map cm_batch_id (wal_pending w))" and ?Q = "set (map (\<lambda>q. cm_batch_id (q_commit q)) (wal_quarantined w))"
  have p: "i \<in> ?P \<longleftrightarrow> fmlookup (w_pending w) i \<noteq> None" for i
    using pending_list_iff [OF assms, of i] by auto
  have q: "i \<in> ?Q \<longleftrightarrow> fmlookup (w_quarantined w) i \<noteq> None" for i
    using quarantined_list_iff [OF assms, of i] by auto
  have "fset (fmdom (w_pending_size w)) = ?P \<union> ?Q"
  proof (rule set_eqI)
    fix i
    have "i \<in> fset (fmdom (w_pending_size w)) \<longleftrightarrow> fmlookup (w_pending_size w) i \<noteq> None"
      by (auto simp: fmlookup_dom_iff)
    then show "i \<in> fset (fmdom (w_pending_size w)) \<longleftrightarrow> i \<in> ?P \<union> ?Q"
      unfolding Un_iff p q D(8) [of i] by (auto split: option.splits)
  qed
  moreover have "?P \<inter> ?Q = {}"
    using pending_quarantined_disjoint [OF assms] by auto
  moreover have "(\<Sum>i \<in> ?P. size_of i w) = sum_list (map commit_size (wal_pending w))"
  proof (rule sum_ids [OF distinct_pending_ids(1) [OF assms]])
    fix c assume "c \<in> set (wal_pending w)"
    then have "fmlookup (w_pending w) (cm_batch_id c) = Some c" using pending_list_iff [OF assms] by blast
    then show "size_of (cm_batch_id c) w = commit_size c" using D(8) [of "cm_batch_id c"] by (simp add: size_of_def)
  qed
  moreover have "(\<Sum>i \<in> ?Q. size_of i w) = sum_list (map (\<lambda>q. commit_size (q_commit q)) (wal_quarantined w))"
  proof (rule sum_ids [OF distinct_quarantined_ids(1) [OF assms]])
    fix x assume "x \<in> set (wal_quarantined w)"
    then have x: "fmlookup (w_quarantined w) (cm_batch_id (q_commit x)) = Some x"
      using quarantined_list_iff [OF assms] by blast
    with D(5,7) have "fmlookup (w_pending w) (cm_batch_id (q_commit x)) = None" by blast
    with x show "size_of (cm_batch_id (q_commit x)) w = commit_size (q_commit x)"
      using D(8) [of "cm_batch_id (q_commit x)"] by (simp add: size_of_def)
  qed
  ultimately show ?thesis
    using D(10) by (simp add: view_used_def view_def sum.union_disjoint)
qed

definition within_capacity :: "wal \<Rightarrow> bool" where
  "within_capacity w \<longleftrightarrow> w_used_bytes w \<le> w_max_bytes w"

lemma append_record_used:
  "append_record io kind body w = (w', e) \<Longrightarrow> w_used_bytes w' = w_used_bytes w \<and> w_max_bytes w' = w_max_bytes w \<and>
     size_of i w' = size_of i w"
  by (auto simp: append_record_def set_file_def size_of_def split: if_splits option.splits append_io.splits)

lemma max_bytes_simps [simp]:
  "w_max_bytes (apply_commit c n w) = w_max_bytes w" "w_max_bytes (remove_active i w) = w_max_bytes w"
  "w_max_bytes (apply_quarantine q w) = w_max_bytes w" "w_max_bytes (set_checkpoint p w) = w_max_bytes w"
  "w_max_bytes (signal w) = w_max_bytes w" "w_max_bytes (reopened ok d w) = w_max_bytes w"
  "w_max_bytes (wal_close w) = w_max_bytes w"
  by (simp_all add: apply_commit_def remove_active_def apply_quarantine_def set_checkpoint_def signal_def
      reopened_def wal_close_def)

lemma compact_locked_used:
  "compact_locked cio w = (w', e) \<Longrightarrow> w_used_bytes w' = w_used_bytes w \<and> w_max_bytes w' = w_max_bytes w"
  by (auto simp: compact_locked_def Let_def split: sum.splits compact_io.splits)

lemma exec_capacity:
  assumes "wal_wf w" "within_capacity w"
  shows "within_capacity (fst (exec op w)) \<and> w_max_bytes (fst (exec op w)) = w_max_bytes w"
proof (cases op)
  case (DoCommit x io c)
  with assms(2) show ?thesis
    by (auto simp: dropped_def wal_commit_def Let_def within_capacity_def dest!: append_record_used [where i = "[]"]
        split: sum.splits prod.splits option.splits)
next
  case (DoAck x io cio i)
  with assms size_of_nonneg [OF assms(1), of i] show ?thesis
    by (auto simp: dropped_def wal_ack_def Let_def within_capacity_def
        dest!: append_record_used [where i = i] compact_locked_used split: prod.splits option.splits)
next
  case (DoQuarantine x io i code err tm)
  with assms(2) show ?thesis
    by (auto simp: dropped_def wal_quarantine_def Let_def within_capacity_def dest!: append_record_used [where i = i]
        split: prod.splits option.splits)
next
  case (DoTransition x io expected nxt)
  with assms(2) show ?thesis
    by (auto simp: dropped_def wal_transition_def within_capacity_def dest!: append_record_used [where i = "[]"]
        split: prod.splits option.splits)
qed (use assms(2) in \<open>simp add: within_capacity_def\<close>)

subsection \<open>Opening after a crash\<close>

lemma exec_half_done:
  assumes "durable w" "op_good (w_max_record w) op" "\<not> io_recovers (op_io op)"
  shows "fst (exec op w) = w \<or> half_done op w (fst (exec op w))"
proof -
  have wf: "wal_wf w" by (rule durable_wf [OF assms(1)])
  show ?thesis
  proof (cases op)
    case (DoCommit x io c)
    then show ?thesis
      using commit_half_done [OF wf, of c io x "fst (wal_commit x io c w)" "snd (wal_commit x io c w)"] assms(2,3)
      by (simp add: dropped_def)
  next
    case (DoAck x io cio i)
    then show ?thesis
      using ack_half_done [OF wf, of io x cio i "fst (wal_ack x io cio i w)" "snd (wal_ack x io cio i w)"] assms(3)
      by (simp add: dropped_def)
  next
    case (DoQuarantine x io i code err tm)
    then show ?thesis
      using quarantine_half_done [OF wf, of i code err tm io x "fst (wal_quarantine x io i code err tm w)"
          "snd (wal_quarantine x io i code err tm w)"] assms(2,3)
      by (simp add: dropped_def)
  next
    case (DoTransition x io expected nxt)
    then show ?thesis
      using transition_half_done [OF wf, of nxt io x expected "fst (wal_transition x io expected nxt w)"
          "snd (wal_transition x io expected nxt w)"] assms(2,3)
      by (simp add: dropped_def)
  next
    case DoClose
    with assms(3) show ?thesis by (simp add: io_recovers_def)
  qed
qed

text \<open>A directory that opens to a view.\<close>

definition opens_to :: "spool_config \<Rightarrow> spool_dir \<Rightarrow> spool_view \<Rightarrow> bool" where
  "opens_to c d v \<longleftrightarrow>
     (\<exists>w. open_wal True c d = Inr w \<and> view w = v \<and> durable w \<and> opened w \<and> \<not> w_closed w)"

lemma survives_opens: "survives_in d w \<Longrightarrow> config_ok c w \<Longrightarrow> opens_to c d (view w)"
  unfolding survives_in_def opens_to_def
  using open_replays [of w _ d "[]" c] by (auto simp: torn_def)

lemma open_wal_limits:
  assumes "open_wal t c d = Inr w"
  shows "w_max_bytes w = sc_max_bytes (effective_config c)"
    "w_max_record w = sc_max_record_bytes (effective_config c)" "\<not> blank (sc_path c)" "\<not> w_closed w"
    "w_max_record w \<le> 2 ^ 32 - 1"
proof -
  from assms have p: "\<not> blank (sc_path c)" and m: "sc_max_record_bytes (effective_config c) \<le> 2 ^ 32 - 1"
    by (auto simp: open_wal_def Let_def split: if_splits)
  obtain s v n where s: "recover_records 0 (wal_file s) s = Inr (v, n)" "w = v \<or> w = set_file (take n (wal_file s)) v"
      "w_max_bytes s = sc_max_bytes (effective_config c)" "w_max_record s = sc_max_record_bytes (effective_config c)"
      "\<not> w_closed s"
    using assms by (auto simp: open_wal_def wal_recover_def Let_def empty_wal_def split: if_splits sum.splits prod.splits)
  show "w_max_bytes w = sc_max_bytes (effective_config c)" "w_max_record w = sc_max_record_bytes (effective_config c)"
    "\<not> blank (sc_path c)" "\<not> w_closed w" "w_max_record w \<le> 2 ^ 32 - 1"
    using recover_records_dir [OF s(1)] s(2-5) p m by (auto simp: set_file_def)
qed

lemma half_done_opens:
  assumes "durable w" "opened w" "half_done op w w'" "config_ok c w"
  shows "opens_to c (w_dir w') (view w) \<or>
    opens_to c (w_dir w') (op_effect op w) \<and> view_used (op_effect op w) \<le> max (w_used_bytes w) (w_max_bytes w)"
proof -
  obtain kind body r k ws where h: "frame_record kind body = Some r" "int (length body) \<le> w_max_record w"
    "w' = set_file (wal_file w @ take k r) w" "replay_step kind body w ws" "wal_wf ws" "w_max_record ws = w_max_record w"
    "view ws = op_effect op w" "w_used_bytes ws \<le> max (w_used_bytes w) (w_max_bytes w)"
    using assms(3) by (auto simp: half_done_def)
  have wf: "wal_wf w" and rep: "\<And>c d. sc_max_record_bytes c = w_max_record w \<Longrightarrow> replays_to (empty_wal c d) (wal_file w) w"
    using assms(1) by (auto simp: durable_def)
  have m: "d_main (recover_replacement (w_dir w')) = Some (wal_file w @ take k r)"
    by (cases "d_backup (w_dir w)") (simp_all add: h(3) set_file_def recover_replacement_def)
  show ?thesis
  proof (cases "k < length r")
    case True
    have "torn (w_max_record w) (take k r)" unfolding torn_def using h(1,2) True by blast
    from open_replays [OF rep wf m this assms(4)] show ?thesis by (auto simp: opens_to_def)
  next
    case False
    then have m': "d_main (recover_replacement (w_dir w')) = Some ((wal_file w @ r) @ [])" using m by simp
    have rep': "\<And>c d. sc_max_record_bytes c = w_max_record ws \<Longrightarrow> replays_to (empty_wal c d) (wal_file w @ r) ws"
      by (rule replays_to_append [OF rep h(1,2,4)]) (simp add: h(6))
    have "config_ok c ws" using assms(4) h(6) by (simp add: config_ok_def)
    from open_replays [OF rep' h(5) m' _ this] h(7,8) used_view [OF h(5)] show ?thesis
      by (simp add: opens_to_def torn_def)
  qed
qed

lemma append_record_max: "append_record io kind body w = (w', e) \<Longrightarrow> w_max_record w' = w_max_record w"
  by (auto simp: append_record_def split: if_splits option.splits append_io.splits)

lemma compact_locked_max: "compact_locked cio w = (w', e) \<Longrightarrow> w_max_record w' = w_max_record w"
  by (auto simp: compact_locked_def reopened_def Let_def split: sum.splits compact_io.splits)

lemma exec_max_record: "w_max_record (fst (exec op w)) = w_max_record w"
proof (cases op)
  case (DoCommit x io c)
  then show ?thesis
    by (auto simp: dropped_def wal_commit_def Let_def dest: append_record_max split: sum.splits prod.splits option.splits)
next
  case (DoAck x io cio i)
  then show ?thesis
    by (auto simp: dropped_def wal_ack_def Let_def dest!: append_record_max compact_locked_max
        split: prod.splits option.splits)
next
  case (DoQuarantine x io i code err tm)
  then show ?thesis
    by (auto simp: dropped_def wal_quarantine_def Let_def dest: append_record_max split: prod.splits option.splits)
next
  case (DoTransition x io expected nxt)
  then show ?thesis
    by (auto simp: dropped_def wal_transition_def dest: append_record_max split: prod.splits option.splits)
qed (simp add: wal_close_def signal_def)

lemma exec_opens:
  assumes "spool_inv w" "op_good (w_max_record w) op" "config_ok c w" "within_capacity w"
  shows "\<exists>v. (v = view w \<or> v = op_effect op w) \<and> opens_to c (w_dir (fst (exec op w))) v \<and> view_used v \<le> w_max_bytes w"
proof -
  have wf: "wal_wf w" using assms(1) by (simp add: spool_inv_def survives_in_def)
  have used: "view_used (view w) \<le> w_max_bytes w" using used_view [OF wf] assms(4) by (simp add: within_capacity_def)
  obtain w' e where e: "exec op w = (w', e)" by fastforce
  consider (closed) "w_closed w" | (rec) "io_recovers (op_io op)" | (crash) "\<not> w_closed w" "\<not> io_recovers (op_io op)"
    by blast
  then show ?thesis
  proof cases
    case closed
    then have "w' = w" using exec_closed(1) [of w op] e by simp
    with assms(1,3) used e show ?thesis by (auto simp: spool_inv_def intro: survives_opens)
  next
    case rec
    have i: "spool_inv w'" "view w' = view w \<or> view w' = op_effect op w"
      using exec_inv [OF assms(1,2) rec e] by auto
    have m: "w_max_record w' = w_max_record w" using exec_max_record [of op w] e by simp
    have "opens_to c (w_dir w') (view w')"
      using i(1) assms(3) m by (intro survives_opens) (simp_all add: spool_inv_def config_ok_def)
    moreover have "view_used (view w') \<le> w_max_bytes w"
      using exec_capacity [OF wf assms(4), of op] e used_view [of w'] i(1)
      by (simp add: within_capacity_def spool_inv_def survives_in_def)
    ultimately show ?thesis using i(2) e by auto
  next
    case crash
    then have d: "durable w" "opened w" using assms(1) by (simp_all add: spool_inv_def)
    from exec_half_done [OF d(1) assms(2) crash(2)] show ?thesis
    proof
      assume "fst (exec op w) = w"
      with assms(1,3) used show ?thesis by (auto simp: spool_inv_def intro: survives_opens)
    next
      assume "half_done op w (fst (exec op w))"
      from half_done_opens [OF d this assms(3)] used assms(4) show ?thesis
        by (auto simp: within_capacity_def)
    qed
  qed
qed

section \<open>Reachable states\<close>

text \<open>
  The states that a spool can have: opened on an empty directory; after an operation; opened again
  after a stop, after a crash in the middle of an append, or after a crash during a compaction.
\<close>

definition compact_crash :: "bytes \<Rightarrow> spool_dir \<Rightarrow> spool_dir \<Rightarrow> bool" where
  "compact_crash b d d' \<longleftrightarrow>
     (\<exists>n t. d' = (if n < 5 then (run_ops (take n (compact_ops b)) d)\<lparr>d_temp := t\<rparr> else run_ops (take n (compact_ops b)) d))"

definition empty_dir :: spool_dir where
  "empty_dir = \<lparr>d_main = None, d_backup = None, d_temp = None\<rparr>"

inductive spool_reach :: "spool_config \<Rightarrow> wal \<Rightarrow> bool" for c where
  fresh: "open_wal t c empty_dir = Inr w \<Longrightarrow> spool_reach c w"
| operation: "spool_reach c w \<Longrightarrow> op_good (w_max_record w) op \<Longrightarrow> io_recovers (op_io op) \<Longrightarrow>
    spool_reach c (fst (exec op w))"
| restart: "spool_reach c w \<Longrightarrow> open_wal True c (w_dir w) = Inr w' \<Longrightarrow> spool_reach c w'"
| crash_append: "spool_reach c w \<Longrightarrow> op_good (w_max_record w) op \<Longrightarrow>
    open_wal True c (w_dir (fst (exec op w))) = Inr w' \<Longrightarrow> spool_reach c w'"
| crash_compact: "spool_reach c w \<Longrightarrow> \<not> w_closed w \<Longrightarrow> snapshot w = Inr b \<Longrightarrow> compact_crash b (w_dir w) d \<Longrightarrow>
    open_wal True c d = Inr w' \<Longrightarrow> spool_reach c w'"

inductive_cases spool_reachE: "spool_reach c w"

lemma compact_crash_survives:
  assumes "durable w" "opened w" "snapshot w = Inr b" "compact_crash b (w_dir w) d"
  shows "survives_in d w"
proof -
  obtain n t where d: "d = (if n < 5 then (run_ops (take n (compact_ops b)) (w_dir w))\<lparr>d_temp := t\<rparr>
      else run_ops (take n (compact_ops b)) (w_dir w))"
    using assms(4) by (auto simp: compact_crash_def)
  have main: "d_main (w_dir w) = Some (wal_file w)" by (rule opened_main [OF assms(2)])
  have rec: "d_main (recover_replacement d) = Some (wal_file w) \<or> d_main (recover_replacement d) = Some b"
  proof -
    consider "n = 0" | "n = 1" | "n = 2" | "n = 3" | "n = 4" | "n = 5" | "6 \<le> n" by linarith
    then show ?thesis
      by cases (auto simp: d run_ops_def compact_ops_def recover_replacement_def main numeral_eq_Suc
          split: option.splits)
  qed
  have wf: "wal_wf w" by (rule durable_wf [OF assms(1)])
  from rec show ?thesis
  proof
    assume "d_main (recover_replacement d) = Some (wal_file w)"
    with assms(1) wf show ?thesis by (auto simp: survives_in_def durable_def)
  next
    assume "d_main (recover_replacement d) = Some b"
    with snapshot_replays [OF wf assms(3)] wf show ?thesis by (auto simp: survives_in_def)
  qed
qed


definition reach_inv :: "spool_config \<Rightarrow> wal \<Rightarrow> bool" where
  "reach_inv c w \<longleftrightarrow> spool_inv w \<and> config_ok c w \<and> w_max_bytes w = sc_max_bytes (effective_config c) \<and>
     within_capacity w"

lemma opens_to_inv:
  assumes "opens_to c d v" "open_wal True c d = Inr w" "view_used v \<le> sc_max_bytes (effective_config c)"
  shows "reach_inv c w \<and> view w = v"
proof -
  have w: "view w = v" "durable w" "opened w" using assms(1,2) by (auto simp: opens_to_def)
  note l = open_wal_limits [OF assms(2)]
  have "within_capacity w" using used_view [OF durable_wf [OF w(2)]] assms(3) w(1) l(1) by (simp add: within_capacity_def)
  with w l durable_survives [OF w(2,3)] show ?thesis by (simp add: reach_inv_def spool_inv_def config_ok_def)
qed

lemma spool_reach_inv: "spool_reach c w \<Longrightarrow> reach_inv c w"
proof (induction rule: spool_reach.induct)
  case (fresh t w)
  note l = open_wal_limits [OF fresh]
  let ?e = "effective_config c"
  let ?s = "empty_wal ?e \<lparr>d_main = Some [], d_backup = None, d_temp = None\<rparr>"
  have w: "w = ?s"
    using fresh by (simp add: open_wal_def Let_def empty_dir_def recover_replacement_def wal_recover_def wal_file_def
        empty_wal_def split: if_splits)
  have m: "sc_max_record_bytes ?e \<le> 2 ^ 32 - 1" using l(2,5) by simp
  have "wal_wf ?s" using m by simp
  moreover have "replays_to (empty_wal c1 d1) [] ?s" if "sc_max_record_bytes c1 = sc_max_record_bytes ?e" for c1 d1
    using that m by (simp add: replays_to_def) (simp add: empty_wal_def view_def wal_pending_def wal_quarantined_def)
  ultimately have "durable w" unfolding w durable_def by (auto simp: wal_file_def empty_wal_def)
  moreover have "opened w" by (simp add: w opened_def empty_wal_def)
  moreover have "within_capacity w"
    by (simp add: w within_capacity_def empty_wal_def effective_config_def default_max_bytes_def)
  ultimately show ?case
    using l by (simp add: reach_inv_def spool_inv_def durable_survives config_ok_def)
next
  case (operation w op)
  obtain w' e where e: "exec op w = (w', e)" by fastforce
  have i: "spool_inv w" "within_capacity w" "config_ok c w" "w_max_bytes w = sc_max_bytes (effective_config c)"
    using operation.IH by (simp_all add: reach_inv_def)
  then have wf: "wal_wf w" by (simp add: spool_inv_def survives_in_def)
  show ?case
    using exec_inv [OF i(1) operation.hyps(2,3) e] exec_capacity [OF wf i(2), of op] exec_max_record [of op w] e i
    by (simp add: reach_inv_def config_ok_def)
next
  case (restart w w')
  have i: "spool_inv w" "within_capacity w" "config_ok c w" "w_max_bytes w = sc_max_bytes (effective_config c)"
    using restart.IH by (simp_all add: reach_inv_def)
  then have s: "survives_in (w_dir w) w" by (simp add: spool_inv_def)
  then have "view_used (view w) \<le> w_max_bytes w"
    using used_view [of w] i(2) by (simp add: survives_in_def within_capacity_def)
  then show ?case
    using opens_to_inv [OF survives_opens [OF s i(3)] restart.hyps(2)] i(4) by simp
next
  case (crash_append w op w')
  have i: "spool_inv w" "within_capacity w" "config_ok c w" "w_max_bytes w = sc_max_bytes (effective_config c)"
    using crash_append.IH by (simp_all add: reach_inv_def)
  obtain v where "opens_to c (w_dir (fst (exec op w))) v" "view_used v \<le> w_max_bytes w"
    using exec_opens [OF i(1) crash_append.hyps(2) i(3,2)] by blast
  then show ?case using opens_to_inv [OF _ crash_append.hyps(3)] i(4) by simp
next
  case (crash_compact w b d w')
  have i: "spool_inv w" "within_capacity w" "config_ok c w" "w_max_bytes w = sc_max_bytes (effective_config c)"
    using crash_compact.IH by (simp_all add: reach_inv_def)
  then have o: "durable w" "opened w" using crash_compact.hyps(2) by (simp_all add: spool_inv_def)
  have s: "survives_in d w" by (rule compact_crash_survives [OF o crash_compact.hyps(3,4)])
  then have "view_used (view w) \<le> w_max_bytes w"
    using used_view [of w] i(2) by (simp add: survives_in_def within_capacity_def)
  then show ?case
    using opens_to_inv [OF survives_opens [OF s i(3)] crash_compact.hyps(5)] i(4) by simp
qed

end
