(* ===== verification/Spool_Properties.thy ===== *)
theory Spool_Properties
  imports Spool_Recovery
begin

text \<open>
  The properties of the agent's spool (\<open>internal/agent/spool/wal.go\<close>), each with a witness: a concrete
  configuration, commit and checkpoint for which its hypotheses hold.
\<close>

section \<open>Concrete values\<close>

definition demo_checkpoint :: checkpoint where
  "demo_checkpoint =
     \<lparr>cp_source_key = ''app'', cp_file_identity = ''unix:1:2'', cp_offset_bytes = 10,
      cp_observed_at = 63900000000000000000\<rparr>"

definition demo_commit :: commit where
  "demo_commit =
     \<lparr>cm_batch_id = ''b1'', cm_payload = ''{\"batch_id\":\"b1\"}'', cm_checkpoint = demo_checkpoint\<rparr>"

definition demo_config :: spool_config where
  "demo_config = \<lparr>sc_path = ''/var/lib/agent.wal'', sc_max_bytes = 0, sc_max_record_bytes = 0\<rparr>"

definition demo_wal :: wal where
  "demo_wal = empty_wal (effective_config demo_config) \<lparr>d_main = Some [], d_backup = None, d_temp = None\<rparr>"

lemma not_blank_demo: "\<not> blank (sc_path demo_config)"
  by code_simp

lemma demo_limits:
  "sc_max_bytes (effective_config demo_config) = 2 ^ 30"
  "sc_max_record_bytes (effective_config demo_config) = 8 * 2 ^ 20"
  by (simp_all add: effective_config_def demo_config_def default_max_bytes_def default_max_record_bytes_def)

lemma open_demo: "open_wal False demo_config empty_dir = Inr demo_wal"
  using not_blank_demo
  by (simp add: open_wal_def Let_def demo_limits demo_wal_def empty_dir_def recover_replacement_def wal_recover_def
      wal_file_def empty_wal_def)

lemma demo_reach: "spool_reach demo_config demo_wal"
  by (rule spool_reach.fresh [OF open_demo])

lemma demo_config_ok: "config_ok demo_config demo_wal"
  using spool_reach_inv [OF demo_reach] by (simp add: reach_inv_def)

lemma demo_good: "commit_good demo_commit" "checkpoint_good demo_checkpoint"
  by code_simp+

lemma demo_size:
  "(case encode_commit demo_commit of Inl _ \<Rightarrow> False | Inr body \<Rightarrow> length body < 1000)"
  "(case checkpoint_json demo_checkpoint of None \<Rightarrow> False | Some body \<Rightarrow> length body < 1000)"
  by code_simp+

lemma demo_fits: "1000 \<le> m \<Longrightarrow> checkpoint_fits m demo_checkpoint"
  using demo_good(2) demo_size(2) by (auto simp: checkpoint_fits_def option_list_def split: option.splits)

lemma demo_exec: "snd (exec (DoCommit False IoOk demo_commit) demo_wal) = None"
proof -
  obtain body where body: "encode_commit demo_commit = Inr body" "length body < 1000"
    using demo_size(1) by (auto split: sum.splits)
  then obtain r where "frame_record record_commit body = Some r"
    by (cases "frame_record record_commit body") (auto simp: frame_record_def split: if_splits)
  with body show ?thesis
    by (simp add: dropped_def wal_commit_def Let_def append_record_def demo_wal_def empty_wal_def demo_limits
        record_header_bytes_def)
qed

section \<open>Durability\<close>





text \<open>
  C8. A crash in the middle of the append of any operation (any number of bytes of the record written,
  nothing rolled back) is atomic: opening the directory succeeds and gives the view before the operation or
  the view after it.
\<close>

theorem spool_crash_atomic:
  assumes "spool_reach c w" "op_good (w_max_record w) op"
  shows "\<exists>w'. open_wal True c (w_dir (fst (exec op w))) = Inr w' \<and> (view w' = view w \<or> view w' = op_effect op w)"
  using exec_opens [OF _ assms(2), of c] spool_reach_inv [OF assms(1)] by (auto simp: reach_inv_def opens_to_def)

theorem spool_crash_atomic_witness:
  "\<exists>w'. open_wal True demo_config (w_dir (fst (exec (DoCommit False (IoWriteFails 20 False) demo_commit) demo_wal))) = Inr w' \<and>
     (view w' = view demo_wal \<or> view w' = view_commit demo_commit (view demo_wal))"
  using spool_crash_atomic [OF demo_reach, of "DoCommit False (IoWriteFails 20 False) demo_commit"] demo_good by simp

text \<open>
  C14. Compaction keeps the spool and can be interrupted after any of its system calls, with any contents of the
  unfinished new log: \<open>recoverReplacement\<close> leaves the old log or the complete new one, and opening gives the
  view of the spool.
\<close>

theorem spool_compaction_crash:
  assumes "spool_reach c w" "\<not> w_closed w" "snapshot w = Inr b" "compact_crash b (w_dir w) d"
  shows "\<exists>w'. open_wal True c d = Inr w' \<and> view w' = view w"
proof -
  have i: "spool_inv w" "config_ok c w" using spool_reach_inv [OF assms(1)] by (simp_all add: reach_inv_def)
  then have "durable w" "opened w" using assms(2) by (simp_all add: spool_inv_def)
  from survives_opens [OF compact_crash_survives [OF this assms(3,4)] i(2)] show ?thesis by (auto simp: opens_to_def)
qed

theorem spool_compaction_crash_witness:
  "\<exists>w'. open_wal True demo_config \<lparr>d_main = None, d_backup = Some [], d_temp = Some ''half''\<rparr> = Inr w' \<and> view w' = view demo_wal"
proof (rule spool_compaction_crash [OF demo_reach])
  show "\<not> w_closed demo_wal" by (simp add: demo_wal_def empty_wal_def)
  show "snapshot demo_wal = Inr []"
    by (simp add: snapshot_def snapshot_pending_def snapshot_quarantined_def snapshot_checkpoints_def checkpoint_keys_def
        wal_pending_def demo_wal_def empty_wal_def sorted_list_of_fset.rep_eq)
  show "compact_crash [] (w_dir demo_wal) \<lparr>d_main = None, d_backup = Some [], d_temp = Some ''half''\<rparr>"
    unfolding compact_crash_def
    by (intro exI [of _ 4] exI [of _ "Some ''half''"])
       (simp add: run_ops_def compact_ops_def demo_wal_def empty_wal_def numeral_eq_Suc)
qed

section \<open>Corruption\<close>

lemma recover_bad_tail:
  assumes "durable w" "next_record (w_max_record w) s = BadRecord" "s \<noteq> []" "config_ok c w"
    "d_main (recover_replacement d) = Some (wal_file w @ s)"
  shows "open_wal t c d = Inl (ErrCorrupt (length (wal_file w)))"
proof -
  let ?s = "empty_wal (effective_config c) (recover_replacement d)"
  have m: "sc_max_record_bytes (effective_config c) = w_max_record w" "\<not> blank (sc_path c)"
    using assms(4) by (simp_all add: config_ok_def)
  have le: "w_max_record w \<le> 2 ^ 32 - 1" by (rule wal_wfD(11) [OF durable_wf [OF assms(1)]])
  have "replays_to ?s (wal_file w) w" using assms(1) m(1) by (auto simp: durable_def)
  then obtain w0 where w0: "recover_records 0 (wal_file w) ?s = Inr (w0, length (wal_file w))"
    "w_max_record w0 = w_max_record w"
    by (auto simp: replays_to_def)
  have "recover_records 0 (wal_file w @ s) ?s = Inl (ErrCorrupt (length (wal_file w)))"
    using recover_append [of 0 "wal_file w" ?s w0 s] w0 assms(2) by (simp add: recover_records.simps [of "length (wal_file w)"])
  moreover have "wal_file ?s = wal_file w @ s" using assms(5) by (simp add: wal_file_def empty_wal_def)
  ultimately show ?thesis
    using m le assms(5) by (simp add: open_wal_def Let_def wal_recover_def)
qed

text \<open>
  C31. A changed byte is never replayed: if any byte of a record that follows a good log has another value on disk (the four
  bytes of the length field apart), opening reports corruption at the offset of that record.
\<close>

theorem spool_tamper_detected:
  assumes "spool_reach c w" "\<not> w_closed w"
    and "frame_record kind body = Some r" "int (length body) \<le> w_max_record w"
    and "i < length r" "i < 8 \<or> 12 \<le> i" "x \<noteq> r ! i"
    and "d_main (recover_replacement d) = Some (wal_file w @ r[i := x] @ rest)"
  shows "open_wal t c d = Inl (ErrCorrupt (length (wal_file w)))"
proof -
  have i: "durable w" "config_ok c w"
    using spool_reach_inv [OF assms(1)] assms(2) by (simp_all add: reach_inv_def spool_inv_def)
  have "r[i := x] @ rest \<noteq> []" using assms(5) by auto
  from recover_bad_tail [OF i(1) next_record_tamper [OF assms(3-7)] this i(2) assms(8)] show ?thesis .
qed

lemma demo_frame:
  obtains r where "frame_record record_ack ''{}'' = Some r" "length r = 18" "r ! 4 = record_version"
proof -
  obtain r where r: "frame_record record_ack ''{}'' = Some r"
    by (cases "frame_record record_ack ''{}''") (auto simp: frame_record_def split: if_splits)
  moreover have "length r = 18" using frame_record_length [OF r] by (simp add: record_header_bytes_def)
  moreover have "r ! 4 = record_version"
    using r by (auto simp: frame_record_def record_magic_def nth_append split: if_splits)
  ultimately show thesis by (rule that)
qed

theorem spool_tamper_detected_witness:
  "\<exists>r. frame_record record_ack ''{}'' = Some r \<and>
     open_wal True demo_config \<lparr>d_main = Some (r[4 := CHR 0x02]), d_backup = None, d_temp = None\<rparr> = Inl (ErrCorrupt 0)"
proof -
  obtain r where r: "frame_record record_ack ''{}'' = Some r" "length r = 18" "r ! 4 = record_version" by (rule demo_frame)
  have "open_wal True demo_config \<lparr>d_main = Some (r[4 := CHR 0x02]), d_backup = None, d_temp = None\<rparr>
      = Inl (ErrCorrupt (length (wal_file demo_wal)))"
    by (rule spool_tamper_detected [OF demo_reach _ r(1), where i = 4 and x = "CHR 0x02" and rest = "[]"])
       (simp_all add: r demo_wal_def empty_wal_def demo_limits record_version_def recover_replacement_def wal_file_def)
  with r(1) show ?thesis by (simp add: demo_wal_def empty_wal_def wal_file_def)
qed

text \<open>
  The length field is not covered by the checksum: when it is changed to any length that is allowed but reaches beyond
  the end of the file, opening does not report corruption but takes the record, and every record
  behind it, for an incomplete tail and cuts them off.
\<close>

theorem spool_length_not_protected:
  assumes "spool_reach c w" "\<not> w_closed w" "frame_record kind body = Some r"
    and "int (unat n) \<le> w_max_record w" "length r + length rest < record_header_bytes + unat n"
    and "d_main (recover_replacement d) = Some (wal_file w @ take 8 r @ put_be32 n @ drop 12 r @ rest)"
  shows "\<exists>w'. open_wal True c d = Inr w' \<and> view w' = view w \<and> wal_file w' = wal_file w"
proof -
  have i: "durable w" "config_ok c w"
    using spool_reach_inv [OF assms(1)] assms(2) by (simp_all add: reach_inv_def spool_inv_def)
  let ?s = "empty_wal (effective_config c) (recover_replacement d)"
  let ?t = "take 8 r @ put_be32 n @ drop 12 r @ rest"
  have len: "length r = record_header_bytes + length body" by (rule frame_record_length [OF assms(3)])
  have h: "take record_header_bytes ?t = take 8 r @ put_be32 n @ take 4 (drop 12 r)"
    using len by (simp add: record_header_bytes_def)
  have r: "r = record_magic @ [record_version, kind, CHR 0x00, CHR 0x00] @
      put_be32 (of_nat (length body)) @ put_be32 (record_checksum kind body) @ body"
    using assms(3) by (simp add: frame_record_def split: if_splits)
  have "take 8 r = record_magic @ [record_version, kind, CHR 0x00, CHR 0x00]" by (simp add: r record_magic_def)
  moreover have "take 4 (drop 12 r) = put_be32 (record_checksum kind body)" by (simp add: r record_magic_def)
  ultimately have "parse_header (take record_header_bytes ?t) = Inr (kind, n, record_checksum kind body)"
    unfolding h by (simp add: parse_header_def record_magic_def record_header_bytes_def numeral_eq_Suc)
  moreover have "length ?t = length r + length rest" using len by (simp add: record_header_bytes_def)
  moreover have "?t \<noteq> []" using len by (auto simp: record_header_bytes_def put_be32_def)
  ultimately have torn: "next_record (w_max_record w) ?t = TornTail"
    using assms(4,5) len by (simp add: next_record_def Let_def)
  have rep: "replays_to ?s (wal_file w) w"
    using i by (auto simp: durable_def config_ok_def)
  then obtain w0 where w0: "recover_records 0 (wal_file w) ?s = Inr (w0, length (wal_file w))" "w_max_record w0 = w_max_record w"
    by (auto simp: replays_to_def)
  have "recover_records 0 (wal_file w @ ?t) ?s = Inr (w0, length (wal_file w))"
    using recover_append [of 0 "wal_file w" ?s w0 ?t] w0 torn by (simp add: recover_records.simps [of "length (wal_file w)"])
  then obtain w' where "wal_recover True ?s = Inr w'" "view w' = view w" "wal_file w' = wal_file w"
    using wal_recover_replays [OF rep, of ?t] w0(1) assms(6) by (auto simp: empty_wal_def)
  moreover have "open_wal True c d = wal_recover True ?s"
    using i(2) assms(6) wal_wfD(11) [OF durable_wf [OF i(1)]] by (simp add: open_wal_def Let_def config_ok_def)
  ultimately show ?thesis by auto
qed

theorem spool_length_not_protected_witness:
  "\<exists>r w'. frame_record record_ack ''{}'' = Some r \<and>
     open_wal True demo_config \<lparr>d_main = Some (take 8 r @ put_be32 3 @ drop 12 r), d_backup = None, d_temp = None\<rparr> = Inr w' \<and>
     view w' = view demo_wal \<and> wal_file w' = []"
proof -
  obtain r where r: "frame_record record_ack ''{}'' = Some r" "length r = 18" by (rule demo_frame)
  have "\<exists>w'. open_wal True demo_config \<lparr>d_main = Some (take 8 r @ put_be32 3 @ drop 12 r), d_backup = None, d_temp = None\<rparr>
      = Inr w' \<and> view w' = view demo_wal \<and> wal_file w' = wal_file demo_wal"
    by (rule spool_length_not_protected [OF demo_reach _ r(1), where n = 3 and rest = "[]"])
       (simp_all add: r demo_wal_def empty_wal_def demo_limits record_header_bytes_def recover_replacement_def wal_file_def)
  with r(1) show ?thesis by (auto simp: demo_wal_def empty_wal_def wal_file_def)
qed

section \<open>Limits and conflicts\<close>

text \<open>
  C30. The bytes in use are the records of the pending and quarantined batches, never negative and never more than
  \<open>MaxBytes\<close>, in every reachable spool; a quarantined batch keeps counting until it is acknowledged.
\<close>

theorem spool_capacity:
  assumes "spool_reach c w"
  shows "w_used_bytes w = sum_list (map commit_size (wal_pending w)) +
      sum_list (map (\<lambda>q. commit_size (q_commit q)) (wal_quarantined w))
    \<and> 0 \<le> w_used_bytes w \<and> w_used_bytes w \<le> sc_max_bytes (effective_config c)"
proof -
  have i: "wal_wf w" "within_capacity w" "w_max_bytes w = sc_max_bytes (effective_config c)"
    using spool_reach_inv [OF assms] by (simp_all add: reach_inv_def spool_inv_def survives_in_def)
  have "0 \<le> sum_list (map commit_size (wal_pending w))"
    "0 \<le> sum_list (map (\<lambda>q. commit_size (q_commit q)) (wal_quarantined w))"
    by (rule sum_list_nonneg; use commit_size_nonneg in auto)+
  with used_view [OF i(1)] i(2,3) show ?thesis by (simp add: view_used_def view_def within_capacity_def)
qed

theorem spool_capacity_witness:
  "w_used_bytes demo_wal = sum_list (map commit_size (wal_pending demo_wal)) +
      sum_list (map (\<lambda>q. commit_size (q_commit q)) (wal_quarantined demo_wal))
    \<and> 0 \<le> w_used_bytes demo_wal \<and> w_used_bytes demo_wal \<le> sc_max_bytes (effective_config demo_config)"
  by (rule spool_capacity [OF demo_reach])

text \<open>
  \<open>Transition\<close> is a compare-and-set: on an open spool, with a valid checkpoint and no I/O error, it replaces the durable
  checkpoint of the source exactly when the expected one (none, or the position and file identity of
  the caller) is the durable one; otherwise it fails and changes nothing, whatever the I/O would have done.
\<close>

theorem spool_transition_cas:
  assumes "\<not> w_closed w" "validate_checkpoint nxt = None" "checkpoint_json nxt = Some body" "length body < 2 ^ 32"
  shows "(transition_conflict expected nxt w \<longrightarrow> wal_transition False io expected nxt w = (w, Inl ErrTransitionConflict)) \<and>
    (\<not> transition_conflict expected nxt w \<longrightarrow>
       (\<exists>w'. wal_transition False IoOk expected nxt w = (w', Inr ()) \<and>
          w_checkpoints w' = fmupd (cp_source_key nxt) nxt (w_checkpoints w) \<and>
          wal_pending w' = wal_pending w \<and> wal_quarantined w' = wal_quarantined w))"
proof -
  obtain r where "frame_record record_checkpoint body = Some r"
    using assms(4) by (cases "frame_record record_checkpoint body") (auto simp: frame_record_def split: if_splits)
  with assms show ?thesis
    by (simp add: wal_transition_def append_record_def signal_def set_checkpoint_def set_file_def wal_pending_def
        wal_quarantined_def)
qed

theorem spool_transition_cas_witness:
  "wal_transition False IoOk (Some demo_checkpoint) demo_checkpoint demo_wal = (demo_wal, Inl ErrTransitionConflict) \<and>
   (\<exists>w'. wal_transition False IoOk None demo_checkpoint demo_wal = (w', Inr ()) \<and>
      wal_checkpoint ''app'' w' = Some demo_checkpoint)"
proof -
  obtain body where b: "checkpoint_json demo_checkpoint = Some body" "length body < 1000"
    using demo_size(2) by (auto split: option.splits)
  have v: "validate_checkpoint demo_checkpoint = None" by code_simp
  have o: "\<not> w_closed demo_wal" by (simp add: demo_wal_def empty_wal_def)
  have k: "cp_source_key demo_checkpoint = ''app''" by (simp add: demo_checkpoint_def)
  have c: "transition_conflict (Some demo_checkpoint) demo_checkpoint demo_wal"
    "\<not> transition_conflict None demo_checkpoint demo_wal"
    by (simp_all add: transition_conflict_def demo_wal_def empty_wal_def)
  show ?thesis
    using spool_transition_cas [OF o v b(1), of "Some demo_checkpoint" IoOk] spool_transition_cas [OF o v b(1), of None IoOk]
      c b(2) k by (auto simp: wal_checkpoint_def)
qed

text \<open>
  \<open>Transition\<close> does not compare its record with the record limit that recovery enforces: a transition whose
  checkpoint is larger than \<open>MaxRecordBytes\<close> succeeds, and the log it leaves cannot be opened any more.
\<close>

theorem spool_oversized_transition:
  assumes "spool_reach c w" "\<not> w_closed w" "wal_transition False IoOk expected nxt w = (w', Inr ())"
    and "checkpoint_json nxt = Some body" "w_max_record w < int (length body)"
  shows "open_wal t c (w_dir w') = Inl (ErrCorrupt (length (wal_file w)))"
proof -
  have i: "durable w" "config_ok c w"
    using spool_reach_inv [OF assms(1)] assms(2) by (simp_all add: reach_inv_def spool_inv_def)
  obtain w1 where app: "append_record IoOk record_checkpoint body w = (w1, None)" and w': "w' = signal (set_checkpoint nxt w1)"
    using assms(3,4) by (auto simp: wal_transition_def split: if_splits prod.splits option.splits)
  obtain r where r: "frame_record record_checkpoint body = Some r" "w1 = set_file (wal_file w @ r) w"
    by (rule append_record_done [OF app])
  have l: "length body < 2 ^ 32" using r(1) by (auto simp: frame_record_def split: if_splits)
  then have "unat (of_nat (length body) :: 32 word) = length body" by (simp add: unat_of_nat32)
  then have u: "uint (of_nat (length body) :: 32 word) = int (length body)" by (metis uint_nat)
  have len: "length r = record_header_bytes + length body" by (rule frame_record_length [OF r(1)])
  then have ne: "r \<noteq> []" by (auto simp: record_header_bytes_def)
  have "next_record (w_max_record w) r = BadRecord"
    using parse_header_frame(1) [OF r(1)] len ne u assms(5) by (simp add: next_record_def Let_def)
  moreover have "d_main (recover_replacement (w_dir w')) = Some (wal_file w @ r)"
    by (cases "d_backup (w_dir w)")
       (simp_all add: w' r(2) signal_def set_checkpoint_def set_file_def recover_replacement_def)
  ultimately show ?thesis using recover_bad_tail [OF i(1) _ ne i(2)] by simp
qed

definition tiny_config :: spool_config where
  "tiny_config = \<lparr>sc_path = ''/var/lib/agent.wal'', sc_max_bytes = 0, sc_max_record_bytes = 10\<rparr>"

definition tiny_wal :: wal where
  "tiny_wal = empty_wal (effective_config tiny_config) \<lparr>d_main = Some [], d_backup = None, d_temp = None\<rparr>"

theorem spool_oversized_transition_witness:
  "\<exists>w'. wal_transition False IoOk None demo_checkpoint tiny_wal = (w', Inr ()) \<and>
     open_wal True tiny_config (w_dir w') = Inl (ErrCorrupt 0)"
proof -
  have nb: "\<not> blank (sc_path tiny_config)" by code_simp
  have "open_wal False tiny_config empty_dir = Inr tiny_wal"
    using nb by (simp add: open_wal_def Let_def tiny_wal_def empty_dir_def recover_replacement_def wal_recover_def
        wal_file_def empty_wal_def effective_config_def tiny_config_def)
  then have reach: "spool_reach tiny_config tiny_wal" by (rule spool_reach.fresh)
  have "(case checkpoint_json demo_checkpoint of None \<Rightarrow> False | Some body \<Rightarrow> 10 < length body \<and> length body < 1000)"
    by code_simp
  then obtain body where b: "checkpoint_json demo_checkpoint = Some body" "10 < length body" "length body < 1000"
    by (auto split: option.splits)
  obtain r where r: "frame_record record_checkpoint body = Some r"
    using b(3) by (cases "frame_record record_checkpoint body") (auto simp: frame_record_def split: if_splits)
  have v: "validate_checkpoint demo_checkpoint = None" by code_simp
  have o: "\<not> w_closed tiny_wal" "w_max_record tiny_wal = 10" "wal_file tiny_wal = []"
    by (simp_all add: tiny_wal_def empty_wal_def effective_config_def tiny_config_def wal_file_def)
  have e: "w_checkpoints tiny_wal = fmempty" by (simp add: tiny_wal_def empty_wal_def)
  obtain w' where w': "wal_transition False IoOk None demo_checkpoint tiny_wal = (w', Inr ())"
    using b(1) r v o e by (simp add: wal_transition_def append_record_def transition_conflict_def)
  with spool_oversized_transition [OF reach o(1) w' b(1)] b(2) o show ?thesis by simp
qed

end
