(* ===== verification/Canonical_Number.thy ===== *)
theory Canonical_Number
  imports Go_Json
begin

text \<open>
  \<open>canonicalNumber\<close> of \<open>internal/protocol/ingestv1\<close>: the one text that stands for all the JSON
  literals of the same decimal value. \<open>literal_value\<close> reads a literal as a rational number without
  the code's normal form; the lemmas show that the code's result has the value of its input and
  that two literals have the same result exactly when their values are equal.
\<close>

section \<open>The code\<close>

definition trim_left :: "string \<Rightarrow> string \<Rightarrow> string" where
  "trim_left cs s = dropWhile (\<lambda>c. c \<in> set cs) s"

definition trim_right :: "string \<Rightarrow> string \<Rightarrow> string" where
  "trim_right cs s = rev (trim_left cs (rev s))"

text \<open>\<open>strings.SplitN(raw, "e", 2)\<close>, and at \<open>E\<close> when there is no \<open>e\<close>.\<close>

definition split_exponent :: "string \<Rightarrow> string \<times> string option" where
  "split_exponent raw =
     (case str_cut (CHR ''e'') raw of
        Some (m, e) \<Rightarrow> (m, Some e)
      | None \<Rightarrow> (case str_cut (CHR ''E'') raw of Some (m, e) \<Rightarrow> (m, Some e) | None \<Rightarrow> (raw, None)))"

definition exponent_of :: "string option \<Rightarrow> int option" where
  "exponent_of e =
     (case e of
        None \<Rightarrow> Some 0
      | Some t \<Rightarrow> (case parse_int64 t of
                    None \<Rightarrow> None
                  | Some p \<Rightarrow> if p < -100000 \<or> p > 100000 then None else Some p))"

text \<open>The layout of the digits \<open>ds\<close> (no leading or trailing zero) with the point after position \<open>p\<close>.\<close>

definition layout_number :: "string \<Rightarrow> string \<Rightarrow> int \<Rightarrow> string" where
  "layout_number sign ds p =
     (if -6 < p \<and> p \<le> 21 then
        (if p \<le> 0 then sign @ ''0.'' @ replicate (nat (- p)) (CHR ''0'') @ ds
         else if int (length ds) \<le> p then sign @ ds @ replicate (nat p - length ds) (CHR ''0'')
         else sign @ take (nat p) ds @ ''.'' @ drop (nat p) ds)
      else sign @ take 1 ds @ (if 1 < length ds then ''.'' @ drop 1 ds else []) @ ''e'' @ int_dec (p - 1))"

definition canonical_number :: "string \<Rightarrow> string option" where
  "canonical_number raw0 =
     (if raw0 = [] then None
      else let negative = (hd raw0 = CHR ''-'');
               raw = (if negative then tl raw0 else raw0);
               (mantissa, expo) = split_exponent raw
           in case exponent_of expo of
                None \<Rightarrow> None
              | Some exponent \<Rightarrow>
                  if 1 < count_list mantissa (CHR ''.'') then None
                  else let dot = length (takeWhile (\<lambda>c. c \<noteq> CHR ''.'') mantissa);
                           digits = remove1 (CHR ''.'') mantissa
                       in if digits = [] \<or> trim_right ''0123456789'' (trim_left ''0123456789'' digits) \<noteq> [] then None
                          else let stripped = trim_left ''0'' digits;
                                   position = int dot + exponent - int (length digits - length stripped)
                               in if stripped = [] then Some ''0''
                                  else Some (layout_number (if negative then ''-'' else []) (trim_right ''0'' stripped) position))"

section \<open>The value of a literal\<close>

text \<open>A decimal integer with an optional sign, of any size.\<close>

definition read_int :: "string \<Rightarrow> int" where
  "read_int s =
     (case s of
        [] \<Rightarrow> 0
      | c # cs \<Rightarrow> if c = CHR ''-'' then - int (dec_nat cs) else if c = CHR ''+'' then int (dec_nat cs) else int (dec_nat s))"

definition abs_value :: "string \<Rightarrow> rat" where
  "abs_value s =
     (let (m, e) = split_exponent s;
          x = (case e of None \<Rightarrow> 0 | Some t \<Rightarrow> read_int t)
      in case str_cut (CHR ''.'') m of
           None \<Rightarrow> of_nat (dec_nat m) * 10 powi x
         | Some (i, f) \<Rightarrow> (of_nat (dec_nat i) + of_nat (dec_nat f) / 10 ^ length f) * 10 powi x)"

definition literal_value :: "string \<Rightarrow> rat" where
  "literal_value s = (if s \<noteq> [] \<and> hd s = CHR ''-'' then - abs_value (tl s) else abs_value s)"

section \<open>Digit strings\<close>

lemma parse_int64_read_int: "parse_int64 s = Some n \<Longrightarrow> read_int s = n"
  by (auto simp: parse_int64_def parse_uint_def read_int_def split: list.splits if_splits option.splits)

lemma read_int_int_dec [simp]: "read_int (int_dec n) = n"
proof (cases "n < 0")
  case True
  then show ?thesis by (simp add: int_dec_def read_int_def)
next
  case False
  obtain c cs where s: "nat_dec (nat n) = c # cs" by (cases "nat_dec (nat n)") auto
  have "is_digit c" using hd_nat_dec [of "nat n"] s by simp
  then have "c \<noteq> CHR ''-''" "c \<noteq> CHR ''+''" by auto
  with s False dec_nat_nat_dec [of "nat n"] show ?thesis by (auto simp: int_dec_def read_int_def)
qed

lemma dec_nat_Nil [simp]: "dec_nat [] = 0"
  by (simp add: dec_nat_def)

lemma dec_nat_append: "dec_nat (s @ t) = dec_nat s * 10 ^ length t + dec_nat t"
proof (induction t rule: rev_induct)
  case (snoc c t)
  have "dec_nat (s @ t @ [c]) = 10 * dec_nat (s @ t) + digit_val c"
    using dec_nat_append_digit [of "s @ t" c] by simp
  then show ?case by (simp add: snoc dec_nat_append_digit algebra_simps)
qed simp

lemma digit_val_le: "is_digit c \<Longrightarrow> digit_val c \<le> 9"
  unfolding is_digit_def digit_val_def by linarith

lemma digit_val_zero: "is_digit c \<Longrightarrow> digit_val c = 0 \<longleftrightarrow> c = CHR ''0''"
  by (auto simp: is_digit_def digit_val_def simp flip: of_char_eq_iff [where ?'a = nat])

text \<open>The digits of a normal form: some, without a leading or a trailing zero.\<close>

definition norm_digits :: "string \<Rightarrow> bool" where
  "norm_digits ds \<longleftrightarrow> ds \<noteq> [] \<and> list_all is_digit ds \<and> hd ds \<noteq> CHR ''0'' \<and> last ds \<noteq> CHR ''0''"

lemma nat_dec_dec_nat:
  "list_all is_digit s \<Longrightarrow> s \<noteq> [] \<Longrightarrow> hd s \<noteq> CHR ''0'' \<Longrightarrow> nat_dec (dec_nat s) = s \<and> 0 < dec_nat s"
proof (induction s rule: rev_induct)
  case (snoc c s)
  have c: "is_digit c" "digit_val c \<le> 9" using snoc.prems digit_val_le by auto
  show ?case
  proof (cases "s = []")
    case True
    with snoc.prems c have "digit_val c \<noteq> 0" by (simp add: digit_val_zero)
    with True c show ?thesis
      by (simp add: dec_nat_def nat_dec.simps [of "digit_val c"] digit_char_digit_val)
  next
    case False
    with snoc have s: "nat_dec (dec_nat s) = s" "0 < dec_nat s" by auto
    moreover have "(10 * dec_nat s + digit_val c) div 10 = dec_nat s" "(10 * dec_nat s + digit_val c) mod 10 = digit_val c"
      using c by auto
    ultimately show ?thesis
      using c nat_dec.simps [of "10 * dec_nat s + digit_val c"]
      by (simp add: dec_nat_append_digit digit_char_digit_val)
  qed
qed simp

lemma norm_digits_pos: "norm_digits ds \<Longrightarrow> 0 < dec_nat ds"
  using nat_dec_dec_nat [of ds] by (simp add: norm_digits_def)

lemma norm_digits_inj: "norm_digits a \<Longrightarrow> norm_digits b \<Longrightarrow> dec_nat a = dec_nat b \<Longrightarrow> a = b"
  using nat_dec_dec_nat [of a] nat_dec_dec_nat [of b] by (metis norm_digits_def)

lemma norm_digits_last: "norm_digits ds \<Longrightarrow> \<not> 10 dvd dec_nat ds"
proof -
  assume n: "norm_digits ds"
  then obtain s c where ds: "ds = s @ [c]" by (cases ds rule: rev_cases) (auto simp: norm_digits_def)
  have "is_digit c" "digit_val c \<noteq> 0" using n ds by (auto simp: norm_digits_def digit_val_zero)
  moreover from this have "digit_val c \<le> 9" by (simp add: digit_val_le)
  ultimately show ?thesis by (auto simp: ds dec_nat_append_digit dvd_eq_mod_eq_0 mod_add_eq)
qed

text \<open>The value of a normal form, and that the value determines it.\<close>

definition form_value :: "string \<Rightarrow> int \<Rightarrow> rat" where
  "form_value ds p = of_nat (dec_nat ds) * 10 powi (p - int (length ds))"

lemma form_value_pos: "norm_digits ds \<Longrightarrow> 0 < form_value ds p"
  by (simp add: form_value_def norm_digits_pos)

lemma form_value_inj_le:
  assumes n: "norm_digits a" "norm_digits b" and v: "form_value a p = form_value b q"
    and le: "p - int (length a) \<le> q - int (length b)"
  shows "a = b \<and> p = q"
proof -
  define k where "k = nat ((q - int (length b)) - (p - int (length a)))"
  have q: "q - int (length b) = p - int (length a) + int k" using le by (simp add: k_def)
  have "of_nat (dec_nat a) * 10 powi (p - int (length a))
      = (of_nat (dec_nat b * 10 ^ k) :: rat) * 10 powi (p - int (length a))"
    using v by (simp add: form_value_def q power_int_add)
  then have "of_nat (dec_nat a) = (of_nat (dec_nat b * 10 ^ k) :: rat)" by simp
  then have d: "dec_nat a = dec_nat b * 10 ^ k" by (simp only: of_nat_eq_iff)
  have "k = 0"
  proof (cases k)
    case (Suc j)
    with d have "10 dvd dec_nat a" by simp
    with norm_digits_last [OF n(1)] show ?thesis by simp
  qed simp
  with d have "a = b" using norm_digits_inj [OF n] by simp
  with q \<open>k = 0\<close> show ?thesis by simp
qed

lemma form_value_inj:
  assumes "norm_digits a" "norm_digits b" "form_value a p = form_value b q"
  shows "a = b \<and> p = q"
  using form_value_inj_le [OF assms] form_value_inj_le [OF assms(2,1) assms(3) [symmetric]]
  by (cases "p - int (length a) \<le> q - int (length b)") auto

section \<open>The input\<close>

lemma trim_left_split: "s = takeWhile (\<lambda>c. c \<in> set cs) s @ trim_left cs s"
  by (simp add: trim_left_def)

lemma trim_left_zeros:
  "s = replicate (length s - length (trim_left ''0'' s)) (CHR ''0'') @ trim_left ''0'' s"
  "length (trim_left ''0'' s) \<le> length s"
  by (induction s) (auto simp: trim_left_def Suc_diff_le length_dropWhile_le le_SucI)

lemma trim_right_zeros:
  "\<exists>k. s = trim_right ''0'' s @ replicate k (CHR ''0'')"
proof -
  define k where "k = length (rev s) - length (trim_left ''0'' (rev s))"
  have "rev s = replicate k (CHR ''0'') @ trim_left ''0'' (rev s)"
    using trim_left_zeros(1) [of "rev s"] by (simp add: k_def)
  then have "s = rev (trim_left ''0'' (rev s)) @ replicate k (CHR ''0'')"
    by (metis rev_append rev_replicate rev_rev_ident)
  then show ?thesis by (auto simp: trim_right_def)
qed

lemma set_trim_left: "set (trim_left cs s) \<subseteq> set s"
  by (auto simp: trim_left_def dest: set_dropWhileD)

lemma set_trim_right: "set (trim_right cs s) \<subseteq> set s"
  using set_trim_left [of cs "rev s"] by (simp add: trim_right_def)

lemma trim_left_hd: "trim_left cs s \<noteq> [] \<Longrightarrow> hd (trim_left cs s) \<notin> set cs"
  using hd_dropWhile [of "\<lambda>c. c \<in> set cs" s] by (simp add: trim_left_def)

lemma digit_cutset: "c \<in> set ''0123456789'' \<longleftrightarrow> is_digit c"
proof
  assume "is_digit c"
  then have "digit_val c < 10" "digit_char (digit_val c) = c" using digit_val_le digit_char_digit_val by force+
  moreover from this have "digit_val c \<in> {0, 1, 2, 3, 4, 5, 6, 7, 8, 9}" by auto
  ultimately show "c \<in> set ''0123456789''" by (auto simp: digit_char_code)
qed (auto simp: is_digit_def)

lemma trim_digits_Nil:
  "trim_right ''0123456789'' (trim_left ''0123456789'' s) = [] \<longleftrightarrow> list_all is_digit s"
proof -
  have "trim_left ''0123456789'' s = [] \<longleftrightarrow> list_all is_digit s" for s
    by (auto simp: trim_left_def list_all_iff dropWhile_eq_Nil_conv simp flip: digit_cutset)
  note this [of "rev (trim_left ''0123456789'' s)"] this [of s]
  moreover have "trim_left ''0123456789'' s = []" if "list_all is_digit (trim_left ''0123456789'' s)"
    using that trim_left_hd [of "''0123456789''" s] digit_cutset
    by (cases "trim_left ''0123456789'' s") auto
  ultimately show ?thesis by (auto simp: trim_right_def)
qed

lemma norm_digits_strip:
  assumes "list_all is_digit s" "trim_left ''0'' s \<noteq> []"
  shows "norm_digits (trim_right ''0'' (trim_left ''0'' s))"
proof -
  define t where "t = trim_left ''0'' s"
  have t: "t \<noteq> []" "hd t \<noteq> CHR ''0''" "list_all is_digit t"
    using assms trim_left_hd [of "''0''" s] set_trim_left [of "''0''" s] by (auto simp: t_def list_all_iff)
  obtain k where k: "t = trim_right ''0'' t @ replicate k (CHR ''0'')" using trim_right_zeros by blast
  have ne: "trim_right ''0'' t \<noteq> []"
  proof
    assume "trim_right ''0'' t = []"
    with k have "t = replicate k (CHR ''0'')" by simp
    with t(1,2) show False by (cases k) auto
  qed
  have "hd (trim_right ''0'' t) = hd t" using k ne by (metis hd_append2)
  moreover have "last (trim_right ''0'' t) \<noteq> CHR ''0''"
    using trim_left_hd [of "''0''" "rev t"] ne by (simp add: trim_right_def last_rev)
  moreover have "list_all is_digit (trim_right ''0'' t)"
    using set_trim_right [of "''0''" t] t(3) by (auto simp: list_all_iff)
  ultimately show ?thesis using t ne by (simp add: norm_digits_def t_def)
qed

lemma dec_nat_strip:
  assumes "trim_left ''0'' s = t"
  shows "\<exists>k. length t = length (trim_right ''0'' t) + k \<and> dec_nat s = dec_nat (trim_right ''0'' t) * 10 ^ k"
proof -
  obtain k where k: "t = trim_right ''0'' t @ replicate k (CHR ''0'')" using trim_right_zeros by blast
  have "dec_nat s = dec_nat t" using trim_left_zeros(1) [of s] assms dec_nat_zeros by metis
  also have "\<dots> = dec_nat (trim_right ''0'' t) * 10 ^ k"
    using dec_nat_append [of "trim_right ''0'' t" "replicate k (CHR ''0'')"] dec_nat_zeros [of k "[]"] k by simp
  finally show ?thesis using k by (metis length_append length_replicate)
qed

text \<open>The digits of a mantissa and the position of its point.\<close>

lemma mantissa_cut:
  assumes "count_list m (CHR ''.'') \<le> 1"
  shows "str_cut (CHR ''.'') m = None \<and> remove1 (CHR ''.'') m = m \<and> takeWhile (\<lambda>c. c \<noteq> CHR ''.'') m = m \<or>
    (\<exists>i f. str_cut (CHR ''.'') m = Some (i, f) \<and> remove1 (CHR ''.'') m = i @ f \<and> takeWhile (\<lambda>c. c \<noteq> CHR ''.'') m = i)"
proof (cases "str_cut (CHR ''.'') m")
  case None
  then have "CHR ''.'' \<notin> set m" by (simp add: str_cut_None_iff)
  then show ?thesis using None by (auto simp: remove1_idem takeWhile_eq_all_conv)
next
  case (Some p)
  obtain i f where p: "p = (i, f)" by (cases p)
  from str_cut_SomeD [OF Some [unfolded p]] have m: "m = i @ CHR ''.'' # f" "CHR ''.'' \<notin> set i" by auto
  then have "remove1 (CHR ''.'') m = i @ f" by (simp add: remove1_append)
  moreover have "takeWhile (\<lambda>c. c \<noteq> CHR ''.'') m = i"
    using m by (simp add: takeWhile_append)
  ultimately show ?thesis using Some p by auto
qed

lemma exponent_value: "exponent_of e = Some x \<Longrightarrow> (case e of None \<Rightarrow> 0 | Some t \<Rightarrow> read_int t) = x"
  by (auto simp: exponent_of_def parse_int64_read_int split: option.splits if_splits)

definition sign_text :: "bool \<Rightarrow> string" where
  "sign_text neg = (if neg then ''-'' else [])"

definition sign_value :: "bool \<Rightarrow> rat" where
  "sign_value neg = (if neg then -1 else 1)"

lemma canonical_number_form:
  assumes "canonical_number raw = Some c"
  shows "c = ''0'' \<and> literal_value raw = 0 \<or>
    (\<exists>neg ds p. norm_digits ds \<and> c = layout_number (sign_text neg) ds p \<and>
       literal_value raw = sign_value neg * form_value ds p)"
proof -
  define neg where "neg = (hd raw = CHR ''-'')"
  define body where "body = (if neg then tl raw else raw)"
  obtain m e where me: "split_exponent body = (m, e)" by (cases "split_exponent body")
  have ne: "raw \<noteq> []" using assms by (auto simp: canonical_number_def)
  have lv: "literal_value raw = sign_value neg * abs_value body"
    using ne by (simp add: literal_value_def neg_def body_def sign_value_def)
  have eqn: "canonical_number raw =
      (case exponent_of e of None \<Rightarrow> None
       | Some x \<Rightarrow> if 1 < count_list m (CHR ''.'') then None
           else if remove1 (CHR ''.'') m = [] \<or> \<not> list_all is_digit (remove1 (CHR ''.'') m) then None
           else if trim_left ''0'' (remove1 (CHR ''.'') m) = [] then Some ''0''
           else Some (layout_number (sign_text neg) (trim_right ''0'' (trim_left ''0'' (remove1 (CHR ''.'') m)))
             (int (length (takeWhile (\<lambda>c. c \<noteq> CHR ''.'') m)) + x
               - int (length (remove1 (CHR ''.'') m) - length (trim_left ''0'' (remove1 (CHR ''.'') m))))))"
    using ne me by (simp add: canonical_number_def Let_def trim_digits_Nil sign_text_def neg_def body_def
        split del: if_split cong: option.case_cong if_cong)
  define dg where "dg = remove1 (CHR ''.'') m"
  define st where "st = trim_left ''0'' dg"
  obtain x where x: "exponent_of e = Some x" and cnt: "count_list m (CHR ''.'') \<le> 1"
    and dg: "dg \<noteq> []" "list_all is_digit dg"
    using assms unfolding eqn by (auto simp: dg_def split: option.splits if_splits)
  have c: "c = (if st = [] then ''0'' else layout_number (sign_text neg) (trim_right ''0'' st)
      (int (length (takeWhile (\<lambda>c. c \<noteq> CHR ''.'') m)) + x - int (length dg - length st)))"
    using assms x cnt dg unfolding eqn by (auto simp: dg_def [symmetric] st_def split: if_splits)
  obtain k where k: "length st = length (trim_right ''0'' st) + k" "dec_nat dg = dec_nat (trim_right ''0'' st) * 10 ^ k"
    using dec_nat_strip [of dg st] st_def by auto
  have len: "length st \<le> length dg" using trim_left_zeros(2) by (simp add: st_def)
  have av: "abs_value body = of_nat (dec_nat dg) *
      10 powi (x + int (length (takeWhile (\<lambda>c. c \<noteq> CHR ''.'') m)) - int (length dg))"
    using mantissa_cut [OF cnt]
  proof (elim disjE exE conjE)
    assume "str_cut (CHR ''.'') m = None" "remove1 (CHR ''.'') m = m" "takeWhile (\<lambda>c. c \<noteq> CHR ''.'') m = m"
    then show ?thesis using me exponent_value [OF x] by (simp add: abs_value_def dg_def del: takeWhile_eq_all_conv)
  next
    fix i f assume h: "str_cut (CHR ''.'') m = Some (i, f)" "remove1 (CHR ''.'') m = i @ f"
      "takeWhile (\<lambda>c. c \<noteq> CHR ''.'') m = i"
    then have "abs_value body = (of_nat (dec_nat i) + of_nat (dec_nat f) / 10 ^ length f) * 10 powi x"
      using me exponent_value [OF x] by (simp add: abs_value_def)
    also have "of_nat (dec_nat i) + of_nat (dec_nat f) / 10 ^ length f
        = (of_nat (dec_nat dg) :: rat) * 10 powi (- int (length f))"
      using h by (simp add: dg_def dec_nat_append power_int_minus field_simps)
    finally show ?thesis using h by (simp add: dg_def power_int_add [symmetric] mult.assoc)
  qed
  show ?thesis
  proof (cases "st = []")
    case True
    with k have "dec_nat dg = 0" by simp
    with True c lv av show ?thesis by simp
  next
    case False
    then have "norm_digits (trim_right ''0'' st)" using norm_digits_strip [OF dg(2)] by (simp add: st_def)
    moreover have "abs_value body = form_value (trim_right ''0'' st)
      (int (length (takeWhile (\<lambda>c. c \<noteq> CHR ''.'') m)) + x - int (length dg - length st))"
      using av k len by (simp add: form_value_def power_int_add [symmetric] of_nat_diff algebra_simps flip: power_int_of_nat)
    ultimately show ?thesis using False c lv by auto
  qed
qed

section \<open>The output\<close>

lemma split_exponent_plain:
  "list_all (\<lambda>c. is_digit c \<or> c = CHR ''.'') s \<Longrightarrow> split_exponent s = (s, None)"
proof -
  assume "list_all (\<lambda>c. is_digit c \<or> c = CHR ''.'') s"
  then have "CHR ''e'' \<notin> set s" "CHR ''E'' \<notin> set s" by (auto simp: list_all_iff is_digit_def)
  then show ?thesis by (simp add: split_exponent_def str_cut_None_iff [symmetric])
qed

lemma split_exponent_e:
  "list_all (\<lambda>c. is_digit c \<or> c = CHR ''.'') s \<Longrightarrow> split_exponent (s @ CHR ''e'' # t) = (s, Some t)"
proof -
  assume "list_all (\<lambda>c. is_digit c \<or> c = CHR ''.'') s"
  then have "CHR ''e'' \<notin> set s" by (auto simp: list_all_iff is_digit_def)
  then show ?thesis by (simp add: split_exponent_def str_cut_append)
qed

lemma no_point: "list_all is_digit s \<Longrightarrow> CHR ''.'' \<notin> set s"
  by (auto simp: list_all_iff is_digit_def)

lemma digits_or_point: "list_all is_digit s \<Longrightarrow> list_all (\<lambda>c. is_digit c \<or> c = CHR ''.'') s"
  by (auto simp: list_all_iff)

lemma abs_value_point:
  assumes "list_all is_digit i" "list_all is_digit f"
  shows "abs_value (i @ CHR ''.'' # f) = of_nat (dec_nat (i @ f)) * 10 powi (- int (length f))"
    and "abs_value (i @ CHR ''.'' # f @ CHR ''e'' # int_dec x) = of_nat (dec_nat (i @ f)) * 10 powi (x - int (length f))"
proof -
  have l: "list_all (\<lambda>c. is_digit c \<or> c = CHR ''.'') (i @ CHR ''.'' # f)"
    using assms digits_or_point by simp
  have cut: "str_cut (CHR ''.'') (i @ CHR ''.'' # f) = Some (i, f)" using no_point [OF assms(1)] by (rule str_cut_append)
  have v: "of_nat (dec_nat i) + of_nat (dec_nat f) / 10 ^ length f
      = (of_nat (dec_nat (i @ f)) :: rat) * 10 powi (- int (length f))"
    by (simp add: dec_nat_append power_int_minus field_simps)
  show "abs_value (i @ CHR ''.'' # f) = of_nat (dec_nat (i @ f)) * 10 powi (- int (length f))"
    using v by (simp add: abs_value_def split_exponent_plain [OF l] cut)
  have "abs_value ((i @ CHR ''.'' # f) @ CHR ''e'' # int_dec x)
      = (of_nat (dec_nat i) + of_nat (dec_nat f) / 10 ^ length f) * 10 powi x"
    by (simp only: abs_value_def split_exponent_e [OF l] cut Let_def prod.case option.case read_int_int_dec)
  then show "abs_value (i @ CHR ''.'' # f @ CHR ''e'' # int_dec x)
      = of_nat (dec_nat (i @ f)) * 10 powi (x - int (length f))"
    by (simp only: v) (simp add: power_int_add [symmetric] mult.assoc)
qed

lemma abs_value_int:
  assumes "list_all is_digit i"
  shows "abs_value i = of_nat (dec_nat i)"
    and "abs_value (i @ CHR ''e'' # int_dec x) = of_nat (dec_nat i) * 10 powi x"
  using no_point [OF assms] digits_or_point [OF assms]
  by (simp_all add: abs_value_def split_exponent_plain split_exponent_e str_cut_None_iff [symmetric])

lemma dec_nat_append_zeros': "dec_nat (s @ replicate k (CHR ''0'')) = dec_nat s * 10 ^ k"
  using dec_nat_append [of s "replicate k (CHR ''0'')"] dec_nat_zeros [of k "[]"] by simp

lemma digits_zeros [simp]: "list_all is_digit (replicate k (CHR ''0''))"
  by (simp add: list_all_iff is_digit_def)

lemma layout_small_value:
  assumes d: "list_all is_digit ds" and p: "-6 < p" "p \<le> 0"
  shows "abs_value (layout_number [] ds p) = form_value ds p"
proof -
  define z where "z = replicate (nat (- p)) (CHR ''0'')"
  have l: "layout_number [] ds p = ''0'' @ CHR ''.'' # (z @ ds)"
    using p by (simp add: layout_number_def z_def)
  have "dec_nat (''0'' @ z @ ds) = dec_nat ds"
    using dec_nat_zeros [of "Suc (nat (- p))" ds] by (simp add: z_def)
  moreover have "list_all is_digit ''0''" by (simp add: is_digit_def)
  moreover have "list_all is_digit (z @ ds)" using d by (simp add: z_def)
  moreover have "- int (length (z @ ds)) = p - int (length ds)" using p by (simp add: z_def)
  ultimately show ?thesis
    using abs_value_point(1) [of "''0''" "z @ ds"] unfolding l form_value_def by metis
qed

lemma layout_large_value:
  assumes d: "list_all is_digit ds" and p: "0 < p" "p \<le> 21" "int (length ds) \<le> p"
  shows "abs_value (layout_number [] ds p) = form_value ds p"
proof -
  define k where "k = nat p - length ds"
  have l: "layout_number [] ds p = ds @ replicate k (CHR ''0'')"
    using p by (simp add: layout_number_def k_def)
  have "p - int (length ds) = int k" using p by (simp add: k_def)
  then have "form_value ds p = of_nat (dec_nat (ds @ replicate k (CHR ''0'')))"
    by (simp add: form_value_def dec_nat_append_zeros' power_int_of_nat)
  then show ?thesis
    using abs_value_int(1) [of "ds @ replicate k (CHR ''0'')"] d by (simp add: l)
qed

lemma layout_middle_value:
  assumes d: "list_all is_digit ds" and p: "0 < p" "p \<le> 21" "p < int (length ds)"
  shows "abs_value (layout_number [] ds p) = form_value ds p"
proof -
  have l: "layout_number [] ds p = take (nat p) ds @ CHR ''.'' # drop (nat p) ds"
    using p by (simp add: layout_number_def)
  have "list_all is_digit (take (nat p) ds)" "list_all is_digit (drop (nat p) ds)"
    using d by (auto simp: list_all_iff dest: in_set_takeD in_set_dropD)
  moreover have "- int (length (drop (nat p) ds)) = p - int (length ds)" using p by simp
  ultimately show ?thesis
    using abs_value_point(1) [of "take (nat p) ds" "drop (nat p) ds"]
    unfolding l form_value_def by (metis append_take_drop_id)
qed

lemma layout_expo_value:
  assumes d: "list_all is_digit ds" "ds \<noteq> []" and p: "p \<le> -6 \<or> 21 < p"
  shows "abs_value (layout_number [] ds p) = form_value ds p"
proof -
  obtain c cs where ds: "ds = c # cs" using d by (cases ds) auto
  have l: "layout_number [] ds p = [c] @ (if cs \<noteq> [] then CHR ''.'' # cs else []) @ CHR ''e'' # int_dec (p - 1)"
    using p by (auto simp: layout_number_def ds)
  have c: "list_all is_digit [c]" "list_all is_digit cs" using d ds by auto
  show ?thesis
  proof (cases "cs = []")
    case True
    then show ?thesis using abs_value_int(2) [OF c(1), of "p - 1"] unfolding l form_value_def by (simp add: ds)
  next
    case False
    then show ?thesis using abs_value_point(2) [OF c, of "p - 1"] unfolding l form_value_def by (simp add: ds diff_diff_eq)
  qed
qed

lemma layout_number_value:
  assumes n: "norm_digits ds"
  shows "abs_value (layout_number [] ds p) = form_value ds p"
proof -
  have d: "list_all is_digit ds" "ds \<noteq> []" using n by (simp_all add: norm_digits_def)
  have "-6 < p \<and> p \<le> 0 \<or> 0 < p \<and> p \<le> 21 \<and> int (length ds) \<le> p \<or>
      0 < p \<and> p \<le> 21 \<and> p < int (length ds) \<or> (p \<le> -6 \<or> 21 < p)"
    by linarith
  then show ?thesis
    using layout_small_value [OF d(1)] layout_large_value [OF d(1)] layout_middle_value [OF d(1)]
      layout_expo_value [OF d] by blast
qed

lemma layout_number_sign: "layout_number (sign_text neg) ds p = sign_text neg @ layout_number [] ds p"
  by (simp add: layout_number_def)

lemma layout_number_hd:
  assumes n: "norm_digits ds"
  shows "layout_number [] ds p \<noteq> [] \<and> is_digit (hd (layout_number [] ds p))"
proof -
  obtain c cs where ds: "ds = c # cs" using n by (cases ds) (auto simp: norm_digits_def)
  moreover have "is_digit c" "is_digit CHR ''0''" using n by (auto simp: ds norm_digits_def is_digit_def)
  ultimately show ?thesis by (auto simp: layout_number_def take_Cons' ds)
qed

lemma layout_number_literal:
  assumes n: "norm_digits ds"
  shows "literal_value (layout_number (sign_text neg) ds p) = sign_value neg * form_value ds p"
proof -
  have "hd (layout_number [] ds p) \<noteq> CHR ''-''" using layout_number_hd [OF n, of p] by auto
  then show ?thesis
    using layout_number_value [OF n, of p]
      layout_number_hd [OF n, of p]
    unfolding literal_value_def layout_number_sign by (cases neg) (auto simp: sign_text_def sign_value_def)
qed

lemma literal_value_0 [simp]: "literal_value ''0'' = 0"
proof -
  have "list_all is_digit ''0''" by (simp add: is_digit_def)
  from abs_value_int(1) [OF this] show ?thesis by (simp add: literal_value_def dec_nat_def digit_val_def)
qed

lemma canonical_number_value: "canonical_number raw = Some c \<Longrightarrow> literal_value c = literal_value raw"
  using canonical_number_form [of raw c] by (auto simp: layout_number_literal)

lemma signed_form_inj:
  assumes "norm_digits a" "norm_digits b" "sign_value n * form_value a p = sign_value m * form_value b q"
  shows "n = m \<and> a = b \<and> p = q"
proof -
  have "0 < form_value a p" "0 < form_value b q" using assms(1,2) by (simp_all add: form_value_pos)
  with assms(3) have "n = m \<and> form_value a p = form_value b q"
    by (cases n; cases m) (auto simp: sign_value_def)
  with form_value_inj [OF assms(1,2)] show ?thesis by blast
qed

text \<open>Equal results stand for equal values, and conversely.\<close>

lemma canonical_number_eq_iff:
  assumes "canonical_number r1 = Some c1" "canonical_number r2 = Some c2"
  shows "c1 = c2 \<longleftrightarrow> literal_value r1 = literal_value r2"
proof
  assume "c1 = c2"
  then show "literal_value r1 = literal_value r2"
    using canonical_number_value [OF assms(1)] canonical_number_value [OF assms(2)] by simp
next
  assume v: "literal_value r1 = literal_value r2"
  have nz: "sign_value n * form_value ds p \<noteq> 0" if "norm_digits ds" for n ds p
    using form_value_pos [OF that, of p] by (simp add: sign_value_def)
  from canonical_number_form [OF assms(1)] show "c1 = c2"
  proof (elim disjE exE conjE)
    assume z: "c1 = ''0''" "literal_value r1 = 0"
    with canonical_number_form [OF assms(2)] v nz show ?thesis by fastforce
  next
    fix n a p assume a: "norm_digits a" "c1 = layout_number (sign_text n) a p"
      and va: "literal_value r1 = sign_value n * form_value a p"
    from canonical_number_form [OF assms(2)] show ?thesis
    proof (elim disjE exE conjE)
      assume "literal_value r2 = 0"
      with v va nz [OF a(1)] show ?thesis by simp
    next
      fix m b q assume b: "norm_digits b" "c2 = layout_number (sign_text m) b q"
        and vb: "literal_value r2 = sign_value m * form_value b q"
      have "n = m \<and> a = b \<and> p = q" using v va vb by (intro signed_form_inj [OF a(1) b(1)]) simp
      with a b show ?thesis by simp
    qed
  qed
qed

section \<open>The output is a JSON number\<close>

lemma takeWhile_digits_all: "list_all is_digit d \<Longrightarrow> d \<noteq> [] \<Longrightarrow> no_digit r \<Longrightarrow> scan_digits (d @ r) = Some (d, r)"
  by (rule scan_digits_append) (auto simp: no_digit_def)

lemma scan_int_part_norm:
  assumes "list_all is_digit d" "d \<noteq> []" "hd d \<noteq> CHR ''0''" "no_digit r"
  shows "scan_int_part (d @ r) = Some (d, r)"
  using assms takeWhile_digits_all [of d r] by (cases d) (auto simp: scan_int_part_def)

lemma scan_exp_int_dec: "scan_exp (CHR ''e'' # int_dec n) = Some (CHR ''e'' # int_dec n, [])"
proof (cases "n < 0")
  case True
  then show ?thesis
    using takeWhile_digits_all [of "nat_dec (nat (- n))" "[]"] by (simp add: int_dec_def scan_exp_def no_digit_def)
next
  case False
  obtain c cs where s: "nat_dec (nat n) = c # cs" by (cases "nat_dec (nat n)") auto
  have "is_digit c" using hd_nat_dec [of "nat n"] s by simp
  then have "c \<noteq> CHR ''-''" "c \<noteq> CHR ''+''" by auto
  with False s show ?thesis
    using takeWhile_digits_all [of "nat_dec (nat n)" "[]"] nat_dec_digits [of "nat n"]
    by (simp add: int_dec_def scan_exp_def no_digit_def)
qed

lemma scan_frac_digits:
  "list_all is_digit f \<Longrightarrow> f \<noteq> [] \<Longrightarrow> no_digit r \<Longrightarrow> scan_frac (CHR ''.'' # f @ r) = Some (CHR ''.'' # f, r)"
  by (simp add: scan_frac_def takeWhile_digits_all)

lemma scan_unsigned_layout:
  assumes n: "norm_digits ds"
  shows "scan_unsigned (layout_number [] ds p) = Some (layout_number [] ds p, [])"
proof -
  have d: "list_all is_digit ds" "ds \<noteq> []" "hd ds \<noteq> CHR ''0''" using n by (simp_all add: norm_digits_def)
  obtain c cs where ds: "ds = c # cs" using d by (cases ds) auto
  have nd: "no_digit (CHR ''.'' # t)" "no_digit (CHR ''e'' # t)" "no_digit []" for t
    by (simp_all add: no_digit_def is_digit_def)
  have e0: "scan_exp [] = Some ([], [])" "scan_frac [] = Some ([], [])" by (simp_all add: scan_exp_def scan_frac_def)
  consider (small) "-6 < p" "p \<le> 0" | (large) "0 < p" "p \<le> 21" "int (length ds) \<le> p"
    | (middle) "0 < p" "p \<le> 21" "p < int (length ds)" | (expo) "p \<le> -6 \<or> 21 < p"
    by linarith
  then show ?thesis
  proof cases
    case p: small
    define f where "f = replicate (nat (- p)) (CHR ''0'') @ ds"
    have f: "list_all is_digit f" "f \<noteq> []" using d by (simp_all add: f_def)
    have l: "layout_number [] ds p = CHR ''0'' # CHR ''.'' # f" using p by (simp add: layout_number_def f_def)
    show ?thesis
      using scan_frac_digits [OF f nd(3)] e0 unfolding l by (simp add: scan_unsigned_def scan_int_part_def)
  next
    case p: large
    define w where "w = ds @ replicate (nat p - length ds) (CHR ''0'')"
    have w: "list_all is_digit w" "w \<noteq> []" "hd w \<noteq> CHR ''0''" using d by (simp_all add: w_def)
    have l: "layout_number [] ds p = w" using p by (simp add: layout_number_def w_def)
    show ?thesis using scan_int_part_norm [OF w nd(3)] e0 unfolding l by (simp add: scan_unsigned_def)
  next
    case p: middle
    define i where "i = take (nat p) ds"
    define f where "f = drop (nat p) ds"
    have i: "list_all is_digit i" "i \<noteq> []" "hd i \<noteq> CHR ''0''" and f: "list_all is_digit f" "f \<noteq> []"
      using d p by (auto simp: i_def f_def list_all_iff dest: in_set_takeD in_set_dropD)
    have l: "layout_number [] ds p = i @ CHR ''.'' # f" using p by (simp add: layout_number_def i_def f_def)
    show ?thesis
      using scan_int_part_norm [OF i nd(1)] scan_frac_digits [OF f nd(3)] e0 unfolding l
      by (simp add: scan_unsigned_def)
  next
    case p: expo
    have c: "list_all is_digit [c]" "[c] \<noteq> []" "hd [c] \<noteq> CHR ''0''" "list_all is_digit cs" using d ds by auto
    have l: "layout_number [] ds p = [c] @ (if cs \<noteq> [] then CHR ''.'' # cs else []) @ CHR ''e'' # int_dec (p - 1)"
      using p by (auto simp: layout_number_def ds)
    have "scan_frac (CHR ''e'' # t) = Some ([], CHR ''e'' # t)" for t by (simp add: scan_frac_def)
    then show ?thesis
      using scan_int_part_norm [OF c(1-3) nd(1)] scan_int_part_norm [OF c(1-3) nd(2)]
        scan_frac_digits [OF c(4) _ nd(2)] scan_exp_int_dec [of "p - 1"] unfolding l
      by (cases "cs = []") (simp_all add: scan_unsigned_def)
  qed
qed

lemma canonical_number_ok:
  assumes "canonical_number raw = Some c"
  shows "num_ok c"
  using canonical_number_form [OF assms]
proof (elim disjE exE conjE)
  assume "c = ''0''"
  then show ?thesis
    by (simp add: num_ok_def scan_num_def scan_unsigned_def scan_int_part_def scan_frac_def scan_exp_def)
next
  fix neg ds p assume n: "norm_digits ds" and c: "c = layout_number (sign_text neg) ds p"
  have "hd (layout_number [] ds p) \<noteq> CHR ''-''" using layout_number_hd [OF n, of p] by auto
  then obtain d t where l: "layout_number [] ds p = d # t" "d \<noteq> CHR ''-''"
    using layout_number_hd [OF n, of p] by (cases "layout_number [] ds p") auto
  then show ?thesis
    using scan_unsigned_layout [OF n, of p]
    unfolding c layout_number_sign num_ok_def by (cases neg) (simp_all add: sign_text_def scan_num_def)
qed

end
