(* ===== verification/Gline_Domain.thy ===== *)
theory Gline_Domain
  imports Go_Struct
begin

text \<open>
  The domain model (\<open>internal/domain\<close>): identifiers, statuses and scopes are strings with a validity test, as in
  the code; a Go pointer is an \<open>option\<close>; the dynamic values of \<open>map[string]any\<close> are \<open>gvalue\<close>, an object being the
  list of its keys and values without duplicate keys. The validations return the error of the first
  test that fails.
\<close>

section \<open>Errors\<close>

datatype domain_error =
    ErrInvalid string
  | ErrInvalidTransition
  | ErrProjectDisabled
  | ErrScopeDenied
  | ErrIdempotencyConflict

section \<open>Identifiers\<close>

type_synonym uuid = string

definition is_hex :: "char \<Rightarrow> bool" where
  "is_hex c \<longleftrightarrow> is_digit c \<or> (97 \<le> byte_val c \<and> byte_val c \<le> 102) \<or> (65 \<le> byte_val c \<and> byte_val c \<le> 70)"

definition uuid_char :: "nat \<Rightarrow> char \<Rightarrow> bool" where
  "uuid_char i c \<longleftrightarrow> (if i = 8 \<or> i = 13 \<or> i = 18 \<or> i = 23 then c = CHR ''-'' else is_hex c)"

definition valid_uuid :: "uuid \<Rightarrow> bool" where
  "valid_uuid s \<longleftrightarrow> length s = 36 \<and> list_all (\<lambda>(i, c). uuid_char i c) (enumerate 0 s)"

definition validate_project_id :: "uuid \<Rightarrow> domain_error option" where
  "validate_project_id i = (if \<not> valid_uuid i then Some (ErrInvalid ''project id'') else None)"

section \<open>Statuses and scopes\<close>

definition project_statuses :: "string list" where
  "project_statuses = [''active'', ''disabled'']"
definition key_statuses :: "string list" where
  "key_statuses = [''active'', ''revoked'', ''expired'']"
definition agent_statuses :: "string list" where
  "agent_statuses = [''active'', ''stale'', ''disabled'']"
definition pipeline_statuses :: "string list" where
  "pipeline_statuses = [''enabled'', ''paused'', ''error'', ''disabled'']"
definition reported_statuses :: "string list" where
  "reported_statuses = [''running'', ''stopped'', ''error'']"
definition batch_statuses :: "string list" where
  "batch_statuses = [''committed'', ''rejected'', ''quarantined'']"
definition quarantine_statuses :: "string list" where
  "quarantine_statuses = [''pending'', ''replaying'', ''resolved'', ''discarded'']"
definition audit_outcomes :: "string list" where
  "audit_outcomes = [''success'', ''rejected'', ''failed'']"
definition all_scopes :: "string list" where
  "all_scopes =
     [''ingest'', ''query'', ''project:read'', ''project:write'', ''key:manage'', ''agent:read'', ''agent:write'',
      ''pipeline:read'', ''pipeline:write'', ''quarantine:read'', ''quarantine:replay'', ''retention:manage'',
      ''audit:read'']"

section \<open>Projects, keys, agents, pipelines\<close>

record project =
  pj_id :: uuid
  pj_slug :: string
  pj_name :: string
  pj_status :: string
  pj_created_at :: time
  pj_updated_at :: time

definition validate_project :: "project \<Rightarrow> domain_error option" where
  "validate_project p =
     (if \<not> valid_uuid (pj_id p) \<or> blank (pj_slug p) \<or> blank (pj_name p) \<or> pj_status p \<notin> set project_statuses
      then Some (ErrInvalid ''project'') else None)"

definition can_ingest :: "project \<Rightarrow> domain_error option" where
  "can_ingest p = (if pj_status p \<noteq> ''active'' then Some ErrProjectDisabled else None)"

definition can_query :: "project \<Rightarrow> domain_error option" where
  "can_query p = can_ingest p"

record api_key =
  k_id :: uuid
  k_project_id :: uuid
  k_agent_id :: "uuid option"
  k_name :: string
  k_prefix :: string
  k_secret_hash :: bytes
  k_scopes :: "string list"
  k_status :: string
  k_expires_at :: "time option"
  k_last_used_at :: "time option"
  k_created_at :: time
  k_revoked_at :: "time option"

definition has_scope :: "api_key \<Rightarrow> string \<Rightarrow> bool" where
  "has_scope k want \<longleftrightarrow> list_ex (\<lambda>s. s = want) (k_scopes k)"

definition usable_at :: "api_key \<Rightarrow> time \<Rightarrow> bool" where
  "usable_at k now \<longleftrightarrow>
     k_status k = ''active'' \<and> (case k_expires_at k of None \<Rightarrow> True | Some e \<Rightarrow> now < e)"

text \<open>The loop over the scopes, with the set of scopes seen so far.\<close>

fun check_scopes :: "string set \<Rightarrow> string list \<Rightarrow> domain_error option" where
  "check_scopes seen [] = None"
| "check_scopes seen (s # ss) =
     (if s \<notin> set all_scopes then Some (ErrInvalid (''scope '' @ s))
      else if s \<in> seen then Some (ErrInvalid (''duplicate scope '' @ s))
      else check_scopes (insert s seen) ss)"

definition validate_api_key :: "api_key \<Rightarrow> domain_error option" where
  "validate_api_key k =
     (if \<not> valid_uuid (k_id k) \<or> \<not> valid_uuid (k_project_id k) \<or> blank (k_prefix k) \<or> k_secret_hash k = [] \<or>
        k_status k \<notin> set key_statuses then Some (ErrInvalid ''api key'')
      else if (case k_agent_id k of None \<Rightarrow> False | Some a \<Rightarrow> \<not> valid_uuid a) then Some (ErrInvalid ''api key agent'')
      else if length (k_name k) > 128 then Some (ErrInvalid ''api key name'')
      else if k_scopes k = [] then Some (ErrInvalid ''api key scopes'')
      else if (k_status k = ''revoked'') \<noteq> (k_revoked_at k \<noteq> None) then Some (ErrInvalid ''api key revocation state'')
      else if k_status k = ''expired'' \<and> k_expires_at k = None then Some (ErrInvalid ''api key expiry state'')
      else check_scopes {} (k_scopes k))"

record agent =
  ag_id :: uuid
  ag_project_id :: uuid
  ag_name :: string
  ag_hostname :: string
  ag_version :: string
  ag_status :: string
  ag_last_heartbeat :: "time option"
  ag_last_seen_ip :: string
  ag_created_at :: time
  ag_updated_at :: time

definition validate_agent :: "agent \<Rightarrow> domain_error option" where
  "validate_agent a =
     (if \<not> valid_uuid (ag_id a) \<or> \<not> valid_uuid (ag_project_id a) \<or> blank (ag_name a) \<or> blank (ag_hostname a) \<or>
        ag_status a \<notin> set agent_statuses then Some (ErrInvalid ''agent'') else None)"

record pipeline =
  pl_id :: uuid
  pl_project_id :: uuid
  pl_agent_id :: uuid
  pl_name :: string
  pl_service :: string
  pl_config :: bytes
  pl_config_version :: int
  pl_status :: string
  pl_reported_status :: string
  pl_reported_at :: "time option"
  pl_last_error :: "string option"
  pl_updated_at :: time

text \<open>A JSON document that decodes into a map that is not nil: an object, but not \<open>null\<close>.\<close>

definition valid_json_object :: "bytes \<Rightarrow> bool" where
  "valid_json_object raw \<longleftrightarrow>
     (case json_parse raw of Some (JObj ms) \<Rightarrow> list_all (\<lambda>(k, t, v). unquote_body k \<noteq> None) ms | _ \<Rightarrow> False)"

definition validate_pipeline :: "pipeline \<Rightarrow> domain_error option" where
  "validate_pipeline p =
     (if \<not> valid_uuid (pl_id p) \<or> \<not> valid_uuid (pl_project_id p) \<or> \<not> valid_uuid (pl_agent_id p) \<or>
        blank (pl_name p) \<or> blank (pl_service p) then Some (ErrInvalid ''pipeline identity'')
      else if pl_config_version p \<le> 0 \<or> pl_status p \<notin> set pipeline_statuses \<or>
        pl_reported_status p \<notin> set reported_statuses \<or> \<not> valid_json_object (pl_config p)
      then Some (ErrInvalid ''pipeline state'') else None)"

section \<open>Batches and entries\<close>

datatype gvalue =
    VNull
  | VBool bool
  | VNum string
  | VStr string
  | VArr "gvalue list"
  | VObj "(string \<times> gvalue) list"

record entry =
  e_id :: int
  e_project_id :: uuid
  e_batch_id :: uuid
  e_agent_id :: uuid
  e_pipeline_id :: uuid
  e_batch_sequence :: int
  e_service :: string
  e_host :: string
  e_level :: string
  e_message :: string
  e_observed_at :: time
  e_ingested_at :: time
  e_attributes :: "(string \<times> gvalue) list"

record batch =
  b_id :: uuid
  b_project_id :: uuid
  b_agent_id :: uuid
  b_pipeline_id :: uuid
  b_sequence :: int
  b_payload_hash :: bytes
  b_payload_bytes :: int
  b_entries :: "entry list"
  b_created_at :: time

definition validate_for_batch :: "entry \<Rightarrow> batch \<Rightarrow> domain_error option" where
  "validate_for_batch e b =
     (if e_project_id e \<noteq> [] \<and> e_project_id e \<noteq> b_project_id b then Some (ErrInvalid ''entry project differs from batch'')
      else if e_batch_id e \<noteq> [] \<and> e_batch_id e \<noteq> b_id b then Some (ErrInvalid ''entry batch differs from batch'')
      else if e_agent_id e \<noteq> [] \<and> e_agent_id e \<noteq> b_agent_id b then Some (ErrInvalid ''entry agent differs from batch'')
      else if e_pipeline_id e \<noteq> [] \<and> e_pipeline_id e \<noteq> b_pipeline_id b
        then Some (ErrInvalid ''entry pipeline differs from batch'')
      else if e_batch_sequence e < 0 \<or> blank (e_service e) \<or> blank (e_host e) \<or> blank (e_level e) \<or>
        is_zero (e_observed_at e) then Some (ErrInvalid ''entry'')
      else None)"

fun validate_entries :: "batch \<Rightarrow> nat \<Rightarrow> entry list \<Rightarrow> domain_error option" where
  "validate_entries b i [] = None"
| "validate_entries b i (e # es) =
     (if e_batch_sequence e \<noteq> int i then Some (ErrInvalid ''entry sequence'')
      else (case validate_for_batch e b of Some err \<Rightarrow> Some err | None \<Rightarrow> validate_entries b (Suc i) es))"

definition validate_batch :: "batch \<Rightarrow> domain_error option" where
  "validate_batch b =
     (if \<not> valid_uuid (b_id b) \<or> \<not> valid_uuid (b_project_id b) \<or> \<not> valid_uuid (b_agent_id b) \<or>
        \<not> valid_uuid (b_pipeline_id b) \<or> b_sequence b < 0 \<or> b_payload_bytes b \<le> 0 \<or> is_zero (b_created_at b)
      then Some (ErrInvalid ''batch'')
      else if b_entries b = [] then Some (ErrInvalid ''batch entries'')
      else validate_entries b 0 (b_entries b))"

record stored_batch =
  sb_id :: uuid
  sb_project_id :: uuid
  sb_agent_id :: uuid
  sb_pipeline_id :: uuid
  sb_sequence :: int
  sb_payload_hash :: bytes
  sb_entry_count :: int
  sb_payload_bytes :: int
  sb_status :: string
  sb_created_at :: time
  sb_committed_at :: "time option"
  sb_error_code :: "string option"

definition verify_retry :: "stored_batch \<Rightarrow> batch \<Rightarrow> domain_error option" where
  "verify_retry s b =
     (if sb_project_id s \<noteq> b_project_id b \<or> sb_id s \<noteq> b_id b \<or> sb_status s \<noteq> ''committed''
      then Some (ErrInvalid ''retry does not address a committed batch'')
      else if sb_payload_hash s \<noteq> b_payload_hash b then Some ErrIdempotencyConflict
      else None)"

section \<open>Quarantine, audit, usage, retention\<close>

record quarantine_batch =
  qb_id :: uuid
  qb_project_id :: uuid
  qb_batch_id :: uuid
  qb_payload :: bytes
  qb_payload_hash :: bytes
  qb_error_code :: string
  qb_error_detail :: string
  qb_status :: string
  qb_attempts :: int
  qb_created_at :: time
  qb_claimed_at :: "time option"
  qb_resolved_at :: "time option"

record audit_event =
  au_id :: int
  au_project_id :: "uuid option"
  au_actor_type :: string
  au_actor_id :: string
  au_action :: string
  au_resource :: string
  au_resource_id :: string
  au_outcome :: string
  au_metadata :: bytes
  au_created_at :: time

record usage_bucket =
  ub_project_id :: uuid
  ub_bucket_start :: time
  ub_entries :: int
  ub_bytes :: int
  ub_failed_batches :: int

record retention_policy =
  rp_project_id :: uuid
  rp_max_age :: duration
  rp_max_bytes :: "int option"
  rp_enabled :: bool
  rp_updated_at :: time

section \<open>Queries\<close>

record entry_cursor =
  ec_observed_at :: time
  ec_id :: int

record entry_query =
  eq_project_id :: uuid
  eq_from :: time
  eq_to :: time
  eq_services :: "string list"
  eq_hosts :: "string list"
  eq_levels :: "string list"
  eq_message :: string
  eq_cursor :: "entry_cursor option"
  eq_limit :: int

definition validate_query :: "entry_query \<Rightarrow> duration \<Rightarrow> int \<Rightarrow> domain_error option" where
  "validate_query q max_range max_limit =
     (if \<not> valid_uuid (eq_project_id q) then Some (ErrInvalid ''query project'')
      else if is_zero (eq_from q) \<or> is_zero (eq_to q) \<or> \<not> eq_from q < eq_to q then Some (ErrInvalid ''query time range'')
      else if 0 < max_range \<and> time_sub (eq_to q) (eq_from q) > max_range then Some (ErrInvalid ''query range exceeds limit'')
      else if eq_limit q \<le> 0 \<or> (0 < max_limit \<and> eq_limit q > max_limit) then Some (ErrInvalid ''query limit'')
      else if (case eq_cursor q of None \<Rightarrow> False | Some c \<Rightarrow> is_zero (ec_observed_at c) \<or> ec_id c \<le> 0)
        then Some (ErrInvalid ''query cursor'')
      else if list_ex blank (eq_services q @ eq_hosts q @ eq_levels q) then Some (ErrInvalid ''empty query filter'')
      else None)"

record entry_page =
  ep_entries :: "entry list"
  ep_next :: "entry_cursor option"

section \<open>Facts\<close>

lemma check_scopes_None_iff:
  "check_scopes seen ss = None \<longleftrightarrow> set ss \<subseteq> set all_scopes \<and> distinct ss \<and> set ss \<inter> seen = {}"
  by (induction ss arbitrary: seen) auto

lemma has_scope_iff: "has_scope k s \<longleftrightarrow> s \<in> set (k_scopes k)"
  by (simp add: has_scope_def list_ex_iff)

lemma validate_entries_None_iff:
  "validate_entries b i es = None \<longleftrightarrow>
     (\<forall>j < length es. e_batch_sequence (es ! j) = int (i + j) \<and> validate_for_batch (es ! j) b = None)"
proof (induction es arbitrary: i)
  case (Cons e es)
  show ?case
    using Cons.IH [of "Suc i"] by (auto simp: All_less_Suc2 split: option.splits)
qed simp

lemma valid_uuid_ascii:
  assumes "valid_uuid s"
  shows "is_ascii s"
proof -
  have "byte_val (s ! i) < 128" if "i < length s" for i
  proof -
    have "uuid_char i (s ! i)"
      using assms that by (auto simp: valid_uuid_def list_all_length nth_enumerate_eq split: prod.splits)
    then show ?thesis by (auto simp: uuid_char_def is_hex_def is_digit_def split: if_splits)
  qed
  then show ?thesis by (simp add: is_ascii_def list_all_length)
qed

end
