(* ===== verification/Ingest_Protocol.thy ===== *)
theory Ingest_Protocol
  imports Canonical_Number Gline_Domain Go_Crypto "HOL-Library.AList"
begin

text \<open>
  The ingest protocol (\<open>internal/protocol/ingestv1\<close>): the wire request and its strict decoding
  (\<open>Decode\<close>), the validator that collects a bounded number of field errors, \<open>Normalize\<close>, and the
  canonical payload whose SHA-256 is the identity of a batch for retries. Attributes are the JSON
  values that \<open>Decode\<close> produces; the branches of \<open>appendCanonical\<close> for Go's own number types are
  not reached from the wire. The Unicode tables of \<open>ToUpper\<close> and \<open>ToLower\<close> are the parameters
  \<open>umap\<close> and \<open>lmap\<close>. A third duplicate of the key \<open>entries\<close> in one body, which in Go sees stale
  elements beyond the length of the second, is not modelled, nor is a body limit of \<open>2 ^ 63 - 1\<close>, whose
  successor wraps.
\<close>

section \<open>Data\<close>

definition protocol_version :: int where "protocol_version = 1"

type_synonym attributes = "(string \<times> gvalue) list"

record wire_entry =
  we_sequence :: int
  we_observed_at :: time
  we_level :: string
  we_service :: string
  we_host :: string
  we_message :: string
  we_attributes :: "attributes option"

record batch_request =
  br_protocol_version :: int
  br_batch_id :: string
  br_agent_id :: string
  br_pipeline_id :: string
  br_sequence :: int
  br_sent_at :: time
  br_entries :: "wire_entry list"

record limits =
  l_max_body_bytes :: int
  l_max_entries :: int
  l_max_service_bytes :: int
  l_max_host_bytes :: int
  l_max_level_bytes :: int
  l_max_message_bytes :: int
  l_max_attributes_bytes :: int
  l_max_attributes_depth :: int
  l_max_field_errors :: int

definition default_limits :: limits where
  "default_limits =
     \<lparr>l_max_body_bytes = 4 * 2 ^ 20, l_max_entries = 2000, l_max_service_bytes = 128, l_max_host_bytes = 255,
      l_max_level_bytes = 16, l_max_message_bytes = 256 * 2 ^ 10, l_max_attributes_bytes = 64 * 2 ^ 10,
      l_max_attributes_depth = 8, l_max_field_errors = 16\<rparr>"

type_synonym field_error = "string \<times> string"

datatype ingest_error =
    InvalidJSON
  | TrailingJSON
  | BodyTooLarge
  | ReadFailed
  | UnsupportedVersion
  | ValidationError "field_error list"
  | EntryCountMismatch
  | CanonicalFailed
  | InvalidBatch domain_error

section \<open>Decoding\<close>

text \<open>A value of an \<open>any\<close>, with numbers kept as literals (\<open>UseNumber\<close>); later members of an object
  replace earlier ones of the same name.\<close>

fun to_gvalue :: "json \<Rightarrow> gvalue option"
and to_gvalues :: "json list \<Rightarrow> gvalue list option"
and to_members :: "attributes \<Rightarrow> (string \<times> string \<times> json) list \<Rightarrow> attributes option"
where
  "to_gvalue JNull = Some VNull"
| "to_gvalue (JBool b) = Some (VBool b)"
| "to_gvalue (JNum lit) = Some (VNum lit)"
| "to_gvalue (JStr raw) = map_option VStr (unquote_body raw)"
| "to_gvalue (JArr vs) = map_option VArr (to_gvalues vs)"
| "to_gvalue (JObj ms) = map_option VObj (to_members [] ms)"
| "to_gvalues [] = Some []"
| "to_gvalues (v # vs) = do { x \<leftarrow> to_gvalue v; xs \<leftarrow> to_gvalues vs; Some (x # xs) }"
| "to_members a [] = Some a"
| "to_members a ((k, t, v) # ms) =
     do { key \<leftarrow> unquote_body k; x \<leftarrow> to_gvalue v; to_members (AList.update key x a) ms }"

text \<open>Into a map that is already there the members are added; \<open>null\<close> makes it nil.\<close>

definition dec_attributes :: "json \<Rightarrow> attributes option \<Rightarrow> attributes option option" where
  "dec_attributes v old =
     (case v of
        JNull \<Rightarrow> Some None
      | JObj ms \<Rightarrow> map_option Some (to_members (case old of None \<Rightarrow> [] | Some a \<Rightarrow> a) ms)
      | _ \<Rightarrow> None)"

definition wire_entry_fields :: "string list" where
  "wire_entry_fields = [''sequence'', ''observed_at'', ''level'', ''service'', ''host'', ''message'', ''attributes'']"

definition set_wire_entry_field :: "string \<Rightarrow> string \<Rightarrow> json \<Rightarrow> wire_entry \<Rightarrow> wire_entry option" where
  "set_wire_entry_field n t v e =
     (if n = ''sequence'' then map_option (\<lambda>x. e\<lparr>we_sequence := x\<rparr>) (dec_int v (we_sequence e))
      else if n = ''observed_at'' then map_option (\<lambda>x. e\<lparr>we_observed_at := x\<rparr>) (dec_time v (we_observed_at e))
      else if n = ''level'' then map_option (\<lambda>x. e\<lparr>we_level := x\<rparr>) (dec_string v (we_level e))
      else if n = ''service'' then map_option (\<lambda>x. e\<lparr>we_service := x\<rparr>) (dec_string v (we_service e))
      else if n = ''host'' then map_option (\<lambda>x. e\<lparr>we_host := x\<rparr>) (dec_string v (we_host e))
      else if n = ''message'' then map_option (\<lambda>x. e\<lparr>we_message := x\<rparr>) (dec_string v (we_message e))
      else map_option (\<lambda>x. e\<lparr>we_attributes := x\<rparr>) (dec_attributes v (we_attributes e)))"

definition zero_wire_entry :: wire_entry where
  "zero_wire_entry =
     \<lparr>we_sequence = 0, we_observed_at = zero_time, we_level = [], we_service = [], we_host = [], we_message = [],
      we_attributes = None\<rparr>"

definition dec_wire_entry :: "json \<Rightarrow> wire_entry \<Rightarrow> wire_entry option" where
  "dec_wire_entry = dec_struct True wire_entry_fields set_wire_entry_field"

text \<open>An array is decoded element by element into the slice that is there, and cut to its length.\<close>

fun dec_elements :: "json list \<Rightarrow> wire_entry list \<Rightarrow> wire_entry list option" where
  "dec_elements [] old = Some []"
| "dec_elements (v # vs) old =
     do { e \<leftarrow> dec_wire_entry v (case old of [] \<Rightarrow> zero_wire_entry | o1 # _ \<Rightarrow> o1);
          es \<leftarrow> dec_elements vs (tl old);
          Some (e # es) }"

definition dec_entries :: "json \<Rightarrow> wire_entry list \<Rightarrow> wire_entry list option" where
  "dec_entries v old = (case v of JNull \<Rightarrow> Some [] | JArr vs \<Rightarrow> dec_elements vs old | _ \<Rightarrow> None)"

definition batch_request_fields :: "string list" where
  "batch_request_fields =
     [''protocol_version'', ''batch_id'', ''agent_id'', ''pipeline_id'', ''sequence'', ''sent_at'', ''entries'']"

definition set_batch_request_field :: "string \<Rightarrow> string \<Rightarrow> json \<Rightarrow> batch_request \<Rightarrow> batch_request option" where
  "set_batch_request_field n t v r =
     (if n = ''protocol_version'' then map_option (\<lambda>x. r\<lparr>br_protocol_version := x\<rparr>) (dec_int v (br_protocol_version r))
      else if n = ''batch_id'' then map_option (\<lambda>x. r\<lparr>br_batch_id := x\<rparr>) (dec_string v (br_batch_id r))
      else if n = ''agent_id'' then map_option (\<lambda>x. r\<lparr>br_agent_id := x\<rparr>) (dec_string v (br_agent_id r))
      else if n = ''pipeline_id'' then map_option (\<lambda>x. r\<lparr>br_pipeline_id := x\<rparr>) (dec_string v (br_pipeline_id r))
      else if n = ''sequence'' then map_option (\<lambda>x. r\<lparr>br_sequence := x\<rparr>) (dec_int v (br_sequence r))
      else if n = ''sent_at'' then map_option (\<lambda>x. r\<lparr>br_sent_at := x\<rparr>) (dec_time v (br_sent_at r))
      else map_option (\<lambda>x. r\<lparr>br_entries := x\<rparr>) (dec_entries v (br_entries r)))"

definition zero_batch_request :: batch_request where
  "zero_batch_request =
     \<lparr>br_protocol_version = 0, br_batch_id = [], br_agent_id = [], br_pipeline_id = [], br_sequence = 0,
      br_sent_at = zero_time, br_entries = []\<rparr>"

definition dec_batch_request :: "json \<Rightarrow> batch_request \<Rightarrow> batch_request option" where
  "dec_batch_request = dec_struct True batch_request_fields set_batch_request_field"

text \<open>
  A reader is absent (\<open>nil\<close>) or gives some bytes and then the end or a read error. The second
  component of the result is the number of bytes read.
\<close>

definition decode :: "(bytes \<times> bool) option \<Rightarrow> int \<Rightarrow> (ingest_error + batch_request) \<times> nat" where
  "decode reader max_bytes0 =
     (case reader of
        None \<Rightarrow> (Inl InvalidJSON, 0)
      | Some (content, fails) \<Rightarrow>
          let max_bytes = (if max_bytes0 \<le> 0 then l_max_body_bytes default_limits else max_bytes0);
              raw = take (nat (max_bytes + 1)) content
          in if fails \<and> int (length content) \<le> max_bytes then (Inl ReadFailed, 0)
             else if int (length raw) > max_bytes then (Inl BodyTooLarge, length raw)
             else (case json_first raw of
                     None \<Rightarrow> (Inl InvalidJSON, length raw)
                   | Some (v, rest) \<Rightarrow>
                       (case dec_batch_request v zero_batch_request of
                          None \<Rightarrow> (Inl InvalidJSON, length raw)
                        | Some request \<Rightarrow>
                            if skip_ws rest \<noteq> [] then (Inl TrailingJSON, length raw)
                            else (Inr request, length raw))))"

section \<open>The validator\<close>

record validator =
  v_fields :: "field_error list"
  v_limit :: int

definition v_add :: "string \<Rightarrow> string \<Rightarrow> validator \<Rightarrow> validator" where
  "v_add path reason v =
     (if v_limit v \<le> 0 \<or> int (length (v_fields v)) < v_limit v
      then v\<lparr>v_fields := v_fields v @ [(path, reason)]\<rparr> else v)"

definition v_require :: "bool \<Rightarrow> string \<Rightarrow> string \<Rightarrow> validator \<Rightarrow> validator" where
  "v_require ok path reason v = (if ok then v else v_add path reason v)"

definition v_text :: "string \<Rightarrow> string \<Rightarrow> int \<Rightarrow> bool \<Rightarrow> validator \<Rightarrow> validator" where
  "v_text path value max_bytes allow_empty v =
     (if \<not> valid_utf8 value \<or> CHR 0x00 \<in> set value then v_add path ''must be valid UTF-8 without NUL'' v
      else let v1 = (if \<not> allow_empty \<and> value = [] then v_add path ''must not be empty'' v else v)
           in if 0 < max_bytes \<and> int (length value) > max_bytes then v_add path ''exceeds byte limit'' v1 else v1)"

definition valid_level :: "string \<Rightarrow> bool" where
  "valid_level level \<longleftrightarrow> level \<in> set [''TRACE'', ''DEBUG'', ''INFO'', ''WARN'', ''ERROR'', ''FATAL'']"

section \<open>Canonical JSON\<close>

text \<open>\<open>appendCanonical\<close>: the members of an object are written in the order of their names.\<close>

fun canonical_json :: "int \<Rightarrow> int \<Rightarrow> gvalue \<Rightarrow> string option"
and canonical_items :: "int \<Rightarrow> int \<Rightarrow> gvalue list \<Rightarrow> string list option"
and canonical_members :: "int \<Rightarrow> int \<Rightarrow> attributes \<Rightarrow> (string \<times> string) list option"
where
  "canonical_json d m VNull = (if d > m then None else Some ''null'')"
| "canonical_json d m (VBool b) = (if d > m then None else Some (if b then ''true'' else ''false''))"
| "canonical_json d m (VStr s) = (if d > m then None else Some (quote s))"
| "canonical_json d m (VNum lit) = (if d > m then None else canonical_number lit)"
| "canonical_json d m (VArr vs) = (if d > m then None else map_option jarr (canonical_items (d + 1) m vs))"
| "canonical_json d m (VObj ms) =
     (if d > m then None else map_option (\<lambda>fs. jobj (sort_key fst fs)) (canonical_members (d + 1) m ms))"
| "canonical_items d m [] = Some []"
| "canonical_items d m (v # vs) =
     do { t \<leftarrow> canonical_json d m v; ts \<leftarrow> canonical_items d m vs; Some (t # ts) }"
| "canonical_members d m [] = Some []"
| "canonical_members d m ((k, v) # ms) =
     do { t \<leftarrow> canonical_json d m v; fs \<leftarrow> canonical_members d m ms; Some ((k, t) # fs) }"

definition entry_fields_text :: "nat \<Rightarrow> entry \<Rightarrow> string \<Rightarrow> (string \<times> string) list" where
  "entry_fields_text i e attrs =
     [(''sequence'', int_dec (int i)), (''observed_at'', quote (time_format (e_observed_at e))),
      (''level'', quote (e_level e)), (''service'', quote (e_service e)), (''host'', quote (e_host e)),
      (''message'', quote (e_message e)), (''attributes'', attrs)]"

fun canonical_entries :: "nat \<Rightarrow> entry list \<Rightarrow> string list option" where
  "canonical_entries i [] = Some []"
| "canonical_entries i (e # es) =
     do { attrs \<leftarrow> canonical_json 0 (l_max_attributes_depth default_limits) (VObj (e_attributes e));
          ts \<leftarrow> canonical_entries (Suc i) es;
          Some (jobj (entry_fields_text i e attrs) # ts) }"

definition payload_fields :: "(string \<Rightarrow> string) \<Rightarrow> batch_request \<Rightarrow> string list \<Rightarrow> (string \<times> string) list" where
  "payload_fields lmap r ts =
     [(''protocol_version'', ''1''), (''batch_id'', quote (to_lower lmap (br_batch_id r))),
      (''agent_id'', quote (to_lower lmap (br_agent_id r))),
      (''pipeline_id'', quote (to_lower lmap (br_pipeline_id r))), (''sequence'', int_dec (br_sequence r)),
      (''sent_at'', quote (time_format (br_sent_at r))), (''entries'', jarr ts)]"

definition canonical_payload ::
  "(string \<Rightarrow> string) \<Rightarrow> batch_request \<Rightarrow> entry list \<Rightarrow> ingest_error + bytes" where
  "canonical_payload lmap r entries =
     (if length (br_entries r) \<noteq> length entries then Inl EntryCountMismatch
      else (case canonical_entries 0 entries of
              None \<Rightarrow> Inl CanonicalFailed
            | Some ts \<Rightarrow> Inr (jobj (payload_fields lmap r ts))))"

definition payload_hash :: "bytes \<Rightarrow> bytes" where
  "payload_hash payload = sha256 payload"

section \<open>Normalize\<close>

definition entry_path :: "nat \<Rightarrow> string \<Rightarrow> string" where
  "entry_path i field = ''entries['' @ nat_dec i @ '']'' @ field"

definition entry_of :: "(string \<Rightarrow> string) \<Rightarrow> nat \<Rightarrow> wire_entry \<Rightarrow> entry" where
  "entry_of umap i item =
     \<lparr>e_id = 0, e_project_id = [], e_batch_id = [], e_agent_id = [], e_pipeline_id = [], e_batch_sequence = int i,
      e_service = trim_space (we_service item), e_host = trim_space (we_host item),
      e_level = to_upper umap (trim_space (we_level item)), e_message = we_message item,
      e_observed_at = we_observed_at item, e_ingested_at = zero_time,
      e_attributes = (case we_attributes item of None \<Rightarrow> [] | Some a \<Rightarrow> a)\<rparr>"

definition check_attributes :: "limits \<Rightarrow> nat \<Rightarrow> entry \<Rightarrow> validator \<Rightarrow> validator" where
  "check_attributes lims i e v =
     (case canonical_json 0 (l_max_attributes_depth lims) (VObj (e_attributes e)) of
        None \<Rightarrow> v_add (entry_path i ''.attributes'') ''must contain supported JSON values'' v
      | Some t \<Rightarrow> if int (length t) > l_max_attributes_bytes lims
                  then v_add (entry_path i ''.attributes'') ''exceeds byte limit'' v else v)"

definition check_entry :: "limits \<Rightarrow> nat \<Rightarrow> wire_entry \<Rightarrow> entry \<Rightarrow> validator \<Rightarrow> validator" where
  "check_entry lims i item e v =
     (let v = v_require (we_sequence item = int i) (entry_path i ''.sequence'') (''expected '' @ nat_dec i) v;
          v = v_require (\<not> is_zero (we_observed_at item)) (entry_path i ''.observed_at'') ''must be RFC3339'' v;
          v = v_require (valid_level (e_level e)) (entry_path i ''.level'') ''unsupported level'' v;
          v = v_text (entry_path i ''.level'') (e_level e) (l_max_level_bytes lims) False v;
          v = v_text (entry_path i ''.service'') (e_service e) (l_max_service_bytes lims) False v;
          v = v_text (entry_path i ''.host'') (e_host e) (l_max_host_bytes lims) False v;
          v = v_text (entry_path i ''.message'') (e_message e) (l_max_message_bytes lims) True v
      in check_attributes lims i e v)"

fun check_entries :: "(string \<Rightarrow> string) \<Rightarrow> limits \<Rightarrow> nat \<Rightarrow> wire_entry list \<Rightarrow> validator \<Rightarrow> validator" where
  "check_entries umap lims i [] v = v"
| "check_entries umap lims i (item # items) v =
     check_entries umap lims (Suc i) items (check_entry lims i item (entry_of umap i item) v)"

definition check_request :: "(string \<Rightarrow> string) \<Rightarrow> limits \<Rightarrow> batch_request \<Rightarrow> uuid \<Rightarrow> validator" where
  "check_request umap lims r project =
     (let v = \<lparr>v_fields = [], v_limit = l_max_field_errors lims\<rparr>;
          v = v_require (valid_uuid project) ''project_id'' ''authenticated project is invalid'' v;
          v = v_require (valid_uuid (br_batch_id r)) ''batch_id'' ''must be a UUID'' v;
          v = v_require (valid_uuid (br_agent_id r)) ''agent_id'' ''must be a UUID'' v;
          v = v_require (valid_uuid (br_pipeline_id r)) ''pipeline_id'' ''must be a UUID'' v;
          v = v_require (0 \<le> br_sequence r) ''sequence'' ''must be non-negative'' v;
          v = v_require (\<not> is_zero (br_sent_at r)) ''sent_at'' ''must be RFC3339'' v;
          v = v_require (br_entries r \<noteq> []) ''entries'' ''must not be empty'' v;
          v = v_require (int (length (br_entries r)) \<le> l_max_entries lims) ''entries'' ''exceeds batch limit'' v
      in check_entries umap lims 0 (br_entries r) v)"

definition normalized_entries :: "(string \<Rightarrow> string) \<Rightarrow> batch_request \<Rightarrow> entry list" where
  "normalized_entries umap r = map (\<lambda>(i, item). entry_of umap i item) (enumerate 0 (br_entries r))"

definition bind_entry :: "batch_request \<Rightarrow> uuid \<Rightarrow> entry \<Rightarrow> entry" where
  "bind_entry r project e =
     e\<lparr>e_project_id := project, e_batch_id := br_batch_id r, e_agent_id := br_agent_id r,
       e_pipeline_id := br_pipeline_id r\<rparr>"

definition effective_limits :: "limits \<Rightarrow> limits" where
  "effective_limits lims = (if l_max_entries lims \<le> 0 then default_limits else lims)"

definition normalize ::
  "(string \<Rightarrow> string) \<Rightarrow> (string \<Rightarrow> string) \<Rightarrow> batch_request \<Rightarrow> uuid \<Rightarrow> int \<Rightarrow> limits \<Rightarrow> ingest_error + batch" where
  "normalize umap lmap r project payload_bytes limits0 =
     (if br_protocol_version r \<noteq> protocol_version then Inl UnsupportedVersion
      else let lims = effective_limits limits0;
               v = check_request umap lims r project;
               entries = normalized_entries umap r
           in if v_fields v \<noteq> [] then Inl (ValidationError (v_fields v))
              else (case canonical_payload lmap r entries of
                      Inl e \<Rightarrow> Inl e
                    | Inr canonical \<Rightarrow>
                        let b = \<lparr>b_id = br_batch_id r, b_project_id = project, b_agent_id = br_agent_id r,
                                 b_pipeline_id = br_pipeline_id r, b_sequence = br_sequence r,
                                 b_payload_hash = sha256 canonical,
                                 b_payload_bytes = (if payload_bytes \<le> 0 then int (length canonical) else payload_bytes),
                                 b_entries = map (bind_entry r project) entries, b_created_at = br_sent_at r\<rparr>
                        in case validate_batch b of Some e \<Rightarrow> Inl (InvalidBatch e) | None \<Rightarrow> Inr b))"

end
