(* ===== verification/Ingest_Canonical.thy ===== *)
theory Ingest_Canonical
  imports Ingest_Protocol
begin

text \<open>
  What the canonical payload means. \<open>gsem\<close> is the abstract value of an attribute: numbers are
  rational numbers and an object is its members in the order of their names. The main lemma,
  \<open>canonical_json_eq_iff\<close>, says that two attribute values have the same canonical text exactly when
  they have the same abstract value; \<open>canonical_payload_eq_iff\<close> lifts it to the whole payload.
\<close>

section \<open>Abstract values\<close>

datatype sem =
    SNull
  | SBool bool
  | SNum rat
  | SStr string
  | SArr "sem list"
  | SObj "(string \<times> sem) list"

fun gsem :: "gvalue \<Rightarrow> sem"
and gsems :: "gvalue list \<Rightarrow> sem list"
and gsem_members :: "attributes \<Rightarrow> (string \<times> sem) list"
where
  "gsem VNull = SNull"
| "gsem (VBool b) = SBool b"
| "gsem (VNum lit) = SNum (literal_value lit)"
| "gsem (VStr s) = SStr s"
| "gsem (VArr vs) = SArr (gsems vs)"
| "gsem (VObj ms) = SObj (sort_key fst (gsem_members ms))"
| "gsems [] = []"
| "gsems (v # vs) = gsem v # gsems vs"
| "gsem_members [] = []"
| "gsem_members ((k, v) # ms) = (k, gsem v) # gsem_members ms"

text \<open>The strings of a decoded value are valid UTF-8.\<close>

fun gv_utf8 :: "gvalue \<Rightarrow> bool"
and gvs_utf8 :: "gvalue list \<Rightarrow> bool"
and members_utf8 :: "attributes \<Rightarrow> bool"
where
  "gv_utf8 VNull = True"
| "gv_utf8 (VBool b) = True"
| "gv_utf8 (VNum lit) = True"
| "gv_utf8 (VStr s) = valid_utf8 s"
| "gv_utf8 (VArr vs) = gvs_utf8 vs"
| "gv_utf8 (VObj ms) = members_utf8 ms"
| "gvs_utf8 [] = True"
| "gvs_utf8 (v # vs) \<longleftrightarrow> gv_utf8 v \<and> gvs_utf8 vs"
| "members_utf8 [] = True"
| "members_utf8 ((k, v) # ms) \<longleftrightarrow> valid_utf8 k \<and> gv_utf8 v \<and> members_utf8 ms"

section \<open>Equal values have equal texts\<close>

definition number_text :: "rat \<Rightarrow> string" where
  "number_text q = (SOME c. \<exists>raw. canonical_number raw = Some c \<and> literal_value raw = q)"

lemma number_text: "canonical_number raw = Some c \<Longrightarrow> number_text (literal_value raw) = c"
  unfolding number_text_def by (rule some_equality) (use canonical_number_eq_iff in blast)+

fun sem_text :: "sem \<Rightarrow> string"
and sem_texts :: "sem list \<Rightarrow> string list"
and sem_members :: "(string \<times> sem) list \<Rightarrow> (string \<times> string) list"
where
  "sem_text SNull = ''null''"
| "sem_text (SBool b) = (if b then ''true'' else ''false'')"
| "sem_text (SNum q) = number_text q"
| "sem_text (SStr s) = quote s"
| "sem_text (SArr vs) = jarr (sem_texts vs)"
| "sem_text (SObj ms) = jobj (sem_members ms)"
| "sem_texts [] = []"
| "sem_texts (v # vs) = sem_text v # sem_texts vs"
| "sem_members [] = []"
| "sem_members ((k, v) # ms) = (k, sem_text v) # sem_members ms"

lemma sem_members_map: "sem_members ms = map (\<lambda>m. (fst m, sem_text (snd m))) ms"
  by (induction ms) auto

lemma insort_key_map: "insort_key fst (fst x, f x) (map (\<lambda>m. (fst m, f m)) xs) = map (\<lambda>m. (fst m, f m)) (insort_key fst x xs)"
  by (induction xs) auto

lemma sort_key_map: "sort_key fst (map (\<lambda>m. (fst m, f m)) xs) = map (\<lambda>m. (fst m, f m)) (sort_key fst xs)"
  by (induction xs) (simp_all add: insort_key_map)

lemma canonical_sem_text:
  "canonical_json d m v = Some t \<Longrightarrow> t = sem_text (gsem v)"
  "canonical_items d m vs = Some ts \<Longrightarrow> ts = sem_texts (gsems vs)"
  "canonical_members d m ms = Some fs \<Longrightarrow> fs = sem_members (gsem_members ms)"
proof (induction d m v and d m vs and d m ms arbitrary: t and ts and fs
    rule: canonical_json_canonical_items_canonical_members.induct)
  case (6 d m ms)
  then show ?case by (auto simp: sem_members_map sort_key_map split: if_splits)
qed (auto simp: number_text split: if_splits Option.bind_splits)

section \<open>Equal texts have equal values\<close>

text \<open>Reading a parsed canonical text.\<close>

fun read_sem :: "json \<Rightarrow> sem option"
and read_sems :: "json list \<Rightarrow> sem list option"
and read_sem_members :: "(string \<times> string \<times> json) list \<Rightarrow> (string \<times> sem) list option"
where
  "read_sem JNull = Some SNull"
| "read_sem (JBool b) = Some (SBool b)"
| "read_sem (JNum lit) = Some (SNum (literal_value lit))"
| "read_sem (JStr raw) = map_option SStr (unquote_body raw)"
| "read_sem (JArr vs) = map_option SArr (read_sems vs)"
| "read_sem (JObj ms) = map_option SObj (read_sem_members ms)"
| "read_sems [] = Some []"
| "read_sems (v # vs) = do { x \<leftarrow> read_sem v; xs \<leftarrow> read_sems vs; Some (x # xs) }"
| "read_sem_members [] = Some []"
| "read_sem_members ((k, t, v) # ms) =
     do { key \<leftarrow> unquote_body k; x \<leftarrow> read_sem v; xs \<leftarrow> read_sem_members ms; Some ((key, x) # xs) }"

definition reads :: "string \<Rightarrow> sem \<Rightarrow> bool" where
  "reads t x \<longleftrightarrow> (\<exists>j. renders t j \<and> read_sem j = Some x)"

lemma reads_unique: "reads t x \<Longrightarrow> reads t y \<Longrightarrow> x = y"
  by (auto simp: reads_def dest!: renders_json_parse)

lemma reads_arr:
  assumes "list_all2 reads ts xs"
  shows "reads (jarr ts) (SArr xs)"
proof -
  from assms have "\<exists>js. list_all2 renders ts js \<and> read_sems js = Some xs"
  proof (induction rule: list_all2_induct)
    case (Cons t ts x xs)
    then obtain j js where "renders t j" "read_sem j = Some x" "list_all2 renders ts js" "read_sems js = Some xs"
      by (auto simp: reads_def)
    then show ?case by (intro exI [of _ "j # js"]) simp
  qed (auto intro: exI [of _ "[]"])
  then obtain js where "list_all2 renders ts js" "read_sems js = Some xs" by blast
  then show ?thesis unfolding reads_def by (intro exI [of _ "JArr js"]) (simp add: renders_arr)
qed

lemma reads_obj:
  assumes "list_all2 (\<lambda>f m. fst f = fst m \<and> valid_utf8 (fst m) \<and> reads (snd f) (snd m)) fs ms"
  shows "reads (jobj fs) (SObj ms)"
proof -
  from assms have "\<exists>js. list_all2 (\<lambda>f v. renders (snd f) v) fs js \<and>
      read_sem_members (map2 (\<lambda>f v. (quote_body (fst f), snd f, v)) fs js) = Some ms"
  proof (induction rule: list_all2_induct)
    case (Cons f fs m ms)
    then obtain j js where "renders (snd f) j" "read_sem j = Some (snd m)"
      "list_all2 (\<lambda>f v. renders (snd f) v) fs js"
      "read_sem_members (map2 (\<lambda>f v. (quote_body (fst f), snd f, v)) fs js) = Some ms"
      by (auto simp: reads_def)
    with Cons.hyps show ?case by (intro exI [of _ "j # js"]) simp
  qed (auto intro: exI [of _ "[]"])
  then obtain js where js: "list_all2 (\<lambda>f v. renders (snd f) v) fs js"
    "read_sem_members (map2 (\<lambda>f v. (quote_body (fst f), snd f, v)) fs js) = Some ms" by blast
  show ?thesis
    using json_parse_jobj(2) [OF js(1)] js(2) unfolding reads_def
    by (intro exI [of _ "JObj (map2 (\<lambda>f v. (quote_body (fst f), snd f, v)) fs js)"]) simp
qed

lemma members_utf8_iff: "members_utf8 ms \<longleftrightarrow> (\<forall>(k, v) \<in> set ms. valid_utf8 k \<and> gv_utf8 v)"
  by (induction ms) auto

lemma canonical_reads:
  "canonical_json d m v = Some t \<Longrightarrow> gv_utf8 v \<Longrightarrow> reads t (gsem v)"
  "canonical_items d m vs = Some ts \<Longrightarrow> gvs_utf8 vs \<Longrightarrow> list_all2 reads ts (gsems vs)"
  "canonical_members d m ms = Some fs \<Longrightarrow> members_utf8 ms \<Longrightarrow>
     list_all2 (\<lambda>f m. fst f = fst m \<and> valid_utf8 (fst m) \<and> reads (snd f) (snd m)) fs (gsem_members ms)"
proof (induction d m v and d m vs and d m ms arbitrary: t and ts and fs
    rule: canonical_json_canonical_items_canonical_members.induct)
  case (1 d m)
  then show ?case by (auto simp: reads_def split: if_splits intro!: exI [of _ JNull])
next
  case (2 d m b)
  then show ?case
    using renders_bool [of True] renders_bool [of False] by (auto simp: reads_def split: if_splits intro!: exI [of _ "JBool b"])
next
  case (3 d m s)
  then show ?case by (auto simp: reads_def split: if_splits intro!: exI [of _ "JStr (quote_body s)"])
next
  case (4 d m lit)
  then have c: "canonical_number lit = Some t" by (simp split: if_splits)
  show ?case
    using renders_num [OF canonical_number_ok [OF c]] canonical_number_value [OF c]
    by (auto simp: reads_def intro!: exI [of _ "JNum t"])
next
  case (5 d m vs)
  then show ?case by (auto split: if_splits intro: reads_arr)
next
  case (6 d m ms)
  then obtain fs where fs: "canonical_members (d + 1) m ms = Some fs" "t = jobj (sort_key fst fs)" "\<not> d > m"
    by (auto split: if_splits)
  define R where "R = (\<lambda>f m. fst f = fst m \<and> valid_utf8 (fst m) \<and> reads (snd f) (snd m))"
  have "list_all2 R fs (gsem_members ms)" using 6 fs by (simp add: R_def)
  moreover have "list_all2 R (insort_key fst x xs) (insort_key fst y ys)"
    if "R x y" "list_all2 R xs ys" for x xs y ys
    using that(2,1) by (induction rule: list_all2_induct) (auto simp: R_def)
  ultimately have "list_all2 R (sort_key fst fs) (sort_key fst (gsem_members ms))"
    by (induction rule: list_all2_induct) auto
  then show ?case unfolding fs(2) by (simp add: R_def reads_obj)
qed (auto split: if_splits Option.bind_splits)

text \<open>Same text, same value.\<close>

lemma canonical_json_eq_iff:
  assumes "canonical_json d m v = Some t" "canonical_json d m w = Some u" "gv_utf8 v" "gv_utf8 w"
  shows "t = u \<longleftrightarrow> gsem v = gsem w"
  using assms canonical_sem_text(1) [OF assms(1)] canonical_sem_text(1) [OF assms(2)]
    canonical_reads(1) [OF assms(1,3)] canonical_reads(1) [OF assms(2,4)] reads_unique by metis

end
