(* ===== verification/Ingest_Facts.thy ===== *)
theory Ingest_Facts
  imports Ingest_Canonical
begin

text \<open>
  Lemmas about \<open>Decode\<close>, \<open>Normalize\<close> and the canonical payload: decoded attributes are valid UTF-8,
  the number of field errors is bounded, a request passes the validator exactly when it satisfies
  \<open>request_ok\<close>, a normalized batch satisfies \<open>domain.Batch.Validate\<close>, and two payloads are equal
  exactly when their contents are.
\<close>

section \<open>Decoded attributes are valid UTF-8\<close>

lemma members_utf8_update:
  "members_utf8 a \<Longrightarrow> valid_utf8 k \<Longrightarrow> gv_utf8 v \<Longrightarrow> members_utf8 (AList.update k v a)"
  by (induction a) auto

lemma to_gvalue_utf8:
  "to_gvalue j = Some v \<Longrightarrow> gv_utf8 v"
  "to_gvalues js = Some vs \<Longrightarrow> gvs_utf8 vs"
  "to_members a ms = Some b \<Longrightarrow> members_utf8 a \<Longrightarrow> members_utf8 b"
proof (induction j and js and a ms arbitrary: v and vs and b rule: to_gvalue_to_gvalues_to_members.induct)
  case (10 a k t v ms)
  then show ?case by (auto simp: unquote_body_utf8 members_utf8_update split: Option.bind_splits)
qed (auto simp: unquote_body_utf8 split: Option.bind_splits)

definition wire_utf8 :: "wire_entry \<Rightarrow> bool" where
  "wire_utf8 e \<longleftrightarrow> (case we_attributes e of None \<Rightarrow> True | Some a \<Rightarrow> members_utf8 a)"

definition request_utf8 :: "batch_request \<Rightarrow> bool" where
  "request_utf8 r \<longleftrightarrow> list_all wire_utf8 (br_entries r)"

lemma dec_attributes_utf8:
  assumes "dec_attributes v old = Some b" "case old of None \<Rightarrow> True | Some a \<Rightarrow> members_utf8 a"
  shows "case b of None \<Rightarrow> True | Some a \<Rightarrow> members_utf8 a"
  using assms to_gvalue_utf8(3) by (auto simp: dec_attributes_def split: json.splits option.splits)

lemma dec_wire_entry_utf8: "dec_wire_entry v e = Some e' \<Longrightarrow> wire_utf8 e \<Longrightarrow> wire_utf8 e'"
  unfolding dec_wire_entry_def
proof (erule dec_struct_inv)
  fix n t v a b
  assume "set_wire_entry_field n t v a = Some b" "wire_utf8 a"
  then show "wire_utf8 b"
    using dec_attributes_utf8 by (auto simp: set_wire_entry_field_def wire_utf8_def split: if_splits)
qed

lemma dec_elements_utf8: "dec_elements vs old = Some es \<Longrightarrow> list_all wire_utf8 old \<Longrightarrow> list_all wire_utf8 es"
proof (induction vs old arbitrary: es rule: dec_elements.induct)
  case (2 v vs old)
  have z: "wire_utf8 zero_wire_entry" by (simp add: wire_utf8_def zero_wire_entry_def)
  have "wire_utf8 (case old of [] \<Rightarrow> zero_wire_entry | o1 # _ \<Rightarrow> o1)" "list_all wire_utf8 (tl old)"
    using "2.prems"(2) z by (cases old; simp)+
  with "2.prems"(1) "2.IH" show ?case
    by (auto split: Option.bind_splits intro: dec_wire_entry_utf8)
qed simp

lemma decode_utf8:
  assumes "fst (decode reader n) = Inr r"
  shows "request_utf8 r"
proof -
  obtain v where "dec_batch_request v zero_batch_request = Some r"
    using assms by (auto simp: decode_def Let_def split: option.splits if_splits)
  then show ?thesis
    unfolding dec_batch_request_def
  proof (rule dec_struct_inv)
    show "request_utf8 zero_batch_request" by (simp add: request_utf8_def zero_batch_request_def)
    fix n t v a b
    assume "set_batch_request_field n t v a = Some b" "request_utf8 a"
    then show "request_utf8 b"
      using dec_elements_utf8
      by (auto simp: set_batch_request_field_def request_utf8_def dec_entries_def split: if_splits json.splits)
  qed
qed

section \<open>The validator\<close>

text \<open>Errors are only added, and no more than the limit.\<close>

definition v_bounded :: "validator \<Rightarrow> bool" where
  "v_bounded v \<longleftrightarrow> v_limit v \<le> 0 \<or> int (length (v_fields v)) \<le> v_limit v"

named_theorems vkeep \<open>what the steps of the validator keep\<close>

lemma v_add_keep [vkeep]:
  "v_limit (v_add p s v) = v_limit v" "v_bounded v \<Longrightarrow> v_bounded (v_add p s v)" "prefix (v_fields v) (v_fields (v_add p s v))"
  by (auto simp: v_add_def v_bounded_def)

lemma v_add_nonempty [simp]: "v_fields (v_add p s v) \<noteq> []"
  by (auto simp: v_add_def)

lemma v_require_keep [vkeep]:
  "v_limit (v_require b p s v) = v_limit v" "v_bounded v \<Longrightarrow> v_bounded (v_require b p s v)"
  by (auto simp: v_require_def vkeep)

lemma v_text_keep [vkeep]:
  "v_limit (v_text p t n b v) = v_limit v" "v_bounded v \<Longrightarrow> v_bounded (v_text p t n b v)"
  by (auto simp: v_text_def vkeep)

lemma check_attributes_keep [vkeep]:
  "v_limit (check_attributes lims i e v) = v_limit v" "v_bounded v \<Longrightarrow> v_bounded (check_attributes lims i e v)"
  by (auto simp: check_attributes_def vkeep split: option.splits)

lemma check_entry_keep [vkeep]:
  "v_limit (check_entry lims i item e v) = v_limit v" "v_bounded v \<Longrightarrow> v_bounded (check_entry lims i item e v)"
  by (simp_all add: check_entry_def Let_def vkeep)

lemma check_entries_keep [vkeep]:
  "v_limit (check_entries umap lims i items v) = v_limit v"
  "v_bounded v \<Longrightarrow> v_bounded (check_entries umap lims i items v)"
  by (induction items arbitrary: i v) (simp_all add: vkeep)

lemma check_request_bounded:
  "v_limit (check_request umap lims r p) = l_max_field_errors lims" "v_bounded (check_request umap lims r p)"
proof -
  have "v_bounded \<lparr>v_fields = [], v_limit = l_max_field_errors lims\<rparr>" by (auto simp: v_bounded_def)
  then show "v_limit (check_request umap lims r p) = l_max_field_errors lims" "v_bounded (check_request umap lims r p)"
    by (simp_all add: check_request_def Let_def vkeep)
qed

text \<open>No error is recorded exactly when every condition holds.\<close>

definition text_ok :: "string \<Rightarrow> int \<Rightarrow> bool \<Rightarrow> bool" where
  "text_ok t n allow_empty \<longleftrightarrow> valid_utf8 t \<and> CHR 0x00 \<notin> set t \<and> (allow_empty \<or> t \<noteq> []) \<and> (0 < n \<longrightarrow> int (length t) \<le> n)"

definition attributes_ok :: "limits \<Rightarrow> entry \<Rightarrow> bool" where
  "attributes_ok lims e \<longleftrightarrow>
     (case canonical_json 0 (l_max_attributes_depth lims) (VObj (e_attributes e)) of
        None \<Rightarrow> False | Some t \<Rightarrow> int (length t) \<le> l_max_attributes_bytes lims)"

definition entry_ok :: "limits \<Rightarrow> nat \<Rightarrow> wire_entry \<Rightarrow> entry \<Rightarrow> bool" where
  "entry_ok lims i item e \<longleftrightarrow>
     we_sequence item = int i \<and> \<not> is_zero (we_observed_at item) \<and> valid_level (e_level e) \<and>
     text_ok (e_level e) (l_max_level_bytes lims) False \<and> text_ok (e_service e) (l_max_service_bytes lims) False \<and>
     text_ok (e_host e) (l_max_host_bytes lims) False \<and> text_ok (e_message e) (l_max_message_bytes lims) True \<and>
     attributes_ok lims e"

definition request_ok :: "(string \<Rightarrow> string) \<Rightarrow> limits \<Rightarrow> batch_request \<Rightarrow> uuid \<Rightarrow> bool" where
  "request_ok umap lims r project \<longleftrightarrow>
     valid_uuid project \<and> valid_uuid (br_batch_id r) \<and> valid_uuid (br_agent_id r) \<and> valid_uuid (br_pipeline_id r) \<and>
     0 \<le> br_sequence r \<and> \<not> is_zero (br_sent_at r) \<and> br_entries r \<noteq> [] \<and>
     int (length (br_entries r)) \<le> l_max_entries lims \<and>
     (\<forall>i < length (br_entries r). entry_ok lims i (br_entries r ! i) (entry_of umap i (br_entries r ! i)))"

lemma v_require_Nil [simp]: "v_fields (v_require b p s v) = [] \<longleftrightarrow> b \<and> v_fields v = []"
  by (simp add: v_require_def)

lemma v_text_Nil [simp]: "v_fields (v_text p t n b v) = [] \<longleftrightarrow> text_ok t n b \<and> v_fields v = []"
  by (auto simp: v_text_def text_ok_def Let_def)

lemma check_attributes_Nil [simp]:
  "v_fields (check_attributes lims i e v) = [] \<longleftrightarrow> attributes_ok lims e \<and> v_fields v = []"
  by (auto simp: check_attributes_def attributes_ok_def split: option.splits)

lemma check_entry_Nil [simp]:
  "v_fields (check_entry lims i item e v) = [] \<longleftrightarrow> entry_ok lims i item e \<and> v_fields v = []"
  by (auto simp: check_entry_def entry_ok_def Let_def)

lemma check_entries_Nil:
  "v_fields (check_entries umap lims i items v) = [] \<longleftrightarrow>
     v_fields v = [] \<and> (\<forall>j < length items. entry_ok lims (i + j) (items ! j) (entry_of umap (i + j) (items ! j)))"
  by (induction items arbitrary: i v) (auto simp: All_less_Suc2)

lemma check_request_Nil:
  "v_fields (check_request umap lims r project) = [] \<longleftrightarrow> request_ok umap lims r project"
  by (auto simp: check_request_def request_ok_def check_entries_Nil Let_def)

section \<open>The content of a payload\<close>

type_synonym entry_content = "string \<times> string \<times> string \<times> string \<times> time \<times> sem"

definition entry_content :: "entry \<Rightarrow> entry_content" where
  "entry_content e =
     (e_level e, e_service e, e_host e, e_message e, e_observed_at e, gsem (VObj (e_attributes e)))"

definition entry_utf8 :: "entry \<Rightarrow> bool" where
  "entry_utf8 e \<longleftrightarrow> valid_utf8 (e_level e) \<and> valid_utf8 (e_service e) \<and> valid_utf8 (e_host e) \<and>
     valid_utf8 (e_message e) \<and> members_utf8 (e_attributes e)"

text \<open>A text that is an object with given field names, and its parsed form.\<close>

definition obj_rendering :: "string list \<Rightarrow> string \<Rightarrow> json \<Rightarrow> bool" where
  "obj_rendering names t j \<longleftrightarrow>
     (\<exists>fs vs. t = jobj fs \<and> map fst fs = names \<and> list_all2 (\<lambda>f v. renders (snd f) v) fs vs \<and>
        j = JObj (map2 (\<lambda>f v. (quote_body (fst f), snd f, v)) fs vs))"

lemma obj_rendering_renders: "obj_rendering names t j \<Longrightarrow> renders t j"
  using json_parse_jobj(2) by (auto simp: obj_rendering_def)

lemma obj_rendering_unique:
  assumes "obj_rendering names t j" "obj_rendering names u j"
  shows "t = u"
proof -
  define G where "G = (\<lambda>(f :: string \<times> string) (v :: json). (quote_body (fst f), snd f, v))"
  have snd: "map (\<lambda>m. fst (snd m)) (map2 G hs xs) = map snd hs" if "length hs = length xs" for hs xs
    using that by (induction hs xs rule: list_induct2) (auto simp: G_def)
  obtain fs vs where f: "t = jobj fs" "map fst fs = names" "length fs = length vs" "j = JObj (map2 G fs vs)"
    using assms(1) by (auto simp: obj_rendering_def G_def dest: list_all2_lengthD)
  obtain gs ws where g: "u = jobj gs" "map fst gs = names" "length gs = length ws" "j = JObj (map2 G gs ws)"
    using assms(2) by (auto simp: obj_rendering_def G_def dest: list_all2_lengthD)
  have "map2 G fs vs = map2 G gs ws" using f(4) g(4) by simp
  then have "map snd fs = map snd gs" using snd [OF f(3)] snd [OF g(3)] by simp
  with f(2) g(2) have "fs = gs" by (metis zip_map_fst_snd)
  with f g show ?thesis by simp
qed

lemma renders_entry_fields:
  assumes "renders attrs a"
  shows "\<exists>vs. list_all2 (\<lambda>f v. renders (snd f) v) (entry_fields_text i e attrs) vs"
  unfolding entry_fields_text_def
  by (intro exI [of _ "[JNum (int_dec (int i)), JStr (quote_body (time_format (e_observed_at e))),
      JStr (quote_body (e_level e)), JStr (quote_body (e_service e)), JStr (quote_body (e_host e)),
      JStr (quote_body (e_message e)), a]"]) (simp add: assms)

lemma canonical_entries_render:
  assumes "canonical_entries i es = Some ts" "list_all entry_utf8 es"
  shows "\<exists>js. list_all2 (obj_rendering wire_entry_fields) ts js"
  using assms
proof (induction es arbitrary: i ts)
  case Nil
  then show ?case by auto
next
  case (Cons e es)
  from Cons.prems obtain attrs us where a: "canonical_json 0 (l_max_attributes_depth default_limits) (VObj (e_attributes e)) = Some attrs"
    and us: "canonical_entries (Suc i) es = Some us" and ts: "ts = jobj (entry_fields_text i e attrs) # us"
    by (auto split: Option.bind_splits)
  from canonical_reads(1) [OF a] Cons.prems(2) obtain j where "renders attrs j" by (auto simp: reads_def entry_utf8_def)
  then obtain vs where vs: "list_all2 (\<lambda>f v. renders (snd f) v) (entry_fields_text i e attrs) vs"
    using renders_entry_fields by blast
  obtain js where js: "list_all2 (obj_rendering wire_entry_fields) us js" using Cons.IH us Cons.prems(2) by auto
  have "obj_rendering wire_entry_fields (jobj (entry_fields_text i e attrs))
      (JObj (map2 (\<lambda>f v. (quote_body (fst f), snd f, v)) (entry_fields_text i e attrs) vs))"
    using vs unfolding obj_rendering_def
    by (intro exI [of _ "entry_fields_text i e attrs"] exI [of _ vs]) (simp add: entry_fields_text_def wire_entry_fields_def)
  with js show ?case unfolding ts by blast
qed

lemma jarr_inj:
  assumes "list_all2 (obj_rendering names) ts js" "list_all2 (obj_rendering names) us ks" "jarr ts = jarr us"
  shows "ts = us"
proof -
  have r: "list_all2 renders ts js" "list_all2 renders us ks"
    using assms(1,2) by (auto elim: list_all2_mono intro: obj_rendering_renders)
  have "JArr js = JArr ks"
    using renders_json_parse [OF renders_arr [OF r(1)]] renders_json_parse [OF renders_arr [OF r(2)]] assms(3) by simp
  then have "js = ks" by simp
  with assms(1,2) show ?thesis
  proof (induction arbitrary: us ks rule: list_all2_induct)
    case (Cons t ts j js)
    then obtain u us' where "us = u # us'" "obj_rendering names u j" "list_all2 (obj_rendering names) us' js"
      by (auto simp: list_all2_Cons2)
    with Cons show ?case using obj_rendering_unique by blast
  qed simp
qed

lemma entry_text_eq_iff:
  assumes a: "canonical_json 0 d (VObj (e_attributes e)) = Some a" "entry_utf8 e"
    and b: "canonical_json 0 d (VObj (e_attributes f)) = Some b" "entry_utf8 f"
  shows "jobj (entry_fields_text i e a) = jobj (entry_fields_text i f b) \<longleftrightarrow> entry_content e = entry_content f"
proof -
  have u: "gv_utf8 (VObj (e_attributes e))" "gv_utf8 (VObj (e_attributes f))"
    using a(2) b(2) by (simp_all add: entry_utf8_def)
  obtain ja jb where "renders a ja" "renders b jb"
    using canonical_reads(1) [OF a(1) u(1)] canonical_reads(1) [OF b(1) u(2)] by (auto simp: reads_def)
  then obtain vs ws where vw: "list_all2 (\<lambda>f v. renders (snd f) v) (entry_fields_text i e a) vs"
    "list_all2 (\<lambda>f v. renders (snd f) v) (entry_fields_text i f b) ws" using renders_entry_fields by metis
  have "jobj (entry_fields_text i e a) = jobj (entry_fields_text i f b) \<longleftrightarrow>
      entry_fields_text i e a = entry_fields_text i f b"
    using jobj_inj [OF _ vw] by (auto simp: entry_fields_text_def)
  also have "\<dots> \<longleftrightarrow> entry_content e = entry_content f"
    using a(2) b(2) canonical_json_eq_iff [OF a(1) b(1) u] unfolding entry_fields_text_def
    by (auto simp: entry_content_def quote_inj quote_time_inj entry_utf8_def simp del: gsem.simps)
  finally show ?thesis .
qed

lemma canonical_entries_eq_iff:
  assumes "canonical_entries i es = Some ts" "canonical_entries i fs = Some us"
    and "list_all entry_utf8 es" "list_all entry_utf8 fs"
  shows "ts = us \<longleftrightarrow> map entry_content es = map entry_content fs"
  using assms
proof (induction es arbitrary: i fs ts us)
  case Nil
  then show ?case by (cases fs) (auto split: Option.bind_splits)
next
  case (Cons e es)
  show ?case
  proof (cases fs)
    case Nil
    with Cons.prems show ?thesis by (auto split: Option.bind_splits)
  next
    case f: (Cons f fs')
    with Cons.prems obtain a ts' b us' where
      a: "canonical_json 0 (l_max_attributes_depth default_limits) (VObj (e_attributes e)) = Some a"
      and ts: "canonical_entries (Suc i) es = Some ts'" "ts = jobj (entry_fields_text i e a) # ts'"
      and b: "canonical_json 0 (l_max_attributes_depth default_limits) (VObj (e_attributes f)) = Some b"
      and us: "canonical_entries (Suc i) fs' = Some us'" "us = jobj (entry_fields_text i f b) # us'"
      by (auto split: Option.bind_splits)
    show ?thesis
      using Cons.IH [OF ts(1) us(1)] entry_text_eq_iff [OF a _ b, of i] Cons.prems(3,4) f ts(2) us(2) by auto
  qed
qed

definition payload_content ::
  "(string \<Rightarrow> string) \<Rightarrow> batch_request \<Rightarrow> entry list \<Rightarrow> (string \<times> string \<times> string \<times> int \<times> time) \<times> entry_content list" where
  "payload_content lmap r es =
     ((to_lower lmap (br_batch_id r), to_lower lmap (br_agent_id r), to_lower lmap (br_pipeline_id r), br_sequence r,
       br_sent_at r), map entry_content es)"

lemma int_dec_inj: "int_dec m = int_dec n \<longleftrightarrow> m = n"
  by (metis read_int_int_dec)

lemma byte_ascii_lower: "byte_val c < 128 \<Longrightarrow> byte_val (ascii_lower c) < 128"
  by (auto simp: ascii_lower_def)

lemma to_lower_ascii: "is_ascii s \<Longrightarrow> to_lower lmap s = map ascii_lower s \<and> is_ascii (to_lower lmap s)"
  by (auto simp: to_lower_def is_ascii_def list_all_iff byte_ascii_lower)

lemma to_lower_uuid_utf8: "valid_uuid s \<Longrightarrow> valid_utf8 (to_lower lmap s)"
  using valid_uuid_ascii to_lower_ascii valid_utf8_ascii by blast

lemma canonical_payload_eq_iff:
  assumes c: "canonical_payload lmap r es = Inr c" "canonical_payload lmap s fs = Inr d"
    and u: "list_all entry_utf8 es" "list_all entry_utf8 fs"
    and r: "valid_uuid (br_batch_id r)" "valid_uuid (br_agent_id r)" "valid_uuid (br_pipeline_id r)"
    and s: "valid_uuid (br_batch_id s)" "valid_uuid (br_agent_id s)" "valid_uuid (br_pipeline_id s)"
  shows "c = d \<longleftrightarrow> payload_content lmap r es = payload_content lmap s fs"
proof -
  obtain ts us where ts: "canonical_entries 0 es = Some ts" "c = jobj (payload_fields lmap r ts)"
    and us: "canonical_entries 0 fs = Some us" "d = jobj (payload_fields lmap s us)"
    using c by (auto simp: canonical_payload_def split: if_splits option.splits)
  obtain js ks where js: "list_all2 (obj_rendering wire_entry_fields) ts js" "list_all2 (obj_rendering wire_entry_fields) us ks"
    using canonical_entries_render ts(1) us(1) u by metis
  have arr: "jarr ts = jarr us \<longleftrightarrow> ts = us" using jarr_inj [OF js] by auto
  have ren: "\<exists>vs. list_all2 (\<lambda>f v. renders (snd f) v) (payload_fields lmap r ts) vs"
    if "list_all2 (obj_rendering wire_entry_fields) ts js" for r ts js
  proof -
    have "renders (jarr ts) (JArr js)"
      using that by (intro renders_arr) (auto elim: list_all2_mono intro: obj_rendering_renders)
    moreover have "renders ''1'' (JNum ''1'')" using renders_int_dec [of 1] by (simp add: int_dec_def nat_dec.simps digit_char_code)
    ultimately show ?thesis
      unfolding payload_fields_def
      by (intro exI [of _ "[JNum ''1'', JStr (quote_body (to_lower lmap (br_batch_id r))),
          JStr (quote_body (to_lower lmap (br_agent_id r))), JStr (quote_body (to_lower lmap (br_pipeline_id r))),
          JNum (int_dec (br_sequence r)), JStr (quote_body (time_format (br_sent_at r))), JArr js]"]) simp
  qed
  obtain vs ws where "list_all2 (\<lambda>f v. renders (snd f) v) (payload_fields lmap r ts) vs"
    "list_all2 (\<lambda>f v. renders (snd f) v) (payload_fields lmap s us) ws"
    using ren js by meson
  then have "c = d \<longleftrightarrow> payload_fields lmap r ts = payload_fields lmap s us"
    using jobj_inj unfolding ts(2) us(2) by (fastforce simp: payload_fields_def)
  also have "\<dots> \<longleftrightarrow> payload_content lmap r es = payload_content lmap s fs"
    using canonical_entries_eq_iff [OF ts(1) us(1) u] arr r s
    unfolding payload_fields_def payload_content_def
    by (auto simp: quote_inj quote_time_inj to_lower_uuid_utf8 int_dec_inj)
  finally show ?thesis .
qed

section \<open>Normalize\<close>

lemma canonical_depth_mono:
  "canonical_json d m v = Some t \<Longrightarrow> m \<le> m' \<Longrightarrow> canonical_json d m' v = Some t"
  "canonical_items d m vs = Some ts \<Longrightarrow> m \<le> m' \<Longrightarrow> canonical_items d m' vs = Some ts"
  "canonical_members d m ms = Some fs \<Longrightarrow> m \<le> m' \<Longrightarrow> canonical_members d m' ms = Some fs"
  by (induction d m v and d m vs and d m ms arbitrary: t and ts and fs
      rule: canonical_json_canonical_items_canonical_members.induct)
    (auto split: if_splits Option.bind_splits)

lemma length_normalized_entries [simp]: "length (normalized_entries umap r) = length (br_entries r)"
  by (simp add: normalized_entries_def)

lemma nth_normalized_entries [simp]:
  "i < length (br_entries r) \<Longrightarrow> normalized_entries umap r ! i = entry_of umap i (br_entries r ! i)"
  by (simp add: normalized_entries_def nth_enumerate_eq)

lemma canonical_entries_total:
  assumes "\<forall>e \<in> set es. canonical_json 0 (l_max_attributes_depth default_limits) (VObj (e_attributes e)) \<noteq> None"
  shows "\<exists>ts. canonical_entries i es = Some ts"
  using assms
proof (induction es arbitrary: i)
  case (Cons e es)
  then obtain a ts where "canonical_json 0 (l_max_attributes_depth default_limits) (VObj (e_attributes e)) = Some a"
    "canonical_entries (Suc i) es = Some ts" by force
  then show ?case by (simp del: canonical_json.simps)
qed simp

lemma request_ok_canonical:
  assumes "request_ok umap lims r p" "l_max_attributes_depth lims \<le> l_max_attributes_depth default_limits"
  shows "\<exists>c. canonical_payload lmap r (normalized_entries umap r) = Inr c"
proof -
  have "canonical_json 0 (l_max_attributes_depth default_limits) (VObj (e_attributes e)) \<noteq> None"
    if mem: "e \<in> set (normalized_entries umap r)" for e
  proof -
    obtain i where i': "i < length (normalized_entries umap r)" "normalized_entries umap r ! i = e"
      using mem unfolding in_set_conv_nth by blast
    then have i: "i < length (br_entries r)" "e = entry_of umap i (br_entries r ! i)" by auto
    then have "attributes_ok lims e" using assms(1) by (simp add: request_ok_def entry_ok_def)
    then obtain t where "canonical_json 0 (l_max_attributes_depth lims) (VObj (e_attributes e)) = Some t"
      by (auto simp: attributes_ok_def split: option.splits)
    from canonical_depth_mono(1) [OF this assms(2)] show ?thesis by simp
  qed
  then show ?thesis
    using canonical_entries_total [of "normalized_entries umap r" 0] by (auto simp: canonical_payload_def)
qed

lemma valid_level_not_blank: "valid_level l \<Longrightarrow> \<not> blank l"
proof -
  have "list_all (\<lambda>l. \<not> blank l) [''TRACE'', ''DEBUG'', ''INFO'', ''WARN'', ''ERROR'', ''FATAL'']" by code_simp
  then show "valid_level l \<Longrightarrow> \<not> blank l" unfolding valid_level_def list_all_iff by blast
qed

text \<open>The last step of \<open>Normalize\<close>, \<open>Batch.Validate\<close>, cannot fail after the validator has passed.\<close>

lemma bound_entry_valid:
  assumes "entry_ok lims i item (entry_of umap i item)"
    and "b_project_id b = p" "b_id b = br_batch_id r" "b_agent_id b = br_agent_id r" "b_pipeline_id b = br_pipeline_id r"
  shows "validate_for_batch (bind_entry r p (entry_of umap i item)) b = None"
  using assms valid_level_not_blank
  by (auto simp: validate_for_batch_def bind_entry_def entry_of_def entry_ok_def text_ok_def)

lemma normalized_batch_valid:
  assumes ok: "request_ok umap lims r p"
    and b: "b_id b = br_batch_id r" "b_project_id b = p" "b_agent_id b = br_agent_id r" "b_pipeline_id b = br_pipeline_id r"
      "b_sequence b = br_sequence r" "0 < b_payload_bytes b" "b_created_at b = br_sent_at r"
      "b_entries b = map (bind_entry r p) (normalized_entries umap r)"
  shows "validate_batch b = None"
proof -
  have ids: "valid_uuid p" "valid_uuid (br_batch_id r)" "valid_uuid (br_agent_id r)" "valid_uuid (br_pipeline_id r)"
    "0 \<le> br_sequence r" "\<not> is_zero (br_sent_at r)" "br_entries r \<noteq> []"
    using ok by (simp_all add: request_ok_def)
  have "b_entries b \<noteq> []" using ids(7) length_normalized_entries [of umap r] b(8) by (metis list.map_disc_iff list.size(3) length_0_conv)
  moreover have "validate_entries b 0 (b_entries b) = None"
    unfolding validate_entries_None_iff
  proof (intro allI impI)
    fix j assume "j < length (b_entries b)"
    then have j: "j < length (br_entries r)" by (simp add: b(8))
    then have e: "b_entries b ! j = bind_entry r p (entry_of umap j (br_entries r ! j))" by (simp add: b(8))
    have "entry_ok lims j (br_entries r ! j) (entry_of umap j (br_entries r ! j))"
      using ok j by (simp add: request_ok_def)
    then show "e_batch_sequence (b_entries b ! j) = int (0 + j) \<and> validate_for_batch (b_entries b ! j) b = None"
      unfolding e using bound_entry_valid b by (auto simp: bind_entry_def entry_of_def)
  qed
  ultimately show ?thesis using ids b by (simp add: validate_batch_def)
qed

lemma jobj_nonempty [simp]: "jobj fs \<noteq> []"
  by (simp add: jobj_def)

lemma canonical_payload_nonempty: "canonical_payload lmap r es = Inr c \<Longrightarrow> 0 < length c"
  by (auto simp: canonical_payload_def split: if_splits option.splits)

text \<open>The batch that \<open>Normalize\<close> builds from a request and its canonical payload.\<close>

definition bound_batch :: "(string \<Rightarrow> string) \<Rightarrow> batch_request \<Rightarrow> uuid \<Rightarrow> int \<Rightarrow> bytes \<Rightarrow> batch" where
  "bound_batch umap r p n c =
     \<lparr>b_id = br_batch_id r, b_project_id = p, b_agent_id = br_agent_id r, b_pipeline_id = br_pipeline_id r,
      b_sequence = br_sequence r, b_payload_hash = sha256 c,
      b_payload_bytes = (if n \<le> 0 then int (length c) else n),
      b_entries = map (bind_entry r p) (normalized_entries umap r), b_created_at = br_sent_at r\<rparr>"

lemma bound_batch_valid:
  "request_ok umap lims r p \<Longrightarrow> 0 < length c \<Longrightarrow> validate_batch (bound_batch umap r p n c) = None"
  by (rule normalized_batch_valid) (auto simp: bound_batch_def)

lemma normalize_result:
  assumes "l_max_attributes_depth (effective_limits limits0) \<le> l_max_attributes_depth default_limits"
  shows "normalize umap lmap r p n limits0 =
    (if br_protocol_version r \<noteq> protocol_version then Inl UnsupportedVersion
     else if \<not> request_ok umap (effective_limits limits0) r p
       then Inl (ValidationError (v_fields (check_request umap (effective_limits limits0) r p)))
     else Inr (bound_batch umap r p n (projr (canonical_payload lmap r (normalized_entries umap r)))))"
proof (cases "br_protocol_version r = protocol_version \<and> request_ok umap (effective_limits limits0) r p")
  case True
  then obtain c where c: "canonical_payload lmap r (normalized_entries umap r) = Inr c"
    using request_ok_canonical assms by blast
  have v: "validate_batch (bound_batch umap r p n c) = None"
    using True bound_batch_valid canonical_payload_nonempty [OF c] by blast
  show ?thesis
    using True c v check_request_Nil [of umap "effective_limits limits0" r p]
    by (simp add: normalize_def Let_def flip: bound_batch_def)
next
  case False
  then show ?thesis
    using check_request_Nil [of umap "effective_limits limits0" r p] by (auto simp: normalize_def Let_def)
qed

lemma normalized_utf8:
  assumes "request_ok umap lims r p" "request_utf8 r"
  shows "list_all entry_utf8 (normalized_entries umap r)"
  unfolding list_all_length
proof (intro allI impI)
  fix i assume "i < length (normalized_entries umap r)"
  then have i: "i < length (br_entries r)" by simp
  then have "entry_ok lims i (br_entries r ! i) (entry_of umap i (br_entries r ! i))" "wire_utf8 (br_entries r ! i)"
    using assms by (simp_all add: request_ok_def request_utf8_def list_all_length)
  then show "entry_utf8 (normalized_entries umap r ! i)"
    using i by (auto simp: entry_utf8_def entry_ok_def text_ok_def wire_utf8_def entry_of_def split: option.splits)
qed

section \<open>Decoding\<close>

lemma decode_iff:
  "(\<exists>n. decode (Some (body, False)) max_bytes = (Inr r, n)) \<longleftrightarrow>
     int (length body) \<le> (if max_bytes \<le> 0 then 4194304 else max_bytes) \<and>
     (\<exists>v. json_parse body = Some v \<and> dec_batch_request v zero_batch_request = Some r)"
  (is "?lhs \<longleftrightarrow> ?rhs")
proof -
  define m where "m = (if max_bytes \<le> 0 then 4194304 else max_bytes)"
  have m: "(if max_bytes \<le> 0 then l_max_body_bytes default_limits else max_bytes) = m" "0 < m"
    by (auto simp: m_def default_limits_def)
  show ?thesis
  proof (cases "int (length body) \<le> m")
    case True
    then have "take (nat (m + 1)) body = body" by simp
    with True show ?thesis
      by (auto simp: decode_def Let_def m json_parse_def m_def [symmetric] split: option.splits if_splits)
  next
    case False
    then have "int (length (take (nat (m + 1)) body)) > m" using m by simp
    with False show ?thesis by (simp add: decode_def Let_def m m_def [symmetric])
  qed
qed

end
