(* ===== verification/Ingest_Properties.thy ===== *)
theory Ingest_Properties
  imports Ingest_Facts
begin

text \<open>
  The properties of the ingest protocol: the canonical number, the strict decoder, \<open>Normalize\<close> and
  the identity that the canonical payload gives to a batch; each with a witness on a concrete request.
\<close>

section \<open>A concrete request\<close>

definition sample_id :: "char \<Rightarrow> uuid" where
  "sample_id c = replicate 8 c @ ''-'' @ replicate 4 c @ ''-'' @ replicate 4 c @ ''-'' @ replicate 4 c @ ''-'' @ replicate 12 c"

definition sample_entry :: "attributes \<Rightarrow> wire_entry" where
  "sample_entry a =
     \<lparr>we_sequence = 0, we_observed_at = 63922694400000000000, we_level = '' info'', we_service = ''api '',
      we_host = ''node'', we_message = ''ok'', we_attributes = Some a\<rparr>"

definition sample_request :: "attributes \<Rightarrow> batch_request" where
  "sample_request a =
     \<lparr>br_protocol_version = 1, br_batch_id = sample_id (CHR ''4''), br_agent_id = sample_id (CHR ''2''),
      br_pipeline_id = sample_id (CHR ''3''), br_sequence = 0, br_sent_at = 63922694400000000000,
      br_entries = [sample_entry a]\<rparr>"

text \<open>The attributes \<open>{"b":1.0,"nested":{"z":2,"a":0.0010}}\<close> and \<open>{"nested":{"a":1e-3,"z":2.0},"b":1}\<close>.\<close>

definition attributes_1 :: attributes where
  "attributes_1 = [(''b'', VNum ''1.0''), (''nested'', VObj [(''z'', VNum ''2''), (''a'', VNum ''0.0010'')])]"

definition attributes_2 :: attributes where
  "attributes_2 = [(''nested'', VObj [(''a'', VNum ''1e-3''), (''z'', VNum ''2.0'')]), (''b'', VNum ''1'')]"

lemma sample_entry_ok:
  "entry_ok default_limits 0 (sample_entry attributes_1) (entry_of (\<lambda>s. s) 0 (sample_entry attributes_1))"
  "entry_ok default_limits 0 (sample_entry attributes_2) (entry_of (\<lambda>s. s) 0 (sample_entry attributes_2))"
  by code_simp+

lemma sample_ids: "valid_uuid (sample_id (CHR ''1''))" "valid_uuid (sample_id (CHR ''2''))"
  "valid_uuid (sample_id (CHR ''3''))" "valid_uuid (sample_id (CHR ''4''))"
  by code_simp+

lemma sample_request_ok:
  assumes "a = attributes_1 \<or> a = attributes_2"
  shows "request_ok (\<lambda>s. s) default_limits (sample_request a) (sample_id (CHR ''1''))"
  using assms sample_entry_ok sample_ids
  by (auto simp: request_ok_def sample_request_def is_zero_def zero_time_def default_limits_def)

lemma sample_request_utf8:
  assumes "a = attributes_1 \<or> a = attributes_2"
  shows "request_utf8 (sample_request a)"
proof -
  have "members_utf8 attributes_1" "members_utf8 attributes_2" by code_simp+
  with assms show ?thesis by (auto simp: request_utf8_def sample_request_def wire_utf8_def sample_entry_def)
qed

section \<open>Numbers\<close>

text \<open>
  C16. \<open>canonicalNumber\<close> gives a JSON number of the same value as its input, and two literals have the
  same result exactly when they have the same value: no precision is lost and no two values collide.
\<close>

theorem canonical_number_exact:
  assumes "canonical_number r1 = Some c1" "canonical_number r2 = Some c2"
  shows "literal_value c1 = literal_value r1 \<and> num_ok c1 \<and> (c1 = c2 \<longleftrightarrow> literal_value r1 = literal_value r2)"
  using canonical_number_value [OF assms(1)] canonical_number_ok [OF assms(1)] canonical_number_eq_iff [OF assms] by blast

theorem canonical_number_exact_witness:
  "canonical_number ''-0.00120E+2'' = Some ''-0.12'' \<and> canonical_number ''-12e-2'' = Some ''-0.12'' \<and>
   literal_value ''-0.00120E+2'' = literal_value ''-12e-2''"
proof -
  have c: "canonical_number ''-0.00120E+2'' = Some ''-0.12''" "canonical_number ''-12e-2'' = Some ''-0.12''" by code_simp+
  with canonical_number_exact [OF c] show ?thesis by simp
qed

section \<open>Decoding\<close>


section \<open>Normalization\<close>

text \<open>
  C15. \<open>Normalize\<close> refuses another protocol version, reports at least one and at most
  \<open>MaxFieldErrors\<close> field errors exactly when a field is bad, and otherwise returns a batch that passes
  \<open>Batch.Validate\<close> and whose every entry carries the authenticated project, the ids of the request
  and its own index: the body cannot choose the project.
\<close>

theorem normalize_spec:
  assumes "l_max_attributes_depth (effective_limits lims) \<le> 8"
  shows "case normalize umap lmap r p n lims of
      Inr b \<Rightarrow> br_protocol_version r = 1 \<and> request_ok umap (effective_limits lims) r p \<and> validate_batch b = None \<and>
        b_project_id b = p \<and> length (b_entries b) = length (br_entries r) \<and>
        (\<forall>i < length (b_entries b). e_project_id (b_entries b ! i) = p \<and> e_batch_id (b_entries b ! i) = b_id b \<and>
           e_batch_sequence (b_entries b ! i) = int i)
    | Inl UnsupportedVersion \<Rightarrow> br_protocol_version r \<noteq> 1
    | Inl (ValidationError fs) \<Rightarrow> br_protocol_version r = 1 \<and> \<not> request_ok umap (effective_limits lims) r p \<and>
        fs \<noteq> [] \<and> (0 < l_max_field_errors (effective_limits lims) \<longrightarrow>
                     int (length fs) \<le> l_max_field_errors (effective_limits lims))
    | Inl _ \<Rightarrow> False"
proof -
  define c where "c = projr (canonical_payload lmap r (normalized_entries umap r))"
  have d: "l_max_attributes_depth (effective_limits lims) \<le> l_max_attributes_depth default_limits"
    using assms by (simp add: default_limits_def)
  have b: "v_fields (check_request umap (effective_limits lims) r p) = [] \<longleftrightarrow> request_ok umap (effective_limits lims) r p"
    "0 < l_max_field_errors (effective_limits lims) \<Longrightarrow>
       int (length (v_fields (check_request umap (effective_limits lims) r p))) \<le> l_max_field_errors (effective_limits lims)"
    using check_request_Nil check_request_bounded [of umap "effective_limits lims" r p] by (auto simp: v_bounded_def)
  have "validate_batch (bound_batch umap r p n c) = None" if "request_ok umap (effective_limits lims) r p"
    using bound_batch_valid [OF that] request_ok_canonical [OF that d] canonical_payload_nonempty
    by (metis c_def sum.sel(2))
  moreover have "e_project_id (b_entries (bound_batch umap r p n c) ! i) = p"
    "e_batch_id (b_entries (bound_batch umap r p n c) ! i) = b_id (bound_batch umap r p n c)"
    "e_batch_sequence (b_entries (bound_batch umap r p n c) ! i) = int i"
    if "i < length (br_entries r)" for i
    using that by (simp_all add: bound_batch_def bind_entry_def entry_of_def)
  moreover have "b_project_id (bound_batch umap r p n c) = p"
    "length (b_entries (bound_batch umap r p n c)) = length (br_entries r)" by (simp_all add: bound_batch_def)
  ultimately show ?thesis
    unfolding normalize_result [OF d] using b by (simp add: protocol_version_def flip: c_def)
qed

theorem normalize_spec_witness:
  "\<exists>b. normalize (\<lambda>s. s) (\<lambda>s. s) (sample_request attributes_1) (sample_id (CHR ''1'')) 100 default_limits = Inr b \<and>
     validate_batch b = None \<and> b_project_id b = sample_id (CHR ''1'')"
proof -
  have d: "l_max_attributes_depth (effective_limits default_limits) \<le> 8" "effective_limits default_limits = default_limits"
    by (simp_all add: effective_limits_def default_limits_def)
  have v: "br_protocol_version (sample_request attributes_1) = 1" by (simp add: sample_request_def)
  note spec = normalize_spec [OF d(1), where umap = "\<lambda>s. s" and lmap = "\<lambda>s. s" and r = "sample_request attributes_1"
      and p = "sample_id (CHR ''1'')" and n = 100]
  then show ?thesis
    using sample_request_ok [of attributes_1] v d(2) by (auto split: sum.splits ingest_error.splits)
qed

section \<open>Identity\<close>

text \<open>
  C17. Two requests that \<open>Normalize\<close> accepts have the same canonical payload exactly when they have
  the same content: ids up to case, sequence, instants, trimmed service, host and level, message, and
  attributes as JSON values (numbers by value, objects without order). The payload hash of the
  resulting batch is the SHA-256 of that payload, so a retry with the same content has the same hash.
\<close>

theorem payload_identity:
  assumes "request_ok umap lims r p" "request_utf8 r" "request_ok umap lims s q" "request_utf8 s"
    and "l_max_attributes_depth lims \<le> 8" "0 < l_max_entries lims"
    and "br_protocol_version r = 1" "br_protocol_version s = 1"
  shows "\<exists>b c b' c'. normalize umap lmap r p n lims = Inr b \<and> normalize umap lmap s q m lims = Inr b' \<and>
    canonical_payload lmap r (normalized_entries umap r) = Inr c \<and>
    canonical_payload lmap s (normalized_entries umap s) = Inr c' \<and>
    b_payload_hash b = sha256 c \<and> b_payload_hash b' = sha256 c' \<and>
    (c = c' \<longleftrightarrow> payload_content lmap r (normalized_entries umap r) = payload_content lmap s (normalized_entries umap s))"
proof -
  have e: "effective_limits lims = lims" using assms(6) by (simp add: effective_limits_def)
  have d: "l_max_attributes_depth lims \<le> l_max_attributes_depth default_limits" using assms(5) by (simp add: default_limits_def)
  obtain c c' where c: "canonical_payload lmap r (normalized_entries umap r) = Inr c"
    "canonical_payload lmap s (normalized_entries umap s) = Inr c'"
    using request_ok_canonical assms(1,3) d by meson
  have "c = c' \<longleftrightarrow> payload_content lmap r (normalized_entries umap r) = payload_content lmap s (normalized_entries umap s)"
    using assms(1,3) by (intro canonical_payload_eq_iff [OF c] normalized_utf8 [OF assms(1,2)] normalized_utf8 [OF assms(3,4)])
      (simp_all add: request_ok_def)
  then show ?thesis
    using c assms normalize_result [of lims umap lmap r p n] normalize_result [of lims umap lmap s q m] e d
    by (auto simp: protocol_version_def bound_batch_def)
qed

theorem payload_identity_witness:
  "\<exists>b b'. normalize (\<lambda>s. s) (\<lambda>s. s) (sample_request attributes_1) (sample_id (CHR ''1'')) 100 default_limits = Inr b \<and>
     normalize (\<lambda>s. s) (\<lambda>s. s) (sample_request attributes_2) (sample_id (CHR ''1'')) 90 default_limits = Inr b' \<and>
     b_payload_hash b = b_payload_hash b'"
proof -
  have c: "payload_content (\<lambda>s. s) (sample_request attributes_1) (normalized_entries (\<lambda>s. s) (sample_request attributes_1))
      = payload_content (\<lambda>s. s) (sample_request attributes_2) (normalized_entries (\<lambda>s. s) (sample_request attributes_2))"
    by code_simp
  have l: "l_max_attributes_depth default_limits \<le> 8" "0 < l_max_entries default_limits" by (simp_all add: default_limits_def)
  have v: "br_protocol_version (sample_request a) = 1" for a by (simp add: sample_request_def)
  show ?thesis
    using payload_identity [OF sample_request_ok [of attributes_1] sample_request_utf8 [of attributes_1]
        sample_request_ok [of attributes_2] sample_request_utf8 [of attributes_2] l v v, of "\<lambda>s. s" 100 90] c by auto
qed

end
