(* ===== verification/Server_Errors.thy ===== *)
theory Server_Errors
  imports Ingest_Protocol
begin

text \<open>
  The error values of the server. A Go error that wraps another (\<open>fmt.Errorf\<close> with \<open>%w\<close>) is modelled by
  the one it wraps, since the code only tests errors with \<open>errors.Is\<close> and \<open>errors.As\<close>;
  \<open>errors.Join\<close> is \<open>Joined\<close>, and \<open>err_is\<close> is the traversal of \<open>errors.Is\<close>. \<open>Driver\<close> is an error
  of the database driver that \<open>classifyError\<close> leaves alone or of a context that ended (\<open>DataError\<close>: a value
  that the column does not take), \<open>ApiError\<close> the typed error of the HTTP layer (status, code and message),
  \<open>Internal\<close> any other untyped error.
\<close>

datatype limit_reason = KeyRate | ProjectEntries | ProjectBytes | ProjectInflight

datatype driver_error = ConnectionLost | ContextCancelled | DeadlineExceeded | DataError

datatype server_error =
    Domain domain_error
  | InvalidCredential
  | ProjectMismatch
  | AgentMismatch
  | NotFound
  | Conflict
  | CorruptRow
  | Driver driver_error
  | Limited limit_reason duration
  | BatchExceedsCapacity
  | AgentIsDisabled
  | PipelineUnavailable
  | VersionConflict
  | ResourceBinding
  | ResourceDisabled
  | Protocol ingest_error
  | InvalidTimeRange
  | InvalidLimit
  | InvalidFilter
  | InvalidCursor
  | CapacityLimited
  | ExecutionTimeout
  | ApiError int string string
  | Internal string
  | Joined server_error server_error

fun err_is :: "server_error \<Rightarrow> (server_error \<Rightarrow> bool) \<Rightarrow> bool" where
  "err_is (Joined a b) test \<longleftrightarrow> err_is a test \<or> err_is b test"
| "err_is e test \<longleftrightarrow> test e"

section \<open>Results\<close>

text \<open>Calls in sequence, as in \<open>if err != nil { return err }\<close>, on a state that survives the error.\<close>

type_synonym ('s, 'a) act = "'s \<Rightarrow> (server_error + 'a) \<times> 's"

definition ret :: "'a \<Rightarrow> ('s, 'a) act" where
  "ret x s = (Inr x, s)"

definition fail :: "server_error \<Rightarrow> ('s, 'a) act" where
  "fail e s = (Inl e, s)"

definition andthen :: "('s, 'a) act \<Rightarrow> ('a \<Rightarrow> ('s, 'b) act) \<Rightarrow> ('s, 'b) act" where
  "andthen m f s = (case m s of (Inl e, s') \<Rightarrow> (Inl e, s') | (Inr x, s') \<Rightarrow> f x s')"

definition check :: "server_error option \<Rightarrow> ('s, unit) act" where
  "check e = (case e of None \<Rightarrow> ret () | Some err \<Rightarrow> fail err)"

definition domain_check :: "domain_error option \<Rightarrow> server_error option" where
  "domain_check e = map_option Domain e"

lemma act_simps [simp]:
  "ret x s = (Inr x, s)" "fail e s = (Inl e, s)" "check None s = (Inr (), s)" "check (Some e) s = (Inl e, s)"
  by (simp_all add: ret_def fail_def check_def)

lemma andthen_Inr: "andthen m f s = (Inr y, s'') \<longleftrightarrow> (\<exists>x s'. m s = (Inr x, s') \<and> f x s' = (Inr y, s''))"
  by (auto simp: andthen_def split: prod.splits sum.splits)

lemma andthen_Inl:
  "andthen m f s = (Inl e, s'') \<longleftrightarrow> m s = (Inl e, s'') \<or> (\<exists>x s'. m s = (Inr x, s') \<and> f x s' = (Inl e, s''))"
  by (auto simp: andthen_def split: prod.splits sum.splits)

lemmas act_cases = andthen_Inr andthen_Inl

end
