(* ===== verification/Server_Auth.thy ===== *)
theory Server_Auth
  imports Server_Errors "HOL-Library.Finite_Map"
begin

text \<open>
  Authentication and authorization (\<open>internal/server/auth\<close>): the principal, its scope, project and agent
  checks, the credential format, the keyed hash of a secret, \<open>Authenticate\<close>, and the observation of the
  last use of a key. The key repository is an argument (\<open>find_keys\<close>); the observation runs in its own
  goroutine, so \<open>Authenticate\<close> returns what is to be written and \<open>observation_done\<close> is its end.
\<close>

section \<open>Principals\<close>

record principal =
  pr_key_id :: uuid
  pr_project_id :: uuid
  pr_agent_id :: "uuid option"
  pr_scopes :: "string set"

definition new_principal :: "api_key \<Rightarrow> server_error + principal" where
  "new_principal k =
     (case validate_api_key k of
        Some e \<Rightarrow> Inl (Domain e)
      | None \<Rightarrow> Inr \<lparr>pr_key_id = k_id k, pr_project_id = k_project_id k, pr_agent_id = k_agent_id k,
                     pr_scopes = set (k_scopes k)\<rparr>)"

definition principal_valid :: "principal \<Rightarrow> bool" where
  "principal_valid p \<longleftrightarrow>
     valid_uuid (pr_key_id p) \<and> valid_uuid (pr_project_id p) \<and> pr_scopes p \<noteq> {} \<and>
     (case pr_agent_id p of None \<Rightarrow> True | Some a \<Rightarrow> valid_uuid a) \<and> pr_scopes p \<subseteq> set all_scopes"

definition principal_has :: "principal \<Rightarrow> string \<Rightarrow> bool" where
  "principal_has p scope \<longleftrightarrow> scope \<in> pr_scopes p"

definition require_scope :: "principal \<Rightarrow> string \<Rightarrow> server_error option" where
  "require_scope p scope =
     (if \<not> principal_valid p \<or> scope \<notin> set all_scopes \<or> \<not> principal_has p scope then Some (Domain ErrScopeDenied) else None)"

definition require_project :: "principal \<Rightarrow> uuid \<Rightarrow> server_error option" where
  "require_project p project =
     (if \<not> principal_valid p \<or> \<not> valid_uuid project \<or> pr_project_id p \<noteq> project then Some ProjectMismatch else None)"

definition require_agent :: "principal \<Rightarrow> uuid \<Rightarrow> server_error option" where
  "require_agent p agent =
     (if \<not> valid_uuid agent then Some (Domain (ErrInvalid ''invalid agent''))
      else if (case pr_agent_id p of None \<Rightarrow> False | Some a \<Rightarrow> a \<noteq> agent) then Some AgentMismatch else None)"

section \<open>Credentials\<close>

text \<open>The loops over the runes: a rune that is not ASCII, or an invalid byte, ends in the error.\<close>

definition key_char :: "char \<Rightarrow> bool" where
  "key_char c \<longleftrightarrow> is_digit c \<or> (97 \<le> byte_val c \<and> byte_val c \<le> 122) \<or> (65 \<le> byte_val c \<and> byte_val c \<le> 90) \<or>
     c = CHR ''_'' \<or> c = CHR ''-''"

definition parse_key :: "string \<Rightarrow> (string \<times> string) option" where
  "parse_key raw =
     (if length raw > 768 \<or> count_list raw (CHR ''.'') \<noteq> 1 then None
      else case str_cut (CHR ''.'') raw of
             None \<Rightarrow> None
           | Some (pfx, secret) \<Rightarrow>
               if length pfx < 4 \<or> length pfx > 128 \<or> length secret < 16 \<or> length secret > 512 then None
               else if \<not> list_all key_char pfx then None
               else if \<not> list_all key_char secret then None
               else Some (pfx, secret))"

definition hash_secret :: "string \<Rightarrow> bytes \<Rightarrow> bytes" where
  "hash_secret secret pepper = hmac_sha256 pepper secret"

section \<open>Authenticate\<close>

definition last_used_interval :: duration where "last_used_interval = 60 * second"
definition max_usage_in_flight :: nat where "max_usage_in_flight = 8"

record authenticator =
  au_pepper :: bytes
  au_next_attempt :: "(uuid, time) fmap"
  au_in_flight :: nat

definition new_authenticator :: "bytes \<Rightarrow> server_error + authenticator" where
  "new_authenticator pepper =
     (if length pepper < 16 then Inl (Internal ''pepper'')
      else Inr \<lparr>au_pepper = pepper, au_next_attempt = fmempty, au_in_flight = 0\<rparr>)"

text \<open>The loop over the candidates: the one candidate that matches and is usable, if it is the only one.\<close>

fun find_match :: "bytes \<Rightarrow> time \<Rightarrow> api_key list \<Rightarrow> api_key option \<Rightarrow> server_error + api_key option" where
  "find_match want now [] found = Inr found"
| "find_match want now (k # ks) found =
     (if length (k_secret_hash k) \<noteq> 32 then find_match want now ks found
      else if want = k_secret_hash k \<and> usable_at k now
        then (if found \<noteq> None then Inl InvalidCredential else find_match want now ks (Some k))
      else find_match want now ks found)"

record touch =
  t_project :: uuid
  t_key :: uuid
  t_at :: time

text \<open>
  \<open>observeLastUsed\<close>. \<open>supported\<close>: the repository can record the use; \<open>done\<close>: the \<open>select\<close> took the branch
  of the cancelled context.
\<close>

definition observe_last_used :: "bool \<Rightarrow> bool \<Rightarrow> api_key \<Rightarrow> time \<Rightarrow> authenticator \<Rightarrow> authenticator \<times> touch option" where
  "observe_last_used supported ctx_done k now a =
     (if \<not> supported \<or> (case k_last_used_at k of None \<Rightarrow> False | Some t \<Rightarrow> time_sub now t < last_used_interval) then (a, None)
      else let next_attempt = (case fmlookup (au_next_attempt a) (k_id k) of None \<Rightarrow> zero_time | Some t \<Rightarrow> t)
           in if \<not> is_zero next_attempt \<and> now < next_attempt then (a, None)
              else let a' = a\<lparr>au_next_attempt := fmupd (k_id k) (now + last_used_interval) (au_next_attempt a)\<rparr>
                   in if ctx_done \<or> max_usage_in_flight \<le> au_in_flight a then (a', None)
                      else (a'\<lparr>au_in_flight := Suc (au_in_flight a)\<rparr>,
                            Some \<lparr>t_project = k_project_id k, t_key = k_id k, t_at = now\<rparr>))"

definition observation_done :: "authenticator \<Rightarrow> authenticator" where
  "observation_done a = a\<lparr>au_in_flight := au_in_flight a - 1\<rparr>"

definition authenticate ::
  "(string \<Rightarrow> time \<Rightarrow> server_error + api_key list) \<Rightarrow> bool \<Rightarrow> bool \<Rightarrow> time \<Rightarrow> string \<Rightarrow> authenticator \<Rightarrow>
     (server_error + principal) \<times> authenticator \<times> touch option" where
  "authenticate find_keys supported ctx_done now raw a =
     (case parse_key raw of
        None \<Rightarrow> (Inl InvalidCredential, a, None)
      | Some (pfx, secret) \<Rightarrow>
          (case find_keys pfx now of
             Inl e \<Rightarrow> (Inl e, a, None)
           | Inr candidates \<Rightarrow>
               (case find_match (hash_secret secret (au_pepper a)) now candidates None of
                  Inl e \<Rightarrow> (Inl e, a, None)
                | Inr None \<Rightarrow> (Inl InvalidCredential, a, None)
                | Inr (Some k) \<Rightarrow>
                    (case new_principal k of
                       Inl e \<Rightarrow> (Inl e, a, None)
                     | Inr p \<Rightarrow>
                         let (a', t) = observe_last_used supported ctx_done k now a in (Inr p, a', t)))))"

section \<open>Facts\<close>

definition key_matches :: "bytes \<Rightarrow> time \<Rightarrow> api_key \<Rightarrow> bool" where
  "key_matches want now k \<longleftrightarrow> length (k_secret_hash k) = 32 \<and> want = k_secret_hash k \<and> usable_at k now"

lemma find_match_Some:
  "find_match want now ks (Some f) = (if filter (key_matches want now) ks = [] then Inr (Some f) else Inl InvalidCredential)"
  by (induction ks) (simp_all add: key_matches_def)

lemma find_match_None:
  "find_match want now ks None =
     (case filter (key_matches want now) ks of [] \<Rightarrow> Inr None | [k] \<Rightarrow> Inr (Some k) | _ \<Rightarrow> Inl InvalidCredential)"
proof (induction ks)
  case (Cons k ks)
  show ?case
  proof (cases "key_matches want now k")
    case True
    then have "find_match want now (k # ks) None = find_match want now ks (Some k)" by (simp add: key_matches_def)
    with True show ?thesis by (simp add: find_match_Some split: list.split)
  next
    case False
    then have "find_match want now (k # ks) None = find_match want now ks None" by (auto simp: key_matches_def)
    with False Cons.IH show ?thesis by simp
  qed
qed simp

text \<open>A principal is issued exactly for the only usable candidate whose stored hash is that of the secret.\<close>

lemma authenticate_iff:
  "fst (authenticate find_keys supported ctx_done now raw a) = Inr p \<longleftrightarrow>
     (\<exists>pfx secret candidates k.
        parse_key raw = Some (pfx, secret) \<and> find_keys pfx now = Inr candidates \<and>
        filter (key_matches (hash_secret secret (au_pepper a)) now) candidates = [k] \<and> new_principal k = Inr p)"
proof (cases "parse_key raw")
  case (Some ps)
  obtain pfx secret where ps: "ps = (pfx, secret)" by (cases ps)
  show ?thesis
  proof (cases "find_keys pfx now")
    case (Inr candidates)
    then show ?thesis
      unfolding authenticate_def Some ps find_match_None
      by (cases "filter (key_matches (hash_secret secret (au_pepper a)) now) candidates")
        (auto simp: find_match_None Let_def split: list.splits sum.splits prod.splits)
  qed (simp add: authenticate_def Some ps)
qed (simp add: authenticate_def)

lemma new_principal_valid: "new_principal k = Inr p \<Longrightarrow> principal_valid p"
  by (auto simp: new_principal_def principal_valid_def validate_api_key_def check_scopes_None_iff
      split: option.splits if_splits)

lemma require_scope_None_iff: "require_scope p s = None \<longleftrightarrow> principal_valid p \<and> s \<in> pr_scopes p"
  by (auto simp: require_scope_def principal_has_def principal_valid_def)

lemma require_project_None_iff:
  "require_project p q = None \<longleftrightarrow> principal_valid p \<and> pr_project_id p = q"
  by (auto simp: require_project_def principal_valid_def)

subsection \<open>Observations of the last use\<close>

text \<open>
  For one key: the observations that \<open>Authenticate\<close> starts, at the instants of its calls, are at least
  \<open>last_used_interval\<close> apart, and at most \<open>max_usage_in_flight\<close> run at a time.
\<close>

datatype auth_event =
    Authenticated api_key time bool bool
  | ObservationDone

definition auth_step :: "authenticator \<times> touch list \<Rightarrow> auth_event \<Rightarrow> authenticator \<times> touch list" where
  "auth_step st ev =
     (case ev of
        Authenticated k now supported ctx_done \<Rightarrow>
          (let (a, t) = observe_last_used supported ctx_done k now (fst st)
           in (a, snd st @ (case t of None \<Rightarrow> [] | Some x \<Rightarrow> [x])))
      | ObservationDone \<Rightarrow> (observation_done (fst st), snd st))"

definition auth_run :: "auth_event list \<Rightarrow> authenticator \<Rightarrow> authenticator \<times> touch list" where
  "auth_run evs a = foldl auth_step (a, []) evs"

definition spaced :: "uuid \<Rightarrow> touch list \<Rightarrow> bool" where
  "spaced key ts \<longleftrightarrow> sorted_wrt (\<lambda>x y. t_at x + last_used_interval \<le> t_at y) (filter (\<lambda>t. t_key t = key) ts)"

definition touch_inv :: "authenticator \<times> touch list \<Rightarrow> bool" where
  "touch_inv st \<longleftrightarrow> au_in_flight (fst st) \<le> max_usage_in_flight \<and>
     (\<forall>t \<in> set (snd st). 0 < t_at t \<and> (\<exists>n. fmlookup (au_next_attempt (fst st)) (t_key t) = Some n \<and> t_at t + last_used_interval \<le> n)) \<and>
     (\<forall>key. spaced key (snd st))"

lemma spaced_snoc:
  "spaced key (ts @ [t]) \<longleftrightarrow> spaced key ts \<and>
     (t_key t = key \<longrightarrow> (\<forall>x \<in> set ts. t_key x = key \<longrightarrow> t_at x + last_used_interval \<le> t_at t))"
  by (auto simp: spaced_def sorted_wrt_append)

lemma interval_pos [simp]: "0 < last_used_interval"
  by (simp add: last_used_interval_def second_def)

lemma observe_last_used_inv:
  assumes "touch_inv (a, ts)" "0 < now" "observe_last_used supported ctx_done k now a = (a', t)"
  shows "touch_inv (a', ts @ (case t of None \<Rightarrow> [] | Some x \<Rightarrow> [x]))"
proof (cases "a' = a")
  case True
  then have "t = None"
    using assms(3) by (auto simp: observe_last_used_def Let_def split: if_splits dest: arg_cong [where f = au_in_flight])
  with True assms(1) show ?thesis by simp
next
  case False
  define n where "n = (case fmlookup (au_next_attempt a) (k_id k) of None \<Rightarrow> zero_time | Some t \<Rightarrow> t)"
  have nx: "n = 0 \<or> n \<le> now"
    and upd: "au_next_attempt a' = fmupd (k_id k) (now + last_used_interval) (au_next_attempt a)"
    and fl: "au_in_flight a' \<le> max_usage_in_flight"
    and t: "t = None \<or> t = Some \<lparr>t_project = k_project_id k, t_key = k_id k, t_at = now\<rparr>"
    using assms(1,3) False
    by (auto simp: observe_last_used_def Let_def n_def is_zero_def zero_time_def touch_inv_def split: if_splits)
  have old: "t_at x + last_used_interval \<le> now" if "x \<in> set ts" "t_key x = k_id k" for x
  proof -
    have "0 < t_at x" "t_at x + last_used_interval \<le> n" using assms(1) that by (auto simp: touch_inv_def n_def)
    with nx show ?thesis using interval_pos by linarith
  qed
  have ex: "\<exists>m. fmlookup (au_next_attempt a') (t_key x) = Some m \<and> t_at x + last_used_interval \<le> m" if "x \<in> set ts" for x
  proof (cases "t_key x = k_id k")
    case True
    have "t_at x \<le> now" using old [OF that True] interval_pos by linarith
    with True show ?thesis by (simp add: upd)
  next
    case False
    with assms(1) that show ?thesis by (auto simp: upd touch_inv_def)
  qed
  have new: "fmlookup (au_next_attempt a') (k_id k) = Some (now + last_used_interval)" by (simp add: upd)
  from t show ?thesis
  proof
    assume "t = None"
    with fl ex assms(1) show ?thesis by (auto simp: touch_inv_def)
  next
    assume "t = Some \<lparr>t_project = k_project_id k, t_key = k_id k, t_at = now\<rparr>"
    with fl ex new old assms(1,2) show ?thesis by (auto simp: touch_inv_def spaced_snoc)
  qed
qed

definition event_ok :: "auth_event \<Rightarrow> bool" where
  "event_ok ev \<longleftrightarrow> (case ev of Authenticated k now supported ctx_done \<Rightarrow> 0 < now | ObservationDone \<Rightarrow> True)"

lemma auth_step_inv: "touch_inv st \<Longrightarrow> event_ok ev \<Longrightarrow> touch_inv (auth_step st ev)"
proof (cases ev)
  case (Authenticated k now supported ctx_done)
  assume "touch_inv st" "event_ok ev"
  then show ?thesis
    using observe_last_used_inv [of "fst st" "snd st" now supported ctx_done k] Authenticated
    by (auto simp: auth_step_def event_ok_def split: prod.splits)
qed (auto simp: auth_step_def observation_done_def touch_inv_def)

lemma auth_run_inv:
  assumes "list_all event_ok evs" "au_in_flight a = 0"
  shows "touch_inv (auth_run evs a)"
proof -
  have "touch_inv (foldl auth_step st evs)" if "touch_inv st" for st
    using that assms(1) by (induction evs arbitrary: st) (simp_all add: auth_step_inv)
  moreover have "touch_inv (a, [])" using assms(2) by (simp add: touch_inv_def spaced_def)
  ultimately show ?thesis by (simp add: auth_run_def)
qed

section \<open>Properties\<close>

text \<open>
  C20. \<open>Authenticate\<close> issues a principal exactly when the credential is well formed and, among the candidates
  of its prefix, exactly one key is usable now and stores the keyed hash of the presented secret; the
  principal is valid and carries the project, the agent and the scopes of that key.
\<close>

theorem authenticate_exact:
  "fst (authenticate find_keys supported ctx_done now raw a) = Inr p \<longleftrightarrow>
     (\<exists>pfx secret candidates k.
        parse_key raw = Some (pfx, secret) \<and> find_keys pfx now = Inr candidates \<and>
        filter (\<lambda>x. length (k_secret_hash x) = 32 \<and> hmac_sha256 (au_pepper a) secret = k_secret_hash x \<and> usable_at x now)
          candidates = [k] \<and>
        validate_api_key k = None \<and> principal_valid p \<and>
        p = \<lparr>pr_key_id = k_id k, pr_project_id = k_project_id k, pr_agent_id = k_agent_id k, pr_scopes = set (k_scopes k)\<rparr>)"
proof -
  have p: "new_principal k = Inr p \<longleftrightarrow> validate_api_key k = None \<and> principal_valid p \<and>
    p = \<lparr>pr_key_id = k_id k, pr_project_id = k_project_id k, pr_agent_id = k_agent_id k, pr_scopes = set (k_scopes k)\<rparr>" for k
    using new_principal_valid [of k p] by (auto simp: new_principal_def split: option.splits)
  have m: "key_matches (hash_secret secret (au_pepper a)) now =
    (\<lambda>x. length (k_secret_hash x) = 32 \<and> hmac_sha256 (au_pepper a) secret = k_secret_hash x \<and> usable_at x now)" for secret
    by (simp add: fun_eq_iff key_matches_def hash_secret_def)
  show ?thesis unfolding authenticate_iff m p by blast
qed

text \<open>
  In any sequence of authentications and of ends of observations: at most eight observations of a last
  use run at a time, and those of one key start at least a minute apart.
\<close>

theorem last_used_bounded:
  assumes "list_all event_ok evs" "au_in_flight a = 0"
  shows "au_in_flight (fst (auth_run evs a)) \<le> 8 \<and>
    sorted_wrt (\<lambda>x y. t_at x + 60 * second \<le> t_at y) (filter (\<lambda>t. t_key t = key) (snd (auth_run evs a)))"
  using auth_run_inv [OF assms]
  by (simp add: touch_inv_def spaced_def max_usage_in_flight_def last_used_interval_def)

definition used_key :: api_key where
  "used_key = \<lparr>k_id = ''11111111-1111-1111-1111-111111111111'', k_project_id = ''22222222-2222-2222-2222-222222222222'',
     k_agent_id = None, k_name = ''ci'', k_prefix = ''gl_ci'', k_secret_hash = replicate 32 (CHR ''0''), k_scopes = [''ingest''],
     k_status = ''active'', k_expires_at = None, k_last_used_at = None, k_created_at = 1, k_revoked_at = None\<rparr>"

theorem last_used_bounded_witness:
  "let evs = [Authenticated used_key 1 True False, Authenticated used_key 2 True False,
              Authenticated used_key (60 * second + 1) True False];
       a = \<lparr>au_pepper = [], au_next_attempt = fmempty, au_in_flight = 0\<rparr>
   in length (snd (auth_run evs a)) = 2 \<and> au_in_flight (fst (auth_run evs a)) \<le> 8"
  using last_used_bounded [of "[Authenticated used_key 1 True False, Authenticated used_key 2 True False,
      Authenticated used_key (60 * second + 1) True False]" "\<lparr>au_pepper = [], au_next_attempt = fmempty, au_in_flight = 0\<rparr>"]
  by (simp add: Let_def event_ok_def auth_run_def auth_step_def observe_last_used_def used_key_def is_zero_def zero_time_def
      last_used_interval_def second_def max_usage_in_flight_def)

end
