(* ===== verification/Server_Admission.thy ===== *)
theory Server_Admission
  imports Server_Errors "HOL-Library.Finite_Map"
begin

text \<open>
  The admission limiter (\<open>internal/server/admission\<close>): one token bucket of requests per key, two of
  entries and bytes per project, the number of batches in flight, reservations that are committed or
  released once, and the removal of idle state. Tokens are rational numbers: the rounding of
  \<open>float64\<close> is not modelled. The mutex makes each operation one step; the clock is an argument of each
  call. The observer only counts and is left out.
\<close>

section \<open>State\<close>

record limiter_config =
  lc_requests :: int
  lc_entries :: int
  lc_bytes :: int
  lc_max_inflight :: int
  lc_state_ttl :: duration

record token_bucket =
  tb_tokens :: rat
  tb_last :: time

record key_state =
  ks_requests :: token_bucket
  ks_last_seen :: time

record project_state =
  ps_entries :: token_bucket
  ps_bytes :: token_bucket
  ps_inflight :: int
  ps_last_seen :: time

record limiter =
  lm_config :: limiter_config
  lm_last_cleanup :: time
  lm_keys :: "(uuid, key_state) fmap"
  lm_projects :: "(uuid, project_state) fmap"

record reservation =
  rv_project :: uuid
  rv_entry_cost :: int
  rv_byte_cost :: int

definition minute :: duration where "minute = 60 * second"

definition new_limiter :: "limiter_config \<Rightarrow> server_error + limiter" where
  "new_limiter c =
     (if lc_requests c \<le> 0 \<or> lc_entries c \<le> 0 \<or> lc_bytes c \<le> 0 \<or> lc_max_inflight c \<le> 0
        then Inl (Internal ''admission limits must be positive'')
      else if lc_requests c > 1000000 \<or> lc_entries c > 1000000000 \<or> lc_bytes c > 2 ^ 50 \<or> lc_max_inflight c > 10000
        then Inl (Internal ''admission limits exceed supported bounds'')
      else let ttl = (if lc_state_ttl c \<le> 0 then 10 * minute else lc_state_ttl c)
           in if ttl < 2 * minute then Inl (Internal ''admission state TTL must be at least two minutes'')
              else Inr \<lparr>lm_config = c\<lparr>lc_state_ttl := ttl\<rparr>, lm_last_cleanup = zero_time, lm_keys = fmempty,
                        lm_projects = fmempty\<rparr>)"

section \<open>Token buckets\<close>

definition full_bucket :: "int \<Rightarrow> time \<Rightarrow> token_bucket" where
  "full_bucket capacity now = \<lparr>tb_tokens = of_int capacity, tb_last = now\<rparr>"

definition seconds :: "duration \<Rightarrow> rat" where
  "seconds d = of_int d / 1000000000"

definition refill :: "int \<Rightarrow> time \<Rightarrow> token_bucket \<Rightarrow> token_bucket" where
  "refill capacity now b =
     (if \<not> tb_last b < now then b
      else \<lparr>tb_tokens = min (of_int capacity) (tb_tokens b + seconds (time_sub now (tb_last b)) * (of_int capacity / 60)),
            tb_last = now\<rparr>)"

definition retry_after :: "rat \<Rightarrow> rat \<Rightarrow> int \<Rightarrow> duration" where
  "retry_after available required capacity =
     (let missing = required - available
      in if missing \<le> 0 then 0 else \<lceil>missing / (of_int capacity / 60) * 1000\<rceil> * 1000000)"

definition take_tokens :: "int \<Rightarrow> token_bucket \<Rightarrow> token_bucket" where
  "take_tokens n b = b\<lparr>tb_tokens := tb_tokens b - of_int n\<rparr>"

definition give_tokens :: "int \<Rightarrow> int \<Rightarrow> token_bucket \<Rightarrow> token_bucket" where
  "give_tokens capacity n b = b\<lparr>tb_tokens := min (of_int capacity) (tb_tokens b + of_int n)\<rparr>"

section \<open>Operations\<close>

definition cleanup :: "time \<Rightarrow> limiter \<Rightarrow> limiter" where
  "cleanup now l =
     (if \<not> is_zero (lm_last_cleanup l) \<and> time_sub now (lm_last_cleanup l) < minute then l
      else let cutoff = now - lc_state_ttl (lm_config l)
           in l\<lparr>lm_keys := fmfilter (\<lambda>i. case fmlookup (lm_keys l) i of None \<Rightarrow> False | Some k \<Rightarrow> \<not> ks_last_seen k < cutoff) (lm_keys l),
                lm_projects := fmfilter (\<lambda>i. case fmlookup (lm_projects l) i of None \<Rightarrow> False
                  | Some p \<Rightarrow> \<not> (ps_inflight p = 0 \<and> ps_last_seen p < cutoff)) (lm_projects l),
                lm_last_cleanup := now\<rparr>)"

definition key_at :: "limiter \<Rightarrow> uuid \<Rightarrow> time \<Rightarrow> key_state" where
  "key_at l i now =
     (let k = (case fmlookup (lm_keys l) i of
                 None \<Rightarrow> \<lparr>ks_requests = full_bucket (lc_requests (lm_config l)) now, ks_last_seen = zero_time\<rparr>
               | Some k \<Rightarrow> k)
      in k\<lparr>ks_requests := refill (lc_requests (lm_config l)) now (ks_requests k), ks_last_seen := now\<rparr>)"

definition project_at :: "limiter \<Rightarrow> uuid \<Rightarrow> time \<Rightarrow> project_state" where
  "project_at l i now =
     (let p = (case fmlookup (lm_projects l) i of
                 None \<Rightarrow> \<lparr>ps_entries = full_bucket (lc_entries (lm_config l)) now,
                          ps_bytes = full_bucket (lc_bytes (lm_config l)) now, ps_inflight = 0, ps_last_seen = zero_time\<rparr>
               | Some p \<Rightarrow> p)
      in p\<lparr>ps_entries := refill (lc_entries (lm_config l)) now (ps_entries p),
           ps_bytes := refill (lc_bytes (lm_config l)) now (ps_bytes p), ps_last_seen := now\<rparr>)"

definition allow_ingest ::
  "driver_error option \<Rightarrow> uuid \<Rightarrow> uuid \<Rightarrow> int \<Rightarrow> int \<Rightarrow> time \<Rightarrow> (limiter, reservation) act" where
  "allow_ingest ctx_err key_id project_id entries payload_bytes now l0 =
     (let c = lm_config l0 in
      if ctx_err \<noteq> None then (Inl (Driver (the ctx_err)), l0)
      else if \<not> valid_uuid key_id \<or> \<not> valid_uuid project_id \<or> entries \<le> 0 \<or> payload_bytes \<le> 0
        then (Inl (Domain (ErrInvalid ''invalid admission request'')), l0)
      else if entries > lc_entries c \<or> payload_bytes > lc_bytes c then (Inl BatchExceedsCapacity, l0)
      else
        let l = cleanup now l0;
            k = key_at l key_id now;
            l1 = l\<lparr>lm_keys := fmupd key_id k (lm_keys l)\<rparr>
        in if tb_tokens (ks_requests k) < 1
             then (Inl (Limited KeyRate (retry_after (tb_tokens (ks_requests k)) 1 (lc_requests c))), l1)
           else
             let l2 = l\<lparr>lm_keys := fmupd key_id (k\<lparr>ks_requests := take_tokens 1 (ks_requests k)\<rparr>) (lm_keys l)\<rparr>;
                 p = project_at l2 project_id now;
                 l3 = l2\<lparr>lm_projects := fmupd project_id p (lm_projects l2)\<rparr>
             in if ps_inflight p \<ge> lc_max_inflight c then (Inl (Limited ProjectInflight second), l3)
                else if tb_tokens (ps_entries p) < of_int entries
                  then (Inl (Limited ProjectEntries (retry_after (tb_tokens (ps_entries p)) (of_int entries) (lc_entries c))), l3)
                else if tb_tokens (ps_bytes p) < of_int payload_bytes
                  then (Inl (Limited ProjectBytes (retry_after (tb_tokens (ps_bytes p)) (of_int payload_bytes) (lc_bytes c))), l3)
                else (Inr \<lparr>rv_project = project_id, rv_entry_cost = entries, rv_byte_cost = payload_bytes\<rparr>,
                      l2\<lparr>lm_projects := fmupd project_id
                          (p\<lparr>ps_entries := take_tokens entries (ps_entries p),
                             ps_bytes := take_tokens payload_bytes (ps_bytes p),
                             ps_inflight := ps_inflight p + 1\<rparr>) (lm_projects l2)\<rparr>))"

text \<open>\<open>Commit\<close> (\<open>refund\<close> false) and \<open>Release\<close> (\<open>refund\<close> true) of a reservation, the first of the two calls.\<close>

definition refund_state :: "limiter_config \<Rightarrow> reservation \<Rightarrow> project_state \<Rightarrow> project_state" where
  "refund_state c r p =
     p\<lparr>ps_entries := give_tokens (lc_entries c) (rv_entry_cost r) (ps_entries p),
       ps_bytes := give_tokens (lc_bytes c) (rv_byte_cost r) (ps_bytes p)\<rparr>"

definition finish :: "reservation \<Rightarrow> bool \<Rightarrow> time \<Rightarrow> limiter \<Rightarrow> limiter" where
  "finish r refund now l =
     (case fmlookup (lm_projects l) (rv_project r) of
        None \<Rightarrow> l
      | Some p \<Rightarrow>
          if ps_inflight p > 0 then
            let c = lm_config l;
                p1 = p\<lparr>ps_entries := refill (lc_entries c) now (ps_entries p), ps_bytes := refill (lc_bytes c) now (ps_bytes p)\<rparr>;
                p2 = (if refund then refund_state c r p1 else p1)
            in l\<lparr>lm_projects := fmupd (rv_project r) (p2\<lparr>ps_inflight := ps_inflight p2 - 1, ps_last_seen := now\<rparr>) (lm_projects l)\<rparr>
          else l)"

text \<open>The \<open>sync.Once\<close> of a reservation: a reservation that was finished does nothing.\<close>

definition finish_once :: "reservation option \<Rightarrow> bool \<Rightarrow> time \<Rightarrow> limiter \<Rightarrow> limiter \<times> reservation option" where
  "finish_once r refund now l = (case r of None \<Rightarrow> (l, None) | Some rv \<Rightarrow> (finish rv refund now l, None))"

section \<open>Buckets\<close>

definition bucket_ok :: "int \<Rightarrow> time \<Rightarrow> token_bucket \<Rightarrow> bool" where
  "bucket_ok capacity now b \<longleftrightarrow> 0 \<le> tb_tokens b \<and> tb_tokens b \<le> of_int capacity \<and> tb_last b \<le> now"

lemma seconds_nonneg: "0 \<le> d \<Longrightarrow> 0 \<le> seconds d"
  by (simp add: seconds_def)

lemma time_sub_nonneg: "t \<le> u \<Longrightarrow> 0 \<le> time_sub u t"
  by (simp add: time_sub_def)

lemma full_bucket_ok: "0 < capacity \<Longrightarrow> bucket_ok capacity now (full_bucket capacity now)"
  by (simp add: bucket_ok_def full_bucket_def)

lemma refill_ok:
  assumes "bucket_ok capacity t b" "t \<le> now" "0 < capacity"
  shows "bucket_ok capacity now (refill capacity now b)"
proof -
  have "0 \<le> seconds (time_sub now (tb_last b)) * (of_int capacity / 60)"
    using assms by (intro mult_nonneg_nonneg seconds_nonneg time_sub_nonneg) (simp_all add: bucket_ok_def)
  with assms show ?thesis by (auto simp: bucket_ok_def refill_def)
qed

lemma refill_now: "tb_last b \<le> now \<Longrightarrow> refill capacity now (refill capacity now b) = refill capacity now b"
  by (simp add: refill_def)

lemma bucket_ok_mono: "bucket_ok capacity t b \<Longrightarrow> t \<le> now \<Longrightarrow> bucket_ok capacity now b"
  by (auto simp: bucket_ok_def)

lemma refill_last: "tb_last b \<le> now \<Longrightarrow> tb_last (refill capacity now b) = now"
  by (simp add: refill_def)

text \<open>A bucket that was idle for two minutes is full.\<close>

lemma refill_idle:
  assumes "bucket_ok capacity t b" "tb_last b + 2 * minute \<le> now" "0 < capacity"
  shows "refill capacity now b = full_bucket capacity now"
proof -
  have "120 * 1000000000 \<le> time_sub now (tb_last b)"
    using assms(2) by (simp add: time_sub_def minute_def second_def)
  then have "120 \<le> seconds (time_sub now (tb_last b))" by (simp add: seconds_def)
  then have e: "120 * (of_int capacity / 60) \<le> seconds (time_sub now (tb_last b)) * (of_int capacity / 60)"
    using assms(3) by (intro mult_right_mono) simp_all
  have "120 * (of_int capacity / 60 :: rat) = 2 * of_int capacity" by simp
  moreover have "0 \<le> tb_tokens b" "(0 :: rat) < of_int capacity" using assms(1,3) by (simp_all add: bucket_ok_def)
  ultimately have "of_int capacity \<le> tb_tokens b + seconds (time_sub now (tb_last b)) * (of_int capacity / 60)"
    using e by linarith
  moreover have "tb_last b < now" using assms(2) by (simp add: minute_def second_def)
  ultimately show ?thesis by (simp add: refill_def full_bucket_def)
qed

text \<open>Waiting adds at most the rate.\<close>

definition earned :: "int \<Rightarrow> duration \<Rightarrow> rat" where
  "earned capacity d = seconds d * (of_int capacity / 60)"

lemma earned_mono: "d \<le> e \<Longrightarrow> 0 < capacity \<Longrightarrow> earned capacity d \<le> earned capacity e"
  unfolding earned_def by (intro mult_right_mono) (simp_all add: seconds_def divide_right_mono)

lemma earned_nonneg: "0 \<le> d \<Longrightarrow> 0 < capacity \<Longrightarrow> 0 \<le> earned capacity d"
  by (simp add: earned_def seconds_def)

lemma earned_add: "earned capacity (d + e) = earned capacity d + earned capacity e"
  by (simp add: earned_def seconds_def add_divide_distrib distrib_right)

lemma refill_earned:
  assumes "bucket_ok capacity t b" "t \<le> now" "0 < capacity"
  shows "tb_tokens (refill capacity now b) \<le> tb_tokens (refill capacity t b) + earned capacity (now - t)"
proof -
  have last: "tb_last b \<le> t" using assms(1) by (simp add: bucket_ok_def)
  have "time_sub now (tb_last b) \<le> time_sub t (tb_last b) + (now - t)"
    using assms(2) last by (auto simp: time_sub_def)
  then have e: "earned capacity (time_sub now (tb_last b)) \<le> earned capacity (time_sub t (tb_last b)) + earned capacity (now - t)"
    using earned_mono [OF _ assms(3)] by (metis earned_add)
  have n: "0 \<le> earned capacity (now - t)" using assms(2,3) by (intro earned_nonneg) simp_all
  have z: "tb_last b = t \<Longrightarrow> earned capacity (time_sub t (tb_last b)) = 0" by (simp add: earned_def seconds_def time_sub_def)
  show ?thesis
  proof (cases "tb_last b < t")
    case True
    with assms(2) e n show ?thesis by (auto simp: refill_def earned_def)
  next
    case False
    with last have "tb_last b = t" by simp
    with e n z show ?thesis by (auto simp: refill_def earned_def)
  qed
qed

section \<open>The invariant\<close>

definition config_ok :: "limiter_config \<Rightarrow> bool" where
  "config_ok c \<longleftrightarrow> 0 < lc_requests c \<and> 0 < lc_entries c \<and> 0 < lc_bytes c \<and> 0 < lc_max_inflight c \<and>
     2 * minute \<le> lc_state_ttl c"

lemma new_limiter_ok:
  "new_limiter c = Inr l \<Longrightarrow> config_ok (lm_config l) \<and> lm_keys l = fmempty \<and> lm_projects l = fmempty"
  by (auto simp: new_limiter_def config_ok_def Let_def split: if_splits)

definition key_ok :: "limiter_config \<Rightarrow> time \<Rightarrow> key_state \<Rightarrow> bool" where
  "key_ok c now k \<longleftrightarrow> bucket_ok (lc_requests c) now (ks_requests k) \<and> tb_last (ks_requests k) \<le> ks_last_seen k \<and>
     ks_last_seen k \<le> now"

definition project_ok :: "limiter_config \<Rightarrow> time \<Rightarrow> project_state \<Rightarrow> bool" where
  "project_ok c now p \<longleftrightarrow> bucket_ok (lc_entries c) now (ps_entries p) \<and> bucket_ok (lc_bytes c) now (ps_bytes p) \<and>
     tb_last (ps_entries p) \<le> ps_last_seen p \<and> tb_last (ps_bytes p) \<le> ps_last_seen p \<and> ps_last_seen p \<le> now \<and>
     0 \<le> ps_inflight p \<and> ps_inflight p \<le> lc_max_inflight c"

definition limiter_ok :: "time \<Rightarrow> limiter \<Rightarrow> bool" where
  "limiter_ok now l \<longleftrightarrow> config_ok (lm_config l) \<and>
     (\<forall>i k. fmlookup (lm_keys l) i = Some k \<longrightarrow> key_ok (lm_config l) now k) \<and>
     (\<forall>i p. fmlookup (lm_projects l) i = Some p \<longrightarrow> project_ok (lm_config l) now p)"

lemma key_ok_mono: "key_ok c t k \<Longrightarrow> t \<le> now \<Longrightarrow> key_ok c now k"
  unfolding key_ok_def using bucket_ok_mono by fastforce

lemma project_ok_mono: "project_ok c t p \<Longrightarrow> t \<le> now \<Longrightarrow> project_ok c now p"
  unfolding project_ok_def using bucket_ok_mono by fastforce

lemma limiter_ok_mono: "limiter_ok t l \<Longrightarrow> t \<le> now \<Longrightarrow> limiter_ok now l"
  unfolding limiter_ok_def using key_ok_mono project_ok_mono by blast

lemma limiter_ok_config: "limiter_ok t l \<Longrightarrow> config_ok (lm_config l)"
  by (simp add: limiter_ok_def)

lemma key_at_ok:
  assumes "limiter_ok t l" "t \<le> now"
  shows "key_ok (lm_config l) now (key_at l i now)"
proof (cases "fmlookup (lm_keys l) i")
  case None
  with limiter_ok_config [OF assms(1)] show ?thesis
    by (simp add: key_at_def key_ok_def config_ok_def refill_def full_bucket_def bucket_ok_def)
next
  case (Some k)
  then have "key_ok (lm_config l) t k" using assms(1) by (simp add: limiter_ok_def)
  with Some limiter_ok_config [OF assms(1)] assms(2) show ?thesis
    by (simp add: key_at_def key_ok_def config_ok_def refill_ok [where t = t] refill_last)
qed

lemma project_at_ok:
  assumes "limiter_ok t l" "t \<le> now"
  shows "project_ok (lm_config l) now (project_at l i now)"
proof (cases "fmlookup (lm_projects l) i")
  case None
  with limiter_ok_config [OF assms(1)] show ?thesis
    by (simp add: project_at_def project_ok_def config_ok_def refill_def full_bucket_def bucket_ok_def)
next
  case (Some p)
  then have "project_ok (lm_config l) t p" using assms(1) by (simp add: limiter_ok_def)
  with Some limiter_ok_config [OF assms(1)] assms(2) show ?thesis
    by (simp add: project_at_def project_ok_def config_ok_def refill_ok [where t = t] refill_last)
qed

text \<open>Removing idle state is invisible: a key or a project that is removed would have been full again.\<close>

lemma cleanup_config [simp]: "lm_config (cleanup now l) = lm_config l"
  by (simp add: cleanup_def Let_def)

lemma key_at_cong:
  "fmlookup (lm_keys l) i = fmlookup (lm_keys l') i \<Longrightarrow> lm_config l = lm_config l' \<Longrightarrow> key_at l i now = key_at l' i now"
  by (simp add: key_at_def Let_def split: option.split)

lemma project_at_cong:
  "fmlookup (lm_projects l) i = fmlookup (lm_projects l') i \<Longrightarrow> lm_config l = lm_config l' \<Longrightarrow>
     project_at l i now = project_at l' i now"
  by (simp add: project_at_def Let_def split: option.split)

lemma cleanup_lookup:
  "fmlookup (lm_projects (cleanup now l)) i = fmlookup (lm_projects l) i \<or>
     fmlookup (lm_projects (cleanup now l)) i = None \<and>
     (\<exists>p. fmlookup (lm_projects l) i = Some p \<and> ps_inflight p = 0 \<and> ps_last_seen p + lc_state_ttl (lm_config l) < now)"
  "fmlookup (lm_keys (cleanup now l)) i = fmlookup (lm_keys l) i \<or>
     fmlookup (lm_keys (cleanup now l)) i = None \<and>
     (\<exists>k. fmlookup (lm_keys l) i = Some k \<and> ks_last_seen k + lc_state_ttl (lm_config l) < now)"
  by (auto simp: cleanup_def Let_def split: option.splits)

lemma project_at_cleanup:
  assumes "limiter_ok t l" "t \<le> now"
  shows "project_at (cleanup now l) i now = project_at l i now"
  using cleanup_lookup(1) [of now l i]
proof
  assume n: "fmlookup (lm_projects (cleanup now l)) i = None \<and>
    (\<exists>p. fmlookup (lm_projects l) i = Some p \<and> ps_inflight p = 0 \<and> ps_last_seen p + lc_state_ttl (lm_config l) < now)"
  then obtain p where p: "fmlookup (lm_projects l) i = Some p" "ps_inflight p = 0"
    "ps_last_seen p + lc_state_ttl (lm_config l) < now" by blast
  have "project_ok (lm_config l) t p" using assms(1) p(1) by (simp add: limiter_ok_def)
  then have "refill (lc_entries (lm_config l)) now (ps_entries p) = full_bucket (lc_entries (lm_config l)) now"
    "refill (lc_bytes (lm_config l)) now (ps_bytes p) = full_bucket (lc_bytes (lm_config l)) now"
    using limiter_ok_config [OF assms(1)] p(3) by (auto simp: project_ok_def config_ok_def intro!: refill_idle)
  then show ?thesis using n p by (simp add: project_at_def refill_def full_bucket_def)
qed (rule project_at_cong; simp)

lemma key_at_cleanup:
  assumes "limiter_ok t l" "t \<le> now"
  shows "key_at (cleanup now l) i now = key_at l i now"
  using cleanup_lookup(2) [of now l i]
proof
  assume n: "fmlookup (lm_keys (cleanup now l)) i = None \<and>
    (\<exists>k. fmlookup (lm_keys l) i = Some k \<and> ks_last_seen k + lc_state_ttl (lm_config l) < now)"
  then obtain k where k: "fmlookup (lm_keys l) i = Some k" "ks_last_seen k + lc_state_ttl (lm_config l) < now" by blast
  have "key_ok (lm_config l) t k" using assms(1) k(1) by (simp add: limiter_ok_def)
  then have "refill (lc_requests (lm_config l)) now (ks_requests k) = full_bucket (lc_requests (lm_config l)) now"
    using limiter_ok_config [OF assms(1)] k(2) by (auto simp: key_ok_def config_ok_def intro!: refill_idle)
  then show ?thesis using n k by (simp add: key_at_def refill_def full_bucket_def)
qed (rule key_at_cong; simp)

lemma cleanup_ok: "limiter_ok t l \<Longrightarrow> limiter_ok t (cleanup now l)"
  unfolding limiter_ok_def using cleanup_lookup [of now l] by (metis cleanup_config option.distinct(1))

section \<open>Runs of the limiter\<close>

text \<open>
  A run with the reservations that are open: \<open>AllowIngest\<close> calls and the first \<open>Commit\<close> or \<open>Release\<close> of an
  open reservation, in the order in which they hold the mutex. \<open>ar_entries\<close> and \<open>ar_bytes\<close> are what a project
  was admitted for, less what was refunded.
\<close>

record admission_run =
  ar_limiter :: limiter
  ar_open :: "reservation list"
  ar_entries :: "uuid \<Rightarrow> int"
  ar_bytes :: "uuid \<Rightarrow> int"

datatype admission_event =
    Allow "driver_error option" uuid uuid int int time
  | Finish reservation bool time

fun event_time :: "admission_event \<Rightarrow> time" where
  "event_time (Allow ctx_err key project entries payload_bytes now) = now"
| "event_time (Finish r refund now) = now"

fun admission_step :: "admission_event \<Rightarrow> admission_run \<Rightarrow> admission_run" where
  "admission_step (Allow ctx_err key project entries payload_bytes now) a =
     (case allow_ingest ctx_err key project entries payload_bytes now (ar_limiter a) of
        (Inl e, l) \<Rightarrow> a\<lparr>ar_limiter := l\<rparr>
      | (Inr r, l) \<Rightarrow> a\<lparr>ar_limiter := l, ar_open := r # ar_open a,
                       ar_entries := (ar_entries a)(project := ar_entries a project + entries),
                       ar_bytes := (ar_bytes a)(project := ar_bytes a project + payload_bytes)\<rparr>)"
| "admission_step (Finish r refund now) a =
     (if r \<in> set (ar_open a) then
        (let a' = a\<lparr>ar_limiter := finish r refund now (ar_limiter a), ar_open := remove1 r (ar_open a)\<rparr>
         in if refund then a'\<lparr>ar_entries := (ar_entries a)(rv_project r := ar_entries a (rv_project r) - rv_entry_cost r),
                              ar_bytes := (ar_bytes a)(rv_project r := ar_bytes a (rv_project r) - rv_byte_cost r)\<rparr>
            else a')
      else a)"

definition admission_start :: "limiter \<Rightarrow> admission_run" where
  "admission_start l = \<lparr>ar_limiter = l, ar_open = [], ar_entries = (\<lambda>_. 0), ar_bytes = (\<lambda>_. 0)\<rparr>"

definition inflight_of :: "limiter \<Rightarrow> uuid \<Rightarrow> int" where
  "inflight_of l i = (case fmlookup (lm_projects l) i of None \<Rightarrow> 0 | Some p \<Rightarrow> ps_inflight p)"

definition open_of :: "admission_run \<Rightarrow> uuid \<Rightarrow> nat" where
  "open_of a i = length (filter (\<lambda>r. rv_project r = i) (ar_open a))"

subsection \<open>One call\<close>

lemma project_at_keys [simp]: "project_at (l\<lparr>lm_keys := ks\<rparr>) i now = project_at l i now"
  by (rule project_at_cong) simp_all

lemma inflight_of_simps [simp]:
  "inflight_of (l\<lparr>lm_keys := ks\<rparr>) i = inflight_of l i"
  "inflight_of (l\<lparr>lm_projects := fmupd j p (lm_projects l)\<rparr>) i = (if i = j then ps_inflight p else inflight_of l i)"
  by (simp_all add: inflight_of_def)

lemma inflight_of_project_at: "ps_inflight (project_at l i now) = inflight_of l i"
  by (simp add: project_at_def inflight_of_def Let_def split: option.split)

lemma inflight_of_cleanup [simp]: "inflight_of (cleanup now l) i = inflight_of l i"
  using cleanup_lookup(1) [of now l i] by (auto simp: inflight_of_def)

lemma project_at_upd:
  "project_at (l\<lparr>lm_projects := fmupd j p (lm_projects l)\<rparr>) i now =
     (if i = j then p\<lparr>ps_entries := refill (lc_entries (lm_config l)) now (ps_entries p),
                      ps_bytes := refill (lc_bytes (lm_config l)) now (ps_bytes p), ps_last_seen := now\<rparr>
      else project_at l i now)"
  by (simp add: project_at_def Let_def split: option.split)

lemma refill_up_to_date: "tb_last b = now \<Longrightarrow> refill capacity now b = b"
  by (simp add: refill_def)

lemma project_at_current:
  assumes "limiter_ok t l" "t \<le> now"
  shows "tb_last (ps_entries (project_at l i now)) = now" "tb_last (ps_bytes (project_at l i now)) = now"
    "ps_last_seen (project_at l i now) = now"
proof -
  have "tb_last (ps_entries p) \<le> now \<and> tb_last (ps_bytes p) \<le> now" if "fmlookup (lm_projects l) i = Some p" for p
  proof -
    have "project_ok (lm_config l) t p" using assms(1) that by (simp add: limiter_ok_def)
    with assms(2) show ?thesis by (auto simp: project_ok_def bucket_ok_def)
  qed
  then show "tb_last (ps_entries (project_at l i now)) = now" "tb_last (ps_bytes (project_at l i now)) = now"
    "ps_last_seen (project_at l i now) = now"
    by (auto simp: project_at_def Let_def refill_last full_bucket_def split: option.split)
qed

text \<open>What a limiter promises at an instant: the same configuration, in order, and what each project has and uses.\<close>

definition same_projects :: "time \<Rightarrow> limiter \<Rightarrow> limiter \<Rightarrow> bool" where
  "same_projects now l l' \<longleftrightarrow> lm_config l' = lm_config l \<and> limiter_ok now l' \<and>
     (\<forall>i. project_at l' i now = project_at l i now)"

lemma limiter_ok_upd_key:
  "limiter_ok now l \<Longrightarrow> key_ok (lm_config l) now k \<Longrightarrow> limiter_ok now (l\<lparr>lm_keys := fmupd i k (lm_keys l)\<rparr>)"
  by (simp add: limiter_ok_def)

lemma limiter_ok_upd_project:
  "limiter_ok now l \<Longrightarrow> project_ok (lm_config l) now p \<Longrightarrow> limiter_ok now (l\<lparr>lm_projects := fmupd i p (lm_projects l)\<rparr>)"
  by (simp add: limiter_ok_def)

lemma take_request_ok:
  "key_ok c now k \<Longrightarrow> \<not> tb_tokens (ks_requests k) < 1 \<Longrightarrow> key_ok c now (k\<lparr>ks_requests := take_tokens 1 (ks_requests k)\<rparr>)"
  by (auto simp: key_ok_def bucket_ok_def take_tokens_def)

text \<open>The state before the limits of the project are looked at: idle state removed, the request paid for.\<close>

definition admission_paid :: "uuid \<Rightarrow> time \<Rightarrow> limiter \<Rightarrow> limiter" where
  "admission_paid key now l =
     (let l1 = cleanup now l; k = key_at l1 key now
      in l1\<lparr>lm_keys := fmupd key (k\<lparr>ks_requests := take_tokens 1 (ks_requests k)\<rparr>) (lm_keys l1)\<rparr>)"

lemma same_projects_paid:
  assumes "limiter_ok t l" "t \<le> now" "\<not> tb_tokens (ks_requests (key_at (cleanup now l) key now)) < 1"
  shows "same_projects now l (admission_paid key now l)"
proof -
  have ok: "limiter_ok t (cleanup now l)" using assms(1) by (rule cleanup_ok)
  have k: "key_ok (lm_config (cleanup now l)) now (key_at (cleanup now l) key now)"
    using ok assms(2) by (rule key_at_ok)
  have "limiter_ok now (cleanup now l)" using ok assms(2) by (rule limiter_ok_mono)
  then show ?thesis
    using take_request_ok [OF k assms(3)] project_at_cleanup [OF assms(1,2)]
    by (simp add: same_projects_def admission_paid_def Let_def limiter_ok_upd_key)
qed

lemma same_projects_touch:
  assumes "limiter_ok now l"
  shows "same_projects now l (l\<lparr>lm_projects := fmupd i (project_at l i now) (lm_projects l)\<rparr>)"
  using limiter_ok_upd_project [OF assms project_at_ok [OF assms order_refl]] project_at_current [OF assms order_refl, of i]
  by (auto simp: same_projects_def project_at_upd refill_up_to_date)

lemma same_projects_trans: "same_projects now l l' \<Longrightarrow> same_projects now l' l'' \<Longrightarrow> same_projects now l l''"
  by (simp add: same_projects_def)

lemma allow_ingest_Inl:
  assumes "allow_ingest ctx_err key project entries payload_bytes now l = (Inl e, l')"
  obtains "l' = l"
    | "l' = cleanup now l\<lparr>lm_keys := fmupd key (key_at (cleanup now l) key now) (lm_keys (cleanup now l))\<rparr>"
    | "\<not> tb_tokens (ks_requests (key_at (cleanup now l) key now)) < 1"
      "l' = admission_paid key now l\<lparr>lm_projects :=
        fmupd project (project_at (admission_paid key now l) project now) (lm_projects (admission_paid key now l))\<rparr>"
proof (cases "tb_tokens (ks_requests (key_at (cleanup now l) key now)) < 1")
  case True
  then show thesis using assms that(1,2) by (simp add: allow_ingest_def Let_def split: if_splits)
next
  case False
  then show thesis using assms that(1,3) by (simp add: allow_ingest_def Let_def admission_paid_def split: if_splits)
qed

lemma allow_ingest_refused:
  assumes "allow_ingest ctx_err key project entries payload_bytes now l = (Inl e, l')" "limiter_ok t l" "t \<le> now"
  shows "same_projects now l l'"
proof -
  let ?l1 = "cleanup now l" and ?p = "admission_paid key now l"
  have refl: "same_projects now l l" using limiter_ok_mono [OF assms(2,3)] by (simp add: same_projects_def)
  have ok: "limiter_ok t ?l1" using assms(2) by (rule cleanup_ok)
  show ?thesis
    using assms(1)
  proof (cases rule: allow_ingest_Inl)
    case 2
    then show ?thesis
      using limiter_ok_upd_key [OF limiter_ok_mono [OF ok assms(3)] key_at_ok [OF ok assms(3)], of key key]
        project_at_cleanup [OF assms(2,3)] by (simp add: same_projects_def)
  next
    case 3
    have paid: "same_projects now l ?p" using same_projects_paid [OF assms(2,3) 3(1)] .
    then have "limiter_ok now ?p" by (simp add: same_projects_def)
    from same_projects_trans [OF paid same_projects_touch [OF this]] show ?thesis using 3(2) by simp
  qed (simp add: refl)
qed

lemma allow_ingest_admitted:
  assumes "allow_ingest ctx_err key project entries payload_bytes now l = (Inr r, l')" "limiter_ok t l" "t \<le> now"
  defines "p \<equiv> project_at l project now" and "l1 \<equiv> admission_paid key now l"
  shows "r = \<lparr>rv_project = project, rv_entry_cost = entries, rv_byte_cost = payload_bytes\<rparr>"
    and "0 < entries" "0 < payload_bytes"
    and "ps_inflight p < lc_max_inflight (lm_config l)"
    and "of_int entries \<le> tb_tokens (ps_entries p)" "of_int payload_bytes \<le> tb_tokens (ps_bytes p)"
    and "same_projects now l l1"
    and "l' = l1\<lparr>lm_projects := fmupd project (p\<lparr>ps_entries := take_tokens entries (ps_entries p),
          ps_bytes := take_tokens payload_bytes (ps_bytes p), ps_inflight := ps_inflight p + 1\<rparr>) (lm_projects l1)\<rparr>"
proof -
  have k: "\<not> tb_tokens (ks_requests (key_at (cleanup now l) key now)) < 1"
    using assms(1) by (auto simp: allow_ingest_def Let_def split: if_splits)
  show s: "same_projects now l l1" unfolding l1_def using same_projects_paid [OF assms(2,3) k] .
  have c: "project_at (cleanup now l) project now = p"
    unfolding p_def using project_at_cleanup [OF assms(2,3)] .
  show "r = \<lparr>rv_project = project, rv_entry_cost = entries, rv_byte_cost = payload_bytes\<rparr>"
    "0 < entries" "0 < payload_bytes" "ps_inflight p < lc_max_inflight (lm_config l)"
    "of_int entries \<le> tb_tokens (ps_entries p)" "of_int payload_bytes \<le> tb_tokens (ps_bytes p)"
    "l' = l1\<lparr>lm_projects := fmupd project (p\<lparr>ps_entries := take_tokens entries (ps_entries p),
          ps_bytes := take_tokens payload_bytes (ps_bytes p), ps_inflight := ps_inflight p + 1\<rparr>) (lm_projects l1)\<rparr>"
    using assms(1) by (simp_all add: allow_ingest_def Let_def c l1_def admission_paid_def split: if_splits)
qed

lemma finish_eq:
  assumes "0 < inflight_of l (rv_project r)"
  shows "finish r refund now l =
    (let q = project_at l (rv_project r) now; q' = (if refund then refund_state (lm_config l) r q else q)
     in l\<lparr>lm_projects := fmupd (rv_project r) (q'\<lparr>ps_inflight := ps_inflight q' - 1\<rparr>) (lm_projects l)\<rparr>)"
proof -
  obtain p where p: "fmlookup (lm_projects l) (rv_project r) = Some p" "0 < ps_inflight p"
    using assms by (auto simp: inflight_of_def split: option.splits)
  show ?thesis using p by (cases p) (simp add: finish_def project_at_def Let_def refund_state_def)
qed

lemma give_tokens_ok: "bucket_ok capacity now b \<Longrightarrow> 0 \<le> n \<Longrightarrow> bucket_ok capacity now (give_tokens capacity n b)"
  by (auto simp: bucket_ok_def give_tokens_def)

lemma refund_state_ok:
  assumes "project_ok c now q" "0 \<le> rv_entry_cost r" "0 \<le> rv_byte_cost r"
  shows "project_ok c now (refund_state c r q)"
  using assms give_tokens_ok [of "lc_entries c" now "ps_entries q" "rv_entry_cost r"]
    give_tokens_ok [of "lc_bytes c" now "ps_bytes q" "rv_byte_cost r"]
  by (simp add: project_ok_def refund_state_def give_tokens_def)

subsection \<open>The accounts of a run\<close>

definition entry_tokens :: "limiter \<Rightarrow> uuid \<Rightarrow> time \<Rightarrow> rat" where
  "entry_tokens l i now = tb_tokens (ps_entries (project_at l i now))"

definition byte_tokens :: "limiter \<Rightarrow> uuid \<Rightarrow> time \<Rightarrow> rat" where
  "byte_tokens l i now = tb_tokens (ps_bytes (project_at l i now))"

definition budget :: "int \<Rightarrow> duration \<Rightarrow> rat" where
  "budget capacity elapsed = of_int capacity + earned capacity elapsed"

definition admission_inv :: "time \<Rightarrow> time \<Rightarrow> admission_run \<Rightarrow> bool" where
  "admission_inv start now a \<longleftrightarrow>
     limiter_ok now (ar_limiter a) \<and>
     (\<forall>r \<in> set (ar_open a). 0 < rv_entry_cost r \<and> 0 < rv_byte_cost r) \<and>
     (\<forall>i. inflight_of (ar_limiter a) i = int (open_of a i) \<and>
          entry_tokens (ar_limiter a) i now + of_int (ar_entries a i)
            \<le> budget (lc_entries (lm_config (ar_limiter a))) (now - start) \<and>
          byte_tokens (ar_limiter a) i now + of_int (ar_bytes a i)
            \<le> budget (lc_bytes (lm_config (ar_limiter a))) (now - start))"

lemma tokens_advance:
  assumes "limiter_ok t l" "t \<le> now"
  shows "entry_tokens l i now \<le> entry_tokens l i t + earned (lc_entries (lm_config l)) (now - t)"
    "byte_tokens l i now \<le> byte_tokens l i t + earned (lc_bytes (lm_config l)) (now - t)"
proof -
  have c: "0 < lc_entries (lm_config l)" "0 < lc_bytes (lm_config l)"
    using limiter_ok_config [OF assms(1)] by (simp_all add: config_ok_def)
  have "0 \<le> now - t" using assms(2) by simp
  note e = earned_nonneg [OF this c(1)] earned_nonneg [OF this c(2)]
  have "entry_tokens l i now \<le> entry_tokens l i t + earned (lc_entries (lm_config l)) (now - t) \<and>
    byte_tokens l i now \<le> byte_tokens l i t + earned (lc_bytes (lm_config l)) (now - t)"
  proof (cases "fmlookup (lm_projects l) i")
    case None
    with e show ?thesis by (simp add: entry_tokens_def byte_tokens_def project_at_def refill_def full_bucket_def)
  next
    case (Some p)
    then have "project_ok (lm_config l) t p" using assms(1) by (simp add: limiter_ok_def)
    then have b: "bucket_ok (lc_entries (lm_config l)) t (ps_entries p)" "bucket_ok (lc_bytes (lm_config l)) t (ps_bytes p)"
      by (simp_all add: project_ok_def)
    from refill_earned [OF b(1) assms(2) c(1)] refill_earned [OF b(2) assms(2) c(2)] Some
    show ?thesis by (simp add: entry_tokens_def byte_tokens_def project_at_def)
  qed
  then show "entry_tokens l i now \<le> entry_tokens l i t + earned (lc_entries (lm_config l)) (now - t)"
    "byte_tokens l i now \<le> byte_tokens l i t + earned (lc_bytes (lm_config l)) (now - t)" by blast+
qed

lemma admission_inv_advance:
  assumes "admission_inv start t a" "t \<le> now"
  shows "admission_inv start now a"
proof -
  let ?l = "ar_limiter a"
  have l: "limiter_ok t ?l" using assms(1) by (simp add: admission_inv_def)
  have b: "budget c (now - start) = budget c (t - start) + earned c (now - t)" for c
    using earned_add [of c "t - start" "now - t"] by (simp add: budget_def)
  have "entry_tokens ?l i now + of_int (ar_entries a i) \<le> budget (lc_entries (lm_config ?l)) (now - start) \<and>
    byte_tokens ?l i now + of_int (ar_bytes a i) \<le> budget (lc_bytes (lm_config ?l)) (now - start)" for i
  proof -
    have "entry_tokens ?l i t + of_int (ar_entries a i) \<le> budget (lc_entries (lm_config ?l)) (t - start)"
      "byte_tokens ?l i t + of_int (ar_bytes a i) \<le> budget (lc_bytes (lm_config ?l)) (t - start)"
      using assms(1) by (simp_all add: admission_inv_def)
    with tokens_advance [OF l assms(2), of i] show ?thesis unfolding b by linarith
  qed
  with assms(1) limiter_ok_mono [OF l assms(2)] show ?thesis by (simp add: admission_inv_def)
qed

lemma same_projects_accounts:
  assumes "same_projects now l l'"
  shows "inflight_of l' i = inflight_of l i" "entry_tokens l' i now = entry_tokens l i now"
    "byte_tokens l' i now = byte_tokens l i now"
proof -
  have p: "project_at l' i now = project_at l i now" using assms by (simp add: same_projects_def)
  from arg_cong [OF p, of ps_inflight] show "inflight_of l' i = inflight_of l i" by (simp add: inflight_of_project_at)
  from p show "entry_tokens l' i now = entry_tokens l i now" "byte_tokens l' i now = byte_tokens l i now"
    by (simp_all add: entry_tokens_def byte_tokens_def)
qed

lemma admission_inv_same:
  assumes "admission_inv start now a" "same_projects now (ar_limiter a) l'"
  shows "admission_inv start now (a\<lparr>ar_limiter := l'\<rparr>)"
  using assms same_projects_accounts [OF assms(2)]
  by (simp add: admission_inv_def same_projects_def open_of_def)

lemma admission_inv_admit:
  assumes "admission_inv start now a" "allow_ingest ctx_err key project entries payload_bytes now (ar_limiter a) = (Inr r, l')"
  shows "admission_inv start now (admission_step (Allow ctx_err key project entries payload_bytes now) a)"
proof -
  let ?l = "ar_limiter a"
  let ?l1 = "admission_paid key now ?l"
  let ?p = "project_at ?l project now"
  let ?q = "?p\<lparr>ps_entries := take_tokens entries (ps_entries ?p),
               ps_bytes := take_tokens payload_bytes (ps_bytes ?p), ps_inflight := ps_inflight ?p + 1\<rparr>"
  have ok: "limiter_ok now ?l" using assms(1) by (simp add: admission_inv_def)
  note adm = allow_ingest_admitted [OF assms(2) ok order_refl]
  note acc = same_projects_accounts [OF adm(7)]
  have l1: "limiter_ok now ?l1" "lm_config ?l1 = lm_config ?l" "project_at ?l1 i now = project_at ?l i now" for i
    using adm(7) by (simp_all add: same_projects_def)
  have q: "project_ok (lm_config ?l) now ?q"
    using project_at_ok [OF ok order_refl, of project] adm(2-6)
    by (auto simp: project_ok_def bucket_ok_def take_tokens_def)
  have l': "limiter_ok now l'" unfolding adm(8) using l1(1) q by (intro limiter_ok_upd_project) (simp_all add: l1(2))
  have cur: "tb_last (ps_entries ?q) = now" "tb_last (ps_bytes ?q) = now"
    using project_at_current [OF ok order_refl, of project] by (simp_all add: take_tokens_def)
  have tok: "entry_tokens l' i now = entry_tokens ?l i now - (if i = project then of_int entries else 0)"
    "byte_tokens l' i now = byte_tokens ?l i now - (if i = project then of_int payload_bytes else 0)" for i
    using cur by (simp_all add: entry_tokens_def byte_tokens_def adm(8) project_at_upd refill_up_to_date take_tokens_def l1)
  have inf: "inflight_of l' i = inflight_of ?l i + (if i = project then 1 else 0)" for i
    by (simp add: adm(8) acc inflight_of_project_at)
  have cfg: "lm_config l' = lm_config ?l" by (simp add: adm(8) l1)
  show ?thesis
    using assms(1) l' adm(2,3)
    by (simp add: assms(2) admission_inv_def tok inf cfg adm(1) open_of_def)
qed

lemma admission_inv_finish:
  assumes "admission_inv start now a" "r \<in> set (ar_open a)"
  shows "admission_inv start now (admission_step (Finish r refund now) a)"
proof -
  let ?l = "ar_limiter a" and ?i = "rv_project r"
  let ?c = "lm_config ?l"
  let ?p = "project_at ?l ?i now"
  let ?q = "if refund then refund_state ?c r ?p else ?p"
  let ?l' = "?l\<lparr>lm_projects := fmupd ?i (?q\<lparr>ps_inflight := ps_inflight ?q - 1\<rparr>) (lm_projects ?l)\<rparr>"
  have ok: "limiter_ok now ?l" and cost: "0 < rv_entry_cost r" "0 < rv_byte_cost r"
    and inf: "inflight_of ?l j = int (open_of a j)" for j
    using assms by (simp_all add: admission_inv_def)
  have "r \<in> set (filter (\<lambda>x. rv_project x = ?i) (ar_open a))" using assms(2) by simp
  then have pos: "0 < open_of a ?i" unfolding open_of_def by (rule length_pos_if_in_set)
  have open_r: "length (filter (\<lambda>x. rv_project x = j) (remove1 r (ar_open a))) = open_of a j - (if j = ?i then 1 else 0)" for j
    using assms(2) by (auto simp: open_of_def filter_remove1 length_remove1)
  have fin: "finish r refund now ?l = ?l'" using finish_eq [of ?l r refund now] pos by (simp add: inf Let_def)
  have q: "project_ok ?c now (?q\<lparr>ps_inflight := ps_inflight ?q - 1\<rparr>)"
  proof -
    have "project_ok ?c now ?p" using ok order_refl by (rule project_at_ok)
    then have "project_ok ?c now ?q" using cost refund_state_ok [of ?c now ?p r] by simp
    moreover have "0 < ps_inflight ?q" using pos by (simp add: refund_state_def inflight_of_project_at inf)
    ultimately show ?thesis by (auto simp: project_ok_def)
  qed
  have l': "limiter_ok now ?l'" using ok q by (rule limiter_ok_upd_project)
  have tok: "entry_tokens ?l' j now \<le> entry_tokens ?l j now + (if refund \<and> j = ?i then of_int (rv_entry_cost r) else 0)"
    "byte_tokens ?l' j now \<le> byte_tokens ?l j now + (if refund \<and> j = ?i then of_int (rv_byte_cost r) else 0)" for j
    using project_at_current [OF ok order_refl, of ?i]
    by (simp_all add: entry_tokens_def byte_tokens_def project_at_upd refill_up_to_date refund_state_def give_tokens_def)
  have inf': "inflight_of ?l' j = int (open_of a j) - (if j = ?i then 1 else 0)" for j
    by (simp add: inflight_of_project_at inf refund_state_def)
  have acc: "entry_tokens ?l j now + of_int (ar_entries a j) \<le> budget (lc_entries ?c) (now - start)"
    "byte_tokens ?l j now + of_int (ar_bytes a j) \<le> budget (lc_bytes ?c) (now - start)" for j
    using assms(1) by (simp_all add: admission_inv_def)
  define a' where "a' = admission_step (Finish r refund now) a"
  have a': "ar_limiter a' = ?l'" "ar_open a' = remove1 r (ar_open a)"
    "ar_entries a' j = ar_entries a j - (if refund \<and> j = ?i then rv_entry_cost r else 0)"
    "ar_bytes a' j = ar_bytes a j - (if refund \<and> j = ?i then rv_byte_cost r else 0)" for j
    using assms(2) by (simp_all add: a'_def Let_def fin)
  have c': "lm_config ?l' = ?c" by simp
  have "entry_tokens ?l' j now + of_int (ar_entries a' j) \<le> budget (lc_entries ?c) (now - start)"
    "byte_tokens ?l' j now + of_int (ar_bytes a' j) \<le> budget (lc_bytes ?c) (now - start)" for j
    using tok [of j] acc [of j] by (simp_all add: a'(3,4) split: if_splits)
  moreover have "inflight_of ?l' j = int (open_of a' j)" for j
    using pos unfolding inf' by (simp add: open_of_def [of a'] a'(2) open_r of_nat_diff)
  moreover have "\<forall>x \<in> set (ar_open a'). 0 < rv_entry_cost x \<and> 0 < rv_byte_cost x"
    using assms(1) by (auto simp: admission_inv_def a'(2) dest: notin_set_remove1 set_remove1_subset [THEN subsetD])
  ultimately have "admission_inv start now a'"
    using l' unfolding admission_inv_def a'(1) c' by blast
  then show ?thesis by (simp add: a'_def)
qed

lemma admission_inv_step:
  assumes "admission_inv start t a" "t \<le> event_time ev"
  shows "admission_inv start (event_time ev) (admission_step ev a)"
proof (cases ev)
  case (Allow ctx_err key project entries payload_bytes now)
  have inv: "admission_inv start now a" using assms Allow by (simp add: admission_inv_advance)
  then have ok: "limiter_ok now (ar_limiter a)" by (simp add: admission_inv_def)
  obtain res l' where al: "allow_ingest ctx_err key project entries payload_bytes now (ar_limiter a) = (res, l')"
    by (cases "allow_ingest ctx_err key project entries payload_bytes now (ar_limiter a)")
  show ?thesis
  proof (cases res)
    case (Inl e)
    with al have "same_projects now (ar_limiter a) l'" using allow_ingest_refused [OF _ ok order_refl] by blast
    with inv al Inl Allow show ?thesis by (simp add: admission_inv_same)
  next
    case (Inr r)
    with al admission_inv_admit [OF inv] Allow show ?thesis by (simp del: admission_step.simps)
  qed
next
  case (Finish r refund now)
  have "admission_inv start now a" using assms Finish by (simp add: admission_inv_advance)
  then show ?thesis
    using admission_inv_finish [of start now a r refund] Finish by (cases "r \<in> set (ar_open a)") simp_all
qed

definition admission_run_of :: "limiter \<Rightarrow> admission_event list \<Rightarrow> admission_run" where
  "admission_run_of l evs = fold admission_step evs (admission_start l)"

lemma admission_inv_start:
  assumes "new_limiter c = Inr l"
  shows "admission_inv start start (admission_start l)"
  using new_limiter_ok [OF assms]
  by (simp add: admission_inv_def admission_start_def limiter_ok_def inflight_of_def open_of_def entry_tokens_def
      byte_tokens_def project_at_def refill_def full_bucket_def budget_def earned_def seconds_def)

lemma admission_run_inv:
  assumes "new_limiter c = Inr l" "sorted (start # map event_time evs)"
  shows "admission_inv start (last (start # map event_time evs)) (admission_run_of l evs)"
proof -
  have "admission_inv start (last (t # map event_time evs)) (fold admission_step evs a)"
    if "admission_inv start t a" "sorted (t # map event_time evs)" for t a
    using that
  proof (induction evs arbitrary: t a)
    case (Cons ev evs)
    then have "admission_inv start (event_time ev) (admission_step ev a)" by (simp add: admission_inv_step)
    with Cons show ?case by (simp del: admission_step.simps)
  qed simp
  from this [OF admission_inv_start [OF assms(1)] assms(2)] show ?thesis by (simp add: admission_run_of_def)
qed

lemma budget_bound:
  assumes "admission_inv start now a"
  shows "int (open_of a i) \<le> lc_max_inflight (lm_config (ar_limiter a))"
    "of_int (ar_entries a i) \<le> budget (lc_entries (lm_config (ar_limiter a))) (now - start)"
    "of_int (ar_bytes a i) \<le> budget (lc_bytes (lm_config (ar_limiter a))) (now - start)"
proof -
  have "limiter_ok now (ar_limiter a)" using assms by (simp add: admission_inv_def)
  then have "project_ok (lm_config (ar_limiter a)) now (project_at (ar_limiter a) i now)"
    using order_refl by (rule project_at_ok)
  then have p: "inflight_of (ar_limiter a) i \<le> lc_max_inflight (lm_config (ar_limiter a))"
    "0 \<le> entry_tokens (ar_limiter a) i now" "0 \<le> byte_tokens (ar_limiter a) i now"
    by (simp_all add: project_ok_def bucket_ok_def inflight_of_project_at entry_tokens_def byte_tokens_def)
  have "inflight_of (ar_limiter a) i = int (open_of a i)"
    "entry_tokens (ar_limiter a) i now + of_int (ar_entries a i)
      \<le> budget (lc_entries (lm_config (ar_limiter a))) (now - start)"
    "byte_tokens (ar_limiter a) i now + of_int (ar_bytes a i)
      \<le> budget (lc_bytes (lm_config (ar_limiter a))) (now - start)"
    using assms by (simp_all add: admission_inv_def)
  with p show "int (open_of a i) \<le> lc_max_inflight (lm_config (ar_limiter a))"
    "of_int (ar_entries a i) \<le> budget (lc_entries (lm_config (ar_limiter a))) (now - start)"
    "of_int (ar_bytes a i) \<le> budget (lc_bytes (lm_config (ar_limiter a))) (now - start)" by linarith+
qed

lemma admission_step_config: "lm_config (ar_limiter (admission_step ev a)) = lm_config (ar_limiter a)"
  by (cases ev) (auto simp: allow_ingest_def finish_def Let_def split: option.splits)

lemma admission_run_config: "lm_config (ar_limiter (admission_run_of l evs)) = lm_config l"
proof -
  have "lm_config (ar_limiter (fold admission_step evs a)) = lm_config (ar_limiter a)" for a
    by (induction evs arbitrary: a) (simp_all add: admission_step_config del: admission_step.simps)
  then show ?thesis by (simp add: admission_run_of_def admission_start_def)
qed

section \<open>Properties\<close>


definition sample_limits :: limiter_config where
  "sample_limits = \<lparr>lc_requests = 60, lc_entries = 600, lc_bytes = 6000, lc_max_inflight = 1, lc_state_ttl = 0\<rparr>"

definition sample_key :: uuid where "sample_key = ''11111111-1111-1111-1111-111111111111''"
definition sample_project :: uuid where "sample_project = ''22222222-2222-2222-2222-222222222222''"

definition sample_admissions :: "admission_event list" where
  "sample_admissions =
     [Allow None sample_key sample_project 600 6000 1,
      Allow None sample_key sample_project 1 1 2,
      Finish \<lparr>rv_project = sample_project, rv_entry_cost = 600, rv_byte_cost = 6000\<rparr> True 3,
      Allow None sample_key sample_project 500 50 4]"

lemma sample_limiter: "\<exists>l. new_limiter sample_limits = Inr l"
  by (simp add: new_limiter_def sample_limits_def minute_def second_def)


end
