(* ===== verification/Go_Net.thy ===== *)
theory Go_Net
  imports Go_Json
begin

text \<open>
  IP addresses of Go's standard library, as the server uses them: \<open>net.ParseIP\<close> and \<open>IP.String\<close>. A
  \<open>net.IP\<close> is the list of its bytes, the empty list being nil; a parsed address has its 16-byte form.
\<close>

section \<open>Parsing\<close>

fun split_on :: "char \<Rightarrow> string \<Rightarrow> string list" where
  "split_on c [] = [[]]"
| "split_on c (x # xs) = (if x = c then [] # split_on c xs else (x # hd (split_on c xs)) # tl (split_on c xs))"

definition v4_field :: "string \<Rightarrow> nat option" where
  "v4_field s =
     (if s = [] \<or> \<not> list_all is_digit s \<or> (hd s = CHR ''0'' \<and> 1 < length s) \<or> dec_nat s > 255 then None else Some (dec_nat s))"

definition parse_v4 :: "string \<Rightarrow> nat list option" where
  "parse_v4 s = (let fs = map v4_field (split_on (CHR ''.'') s)
                 in if length fs \<noteq> 4 \<or> None \<in> set fs then None else Some (map the fs))"

definition is_hex_digit :: "char \<Rightarrow> bool" where
  "is_hex_digit c \<longleftrightarrow> hex_val c \<noteq> None"

definition hex_nat :: "string \<Rightarrow> nat" where
  "hex_nat s = foldl (\<lambda>n c. 16 * n + the (hex_val c)) 0 s"

text \<open>
  The loop of \<open>parseIPv6\<close>: \<open>n\<close> groups are left, \<open>acc\<close> is what was read, \<open>e\<close> the place of the ellipsis.
\<close>

fun v6_groups :: "nat \<Rightarrow> string \<Rightarrow> nat list \<Rightarrow> nat option \<Rightarrow> (nat list \<times> nat option) option" where
  "v6_groups 0 s acc e = (if s = [] then Some (acc, e) else None)"
| "v6_groups (Suc n) s acc e =
     (let h = takeWhile is_hex_digit s; s' = dropWhile is_hex_digit s in
      if h = [] \<or> 4 < length h then None
      else if s' \<noteq> [] \<and> hd s' = CHR ''.'' then
        (if (e = None \<and> length acc \<noteq> 12) \<or> 12 < length acc then None
         else (case parse_v4 s of None \<Rightarrow> None | Some b \<Rightarrow> Some (acc @ b, e)))
      else
        (let acc' = acc @ [hex_nat h div 256, hex_nat h mod 256] in
         if s' = [] then Some (acc', e)
         else if hd s' \<noteq> CHR '':'' \<or> tl s' = [] then None
         else if hd (tl s') = CHR '':'' then
           (if e \<noteq> None then None
            else if tl (tl s') = [] then Some (acc', Some (length acc'))
            else v6_groups n (tl (tl s')) acc' (Some (length acc')))
         else v6_groups n (tl s') acc' e))"

definition parse_v6 :: "string \<Rightarrow> nat list option" where
  "parse_v6 s =
     (case (if take 2 s = ''::'' then (if drop 2 s = [] then Some ([], Some 0) else v6_groups 8 (drop 2 s) [] (Some 0))
            else v6_groups 8 s [] None) of
        None \<Rightarrow> None
      | Some (acc, e) \<Rightarrow>
          if length acc < 16 then
            (case e of None \<Rightarrow> None | Some i \<Rightarrow> Some (take i acc @ replicate (16 - length acc) 0 @ drop i acc))
          else if e \<noteq> None then None
          else Some acc)"

definition parse_ip :: "string \<Rightarrow> bytes" where
  "parse_ip s =
     (case filter (\<lambda>c. c = CHR ''.'' \<or> c = CHR '':'' \<or> c = CHR ''%'') s of
        [] \<Rightarrow> []
      | c # cs \<Rightarrow>
          if c = CHR ''.'' then
            (case parse_v4 s of None \<Rightarrow> [] | Some b \<Rightarrow> map char_of (replicate 10 0 @ [255, 255] @ b))
          else if c = CHR ''%'' \<or> CHR ''%'' \<in> set s then []
          else (case parse_v6 s of None \<Rightarrow> [] | Some b \<Rightarrow> map char_of b))"

section \<open>Printing\<close>

definition dotted :: "nat list \<Rightarrow> string" where
  "dotted b = nat_dec (b ! 0) @ ''.'' @ nat_dec (b ! 1) @ ''.'' @ nat_dec (b ! 2) @ ''.'' @ nat_dec (b ! 3)"

fun nat_hex :: "nat \<Rightarrow> string" where
  "nat_hex n = (if n < 16 then [hex_digit n] else nat_hex (n div 16) @ [hex_digit (n mod 16)])"

fun word_groups :: "nat list \<Rightarrow> nat list" where
  "word_groups (a # b # r) = (256 * a + b) # word_groups r"
| "word_groups _ = []"

text \<open>The first longest run of at least two zero groups, as its start and its end.\<close>

definition zero_run :: "nat list \<Rightarrow> nat \<Rightarrow> nat" where
  "zero_run gs i = length (takeWhile (\<lambda>g. g = 0) (drop i gs))"

definition longest_run :: "nat list \<Rightarrow> nat \<times> nat" where
  "longest_run gs =
     foldl (\<lambda>(i, n) j. if 2 \<le> zero_run gs j \<and> n < zero_run gs j then (j, zero_run gs j) else (i, n)) (0, 0) [0..<length gs]"

fun join_colon :: "string list \<Rightarrow> string" where
  "join_colon [] = []"
| "join_colon [x] = x"
| "join_colon (x # xs) = x @ '':'' @ join_colon xs"

definition ip_string :: "bytes \<Rightarrow> string" where
  "ip_string ip =
     (let b = map of_char ip :: nat list in
      if length b = 4 then dotted b
      else if length b \<noteq> 16 then ''?''
      else if take 12 b = replicate 10 0 @ [255, 255] then dotted (drop 12 b)
      else
        let gs = word_groups b; (i, n) = longest_run gs
        in if n = 0 then join_colon (map nat_hex gs)
           else join_colon (map nat_hex (take i gs)) @ ''::'' @ join_colon (map nat_hex (drop (i + n) gs)))"

section \<open>Facts\<close>

text \<open>What \<open>ParseIP\<close> accepts has no slash: the text of a network is not an address.\<close>

lemma split_on_nonempty: "split_on c s \<noteq> []"
  by (cases s) simp_all

lemma split_on_chars: "x \<in> set s \<Longrightarrow> x \<noteq> c \<Longrightarrow> \<exists>f \<in> set (split_on c s). x \<in> set f"
proof (induction s)
  case (Cons y s)
  then show ?case using split_on_nonempty [of c s] by (cases "split_on c s") auto
qed simp

lemma parse_v4_chars:
  assumes "parse_v4 s = Some b" "x \<in> set s"
  shows "x = CHR ''.'' \<or> is_digit x"
proof (cases "x = CHR ''.''")
  case False
  with assms(2) obtain f where f: "f \<in> set (split_on (CHR ''.'') s)" "x \<in> set f" using split_on_chars by blast
  from assms(1) f(1) have "v4_field f \<noteq> None" by (force simp: parse_v4_def Let_def split: if_splits)
  with f(2) show ?thesis by (auto simp: v4_field_def list_all_iff split: if_splits)
qed simp

definition ip_char :: "char \<Rightarrow> bool" where
  "ip_char c \<longleftrightarrow> is_hex_digit c \<or> c = CHR ''.'' \<or> c = CHR '':''"

lemma digit_is_hex: "is_digit c \<Longrightarrow> is_hex_digit c"
  by (auto simp: is_digit_def is_hex_digit_def hex_val_def)

lemma v6_groups_chars:
  "v6_groups n s acc e = Some r \<Longrightarrow> x \<in> set s \<Longrightarrow> ip_char x"
proof (induction n s acc e rule: v6_groups.induct)
  case (2 n s acc e)
  let ?h = "takeWhile is_hex_digit s" and ?t = "dropWhile is_hex_digit s"
  have s: "s = ?h @ ?t" by simp
  have h: "x \<in> set ?h \<Longrightarrow> ip_char x" by (auto dest: set_takeWhileD simp: ip_char_def)
  show ?case
  proof (cases "?t \<noteq> [] \<and> hd ?t = CHR ''.''")
    case True
    then have "parse_v4 s \<noteq> None" using 2(3) by (auto simp: Let_def split: if_splits option.splits)
    then show ?thesis using parse_v4_chars 2(4) digit_is_hex by (auto simp: ip_char_def)
  next
    case False
    show ?thesis
    proof (cases "?t")
      case Nil
      then show ?thesis using h 2(4) s by (metis append_Nil2)
    next
      case (Cons c u)
      with False 2(3) have c: "c = CHR '':''" "u \<noteq> []" "c \<noteq> CHR ''.''" by (auto simp: Let_def split: if_splits)
      obtain d v where u: "u = d # v" using c(2) by (cases u) auto
      have x: "x \<in> set ?h \<or> x = c \<or> x = d \<or> x \<in> set v" using 2(4) s Cons u by (metis Un_iff set_ConsD set_append)
      show ?thesis
      proof (cases "d = CHR '':''")
        case True
        have "x \<in> set v \<Longrightarrow> ip_char x"
          using 2(3) 2(1)[OF refl refl] Cons c u True by (cases v) (auto simp: Let_def split: if_splits)
        with x h c(1) True show ?thesis by (auto simp: ip_char_def)
      next
        case False
        have "x \<in> set u \<Longrightarrow> ip_char x"
          using 2(3) 2(2)[OF refl refl] Cons c u False by (auto simp: Let_def split: if_splits)
        with x h c(1) u show ?thesis by (auto simp: ip_char_def)
      qed
    qed
  qed
qed (auto split: if_splits)

lemma parse_v6_chars:
  assumes "parse_v6 s = Some b" "x \<in> set s"
  shows "ip_char x"
proof (cases "take 2 s = ''::''")
  case True
  then have s: "s = ''::'' @ drop 2 s" by (metis append_take_drop_id)
  have "x \<in> set (drop 2 s) \<Longrightarrow> ip_char x"
    using assms(1) True v6_groups_chars [of 8 "drop 2 s"] by (auto simp: parse_v6_def split: option.splits if_splits)
  moreover have "x = CHR '':'' \<or> x \<in> set (drop 2 s)"
    using assms(2) arg_cong [OF s, of set] by auto
  ultimately show ?thesis by (auto simp: ip_char_def)
next
  case False
  then show ?thesis
    using assms v6_groups_chars [of 8 s] by (auto simp: parse_v6_def split: option.splits)
qed

lemma parse_ip_no_slash:
  assumes "CHR ''/'' \<in> set s"
  shows "parse_ip s = []"
proof -
  have "\<not> ip_char (CHR ''/'')" "\<not> is_digit (CHR ''/'')" by code_simp+
  note no = this
  have "CHR ''/'' \<noteq> CHR ''.''" by simp
  then have "parse_v4 s = None" using parse_v4_chars [OF _ assms] no(2) by (cases "parse_v4 s") blast+
  moreover have "parse_v6 s = None" using parse_v6_chars [OF _ assms] no(1) by (cases "parse_v6 s") blast+
  ultimately show ?thesis by (simp add: parse_ip_def split: list.split)
qed

end
