(* ===== verification/Store_Base.thy ===== *)
theory Store_Base
  imports Server_Errors Go_Net Ingest_Protocol "HOL-Library.Product_Lexorder"
begin

text \<open>
  The database as the repositories of \<open>internal/storage/postgres\<close> see it: the tables of
  \<open>migrations/*.up.sql\<close> as lists of rows, SQL statements as functions on them, transactions, and the ways
  in which a statement or a commit can fail.

  A row is the domain record that its columns hold; \<open>uuid\<close> columns hold the lower-case form, which is
  what PostgreSQL returns. What is PostgreSQL's own business is the record \<open>pg\<close>: the instant that a
  \<open>timestamptz\<close> column keeps of a value (\<open>pg_time\<close>), the text of a \<open>jsonb\<close> document (\<open>pg_json\<close>, \<open>None\<close> when it
  is refused), the attributes that come back from a \<open>jsonb\<close> column through \<open>json.Unmarshal\<close>
  (\<open>pg_attributes\<close>), the text of an \<open>inet\<close> value, \<open>date_trunc('minute')\<close>, \<open>pg_column_size\<close> of an
  entry and \<open>lower\<close> of \<open>ILIKE\<close>. Transactions run one after the other; the lists keep the order of insertion.
\<close>

section \<open>What PostgreSQL decides\<close>

record pg =
  pg_time :: "time \<Rightarrow> time"
  pg_json :: "bytes \<Rightarrow> bytes option"
  pg_attributes :: "attributes \<Rightarrow> attributes option"
  pg_inet_text :: "string \<Rightarrow> string"
  pg_minute :: "time \<Rightarrow> time"
  pg_row_size :: "entry \<Rightarrow> int"
  pg_fold :: "string \<Rightarrow> string"

text \<open>Text columns take valid UTF-8 without the zero byte; \<open>length\<close> counts characters.\<close>

definition pg_text :: "string \<Rightarrow> bool" where
  "pg_text s \<longleftrightarrow> valid_utf8 s \<and> CHR 0x00 \<notin> set s"

definition char_length :: "string \<Rightarrow> int" where
  "char_length s = int (length (filter (\<lambda>c. \<not> cont_byte (byte_val c)) s))"

definition text_between :: "int \<Rightarrow> int \<Rightarrow> string \<Rightarrow> bool" where
  "text_between lo hi s \<longleftrightarrow> lo \<le> char_length s \<and> char_length s \<le> hi"

definition pg_uuid :: "uuid \<Rightarrow> uuid" where
  "pg_uuid u = map ascii_lower u"

definition in_int4 :: "int \<Rightarrow> bool" where
  "in_int4 n \<longleftrightarrow> - (2 ^ 31) \<le> n \<and> n < 2 ^ 31"

section \<open>Tables and sessions\<close>

record db =
  t_projects :: "project list"
  t_agents :: "agent list"
  t_pipelines :: "pipeline list"
  t_keys :: "api_key list"
  t_batches :: "stored_batch list"
  t_entries :: "entry list"
  t_quarantine :: "quarantine_batch list"
  t_retention :: "retention_policy list"
  t_usage :: "usage_bucket list"
  t_audit :: "audit_event list"

text \<open>
  \<open>Failed\<close>: the statement or the commit fails and has no effect. \<open>Lost\<close>: a commit takes effect but its
  answer is lost. The outcomes of the next interactions with the server are a list; after it, all succeed.
  \<open>ps_now\<close> is \<open>now()\<close>, the time of the transaction; the sequences behind \<open>bigserial\<close> columns do not roll back.
\<close>

datatype outcome = Done | Failed driver_error | Lost driver_error

record pgstate =
  ps_db :: db
  ps_entry_seq :: int
  ps_audit_seq :: int
  ps_now :: time
  ps_outcomes :: "outcome list"

type_synonym 'a sql = "(pgstate, 'a) act"

definition stmt :: "'a sql \<Rightarrow> 'a sql" where
  "stmt f s =
     (case ps_outcomes s of
        [] \<Rightarrow> f s
      | Done # os \<Rightarrow> f (s\<lparr>ps_outcomes := os\<rparr>)
      | Failed e # os \<Rightarrow> (Inl (Driver e), s\<lparr>ps_outcomes := os\<rparr>)
      | Lost e # os \<Rightarrow> (Inl (Driver e), s\<lparr>ps_outcomes := os\<rparr>))"

text \<open>
  \<open>BeginTx\<close>, the body, and \<open>Commit\<close>; on an error of the body or of the commit the deferred \<open>Rollback\<close> puts
  the tables back.
\<close>

definition rolled_back :: "pgstate \<Rightarrow> pgstate \<Rightarrow> pgstate" where
  "rolled_back s s' = s'\<lparr>ps_db := ps_db s\<rparr>"

definition commit_tx :: "pgstate \<Rightarrow> 'a \<Rightarrow> 'a sql" where
  "commit_tx s x s' =
     (case ps_outcomes s' of
        [] \<Rightarrow> (Inr x, s')
      | Done # os \<Rightarrow> (Inr x, s'\<lparr>ps_outcomes := os\<rparr>)
      | Failed e # os \<Rightarrow> (Inl (Driver e), rolled_back s (s'\<lparr>ps_outcomes := os\<rparr>))
      | Lost e # os \<Rightarrow> (Inl (Driver e), s'\<lparr>ps_outcomes := os\<rparr>))"

definition within_tx :: "'a sql \<Rightarrow> 'a sql" where
  "within_tx body s0 =
     (case stmt (ret ()) s0 of
        (Inl e, s) \<Rightarrow> (Inl e, s)
      | (Inr _, s) \<Rightarrow>
          (case body s of
             (Inl e, s') \<Rightarrow> (Inl e, rolled_back s s')
           | (Inr x, s') \<Rightarrow> commit_tx s x s'))"

section \<open>Statements\<close>

text \<open>A value that a column does not take (SQLSTATE class 22), a constraint that fails (class 23).\<close>

abbreviation data_error :: server_error where
  "data_error \<equiv> Driver DataError"

definition reading :: "(db \<Rightarrow> 'a) \<Rightarrow> 'a sql" where
  "reading f = stmt (\<lambda>s. (Inr (f (ps_db s)), s))"

definition upd_db :: "(db \<Rightarrow> db) \<Rightarrow> pgstate \<Rightarrow> pgstate" where
  "upd_db f s = s\<lparr>ps_db := f (ps_db s)\<rparr>"

definition lift :: "(server_error + 'a) \<Rightarrow> ('s, 'a) act" where
  "lift r s = (r, s)"

text \<open>\<open>QueryRow(...).Scan\<close> of the rows that a statement returns.\<close>

definition scan_first :: "('r \<Rightarrow> server_error + 'a) \<Rightarrow> 'r list \<Rightarrow> ('s, 'a) act" where
  "scan_first scan rs = (case rs of [] \<Rightarrow> fail NotFound | r # _ \<Rightarrow> lift (scan r))"

text \<open>\<open>QueryRow\<close> of at most one row, and its \<open>Scan\<close>.\<close>

definition query_row :: "(db \<Rightarrow> 'r list) \<Rightarrow> ('r \<Rightarrow> server_error + 'a) \<Rightarrow> 'a sql" where
  "query_row sel scan =
     andthen (reading sel) (scan_first scan)"

fun scan_rows :: "('r \<Rightarrow> server_error + 'a) \<Rightarrow> 'r list \<Rightarrow> server_error + 'a list" where
  "scan_rows scan [] = Inr []"
| "scan_rows scan (r # rs) =
     (case scan r of
        Inl e \<Rightarrow> Inl e
      | Inr x \<Rightarrow> (case scan_rows scan rs of Inl e \<Rightarrow> Inl e | Inr xs \<Rightarrow> Inr (x # xs)))"

definition query_rows :: "(db \<Rightarrow> 'r list) \<Rightarrow> ('r \<Rightarrow> server_error + 'a) \<Rightarrow> 'a list sql" where
  "query_rows sel scan = andthen (reading sel) (\<lambda>rs. lift (scan_rows scan rs))"

definition require_affected :: "int \<Rightarrow> ('s, unit) act" where
  "require_affected n = (if n = 0 then fail NotFound else ret ())"

text \<open>\<open>LIMIT\<close> with a value that was checked to be positive.\<close>

definition limited :: "int \<Rightarrow> 'a list \<Rightarrow> 'a list" where
  "limited n xs = take (nat n) xs"

text \<open>
  \<open>INSERT ... RETURNING\<close> and \<open>UPDATE ... WHERE ... RETURNING\<close> on the table that \<open>table\<close> modifies: \<open>takes\<close>
  says that the columns take the values, \<open>ok\<close> that the constraints hold.
\<close>

definition insert_returning ::
  "(('r list \<Rightarrow> 'r list) \<Rightarrow> db \<Rightarrow> db) \<Rightarrow> ('r \<Rightarrow> bool) \<Rightarrow> (db \<Rightarrow> 'r \<Rightarrow> bool) \<Rightarrow> (time \<Rightarrow> 'r) \<Rightarrow> 'r sql" where
  "insert_returning table takes ok row =
     stmt (\<lambda>s. let r = row (ps_now s)
                in if \<not> takes r then (Inl data_error, s)
                   else if \<not> ok (ps_db s) r then (Inl Conflict, s)
                   else (Inr r, upd_db (table (\<lambda>rs. rs @ [r])) s))"

definition update_rows ::
  "(db \<Rightarrow> 'r list) \<Rightarrow> (('r list \<Rightarrow> 'r list) \<Rightarrow> db \<Rightarrow> db) \<Rightarrow> ('r \<Rightarrow> bool) \<Rightarrow> ('r \<Rightarrow> bool) \<Rightarrow> ('r \<Rightarrow> bool) \<Rightarrow>
     (time \<Rightarrow> 'r \<Rightarrow> 'r) \<Rightarrow> 'r list sql" where
  "update_rows rows table takes ok hit f s =
     (let news = map (f (ps_now s)) (filter hit (rows (ps_db s)))
      in if \<not> list_all takes news then (Inl data_error, s)
         else if \<not> list_all ok news then (Inl Conflict, s)
         else (Inr news, upd_db (table (map (\<lambda>r. if hit r then f (ps_now s) r else r))) s))"

definition update_returning ::
  "(db \<Rightarrow> 'r list) \<Rightarrow> (('r list \<Rightarrow> 'r list) \<Rightarrow> db \<Rightarrow> db) \<Rightarrow> ('r \<Rightarrow> bool) \<Rightarrow> ('r \<Rightarrow> bool) \<Rightarrow> ('r \<Rightarrow> bool) \<Rightarrow>
     (time \<Rightarrow> 'r \<Rightarrow> 'r) \<Rightarrow> 'r list sql" where
  "update_returning rows table takes ok hit f = stmt (update_rows rows table takes ok hit f)"

section \<open>Facts\<close>

lemma upd_db_simps [simp]:
  "ps_db (upd_db f s) = f (ps_db s)" "ps_now (upd_db f s) = ps_now s"
  "ps_entry_seq (upd_db f s) = ps_entry_seq s" "ps_audit_seq (upd_db f s) = ps_audit_seq s"
  by (simp_all add: upd_db_def)

subsection \<open>Results\<close>

text \<open>How a transaction ends.\<close>

lemma within_tx_cases:
  assumes "within_tx body s0 = (r, s1)"
  obtains (failed) e where "r = Inl e" "ps_db s1 = ps_db s0"
    | (lost) e s s' x where "r = Inl (Driver e)" "ps_db s = ps_db s0" "body s = (Inr x, s')" "ps_db s1 = ps_db s'"
        "ps_now s = ps_now s0"
    | (committed) s s' x where "r = Inr x" "ps_db s = ps_db s0" "body s = (Inr x, s')" "ps_db s1 = ps_db s'"
        "ps_now s = ps_now s0"
proof -
  obtain r0 s where b: "stmt (ret ()) s0 = (r0, s)" by (cases "stmt (ret ()) s0")
  have s: "ps_db s = ps_db s0" "ps_now s = ps_now s0" using b by (auto simp: stmt_def split: list.splits outcome.splits)
  show thesis
  proof (cases r0)
    case (Inl e)
    with assms b s show thesis by (intro failed [of e]) (simp_all add: within_tx_def)
  next
    case (Inr u)
    obtain r' s' where m: "body s = (r', s')" by (cases "body s")
    show thesis
    proof (cases r')
      case (Inl e)
      with assms b s m Inr show thesis by (intro failed [of e]) (auto simp: within_tx_def rolled_back_def)
    next
      case (Inr x)
      with assms b s m \<open>r0 = Inr u\<close> have c: "commit_tx s x s' = (r, s1)" by (simp add: within_tx_def)
      show thesis
      proof (cases "ps_outcomes s'")
        case Nil
        with c m s Inr show thesis by (intro committed [of x s s']) (simp_all add: commit_tx_def)
      next
        case (Cons o' os)
        show thesis
        proof (cases o')
          case Done
          with c m s Inr Cons show thesis by (intro committed [of x s s']) (auto simp: commit_tx_def)
        next
          case (Failed e)
          with c m s Inr Cons show thesis by (intro failed [of "Driver e"]) (auto simp: commit_tx_def rolled_back_def)
        next
          case (Lost e)
          with c m s Inr Cons show thesis by (intro lost [of e s x s']) (auto simp: commit_tx_def)
        qed
      qed
    qed
  qed
qed

subsection \<open>What a computation can do to the tables\<close>

text \<open>\<open>moves R m\<close>: whatever \<open>m\<close> does and however it ends, the tables before and after are in \<open>R\<close>.\<close>

definition moves :: "(db \<Rightarrow> db \<Rightarrow> bool) \<Rightarrow> 'a sql \<Rightarrow> bool" where
  "moves R m \<longleftrightarrow> (\<forall>s. R (ps_db s) (ps_db (snd (m s))))"

lemma movesD: "moves R m \<Longrightarrow> m s = (r, s') \<Longrightarrow> R (ps_db s) (ps_db s')"
  unfolding moves_def by (metis snd_conv)

text \<open>A relation on the tables that every sequence of statements and every transaction respects when each statement does.\<close>

locale history =
  fixes R :: "db \<Rightarrow> db \<Rightarrow> bool"
  assumes same: "R d d"
    and followed: "R d d' \<Longrightarrow> R d' d'' \<Longrightarrow> R d d''"
begin

lemma moves_nothing: "(\<And>s. ps_db (snd (m s)) = ps_db s) \<Longrightarrow> moves R m"
  by (simp add: moves_def same)

lemma moves_ret [intro, simp]: "moves R (ret x)"
  by (rule moves_nothing) simp

lemma moves_fail [intro, simp]: "moves R (fail e)"
  by (rule moves_nothing) simp

lemma moves_check [intro, simp]: "moves R (check e)"
  by (cases e) (auto intro: moves_nothing)

lemma moves_lift [intro, simp]: "moves R (lift r)"
  by (rule moves_nothing) (simp add: lift_def)

lemma moves_andthen [intro]:
  assumes "moves R m" "\<And>x. moves R (f x)"
  shows "moves R (andthen m f)"
  unfolding moves_def
proof
  fix s
  obtain r s1 where m: "m s = (r, s1)" by (cases "m s")
  show "R (ps_db s) (ps_db (snd (andthen m f s)))"
  proof (cases r)
    case (Inl e)
    with movesD [OF assms(1) m] m show ?thesis by (simp add: andthen_def)
  next
    case (Inr x)
    obtain r2 s2 where f: "f x s1 = (r2, s2)" by (cases "f x s1")
    from followed [OF movesD [OF assms(1) m] movesD [OF assms(2) f]] m f Inr show ?thesis by (simp add: andthen_def)
  qed
qed

lemma moves_stmt [intro]: "moves R m \<Longrightarrow> moves R (stmt m)"
  by (auto simp: moves_def stmt_def same split: list.split outcome.split)
    (metis pgstate.ext_inject pgstate.surjective pgstate.update_convs(5))+

lemma moves_reading [intro, simp]: "moves R (reading f)"
  unfolding reading_def by (rule moves_stmt, rule moves_nothing) simp

lemma moves_scan_first [intro, simp]: "moves R (scan_first scan rs)"
  by (cases rs) (simp_all add: scan_first_def)

lemma moves_query_row [intro, simp]: "moves R (query_row sel scan)"
  unfolding query_row_def by (intro moves_andthen) simp_all

lemma moves_query_rows [intro, simp]: "moves R (query_rows sel scan)"
  unfolding query_rows_def by (intro moves_andthen) simp_all

lemma moves_require_affected [intro, simp]: "moves R (require_affected n)"
  by (simp add: require_affected_def)

lemma moves_if [intro]: "moves R m \<Longrightarrow> moves R m' \<Longrightarrow> moves R (if b then m else m')"
  by simp

lemma moves_insert_returning:
  "(\<And>d t. takes (row t) \<Longrightarrow> ok d (row t) \<Longrightarrow> R d (table (\<lambda>rs. rs @ [row t]) d)) \<Longrightarrow>
     moves R (insert_returning table takes ok row)"
  unfolding insert_returning_def by (rule moves_stmt) (simp add: moves_def Let_def same)

lemma moves_update_returning:
  "(\<And>d t. list_all ok (map (f t) (filter hit (rows d))) \<Longrightarrow> R d (table (map (\<lambda>r. if hit r then f t r else r)) d)) \<Longrightarrow>
     moves R (update_returning rows table takes ok hit f)"
  unfolding update_returning_def by (rule moves_stmt) (simp add: moves_def update_rows_def Let_def same)

lemma moves_within_tx [intro]:
  assumes "moves R m"
  shows "moves R (within_tx m)"
  unfolding moves_def
proof
  fix s0 :: pgstate
  obtain r1 s1 where w: "within_tx m s0 = (r1, s1)" by (cases "within_tx m s0")
  then show "R (ps_db s0) (ps_db (snd (within_tx m s0)))"
  proof (cases rule: within_tx_cases)
    case (failed e)
    with w show ?thesis by (simp add: same)
  next
    case (lost e s s' x)
    with w movesD [OF assms lost(3)] show ?thesis by simp
  next
    case (committed s s' x)
    with w movesD [OF assms committed(3)] show ?thesis by simp
  qed
qed

end

text \<open>An invariant of the tables is such a relation.\<close>

abbreviation keeps :: "(db \<Rightarrow> bool) \<Rightarrow> 'a sql \<Rightarrow> bool" where
  "keeps P \<equiv> moves (\<lambda>d d'. P d \<longrightarrow> P d')"

interpretation keep: history "\<lambda>d d'. P d \<longrightarrow> P d'" for P
  by unfold_locales auto

lemma stmt_Inr:
  assumes "stmt f s = (Inr x, s')"
  shows "\<exists>os. f (s\<lparr>ps_outcomes := os\<rparr>) = (Inr x, s')"
proof (cases "ps_outcomes s")
  case Nil
  then have e: "s\<lparr>ps_outcomes := []\<rparr> = s" by (cases s) simp
  have "f s = (Inr x, s')" using assms Nil by (simp add: stmt_def)
  then show ?thesis by (intro exI [of _ "[]"]) (simp only: e)
next
  case (Cons o' os)
  with assms show ?thesis by (cases o') (auto simp: stmt_def)
qed

lemma reading_Inr: "reading f s = (Inr x, s') \<Longrightarrow> x = f (ps_db s) \<and> ps_db s' = ps_db s \<and> ps_now s' = ps_now s"
  by (auto simp: reading_def dest!: stmt_Inr)

lemma query_row_Inr:
  assumes "query_row sel scan s = (Inr x, s')"
  shows "\<exists>r rs. sel (ps_db s) = r # rs \<and> scan r = Inr x \<and> ps_db s' = ps_db s \<and> ps_now s' = ps_now s"
proof -
  from assms obtain rs s1 where r: "reading sel s = (Inr rs, s1)"
    and k: "scan_first scan rs s1 = (Inr x, s')"
    unfolding query_row_def act_cases by blast
  have "rs = sel (ps_db s)" "ps_db s1 = ps_db s" "ps_now s1 = ps_now s" using reading_Inr [OF r] by simp_all
  with k show ?thesis by (cases "sel (ps_db s)") (auto simp: scan_first_def lift_def)
qed

lemma query_rows_Inr:
  "query_rows sel scan s = (Inr xs, s') \<Longrightarrow>
     scan_rows scan (sel (ps_db s)) = Inr xs \<and> ps_db s' = ps_db s \<and> ps_now s' = ps_now s"
  by (auto simp: query_rows_def act_cases lift_def dest!: reading_Inr)

lemma scan_first_Inr: "scan_first scan rs s = (Inr x, s') \<Longrightarrow> \<exists>r rs'. rs = r # rs' \<and> scan r = Inr x \<and> s' = s"
  by (cases rs) (auto simp: scan_first_def lift_def)

lemma insert_returning_Inr:
  assumes "insert_returning table takes ok row s = (Inr r, s')"
  shows "r = row (ps_now s)" "takes r" "ok (ps_db s) r" "ps_db s' = table (\<lambda>rs. rs @ [r]) (ps_db s)" "ps_now s' = ps_now s"
  using assms unfolding insert_returning_def by (auto simp: Let_def dest!: stmt_Inr split: if_splits)

lemma update_returning_Inr:
  assumes "update_returning rows table takes ok hit f s = (Inr rs, s')"
  shows "rs = map (f (ps_now s)) (filter hit (rows (ps_db s)))" "list_all ok rs" "ps_now s' = ps_now s"
    "ps_db s' = table (map (\<lambda>r. if hit r then f (ps_now s) r else r)) (ps_db s)"
  using assms unfolding update_returning_def by (auto simp: update_rows_def Let_def dest!: stmt_Inr split: if_splits cong: if_cong)

lemma check_Inr [simp]: "check e s = (Inr x, s') \<longleftrightarrow> e = None \<and> s' = s"
  by (cases e) auto

lemma lift_Inr [simp]: "lift r s = (Inr x, s') \<longleftrightarrow> r = Inr x \<and> s' = s"
  by (auto simp: lift_def)

lemma require_affected_Inr [simp]: "require_affected n s = (Inr u, s') \<longleftrightarrow> n \<noteq> 0 \<and> s' = s"
  by (auto simp: require_affected_def)

end
