(* ===== verification/Store_Control.thy ===== *)
theory Store_Control
  imports Store_Base
begin

text \<open>
  The tables of the control plane (\<open>project.go\<close>, \<open>agent.go\<close>, \<open>pipeline.go\<close>, \<open>api_key.go\<close>, \<open>retention.go\<close>,
  \<open>audit.go\<close>): per table the constraints of its \<open>CREATE TABLE\<close>, the scan of a row, and the repository's
  operations.
\<close>

section \<open>Projects\<close>

definition takes_project :: "project \<Rightarrow> bool" where
  "takes_project p \<longleftrightarrow> valid_uuid (pj_id p) \<and> pg_text (pj_slug p) \<and> pg_text (pj_name p) \<and> pg_text (pj_status p)"

definition project_row :: "project \<Rightarrow> bool" where
  "project_row p \<longleftrightarrow>
     text_between 1 63 (pj_slug p) \<and> text_between 1 255 (pj_name p) \<and> pj_status p \<in> {''active'', ''disabled''}"

definition project_new :: "db \<Rightarrow> project \<Rightarrow> bool" where
  "project_new d p \<longleftrightarrow> project_row p \<and> (\<forall>q \<in> set (t_projects d). pj_id q \<noteq> pj_id p \<and> pj_slug q \<noteq> pj_slug p)"

definition scan_project :: "project \<Rightarrow> server_error + project" where
  "scan_project p = (case validate_project p of None \<Rightarrow> Inr p | Some _ \<Rightarrow> Inl CorruptRow)"

definition projects_create :: "project \<Rightarrow> project sql" where
  "projects_create p =
     andthen (check (domain_check (validate_project p))) (\<lambda>_.
     andthen (insert_returning t_projects_update takes_project project_new
       (\<lambda>now. \<lparr>pj_id = pg_uuid (pj_id p), pj_slug = pj_slug p, pj_name = pj_name p, pj_status = pj_status p,
              pj_created_at = now, pj_updated_at = now\<rparr>)) (\<lambda>r.
     lift (scan_project r)))"

definition projects_get :: "uuid \<Rightarrow> project sql" where
  "projects_get i =
     andthen (check (domain_check (validate_project_id i))) (\<lambda>_.
     query_row (\<lambda>d. filter (\<lambda>p. pj_id p = pg_uuid i) (t_projects d)) scan_project)"

definition projects_get_by_slug :: "string \<Rightarrow> project sql" where
  "projects_get_by_slug slug = query_row (\<lambda>d. filter (\<lambda>p. pj_slug p = slug) (t_projects d)) scan_project"

definition projects_list :: "int \<Rightarrow> project list sql" where
  "projects_list limit =
     (if limit \<le> 0 \<or> limit > 1000 then fail (Domain (ErrInvalid ''project list limit''))
      else query_rows (\<lambda>d. limited limit (sort_key (\<lambda>p. (pj_created_at p, pj_id p)) (t_projects d))) scan_project)"

definition projects_set_status :: "uuid \<Rightarrow> string \<Rightarrow> project sql" where
  "projects_set_status i status =
     (if \<not> valid_uuid i \<or> status \<notin> set project_statuses then fail (Domain (ErrInvalid ''project status update''))
      else andthen (update_returning t_projects t_projects_update (\<lambda>_. True) project_row (\<lambda>p. pj_id p = pg_uuid i)
             (\<lambda>now p. p\<lparr>pj_status := status, pj_updated_at := now\<rparr>))
           (scan_first scan_project))"

section \<open>Agents\<close>

text \<open>The \<open>inet\<close> column holds the address; a row is read back through its text and \<open>net.ParseIP\<close>.\<close>

definition takes_agent :: "agent \<Rightarrow> bool" where
  "takes_agent a \<longleftrightarrow>
     valid_uuid (ag_id a) \<and> valid_uuid (ag_project_id a) \<and> pg_text (ag_name a) \<and> pg_text (ag_hostname a) \<and>
     pg_text (ag_version a) \<and> pg_text (ag_status a)"

definition agent_row :: "agent \<Rightarrow> bool" where
  "agent_row a \<longleftrightarrow>
     text_between 1 255 (ag_name a) \<and> text_between 1 255 (ag_hostname a) \<and> ag_status a \<in> {''active'', ''stale'', ''disabled''}"

definition project_exists :: "db \<Rightarrow> uuid \<Rightarrow> bool" where
  "project_exists d i \<longleftrightarrow> (\<exists>p \<in> set (t_projects d). pj_id p = i)"

definition agent_new :: "db \<Rightarrow> agent \<Rightarrow> bool" where
  "agent_new d a \<longleftrightarrow>
     agent_row a \<and> project_exists d (ag_project_id a) \<and>
     (\<forall>b \<in> set (t_agents d). ag_id b \<noteq> ag_id a \<and> (ag_project_id b, ag_name b) \<noteq> (ag_project_id a, ag_name a))"

definition nullable_ip_string :: "bytes \<Rightarrow> string option" where
  "nullable_ip_string ip = (if ip = [] then None else Some (ip_string ip))"

definition scan_agent :: "pg \<Rightarrow> agent \<Rightarrow> server_error + agent" where
  "scan_agent pg a =
     (let ip = (case nullable_ip_string (ag_last_seen_ip a) of None \<Rightarrow> [] | Some t \<Rightarrow> parse_ip (pg_inet_text pg t))
      in if ag_last_seen_ip a \<noteq> [] \<and> ip = [] then Inl CorruptRow
         else let b = a\<lparr>ag_last_seen_ip := ip\<rparr>
              in (case validate_agent b of None \<Rightarrow> Inr b | Some _ \<Rightarrow> Inl CorruptRow))"

definition agent_of :: "pg \<Rightarrow> agent \<Rightarrow> time \<Rightarrow> agent" where
  "agent_of pg a now =
     a\<lparr>ag_id := pg_uuid (ag_id a), ag_project_id := pg_uuid (ag_project_id a),
       ag_last_heartbeat := map_option (pg_time pg) (ag_last_heartbeat a), ag_created_at := now, ag_updated_at := now\<rparr>"

definition agents_create :: "pg \<Rightarrow> agent \<Rightarrow> agent sql" where
  "agents_create pg a =
     andthen (check (domain_check (validate_agent a))) (\<lambda>_.
     andthen (insert_returning t_agents_update takes_agent agent_new (agent_of pg a)) (\<lambda>r. lift (scan_agent pg r)))"

definition agents_get :: "pg \<Rightarrow> uuid \<Rightarrow> uuid \<Rightarrow> agent sql" where
  "agents_get pg project i =
     query_row (\<lambda>d. filter (\<lambda>a. ag_project_id a = pg_uuid project \<and> ag_id a = pg_uuid i) (t_agents d)) (scan_agent pg)"

definition agents_get_by_name :: "pg \<Rightarrow> uuid \<Rightarrow> string \<Rightarrow> agent sql" where
  "agents_get_by_name pg project name =
     query_row (\<lambda>d. filter (\<lambda>a. ag_project_id a = pg_uuid project \<and> ag_name a = name) (t_agents d)) (scan_agent pg)"

text \<open>\<open>INSERT ... ON CONFLICT (project_id, name) DO NOTHING RETURNING\<close>: no row when the name is taken.\<close>

definition agents_insert_or_nothing :: "pg \<Rightarrow> agent \<Rightarrow> agent list sql" where
  "agents_insert_or_nothing pg a =
     stmt (\<lambda>s. let r = agent_of pg a (ps_now s); d = ps_db s
                in if \<not> takes_agent r then (Inl data_error, s)
                   else if agent_row r \<and> (\<exists>b \<in> set (t_agents d). (ag_project_id b, ag_name b) = (ag_project_id r, ag_name r))
                     then (Inr [], s)
                   else if \<not> agent_new d r then (Inl Conflict, s)
                   else (Inr [r], upd_db (t_agents_update (\<lambda>rs. rs @ [r])) s))"

definition agents_register :: "pg \<Rightarrow> agent \<Rightarrow> agent sql" where
  "agents_register pg a =
     andthen (check (domain_check (validate_agent a))) (\<lambda>_ s.
     (case andthen (agents_insert_or_nothing pg a) (scan_first (scan_agent pg)) s of
        (Inr created, s') \<Rightarrow> (Inr created, s')
      | (Inl e, s') \<Rightarrow>
          if \<not> err_is e (\<lambda>x. x = NotFound) then (Inl e, s')
          else andthen (agents_get_by_name pg (ag_project_id a) (ag_name a)) (\<lambda>existing.
                 if ag_hostname existing \<noteq> ag_hostname a \<or> ag_status existing = ''disabled'' then fail Conflict
                 else ret existing) s'))"

definition agents_list :: "pg \<Rightarrow> uuid \<Rightarrow> int \<Rightarrow> agent list sql" where
  "agents_list pg project limit =
     (if \<not> valid_uuid project \<or> limit \<le> 0 \<or> limit > 1000 then fail (Domain (ErrInvalid ''agent list''))
      else query_rows (\<lambda>d. limited limit (sort_key (\<lambda>a. (ag_created_at a, ag_id a))
             (filter (\<lambda>a. ag_project_id a = pg_uuid project) (t_agents d)))) (scan_agent pg))"

definition agents_heartbeat :: "pg \<Rightarrow> uuid \<Rightarrow> uuid \<Rightarrow> string \<Rightarrow> time \<Rightarrow> bytes \<Rightarrow> agent sql" where
  "agents_heartbeat pg project i version seen_at ip =
     andthen (update_returning t_agents t_agents_update (\<lambda>_. pg_text version) agent_row
       (\<lambda>a. ag_project_id a = pg_uuid project \<and> ag_id a = pg_uuid i \<and> ag_status a \<noteq> ''disabled'')
       (\<lambda>now a. a\<lparr>ag_version := version, ag_last_heartbeat := Some (pg_time pg seen_at), ag_last_seen_ip := ip,
                  ag_status := (if ag_status a = ''stale'' then ''active'' else ag_status a), ag_updated_at := now\<rparr>))
     (scan_first (scan_agent pg))"

text \<open>\<open>ORDER BY last_heartbeat_at NULLS FIRST, id\<close>: a pair with a flag for the null.\<close>

definition stale_candidates :: "time \<Rightarrow> int \<Rightarrow> db \<Rightarrow> uuid list" where
  "stale_candidates before limit d =
     map ag_id (limited limit (sort_key (\<lambda>a. case ag_last_heartbeat a of None \<Rightarrow> (False, 0, ag_id a) | Some t \<Rightarrow> (True, t, ag_id a))
       (filter (\<lambda>a. ag_status a = ''active'' \<and> (case ag_last_heartbeat a of None \<Rightarrow> True | Some t \<Rightarrow> t < before)) (t_agents d))))"

definition agents_mark_stale_before :: "pg \<Rightarrow> time \<Rightarrow> int \<Rightarrow> int sql" where
  "agents_mark_stale_before pg before limit =
     (if limit \<le> 0 then fail (Domain (ErrInvalid ''stale agent limit''))
      else stmt (\<lambda>s. let ids = stale_candidates (pg_time pg before) limit (ps_db s)
                     in (Inr (int (length ids)),
                         upd_db (t_agents_update (map (\<lambda>a. if ag_id a \<in> set ids
                           then a\<lparr>ag_status := ''stale'', ag_updated_at := ps_now s\<rparr> else a))) s)))"

section \<open>Pipelines\<close>

definition takes_pipeline :: "pipeline \<Rightarrow> bool" where
  "takes_pipeline p \<longleftrightarrow>
     valid_uuid (pl_id p) \<and> valid_uuid (pl_project_id p) \<and> valid_uuid (pl_agent_id p) \<and> pg_text (pl_name p) \<and>
     pg_text (pl_service p) \<and> in_int64 (pl_config_version p) \<and>
     (case pl_last_error p of None \<Rightarrow> True | Some e \<Rightarrow> pg_text e)"

definition pipeline_row :: "pipeline \<Rightarrow> bool" where
  "pipeline_row p \<longleftrightarrow>
     text_between 1 255 (pl_name p) \<and> text_between 1 255 (pl_service p) \<and> valid_json_object (pl_config p) \<and>
     0 < pl_config_version p \<and> pl_status p \<in> {''enabled'', ''paused'', ''error'', ''disabled''} \<and>
     pl_reported_status p \<in> {''running'', ''stopped'', ''error''}"

definition agent_exists :: "db \<Rightarrow> uuid \<Rightarrow> uuid \<Rightarrow> bool" where
  "agent_exists d project i \<longleftrightarrow> (\<exists>a \<in> set (t_agents d). ag_project_id a = project \<and> ag_id a = i)"

definition pipeline_new :: "db \<Rightarrow> pipeline \<Rightarrow> bool" where
  "pipeline_new d p \<longleftrightarrow>
     pipeline_row p \<and> project_exists d (pl_project_id p) \<and> agent_exists d (pl_project_id p) (pl_agent_id p) \<and>
     (\<forall>q \<in> set (t_pipelines d). pl_id q \<noteq> pl_id p \<and>
        (pl_project_id q, pl_agent_id q, pl_name q) \<noteq> (pl_project_id p, pl_agent_id p, pl_name p))"

definition scan_pipeline :: "pipeline \<Rightarrow> server_error + pipeline" where
  "scan_pipeline p = (case validate_pipeline p of None \<Rightarrow> Inr p | Some _ \<Rightarrow> Inl CorruptRow)"

definition pipeline_at :: "uuid \<Rightarrow> uuid \<Rightarrow> pipeline \<Rightarrow> bool" where
  "pipeline_at project i p \<longleftrightarrow> pl_project_id p = pg_uuid project \<and> pl_id p = pg_uuid i"

definition pipelines_create :: "pg \<Rightarrow> pipeline \<Rightarrow> pipeline sql" where
  "pipelines_create pg p =
     andthen (check (domain_check (validate_pipeline p))) (\<lambda>_.
     (case pg_json pg (pl_config p) of
        None \<Rightarrow> stmt (fail data_error)
      | Some config \<Rightarrow>
          andthen (insert_returning t_pipelines_update takes_pipeline pipeline_new
            (\<lambda>now. p\<lparr>pl_id := pg_uuid (pl_id p), pl_project_id := pg_uuid (pl_project_id p),
                     pl_agent_id := pg_uuid (pl_agent_id p), pl_config := config,
                     pl_reported_at := map_option (pg_time pg) (pl_reported_at p), pl_updated_at := now\<rparr>))
          (\<lambda>r. lift (scan_pipeline r))))"

definition pipelines_get :: "uuid \<Rightarrow> uuid \<Rightarrow> pipeline sql" where
  "pipelines_get project i = query_row (\<lambda>d. filter (pipeline_at project i) (t_pipelines d)) scan_pipeline"

definition pipelines_list :: "uuid \<Rightarrow> int \<Rightarrow> pipeline list sql" where
  "pipelines_list project limit =
     (if \<not> valid_uuid project \<or> limit \<le> 0 \<or> limit > 1000 then fail (Domain (ErrInvalid ''pipeline list''))
      else query_rows (\<lambda>d. limited limit (rev (sort_key (\<lambda>p. (pl_updated_at p, pl_id p))
             (filter (\<lambda>p. pl_project_id p = pg_uuid project) (t_pipelines d))))) scan_pipeline)"

definition pipelines_list_by_agent :: "uuid \<Rightarrow> uuid \<Rightarrow> int \<Rightarrow> pipeline list sql" where
  "pipelines_list_by_agent project agent limit =
     (if \<not> valid_uuid project \<or> \<not> valid_uuid agent \<or> limit \<le> 0 \<or> limit > 1000
        then fail (Domain (ErrInvalid ''agent pipeline list''))
      else query_rows (\<lambda>d. limited limit (sort_key pl_id
             (filter (\<lambda>p. pl_project_id p = pg_uuid project \<and> pl_agent_id p = pg_uuid agent) (t_pipelines d)))) scan_pipeline)"

text \<open>The three updates of one pipeline, each with \<open>updated_at = now()\<close>.\<close>

definition update_pipeline ::
  "(pipeline \<Rightarrow> bool) \<Rightarrow> (pipeline \<Rightarrow> pipeline) \<Rightarrow> pipeline sql" where
  "update_pipeline hit f =
     andthen (update_returning t_pipelines t_pipelines_update takes_pipeline pipeline_row hit
       (\<lambda>now p. (f p)\<lparr>pl_updated_at := now\<rparr>)) (scan_first scan_pipeline)"

definition pipelines_update_config :: "pg \<Rightarrow> uuid \<Rightarrow> uuid \<Rightarrow> int \<Rightarrow> bytes \<Rightarrow> pipeline sql" where
  "pipelines_update_config pg project i expected config =
     (if expected \<le> 0 \<or> \<not> valid_json_object config then fail (Domain (ErrInvalid ''pipeline config''))
      else (case pg_json pg config of
              None \<Rightarrow> stmt (fail data_error)
            | Some c \<Rightarrow>
                update_pipeline (\<lambda>p. pipeline_at project i p \<and> pl_config_version p = expected \<and> pl_status p \<noteq> ''disabled'')
                  (\<lambda>p. p\<lparr>pl_config := c, pl_config_version := pl_config_version p + 1\<rparr>)))"

definition pipelines_pause_by_project :: "uuid \<Rightarrow> int sql" where
  "pipelines_pause_by_project project =
     (if \<not> valid_uuid project then fail (Domain (ErrInvalid ''project id''))
      else andthen (update_returning t_pipelines t_pipelines_update (\<lambda>_. True) pipeline_row
             (\<lambda>p. pl_project_id p = pg_uuid project \<and> pl_status p \<in> {''enabled'', ''error''})
             (\<lambda>now p. p\<lparr>pl_status := ''paused'', pl_updated_at := now\<rparr>)) (\<lambda>rs. ret (int (length rs))))"

definition pipelines_set_desired_status :: "uuid \<Rightarrow> uuid \<Rightarrow> string \<Rightarrow> pipeline sql" where
  "pipelines_set_desired_status project i status =
     (if status \<notin> set pipeline_statuses then fail (Domain (ErrInvalid ''pipeline status''))
      else update_pipeline (pipeline_at project i) (\<lambda>p. p\<lparr>pl_status := status\<rparr>))"

definition pipelines_report_status :: "pg \<Rightarrow> uuid \<Rightarrow> uuid \<Rightarrow> string \<Rightarrow> time \<Rightarrow> string option \<Rightarrow> pipeline sql" where
  "pipelines_report_status pg project i status reported_at last_error =
     (if status \<notin> set reported_statuses then fail (Domain (ErrInvalid ''reported pipeline status''))
      else update_pipeline (pipeline_at project i)
             (\<lambda>p. p\<lparr>pl_reported_status := status, pl_reported_at := Some (pg_time pg reported_at), pl_last_error := last_error\<rparr>))"

section \<open>API keys\<close>

definition takes_key :: "api_key \<Rightarrow> bool" where
  "takes_key k \<longleftrightarrow>
     valid_uuid (k_id k) \<and> valid_uuid (k_project_id k) \<and>
     (case k_agent_id k of None \<Rightarrow> True | Some a \<Rightarrow> valid_uuid a) \<and>
     pg_text (k_name k) \<and> pg_text (k_prefix k) \<and> list_all pg_text (k_scopes k) \<and> pg_text (k_status k)"

definition key_row :: "api_key \<Rightarrow> bool" where
  "key_row k \<longleftrightarrow>
     char_length (k_name k) \<le> 128 \<and> text_between 8 64 (k_prefix k) \<and> 32 \<le> length (k_secret_hash k) \<and>
     k_scopes k \<noteq> [] \<and> k_status k \<in> {''active'', ''revoked'', ''expired''} \<and>
     (k_status k = ''revoked'') = (k_revoked_at k \<noteq> None) \<and> (k_status k \<noteq> ''expired'' \<or> k_expires_at k \<noteq> None)"

definition key_new :: "db \<Rightarrow> api_key \<Rightarrow> bool" where
  "key_new d k \<longleftrightarrow>
     key_row k \<and> project_exists d (k_project_id k) \<and>
     (case k_agent_id k of None \<Rightarrow> True | Some a \<Rightarrow> agent_exists d (k_project_id k) a) \<and>
     (\<forall>q \<in> set (t_keys d). k_id q \<noteq> k_id k \<and> (k_project_id q, k_prefix q) \<noteq> (k_project_id k, k_prefix k))"

definition scan_api_key :: "api_key \<Rightarrow> server_error + api_key" where
  "scan_api_key k = (case validate_api_key k of None \<Rightarrow> Inr k | Some _ \<Rightarrow> Inl CorruptRow)"

definition keys_create :: "pg \<Rightarrow> api_key \<Rightarrow> api_key sql" where
  "keys_create pg k =
     andthen (check (domain_check (validate_api_key k))) (\<lambda>_.
     andthen (insert_returning t_keys_update takes_key key_new
       (\<lambda>now. k\<lparr>k_id := pg_uuid (k_id k), k_project_id := pg_uuid (k_project_id k),
                k_agent_id := map_option pg_uuid (k_agent_id k), k_expires_at := map_option (pg_time pg) (k_expires_at k),
                k_last_used_at := None, k_created_at := now, k_revoked_at := None\<rparr>)) (\<lambda>r.
     lift (scan_api_key r)))"

definition keys_find_active_by_prefix :: "pg \<Rightarrow> string \<Rightarrow> time \<Rightarrow> api_key list sql" where
  "keys_find_active_by_prefix pg pfx now =
     query_rows (\<lambda>d. filter (\<lambda>k. k_prefix k = pfx \<and> k_status k = ''active'' \<and>
       (case k_expires_at k of None \<Rightarrow> True | Some e \<Rightarrow> pg_time pg now < e)) (t_keys d)) scan_api_key"

definition keys_list :: "uuid \<Rightarrow> int \<Rightarrow> api_key list sql" where
  "keys_list project limit =
     (if \<not> valid_uuid project \<or> limit \<le> 0 \<or> limit > 1000 then fail (Domain (ErrInvalid ''api key list''))
      else query_rows (\<lambda>d. limited limit (rev (sort_key (\<lambda>k. (k_created_at k, k_id k))
             (filter (\<lambda>k. k_project_id k = pg_uuid project) (t_keys d))))) scan_api_key)"

definition key_at_id :: "uuid \<Rightarrow> uuid \<Rightarrow> api_key \<Rightarrow> bool" where
  "key_at_id project i k \<longleftrightarrow> k_project_id k = pg_uuid project \<and> k_id k = pg_uuid i"

definition keys_revoke :: "pg \<Rightarrow> uuid \<Rightarrow> uuid \<Rightarrow> time \<Rightarrow> api_key sql" where
  "keys_revoke pg project i revoked_at =
     andthen (update_returning t_keys t_keys_update (\<lambda>_. True) key_row
       (\<lambda>k. key_at_id project i k \<and> k_status k \<in> {''active'', ''revoked''})
       (\<lambda>_ k. k\<lparr>k_status := ''revoked'',
                k_revoked_at := Some (case k_revoked_at k of None \<Rightarrow> pg_time pg revoked_at | Some t \<Rightarrow> t)\<rparr>))
     (scan_first scan_api_key)"

definition keys_touch_last_used :: "pg \<Rightarrow> uuid \<Rightarrow> uuid \<Rightarrow> time \<Rightarrow> unit sql" where
  "keys_touch_last_used pg project i used_at =
     andthen (update_returning t_keys t_keys_update (\<lambda>_. True) key_row (key_at_id project i)
       (\<lambda>_ k. k\<lparr>k_last_used_at := Some (case k_last_used_at k of None \<Rightarrow> pg_time pg used_at | Some t \<Rightarrow> max t (pg_time pg used_at))\<rparr>))
     (\<lambda>rs. require_affected (int (length rs)))"

section \<open>Retention policies\<close>

definition scan_policy :: "retention_policy \<Rightarrow> server_error + retention_policy" where
  "scan_policy p = (if \<not> valid_uuid (rp_project_id p) \<or> rp_max_age p div second \<le> 0 then Inl CorruptRow else Inr p)"

text \<open>The row keeps the age in seconds; \<open>rp_max_age\<close> is that number times a second.\<close>

definition policy_row :: "retention_policy \<Rightarrow> bool" where
  "policy_row p \<longleftrightarrow> 0 < rp_max_age p div second \<and> (case rp_max_bytes p of None \<Rightarrow> True | Some b \<Rightarrow> 0 < b)"

definition retention_list_enabled :: "int \<Rightarrow> retention_policy list sql" where
  "retention_list_enabled limit =
     (if limit \<le> 0 \<or> limit > 1000 then fail (Domain (ErrInvalid ''retention list limit''))
      else query_rows (\<lambda>d. limited limit (sort_key (\<lambda>p. (rp_updated_at p, rp_project_id p))
             (filter rp_enabled (t_retention d)))) scan_policy)"

text \<open>\<open>int64(policy.MaxAge / time.Second)\<close> truncates toward zero.\<close>

definition whole_seconds :: "duration \<Rightarrow> int" where
  "whole_seconds d = (if 0 \<le> d then d div second else - (- d div second))"

definition retention_upsert :: "retention_policy \<Rightarrow> retention_policy sql" where
  "retention_upsert p =
     (if \<not> valid_uuid (rp_project_id p) \<or> whole_seconds (rp_max_age p) \<le> 0 \<or>
         rp_max_age p \<noteq> whole_seconds (rp_max_age p) * second \<or>
         (case rp_max_bytes p of None \<Rightarrow> False | Some b \<Rightarrow> b \<le> 0)
        then fail (Domain (ErrInvalid ''retention policy''))
      else andthen (stmt (\<lambda>s.
        let r = p\<lparr>rp_project_id := pg_uuid (rp_project_id p), rp_updated_at := ps_now s\<rparr>; d = ps_db s
        in if \<not> policy_row r \<or> \<not> project_exists d (rp_project_id r) then (Inl Conflict, s)
           else if \<exists>q \<in> set (t_retention d). rp_project_id q = rp_project_id r
             then (Inr [r], upd_db (t_retention_update (map (\<lambda>q. if rp_project_id q = rp_project_id r then r else q))) s)
           else (Inr [r], upd_db (t_retention_update (\<lambda>rs. rs @ [r])) s)))
        (scan_first scan_policy))"

definition retention_get :: "uuid \<Rightarrow> retention_policy sql" where
  "retention_get project = query_row (\<lambda>d. filter (\<lambda>p. rp_project_id p = pg_uuid project) (t_retention d)) scan_policy"

section \<open>Audit events\<close>

definition takes_event :: "audit_event \<Rightarrow> bool" where
  "takes_event e \<longleftrightarrow>
     (case au_project_id e of None \<Rightarrow> True | Some p \<Rightarrow> valid_uuid p) \<and> pg_text (au_actor_type e) \<and> pg_text (au_actor_id e) \<and>
     pg_text (au_action e) \<and> pg_text (au_resource e) \<and> pg_text (au_resource_id e) \<and> pg_text (au_outcome e)"

definition event_new :: "db \<Rightarrow> audit_event \<Rightarrow> bool" where
  "event_new d e \<longleftrightarrow>
     (case au_project_id e of None \<Rightarrow> True | Some p \<Rightarrow> project_exists d p) \<and>
     au_outcome e \<in> {''success'', ''rejected'', ''failed''} \<and> valid_json_object (au_metadata e)"

definition scan_audit :: "audit_event \<Rightarrow> server_error + audit_event" where
  "scan_audit e =
     (if (case au_project_id e of None \<Rightarrow> False | Some p \<Rightarrow> \<not> valid_uuid p) \<or> au_outcome e \<notin> set audit_outcomes \<or>
         \<not> valid_json_object (au_metadata e) then Inl CorruptRow else Inr e)"

definition audit_append :: "pg \<Rightarrow> audit_event \<Rightarrow> audit_event sql" where
  "audit_append pg e0 =
     (if au_actor_type e0 = [] \<or> au_actor_id e0 = [] \<or> au_action e0 = [] \<or> au_resource e0 = [] \<or> au_resource_id e0 = [] \<or>
         au_outcome e0 \<notin> set audit_outcomes then fail (Domain (ErrInvalid ''audit event''))
      else if (case au_project_id e0 of None \<Rightarrow> False | Some p \<Rightarrow> \<not> valid_uuid p)
        then fail (Domain (ErrInvalid ''audit project''))
      else let e = (if au_metadata e0 = [] then e0\<lparr>au_metadata := ''{}''\<rparr> else e0)
           in if \<not> valid_json_object (au_metadata e) then fail (Domain (ErrInvalid ''audit metadata''))
              else andthen (stmt (\<lambda>s.
                (case pg_json pg (au_metadata e) of
                   None \<Rightarrow> (Inl data_error, s)
                 | Some m \<Rightarrow>
                     let r = e\<lparr>au_id := ps_audit_seq s, au_project_id := map_option pg_uuid (au_project_id e),
                               au_metadata := m, au_created_at := ps_now s\<rparr>
                     in if \<not> takes_event r then (Inl data_error, s)
                        else if \<not> event_new (ps_db s) r then (Inl Conflict, s)
                        else (Inr r, (upd_db (t_audit_update (\<lambda>rs. rs @ [r])) s)\<lparr>ps_audit_seq := ps_audit_seq s + 1\<rparr>))))
                (\<lambda>r. lift (scan_audit r)))"

definition audit_list :: "pg \<Rightarrow> uuid \<Rightarrow> time option \<Rightarrow> int \<Rightarrow> audit_event list sql" where
  "audit_list pg project before limit =
     (if \<not> valid_uuid project \<or> limit \<le> 0 \<or> limit > 500 then fail (Domain (ErrInvalid ''audit query''))
      else query_rows (\<lambda>d. limited limit (rev (sort_key (\<lambda>e. (au_created_at e, au_id e))
             (filter (\<lambda>e. au_project_id e = Some (pg_uuid project) \<and>
               (case before of None \<Rightarrow> True | Some t \<Rightarrow> au_created_at e < pg_time pg t)) (t_audit d))))) scan_audit)"

end
