(* ===== verification/Store_Logs.thy ===== *)
theory Store_Logs
  imports Store_Control
begin

text \<open>
  The tables of the data plane (\<open>ingest.go\<close>, \<open>entry.go\<close>, \<open>usage.go\<close>, \<open>quarantine.go\<close> and the deletions of
  \<open>retention.go\<close>).
\<close>

section \<open>Batches\<close>

definition takes_batch :: "stored_batch \<Rightarrow> bool" where
  "takes_batch r \<longleftrightarrow>
     valid_uuid (sb_id r) \<and> valid_uuid (sb_project_id r) \<and> valid_uuid (sb_agent_id r) \<and> valid_uuid (sb_pipeline_id r) \<and>
     in_int64 (sb_sequence r) \<and> in_int4 (sb_entry_count r) \<and> in_int4 (sb_payload_bytes r)"

definition pipeline_exists :: "db \<Rightarrow> uuid \<Rightarrow> uuid \<Rightarrow> uuid \<Rightarrow> bool" where
  "pipeline_exists d project agent i \<longleftrightarrow>
     (\<exists>p \<in> set (t_pipelines d). pl_project_id p = project \<and> pl_agent_id p = agent \<and> pl_id p = i)"

definition batch_row :: "stored_batch \<Rightarrow> bool" where
  "batch_row r \<longleftrightarrow>
     0 \<le> sb_sequence r \<and> length (sb_payload_hash r) = 32 \<and> 0 < sb_entry_count r \<and> 0 < sb_payload_bytes r \<and>
     sb_status r \<in> {''committed'', ''rejected'', ''quarantined''} \<and>
     (sb_status r = ''committed'') = (sb_committed_at r \<noteq> None) \<and> (sb_status r = ''committed'') = (sb_error_code r = None)"

definition batch_at :: "uuid \<Rightarrow> uuid \<Rightarrow> stored_batch \<Rightarrow> bool" where
  "batch_at project i r \<longleftrightarrow> sb_project_id r = pg_uuid project \<and> sb_id r = pg_uuid i"

definition batch_of :: "pg \<Rightarrow> batch \<Rightarrow> time \<Rightarrow> stored_batch" where
  "batch_of pg b committed_at =
     \<lparr>sb_id = pg_uuid (b_id b), sb_project_id = pg_uuid (b_project_id b), sb_agent_id = pg_uuid (b_agent_id b),
      sb_pipeline_id = pg_uuid (b_pipeline_id b), sb_sequence = b_sequence b, sb_payload_hash = b_payload_hash b,
      sb_entry_count = int (length (b_entries b)), sb_payload_bytes = b_payload_bytes b, sb_status = ''committed'',
      sb_created_at = pg_time pg (b_created_at b), sb_committed_at = Some (pg_time pg committed_at), sb_error_code = None\<rparr>"

text \<open>\<open>INSERT ... ON CONFLICT (project_id, id) DO NOTHING\<close>: was a row inserted?\<close>

definition insert_batch :: "pg \<Rightarrow> batch \<Rightarrow> time \<Rightarrow> bool sql" where
  "insert_batch pg b committed_at =
     andthen (check (domain_check (validate_batch b))) (\<lambda>_.
     if is_zero committed_at then fail (Domain (ErrInvalid ''committed at''))
     else stmt (\<lambda>s.
       let r = batch_of pg b committed_at; d = ps_db s
       in if \<not> takes_batch r then (Inl data_error, s)
          else if \<not> batch_row r then (Inl Conflict, s)
          else if \<exists>q \<in> set (t_batches d). batch_at (b_project_id b) (b_id b) q then (Inr False, s)
          else if \<not> project_exists d (sb_project_id r) \<or> \<not> pipeline_exists d (sb_project_id r) (sb_agent_id r) (sb_pipeline_id r)
            then (Inl Conflict, s)
          else (Inr True, upd_db (t_batches_update (\<lambda>rs. rs @ [r])) s)))"

definition scan_stored_batch :: "stored_batch \<Rightarrow> server_error + stored_batch" where
  "scan_stored_batch r =
     (if length (sb_payload_hash r) \<noteq> 32 \<or> sb_status r \<notin> set batch_statuses \<or>
         (sb_status r = ''committed'' \<and> sb_committed_at r = None) then Inl CorruptRow else Inr r)"

definition find_batch :: "uuid \<Rightarrow> uuid \<Rightarrow> stored_batch sql" where
  "find_batch project i = query_row (\<lambda>d. filter (batch_at project i) (t_batches d)) scan_stored_batch"

section \<open>Entries\<close>

definition takes_entry :: "entry \<Rightarrow> bool" where
  "takes_entry e \<longleftrightarrow>
     pg_text (e_service e) \<and> pg_text (e_host e) \<and> pg_text (e_level e) \<and> pg_text (e_message e) \<and> in_int4 (e_batch_sequence e)"

definition entry_row :: "entry \<Rightarrow> bool" where
  "entry_row e \<longleftrightarrow>
     0 \<le> e_batch_sequence e \<and> text_between 1 255 (e_service e) \<and> text_between 1 255 (e_host e) \<and> text_between 1 32 (e_level e)"

text \<open>One row per entry: the identities are those of the batch, the ids come from the sequence.\<close>

definition entry_row_of :: "batch \<Rightarrow> time \<Rightarrow> int \<Rightarrow> entry \<Rightarrow> attributes \<Rightarrow> time \<Rightarrow> entry" where
  "entry_row_of b now i e attrs observed =
     \<lparr>e_id = i, e_project_id = pg_uuid (b_project_id b), e_batch_id = pg_uuid (b_id b), e_agent_id = pg_uuid (b_agent_id b),
      e_pipeline_id = pg_uuid (b_pipeline_id b), e_batch_sequence = e_batch_sequence e, e_service = e_service e,
      e_host = e_host e, e_level = e_level e, e_message = e_message e, e_observed_at = observed, e_ingested_at = now,
      e_attributes = attrs\<rparr>"

fun entry_rows :: "pg \<Rightarrow> batch \<Rightarrow> time \<Rightarrow> int \<Rightarrow> entry list \<Rightarrow> entry list option" where
  "entry_rows pg b now i [] = Some []"
| "entry_rows pg b now i (e # es) =
     (case pg_attributes pg (e_attributes e) of
        None \<Rightarrow> None
      | Some a \<Rightarrow> (case entry_rows pg b now (i + 1) es of
                    None \<Rightarrow> None
                  | Some rs \<Rightarrow> Some (entry_row_of b now i e a (pg_time pg (e_observed_at e)) # rs)))"

definition batch_exists :: "db \<Rightarrow> uuid \<Rightarrow> uuid \<Rightarrow> bool" where
  "batch_exists d project i \<longleftrightarrow> (\<exists>r \<in> set (t_batches d). sb_project_id r = project \<and> sb_id r = i)"

definition entries_new :: "db \<Rightarrow> entry list \<Rightarrow> bool" where
  "entries_new d rs \<longleftrightarrow>
     list_all entry_row rs \<and>
     distinct (map (\<lambda>e. (e_project_id e, e_batch_id e, e_batch_sequence e)) (t_entries d @ rs)) \<and>
     list_all (\<lambda>e. batch_exists d (e_project_id e) (e_batch_id e) \<and>
                    pipeline_exists d (e_project_id e) (e_agent_id e) (e_pipeline_id e)) rs"

text \<open>The statement has eleven parameters per entry; the protocol has room for 65535.\<close>

definition insert_entries :: "pg \<Rightarrow> batch \<Rightarrow> unit sql" where
  "insert_entries pg b =
     andthen (check (domain_check (validate_batch b))) (\<lambda>_.
     stmt (\<lambda>s.
       if 65535 < 11 * length (b_entries b) then (Inl data_error, s)
       else (case entry_rows pg b (ps_now s) (ps_entry_seq s) (b_entries b) of
               None \<Rightarrow> (Inl data_error, s)
             | Some rs \<Rightarrow>
                 if \<not> list_all takes_entry rs then (Inl data_error, s)
                 else if \<not> entries_new (ps_db s) rs then (Inl Conflict, s)
                 else (Inr (), (upd_db (t_entries_update (\<lambda>es. es @ rs)) s)
                        \<lparr>ps_entry_seq := ps_entry_seq s + int (length rs)\<rparr>))))"

subsection \<open>Searching\<close>

text \<open>A text is the list of its characters, each with its bytes.\<close>

fun utf8_chars :: "string \<Rightarrow> string list" where
  "utf8_chars [] = []"
| "utf8_chars (c # s) =
     (case utf8_chars s of
        [] \<Rightarrow> [[c]]
      | w # ws \<Rightarrow> if cont_byte (byte_val (hd w)) then (c # w) # ws else [c] # w # ws)"

text \<open>\<open>LIKE pattern ESCAPE '\'\<close> on characters; \<open>ILIKE\<close> compares the lower-case forms.\<close>

fun like :: "string list \<Rightarrow> string list \<Rightarrow> bool" where
  "like [] t \<longleftrightarrow> t = []"
| "like (p # ps) [] \<longleftrightarrow> p = ''%'' \<and> like ps []"
| "like (p # ps) (c # t) \<longleftrightarrow>
     (if p = ''%'' then like ps (c # t) \<or> like (p # ps) t
      else if p = ''_'' then like ps t
      else if p = [CHR 0x5C] then (case ps of [] \<Rightarrow> False | q # qs \<Rightarrow> c = q \<and> like qs t)
      else c = p \<and> like ps t)"

text \<open>\<open>strings.NewReplacer\<close> with three one-byte patterns.\<close>

definition escape_char :: "char \<Rightarrow> string" where
  "escape_char c = (if c = CHR 0x5C \<or> c = CHR ''%'' \<or> c = CHR ''_'' then [CHR 0x5C, c] else [c])"

definition contains_pattern :: "string \<Rightarrow> string" where
  "contains_pattern v = ''%'' @ concat (map escape_char v) @ ''%''"

definition ilike :: "pg \<Rightarrow> string \<Rightarrow> string \<Rightarrow> bool" where
  "ilike pg pattern t = like (map (pg_fold pg) (utf8_chars pattern)) (map (pg_fold pg) (utf8_chars t))"

text \<open>The \<open>WHERE\<close> clause that \<open>buildEntryQuery\<close> writes.\<close>

definition in_filter :: "string list \<Rightarrow> string \<Rightarrow> bool" where
  "in_filter vs x \<longleftrightarrow> vs = [] \<or> x \<in> set vs"

definition before_cursor :: "pg \<Rightarrow> entry_cursor option \<Rightarrow> entry \<Rightarrow> bool" where
  "before_cursor pg c e =
     (case c of None \<Rightarrow> True | Some k \<Rightarrow> (e_observed_at e, e_id e) < (pg_time pg (ec_observed_at k), ec_id k))"

definition selected :: "pg \<Rightarrow> entry_query \<Rightarrow> entry \<Rightarrow> bool" where
  "selected pg q e \<longleftrightarrow>
     e_project_id e = pg_uuid (eq_project_id q) \<and> pg_time pg (eq_from q) \<le> e_observed_at e \<and>
     e_observed_at e < pg_time pg (eq_to q) \<and> in_filter (eq_services q) (e_service e) \<and> in_filter (eq_hosts q) (e_host e) \<and>
     in_filter (eq_levels q) (e_level e) \<and>
     (eq_message q \<noteq> [] \<longrightarrow> ilike pg (contains_pattern (eq_message q)) (e_message e)) \<and> before_cursor pg (eq_cursor q) e"

text \<open>\<open>ORDER BY observed_at DESC, id DESC LIMIT limit + 1\<close>.\<close>

definition newest_first :: "entry list \<Rightarrow> entry list" where
  "newest_first es = rev (sort_key (\<lambda>e. (e_observed_at e, e_id e)) es)"

definition select_entries :: "pg \<Rightarrow> entry_query \<Rightarrow> db \<Rightarrow> entry list" where
  "select_entries pg q d = limited (eq_limit q + 1) (newest_first (filter (selected pg q) (t_entries d)))"

definition cursor_of :: "entry \<Rightarrow> entry_cursor" where
  "cursor_of e = \<lparr>ec_observed_at = e_observed_at e, ec_id = e_id e\<rparr>"

definition page_of :: "int \<Rightarrow> entry list \<Rightarrow> entry_page" where
  "page_of limit es =
     (if limit < int (length es)
      then \<lparr>ep_entries = take (nat limit) es, ep_next = Some (cursor_of (last (take (nat limit) es)))\<rparr>
      else \<lparr>ep_entries = es, ep_next = None\<rparr>)"

definition entries_list :: "pg \<Rightarrow> entry_query \<Rightarrow> entry_page sql" where
  "entries_list pg q =
     andthen (check (domain_check (validate_query q 0 500))) (\<lambda>_.
     andthen (reading (select_entries pg q)) (\<lambda>es. ret (page_of (eq_limit q) es)))"

subsection \<open>Deleting\<close>

definition oldest_first :: "entry list \<Rightarrow> entry list" where
  "oldest_first es = sort_key (\<lambda>e. (e_ingested_at e, e_id e)) es"

definition delete_entries :: "(db \<Rightarrow> entry list) \<Rightarrow> int sql" where
  "delete_entries doomed =
     stmt (\<lambda>s. let ids = map e_id (doomed (ps_db s))
                in (Inr (int (length ids)), upd_db (t_entries_update (filter (\<lambda>e. e_id e \<notin> set ids))) s))"

definition delete_entries_before :: "pg \<Rightarrow> uuid \<Rightarrow> time \<Rightarrow> int \<Rightarrow> int sql" where
  "delete_entries_before pg project before limit =
     (if \<not> valid_uuid project \<or> is_zero before \<or> limit \<le> 0 \<or> limit > 10000
        then fail (Domain (ErrInvalid ''retention delete''))
      else delete_entries (\<lambda>d. limited limit (oldest_first
             (filter (\<lambda>e. e_project_id e = pg_uuid project \<and> e_ingested_at e < pg_time pg before) (t_entries d)))))"

definition project_size :: "pg \<Rightarrow> uuid \<Rightarrow> db \<Rightarrow> int" where
  "project_size pg project d = sum_list (map (pg_row_size pg) (filter (\<lambda>e. e_project_id e = pg_uuid project) (t_entries d)))"

definition delete_oldest_if_over_bytes :: "pg \<Rightarrow> uuid \<Rightarrow> int \<Rightarrow> int \<Rightarrow> int sql" where
  "delete_oldest_if_over_bytes pg project max_bytes limit =
     (if \<not> valid_uuid project \<or> max_bytes \<le> 0 \<or> limit \<le> 0 \<or> limit > 10000
        then fail (Domain (ErrInvalid ''retention byte limit''))
      else delete_entries (\<lambda>d. limited limit (oldest_first
             (filter (\<lambda>e. e_project_id e = pg_uuid project \<and> project_size pg project d > max_bytes) (t_entries d)))))"

section \<open>Usage\<close>

definition scan_usage :: "usage_bucket \<Rightarrow> server_error + usage_bucket" where
  "scan_usage u =
     (if \<not> valid_uuid (ub_project_id u) \<or> ub_entries u < 0 \<or> ub_bytes u < 0 \<or> ub_failed_batches u < 0
      then Inl CorruptRow else Inr u)"

definition bucket_at :: "uuid \<Rightarrow> time \<Rightarrow> usage_bucket \<Rightarrow> bool" where
  "bucket_at project start u \<longleftrightarrow> ub_project_id u = project \<and> ub_bucket_start u = start"

definition add_usage :: "int \<Rightarrow> int \<Rightarrow> int \<Rightarrow> usage_bucket \<Rightarrow> usage_bucket" where
  "add_usage entries n_bytes failed u =
     u\<lparr>ub_entries := ub_entries u + entries, ub_bytes := ub_bytes u + n_bytes, ub_failed_batches := ub_failed_batches u + failed\<rparr>"

definition usage_fits :: "usage_bucket \<Rightarrow> bool" where
  "usage_fits u \<longleftrightarrow> in_int64 (ub_entries u) \<and> in_int64 (ub_bytes u) \<and> in_int64 (ub_failed_batches u)"

text \<open>\<open>INSERT ... ON CONFLICT (project_id, bucket_start) DO UPDATE\<close>, adding to the counters.\<close>

definition upsert_usage :: "uuid \<Rightarrow> time \<Rightarrow> int \<Rightarrow> int \<Rightarrow> int \<Rightarrow> usage_bucket list sql" where
  "upsert_usage project start entries n_bytes failed s =
     (let hit = bucket_at project start;
          fresh = add_usage entries n_bytes failed
            \<lparr>ub_project_id = project, ub_bucket_start = start, ub_entries = 0, ub_bytes = 0, ub_failed_batches = 0\<rparr>
      in if \<not> usage_fits fresh then (Inl data_error, s)
         else if \<not> project_exists (ps_db s) project then (Inl Conflict, s)
         else (case filter hit (t_usage (ps_db s)) of
                 [] \<Rightarrow> (Inr [fresh], upd_db (t_usage_update (\<lambda>us. us @ [fresh])) s)
               | u # _ \<Rightarrow>
                   let u' = add_usage entries n_bytes failed u
                   in if \<not> usage_fits u' then (Inl data_error, s)
                      else (Inr [u'], upd_db (t_usage_update (map (\<lambda>x. if hit x then add_usage entries n_bytes failed x else x))) s)))"

definition usage_add :: "pg \<Rightarrow> uuid \<Rightarrow> time \<Rightarrow> int \<Rightarrow> int \<Rightarrow> int \<Rightarrow> usage_bucket sql" where
  "usage_add pg project instant entries n_bytes failed =
     (if \<not> valid_uuid project \<or> is_zero instant \<or> entries < 0 \<or> n_bytes < 0 \<or> failed < 0 \<or>
         (entries = 0 \<and> n_bytes = 0 \<and> failed = 0) then fail (Domain (ErrInvalid ''usage increment''))
      else andthen (stmt (upsert_usage (pg_uuid project) (pg_minute pg (pg_time pg instant)) entries n_bytes failed))
             (scan_first scan_usage))"

definition usage_list :: "pg \<Rightarrow> uuid \<Rightarrow> time \<Rightarrow> time \<Rightarrow> usage_bucket list sql" where
  "usage_list pg project from to =
     (if \<not> valid_uuid project \<or> is_zero from \<or> is_zero to \<or> \<not> from < to then fail (Domain (ErrInvalid ''usage query''))
      else query_rows (\<lambda>d. sort_key ub_bucket_start (filter (\<lambda>u. ub_project_id u = pg_uuid project \<and>
             pg_time pg from \<le> ub_bucket_start u \<and> ub_bucket_start u < pg_time pg to) (t_usage d))) scan_usage)"

section \<open>Quarantine\<close>

definition takes_quarantine :: "quarantine_batch \<Rightarrow> bool" where
  "takes_quarantine q \<longleftrightarrow>
     valid_uuid (qb_id q) \<and> valid_uuid (qb_project_id q) \<and> valid_uuid (qb_batch_id q) \<and>
     pg_text (qb_error_code q) \<and> pg_text (qb_error_detail q) \<and> in_int4 (qb_attempts q)"

definition quarantine_row :: "quarantine_batch \<Rightarrow> bool" where
  "quarantine_row q \<longleftrightarrow>
     qb_payload q \<noteq> [] \<and> length (qb_payload_hash q) = 32 \<and> 0 \<le> qb_attempts q \<and>
     ((qb_status q = ''pending'' \<and> qb_claimed_at q = None \<and> qb_resolved_at q = None) \<or>
      (qb_status q = ''replaying'' \<and> qb_claimed_at q \<noteq> None \<and> qb_resolved_at q = None) \<or>
      (qb_status q \<in> {''resolved'', ''discarded''} \<and> qb_resolved_at q \<noteq> None))"

definition quarantine_new :: "db \<Rightarrow> quarantine_batch \<Rightarrow> bool" where
  "quarantine_new d q \<longleftrightarrow>
     quarantine_row q \<and> project_exists d (qb_project_id q) \<and>
     (\<forall>r \<in> set (t_quarantine d). qb_id r \<noteq> qb_id q \<and> (qb_project_id r, qb_batch_id r) \<noteq> (qb_project_id q, qb_batch_id q))"

definition scan_quarantine :: "quarantine_batch \<Rightarrow> server_error + quarantine_batch" where
  "scan_quarantine q =
     (if length (qb_payload_hash q) \<noteq> 32 \<or> qb_status q \<notin> set quarantine_statuses then Inl CorruptRow else Inr q)"

definition quarantine_at :: "uuid \<Rightarrow> uuid \<Rightarrow> quarantine_batch \<Rightarrow> bool" where
  "quarantine_at project i q \<longleftrightarrow> qb_project_id q = pg_uuid project \<and> qb_id q = pg_uuid i"

definition update_quarantine ::
  "(quarantine_batch \<Rightarrow> bool) \<Rightarrow> (time \<Rightarrow> quarantine_batch \<Rightarrow> quarantine_batch) \<Rightarrow> quarantine_batch list sql" where
  "update_quarantine = update_returning t_quarantine t_quarantine_update takes_quarantine quarantine_row"

definition quarantine_find_project :: "uuid \<Rightarrow> uuid sql" where
  "quarantine_find_project i =
     (if \<not> valid_uuid i then fail (Domain (ErrInvalid ''quarantine identity''))
      else query_row (\<lambda>d. map qb_project_id (filter (\<lambda>q. qb_id q = pg_uuid i) (t_quarantine d)))
             (\<lambda>p. if \<not> valid_uuid p then Inl CorruptRow else Inr p))"

definition quarantine_get :: "uuid \<Rightarrow> uuid \<Rightarrow> quarantine_batch sql" where
  "quarantine_get project i =
     (if \<not> valid_uuid project \<or> \<not> valid_uuid i then fail (Domain (ErrInvalid ''quarantine identity''))
      else query_row (\<lambda>d. filter (quarantine_at project i) (t_quarantine d)) scan_quarantine)"

definition quarantine_list :: "uuid \<Rightarrow> int \<Rightarrow> quarantine_batch list sql" where
  "quarantine_list project limit =
     (if \<not> valid_uuid project \<or> limit \<le> 0 \<or> limit > 1000 then fail (Domain (ErrInvalid ''quarantine list''))
      else query_rows (\<lambda>d. limited limit (rev (sort_key (\<lambda>q. (qb_created_at q, qb_id q))
             (filter (\<lambda>q. qb_project_id q = pg_uuid project) (t_quarantine d))))) scan_quarantine)"

definition claim_row :: "time \<Rightarrow> quarantine_batch \<Rightarrow> quarantine_batch" where
  "claim_row now q =
     q\<lparr>qb_status := ''replaying'', qb_attempts := qb_attempts q + 1, qb_claimed_at := Some now, qb_resolved_at := None\<rparr>"

definition quarantine_claim :: "uuid \<Rightarrow> uuid \<Rightarrow> quarantine_batch sql" where
  "quarantine_claim project i =
     (if \<not> valid_uuid project \<or> \<not> valid_uuid i then fail (Domain (ErrInvalid ''quarantine identity''))
      else andthen (update_quarantine (\<lambda>q. quarantine_at project i q \<and> qb_status q = ''pending'') claim_row)
             (scan_first scan_quarantine))"

definition quarantine_create :: "quarantine_batch \<Rightarrow> int \<Rightarrow> quarantine_batch sql" where
  "quarantine_create q max_payload =
     (if \<not> valid_uuid (qb_id q) \<or> \<not> valid_uuid (qb_project_id q) \<or> \<not> valid_uuid (qb_batch_id q) \<or> qb_payload q = [] \<or>
         max_payload \<le> 0 \<or> int (length (qb_payload q)) > max_payload \<or> qb_error_code q = []
        then fail (Domain (ErrInvalid ''quarantine batch''))
      else andthen (insert_returning t_quarantine_update takes_quarantine quarantine_new
             (\<lambda>now. q\<lparr>qb_id := pg_uuid (qb_id q), qb_project_id := pg_uuid (qb_project_id q), qb_batch_id := pg_uuid (qb_batch_id q),
                      qb_status := ''pending'', qb_attempts := 0, qb_created_at := now, qb_claimed_at := None,
                      qb_resolved_at := None\<rparr>)) (\<lambda>r. lift (scan_quarantine r)))"

text \<open>\<open>picked\<close>: the pending rows that no other transaction has locked, of which \<open>ClaimPending\<close> takes the oldest.\<close>

definition quarantine_claim_pending :: "(quarantine_batch \<Rightarrow> bool) \<Rightarrow> int \<Rightarrow> quarantine_batch list sql" where
  "quarantine_claim_pending unlocked limit =
     (if limit \<le> 0 \<or> limit > 100 then fail (Domain (ErrInvalid ''quarantine claim limit''))
      else andthen (stmt (\<lambda>s.
        let picked = map qb_id (limited limit (sort_key (\<lambda>q. (qb_created_at q, qb_id q))
              (filter (\<lambda>q. qb_status q = ''pending'' \<and> unlocked q) (t_quarantine (ps_db s)))))
        in update_rows t_quarantine t_quarantine_update takes_quarantine quarantine_row
             (\<lambda>q. qb_id q \<in> set picked) claim_row s))
        (\<lambda>rs. lift (scan_rows scan_quarantine rs)))"

definition quarantine_mark_terminal :: "pg \<Rightarrow> uuid \<Rightarrow> uuid \<Rightarrow> string \<Rightarrow> string \<Rightarrow> time \<Rightarrow> unit sql" where
  "quarantine_mark_terminal pg project i status detail resolved_at =
     (if status \<noteq> ''resolved'' \<and> status \<noteq> ''discarded'' then fail (Domain (ErrInvalid ''quarantine terminal status''))
      else andthen (update_quarantine (\<lambda>q. quarantine_at project i q \<and> qb_status q = ''replaying'')
             (\<lambda>_ q. q\<lparr>qb_status := status, qb_error_detail := detail, qb_resolved_at := Some (pg_time pg resolved_at)\<rparr>))
           (\<lambda>rs. require_affected (int (length rs))))"

definition release_row :: "string \<Rightarrow> quarantine_batch \<Rightarrow> quarantine_batch" where
  "release_row detail q = q\<lparr>qb_status := ''pending'', qb_claimed_at := None, qb_resolved_at := None, qb_error_detail := detail\<rparr>"

definition quarantine_release_for_retry :: "uuid \<Rightarrow> uuid \<Rightarrow> string \<Rightarrow> unit sql" where
  "quarantine_release_for_retry project i detail =
     andthen (update_quarantine (\<lambda>q. quarantine_at project i q \<and> qb_status q = ''replaying'') (\<lambda>_. release_row detail))
       (\<lambda>rs. require_affected (int (length rs)))"

definition expired_claims :: "time \<Rightarrow> int \<Rightarrow> db \<Rightarrow> uuid list" where
  "expired_claims claimed_before limit d =
     map qb_id (limited limit (sort_key (\<lambda>q. (the (qb_claimed_at q), qb_id q))
       (filter (\<lambda>q. qb_status q = ''replaying'' \<and> (case qb_claimed_at q of None \<Rightarrow> False | Some t \<Rightarrow> t < claimed_before))
         (t_quarantine d))))"

definition quarantine_requeue_expired :: "pg \<Rightarrow> time \<Rightarrow> int \<Rightarrow> int sql" where
  "quarantine_requeue_expired pg claimed_before limit =
     (if limit \<le> 0 then fail (Domain (ErrInvalid ''quarantine recovery limit''))
      else stmt (\<lambda>s. let ids = expired_claims (pg_time pg claimed_before) limit (ps_db s)
                     in (Inr (int (length ids)),
                         upd_db (t_quarantine_update (map (\<lambda>q. if qb_id q \<in> set ids
                           then release_row ''replay lease expired'' q else q))) s)))"

end
