(* ===== verification/Ingest_Service.thy ===== *)
theory Ingest_Service
  imports Store_Logs Server_Auth Server_Admission
begin

text \<open>
  The ingest service (\<open>internal/server/ingest/service.go\<close>): \<open>Accept\<close> authorizes a batch, asks the admission
  limiter for capacity and writes the batch, its entries and the usage in one transaction; a batch that is
  stored already is a duplicate. The clock values of a call are its arguments: when capacity is asked for,
  the time of the commit, and when the reservation is finished.
\<close>

section \<open>Accept\<close>

datatype accept_status = Accepted | Duplicate

record ingest_result =
  ir_batch_id :: uuid
  ir_status :: accept_status
  ir_accepted :: int

fun bind_project :: "uuid \<Rightarrow> entry list \<Rightarrow> server_error + entry list" where
  "bind_project project [] = Inr []"
| "bind_project project (e # es) =
     (if e_project_id e \<noteq> [] \<and> e_project_id e \<noteq> project then Inl ProjectMismatch
      else (case bind_project project es of
              Inl err \<Rightarrow> Inl err
            | Inr es' \<Rightarrow> Inr (e\<lparr>e_project_id := project\<rparr> # es')))"

definition prepare_batch :: "principal \<Rightarrow> batch \<Rightarrow> server_error + batch" where
  "prepare_batch p candidate =
     (case require_scope p ''ingest'' of
        Some e \<Rightarrow> Inl e
      | None \<Rightarrow>
          if b_project_id candidate \<noteq> [] \<and> b_project_id candidate \<noteq> pr_project_id p then Inl ProjectMismatch
          else (case require_agent p (b_agent_id candidate) of
                  Some e \<Rightarrow> Inl e
                | None \<Rightarrow>
                    (case bind_project (pr_project_id p) (b_entries candidate) of
                       Inl e \<Rightarrow> Inl e
                     | Inr es \<Rightarrow>
                         let b = candidate\<lparr>b_project_id := pr_project_id p, b_entries := es\<rparr>
                         in if b_payload_hash b = replicate 32 (CHR 0x00)
                              then Inl (Domain (ErrInvalid ''empty payload hash''))
                            else (case validate_batch b of Some e \<Rightarrow> Inl (Domain e) | None \<Rightarrow> Inr b))))"

text \<open>The body of the transaction.\<close>

definition store_batch :: "pg \<Rightarrow> batch \<Rightarrow> time \<Rightarrow> ingest_result sql" where
  "store_batch pg b committed_at =
     andthen (insert_batch pg b committed_at) (\<lambda>inserted.
     if \<not> inserted then
       andthen (find_batch (b_project_id b) (b_id b)) (\<lambda>stored.
       andthen (check (domain_check (verify_retry stored b))) (\<lambda>_.
       ret \<lparr>ir_batch_id = b_id b, ir_status = Duplicate, ir_accepted = sb_entry_count stored\<rparr>))
     else
       andthen (insert_entries pg b) (\<lambda>_.
       andthen (usage_add pg (b_project_id b) committed_at (int (length (b_entries b))) (b_payload_bytes b) 0) (\<lambda>_.
       ret \<lparr>ir_batch_id = b_id b, ir_status = Accepted, ir_accepted = int (length (b_entries b))\<rparr>)))"

definition accept_body :: "pg \<Rightarrow> principal \<Rightarrow> batch \<Rightarrow> time \<Rightarrow> ingest_result sql" where
  "accept_body pg p b committed_at =
     andthen (projects_get (pr_project_id p)) (\<lambda>project.
     andthen (check (domain_check (can_ingest project))) (\<lambda>_.
     andthen (agents_get pg (pr_project_id p) (b_agent_id b)) (\<lambda>agent.
     if ag_status agent = ''disabled'' then fail AgentIsDisabled
     else andthen (pipelines_get (pr_project_id p) (b_pipeline_id b)) (\<lambda>pipeline.
     if pl_agent_id pipeline \<noteq> b_agent_id b then fail (Domain (ErrInvalid ''pipeline agent''))
     else if pl_status pipeline \<noteq> ''enabled'' \<and> pl_status pipeline \<noteq> ''paused'' then fail PipelineUnavailable
     else store_batch pg b committed_at))))"

record accept_call =
  ac_ctx_err :: "driver_error option"
  ac_asked_at :: time
  ac_committed_at :: time
  ac_finished_at :: time

text \<open>The deferred \<open>Release\<close> after a \<open>Commit\<close> does nothing, so the reservation is finished once.\<close>

definition accept ::
  "pg \<Rightarrow> principal \<Rightarrow> batch \<Rightarrow> accept_call \<Rightarrow> (limiter option \<times> pgstate, ingest_result) act" where
  "accept pg p candidate c st =
     (case prepare_batch p candidate of
        Inl e \<Rightarrow> (Inl e, st)
      | Inr b \<Rightarrow>
          (case fst st of
             None \<Rightarrow>
               let (r, s) = within_tx (accept_body pg p b (ac_committed_at c)) (snd st) in (r, (None, s))
           | Some l \<Rightarrow>
               (case allow_ingest (ac_ctx_err c) (pr_key_id p) (pr_project_id p) (int (length (b_entries b)))
                       (b_payload_bytes b) (ac_asked_at c) l of
                  (Inl e, l1) \<Rightarrow> (Inl e, (Some l1, snd st))
                | (Inr rv, l1) \<Rightarrow>
                    let (r, s) = within_tx (accept_body pg p b (ac_committed_at c)) (snd st);
                        refund = (case r of Inl _ \<Rightarrow> True | Inr res \<Rightarrow> ir_status res \<noteq> Accepted)
                    in (r, (Some (finish rv refund (ac_finished_at c) l1), s)))))"

section \<open>Effects of the steps\<close>

lemma bind_project_Inr:
  "bind_project project es = Inr es' \<Longrightarrow> es' = map (e_project_id_update (\<lambda>_. project)) es"
  by (induction es arbitrary: es') (auto split: if_splits sum.splits)

lemma prepare_batch_Inr:
  assumes "prepare_batch p candidate = Inr b"
  shows "principal_valid p" "''ingest'' \<in> pr_scopes p" "b_project_id b = pr_project_id p" "validate_batch b = None"
    "b_id b = b_id candidate" "b_payload_hash b = b_payload_hash candidate" "b_agent_id b = b_agent_id candidate"
    "length (b_entries b) = length (b_entries candidate)" "b_pipeline_id b = b_pipeline_id candidate"
    "b_payload_bytes b = b_payload_bytes candidate"
  using assms
  by (auto simp: prepare_batch_def Let_def require_scope_None_iff dest!: bind_project_Inr split: option.splits if_splits sum.splits)

lemma insert_batch_True:
  assumes "insert_batch pg b t s = (Inr True, s')"
  shows "ps_db s' = t_batches_update (\<lambda>rs. rs @ [batch_of pg b t]) (ps_db s)" "ps_now s' = ps_now s"
    "\<forall>q \<in> set (t_batches (ps_db s)). \<not> batch_at (b_project_id b) (b_id b) q" "batch_row (batch_of pg b t)"
    "project_exists (ps_db s) (pg_uuid (b_project_id b))" "validate_batch b = None"
    "pipeline_exists (ps_db s) (pg_uuid (b_project_id b)) (pg_uuid (b_agent_id b)) (pg_uuid (b_pipeline_id b))"
  using assms
  by (auto simp: insert_batch_def act_cases Let_def domain_check_def batch_of_def dest!: stmt_Inr split: if_splits)

lemma insert_batch_False:
  assumes "insert_batch pg b t s = (Inr False, s')"
  shows "ps_db s' = ps_db s"
  using assms by (auto simp: insert_batch_def act_cases Let_def dest!: stmt_Inr split: if_splits)

lemma insert_entries_Inr:
  assumes "insert_entries pg b s = (Inr u, s')"
  obtains rs where "entry_rows pg b (ps_now s) (ps_entry_seq s) (b_entries b) = Some rs" "entries_new (ps_db s) rs"
    "ps_db s' = t_entries_update (\<lambda>es. es @ rs) (ps_db s)" "ps_now s' = ps_now s"
    "ps_entry_seq s' = ps_entry_seq s + int (length rs)"
  using assms
  by (auto simp: insert_entries_def act_cases Let_def dest!: stmt_Inr split: if_splits option.splits)

lemma upsert_usage_Inr:
  "upsert_usage project start n m k s = (Inr us, s') \<Longrightarrow> \<exists>f. s' = upd_db (t_usage_update f) s"
  by (auto simp: upsert_usage_def Let_def split: if_splits list.splits)

lemma usage_add_Inr:
  assumes "usage_add pg project t n m k s = (Inr u, s')"
  shows "\<exists>f. ps_db s' = t_usage_update f (ps_db s)"
proof -
  from assms obtain us s1 where
    u: "stmt (upsert_usage (pg_uuid project) (pg_minute pg (pg_time pg t)) n m k) s = (Inr us, s1)"
    and c: "scan_first scan_usage us s1 = (Inr u, s')"
    by (auto simp: usage_add_def act_cases split: if_splits)
  from scan_first_Inr [OF c] have "s' = s1" by blast
  moreover from stmt_Inr [OF u] obtain os f where "s1 = upd_db (t_usage_update f) (s\<lparr>ps_outcomes := os\<rparr>)"
    using upsert_usage_Inr by blast
  ultimately show ?thesis by (intro exI [of _ f]) simp
qed

text \<open>
  What storing a new batch does to the tables: one committed row, one row per entry in the order of the
  batch, and the usage of the project.
\<close>

definition stores_batch :: "pg \<Rightarrow> batch \<Rightarrow> db \<Rightarrow> db \<Rightarrow> bool" where
  "stores_batch pg b d d' \<longleftrightarrow>
     (\<forall>q \<in> set (t_batches d). \<not> batch_at (b_project_id b) (b_id b) q) \<and>
     (\<exists>t now i rs f. batch_row (batch_of pg b t) \<and> validate_batch b = None \<and>
        entry_rows pg b now i (b_entries b) = Some rs \<and>
        entries_new (t_batches_update (\<lambda>q. q @ [batch_of pg b t]) d) rs \<and>
        d' = t_usage_update f (t_entries_update (\<lambda>es. es @ rs) (t_batches_update (\<lambda>q. q @ [batch_of pg b t]) d)))"

text \<open>A body that returns: the batch was stored before with the same payload, or is stored now.\<close>

definition already_stored :: "batch \<Rightarrow> int \<Rightarrow> db \<Rightarrow> bool" where
  "already_stored b n d \<longleftrightarrow>
     (\<exists>r \<in> set (t_batches d). batch_at (b_project_id b) (b_id b) r \<and> sb_status r = ''committed'' \<and>
        sb_payload_hash r = b_payload_hash b \<and> sb_entry_count r = n)"

lemma store_batch_Inr:
  assumes "store_batch pg b t s = (Inr res, s')"
  shows "(ir_status res = Duplicate \<and> ps_db s' = ps_db s \<and> already_stored b (ir_accepted res) (ps_db s)) \<or>
         (ir_status res = Accepted \<and> ir_accepted res = int (length (b_entries b)) \<and> stores_batch pg b (ps_db s) (ps_db s'))"
proof -
  from assms obtain inserted s1 where ins: "insert_batch pg b t s = (Inr inserted, s1)"
    by (auto simp: store_batch_def act_cases)
  show ?thesis
  proof (cases inserted)
    case False
    with assms ins obtain stored s2 where f: "find_batch (b_project_id b) (b_id b) s1 = (Inr stored, s2)"
      and v: "verify_retry stored b = None" "s' = s2"
      and res: "ir_status res = Duplicate" "ir_accepted res = sb_entry_count stored"
      by (auto simp: store_batch_def act_cases domain_check_def)
    from ins False have i: "insert_batch pg b t s = (Inr False, s1)" by simp
    note d = insert_batch_False [OF i]
    from query_row_Inr [OF f [unfolded find_batch_def]] obtain r rs where
      r: "filter (batch_at (b_project_id b) (b_id b)) (t_batches (ps_db s1)) = r # rs" "scan_stored_batch r = Inr stored"
        "ps_db s2 = ps_db s1" by blast
    from r(2) have "stored = r" by (auto simp: scan_stored_batch_def split: if_splits)
    moreover have "r \<in> set (filter (batch_at (b_project_id b) (b_id b)) (t_batches (ps_db s1)))" unfolding r(1) by simp
    ultimately show ?thesis using v r(3) res d by (auto simp: verify_retry_def already_stored_def split: if_splits)
  next
    case True
    with ins have i: "insert_batch pg b t s = (Inr True, s1)" by simp
    note ib = insert_batch_True [OF i]
    from assms ins True obtain u s2 w s3 where e: "insert_entries pg b s1 = (Inr u, s2)"
      and us: "usage_add pg (b_project_id b) t (int (length (b_entries b))) (b_payload_bytes b) 0 s2 = (Inr w, s')"
      and res: "ir_status res = Accepted" "ir_accepted res = int (length (b_entries b))"
      by (auto simp: store_batch_def act_cases)
    from e obtain rs where rs: "entry_rows pg b (ps_now s1) (ps_entry_seq s1) (b_entries b) = Some rs"
      "entries_new (ps_db s1) rs" "ps_db s2 = t_entries_update (\<lambda>es. es @ rs) (ps_db s1)"
      by (rule insert_entries_Inr)
    from usage_add_Inr [OF us] obtain f where "ps_db s' = t_usage_update f (ps_db s2)" by blast
    with rs(3) ib(1) have d': "ps_db s' = t_usage_update f (t_entries_update (\<lambda>es. es @ rs)
      (t_batches_update (\<lambda>q. q @ [batch_of pg b t]) (ps_db s)))" by simp
    have "stores_batch pg b (ps_db s) (ps_db s')"
      unfolding stores_batch_def d'
      using ib(3,4,6) rs(1,2) ib(1)
      by (intro conjI exI [of _ t] exI [of _ "ps_now s1"] exI [of _ "ps_entry_seq s1"] exI [of _ rs] exI [of _ f]) simp_all
    with res show ?thesis by blast
  qed
qed

text \<open>The checks before it change nothing.\<close>

lemma accept_body_Inr:
  assumes "accept_body pg p b t s = (Inr res, s')"
  obtains s1 project agent pipeline where "store_batch pg b t s1 = (Inr res, s')" "ps_db s1 = ps_db s" "ps_now s1 = ps_now s"
    "project \<in> set (t_projects (ps_db s))" "pj_id project = pg_uuid (pr_project_id p)" "pj_status project = ''active''"
    "agent \<in> set (t_agents (ps_db s))" "ag_project_id agent = pg_uuid (pr_project_id p)" "ag_id agent = pg_uuid (b_agent_id b)"
    "ag_status agent \<noteq> ''disabled''"
    "pipeline \<in> set (t_pipelines (ps_db s))" "pipeline_at (pr_project_id p) (b_pipeline_id b) pipeline"
    "pl_agent_id pipeline = b_agent_id b" "pl_status pipeline \<in> {''enabled'', ''paused''}"
proof -
  from assms obtain project s1 agent s2 pipeline s3 where
    pj: "projects_get (pr_project_id p) s = (Inr project, s1)" "can_ingest project = None" and
    ag: "agents_get pg (pr_project_id p) (b_agent_id b) s1 = (Inr agent, s2)" "ag_status agent \<noteq> ''disabled''" and
    pl: "pipelines_get (pr_project_id p) (b_pipeline_id b) s2 = (Inr pipeline, s3)" "pl_agent_id pipeline = b_agent_id b"
      "pl_status pipeline \<in> {''enabled'', ''paused''}" and
    st: "store_batch pg b t s3 = (Inr res, s')"
    by (auto simp: accept_body_def act_cases domain_check_def split: if_splits)
  from pj(1) have "query_row (\<lambda>d. filter (\<lambda>x. pj_id x = pg_uuid (pr_project_id p)) (t_projects d)) scan_project s = (Inr project, s1)"
    by (auto simp: projects_get_def act_cases)
  from query_row_Inr [OF this] obtain r1 q1 where
    1: "filter (\<lambda>x. pj_id x = pg_uuid (pr_project_id p)) (t_projects (ps_db s)) = r1 # q1" "scan_project r1 = Inr project"
      "ps_db s1 = ps_db s" "ps_now s1 = ps_now s" by blast
  from query_row_Inr [OF ag(1) [unfolded agents_get_def]] obtain r2 q2 where
    2: "filter (\<lambda>a. ag_project_id a = pg_uuid (pr_project_id p) \<and> ag_id a = pg_uuid (b_agent_id b)) (t_agents (ps_db s1)) = r2 # q2"
      "scan_agent pg r2 = Inr agent" "ps_db s2 = ps_db s1" "ps_now s2 = ps_now s1" by blast
  from query_row_Inr [OF pl(1) [unfolded pipelines_get_def]] obtain r3 q3 where
    3: "filter (pipeline_at (pr_project_id p) (b_pipeline_id b)) (t_pipelines (ps_db s2)) = r3 # q3"
      "scan_pipeline r3 = Inr pipeline" "ps_db s3 = ps_db s2" "ps_now s3 = ps_now s2" by blast
  have e: "project = r1" "pipeline = r3"
    using 1(2) 3(2) by (auto simp: scan_project_def scan_pipeline_def split: option.splits)
  have a: "ag_status r2 = ag_status agent"
    using 2(2) by (auto simp: scan_agent_def Let_def split: if_splits option.splits)
  have m: "r1 \<in> set (filter (\<lambda>x. pj_id x = pg_uuid (pr_project_id p)) (t_projects (ps_db s)))"
    "r2 \<in> set (filter (\<lambda>a. ag_project_id a = pg_uuid (pr_project_id p) \<and> ag_id a = pg_uuid (b_agent_id b)) (t_agents (ps_db s1)))"
    "r3 \<in> set (filter (pipeline_at (pr_project_id p) (b_pipeline_id b)) (t_pipelines (ps_db s2)))"
    unfolding 1(1) 2(1) 3(1) by simp_all
  have act: "pj_status r1 = ''active''" using pj(2) e(1) by (simp add: can_ingest_def split: if_splits)
  show thesis
  proof (rule that [of s3 r1 r2 r3])
    show "pl_agent_id r3 = b_agent_id b" "pl_status r3 \<in> {''enabled'', ''paused''}" using pl(2,3) e(2) by simp_all
    show "ag_status r2 \<noteq> ''disabled''" using a ag(2) by simp
  qed (use st 1(3,4) 2(3,4) 3(3,4) m act in simp_all)
qed

text \<open>How a call of \<open>Accept\<close> ends.\<close>

lemma accept_cases:
  assumes "accept pg p candidate c st = (r, st')"
  obtains (refused) e where "r = Inl e" "ps_db (snd st') = ps_db (snd st)"
    | (lost) e b where "r = Inl (Driver e)" "prepare_batch p candidate = Inr b" "stores_batch pg b (ps_db (snd st)) (ps_db (snd st'))"
    | (duplicate) res b where "r = Inr res" "prepare_batch p candidate = Inr b" "ir_status res = Duplicate"
        "ps_db (snd st') = ps_db (snd st)" "already_stored b (ir_accepted res) (ps_db (snd st))"
    | (accepted) res b where "r = Inr res" "prepare_batch p candidate = Inr b" "ir_status res = Accepted"
        "ir_accepted res = int (length (b_entries b))" "stores_batch pg b (ps_db (snd st)) (ps_db (snd st'))"
proof (cases "prepare_batch p candidate")
  case (Inl e)
  with assms refused show thesis by (auto simp: accept_def)
next
  case (Inr b)
  consider (lim) e l1 where "r = Inl e" "st' = (Some l1, snd st)"
    | (tx) s1 where "within_tx (accept_body pg p b (ac_committed_at c)) (snd st) = (r, s1)" "snd st' = s1"
    using assms Inr by (auto simp: accept_def Let_def split: option.splits prod.splits sum.splits)
  then show thesis
  proof cases
    case lim
    with refused show thesis by simp
  next
    case tx
    from tx(1) show thesis
    proof (cases rule: within_tx_cases)
      case (failed e)
      with tx(2) refused show thesis by simp
    next
      case (lost e s s' res)
      from lost(3) obtain s2 where s2: "store_batch pg b (ac_committed_at c) s2 = (Inr res, s')" "ps_db s2 = ps_db s"
        by (rule accept_body_Inr)
      from store_batch_Inr [OF s2(1)] show thesis
      proof
        assume "ir_status res = Duplicate \<and> ps_db s' = ps_db s2 \<and> already_stored b (ir_accepted res) (ps_db s2)"
        with lost(1,2,4) s2(2) tx(2) show thesis by (intro refused [of "Driver e"]) simp_all
      next
        assume "ir_status res = Accepted \<and> ir_accepted res = int (length (b_entries b)) \<and> stores_batch pg b (ps_db s2) (ps_db s')"
        with lost(1,2,4) s2(2) tx(2) Inr show thesis by (intro that(2) [of e b]) simp_all
      qed
    next
      case (committed s s' res)
      from committed(3) obtain s2 where s2: "store_batch pg b (ac_committed_at c) s2 = (Inr res, s')" "ps_db s2 = ps_db s"
        by (rule accept_body_Inr)
      from store_batch_Inr [OF s2(1)] committed(1,2,4) s2(2) tx(2) Inr show thesis
        using duplicate accepted by (elim disjE) auto
    qed
  qed
qed

section \<open>What is stored\<close>

definition batch_key :: "stored_batch \<Rightarrow> uuid \<times> uuid" where
  "batch_key r = (sb_project_id r, sb_id r)"

definition entry_key :: "entry \<Rightarrow> uuid \<times> uuid" where
  "entry_key e = (e_project_id e, e_batch_id e)"

definition entries_of :: "db \<Rightarrow> stored_batch \<Rightarrow> entry list" where
  "entries_of d r = filter (\<lambda>e. entry_key e = batch_key r) (t_entries d)"

text \<open>Every batch is stored once; every entry belongs to a stored batch.\<close>

definition batches_ok :: "db \<Rightarrow> bool" where
  "batches_ok d \<longleftrightarrow>
     distinct (map batch_key (t_batches d)) \<and> (\<forall>r \<in> set (t_batches d). batch_row r) \<and>
     (\<forall>e \<in> set (t_entries d). entry_key e \<in> batch_key ` set (t_batches d))"

text \<open>Every stored batch has all its entries, in the order in which they were sent.\<close>

definition batches_complete :: "db \<Rightarrow> bool" where
  "batches_complete d \<longleftrightarrow>
     (\<forall>r \<in> set (t_batches d). map e_batch_sequence (entries_of d r) = map int [0..<nat (sb_entry_count r)])"

lemma batch_at_key: "batch_at project i r \<longleftrightarrow> batch_key r = (pg_uuid project, pg_uuid i)"
  by (auto simp: batch_at_def batch_key_def)

lemma batch_of_key [simp]: "batch_key (batch_of pg b t) = (pg_uuid (b_project_id b), pg_uuid (b_id b))"
  by (simp add: batch_key_def batch_of_def)

lemma entry_rows_facts:
  "entry_rows pg b now i es = Some rs \<Longrightarrow>
     map e_batch_sequence rs = map e_batch_sequence es \<and> length rs = length es \<and>
     (\<forall>e \<in> set rs. entry_key e = (pg_uuid (b_project_id b), pg_uuid (b_id b)))"
  by (induction es arbitrary: i rs) (auto simp: entry_row_of_def entry_key_def split: option.splits)

lemma validate_batch_sequences:
  assumes "validate_batch b = None"
  shows "map e_batch_sequence (b_entries b) = map int [0..<length (b_entries b)]"
  using assms
  by (intro nth_equalityI) (auto simp: validate_batch_def validate_entries_None_iff split: if_splits)

lemma stores_batch_ok:
  assumes "stores_batch pg b d d'"
  shows "batches_ok d \<Longrightarrow> batches_ok d'" "batches_ok d \<Longrightarrow> batches_complete d \<Longrightarrow> batches_complete d'"
proof -
  let ?k = "(pg_uuid (b_project_id b), pg_uuid (b_id b))"
  from assms obtain t now i rs f where
    new: "\<forall>q \<in> set (t_batches d). batch_key q \<noteq> ?k" and row: "batch_row (batch_of pg b t)" and v: "validate_batch b = None" and
    rs: "entry_rows pg b now i (b_entries b) = Some rs" and
    d': "d' = t_usage_update f (t_entries_update (\<lambda>es. es @ rs) (t_batches_update (\<lambda>q. q @ [batch_of pg b t]) d))"
    unfolding stores_batch_def batch_at_key by blast
  note rf = entry_rows_facts [OF rs]
  have tb: "t_batches d' = t_batches d @ [batch_of pg b t]" "t_entries d' = t_entries d @ rs" by (simp_all add: d')
  show "batches_ok d'" if "batches_ok d"
    using that new row rf by (force simp: batches_ok_def tb)
  show "batches_complete d'" if ok: "batches_ok d" and c: "batches_complete d"
    unfolding batches_complete_def
  proof
    fix r assume r: "r \<in> set (t_batches d')"
    show "map e_batch_sequence (entries_of d' r) = map int [0..<nat (sb_entry_count r)]"
    proof (cases "r \<in> set (t_batches d)")
      case True
      then have "entries_of d' r = entries_of d r" using new rf by (auto simp: entries_of_def tb filter_empty_conv)
      with c True show ?thesis by (simp add: batches_complete_def)
    next
      case False
      with r have e: "r = batch_of pg b t" by (simp add: tb)
      have "filter (\<lambda>e. entry_key e = ?k) (t_entries d) = []"
        using ok new by (auto simp: batches_ok_def filter_empty_conv)
      moreover have "filter (\<lambda>e. entry_key e = ?k) rs = rs" using rf by simp
      ultimately have "entries_of d' r = rs" by (simp add: entries_of_def tb e)
      then show ?thesis using rf validate_batch_sequences [OF v] by (simp add: e batch_of_def)
    qed
  qed
qed

lemma stores_batch_mono: "stores_batch pg b d d' \<Longrightarrow> set (t_batches d) \<subseteq> set (t_batches d')"
  by (auto simp: stores_batch_def)

lemma stores_batch_stored: "stores_batch pg b d d' \<Longrightarrow> already_stored b (int (length (b_entries b))) d'"
  by (auto simp: stores_batch_def already_stored_def batch_at_def batch_of_def)

section \<open>Runs\<close>

text \<open>
  Calls one after the other, each in its own transaction at its own time; the outcomes of the statements and
  commits are those that the state prescribes.
\<close>

record ingest_event =
  ie_principal :: principal
  ie_batch :: batch
  ie_call :: accept_call
  ie_now :: time

definition run_accept ::
  "pg \<Rightarrow> ingest_event \<Rightarrow> limiter option \<times> pgstate \<Rightarrow> (server_error + ingest_result) \<times> (limiter option \<times> pgstate)" where
  "run_accept pg ev st = accept pg (ie_principal ev) (ie_batch ev) (ie_call ev) (fst st, (snd st)\<lparr>ps_now := ie_now ev\<rparr>)"

fun ingest_run ::
  "pg \<Rightarrow> ingest_event list \<Rightarrow> limiter option \<times> pgstate \<Rightarrow> (server_error + ingest_result) list \<times> (limiter option \<times> pgstate)" where
  "ingest_run pg [] st = ([], st)"
| "ingest_run pg (ev # evs) st =
     (let (r, st1) = run_accept pg ev st; (rs, st2) = ingest_run pg evs st1 in (r # rs, st2))"

abbreviation st_db :: "limiter option \<times> pgstate \<Rightarrow> db" where
  "st_db st \<equiv> ps_db (snd st)"

text \<open>An acknowledged call: the batch is stored with its payload.\<close>

definition acknowledged :: "ingest_event \<Rightarrow> server_error + ingest_result \<Rightarrow> db \<Rightarrow> bool" where
  "acknowledged ev r d \<longleftrightarrow>
     (\<forall>res. r = Inr res \<longrightarrow>
        (\<exists>b. prepare_batch (ie_principal ev) (ie_batch ev) = Inr b \<and> already_stored b (ir_accepted res) d))"

lemma run_accept_step:
  assumes "run_accept pg ev st = (r, st')"
  shows "batches_ok (st_db st) \<Longrightarrow> batches_ok (st_db st')"
    "batches_ok (st_db st) \<Longrightarrow> batches_complete (st_db st) \<Longrightarrow> batches_complete (st_db st')"
    "set (t_batches (st_db st)) \<subseteq> set (t_batches (st_db st'))" "acknowledged ev r (st_db st')"
  using assms [unfolded run_accept_def]
  by (cases rule: accept_cases;
      auto simp: acknowledged_def dest: stores_batch_ok stores_batch_mono stores_batch_stored)+

lemma already_stored_mono: "already_stored b n d \<Longrightarrow> set (t_batches d) \<subseteq> set (t_batches d') \<Longrightarrow> already_stored b n d'"
  by (auto simp: already_stored_def)

lemma acknowledged_mono: "acknowledged ev r d \<Longrightarrow> set (t_batches d) \<subseteq> set (t_batches d') \<Longrightarrow> acknowledged ev r d'"
  unfolding acknowledged_def using already_stored_mono by blast

lemma ingest_run_inv:
  assumes "ingest_run pg evs st = (rs, st')" "batches_ok (st_db st)" "batches_complete (st_db st)"
  shows "batches_ok (st_db st') \<and> batches_complete (st_db st') \<and> set (t_batches (st_db st)) \<subseteq> set (t_batches (st_db st')) \<and>
    list_all2 (\<lambda>ev r. acknowledged ev r (st_db st')) evs rs"
  using assms
proof (induction evs arbitrary: st rs)
  case (Cons ev evs)
  obtain r st1 where r: "run_accept pg ev st = (r, st1)" by (cases "run_accept pg ev st")
  obtain rs1 where rs: "ingest_run pg evs st1 = (rs1, st')" "rs = r # rs1"
    using Cons.prems(1) r by (auto simp: Let_def split: prod.splits)
  note step = run_accept_step [OF r]
  from Cons.IH [OF rs(1) step(1) [OF Cons.prems(2)] step(2) [OF Cons.prems(2,3)]]
  show ?case using step(3,4) acknowledged_mono rs(2) by auto
qed simp

lemma batches_unique:
  assumes "batches_ok d" "r \<in> set (t_batches d)" "q \<in> set (t_batches d)" "batch_key r = batch_key q"
  shows "r = q"
  using assms by (auto simp: batches_ok_def distinct_map dest: inj_onD)

section \<open>Retries\<close>

lemma reading_done: "ps_outcomes s = [] \<Longrightarrow> reading f s = (Inr (f (ps_db s)), s)"
  by (simp add: reading_def stmt_def)

lemma query_row_done:
  "ps_outcomes s = [] \<Longrightarrow>
     query_row sel scan s = (case sel (ps_db s) of [] \<Rightarrow> (Inl NotFound, s) | r # _ \<Rightarrow> (scan r, s))"
  by (simp add: query_row_def andthen_def reading_done scan_first_def lift_def split: list.split)

lemma query_row_again:
  assumes "query_row sel scan s = (Inr x, s1)" "sel (ps_db s2) = sel (ps_db s)" "ps_outcomes s2 = []"
  shows "query_row sel scan s2 = (Inr x, s2)"
  using query_row_Inr [OF assms(1)] assms(2,3) by (auto simp: query_row_done)

text \<open>Where the body got to the batch, it gets there again on the same projects, agents and pipelines.\<close>

lemma accept_body_again:
  assumes "accept_body pg p b t s = (Inr res, s')" "ps_outcomes s2 = []"
    "t_projects (ps_db s2) = t_projects (ps_db s)" "t_agents (ps_db s2) = t_agents (ps_db s)"
    "t_pipelines (ps_db s2) = t_pipelines (ps_db s)"
  shows "accept_body pg p b t' s2 = store_batch pg b t' s2"
proof -
  from assms(1) obtain project sa agent sb pipeline sc where
    pj: "projects_get (pr_project_id p) s = (Inr project, sa)" "can_ingest project = None" and
    ag: "agents_get pg (pr_project_id p) (b_agent_id b) sa = (Inr agent, sb)" "ag_status agent \<noteq> ''disabled''" and
    pl: "pipelines_get (pr_project_id p) (b_pipeline_id b) sb = (Inr pipeline, sc)" "pl_agent_id pipeline = b_agent_id b"
      "pl_status pipeline \<in> {''enabled'', ''paused''}"
    by (auto simp: accept_body_def act_cases domain_check_def split: if_splits)
  have v: "validate_project_id (pr_project_id p) = None" and
    q: "query_row (\<lambda>d. filter (\<lambda>x. pj_id x = pg_uuid (pr_project_id p)) (t_projects d)) scan_project s = (Inr project, sa)"
    using pj(1) by (auto simp: projects_get_def act_cases domain_check_def)
  have d: "ps_db sa = ps_db s" "ps_db sb = ps_db sa"
    using query_row_Inr [OF q] query_row_Inr [OF ag(1) [unfolded agents_get_def]] by blast+
  have "query_row (\<lambda>d. filter (\<lambda>x. pj_id x = pg_uuid (pr_project_id p)) (t_projects d)) scan_project s2 = (Inr project, s2)"
    using q assms(2,3) by (intro query_row_again [OF q]) simp_all
  then have 1: "projects_get (pr_project_id p) s2 = (Inr project, s2)" by (simp add: projects_get_def andthen_def v domain_check_def)
  have 2: "agents_get pg (pr_project_id p) (b_agent_id b) s2 = (Inr agent, s2)"
    unfolding agents_get_def using assms(2,4) d by (intro query_row_again [OF ag(1) [unfolded agents_get_def]]) simp_all
  have 3: "pipelines_get (pr_project_id p) (b_pipeline_id b) s2 = (Inr pipeline, s2)"
    unfolding pipelines_get_def using assms(2,5) d by (intro query_row_again [OF pl(1) [unfolded pipelines_get_def]]) simp_all
  show ?thesis
    using pj(2) ag(2) pl(2,3) by (auto simp: accept_body_def andthen_def 1 2 3 domain_check_def)
qed

lemma stores_batch_tables:
  "stores_batch pg b d d' \<Longrightarrow> t_projects d' = t_projects d \<and> t_agents d' = t_agents d \<and> t_pipelines d' = t_pipelines d"
  by (auto simp: stores_batch_def)

lemma insert_batch_checked:
  assumes "insert_batch pg b t s = (Inr x, s')"
  shows "validate_batch b = None" "takes_batch (batch_of pg b t')" "batch_row (batch_of pg b t')" "\<not> is_zero t"
  using assms
  by (auto simp: insert_batch_def act_cases Let_def domain_check_def batch_of_def takes_batch_def batch_row_def dest!: stmt_Inr
      split: if_splits)

text \<open>A batch that is stored: the second attempt inserts nothing and compares with what is stored.\<close>

lemma store_batch_again:
  assumes "store_batch pg b t s = (Inr res, s')" "already_stored b n (ps_db s2)" "batches_ok (ps_db s2)" "ps_outcomes s2 = []"
    "\<not> is_zero t'"
  shows "\<exists>r. batch_key r = (pg_uuid (b_project_id b), pg_uuid (b_id b)) \<and> sb_entry_count r = n \<and> sb_status r = ''committed'' \<and>
      sb_payload_hash r = b_payload_hash b \<and>
    store_batch pg b t' s2 =
      (case verify_retry r b of
         None \<Rightarrow> (Inr \<lparr>ir_batch_id = b_id b, ir_status = Duplicate, ir_accepted = n\<rparr>, s2)
       | Some e \<Rightarrow> (Inl (Domain e), s2))"
proof -
  from assms(2) obtain r where r: "r \<in> set (t_batches (ps_db s2))" "batch_at (b_project_id b) (b_id b) r"
    "sb_status r = ''committed''" "sb_payload_hash r = b_payload_hash b" "sb_entry_count r = n"
    unfolding already_stored_def by blast
  from assms(1) obtain x sx where ins: "insert_batch pg b t s = (Inr x, sx)" by (auto simp: store_batch_def act_cases)
  note chk = insert_batch_checked(1,4) [OF ins] insert_batch_checked(2,3) [OF ins, of t']
  have i: "insert_batch pg b t' s2 = (Inr False, s2)"
    using chk assms(4,5) r(1,2) by (auto simp: insert_batch_def andthen_def domain_check_def stmt_def Let_def)
  have row: "batch_row r" using assms(3) r(1) by (simp add: batches_ok_def)
  then have sc: "scan_stored_batch r = Inr r"
    using r(3) by (auto simp: scan_stored_batch_def batch_row_def batch_statuses_def)
  have fl: "filter (batch_at (b_project_id b) (b_id b)) (t_batches (ps_db s2)) = hd (filter (batch_at (b_project_id b) (b_id b)) (t_batches (ps_db s2))) # tl (filter (batch_at (b_project_id b) (b_id b)) (t_batches (ps_db s2)))"
    using r(1,2) by (metis filter_empty_conv list.exhaust_sel)
  let ?h = "hd (filter (batch_at (b_project_id b) (b_id b)) (t_batches (ps_db s2)))"
  have "?h \<in> set (filter (batch_at (b_project_id b) (b_id b)) (t_batches (ps_db s2)))" by (subst fl) simp
  then have "?h = r" using batches_unique [OF assms(3) _ r(1)] r(2) by (simp add: batch_at_key)
  then have f: "find_batch (b_project_id b) (b_id b) s2 = (Inr r, s2)"
    using fl sc assms(4) by (simp add: find_batch_def query_row_done) (metis list.simps(5))
  show ?thesis
    using r by (intro exI [of _ r])
      (auto simp: batch_at_key [symmetric] store_batch_def andthen_def i f domain_check_def split: option.split)
qed

end
