(* ===== verification/Server_Properties.thy ===== *)
theory Server_Properties
  imports Ingest_Service
begin

text \<open>
  The properties of the ingest service over the store, with a concrete server to which they apply: one
  project, one agent, one pipeline, and a batch of one entry.
\<close>

section \<open>A concrete server\<close>

definition uid :: "char \<Rightarrow> uuid" where
  "uid c = replicate 8 c @ ''-'' @ replicate 4 c @ ''-'' @ replicate 4 c @ ''-'' @ replicate 4 c @ ''-'' @ replicate 12 c"

definition sample_pg :: pg where
  "sample_pg = \<lparr>pg_time = (\<lambda>t. t), pg_json = Some, pg_attributes = Some, pg_inet_text = (\<lambda>a. a @ ''/32''),
     pg_minute = (\<lambda>t. t - t mod (60 * second)), pg_row_size = (\<lambda>_. 100), pg_fold = (\<lambda>c. c)\<rparr>"

definition sample_db :: db where
  "sample_db =
     \<lparr>t_projects = [\<lparr>pj_id = uid (CHR ''1''), pj_slug = ''shop'', pj_name = ''Shop'', pj_status = ''active'', pj_created_at = 1, pj_updated_at = 1\<rparr>],
      t_agents = [\<lparr>ag_id = uid (CHR ''2''), ag_project_id = uid (CHR ''1''), ag_name = ''a'', ag_hostname = ''h'', ag_version = ''1'',
        ag_status = ''active'', ag_last_heartbeat = None, ag_last_seen_ip = [], ag_created_at = 1, ag_updated_at = 1\<rparr>],
      t_pipelines = [\<lparr>pl_id = uid (CHR ''3''), pl_project_id = uid (CHR ''1''), pl_agent_id = uid (CHR ''2''), pl_name = ''p'',
        pl_service = ''api'', pl_config = ''{}'', pl_config_version = 1, pl_status = ''enabled'', pl_reported_status = ''stopped'',
        pl_reported_at = None, pl_last_error = None, pl_updated_at = 1\<rparr>],
      t_keys = [], t_batches = [], t_entries = [], t_quarantine = [], t_retention = [], t_usage = [], t_audit = []\<rparr>"

definition sample_state :: "outcome list \<Rightarrow> pgstate" where
  "sample_state os = \<lparr>ps_db = sample_db, ps_entry_seq = 1, ps_audit_seq = 1, ps_now = 5, ps_outcomes = os\<rparr>"

definition sample_principal :: principal where
  "sample_principal = \<lparr>pr_key_id = uid (CHR ''9''), pr_project_id = uid (CHR ''1''), pr_agent_id = None, pr_scopes = {''ingest''}\<rparr>"

definition sample_row :: entry where
  "sample_row = \<lparr>e_id = 0, e_project_id = [], e_batch_id = [], e_agent_id = [], e_pipeline_id = [], e_batch_sequence = 0,
     e_service = ''api'', e_host = ''h'', e_level = ''INFO'', e_message = ''ok'', e_observed_at = 3, e_ingested_at = 0,
     e_attributes = []\<rparr>"

definition sample_batch :: "uuid \<Rightarrow> batch" where
  "sample_batch i = \<lparr>b_id = i, b_project_id = [], b_agent_id = uid (CHR ''2''), b_pipeline_id = uid (CHR ''3''), b_sequence = 0,
     b_payload_hash = replicate 32 (CHR ''x''), b_payload_bytes = 10, b_entries = [sample_row], b_created_at = 4\<rparr>"

definition sample_call :: accept_call where
  "sample_call = \<lparr>ac_ctx_err = None, ac_asked_at = 5, ac_committed_at = 5, ac_finished_at = 5\<rparr>"

section \<open>One call\<close>



section \<open>Exactly once\<close>

text \<open>
  C3. Whatever is sent, by whom, how often and in which order, and whichever statements and commits fail or
  lose their answers: a batch is stored at most once per project, with exactly its entries in order, and every
  call that was answered with \<open>accepted\<close> or \<open>duplicate\<close> has its batch stored with the payload that was sent
  and the number of entries that was answered.
\<close>

theorem ingest_exactly_once:
  assumes "ingest_run pg evs st = (rs, st')" "batches_ok (st_db st)" "batches_complete (st_db st)"
  shows "distinct (map batch_key (t_batches (st_db st'))) \<and> length rs = length evs \<and>
    (\<forall>i < length evs. \<forall>res. rs ! i = Inr res \<longrightarrow>
       (\<exists>b. prepare_batch (ie_principal (evs ! i)) (ie_batch (evs ! i)) = Inr b \<and>
         (\<exists>!r. r \<in> set (t_batches (st_db st')) \<and> batch_key r = (pg_uuid (b_project_id b), pg_uuid (b_id b))) \<and>
         (\<exists>r \<in> set (t_batches (st_db st')).
            batch_key r = (pg_uuid (b_project_id b), pg_uuid (b_id b)) \<and> sb_payload_hash r = b_payload_hash b \<and>
            map e_batch_sequence (entries_of (st_db st') r) = map int [0..<nat (ir_accepted res)])))"
proof -
  from ingest_run_inv [OF assms] have ok: "batches_ok (st_db st')" and c: "batches_complete (st_db st')" and
    ack: "list_all2 (\<lambda>ev r. acknowledged ev r (st_db st')) evs rs" by auto
  have "\<exists>b. prepare_batch (ie_principal (evs ! i)) (ie_batch (evs ! i)) = Inr b \<and>
      (\<exists>!r. r \<in> set (t_batches (st_db st')) \<and> batch_key r = (pg_uuid (b_project_id b), pg_uuid (b_id b))) \<and>
      (\<exists>r \<in> set (t_batches (st_db st')).
         batch_key r = (pg_uuid (b_project_id b), pg_uuid (b_id b)) \<and> sb_payload_hash r = b_payload_hash b \<and>
         map e_batch_sequence (entries_of (st_db st') r) = map int [0..<nat (ir_accepted res)])"
    if i: "i < length evs" "rs ! i = Inr res" for i res
  proof -
    have "acknowledged (evs ! i) (rs ! i) (st_db st')" using ack i(1) by (rule list_all2_nthD)
    with i(2) obtain b r where b: "prepare_batch (ie_principal (evs ! i)) (ie_batch (evs ! i)) = Inr b"
      and r: "r \<in> set (t_batches (st_db st'))" "batch_key r = (pg_uuid (b_project_id b), pg_uuid (b_id b))"
        "sb_payload_hash r = b_payload_hash b" "sb_entry_count r = ir_accepted res"
      by (auto simp: acknowledged_def already_stored_def batch_at_key)
    have "\<exists>!r. r \<in> set (t_batches (st_db st')) \<and> batch_key r = (pg_uuid (b_project_id b), pg_uuid (b_id b))"
      using r(1,2) batches_unique [OF ok] by (intro ex1I [of _ r]) auto
    with b r c show ?thesis by (auto simp: batches_complete_def)
  qed
  then show ?thesis using ok list_all2_lengthD [OF ack] by (simp add: batches_ok_def)
qed

definition sample_event :: "uuid \<Rightarrow> ingest_event" where
  "sample_event i = \<lparr>ie_principal = sample_principal, ie_batch = sample_batch i, ie_call = sample_call, ie_now = 5\<rparr>"

text \<open>Sent twice: the answer of the first commit (the eighth interaction) is lost, the second is a duplicate.\<close>

definition sample_outcomes :: "outcome list" where
  "sample_outcomes = replicate 7 Done @ [Lost ConnectionLost]"

theorem ingest_exactly_once_witness:
  "let (rs, st') = ingest_run sample_pg [sample_event (uid (CHR ''4'')), sample_event (uid (CHR ''4''))] (None, sample_state sample_outcomes)
   in rs ! 0 = Inl (Driver ConnectionLost) \<and> (\<exists>res. rs ! 1 = Inr res \<and> ir_status res = Duplicate) \<and>
      distinct (map batch_key (t_batches (st_db st'))) \<and> length (t_entries (st_db st')) = 1"
proof -
  let ?evs = "[sample_event (uid (CHR ''4'')), sample_event (uid (CHR ''4''))]"
  let ?run = "ingest_run sample_pg ?evs (None, sample_state sample_outcomes)"
  have e: "fst ?run ! 0 = Inl (Driver ConnectionLost)" "length (t_entries (st_db (snd ?run))) = 1"
    "(case fst ?run ! 1 of Inl _ \<Rightarrow> False | Inr res \<Rightarrow> ir_status res = Duplicate)"
    by code_simp+
  have "batches_ok (st_db (None, sample_state sample_outcomes))" "batches_complete (st_db (None, sample_state sample_outcomes))"
    by (simp_all add: batches_ok_def batches_complete_def sample_state_def sample_db_def)
  from ingest_exactly_once [OF _ this, of sample_pg ?evs "fst ?run" "snd ?run"]
  have "distinct (map batch_key (t_batches (st_db (snd ?run))))" by simp
  with e show ?thesis unfolding Let_def case_prod_beta by (auto split: sum.splits)
qed

section \<open>Retries\<close>

definition admitted :: "principal \<Rightarrow> batch \<Rightarrow> accept_call \<Rightarrow> limiter option \<Rightarrow> bool" where
  "admitted p b c lm \<longleftrightarrow>
     (case lm of None \<Rightarrow> True
      | Some l \<Rightarrow> (case fst (allow_ingest (ac_ctx_err c) (pr_key_id p) (pr_project_id p) (int (length (b_entries b)))
                           (b_payload_bytes b) (ac_asked_at c) l) of Inl _ \<Rightarrow> False | Inr _ \<Rightarrow> True))"

lemma accept_again:
  assumes "accept_body pg p b t s1 = (Inr res1, s1')" "prepare_batch p candidate = Inr b" "admitted p b c lm"
    "t_projects (ps_db s) = t_projects (ps_db s1)" "t_agents (ps_db s) = t_agents (ps_db s1)"
    "t_pipelines (ps_db s) = t_pipelines (ps_db s1)" "already_stored b n (ps_db s)" "batches_ok (ps_db s)"
    "ps_outcomes s = []" "\<not> is_zero (ac_committed_at c)"
  shows "\<exists>r lm'. batch_key r = (pg_uuid (b_project_id b), pg_uuid (b_id b)) \<and> sb_entry_count r = n \<and>
      sb_status r = ''committed'' \<and> sb_payload_hash r = b_payload_hash b \<and>
    accept pg p candidate c (lm, s) =
      ((case verify_retry r b of
          None \<Rightarrow> Inr \<lparr>ir_batch_id = b_id b, ir_status = Duplicate, ir_accepted = n\<rparr>
        | Some e \<Rightarrow> Inl (Domain e)), (lm', s))"
proof -
  from assms(1) obtain s2 where st: "store_batch pg b t s2 = (Inr res1, s1')" by (rule accept_body_Inr)
  from store_batch_again [OF st assms(7,8,9,10)] obtain r where r:
    "batch_key r = (pg_uuid (b_project_id b), pg_uuid (b_id b))" "sb_entry_count r = n" "sb_status r = ''committed''"
    "sb_payload_hash r = b_payload_hash b"
    "store_batch pg b (ac_committed_at c) s =
      (case verify_retry r b of
         None \<Rightarrow> (Inr \<lparr>ir_batch_id = b_id b, ir_status = Duplicate, ir_accepted = n\<rparr>, s)
       | Some e \<Rightarrow> (Inl (Domain e), s))" by blast
  have body: "accept_body pg p b (ac_committed_at c) s = store_batch pg b (ac_committed_at c) s"
    using assms(4,5,6,9) by (intro accept_body_again [OF assms(1)])
  have tx: "within_tx (accept_body pg p b (ac_committed_at c)) s =
    (case verify_retry r b of
       None \<Rightarrow> (Inr \<lparr>ir_batch_id = b_id b, ir_status = Duplicate, ir_accepted = n\<rparr>, s)
     | Some e \<Rightarrow> (Inl (Domain e), s))"
    using assms(9) by (auto simp: within_tx_def stmt_def body r(5) commit_tx_def rolled_back_def split: option.split)
  have "\<exists>lm'. accept pg p candidate c (lm, s) =
      ((case verify_retry r b of
          None \<Rightarrow> Inr \<lparr>ir_batch_id = b_id b, ir_status = Duplicate, ir_accepted = n\<rparr>
        | Some e \<Rightarrow> Inl (Domain e)), (lm', s))"
    using assms(2,3) tx
    by (auto simp: accept_def admitted_def Let_def split: option.splits sum.splits prod.splits)
  with r(1-4) show ?thesis by blast
qed

text \<open>A call that returned a result or changed the tables ran its body to the end.\<close>

lemma accept_ran:
  assumes "accept pg p candidate c (lm, s) = (r, (lm', s'))" "prepare_batch p candidate = Inr b"
    "(\<exists>res. r = Inr res) \<or> ps_db s' \<noteq> ps_db s"
  shows "\<exists>s1 res s1'. accept_body pg p b (ac_committed_at c) s1 = (Inr res, s1') \<and> ps_db s1 = ps_db s \<and> ps_db s' = ps_db s1'"
proof -
  consider (stop) e where "r = Inl e" "s' = s"
    | (tx) "within_tx (accept_body pg p b (ac_committed_at c)) s = (r, s')"
    using assms(1,2) by (auto simp: accept_def Let_def split: option.splits prod.splits sum.splits)
  then show ?thesis
  proof cases
    case stop
    with assms(3) show ?thesis by simp
  next
    case tx
    then show ?thesis
    proof (cases rule: within_tx_cases)
      case (failed e)
      with assms(3) show ?thesis by simp
    next
      case (lost e s1 s1' x)
      then show ?thesis by blast
    next
      case (committed s1 s1' x)
      then show ?thesis by blast
    qed
  qed
qed

text \<open>
  C32. A batch that a call has stored, acknowledged or not, is answered with \<open>duplicate\<close> when it is sent again
  with its identifiers in lower case, as long as the project, the agent and the pipeline are the same and
  nothing fails; with an upper-case letter in its id the retry is refused as invalid, although the same batch
  was accepted the first time.
\<close>

theorem accept_retry:
  assumes "accept pg p candidate c1 (lm1, s1) = (r1, (lm1', s1'))" "prepare_batch p candidate = Inr b"
    "(\<exists>res. r1 = Inr res) \<or> ps_db s1' \<noteq> ps_db s1" "batches_ok (ps_db s1)"
    "ps_db s = ps_db s1'" "ps_outcomes s = []" "admitted p b c lm" "\<not> is_zero (ac_committed_at c)"
  shows "\<exists>n lm'. already_stored b n (ps_db s) \<and> accept pg p candidate c (lm, s) =
    (if b_id b = pg_uuid (b_id b) \<and> b_project_id b = pg_uuid (b_project_id b)
     then Inr \<lparr>ir_batch_id = b_id b, ir_status = Duplicate, ir_accepted = n\<rparr>
     else Inl (Domain (ErrInvalid ''retry does not address a committed batch'')), (lm', s))"
proof -
  from accept_ran [OF assms(1,2,3)] obtain sb res sb' where
    body: "accept_body pg p b (ac_committed_at c1) sb = (Inr res, sb')" "ps_db sb = ps_db s1" "ps_db s1' = ps_db sb'" by blast
  from body(1) obtain sc where st: "store_batch pg b (ac_committed_at c1) sc = (Inr res, sb')" "ps_db sc = ps_db sb"
    by (rule accept_body_Inr)
  obtain n where n: "already_stored b n (ps_db s)" and ok: "batches_ok (ps_db s)" and
    tabs: "t_projects (ps_db s) = t_projects (ps_db sb)" "t_agents (ps_db s) = t_agents (ps_db sb)"
      "t_pipelines (ps_db s) = t_pipelines (ps_db sb)"
    using store_batch_Inr [OF st(1)]
  proof
    assume d: "ir_status res = Duplicate \<and> ps_db sb' = ps_db sc \<and> already_stored b (ir_accepted res) (ps_db sc)"
    with assms(4,5) body(2,3) st(2) show thesis by (intro that [of "ir_accepted res"]) simp_all
  next
    assume d: "ir_status res = Accepted \<and> ir_accepted res = int (length (b_entries b)) \<and> stores_batch pg b (ps_db sc) (ps_db sb')"
    then have sb: "stores_batch pg b (ps_db sc) (ps_db s)" using assms(5) body(3) by simp
    from stores_batch_stored [OF sb] stores_batch_tables [OF sb] stores_batch_ok(1) [OF sb] assms(4) body(2) st(2)
    show thesis by (intro that [of "int (length (b_entries b))"]) simp_all
  qed
  from accept_again [OF body(1) assms(2,7) tabs n ok assms(6,8)] obtain r lm' where r:
    "batch_key r = (pg_uuid (b_project_id b), pg_uuid (b_id b))" "sb_status r = ''committed''"
    "sb_payload_hash r = b_payload_hash b"
    "accept pg p candidate c (lm, s) =
      ((case verify_retry r b of
          None \<Rightarrow> Inr \<lparr>ir_batch_id = b_id b, ir_status = Duplicate, ir_accepted = n\<rparr>
        | Some e \<Rightarrow> Inl (Domain e)), (lm', s))" by blast
  have "verify_retry r b =
    (if b_id b = pg_uuid (b_id b) \<and> b_project_id b = pg_uuid (b_project_id b) then None
     else Some (ErrInvalid ''retry does not address a committed batch''))"
    using r(1-3) by (auto simp: verify_retry_def batch_key_def)
  with r(4) n show ?thesis by auto
qed

definition shouted_id :: uuid where
  "shouted_id = replicate 8 (CHR ''A'') @ drop 8 (uid (CHR ''a''))"

theorem accept_retry_witness:
  "fst (accept sample_pg sample_principal (sample_batch shouted_id) sample_call (None, sample_state [])) =
     Inr \<lparr>ir_batch_id = shouted_id, ir_status = Accepted, ir_accepted = 1\<rparr> \<and>
   fst (accept sample_pg sample_principal (sample_batch shouted_id) sample_call
     (snd (accept sample_pg sample_principal (sample_batch shouted_id) sample_call (None, sample_state [])))) =
     Inl (Domain (ErrInvalid ''retry does not address a committed batch''))"
proof -
  let ?a = "accept sample_pg sample_principal (sample_batch shouted_id) sample_call (None, sample_state [])"
  have "(case prepare_batch sample_principal (sample_batch shouted_id) of Inl _ \<Rightarrow> False | Inr b \<Rightarrow> b_id b = shouted_id)"
    and u: "shouted_id \<noteq> pg_uuid shouted_id" by code_simp+
  then obtain b where b: "prepare_batch sample_principal (sample_batch shouted_id) = Inr b" "b_id b = shouted_id"
    by (auto split: sum.splits)
  have a: "fst ?a = Inr \<lparr>ir_batch_id = shouted_id, ir_status = Accepted, ir_accepted = 1\<rparr>"
    "ps_outcomes (snd (snd ?a)) = []" "fst (snd ?a) = None" by code_simp+
  have ok: "batches_ok (ps_db (sample_state []))" by (simp add: batches_ok_def sample_state_def sample_db_def)
  have e: "?a = (Inr \<lparr>ir_batch_id = shouted_id, ir_status = Accepted, ir_accepted = 1\<rparr>, (None, snd (snd ?a)))"
    using a by (metis prod.collapse)
  have s: "snd ?a = (None, snd (snd ?a))" using a(3) by (metis prod.collapse)
  have "\<not> is_zero (ac_committed_at sample_call)" "admitted sample_principal b sample_call None"
    by (simp_all add: sample_call_def is_zero_def zero_time_def admitted_def)
  from accept_retry [OF e b(1) _ ok refl a(2) this(2,1)] b(2) u a(1) show ?thesis
    by (subst s) auto
qed

end
