(* ===== verification/Operations_Service.thy ===== *)
theory Operations_Service
  imports Ingest_Service
begin

text \<open>
  The operations service (\<open>internal/server/operations/service.go\<close>): retention policies, and the replay and
  the discard of a quarantined batch. A replay is three transactions with the decoding and \<open>Accept\<close>
  between the first and the last; each is a definition of its own, so that other calls can come in between.
\<close>

section \<open>Audit\<close>

text \<open>\<open>json.Marshal\<close> of a map writes its keys in order; the callers give the members in that order.\<close>

definition append_audit ::
  "pg \<Rightarrow> principal \<Rightarrow> uuid \<Rightarrow> string \<Rightarrow> string \<Rightarrow> string \<Rightarrow> string \<Rightarrow> (string \<times> string) list option \<Rightarrow> unit sql" where
  "append_audit pg p project action resource resource_id result metadata =
     andthen (audit_append pg
       \<lparr>au_id = 0, au_project_id = Some project, au_actor_type = ''api_key'', au_actor_id = pr_key_id p, au_action = action,
        au_resource = resource, au_resource_id = resource_id, au_outcome = result,
        au_metadata = (case metadata of None \<Rightarrow> ''{}'' | Some ms \<Rightarrow> jobj ms), au_created_at = zero_time\<rparr>)
     (\<lambda>_. ret ())"

section \<open>Retention\<close>

definition set_retention :: "pg \<Rightarrow> principal \<Rightarrow> retention_policy \<Rightarrow> retention_policy sql" where
  "set_retention pg p policy =
     (case require_scope p ''retention:manage'' of Some e \<Rightarrow> fail e | None \<Rightarrow>
     (case require_project p (rp_project_id policy) of Some e \<Rightarrow> fail e | None \<Rightarrow>
      if rp_max_age policy \<le> 0 \<or> rp_max_age policy mod second \<noteq> 0 \<or>
         (case rp_max_bytes policy of None \<Rightarrow> False | Some b \<Rightarrow> b \<le> 0) then fail (Domain (ErrInvalid ''retention policy''))
      else within_tx (andthen (retention_upsert policy) (\<lambda>saved.
        andthen (append_audit pg p (rp_project_id policy) ''retention.set'' ''retention_policy'' (rp_project_id policy) ''success''
          (Some [(''enabled'', if rp_enabled policy then ''true'' else ''false''),
                 (''max_age_seconds'', int_dec (rp_max_age policy div second)),
                 (''max_bytes'', case rp_max_bytes policy of None \<Rightarrow> ''null'' | Some b \<Rightarrow> int_dec b)]))
        (\<lambda>_. ret saved)))))"

section \<open>Quarantine\<close>

definition require_replay :: "principal \<Rightarrow> uuid \<Rightarrow> uuid \<Rightarrow> server_error option" where
  "require_replay p project i =
     (case require_scope p ''quarantine:replay'' of Some e \<Rightarrow> Some e | None \<Rightarrow>
     (case require_project p project of Some e \<Rightarrow> Some e | None \<Rightarrow>
      if \<not> valid_uuid i then Some (Domain (ErrInvalid ''quarantine id'')) else None))"

definition replay_claim :: "pg \<Rightarrow> principal \<Rightarrow> uuid \<Rightarrow> uuid \<Rightarrow> quarantine_batch sql" where
  "replay_claim pg p project i =
     within_tx (andthen (quarantine_claim project i) (\<lambda>q.
       andthen (append_audit pg p project ''quarantine.replay.claim'' ''quarantine_batch'' i ''success'' None) (\<lambda>_. ret q)))"

text \<open>The decoding of the payload and the call of \<open>Accept\<close>, with the ingest scope added to the principal.\<close>

definition payload_batch ::
  "(string \<Rightarrow> string) \<Rightarrow> (string \<Rightarrow> string) \<Rightarrow> limits \<Rightarrow> uuid \<Rightarrow> bytes \<Rightarrow> ingest_error + batch" where
  "payload_batch umap lmap lims project payload =
     (case decode (Some (payload, False)) (l_max_body_bytes lims) of
        (Inl e, n) \<Rightarrow> Inl e
      | (Inr r, n) \<Rightarrow> normalize umap lmap r project (int n) lims)"

definition replay_principal :: "principal \<Rightarrow> principal" where
  "replay_principal p = p\<lparr>pr_scopes := insert ''ingest'' (pr_scopes p)\<rparr>"

definition replay_ingest ::
  "pg \<Rightarrow> (string \<Rightarrow> string) \<Rightarrow> (string \<Rightarrow> string) \<Rightarrow> limits \<Rightarrow> principal \<Rightarrow> uuid \<Rightarrow> bytes \<Rightarrow> accept_call \<Rightarrow>
     (limiter option \<times> pgstate, unit) act" where
  "replay_ingest pg umap lmap lims p project payload c =
     (case payload_batch umap lmap lims project payload of
        Inl e \<Rightarrow> fail (Protocol e)
      | Inr b \<Rightarrow> andthen (accept pg (replay_principal p) b c) (\<lambda>_. ret ()))"

text \<open>The message of the error is the argument \<open>err_text\<close>; it is cut after 2048 bytes.\<close>

definition replay_release :: "pg \<Rightarrow> (server_error \<Rightarrow> string) \<Rightarrow> principal \<Rightarrow> quarantine_batch \<Rightarrow> server_error \<Rightarrow> unit sql" where
  "replay_release pg err_text p q e =
     (let detail = take 2048 (err_text e)
      in within_tx (andthen (quarantine_release_for_retry (qb_project_id q) (qb_id q) detail) (\<lambda>_.
           append_audit pg p (qb_project_id q) ''quarantine.replay.release'' ''quarantine_batch'' (qb_id q) ''failed''
             (Some [(''error'', quote detail)]))))"

definition replay_resolve :: "pg \<Rightarrow> principal \<Rightarrow> uuid \<Rightarrow> uuid \<Rightarrow> time \<Rightarrow> unit sql" where
  "replay_resolve pg p project i resolved_at =
     within_tx (andthen (quarantine_mark_terminal pg project i ''resolved'' ''manual replay accepted'' resolved_at) (\<lambda>_.
       append_audit pg p project ''quarantine.replay.resolve'' ''quarantine_batch'' i ''success'' None))"

definition on_pg :: "'a sql \<Rightarrow> ('l \<times> pgstate, 'a) act" where
  "on_pg m st = (let (r, s) = m (snd st) in (r, (fst st, s)))"

definition replay_finish ::
  "pg \<Rightarrow> (server_error \<Rightarrow> string) \<Rightarrow> principal \<Rightarrow> uuid \<Rightarrow> uuid \<Rightarrow> quarantine_batch \<Rightarrow> server_error + unit \<Rightarrow> time \<Rightarrow> quarantine_batch sql" where
  "replay_finish pg err_text p project i claimed result resolved_at s =
     (case result of
        Inl e \<Rightarrow>
          (case replay_release pg err_text p claimed e s of
             (Inl e', s') \<Rightarrow> (Inl (Joined e e'), s')
           | (Inr _, s') \<Rightarrow> (Inl e, s'))
      | Inr _ \<Rightarrow>
          (case replay_resolve pg p project i resolved_at s of
             (Inl e, s') \<Rightarrow> (Inl e, s')
           | (Inr _, s') \<Rightarrow>
               (Inr (claimed\<lparr>qb_status := ''resolved'', qb_error_detail := ''manual replay accepted'',
                             qb_resolved_at := Some resolved_at\<rparr>), s')))"

definition replay_quarantine ::
  "pg \<Rightarrow> (server_error \<Rightarrow> string) \<Rightarrow> (string \<Rightarrow> string) \<Rightarrow> (string \<Rightarrow> string) \<Rightarrow> limits \<Rightarrow> principal \<Rightarrow> uuid \<Rightarrow> uuid \<Rightarrow>
     accept_call \<Rightarrow> time \<Rightarrow> (limiter option \<times> pgstate, quarantine_batch) act" where
  "replay_quarantine pg err_text umap lmap lims p project i c resolved_at st =
     (case require_replay p project i of
        Some e \<Rightarrow> (Inl e, st)
      | None \<Rightarrow>
          (case on_pg (replay_claim pg p project i) st of
             (Inl e, st1) \<Rightarrow> (Inl e, st1)
           | (Inr claimed, st1) \<Rightarrow>
               (case replay_ingest pg umap lmap lims p project (qb_payload claimed) c st1 of
                  (result, st2) \<Rightarrow> on_pg (replay_finish pg err_text p project i claimed result resolved_at) st2)))"

definition discard_quarantine :: "pg \<Rightarrow> principal \<Rightarrow> uuid \<Rightarrow> uuid \<Rightarrow> time \<Rightarrow> quarantine_batch sql" where
  "discard_quarantine pg p project i resolved_at s =
     (case require_replay p project i of
        Some e \<Rightarrow> (Inl e, s)
      | None \<Rightarrow>
          (case within_tx (andthen (quarantine_claim project i) (\<lambda>q.
                  andthen (quarantine_mark_terminal pg project i ''discarded'' ''discarded by operator'' resolved_at) (\<lambda>_.
                  andthen (append_audit pg p project ''quarantine.discard'' ''quarantine_batch'' i ''success'' None) (\<lambda>_. ret q)))) s of
             (Inl e, s') \<Rightarrow> (Inl e, s')
           | (Inr q, s') \<Rightarrow>
               (Inr (q\<lparr>qb_status := ''discarded'', qb_error_detail := ''discarded by operator'', qb_resolved_at := Some resolved_at\<rparr>), s')))"

section \<open>The state machine of a quarantined batch\<close>

text \<open>
  Every statement that touches the table takes rows only along these arrows, keeps what identifies a row, and
  deletes none: pending to replaying (a claim), replaying to pending (a release or an expired lease),
  replaying to resolved or discarded.
\<close>

definition same_identity :: "quarantine_batch \<Rightarrow> quarantine_batch \<Rightarrow> bool" where
  "same_identity q q' \<longleftrightarrow>
     qb_id q' = qb_id q \<and> qb_project_id q' = qb_project_id q \<and> qb_batch_id q' = qb_batch_id q \<and>
     qb_payload q' = qb_payload q \<and> qb_payload_hash q' = qb_payload_hash q"

definition quarantine_arrow :: "(quarantine_batch \<Rightarrow> bool) \<Rightarrow> quarantine_batch \<Rightarrow> quarantine_batch \<Rightarrow> bool" where
  "quarantine_arrow A q q' \<longleftrightarrow>
     same_identity q q' \<and>
     (q' = q \<or>
      (qb_status q = ''pending'' \<and> qb_status q' = ''replaying'' \<and> qb_attempts q' = qb_attempts q + 1) \<or>
      (qb_status q = ''replaying'' \<and> qb_status q' \<in> {''pending'', ''discarded''} \<and> qb_attempts q' = qb_attempts q) \<or>
      (A q \<and> qb_status q = ''replaying'' \<and> qb_status q' = ''resolved'' \<and> qb_attempts q' = qb_attempts q))"

definition quarantine_next :: "(quarantine_batch \<Rightarrow> bool) \<Rightarrow> db \<Rightarrow> db \<Rightarrow> bool" where
  "quarantine_next A d d' \<longleftrightarrow> list_all2 (quarantine_arrow A) (t_quarantine d) (t_quarantine d')"

lemma quarantine_next_refl: "t_quarantine d' = t_quarantine d \<Longrightarrow> quarantine_next A d d'"
  by (simp add: quarantine_next_def list_all2_same quarantine_arrow_def same_identity_def)

text \<open>What all the operations here do: they take rows along the arrows and leave the log tables alone.\<close>

definition quarantine_only :: "(quarantine_batch \<Rightarrow> bool) \<Rightarrow> db \<Rightarrow> db \<Rightarrow> bool" where
  "quarantine_only A d d' \<longleftrightarrow>
     (quarantine_next A)\<^sup>*\<^sup>* d d' \<and> t_batches d' = t_batches d \<and> t_entries d' = t_entries d"

interpretation qn: history "quarantine_only A" for A
  by unfold_locales (auto simp: quarantine_only_def)

lemma quarantine_same: "t_quarantine d' = t_quarantine (d :: db) \<Longrightarrow> (quarantine_next A)\<^sup>*\<^sup>* d d'"
  by (rule r_into_rtranclp) (rule quarantine_next_refl)

text \<open>What the statements of other tables do to this one.\<close>

named_theorems qmoves \<open>operations along the arrows of the quarantine\<close>

lemma moves_quarantine_same:
  assumes "\<And>s. t_quarantine (ps_db (snd (m s))) = t_quarantine (ps_db s)"
    "\<And>s. t_batches (ps_db (snd (m s))) = t_batches (ps_db s)" "\<And>s. t_entries (ps_db (snd (m s))) = t_entries (ps_db s)"
  shows "moves (quarantine_only A) m"
  unfolding moves_def quarantine_only_def using assms by (blast intro: quarantine_same)

lemma audit_append_moves [qmoves]: "moves (quarantine_only A) (audit_append pg e)"
  unfolding audit_append_def Let_def
  by (intro qn.moves_if qn.moves_fail qn.moves_andthen qn.moves_stmt qn.moves_lift moves_quarantine_same)
    (auto simp: upd_db_def split: option.split)

lemma append_audit_moves [qmoves]: "moves (quarantine_only A) (append_audit pg p project action resource i r m)"
  unfolding append_audit_def by (intro qn.moves_andthen qmoves qn.moves_ret)

lemma update_quarantine_moves:
  assumes "\<And>t q. hit q \<Longrightarrow> quarantine_arrow A q (f t q)"
  shows "moves (quarantine_only A) (update_quarantine hit f)"
  unfolding update_quarantine_def
proof (rule qn.moves_update_returning)
  fix d :: db and t
  have "list_all2 (quarantine_arrow A) (t_quarantine d) (map (\<lambda>r. if hit r then f t r else r) (t_quarantine d))"
    using assms by (auto simp: list_all2_map2 list_all2_same quarantine_arrow_def same_identity_def)
  then have "quarantine_next A d (t_quarantine_update (map (\<lambda>r. if hit r then f t r else r)) d)"
    by (simp add: quarantine_next_def)
  then show "quarantine_only A d (t_quarantine_update (map (\<lambda>r. if hit r then f t r else r)) d)"
    by (simp add: quarantine_only_def r_into_rtranclp)
qed

lemma claim_arrow: "qb_status q = ''pending'' \<Longrightarrow> quarantine_arrow A q (claim_row t q)"
  by (simp add: quarantine_arrow_def same_identity_def claim_row_def)

lemma release_arrow: "qb_status q = ''replaying'' \<Longrightarrow> quarantine_arrow A q (release_row detail q)"
  by (simp add: quarantine_arrow_def same_identity_def release_row_def)

lemma quarantine_claim_moves [qmoves]: "moves (quarantine_only A) (quarantine_claim project i)"
  unfolding quarantine_claim_def
  by (intro qn.moves_if qn.moves_fail qn.moves_andthen qn.moves_scan_first update_quarantine_moves claim_arrow) simp

lemma quarantine_mark_terminal_moves:
  assumes "status = ''resolved'' \<Longrightarrow> quarantine_at project i \<le> A"
  shows "moves (quarantine_only A) (quarantine_mark_terminal pg project i status detail t)"
proof (cases "status = ''resolved'' \<or> status = ''discarded''")
  case True
  then show ?thesis
    unfolding quarantine_mark_terminal_def
    using assms
    by (intro qn.moves_if qn.moves_fail qn.moves_andthen qn.moves_require_affected update_quarantine_moves)
      (auto simp: quarantine_arrow_def same_identity_def)
qed (simp add: quarantine_mark_terminal_def)

lemma quarantine_release_moves [qmoves]: "moves (quarantine_only A) (quarantine_release_for_retry project i detail)"
  unfolding quarantine_release_for_retry_def
  by (intro qn.moves_andthen qn.moves_require_affected update_quarantine_moves release_arrow) simp

lemma requeue_arrows:
  assumes "distinct (map qb_id (t_quarantine d))"
  shows "list_all2 (quarantine_arrow A) (t_quarantine d)
    (map (\<lambda>q. if qb_id q \<in> set (expired_claims t n d) then release_row detail q else q) (t_quarantine d))"
proof -
  have "qb_status q = ''replaying''" if q: "q \<in> set (t_quarantine d)" "qb_id q \<in> set (expired_claims t n d)" for q
  proof -
    from q(2) obtain q' where "q' \<in> set (t_quarantine d)" "qb_status q' = ''replaying''" "qb_id q' = qb_id q"
      by (auto simp: expired_claims_def limited_def dest!: in_set_takeD)
    with assms q(1) show ?thesis by (auto simp: distinct_map dest: inj_onD)
  qed
  then show ?thesis
    by (auto simp: list_all2_map2 list_all2_same quarantine_arrow_def same_identity_def release_row_def)
qed

text \<open>The statement of the lease identifies its rows by their primary key.\<close>

lemma quarantine_requeue_moves:
  assumes "distinct (map qb_id (t_quarantine (ps_db s)))" "quarantine_requeue_expired pg t n s = (r, s')"
  shows "quarantine_only A (ps_db s) (ps_db s')"
proof -
  have "(t_quarantine (ps_db s') = t_quarantine (ps_db s) \<or>
    t_quarantine (ps_db s') = map (\<lambda>q. if qb_id q \<in> set (expired_claims (pg_time pg t) n (ps_db s))
      then release_row ''replay lease expired'' q else q) (t_quarantine (ps_db s))) \<and>
    t_batches (ps_db s') = t_batches (ps_db s) \<and> t_entries (ps_db s') = t_entries (ps_db s)"
    using assms(2)
    by (auto simp: quarantine_requeue_expired_def stmt_def Let_def split: if_splits list.splits outcome.splits)
  moreover have "(quarantine_next A)\<^sup>*\<^sup>* (ps_db s) (ps_db s')"
    if "t_quarantine (ps_db s') = map (\<lambda>q. if qb_id q \<in> set (expired_claims (pg_time pg t) n (ps_db s))
      then release_row ''replay lease expired'' q else q) (t_quarantine (ps_db s))"
    using that requeue_arrows [OF assms(1)] by (intro r_into_rtranclp) (simp add: quarantine_next_def)
  ultimately show ?thesis unfolding quarantine_only_def using quarantine_same by blast
qed

lemma replay_claim_moves [qmoves]: "moves (quarantine_only A) (replay_claim pg p project i)"
  unfolding replay_claim_def by (intro qn.moves_within_tx qn.moves_andthen qn.moves_ret qmoves)

lemma replay_resolve_moves:
  "quarantine_at project i \<le> A \<Longrightarrow> moves (quarantine_only A) (replay_resolve pg p project i t)"
  unfolding replay_resolve_def by (intro qn.moves_within_tx qn.moves_andthen qmoves quarantine_mark_terminal_moves)

lemma replay_release_moves [qmoves]: "moves (quarantine_only A) (replay_release pg err_text p q e)"
  unfolding replay_release_def Let_def by (intro qn.moves_within_tx qn.moves_andthen qmoves)

lemma replay_finish_moves:
  assumes "r = Inr () \<Longrightarrow> quarantine_at project i \<le> A"
  shows "moves (quarantine_only A) (replay_finish pg err_text p project i q r t)"
proof (cases r)
  case (Inl e)
  then show ?thesis
    unfolding moves_def replay_finish_def using movesD [OF replay_release_moves] by (auto split: sum.split prod.split)
next
  case (Inr u)
  then have "quarantine_at project i \<le> A" using assms by simp
  with Inr show ?thesis
    unfolding moves_def replay_finish_def using movesD [OF replay_resolve_moves] by (auto split: sum.split prod.split)
qed

lemma discard_moves [qmoves]: "moves (quarantine_only A) (discard_quarantine pg p project i t)"
proof -
  have "moves (quarantine_only A) (within_tx (andthen (quarantine_claim project i) (\<lambda>q.
    andthen (quarantine_mark_terminal pg project i ''discarded'' ''discarded by operator'' t) (\<lambda>_.
    andthen (append_audit pg p project ''quarantine.discard'' ''quarantine_batch'' i ''success'' None) (\<lambda>_. ret q)))))"
    by (intro qn.moves_within_tx qn.moves_andthen qn.moves_ret qmoves quarantine_mark_terminal_moves) simp
  from movesD [OF this] show ?thesis
    unfolding moves_def discard_quarantine_def by (auto simp: qn.same split: option.split sum.split prod.split)
qed

lemma accept_quarantine_same:
  assumes "accept pg p candidate c st = (r, st')"
  shows "t_quarantine (st_db st') = t_quarantine (st_db st)"
  using assms by (cases rule: accept_cases) (auto simp: stores_batch_def)

lemma replay_ingest_quarantine_same:
  assumes "replay_ingest pg umap lmap lims p project payload c st = (r, st')"
  shows "t_quarantine (st_db st') = t_quarantine (st_db st)"
  using assms accept_quarantine_same
  by (auto simp: replay_ingest_def andthen_def split: sum.splits prod.splits)

section \<open>Replays under way\<close>

text \<open>
  Operators, the lease worker, agents and crashes act in any order between the transactions of a replay. A
  replay under way has claimed its row; \<open>ry_result\<close> is the result of the decoding and of \<open>Accept\<close>.
\<close>

record replay =
  ry_principal :: principal
  ry_project :: uuid
  ry_id :: uuid
  ry_claimed :: quarantine_batch
  ry_result :: "(server_error + unit) option"

record ops_state =
  os_store :: "limiter option \<times> pgstate"
  os_replays :: "replay list"

record ops_env =
  oe_pg :: pg
  oe_err_text :: "server_error \<Rightarrow> string"
  oe_upper :: "string \<Rightarrow> string"
  oe_lower :: "string \<Rightarrow> string"
  oe_limits :: limits

definition drop_at :: "nat \<Rightarrow> 'a list \<Rightarrow> 'a list" where
  "drop_at k xs = take k xs @ drop (Suc k) xs"

inductive ops_step :: "ops_env \<Rightarrow> ops_state \<Rightarrow> ops_state \<Rightarrow> bool" for env where
  step_claim: "require_replay p project i = None \<Longrightarrow> on_pg (replay_claim (oe_pg env) p project i) st = (Inr q, st') \<Longrightarrow>
    ops_step env \<lparr>os_store = st, os_replays = rs\<rparr>
      \<lparr>os_store = st', os_replays = rs @ [\<lparr>ry_principal = p, ry_project = project, ry_id = i, ry_claimed = q, ry_result = None\<rparr>]\<rparr>"
| step_claim_failed: "on_pg (replay_claim (oe_pg env) p project i) st = (Inl e, st') \<Longrightarrow>
    ops_step env \<lparr>os_store = st, os_replays = rs\<rparr> \<lparr>os_store = st', os_replays = rs\<rparr>"
| step_ingest: "k < length rs \<Longrightarrow> ry_result (rs ! k) = None \<Longrightarrow>
    replay_ingest (oe_pg env) (oe_upper env) (oe_lower env) (oe_limits env) (ry_principal (rs ! k)) (ry_project (rs ! k))
      (qb_payload (ry_claimed (rs ! k))) c st = (res, st') \<Longrightarrow>
    ops_step env \<lparr>os_store = st, os_replays = rs\<rparr>
      \<lparr>os_store = st', os_replays = rs[k := (rs ! k)\<lparr>ry_result := Some res\<rparr>]\<rparr>"
| step_finish: "k < length rs \<Longrightarrow> ry_result (rs ! k) = Some res \<Longrightarrow>
    on_pg (replay_finish (oe_pg env) (oe_err_text env) (ry_principal (rs ! k)) (ry_project (rs ! k)) (ry_id (rs ! k))
      (ry_claimed (rs ! k)) res t) st = (x, st') \<Longrightarrow>
    ops_step env \<lparr>os_store = st, os_replays = rs\<rparr> \<lparr>os_store = st', os_replays = drop_at k rs\<rparr>"
| step_crash: "ops_step env \<lparr>os_store = st, os_replays = rs\<rparr> \<lparr>os_store = st, os_replays = drop_at k rs\<rparr>"
| step_discard: "on_pg (discard_quarantine (oe_pg env) p project i t) st = (x, st') \<Longrightarrow>
    ops_step env \<lparr>os_store = st, os_replays = rs\<rparr> \<lparr>os_store = st', os_replays = rs\<rparr>"
| step_lease: "on_pg (quarantine_requeue_expired (oe_pg env) t n) st = (x, st') \<Longrightarrow>
    ops_step env \<lparr>os_store = st, os_replays = rs\<rparr> \<lparr>os_store = st', os_replays = rs\<rparr>"
| step_accept: "accept (oe_pg env) p b c st = (x, st') \<Longrightarrow>
    ops_step env \<lparr>os_store = st, os_replays = rs\<rparr> \<lparr>os_store = st', os_replays = rs\<rparr>"
| step_time: "ops_step env \<lparr>os_store = (l, s), os_replays = rs\<rparr>
    \<lparr>os_store = (l, s\<lparr>ps_now := now, ps_outcomes := outcomes\<rparr>), os_replays = rs\<rparr>"

inductive_cases ops_stepE: "ops_step env os os'"

abbreviation os_db :: "ops_state \<Rightarrow> db" where
  "os_db os \<equiv> st_db (os_store os)"

text \<open>
  What holds between the steps: the rows have distinct ids; the row of a replay under way still has the payload
  that was claimed; when \<open>Accept\<close> has answered, and in every resolved row, the batch of the payload is stored.
\<close>

definition payload_stored :: "ops_env \<Rightarrow> uuid \<Rightarrow> bytes \<Rightarrow> db \<Rightarrow> bool" where
  "payload_stored env project payload d \<longleftrightarrow>
     (\<exists>b n. payload_batch (oe_upper env) (oe_lower env) (oe_limits env) project payload = Inr b \<and>
        b_project_id b = project \<and> already_stored b n d)"

definition replay_ok :: "ops_env \<Rightarrow> db \<Rightarrow> replay \<Rightarrow> bool" where
  "replay_ok env d r \<longleftrightarrow>
     require_replay (ry_principal r) (ry_project r) (ry_id r) = None \<and>
     (\<exists>q \<in> set (t_quarantine d). quarantine_at (ry_project r) (ry_id r) q \<and> qb_payload q = qb_payload (ry_claimed r)) \<and>
     quarantine_at (ry_project r) (ry_id r) (ry_claimed r) \<and>
     (ry_result r = Some (Inr ()) \<longrightarrow> payload_stored env (ry_project r) (qb_payload (ry_claimed r)) d)"

definition resolved_ok :: "ops_env \<Rightarrow> db \<Rightarrow> bool" where
  "resolved_ok env d \<longleftrightarrow>
     (\<forall>q \<in> set (t_quarantine d). qb_status q = ''resolved'' \<longrightarrow>
        (\<exists>project. pg_uuid project = qb_project_id q \<and> payload_stored env project (qb_payload q) d))"

definition ops_inv :: "ops_env \<Rightarrow> ops_state \<Rightarrow> bool" where
  "ops_inv env os \<longleftrightarrow>
     distinct (map qb_id (t_quarantine (os_db os))) \<and> batches_ok (os_db os) \<and>
     (\<forall>r \<in> set (os_replays os). replay_ok env (os_db os) r) \<and> resolved_ok env (os_db os)"

lemma quarantine_next_ids:
  assumes "(quarantine_next A)\<^sup>*\<^sup>* d d'"
  shows "map qb_id (t_quarantine d') = map qb_id (t_quarantine d)"
  using assms
proof (induction rule: rtranclp_induct)
  case (step d' d'')
  have "map qb_id (t_quarantine d') = map qb_id (t_quarantine d'')"
    using step.hyps(2) by (intro nth_equalityI)
      (auto simp: quarantine_next_def list_all2_conv_all_nth quarantine_arrow_def same_identity_def)
  with step.IH show ?case by simp
qed simp

lemma quarantine_next_row:
  assumes "(quarantine_next A)\<^sup>*\<^sup>* d d'" "q \<in> set (t_quarantine d)"
  shows "\<exists>q' \<in> set (t_quarantine d'). same_identity q q'"
  using assms(1)
proof (induction rule: rtranclp_induct)
  case base
  with assms(2) show ?case by (auto simp: same_identity_def)
next
  case (step d' d'')
  from step.IH obtain q' where q': "q' \<in> set (t_quarantine d')" "same_identity q q'" by blast
  from step.hyps(2) q'(1) obtain q'' where "q'' \<in> set (t_quarantine d'')" "quarantine_arrow A q' q''"
    unfolding quarantine_next_def by (metis in_set_conv_nth list_all2_conv_all_nth)
  with q'(2) show ?case by (auto simp: quarantine_arrow_def same_identity_def)
qed

lemma payload_stored_mono:
  "payload_stored env project payload d \<Longrightarrow> set (t_batches d) \<subseteq> set (t_batches d') \<Longrightarrow> payload_stored env project payload d'"
  unfolding payload_stored_def using already_stored_mono by blast

lemma replay_ok_mono:
  assumes "replay_ok env d r" "(quarantine_next A)\<^sup>*\<^sup>* d d'" "set (t_batches d) \<subseteq> set (t_batches d')"
  shows "replay_ok env d' r"
proof -
  from assms(1) obtain q where q: "q \<in> set (t_quarantine d)" "quarantine_at (ry_project r) (ry_id r) q"
    "qb_payload q = qb_payload (ry_claimed r)" by (auto simp: replay_ok_def)
  from quarantine_next_row [OF assms(2) q(1)] q(2,3) obtain q' where
    "q' \<in> set (t_quarantine d')" "quarantine_at (ry_project r) (ry_id r) q'" "qb_payload q' = qb_payload (ry_claimed r)"
    by (auto simp: same_identity_def quarantine_at_def)
  with assms payload_stored_mono show ?thesis unfolding replay_ok_def by blast
qed

lemma quarantine_next_origin:
  assumes "(quarantine_next A)\<^sup>*\<^sup>* d d'" "q' \<in> set (t_quarantine d')" "qb_status q' = ''resolved''"
  shows "\<exists>q \<in> set (t_quarantine d). same_identity q q' \<and> (qb_status q = ''resolved'' \<or> (\<exists>p. same_identity q p \<and> A p))"
  using assms
proof (induction arbitrary: q' rule: rtranclp_induct)
  case base
  then show ?case by (auto simp: same_identity_def)
next
  case (step d' d'')
  from step.hyps(2) step.prems(1) obtain p where p: "p \<in> set (t_quarantine d')" "quarantine_arrow A p q'"
    unfolding quarantine_next_def by (metis in_set_conv_nth list_all2_conv_all_nth)
  from p(2) step.prems(2) consider (old) "qb_status p = ''resolved''" | (new) "A p"
    by (auto simp: quarantine_arrow_def)
  then show ?case
  proof cases
    case old
    from step.IH [OF p(1) old] p(2) show ?thesis by (auto simp: quarantine_arrow_def same_identity_def)
  next
    case new
    have "map qb_id (t_quarantine d') = map qb_id (t_quarantine d)" using quarantine_next_ids [OF step.hyps(1)] .
    have "\<exists>q \<in> set (t_quarantine d). same_identity q p"
      using step.hyps(1) p(1)
    proof (induction arbitrary: p rule: rtranclp_induct)
      case (step x y)
      from step.hyps(2) step.prems obtain p' where "p' \<in> set (t_quarantine x)" "quarantine_arrow A p' p"
        unfolding quarantine_next_def by (metis in_set_conv_nth list_all2_conv_all_nth)
      with step.IH [of p'] show ?case by (auto simp: quarantine_arrow_def same_identity_def)
    qed (auto simp: same_identity_def)
    with new p(2) show ?thesis by (auto simp: quarantine_arrow_def same_identity_def)
  qed
qed

text \<open>A step that moves the rows along the arrows and only adds batches keeps the invariant, if what it resolves is stored.\<close>

lemma ops_inv_step:
  assumes "ops_inv env \<lparr>os_store = st, os_replays = rs\<rparr>" "(quarantine_next A)\<^sup>*\<^sup>* (st_db st) (st_db st')"
    "batches_ok (st_db st')" "set (t_batches (st_db st)) \<subseteq> set (t_batches (st_db st'))"
    "\<And>r. r \<in> set rs' \<Longrightarrow> r \<in> set rs \<or> replay_ok env (st_db st') r"
    "\<And>q. q \<in> set (t_quarantine (st_db st)) \<Longrightarrow> A q \<Longrightarrow>
       \<exists>project. pg_uuid project = qb_project_id q \<and> payload_stored env project (qb_payload q) (st_db st')"
    "\<And>q p. same_identity q p \<Longrightarrow> A p = A q"
  shows "ops_inv env \<lparr>os_store = st', os_replays = rs'\<rparr>"
proof -
  have "resolved_ok env (st_db st')"
    unfolding resolved_ok_def
  proof (intro ballI impI)
    fix q' assume q': "q' \<in> set (t_quarantine (st_db st'))" "qb_status q' = ''resolved''"
    from quarantine_next_origin [OF assms(2) q'] obtain q where
      q: "q \<in> set (t_quarantine (st_db st))" "same_identity q q'" "qb_status q = ''resolved'' \<or> A q"
      using assms(7) by blast
    have "\<exists>project. pg_uuid project = qb_project_id q \<and> payload_stored env project (qb_payload q) (st_db st')"
      using q(3)
    proof
      assume "qb_status q = ''resolved''"
      with assms(1) q(1) obtain project where
        "pg_uuid project = qb_project_id q" "payload_stored env project (qb_payload q) (st_db st)"
        by (auto simp: ops_inv_def resolved_ok_def)
      with payload_stored_mono [OF _ assms(4)] show ?thesis by blast
    qed (rule assms(6) [OF q(1)])
    with q(2) show "\<exists>project. pg_uuid project = qb_project_id q' \<and> payload_stored env project (qb_payload q') (st_db st')"
      by (simp add: same_identity_def)
  qed
  moreover have "distinct (map qb_id (t_quarantine (st_db st')))"
    using assms(1) quarantine_next_ids [OF assms(2)] by (simp add: ops_inv_def)
  moreover have "\<forall>r \<in> set rs'. replay_ok env (st_db st') r"
    using assms(1,5) replay_ok_mono [OF _ assms(2,4)] by (auto simp: ops_inv_def)
  ultimately show ?thesis using assms(3) by (simp add: ops_inv_def)
qed

lemma ops_inv_quarantine_only:
  assumes "ops_inv env \<lparr>os_store = st, os_replays = rs\<rparr>" "quarantine_only A (st_db st) (st_db st')"
    "\<And>r. r \<in> set rs' \<Longrightarrow> r \<in> set rs \<or> replay_ok env (st_db st') r"
    "\<And>q. q \<in> set (t_quarantine (st_db st)) \<Longrightarrow> A q \<Longrightarrow>
       \<exists>project. pg_uuid project = qb_project_id q \<and> payload_stored env project (qb_payload q) (st_db st)"
    "\<And>q p. same_identity q p \<Longrightarrow> A p = A q"
  shows "ops_inv env \<lparr>os_store = st', os_replays = rs'\<rparr>"
proof (rule ops_inv_step [OF assms(1) _ _ _ assms(3) _ assms(5)])
  have same: "t_batches (st_db st') = t_batches (st_db st)" "t_entries (st_db st') = t_entries (st_db st)"
    using assms(2) by (simp_all add: quarantine_only_def)
  show "(quarantine_next A)\<^sup>*\<^sup>* (st_db st) (st_db st')" using assms(2) by (simp add: quarantine_only_def)
  show "batches_ok (st_db st')" using assms(1) same by (simp add: ops_inv_def batches_ok_def)
  show "set (t_batches (st_db st)) \<subseteq> set (t_batches (st_db st'))" using same by simp
  fix q assume "q \<in> set (t_quarantine (st_db st))" "A q"
  from assms(4) [OF this] same
  show "\<exists>project. pg_uuid project = qb_project_id q \<and> payload_stored env project (qb_payload q) (st_db st')"
    by (simp add: payload_stored_def already_stored_def)
qed

lemma on_pg_moves: "on_pg m st = (r, st') \<Longrightarrow> moves R m \<Longrightarrow> R (st_db st) (st_db st')"
  by (auto simp: on_pg_def Let_def dest: movesD split: prod.splits)

text \<open>A claim returns the row, with the payload that is in the table.\<close>

lemma quarantine_claim_Inr:
  assumes "quarantine_claim project i s = (Inr q, s')"
  shows "\<exists>p \<in> set (t_quarantine (ps_db s)). same_identity p q \<and> quarantine_at project i p \<and> qb_status p = ''pending''"
proof -
  from assms obtain rs s1 where u: "update_quarantine (\<lambda>q. quarantine_at project i q \<and> qb_status q = ''pending'') claim_row s = (Inr rs, s1)"
    and c: "scan_first scan_quarantine rs s1 = (Inr q, s')"
    by (auto simp: quarantine_claim_def act_cases split: if_splits)
  from scan_first_Inr [OF c] obtain r rest where r: "rs = r # rest" "scan_quarantine r = Inr q" by blast
  then have "q = r" by (auto simp: scan_quarantine_def split: if_splits)
  with update_returning_Inr(1) [OF u [unfolded update_quarantine_def]] r(1)
  have "q \<in> set (map (claim_row (ps_now s)) (filter (\<lambda>q. quarantine_at project i q \<and> qb_status q = ''pending'') (t_quarantine (ps_db s))))"
    by (metis list.set_intros(1))
  then show ?thesis by (auto simp: claim_row_def same_identity_def)
qed

lemma replay_claim_Inr:
  assumes "replay_claim pg p project i s = (Inr q, s')"
  shows "\<exists>r \<in> set (t_quarantine (ps_db s)). same_identity r q \<and> quarantine_at project i r"
  using assms [unfolded replay_claim_def]
proof (cases rule: within_tx_cases)
  case (committed s1 s1' x)
  from committed(3) obtain s2 where "quarantine_claim project i s1 = (Inr x, s2)" by (auto simp: act_cases)
  from quarantine_claim_Inr [OF this] committed(1,2) show ?thesis by auto
qed auto

lemma require_replay_project: "require_replay p project i = None \<Longrightarrow> pr_project_id p = project"
  by (auto simp: require_replay_def require_project_None_iff split: option.splits if_splits)

lemma payload_batch_project: "payload_batch umap lmap lims project payload = Inr b \<Longrightarrow> b_project_id b = project"
  by (auto simp: payload_batch_def normalize_def Let_def split: sum.splits prod.splits if_splits option.splits)

lemma already_stored_cong:
  "b_project_id b = b_project_id b' \<Longrightarrow> b_id b = b_id b' \<Longrightarrow> b_payload_hash b = b_payload_hash b' \<Longrightarrow>
     already_stored b n d = already_stored b' n d"
  by (simp add: already_stored_def)

lemma replay_ingest_step:
  assumes "replay_ingest pg umap lmap lims p project payload c st = (res, st')" "pr_project_id p = project"
  shows "batches_ok (st_db st) \<Longrightarrow> batches_ok (st_db st')" "set (t_batches (st_db st)) \<subseteq> set (t_batches (st_db st'))"
    "t_quarantine (st_db st') = t_quarantine (st_db st)"
    "res = Inr () \<Longrightarrow> \<exists>b n. payload_batch umap lmap lims project payload = Inr b \<and> b_project_id b = project \<and>
       already_stored b n (st_db st')"
proof -
  show q: "t_quarantine (st_db st') = t_quarantine (st_db st)" using assms(1) by (rule replay_ingest_quarantine_same)
  consider (bad) e where "res = Inl (Protocol e)" "st' = st"
    | (called) b r where "payload_batch umap lmap lims project payload = Inr b"
        "accept pg (replay_principal p) b c st = (r, st')" "res = Inr () \<longleftrightarrow> (\<exists>x. r = Inr x)"
    using assms(1) by (auto simp: replay_ingest_def andthen_def split: sum.splits prod.splits)
  then have "(batches_ok (st_db st) \<longrightarrow> batches_ok (st_db st')) \<and> set (t_batches (st_db st)) \<subseteq> set (t_batches (st_db st')) \<and>
    (res = Inr () \<longrightarrow> (\<exists>b n. payload_batch umap lmap lims project payload = Inr b \<and> b_project_id b = project \<and>
       already_stored b n (st_db st')))"
  proof cases
    case called
    from called(2) show ?thesis
    proof (cases rule: accept_cases)
      case (lost e b')
      with called stores_batch_ok stores_batch_mono show ?thesis by blast
    next
      case (duplicate r' b')
      note pb = prepare_batch_Inr [OF duplicate(2)] and pj = payload_batch_project [OF called(1)]
      have "already_stored b (ir_accepted r') (st_db st')"
        using duplicate(4,5) already_stored_cong [of b' b] pb pj assms(2) by (simp add: replay_principal_def)
      with called duplicate pj show ?thesis by auto
    next
      case (accepted r' b')
      note pb = prepare_batch_Inr [OF accepted(2)] and pj = payload_batch_project [OF called(1)]
      have "already_stored b' (int (length (b_entries b'))) (st_db st')" using accepted(5) by (rule stores_batch_stored)
      then have "already_stored b (int (length (b_entries b'))) (st_db st')"
        using already_stored_cong [of b' b] pb pj assms(2) by (simp add: replay_principal_def)
      with called(1) accepted(5) pj stores_batch_ok(1) stores_batch_mono show ?thesis by blast
    qed (use called in auto)
  qed auto
  then show "batches_ok (st_db st) \<Longrightarrow> batches_ok (st_db st')" "set (t_batches (st_db st)) \<subseteq> set (t_batches (st_db st'))"
    "res = Inr () \<Longrightarrow> \<exists>b n. payload_batch umap lmap lims project payload = Inr b \<and> b_project_id b = project \<and>
       already_stored b n (st_db st')" by blast+
qed

lemma set_drop_at: "set (drop_at k rs) \<subseteq> set rs"
  unfolding drop_at_def using set_take_subset [of k rs] set_drop_subset [of "Suc k" rs] by auto

lemma row_unique:
  "distinct (map qb_id (t_quarantine d)) \<Longrightarrow> q \<in> set (t_quarantine d) \<Longrightarrow> q' \<in> set (t_quarantine d) \<Longrightarrow> qb_id q = qb_id q' \<Longrightarrow> q = q'"
  by (auto simp: distinct_map inj_on_def)

text \<open>Every step keeps the invariant.\<close>

lemma ops_step_inv:
  assumes "ops_step env os os'" "ops_inv env os"
  shows "ops_inv env os'"
  using assms
proof (induction rule: ops_step.induct)
  case (step_claim p project i st q st' rs)
  have only: "quarantine_only (\<lambda>_. False) (st_db st) (st_db st')"
    using on_pg_moves [OF step_claim.hyps(2) replay_claim_moves] .
  obtain r where r: "r \<in> set (t_quarantine (st_db st))" "same_identity r q" "quarantine_at project i r"
    using step_claim.hyps(2) replay_claim_Inr by (auto simp: on_pg_def Let_def split: prod.splits) blast
  then obtain r' where "r' \<in> set (t_quarantine (st_db st'))" "same_identity r r'"
    using only quarantine_next_row [OF _ r(1)] unfolding quarantine_only_def by blast
  with r step_claim.hyps(1) show ?case
    by (intro ops_inv_quarantine_only [OF step_claim.prems only])
      (auto simp: replay_ok_def same_identity_def quarantine_at_def)
next
  case (step_claim_failed p project i st e st' rs)
  show ?case
    by (rule ops_inv_quarantine_only [OF step_claim_failed.prems on_pg_moves [OF step_claim_failed.hyps replay_claim_moves [of "\<lambda>_. False"]]]) auto
next
  case (step_ingest k rs c st res st')
  let ?r = "rs ! k"
  have mem: "?r \<in> set rs" using step_ingest.hyps(1) by simp
  then have ok: "replay_ok env (st_db st) ?r" using step_ingest.prems by (auto simp: ops_inv_def)
  then have "pr_project_id (ry_principal ?r) = ry_project ?r" using require_replay_project by (auto simp: replay_ok_def)
  note step = replay_ingest_step [OF step_ingest.hyps(3) this]
  have move: "(quarantine_next (\<lambda>_. False))\<^sup>*\<^sup>* (st_db st) (st_db st')" using step(3) by (rule quarantine_same)
  have "replay_ok env (st_db st') (?r\<lparr>ry_result := Some res\<rparr>)"
    using replay_ok_mono [OF ok move step(2)] step(4) by (auto simp: replay_ok_def payload_stored_def)
  then show ?case
    using step(1) step_ingest.prems
    by (intro ops_inv_step [OF step_ingest.prems move _ step(2)])
      (auto simp: ops_inv_def dest: set_update_subset_insert [THEN subsetD])
next
  case (step_finish k rs res t st x st')
  let ?r = "rs ! k"
  have mem: "?r \<in> set rs" using step_finish.hyps(1) by simp
  then have ok: "replay_ok env (st_db st) ?r" using step_finish.prems by (auto simp: ops_inv_def)
  define A where "A = (\<lambda>q. res = Inr () \<and> quarantine_at (ry_project ?r) (ry_id ?r) q)"
  have "res = Inr () \<Longrightarrow> quarantine_at (ry_project ?r) (ry_id ?r) \<le> A" by (simp add: A_def)
  note only = on_pg_moves [OF step_finish.hyps(3) replay_finish_moves [OF this]]
  have stored: "\<exists>project. pg_uuid project = qb_project_id q \<and> payload_stored env project (qb_payload q) (st_db st)"
    if q: "q \<in> set (t_quarantine (st_db st))" "A q" for q
  proof -
    from ok obtain q' where q': "q' \<in> set (t_quarantine (st_db st))" "quarantine_at (ry_project ?r) (ry_id ?r) q'"
      "qb_payload q' = qb_payload (ry_claimed ?r)" by (auto simp: replay_ok_def)
    have "distinct (map qb_id (t_quarantine (st_db st)))" using step_finish.prems by (simp add: ops_inv_def)
    then have "q = q'" using q q' by (intro row_unique [of "st_db st"]) (auto simp: A_def quarantine_at_def)
    with q q' ok step_finish.hyps(2) show ?thesis
      by (intro exI [of _ "ry_project ?r"]) (auto simp: A_def quarantine_at_def replay_ok_def)
  qed
  show ?case
    by (rule ops_inv_quarantine_only [OF step_finish.prems only _ stored])
      (auto simp: A_def quarantine_at_def same_identity_def dest: set_drop_at [THEN subsetD])
next
  case (step_crash st rs k)
  then show ?case using set_drop_at by (fastforce simp: ops_inv_def)
next
  case (step_discard p project i t st x st' rs)
  show ?case
    by (rule ops_inv_quarantine_only [OF step_discard.prems on_pg_moves [OF step_discard.hyps discard_moves [of "\<lambda>_. False"]]]) auto
next
  case (step_lease t n st x st' rs)
  have "distinct (map qb_id (t_quarantine (st_db st)))" using step_lease.prems by (simp add: ops_inv_def)
  then have only: "quarantine_only (\<lambda>_. False) (st_db st) (st_db st')"
    using step_lease.hyps quarantine_requeue_moves by (auto simp: on_pg_def Let_def split: prod.splits)
  show ?case by (rule ops_inv_quarantine_only [OF step_lease.prems only]) auto
next
  case (step_accept p b c st x st' rs)
  have move: "(quarantine_next (\<lambda>_. False))\<^sup>*\<^sup>* (st_db st) (st_db st')"
    using accept_quarantine_same [OF step_accept.hyps] by (rule quarantine_same)
  have "(batches_ok (st_db st) \<longrightarrow> batches_ok (st_db st')) \<and> set (t_batches (st_db st)) \<subseteq> set (t_batches (st_db st'))"
    using step_accept.hyps by (cases rule: accept_cases) (use stores_batch_ok(1) stores_batch_mono in auto)
  with step_accept.prems show ?case
    by (intro ops_inv_step [OF step_accept.prems move]) (auto simp: ops_inv_def)
next
  case (step_time l s rs now outcomes)
  then show ?case by (simp add: ops_inv_def)
qed

section \<open>Reachable states\<close>

lemma ops_steps_inv: "(ops_step env)\<^sup>*\<^sup>* os os' \<Longrightarrow> ops_inv env os \<Longrightarrow> ops_inv env os'"
  by (induction rule: rtranclp_induct) (auto intro: ops_step_inv)

lemma ops_step_rows:
  assumes "ops_step env os os'" "distinct (map qb_id (t_quarantine (os_db os)))"
  shows "\<exists>A. (quarantine_next A)\<^sup>*\<^sup>* (os_db os) (os_db os')"
  using assms
proof (induction rule: ops_step.induct)
  case (step_claim p project i st q st' rs)
  from on_pg_moves [OF step_claim.hyps(2) replay_claim_moves] show ?case by (auto simp: quarantine_only_def)
next
  case (step_claim_failed p project i st e st' rs)
  from on_pg_moves [OF step_claim_failed.hyps replay_claim_moves] show ?case by (auto simp: quarantine_only_def)
next
  case (step_ingest k rs c st res st')
  from replay_ingest_quarantine_same [OF step_ingest.hyps(3)] show ?case by (auto intro: quarantine_same)
next
  case (step_finish k rs res t st x st')
  from on_pg_moves [OF step_finish.hyps(3) replay_finish_moves [of _ _ _ "\<lambda>_. True"]]
  show ?case by (auto simp: quarantine_only_def le_fun_def)
next
  case (step_discard p project i t st x st' rs)
  from on_pg_moves [OF step_discard.hyps discard_moves] show ?case by (auto simp: quarantine_only_def)
next
  case (step_lease t n st x st' rs)
  then have "quarantine_only (\<lambda>_. False) (st_db st) (st_db st')"
    using quarantine_requeue_moves by (auto simp: on_pg_def Let_def split: prod.splits)
  then show ?case by (auto simp: quarantine_only_def)
next
  case (step_accept p b c st x st' rs)
  from accept_quarantine_same [OF step_accept.hyps] show ?case by (auto intro: quarantine_same)
qed auto

definition row_kept :: "quarantine_batch \<Rightarrow> quarantine_batch \<Rightarrow> bool" where
  "row_kept q q' \<longleftrightarrow> same_identity q q' \<and> qb_attempts q \<le> qb_attempts q' \<and> (qb_status q \<in> {''resolved'', ''discarded''} \<longrightarrow> q' = q)"

lemma row_kept_trans: "row_kept q q' \<Longrightarrow> row_kept q' q'' \<Longrightarrow> row_kept q q''"
  by (auto simp: row_kept_def same_identity_def)

lemma arrow_kept: "quarantine_arrow A q q' \<Longrightarrow> row_kept q q'"
  by (auto simp: quarantine_arrow_def row_kept_def)

lemma quarantine_next_kept:
  assumes "(quarantine_next A)\<^sup>*\<^sup>* d d'"
  shows "list_all2 row_kept (t_quarantine d) (t_quarantine d')"
  using assms
proof (induction rule: rtranclp_induct)
  case base
  show ?case by (simp add: list_all2_same row_kept_def same_identity_def)
next
  case (step d' d'')
  have "list_all2 row_kept (t_quarantine d') (t_quarantine d'')"
    using step.hyps(2) unfolding quarantine_next_def by (rule list_all2_mono) (rule arrow_kept)
  with step.IH show ?case by (rule list_all2_trans [rotated]) (rule row_kept_trans)
qed

lemma ops_steps_rows:
  assumes "(ops_step env)\<^sup>*\<^sup>* os os'" "distinct (map qb_id (t_quarantine (os_db os)))"
  shows "list_all2 row_kept (t_quarantine (os_db os)) (t_quarantine (os_db os')) \<and>
    distinct (map qb_id (t_quarantine (os_db os')))"
  using assms
proof (induction rule: rtranclp_induct)
  case base
  then show ?case by (simp add: list_all2_same row_kept_def same_identity_def)
next
  case (step os' os'')
  then obtain A where "(quarantine_next A)\<^sup>*\<^sup>* (os_db os') (os_db os'')" using ops_step_rows by blast
  note next_kept = quarantine_next_kept [OF this] quarantine_next_ids [OF this]
  have "list_all2 row_kept (t_quarantine (os_db os)) (t_quarantine (os_db os''))"
    using step next_kept(1) by (intro list_all2_trans [OF row_kept_trans]) auto
  with step next_kept(2) show ?case by simp
qed

end
