(* ===== verification/Maintenance_Worker.thy ===== *)
theory Maintenance_Worker
  imports Store_Logs
begin

text \<open>
  The maintenance worker (\<open>internal/server/maintenance/worker.go\<close>): a cycle marks stale agents, requeues
  expired claims and applies the retention policies in bounded batches. Every statement is its own
  transaction. The ticker of \<open>Run\<close> is the sequence of the cycles; its loop ends only with the context.
\<close>

section \<open>Configuration\<close>

record maintenance_config =
  mc_interval :: duration
  mc_agent_stale_after :: duration
  mc_quarantine_lease :: duration
  mc_batch_size :: int
  mc_max_batches_per_project :: int
  mc_max_projects_per_cycle :: int

definition default_maintenance :: maintenance_config where
  "default_maintenance =
     \<lparr>mc_interval = 60 * second, mc_agent_stale_after = 120 * second, mc_quarantine_lease = 300 * second,
      mc_batch_size = 1000, mc_max_batches_per_project = 10, mc_max_projects_per_cycle = 500\<rparr>"

definition new_worker :: "maintenance_config \<Rightarrow> server_error + maintenance_config" where
  "new_worker c =
     (if mc_interval c \<le> 0 \<or> mc_agent_stale_after c \<le> mc_interval c \<or> mc_quarantine_lease c \<le> 0 \<or> mc_batch_size c \<le> 0 \<or>
         mc_batch_size c > 10000 \<or> mc_max_batches_per_project c \<le> 0 \<or> mc_max_projects_per_cycle c \<le> 0
      then Inl (Internal ''maintenance: invalid configuration'') else Inr c)"

section \<open>A cycle\<close>

text \<open>\<open>attempts\<close> more batches: until an error or a batch that is not full.\<close>

fun age_loop :: "pg \<Rightarrow> maintenance_config \<Rightarrow> uuid \<Rightarrow> time \<Rightarrow> nat \<Rightarrow> unit sql" where
  "age_loop pg c project before 0 = ret ()"
| "age_loop pg c project before (Suc attempts) =
     andthen (delete_entries_before pg project before (mc_batch_size c)) (\<lambda>deleted.
     if deleted < mc_batch_size c then ret () else age_loop pg c project before attempts)"

fun bytes_loop :: "pg \<Rightarrow> maintenance_config \<Rightarrow> uuid \<Rightarrow> int \<Rightarrow> nat \<Rightarrow> unit sql" where
  "bytes_loop pg c project max_bytes 0 = ret ()"
| "bytes_loop pg c project max_bytes (Suc attempts) =
     andthen (delete_oldest_if_over_bytes pg project max_bytes (mc_batch_size c)) (\<lambda>deleted.
     if deleted = 0 then ret () else bytes_loop pg c project max_bytes attempts)"

definition apply_policy :: "pg \<Rightarrow> maintenance_config \<Rightarrow> time \<Rightarrow> retention_policy \<Rightarrow> unit sql" where
  "apply_policy pg c now p =
     andthen (age_loop pg c (rp_project_id p) (now - rp_max_age p) (nat (mc_max_batches_per_project c))) (\<lambda>_.
     case rp_max_bytes p of
       None \<Rightarrow> ret ()
     | Some b \<Rightarrow> bytes_loop pg c (rp_project_id p) b (nat (mc_max_batches_per_project c)))"

fun apply_policies :: "pg \<Rightarrow> maintenance_config \<Rightarrow> time \<Rightarrow> retention_policy list \<Rightarrow> unit sql" where
  "apply_policies pg c now [] = ret ()"
| "apply_policies pg c now (p # ps) = andthen (apply_policy pg c now p) (\<lambda>_. apply_policies pg c now ps)"

definition run_once :: "pg \<Rightarrow> maintenance_config \<Rightarrow> time \<Rightarrow> unit sql" where
  "run_once pg c now =
     andthen (agents_mark_stale_before pg (now - mc_agent_stale_after c) (mc_batch_size c)) (\<lambda>_.
     andthen (quarantine_requeue_expired pg (now - mc_quarantine_lease c) (mc_batch_size c)) (\<lambda>_.
     andthen (retention_list_enabled (mc_max_projects_per_cycle c)) (\<lambda>policies.
     apply_policies pg c now policies)))"

section \<open>What a cycle may delete\<close>

text \<open>
  \<open>only_expired\<close>: nothing but entries disappears, and only entries of a project with an enabled policy, past
  its age, or over its bytes; batches stay, so that a late retry is still a duplicate.
\<close>

definition may_delete :: "pg \<Rightarrow> time \<Rightarrow> retention_policy list \<Rightarrow> entry \<Rightarrow> bool" where
  "may_delete pg now ps e \<longleftrightarrow>
     (\<exists>p \<in> set ps. e_project_id e = pg_uuid (rp_project_id p) \<and>
        (e_ingested_at e < pg_time pg (now - rp_max_age p) \<or> rp_max_bytes p \<noteq> None))"

definition only_deletes :: "(entry \<Rightarrow> bool) \<Rightarrow> db \<Rightarrow> db \<Rightarrow> bool" where
  "only_deletes M d d' \<longleftrightarrow>
     t_batches d' = t_batches d \<and> t_retention d' = t_retention d \<and>
     (\<exists>keep. t_entries d' = filter keep (t_entries d) \<and> (\<forall>e \<in> set (t_entries d). keep e \<or> M e))"

definition deletes :: "(entry \<Rightarrow> bool) \<Rightarrow> db \<Rightarrow> db \<Rightarrow> bool" where
  "deletes M d d' \<longleftrightarrow> (distinct (map e_id (t_entries d)) \<longrightarrow> only_deletes M d d')"

lemma only_deletes_refl: "t_batches d' = t_batches d \<Longrightarrow> t_retention d' = t_retention d \<Longrightarrow> t_entries d' = t_entries d \<Longrightarrow> only_deletes M d d'"
  by (auto simp: only_deletes_def intro!: exI [of _ "\<lambda>_. True"])

lemma only_deletes_distinct: "only_deletes M d d' \<Longrightarrow> distinct (map e_id (t_entries d)) \<Longrightarrow> distinct (map e_id (t_entries d'))"
  by (auto simp: only_deletes_def distinct_map_filter)

lemma only_deletes_trans:
  assumes a: "only_deletes M d d'" and b: "only_deletes M d' d''"
  shows "only_deletes M d d''"
proof -
  obtain k1 where k1: "t_entries d' = filter k1 (t_entries d)" "\<forall>e \<in> set (t_entries d). k1 e \<or> M e"
    using a by (auto simp: only_deletes_def)
  obtain k2 where k2: "t_entries d'' = filter k2 (t_entries d')" "\<forall>e \<in> set (t_entries d'). k2 e \<or> M e"
    using b by (auto simp: only_deletes_def)
  have "t_entries d'' = filter (\<lambda>e. k1 e \<and> k2 e) (t_entries d)" using k1 k2 by (auto intro: filter_cong)
  moreover have "\<forall>e \<in> set (t_entries d). (k1 e \<and> k2 e) \<or> M e" using k1 k2 by auto
  moreover have "t_batches d'' = t_batches d \<and> t_retention d'' = t_retention d" using a b by (simp add: only_deletes_def)
  ultimately show ?thesis
    unfolding only_deletes_def by (intro conjI exI [of _ "\<lambda>e. k1 e \<and> k2 e"]) simp_all
qed

interpretation del: history "deletes M" for M
proof
  show "deletes M d d" for d by (simp add: deletes_def only_deletes_refl)
  show "deletes M d d''" if "deletes M d d'" "deletes M d' d''" for d d' d''
    using that only_deletes_trans only_deletes_distinct unfolding deletes_def by blast
qed

lemma doomed_ids:
  assumes "distinct (map e_id (t_entries d))" "set doomed \<subseteq> set (t_entries d)" "e \<in> set (t_entries d)"
  shows "e_id e \<in> set (map e_id doomed) \<longleftrightarrow> e \<in> set doomed"
  using assms by (auto simp: distinct_map inj_on_def)

lemma delete_entries_moves:
  assumes "\<And>d. set (doomed d) \<subseteq> {e \<in> set (t_entries d). M e}"
  shows "moves (deletes M) (delete_entries doomed)"
  unfolding delete_entries_def
proof (rule del.moves_stmt, unfold moves_def, intro allI)
  fix s :: pgstate
  let ?d = "ps_db s"
  let ?ids = "map e_id (doomed ?d)"
  let ?d' = "t_entries_update (filter (\<lambda>e. e_id e \<notin> set ?ids)) ?d"
  have "deletes M ?d ?d'"
    unfolding deletes_def
  proof
    assume dist: "distinct (map e_id (t_entries ?d))"
    have sub: "set (doomed ?d) \<subseteq> set (t_entries ?d)" using assms by blast
    have "\<forall>e \<in> set (t_entries ?d). e_id e \<notin> set ?ids \<or> M e"
      using doomed_ids [OF dist sub] assms [of ?d] by blast
    moreover have "distinct (map e_id (filter (\<lambda>e. e_id e \<notin> set ?ids) (t_entries ?d)))"
      using dist by (rule distinct_map_filter)
    ultimately show "only_deletes M ?d ?d'" unfolding only_deletes_def by auto
  qed
  then show "deletes M ?d (ps_db (snd (let ids = map e_id (doomed ?d)
      in (Inr (int (length ids)), upd_db (t_entries_update (filter (\<lambda>e. e_id e \<notin> set ids))) s))))"
    by (simp add: Let_def)
qed

lemma set_limited: "set (limited n xs) \<subseteq> set xs"
  by (simp add: limited_def set_take_subset)

lemma delete_entries_before_moves:
  assumes "\<And>e. e_project_id e = pg_uuid project \<Longrightarrow> e_ingested_at e < pg_time pg before \<Longrightarrow> M e"
  shows "moves (deletes M) (delete_entries_before pg project before n)"
  unfolding delete_entries_before_def
  by (intro del.moves_if del.moves_fail delete_entries_moves)
    (use assms set_limited in \<open>fastforce simp: oldest_first_def\<close>)

lemma delete_oldest_moves:
  assumes "\<And>e. e_project_id e = pg_uuid project \<Longrightarrow> M e"
  shows "moves (deletes M) (delete_oldest_if_over_bytes pg project b n)"
  unfolding delete_oldest_if_over_bytes_def
  by (intro del.moves_if del.moves_fail delete_entries_moves)
    (use assms set_limited in \<open>fastforce simp: oldest_first_def\<close>)

lemma age_loop_moves:
  assumes "\<And>e. e_project_id e = pg_uuid project \<Longrightarrow> e_ingested_at e < pg_time pg before \<Longrightarrow> M e"
  shows "moves (deletes M) (age_loop pg c project before n)"
  by (induction n)
    (simp_all only: age_loop.simps, blast intro: del.moves_ret, intro del.moves_andthen del.moves_if del.moves_ret delete_entries_before_moves assms)

lemma bytes_loop_moves:
  assumes "\<And>e. e_project_id e = pg_uuid project \<Longrightarrow> M e"
  shows "moves (deletes M) (bytes_loop pg c project b n)"
  by (induction n)
    (simp_all only: bytes_loop.simps, blast intro: del.moves_ret, intro del.moves_andthen del.moves_if del.moves_ret delete_oldest_moves assms)

lemma apply_policies_moves:
  assumes "set ps \<subseteq> set all"
  shows "moves (deletes (may_delete pg now all)) (apply_policies pg c now ps)"
  using assms
proof (induction ps)
  case (Cons p ps)
  have "moves (deletes (may_delete pg now all)) (apply_policy pg c now p)"
    unfolding apply_policy_def
  proof (intro del.moves_andthen)
    show "moves (deletes (may_delete pg now all))
      (age_loop pg c (rp_project_id p) (now - rp_max_age p) (nat (mc_max_batches_per_project c)))"
      by (rule age_loop_moves) (use Cons.prems in \<open>auto simp: may_delete_def\<close>)
    fix x show "moves (deletes (may_delete pg now all)) (case rp_max_bytes p of None \<Rightarrow> ret ()
        | Some b \<Rightarrow> bytes_loop pg c (rp_project_id p) b (nat (mc_max_batches_per_project c)))"
    proof (cases "rp_max_bytes p")
      case (Some b)
      have "moves (deletes (may_delete pg now all)) (bytes_loop pg c (rp_project_id p) b (nat (mc_max_batches_per_project c)))"
        by (rule bytes_loop_moves) (use Cons.prems Some in \<open>auto simp: may_delete_def\<close>)
      with Some show ?thesis by simp
    qed simp
  qed
  with Cons show ?case by (auto intro!: del.moves_andthen)
qed simp

section \<open>A whole cycle\<close>

lemma mark_stale_moves: "moves (deletes M) (agents_mark_stale_before pg before n)"
  unfolding agents_mark_stale_before_def
  by (intro del.moves_if del.moves_fail del.moves_stmt) (simp add: moves_def Let_def deletes_def only_deletes_refl)

lemma requeue_moves: "moves (deletes M) (quarantine_requeue_expired pg before n)"
  unfolding quarantine_requeue_expired_def
  by (intro del.moves_if del.moves_fail del.moves_stmt) (simp add: moves_def Let_def deletes_def only_deletes_refl)

lemma deletesD: "deletes M d d' \<Longrightarrow> distinct (map e_id (t_entries d)) \<Longrightarrow> only_deletes M d d'"
  by (simp add: deletes_def)

lemma scan_policy_rows: "scan_rows scan_policy rs = Inr ps \<Longrightarrow> ps = rs"
  by (induction rs arbitrary: ps) (auto simp: scan_policy_def split: if_splits sum.splits)

lemma list_enabled_Inr:
  assumes "retention_list_enabled n s = (Inr ps, s')"
  shows "set ps \<subseteq> {p \<in> set (t_retention (ps_db s)). rp_enabled p}" "ps_db s' = ps_db s"
proof -
  from assms have q: "query_rows (\<lambda>d. limited n (sort_key (\<lambda>p. (rp_updated_at p, rp_project_id p))
      (filter rp_enabled (t_retention d)))) scan_policy s = (Inr ps, s')"
    by (auto simp: retention_list_enabled_def split: if_splits)
  from query_rows_Inr [OF q] show "ps_db s' = ps_db s" by simp
  from query_rows_Inr [OF q] scan_policy_rows
  have "ps = limited n (sort_key (\<lambda>p. (rp_updated_at p, rp_project_id p)) (filter rp_enabled (t_retention (ps_db s))))"
    by blast
  then show "set ps \<subseteq> {p \<in> set (t_retention (ps_db s)). rp_enabled p}" using set_limited by fastforce
qed

lemma list_enabled_same:
  assumes "retention_list_enabled n s = (r, s')"
  shows "ps_db s' = ps_db s"
proof -
  have "keeps (\<lambda>d. d = ps_db s) (retention_list_enabled n)"
    unfolding retention_list_enabled_def by (intro keep.moves_if keep.moves_fail keep.moves_query_rows)
  from movesD [OF this assms] show ?thesis by simp
qed

abbreviation enabled_policies :: "db \<Rightarrow> retention_policy list" where
  "enabled_policies d \<equiv> filter rp_enabled (t_retention d)"

lemma run_once_only_deletes:
  assumes run: "run_once pg c now s = (r, s')" and dist: "distinct (map e_id (t_entries (ps_db s)))"
  shows "only_deletes (may_delete pg now (enabled_policies (ps_db s))) (ps_db s) (ps_db s')"
proof -
  let ?M = "may_delete pg now (enabled_policies (ps_db s))"
  let ?rest = "andthen (retention_list_enabled (mc_max_projects_per_cycle c)) (apply_policies pg c now)"
  let ?head = "andthen (agents_mark_stale_before pg (now - mc_agent_stale_after c) (mc_batch_size c)) (\<lambda>_.
     quarantine_requeue_expired pg (now - mc_quarantine_lease c) (mc_batch_size c))"
  have split: "run_once pg c now s = andthen ?head (\<lambda>_. ?rest) s"
    by (auto simp: run_once_def andthen_def split: prod.split sum.split)
  obtain r1 s1 where h: "?head s = (r1, s1)" by (cases "?head s")
  have "moves (deletes ?M) ?head" by (intro del.moves_andthen mark_stale_moves requeue_moves)
  from deletesD [OF movesD [OF this h] dist] have od1: "only_deletes ?M (ps_db s) (ps_db s1)" .
  show ?thesis
  proof (cases r1)
    case (Inl e)
    with run h split od1 show ?thesis by (simp add: andthen_def)
  next
    case (Inr u)
    with run h split have rest: "?rest s1 = (r, s')" by (simp add: andthen_def)
    obtain r2 s2 where l: "retention_list_enabled (mc_max_projects_per_cycle c) s1 = (r2, s2)" by fastforce
    show ?thesis
    proof (cases r2)
      case (Inl e)
      with rest l list_enabled_same [OF l] od1 show ?thesis by (simp add: andthen_def)
    next
      case (Inr ps)
      from list_enabled_Inr [OF l [unfolded Inr]] od1
      have ps: "set ps \<subseteq> set (enabled_policies (ps_db s))" "ps_db s2 = ps_db s1" by (auto simp: only_deletes_def)
      from rest l Inr have "apply_policies pg c now ps s2 = (r, s')" by (simp add: andthen_def)
      from movesD [OF apply_policies_moves [OF ps(1)] this] only_deletes_distinct [OF od1 dist] ps(2)
      have "only_deletes ?M (ps_db s1) (ps_db s')" by (simp add: deletes_def)
      with od1 show ?thesis by (rule only_deletes_trans)
    qed
  qed
qed

section \<open>The age of a project's entries\<close>

definition expired :: "pg \<Rightarrow> uuid \<Rightarrow> time \<Rightarrow> db \<Rightarrow> entry list" where
  "expired pg project before d =
     oldest_first (filter (\<lambda>e. e_project_id e = pg_uuid project \<and> e_ingested_at e < pg_time pg before) (t_entries d))"

definition without :: "entry list \<Rightarrow> db \<Rightarrow> db" where
  "without es = t_entries_update (filter (\<lambda>e. e_id e \<notin> set (map e_id es)))"

lemma filter_out_take:
  "distinct (map f xs) \<Longrightarrow> filter (\<lambda>x. f x \<notin> f ` set (take n xs)) xs = drop n xs"
proof (induction xs arbitrary: n)
  case (Cons x xs)
  show ?case
  proof (cases n)
    case (Suc m)
    have "filter (\<lambda>y. f y \<notin> insert (f x) (f ` set (take m xs))) xs = filter (\<lambda>y. f y \<notin> f ` set (take m xs)) xs"
      using Cons.prems by (intro filter_cong) (auto simp: image_iff)
    with Cons Suc show ?thesis by simp
  qed simp
qed simp

lemma distinct_sort_ids: "distinct (map e_id xs) \<Longrightarrow> distinct (map e_id (sort_key k (filter P xs)))"
  by (simp add: distinct_map inj_on_def)

lemma expired_without:
  assumes "distinct (map e_id (t_entries d))"
  shows "expired pg project before (without (take n (expired pg project before d)) d) = drop n (expired pg project before d)"
proof -
  let ?P = "\<lambda>e. e_project_id e = pg_uuid project \<and> e_ingested_at e < pg_time pg before"
  let ?L = "expired pg project before d"
  have "expired pg project before (without (take n ?L) d) =
      filter (\<lambda>e. e_id e \<notin> e_id ` set (take n ?L)) ?L"
    by (simp add: expired_def without_def oldest_first_def filter_sort [symmetric] conj_ac cong: filter_cong)
  also have "\<dots> = drop n ?L"
    using distinct_sort_ids [OF assms] by (intro filter_out_take) (simp add: expired_def oldest_first_def)
  finally show ?thesis .
qed

text \<open>With no faults, \<open>k\<close> batches of \<open>n\<close> delete exactly the \<open>k * n\<close> oldest expired entries, or all of them.\<close>

lemma delete_entries_before_ok:
  assumes "valid_uuid project" "\<not> is_zero before" "0 < n" "n \<le> 10000" "ps_outcomes s = []"
  shows "delete_entries_before pg project before n s =
    (let es = limited n (expired pg project before (ps_db s)) in (Inr (int (length es)), upd_db (without es) s))"
  using assms by (simp add: delete_entries_before_def delete_entries_def stmt_def expired_def without_def Let_def)

lemma without_nothing: "without [] d = d"
  by (simp add: without_def)

lemma without_append: "without ys (without xs d) = without (xs @ ys) d"
  by (simp add: without_def conj_commute cong: filter_cong)

lemma without_distinct: "distinct (map e_id (t_entries d)) \<Longrightarrow> distinct (map e_id (t_entries (without es d)))"
  by (simp add: without_def distinct_map_filter)

lemma upd_db_upd_db: "upd_db g (upd_db f s) = upd_db (\<lambda>d. g (f d)) s"
  by (simp add: upd_db_def)

lemma age_loop_exact:
  assumes "valid_uuid project" "\<not> is_zero before" "0 < mc_batch_size c" "mc_batch_size c \<le> 10000"
    "ps_outcomes s = []" "distinct (map e_id (t_entries (ps_db s)))"
  shows "age_loop pg c project before k s =
    (Inr (), upd_db (without (take (k * nat (mc_batch_size c)) (expired pg project before (ps_db s)))) s)"
  using assms(5,6)
proof (induction k arbitrary: s)
  case 0
  then show ?case by (simp add: upd_db_def without_nothing)
next
  case (Suc k)
  let ?n = "nat (mc_batch_size c)"
  let ?L = "expired pg project before (ps_db s)"
  let ?s1 = "upd_db (without (take ?n ?L)) s"
  have step: "delete_entries_before pg project before (mc_batch_size c) s = (Inr (int (length (take ?n ?L))), ?s1)"
    using delete_entries_before_ok [OF assms(1-4) Suc.prems(1)] by (simp add: Let_def limited_def)
  show ?case
  proof (cases "int (length (take ?n ?L)) < mc_batch_size c")
    case True
    then have short: "length ?L < ?n" by (simp add: min_def split: if_splits)
    then have "take (Suc k * ?n) ?L = take ?n ?L" by simp
    moreover have "int (length ?L) < mc_batch_size c" using short by linarith
    ultimately show ?thesis using short step by (simp add: andthen_def)
  next
    case False
    have "age_loop pg c project before k ?s1 =
        (Inr (), upd_db (without (take (k * ?n) (expired pg project before (ps_db ?s1)))) ?s1)"
      using Suc.prems by (intro Suc.IH) (simp_all add: without_distinct upd_db_def)
    also have "expired pg project before (ps_db ?s1) = drop ?n ?L"
      using expired_without [OF Suc.prems(2)] by simp
    finally have "age_loop pg c project before k ?s1 =
        (Inr (), upd_db (without (take ?n ?L @ take (k * ?n) (drop ?n ?L))) s)"
      by (simp add: upd_db_upd_db without_append)
    moreover have "take ?n ?L @ take (k * ?n) (drop ?n ?L) = take (Suc k * ?n) ?L"
      by (simp add: take_add)
    ultimately show ?thesis using False step by (simp add: andthen_def)
  qed
qed

end
