(* ===== verification/Operations_Properties.thy ===== *)
theory Operations_Properties
  imports Operations_Service Maintenance_Worker Server_Properties Ingest_Properties
begin

text \<open>
  The properties of the quarantine, of the maintenance cycle and of the heartbeat, each with a concrete
  database to which it applies.
\<close>

section \<open>Quarantine\<close>

definition sample_quarantine :: "char \<Rightarrow> string \<Rightarrow> bytes \<Rightarrow> quarantine_batch" where
  "sample_quarantine c status payload =
     \<lparr>qb_id = uid c, qb_project_id = uid (CHR ''1''), qb_batch_id = uid c, qb_payload = payload,
      qb_payload_hash = replicate 32 (CHR ''h''), qb_error_code = ''invalid'', qb_error_detail = ''d'', qb_status = status,
      qb_attempts = 0, qb_created_at = 1, qb_claimed_at = None,
      qb_resolved_at = (if status = ''pending'' then None else Some 2)\<rparr>"

definition operator :: principal where
  "operator = \<lparr>pr_key_id = uid (CHR ''9''), pr_project_id = uid (CHR ''1''), pr_agent_id = None, pr_scopes = {''quarantine:replay''}\<rparr>"

definition sample_env :: ops_env where
  "sample_env = \<lparr>oe_pg = sample_pg, oe_err_text = (\<lambda>_. ''error''), oe_upper = (\<lambda>s. s), oe_lower = (\<lambda>s. s),
     oe_limits = default_limits\<rparr>"

definition quarantine_state :: "stored_batch list \<Rightarrow> bytes \<Rightarrow> pgstate" where
  "quarantine_state bs payload = (sample_state [])\<lparr>ps_db := sample_db\<lparr>t_batches := bs,
     t_quarantine := [sample_quarantine (CHR ''a'') ''pending'' ''x'', sample_quarantine (CHR ''b'') ''resolved'' payload]\<rparr>\<rparr>"

definition after_discard :: "pgstate \<Rightarrow> pgstate" where
  "after_discard s = snd (discard_quarantine sample_pg operator (uid (CHR ''1'')) (uid (CHR ''a'')) 6 s)"

definition idle :: "pgstate \<Rightarrow> ops_state" where
  "idle s = \<lparr>os_store = (None, s), os_replays = []\<rparr>"

lemma discard_step: "ops_step sample_env (idle s) (idle (after_discard s))"
  unfolding idle_def
  by (rule step_discard [where p = operator and project = "uid (CHR ''1'')" and i = "uid (CHR ''a'')" and t = 6])
    (simp add: on_pg_def after_discard_def sample_env_def prod_eq_iff split: prod.split)



text \<open>
  C22. A quarantined row is marked resolved only when its batch is stored: from a state with no replay under
  way and in which this holds, it holds after any sequence of steps, the claims, replays, releases, discards
  and expired leases of several operators interleaved in any order.
\<close>

theorem quarantine_resolved_stored:
  assumes "(ops_step env)\<^sup>*\<^sup>* os os'" "os_replays os = []" "distinct (map qb_id (t_quarantine (os_db os)))"
    "batches_ok (os_db os)" "resolved_ok env (os_db os)"
  shows "\<forall>q \<in> set (t_quarantine (os_db os')). qb_status q = ''resolved'' \<longrightarrow>
    (\<exists>project b n. pg_uuid project = qb_project_id q \<and> b_project_id b = project \<and>
       payload_batch (oe_upper env) (oe_lower env) (oe_limits env) project (qb_payload q) = Inr b \<and>
       already_stored b n (os_db os'))"
proof -
  have "ops_inv env os" using assms(2-5) by (simp add: ops_inv_def)
  from ops_steps_inv [OF assms(1) this] have "resolved_ok env (os_db os')" by (simp add: ops_inv_def)
  then show ?thesis unfolding resolved_ok_def payload_stored_def by blast
qed

definition sample_payload :: bytes where
  "sample_payload = ''{\"protocol_version\":1,\"batch_id\":\"'' @ sample_id (CHR ''4'') @ ''\",\"agent_id\":\"'' @ sample_id (CHR ''2'') @
     ''\",\"pipeline_id\":\"'' @ sample_id (CHR ''3'') @ ''\",\"sequence\":0,\"sent_at\":\"2026-08-19T00:00:00Z\",\"entries\":'' @
     ''[{\"sequence\":0,\"observed_at\":\"2026-08-19T00:00:00Z\",\"level\":\" info\",\"service\":\"api \",\"host\":\"node\",'' @
     ''\"message\":\"ok\",\"attributes\":{\"b\":1.0,\"nested\":{\"z\":2,\"a\":0.0010}}}]}''"

lemma sample_payload_decodes:
  "fst (decode (Some (sample_payload, False)) (l_max_body_bytes default_limits)) = Inr (sample_request attributes_1)"
  by code_simp

text \<open>The hash of the batch is left unevaluated: the state holds whatever \<open>Normalize\<close> computes.\<close>

lemma sample_payload_batch:
  "\<exists>b. payload_batch (\<lambda>s. s) (\<lambda>s. s) default_limits (sample_id (CHR ''1'')) sample_payload = Inr b \<and>
     b_id b = sample_id (CHR ''4'') \<and> b_project_id b = sample_id (CHR ''1'') \<and> length (b_payload_hash b) = 32"
proof -
  obtain n where n: "decode (Some (sample_payload, False)) (l_max_body_bytes default_limits) = (Inr (sample_request attributes_1), n)"
    using sample_payload_decodes by (metis prod.collapse)
  have l: "effective_limits default_limits = default_limits" by (simp add: effective_limits_def default_limits_def)
  show ?thesis
    using sample_request_ok [of attributes_1] n l
    by (simp add: payload_batch_def normalize_result [of default_limits] bound_batch_def sample_request_def protocol_version_def)
qed

definition stored_for :: "batch \<Rightarrow> stored_batch" where
  "stored_for b =
     \<lparr>sb_id = uid (CHR ''4''), sb_project_id = uid (CHR ''1''), sb_agent_id = uid (CHR ''2''), sb_pipeline_id = uid (CHR ''3''),
      sb_sequence = 0, sb_payload_hash = b_payload_hash b, sb_entry_count = 1, sb_payload_bytes = 1, sb_status = ''committed'',
      sb_created_at = 1, sb_committed_at = Some 2, sb_error_code = None\<rparr>"

theorem quarantine_resolved_stored_witness:
  "\<exists>b. payload_batch (\<lambda>s. s) (\<lambda>s. s) default_limits (uid (CHR ''1'')) sample_payload = Inr b \<and>
     (\<forall>q \<in> set (t_quarantine (ps_db (after_discard (quarantine_state [stored_for b] sample_payload)))). qb_status q = ''resolved'' \<longrightarrow>
        (\<exists>project b' n. payload_batch (\<lambda>s. s) (\<lambda>s. s) default_limits project (qb_payload q) = Inr b' \<and>
           already_stored b' n (ps_db (after_discard (quarantine_state [stored_for b] sample_payload)))))"
proof -
  have u: "uid c = sample_id c" for c by (simp add: uid_def sample_id_def)
  have low: "pg_uuid (uid (CHR ''1'')) = uid (CHR ''1'')" "pg_uuid (uid (CHR ''4'')) = uid (CHR ''4'')" by code_simp+
  obtain b where b: "payload_batch (\<lambda>s. s) (\<lambda>s. s) default_limits (uid (CHR ''1'')) sample_payload = Inr b"
    "b_id b = uid (CHR ''4'')" "b_project_id b = uid (CHR ''1'')" "length (b_payload_hash b) = 32"
    using sample_payload_batch unfolding u by blast
  let ?s = "quarantine_state [stored_for b] sample_payload"
  have st: "(ops_step sample_env)\<^sup>*\<^sup>* (idle ?s) (idle (after_discard ?s))" using discard_step by (rule r_into_rtranclp)
  have ids: "distinct (map qb_id (t_quarantine (os_db (idle ?s))))"
    by (simp add: idle_def quarantine_state_def sample_quarantine_def uid_def)
  have ok: "batches_ok (os_db (idle ?s))"
    using b(4) by (simp add: idle_def quarantine_state_def batches_ok_def batch_row_def stored_for_def sample_db_def)
  have "already_stored b 1 (os_db (idle ?s))"
    using b low by (simp add: already_stored_def idle_def quarantine_state_def stored_for_def batch_at_def)
  with b low have "resolved_ok sample_env (os_db (idle ?s))"
    by (auto simp: resolved_ok_def payload_stored_def sample_env_def idle_def quarantine_state_def sample_quarantine_def)
  from quarantine_resolved_stored [OF st _ ids ok this]
  have "\<forall>q \<in> set (t_quarantine (ps_db (after_discard ?s))). qb_status q = ''resolved'' \<longrightarrow>
    (\<exists>project b' n. payload_batch (\<lambda>s. s) (\<lambda>s. s) default_limits project (qb_payload q) = Inr b' \<and>
       already_stored b' n (ps_db (after_discard ?s)))"
    by (simp add: idle_def sample_env_def) blast
  with b(1) show ?thesis by blast
qed

section \<open>Maintenance\<close>


definition aged_entry :: "int \<Rightarrow> char \<Rightarrow> time \<Rightarrow> entry" where
  "aged_entry i project t =
     sample_row\<lparr>e_id := i, e_project_id := uid project, e_batch_id := uid (CHR ''4''), e_ingested_at := t\<rparr>"

text \<open>Two projects, the first with a policy of ten seconds; the clock stands at a hundred seconds.\<close>

definition aged_state :: pgstate where
  "aged_state = (sample_state [])\<lparr>ps_db := sample_db\<lparr>
     t_entries := [aged_entry 1 (CHR ''1'') (95 * second), aged_entry 2 (CHR ''5'') second,
                   aged_entry 3 (CHR ''1'') (2 * second), aged_entry 4 (CHR ''1'') second],
     t_retention := [\<lparr>rp_project_id = uid (CHR ''1''), rp_max_age = 10 * second, rp_max_bytes = None, rp_enabled = True,
       rp_updated_at = 1\<rparr>]\<rparr>\<rparr>"


text \<open>
  With no faults, the age loop ends after at most \<open>k\<close> statements and deletes exactly the \<open>k * batch\<close>
  oldest of the project's expired entries (all of them when there are fewer), and changes nothing else.
\<close>

theorem age_loop_deletes_oldest:
  assumes "valid_uuid project" "\<not> is_zero before" "0 < mc_batch_size c" "mc_batch_size c \<le> 10000"
    "ps_outcomes s = []" "distinct (map e_id (t_entries (ps_db s)))"
  shows "age_loop pg c project before k s =
    (Inr (), upd_db (t_entries_update (filter (\<lambda>e. e_id e \<notin>
       set (map e_id (take (k * nat (mc_batch_size c)) (oldest_first (filter (\<lambda>e. e_project_id e = pg_uuid project \<and>
         e_ingested_at e < pg_time pg before) (t_entries (ps_db s))))))))) s)"
  using age_loop_exact [OF assms] unfolding without_def expired_def .

theorem age_loop_deletes_oldest_witness:
  "map e_id (t_entries (ps_db (snd (age_loop sample_pg (default_maintenance\<lparr>mc_batch_size := 1\<rparr>) (uid (CHR ''1''))
     (90 * second) 1 aged_state)))) = [1, 2, 3]"
proof -
  have "valid_uuid (uid (CHR ''1''))" "\<not> is_zero (90 * second)" "ps_outcomes aged_state = []"
    "distinct (map e_id (t_entries (ps_db aged_state)))" by code_simp+
  note r = age_loop_deletes_oldest [OF this(1,2) _ _ this(3,4), where c = "default_maintenance\<lparr>mc_batch_size := 1\<rparr>" and k = 1]
  show ?thesis by (subst r) code_simp+
qed

section \<open>Heartbeats\<close>

text \<open>
  The text of an \<open>inet\<close> value is its address with the length of the mask (\<open>10.0.0.7/32\<close>), which
  \<open>net.ParseIP\<close> does not read: when the server's text has a slash, no heartbeat that gives an address is
  answered with the agent, whatever is stored.
\<close>

theorem heartbeat_with_ip_fails:
  assumes "\<forall>t. CHR ''/'' \<in> set (pg_inet_text pg t)" "ip \<noteq> []"
  shows "\<exists>e. fst (agents_heartbeat pg project i version seen_at ip s) = Inl e"
proof (rule ccontr)
  assume no: "\<nexists>e. fst (agents_heartbeat pg project i version seen_at ip s) = Inl e"
  then obtain a s' where r: "agents_heartbeat pg project i version seen_at ip s = (Inr a, s')"
    by (metis old.sum.exhaust prod.collapse)
  then obtain rs s1 where u: "update_returning t_agents t_agents_update (\<lambda>_. pg_text version) agent_row
       (\<lambda>a. ag_project_id a = pg_uuid project \<and> ag_id a = pg_uuid i \<and> ag_status a \<noteq> ''disabled'')
       (\<lambda>now a. a\<lparr>ag_version := version, ag_last_heartbeat := Some (pg_time pg seen_at), ag_last_seen_ip := ip,
                  ag_status := (if ag_status a = ''stale'' then ''active'' else ag_status a), ag_updated_at := now\<rparr>) s = (Inr rs, s1)"
    and sc: "scan_first (scan_agent pg) rs s1 = (Inr a, s')"
    by (auto simp: agents_heartbeat_def act_cases)
  from scan_first_Inr [OF sc] obtain r rest where rr: "rs = r # rest" "scan_agent pg r = Inr a" by blast
  with update_returning_Inr(1) [OF u] have "ag_last_seen_ip r = ip" by (auto simp: Cons_eq_map_conv)
  with rr(2) assms show False
    by (auto simp: scan_agent_def nullable_ip_string_def parse_ip_no_slash Let_def split: if_splits)
qed

theorem heartbeat_with_ip_fails_witness:
  "\<exists>e. fst (agents_heartbeat sample_pg (uid (CHR ''1'')) (uid (CHR ''2'')) ''1'' 5 (map char_of [10, 0, 0, 7 :: nat]) (sample_state [])) = Inl e"
proof -
  have "\<forall>t. CHR ''/'' \<in> set (pg_inet_text sample_pg t)" by (simp add: sample_pg_def)
  then show ?thesis by (rule heartbeat_with_ip_fails) simp
qed

end
