(* ===== verification/Agent_Delivery.thy ===== *)
theory Agent_Delivery
  imports Spool_Recovery
begin

text \<open>
  Delivery: the HTTP transport and the dispatcher of the agent (\<open>internal/agent/reliable/transport.go\<close>,
  \<open>dispatcher.go\<close>). What the HTTP client does with a request is the argument \<open>http_outcome\<close>; the clock,
  the random factor of the back-off and the failures of the spool's system calls are arguments too. A turn of
  \<open>Run\<close> is \<open>next_pending\<close>, the request, and \<open>deliver\<close>; pipelines may commit in between.
\<close>

section \<open>Transport\<close>

datatype result_class =
    ResultNone | ResultAccepted | ResultDuplicate | ResultRetryable | ResultQuarantine | ResultTerminal | ResultBlocked

record send_result =
  sr_class :: result_class
  sr_status_code :: int
  sr_retry_after :: duration
  sr_code :: string

text \<open>The request cannot be built, the client fails, the body cannot be read, or status, \<open>Retry-After\<close> and body.\<close>

datatype http_outcome = RequestFails | DoFails | BodyFails int | Responds int string bytes

definition wrap_int64 :: "int \<Rightarrow> int" where
  "wrap_int64 n = (n + 2 ^ 63) mod 2 ^ 64 - 2 ^ 63"

text \<open>\<open>http.ParseTime\<close> is the argument \<open>http_time\<close>; the seconds are multiplied at 64 bits.\<close>

definition parse_retry_after :: "(string \<Rightarrow> time option) \<Rightarrow> string \<Rightarrow> time \<Rightarrow> duration" where
  "parse_retry_after http_time value now =
     (let v = trim_space value
      in if v = [] then 0
         else (case parse_int64 v of
                 Some n \<Rightarrow> if n \<le> 0 then 0 else wrap_int64 (n * second)
               | None \<Rightarrow> (case http_time v of
                            None \<Rightarrow> 0
                          | Some t \<Rightarrow> if \<not> now < t then 0 else time_sub t now)))"

record acknowledgement =
  ak_batch_id :: string
  ak_status :: string

definition set_ack_field :: "string \<Rightarrow> string \<Rightarrow> json \<Rightarrow> acknowledgement \<Rightarrow> acknowledgement option" where
  "set_ack_field n t v a =
     (if n = ''batch_id'' then map_option (\<lambda>x. a\<lparr>ak_batch_id := x\<rparr>) (dec_string v (ak_batch_id a))
      else map_option (\<lambda>x. a\<lparr>ak_status := x\<rparr>) (dec_string v (ak_status a)))"

definition decode_acknowledgement :: "bytes \<Rightarrow> acknowledgement option" where
  "decode_acknowledgement body =
     unmarshal (dec_struct False [''batch_id'', ''status''] set_ack_field) body \<lparr>ak_batch_id = [], ak_status = []\<rparr>"

text \<open>
  The error of decoding a failure is dropped: \<open>Unmarshal\<close> stores what has the right type. The pair is the
  code of the member \<open>error\<close> and the code of the object itself.
\<close>

definition lenient_string :: "json \<Rightarrow> string \<Rightarrow> string" where
  "lenient_string v old = (case dec_string v old of Some s \<Rightarrow> s | None \<Rightarrow> old)"

definition set_failure_field :: "string \<Rightarrow> string \<Rightarrow> json \<Rightarrow> string \<times> string \<Rightarrow> (string \<times> string) option" where
  "set_failure_field n t v f =
     (if n = ''error''
      then Some (case dec_struct False [''code''] (\<lambda>n t v old. Some (lenient_string v old)) v (fst f) of
                   Some c \<Rightarrow> (c, snd f) | None \<Rightarrow> f)
      else Some (fst f, lenient_string v (snd f)))"

definition failure_code :: "bytes \<Rightarrow> string" where
  "failure_code body =
     (case unmarshal (dec_struct False [''error'', ''code''] set_failure_field) body ([], []) of
        None \<Rightarrow> []
      | Some (inner, outer) \<Rightarrow> if inner = [] then outer else inner)"

definition failure_class :: "int \<Rightarrow> string \<Rightarrow> result_class" where
  "failure_class status code =
     (if status = 408 \<or> status = 429 \<or> status \<ge> 500 then ResultRetryable
      else if status = 409 \<and> code = ''resource_unavailable'' then ResultBlocked
      else if status = 400 \<or> status = 409 \<or> status = 413 \<or> status = 422 then ResultQuarantine
      else ResultTerminal)"

text \<open>\<open>Send\<close>: the result, and whether it comes with an error.\<close>

definition send :: "(string \<Rightarrow> time option) \<Rightarrow> bytes \<Rightarrow> http_outcome \<Rightarrow> time \<Rightarrow> send_result \<times> bool" where
  "send http_time payload h now =
     (let bare = \<lparr>sr_class = ResultNone, sr_status_code = 0, sr_retry_after = 0, sr_code = []\<rparr> in
      case payload_batch_id payload of
        None \<Rightarrow> (bare\<lparr>sr_class := ResultTerminal, sr_code := ''invalid_outbound_batch''\<rparr>, True)
      | Some i \<Rightarrow>
          if blank i then (bare\<lparr>sr_class := ResultTerminal, sr_code := ''invalid_outbound_batch''\<rparr>, True)
          else (case h of
             RequestFails \<Rightarrow> (bare, True)
           | DoFails \<Rightarrow> (bare\<lparr>sr_class := ResultRetryable\<rparr>, True)
           | BodyFails status \<Rightarrow> (bare\<lparr>sr_class := ResultRetryable, sr_status_code := status\<rparr>, True)
           | Responds status retry body \<Rightarrow>
               (let result = bare\<lparr>sr_status_code := status, sr_retry_after := parse_retry_after http_time retry now\<rparr>;
                    text = take 65536 body
                in if 200 \<le> status \<and> status < 300
                   then (case decode_acknowledgement text of
                           None \<Rightarrow> (result\<lparr>sr_class := ResultRetryable, sr_code := ''invalid_ack''\<rparr>, False)
                         | Some a \<Rightarrow>
                             if ak_batch_id a \<noteq> i
                               then (result\<lparr>sr_class := ResultRetryable, sr_code := ''invalid_ack_batch_id''\<rparr>, False)
                             else if ak_status a = ''accepted'' then (result\<lparr>sr_class := ResultAccepted\<rparr>, False)
                             else if ak_status a = ''duplicate'' then (result\<lparr>sr_class := ResultDuplicate\<rparr>, False)
                             else (result\<lparr>sr_class := ResultRetryable, sr_code := ''invalid_ack_status''\<rparr>, False))
                   else (result\<lparr>sr_class := failure_class status (failure_code text), sr_code := failure_code text\<rparr>, False))))"

section \<open>Back-off\<close>

text \<open>
  The doubling loop; the number is that of the turns left. The product of a delay of at most half the maximum
  by two stays in \<open>int64\<close>. \<open>draw\<close> is the product with the random factor, \<open>None\<close> without jitter.
\<close>

fun backoff_loop :: "nat \<Rightarrow> duration \<Rightarrow> duration \<Rightarrow> duration" where
  "backoff_loop 0 maximum delay = delay"
| "backoff_loop (Suc n) maximum delay =
     (if delay < maximum
      then (if delay > maximum div 2 then maximum else backoff_loop n maximum (wrap_int64 (delay * 2)))
      else delay)"

definition backoff :: "int \<Rightarrow> duration \<Rightarrow> duration \<Rightarrow> (duration \<Rightarrow> duration) option \<Rightarrow> duration" where
  "backoff attempt base maximum draw =
     (let attempt = (if attempt < 1 then 1 else attempt);
          delay = backoff_loop (nat (attempt - 1)) maximum base;
          delay = (if delay > maximum then maximum else delay)
      in case draw of
           None \<Rightarrow> delay
         | Some f \<Rightarrow> (if f delay < 0 then 0 else if f delay > maximum then maximum else f delay))"

section \<open>Dispatcher\<close>

record dispatcher_options =
  do_base_delay :: duration
  do_max_delay :: duration
  do_jitter :: rat

datatype dispatch_error =
    OptionsInvalid string | DispatchCtx | AckFails string spool_error | QuarantineFails string spool_error
  | TerminalResult string int string | UnknownClass

definition new_dispatcher :: "dispatcher_options \<Rightarrow> dispatch_error + dispatcher_options" where
  "new_dispatcher opts =
     (let opts1 = (if do_base_delay opts \<le> 0 then opts\<lparr>do_base_delay := second\<rparr> else opts);
          opts2 = (if do_max_delay opts1 \<le> 0 then opts1\<lparr>do_max_delay := 60 * second\<rparr> else opts1)
      in if do_max_delay opts2 < do_base_delay opts2
           then Inl (OptionsInvalid ''dispatcher max delay is less than base delay'')
         else if do_jitter opts2 < 0 \<or> do_jitter opts2 > 1
           then Inl (OptionsInvalid ''dispatcher jitter must be between zero and one'')
         else Inr opts2)"

record dispatcher =
  dp_attempts :: "(string, int) fmap"
  dp_blocked_until :: "(string, time) fmap"

definition fresh_dispatcher :: dispatcher where
  "fresh_dispatcher = \<lparr>dp_attempts = fmempty, dp_blocked_until = fmempty\<rparr>"

fun scan_pending :: "(string, time) fmap \<Rightarrow> time \<Rightarrow> time \<Rightarrow> commit list \<Rightarrow> commit option \<times> duration" where
  "scan_pending blocked now earliest [] = (None, time_sub earliest now)"
| "scan_pending blocked now earliest (c # cs) =
     (case fmlookup blocked (cm_batch_id c) of
        None \<Rightarrow> (Some c, 0)
      | Some t \<Rightarrow>
          if \<not> now < t then (Some c, 0)
          else scan_pending blocked now (if is_zero earliest \<or> t < earliest then t else earliest) cs)"

definition next_pending :: "(string, time) fmap \<Rightarrow> time \<Rightarrow> wal \<Rightarrow> commit option \<times> duration" where
  "next_pending blocked now w =
     (if blocked = fmempty then (wal_peek w, 0)
      else if wal_pending w = [] then (None, 0)
      else scan_pending blocked now zero_time (wal_pending w))"

text \<open>What a turn meets: the context, the clock, the random factor, and the outcomes of the spool's system calls.\<close>

record turn =
  tn_cancelled :: bool
  tn_cancelled_late :: bool
  tn_now :: time
  tn_draw :: "(duration \<Rightarrow> duration) option"
  tn_io :: append_io
  tn_compact :: compact_io

definition retry_delay :: "dispatcher_options \<Rightarrow> turn \<Rightarrow> int \<Rightarrow> send_result \<Rightarrow> duration" where
  "retry_delay opts t attempt r =
     (let delay = backoff attempt (do_base_delay opts) (do_max_delay opts) (tn_draw t);
          delay = (if sr_retry_after r > delay then sr_retry_after r else delay)
      in if delay > do_max_delay opts then do_max_delay opts else delay)"

definition attempts_of :: "dispatcher \<Rightarrow> string \<Rightarrow> int" where
  "attempts_of st i = (case fmlookup (dp_attempts st) i of Some n \<Rightarrow> n | None \<Rightarrow> 0)"

definition retry_later :: "dispatcher_options \<Rightarrow> turn \<Rightarrow> string \<Rightarrow> send_result \<Rightarrow> dispatcher \<Rightarrow> dispatcher" where
  "retry_later opts t i r st =
     st\<lparr>dp_attempts := fmupd i (attempts_of st i + 1) (dp_attempts st),
        dp_blocked_until := fmupd i (tn_now t + retry_delay opts t (attempts_of st i + 1) r) (dp_blocked_until st)\<rparr>"

definition forget :: "string \<Rightarrow> dispatcher \<Rightarrow> dispatcher" where
  "forget i st = st\<lparr>dp_attempts := fmdrop i (dp_attempts st), dp_blocked_until := fmdrop i (dp_blocked_until st)\<rparr>"

definition result_class_of :: "send_result \<times> bool \<Rightarrow> result_class" where
  "result_class_of res = (if snd res \<and> sr_class (fst res) = ResultNone then ResultRetryable else sr_class (fst res))"

definition deliver ::
  "dispatcher_options \<Rightarrow> turn \<Rightarrow> commit \<Rightarrow> send_result \<times> bool \<Rightarrow> dispatcher \<times> wal \<Rightarrow> dispatch_error option \<times> dispatcher \<times> wal"
where
  "deliver opts t c res state =
     (let (st, w) = state; i = cm_batch_id c; r = fst res in
      if tn_cancelled t then (Some DispatchCtx, st, w)
      else (case result_class_of res of
         ResultAccepted \<Rightarrow>
           (case wal_ack (tn_cancelled_late t) (tn_io t) (tn_compact t) i w of
              (w', Inl e) \<Rightarrow> (Some (AckFails i e), st, w') | (w', Inr _) \<Rightarrow> (None, forget i st, w'))
       | ResultDuplicate \<Rightarrow>
           (case wal_ack (tn_cancelled_late t) (tn_io t) (tn_compact t) i w of
              (w', Inl e) \<Rightarrow> (Some (AckFails i e), st, w') | (w', Inr _) \<Rightarrow> (None, forget i st, w'))
       | ResultRetryable \<Rightarrow> (None, retry_later opts t i r st, w)
       | ResultBlocked \<Rightarrow> (None, retry_later opts t i r st, w)
       | ResultQuarantine \<Rightarrow>
           (case wal_quarantine (tn_cancelled_late t) (tn_io t) i (sr_status_code r) (sr_code r) (tn_now t) w of
              (w', Inl e) \<Rightarrow> (Some (QuarantineFails i e), st, w') | (w', Inr _) \<Rightarrow> (None, forget i st, w'))
       | ResultTerminal \<Rightarrow> (Some (TerminalResult i (sr_status_code r) (sr_code r)), st, w)
       | ResultNone \<Rightarrow> (Some UnknownClass, st, w)))"

section \<open>Facts about the back-off\<close>

lemma wrap_int64_id [simp]: "- (2 ^ 63) \<le> n \<Longrightarrow> n < 2 ^ 63 \<Longrightarrow> wrap_int64 n = n"
  by (simp add: wrap_int64_def)

lemma backoff_loop_min:
  assumes "0 < delay" "delay \<le> maximum" "maximum < 2 ^ 63"
  shows "backoff_loop n maximum delay = min maximum (delay * 2 ^ n)"
  using assms
proof (induction n arbitrary: delay)
  case (Suc n)
  have grow: "d \<le> d * 2 ^ k" if "0 < d" for d :: int and k
    using that by (simp add: mult_le_cancel_left1)
  consider "delay = maximum" | "delay < maximum" "maximum div 2 < delay" | "delay < maximum" "delay \<le> maximum div 2"
    using Suc.prems by linarith
  then show ?case
  proof cases
    case 1
    then show ?thesis using grow [OF Suc.prems(1), of "Suc n"] by (simp add: min_def)
  next
    case 2
    have "maximum \<le> delay * 2" using 2(2) by linarith
    also have "\<dots> \<le> delay * 2 * 2 ^ n" using Suc.prems(1) by (intro grow) simp
    finally show ?thesis using 2 by (simp add: min_def algebra_simps)
  next
    case 3
    then have "0 < delay * 2" "delay * 2 \<le> maximum" using Suc.prems by linarith+
    with Suc.IH [of "delay * 2"] Suc.prems 3 show ?thesis by (simp add: algebra_simps)
  qed
qed (simp add: min_def)

lemma backoff_range:
  assumes "0 < base" "base \<le> maximum" "maximum < 2 ^ 63"
  shows "0 \<le> backoff attempt base maximum draw \<and> backoff attempt base maximum draw \<le> maximum"
proof -
  have "backoff_loop n maximum base = min maximum (base * 2 ^ n)" for n by (rule backoff_loop_min [OF assms])
  then show ?thesis using assms by (auto simp: backoff_def Let_def min_def split: option.splits)
qed

definition options_ok :: "dispatcher_options \<Rightarrow> bool" where
  "options_ok opts \<longleftrightarrow> 0 < do_base_delay opts \<and> do_base_delay opts \<le> do_max_delay opts \<and> do_max_delay opts < 2 ^ 63"

lemma retry_delay_range: "options_ok opts \<Longrightarrow> 0 \<le> retry_delay opts t n r \<and> retry_delay opts t n r \<le> do_max_delay opts"
  using backoff_range [of "do_base_delay opts" "do_max_delay opts" n "tn_draw t"] by (auto simp: retry_delay_def options_ok_def Let_def)

section \<open>Facts about the queue\<close>

lemma peek_order_hd: "peek_order m is = (case List.map_filter (fmlookup m) is of [] \<Rightarrow> None | c # _ \<Rightarrow> Some c)"
  by (induction "is") (auto simp: List.map_filter_simps split: option.splits)

lemma wal_peek_hd: "wal_peek w = (case wal_pending w of [] \<Rightarrow> None | c # _ \<Rightarrow> Some c)"
  by (simp add: wal_peek_def wal_pending_def peek_order_hd)

text \<open>\<open>waits blocked now c\<close>: the batch is blocked beyond \<open>now\<close>.\<close>

definition waits :: "(string, time) fmap \<Rightarrow> time \<Rightarrow> commit \<Rightarrow> bool" where
  "waits blocked now c \<longleftrightarrow> (\<exists>t. fmlookup blocked (cm_batch_id c) = Some t \<and> now < t)"

lemma scan_pending_Some:
  "scan_pending blocked now e cs = (Some c, d) \<longleftrightarrow>
     d = 0 \<and> (\<exists>xs ys. cs = xs @ c # ys \<and> (\<forall>x \<in> set xs. waits blocked now x) \<and> \<not> waits blocked now c)"
proof (induction cs arbitrary: e)
  case (Cons b cs)
  show ?case
  proof (cases "waits blocked now b")
    case True
    then obtain t where "fmlookup blocked (cm_batch_id b) = Some t" "now < t" by (auto simp: waits_def)
    then have "scan_pending blocked now e (b # cs) = (Some c, d) \<longleftrightarrow>
        d = 0 \<and> (\<exists>xs ys. cs = xs @ c # ys \<and> (\<forall>x \<in> set xs. waits blocked now x) \<and> \<not> waits blocked now c)"
      by (simp add: Cons.IH)
    also have "\<dots> \<longleftrightarrow> d = 0 \<and> (\<exists>xs ys. b # cs = xs @ c # ys \<and> (\<forall>x \<in> set xs. waits blocked now x) \<and> \<not> waits blocked now c)"
    proof -
      have "(\<exists>xs ys. b # cs = xs @ c # ys \<and> (\<forall>x \<in> set xs. waits blocked now x) \<and> \<not> waits blocked now c)"
        if "cs = xs @ c # ys" "\<forall>x \<in> set xs. waits blocked now x" "\<not> waits blocked now c" for xs ys
        using that True by (intro exI [of _ "b # xs"] exI [of _ ys]) simp
      then show ?thesis using True by (auto simp: Cons_eq_append_conv)
    qed
    finally show ?thesis .
  next
    case False
    then have "scan_pending blocked now e (b # cs) = (Some b, 0)" by (auto simp: waits_def split: option.splits)
    with False show ?thesis by (auto simp: Cons_eq_append_conv)
  qed
qed simp

text \<open>The first batch of the queue that does not wait; none when the queue is empty or all wait.\<close>

lemma next_pending_Some:
  "next_pending blocked now w = (Some c, d) \<longleftrightarrow>
     d = 0 \<and> (\<exists>xs ys. wal_pending w = xs @ c # ys \<and> (\<forall>x \<in> set xs. waits blocked now x) \<and> \<not> waits blocked now c)"
proof (cases "blocked = fmempty")
  case True
  then have no: "\<not> waits blocked now x" for x by (simp add: waits_def)
  show ?thesis
    by (cases "wal_pending w") (auto simp: next_pending_def True wal_peek_hd no [unfolded True] Cons_eq_append_conv)
qed (auto simp: next_pending_def scan_pending_Some)

lemma scan_pending_None:
  "scan_pending blocked now e cs = (None, d) \<Longrightarrow> zero_time \<le> now \<Longrightarrow> (\<forall>x \<in> set cs. waits blocked now x) \<and>
     (cs = [] \<and> d = time_sub e now \<or>
      (\<exists>m. d = time_sub m now \<and> (\<not> is_zero e \<and> m = e \<or> (\<exists>x \<in> set cs. fmlookup blocked (cm_batch_id x) = Some m)) \<and>
        (\<not> is_zero e \<longrightarrow> m \<le> e) \<and> (\<forall>x \<in> set cs. \<forall>t. fmlookup blocked (cm_batch_id x) = Some t \<longrightarrow> m \<le> t)))"
proof (induction cs arbitrary: e)
  case (Cons b cs)
  then obtain t where t: "fmlookup blocked (cm_batch_id b) = Some t" "now < t"
    and rest: "scan_pending blocked now (if is_zero e \<or> t < e then t else e) cs = (None, d)"
    by (auto split: option.splits if_splits)
  let ?e = "if is_zero e \<or> t < e then t else e"
  have nz: "\<not> is_zero ?e" "\<not> is_zero e \<Longrightarrow> ?e \<le> e" "?e \<le> t" "?e = t \<or> \<not> is_zero e \<and> ?e = e"
    using t Cons.prems(2) by (auto simp: is_zero_def)
  have wb: "waits blocked now b" using t by (auto simp: waits_def)
  from Cons.IH [OF rest Cons.prems(2)] consider "cs = []" "d = time_sub ?e now"
    | m where "\<forall>x \<in> set cs. waits blocked now x" "d = time_sub m now"
      "m = ?e \<or> (\<exists>x \<in> set cs. fmlookup blocked (cm_batch_id x) = Some m)" "m \<le> ?e"
      "\<forall>x \<in> set cs. \<forall>t. fmlookup blocked (cm_batch_id x) = Some t \<longrightarrow> m \<le> t"
    using nz(1) by blast
  then show ?case
  proof cases
    case 1
    have "\<not> is_zero e \<and> ?e = e \<or> (\<exists>x \<in> set (b # cs). fmlookup blocked (cm_batch_id x) = Some ?e)"
      using nz(4) t(1) by (metis list.set_intros(1))
    moreover have "\<forall>x \<in> set (b # cs). waits blocked now x" "\<not> is_zero e \<longrightarrow> ?e \<le> e"
      "\<forall>x \<in> set (b # cs). \<forall>u. fmlookup blocked (cm_batch_id x) = Some u \<longrightarrow> ?e \<le> u"
      using 1(1) nz(2,3) t wb by auto
    ultimately show ?thesis using 1(2) by blast
  next
    case (2 m)
    have "\<forall>x \<in> set (b # cs). \<forall>t. fmlookup blocked (cm_batch_id x) = Some t \<longrightarrow> m \<le> t"
      using 2(4,5) nz(3) t by (metis order_trans option.inject set_ConsD)
    moreover have "\<not> is_zero e \<and> m = e \<or> (\<exists>x \<in> set (b # cs). fmlookup blocked (cm_batch_id x) = Some m)"
      using 2(3) nz(4) t by auto
    moreover have "\<not> is_zero e \<longrightarrow> m \<le> e" using 2(4) nz(2) by linarith
    ultimately show ?thesis using 2(1,2) wb by auto
  qed
qed simp

section \<open>What a turn does to the spool\<close>

lemma exec_ack: "wal_ack x io cio i w = (w', r) \<Longrightarrow>
    exec (DoAck x io cio i) w = (w', case r of Inl e \<Rightarrow> Some e | Inr _ \<Rightarrow> None)"
  by (simp add: dropped_def)

lemma exec_quarantine: "wal_quarantine x io i code err tm w = (w', r) \<Longrightarrow>
    exec (DoQuarantine x io i code err tm) w = (w', case r of Inl e \<Rightarrow> Some e | Inr _ \<Rightarrow> None)"
  by (simp add: dropped_def)

text \<open>The record of the quarantine of a result, and the condition that it fits the limit of the log.\<close>

definition quarantine_record_of :: "turn \<Rightarrow> commit \<Rightarrow> send_result \<Rightarrow> quarantine_record" where
  "quarantine_record_of t c r =
     \<lparr>qr_batch_id = cm_batch_id c, qr_http_code = sr_status_code r, qr_error_code = trim_space (sr_code r),
      qr_quarantined_at = tn_now t\<rparr>"

definition quarantined_of :: "turn \<Rightarrow> commit \<Rightarrow> send_result \<Rightarrow> quarantined" where
  "quarantined_of t c r =
     \<lparr>q_commit = c, q_http_code = sr_status_code r, q_error_code = trim_space (sr_code r), q_quarantined_at = tn_now t\<rparr>"

definition turn_op :: "turn \<Rightarrow> commit \<Rightarrow> send_result \<times> bool \<Rightarrow> spool_op option" where
  "turn_op t c res =
     (if tn_cancelled t then None
      else if result_class_of res \<in> {ResultAccepted, ResultDuplicate}
        then Some (DoAck (tn_cancelled_late t) (tn_io t) (tn_compact t) (cm_batch_id c))
      else if result_class_of res = ResultQuarantine
        then Some (DoQuarantine (tn_cancelled_late t) (tn_io t) (cm_batch_id c) (sr_status_code (fst res)) (sr_code (fst res)) (tn_now t))
      else None)"

lemma deliver_op:
  assumes "deliver opts t c res (st, w) = (e, st', w')"
  shows "(case turn_op t c res of None \<Rightarrow> w' = w | Some op \<Rightarrow> w' = fst (exec op w) \<and> (e = None) = (snd (exec op w) = None))"
  using assms
  by (cases "result_class_of res") (auto simp: deliver_def turn_op_def dropped_def Let_def split: if_splits prod.splits sum.splits)

lemma pending_lookup:
  assumes "wal_wf w" "c \<in> set (wal_pending w)"
  shows "fmlookup (w_pending w) (cm_batch_id c) = Some c"
  using assms by (auto simp: pending_list_iff)


lemma turn_op_effect:
  assumes reach: "spool_reach cf w" and c: "c \<in> set (wal_pending w)" and d: "deliver opts t c res (st, w) = (e, st', w')"
    and io: "io_recovers (tn_io t)"
    and fits: "result_class_of res = ResultQuarantine \<Longrightarrow> quarantine_fits (w_max_record w) (quarantine_record_of t c (fst res))"
  shows "spool_reach cf w' \<and> view w' =
    (if turn_op t c res = None \<or> e \<noteq> None \<and> \<not> (w_closed w' \<and> \<not> w_closed w) then view w
     else if result_class_of res = ResultQuarantine then view_quarantine (quarantined_of t c (fst res)) (view w)
     else view_remove (cm_batch_id c) (view w))"
proof (cases "turn_op t c res")
  case None
  with deliver_op [OF d] reach show ?thesis by simp
next
  case (Some op)
  have w': "w' = fst (exec op w)" and e: "(e = None) = (snd (exec op w) = None)" using deliver_op [OF d] Some by simp_all
  have inv: "spool_inv w" using spool_reach_inv [OF reach] by (simp add: reach_inv_def)
  then have wf: "wal_wf w" by (simp add: spool_inv_def survives_in_def)
  have ok: "op_good (w_max_record w) op" "io_recovers (op_io op)"
    using Some fits io by (auto simp: turn_op_def quarantine_record_of_def split: if_splits)
  have "exec op w = (w', snd (exec op w))" using w' by simp
  from exec_inv [OF inv ok this] e
  have v: "view w' = (if e = None \<or> w_closed w' \<and> \<not> w_closed w then op_effect op w else view w)" by auto
  have "op_effect op w = (if result_class_of res = ResultQuarantine then view_quarantine (quarantined_of t c (fst res)) (view w)
      else view_remove (cm_batch_id c) (view w))"
    using Some pending_lookup [OF wf c] by (auto simp: turn_op_def quarantined_of_def split: if_splits)
  with v Some spool_reach.operation [OF reach ok] w' show ?thesis by auto
qed

text \<open>Only an answer of the server lets \<open>Send\<close> accept or quarantine a batch.\<close>

lemma send_accepts:
  assumes "result_class_of (send http_time payload h now) \<in> {ResultAccepted, ResultDuplicate}"
  shows "\<exists>status retry body a i. h = Responds status retry body \<and> 200 \<le> status \<and> status < 300 \<and>
    decode_acknowledgement (take 65536 body) = Some a \<and> payload_batch_id payload = Some i \<and> ak_batch_id a = i \<and>
    ak_status a = (if result_class_of (send http_time payload h now) = ResultAccepted then ''accepted'' else ''duplicate'')"
  using assms
  by (auto simp: send_def Let_def result_class_of_def failure_class_def split: option.splits http_outcome.splits if_splits)

lemma send_quarantines:
  assumes "result_class_of (send http_time payload h now) = ResultQuarantine"
  shows "\<exists>status retry body. h = Responds status retry body \<and> status \<in> {400, 409, 413, 422} \<and>
    sr_status_code (fst (send http_time payload h now)) = status \<and>
    \<not> (status = 409 \<and> failure_code (take 65536 body) = ''resource_unavailable'')"
  using assms
  by (auto simp: send_def Let_def result_class_of_def failure_class_def split: option.splits http_outcome.splits if_splits)

section \<open>Draining the queue\<close>

text \<open>A turn of the loop of \<open>Run\<close> in which nothing else happens; \<open>answer\<close> is what \<open>Send\<close> returns.\<close>

definition run_turn ::
  "dispatcher_options \<Rightarrow> (bytes \<Rightarrow> send_result \<times> bool) \<Rightarrow> turn \<Rightarrow> dispatcher \<times> wal \<Rightarrow> dispatch_error option \<times> dispatcher \<times> wal" where
  "run_turn opts answer t state =
     (case next_pending (dp_blocked_until (fst state)) (tn_now t) (snd state) of
        (None, _) \<Rightarrow> (None, state)
      | (Some c, _) \<Rightarrow> deliver opts t c (answer (cm_payload c)) state)"

fun run_turns ::
  "dispatcher_options \<Rightarrow> (bytes \<Rightarrow> send_result \<times> bool) \<Rightarrow> turn list \<Rightarrow> dispatcher \<times> wal \<Rightarrow> dispatch_error option \<times> dispatcher \<times> wal" where
  "run_turns opts answer [] state = (None, state)"
| "run_turns opts answer (t # ts) state =
     (case run_turn opts answer t state of
        (Some e, state') \<Rightarrow> (Some e, state')
      | (None, state') \<Rightarrow> run_turns opts answer ts state')"

lemma ack_succeeds:
  assumes "durable w" "opened w" "\<not> w_closed w" "c \<in> set (wal_pending w)"
  shows "\<exists>w'. wal_ack False IoOk CompactOk (cm_batch_id c) w = (w', Inr ()) \<and> \<not> w_closed w'"
proof -
  have wf: "wal_wf w" by (rule durable_wf [OF assms(1)])
  have l: "fmlookup (w_pending w) (cm_batch_id c) = Some c" by (rule pending_lookup [OF wf assms(4)])
  have "storable (w_max_record w) c" "w_max_record w \<le> 2 ^ 32 - 1" using wf l by (auto simp: wal_wf_def)
  then have "int (length (ack_json (cm_batch_id c))) \<le> 2 ^ 32 - 1" using storable_ack(2) by force
  then obtain r where r: "frame_record record_ack (ack_json (cm_batch_id c)) = Some r" by (auto simp: frame_record_def)
  define w2 where "w2 = signal (remove_active (cm_batch_id c) (set_file (wal_file w @ r) w))"
  have open2: "\<not> w_closed w2" using assms(3) by (simp add: w2_def signal_def remove_active_def set_file_def)
  have app: "append_record IoOk record_ack (ack_json (cm_batch_id c)) w = (set_file (wal_file w @ r) w, None)"
    by (simp add: append_record_def r)
  obtain w3 e where c3: "compact_locked CompactOk w2 = (w3, e)" by fastforce
  have "d_main (run_ops (compact_ops b) d) = Some b" for b d by (simp add: run_ops_def compact_ops_def)
  then have open3: "\<not> w_closed w3" using c3 open2 by (auto simp: compact_locked_def Let_def reopened_def split: sum.splits)
  show ?thesis
    using assms(3) l app c3 open2 open3
    by (auto simp: wal_ack_def is_pending_def Let_def w2_def [symmetric] split: option.split)
qed

definition accepts :: "(bytes \<Rightarrow> send_result \<times> bool) \<Rightarrow> bool" where
  "accepts answer \<longleftrightarrow> (\<forall>p. result_class_of (answer p) \<in> {ResultAccepted, ResultDuplicate})"

definition turn_ok :: "time \<Rightarrow> turn \<Rightarrow> bool" where
  "turn_ok start t \<longleftrightarrow> \<not> tn_cancelled t \<and> \<not> tn_cancelled_late t \<and> tn_io t = IoOk \<and> tn_compact t = CompactOk \<and> start \<le> tn_now t"

lemma drained:
  assumes "spool_reach cf w" "\<not> w_closed w" "accepts answer" "\<forall>t \<in> set ts. turn_ok start t" "length ts = length (wal_pending w)"
    "\<forall>i t. fmlookup (dp_blocked_until st) i = Some t \<longrightarrow> t \<le> start"
  shows "\<exists>st' w'. run_turns opts answer ts (st, w) = (None, st', w') \<and> spool_reach cf w' \<and> \<not> w_closed w' \<and>
    wal_pending w' = [] \<and> wal_quarantined w' = wal_quarantined w"
  using assms
proof (induction ts arbitrary: st w)
  case (Cons t ts)
  then obtain c cs where p: "wal_pending w = c # cs" by (cases "wal_pending w") auto
  have t: "turn_ok start t" using Cons.prems(4) by simp
  have nowait: "\<not> waits (dp_blocked_until st) (tn_now t) x" for x
    using Cons.prems(6) t by (force simp: waits_def turn_ok_def)
  have nx: "next_pending (dp_blocked_until st) (tn_now t) w = (Some c, 0)"
    by (subst next_pending_Some) (use p nowait in \<open>auto intro: exI [of _ "[]"]\<close>)
  have inv: "spool_inv w" using spool_reach_inv [OF Cons.prems(1)] by (simp add: reach_inv_def)
  then have du: "durable w" "opened w" using Cons.prems(2) by (simp_all add: spool_inv_def)
  have cp: "c \<in> set (wal_pending w)" by (simp add: p)
  obtain w1 where ack: "wal_ack False IoOk CompactOk (cm_batch_id c) w = (w1, Inr ())" "\<not> w_closed w1"
    using ack_succeeds [OF du Cons.prems(2) cp] by blast
  let ?st1 = "forget (cm_batch_id c) st"
  have cls: "result_class_of (answer (cm_payload c)) \<in> {ResultAccepted, ResultDuplicate}" using Cons.prems(3) by (simp add: accepts_def)
  then have dl: "deliver opts t c (answer (cm_payload c)) (st, w) = (None, ?st1, w1)"
    using t ack(1) by (auto simp: deliver_def turn_ok_def Let_def)
  have reach: "spool_reach cf w1"
    and v: "view w1 = view_remove (cm_batch_id c) (view w)"
    using turn_op_effect [OF Cons.prems(1) cp dl] t cls by (auto simp: turn_op_def turn_ok_def io_recovers_def)
  have wf: "wal_wf w" using durable_wf [OF du(1)] .
  have ids: "distinct (map cm_batch_id (wal_pending w))" by (rule distinct_pending_ids(1) [OF wf])
  have noq: "cm_batch_id (q_commit q) \<noteq> cm_batch_id c" if "q \<in> set (wal_quarantined w)" for q
  proof
    assume same: "cm_batch_id (q_commit q) = cm_batch_id c"
    then have "fmlookup (w_quarantined w) (cm_batch_id c) = Some q" using that quarantined_list_iff [OF wf] by blast
    from wal_wfD(5) [OF wf, of "cm_batch_id c"] wal_wfD(7) [OF wf this] pending_lookup [OF wf cp] show False by simp
  qed
  have lists: "wal_pending w1 = filter (\<lambda>x. cm_batch_id x \<noteq> cm_batch_id c) (wal_pending w)"
    "wal_quarantined w1 = filter (\<lambda>q. cm_batch_id (q_commit q) \<noteq> cm_batch_id c) (wal_quarantined w)"
    using arg_cong [OF v, of v_pending] arg_cong [OF v, of v_quarantined] by (simp_all add: view_def view_remove_def)
  have pend1: "wal_pending w1 = cs"
    using ids unfolding lists(1) p by (simp, intro filter_True) (metis image_eqI set_map)
  have quar1: "wal_quarantined w1 = wal_quarantined w"
    unfolding lists(2) using noq by (intro filter_True) blast
  have "length ts = length (wal_pending w1)" using Cons.prems(5) p pend1 by simp
  moreover have "\<forall>i u. fmlookup (dp_blocked_until ?st1) i = Some u \<longrightarrow> u \<le> start"
    using Cons.prems(6) by (auto simp: forget_def split: if_splits)
  moreover have "\<forall>t \<in> set ts. turn_ok start t" using Cons.prems(4) by simp
  ultimately obtain st' w' where ih: "run_turns opts answer ts (?st1, w1) = (None, st', w')" "spool_reach cf w'"
    "\<not> w_closed w'" "wal_pending w' = []" "wal_quarantined w' = wal_quarantined w1"
    using Cons.IH [OF reach ack(2) Cons.prems(3)] by blast
  have "run_turn opts answer t (st, w) = (None, ?st1, w1)" by (simp add: run_turn_def nx dl)
  then have "run_turns opts answer (t # ts) (st, w) = (None, st', w')" using ih(1) by simp
  with ih quar1 show ?case by auto
qed auto

end
