(* ===== verification/Agent_Control.thy ===== *)
theory Agent_Control
  imports Agent_Delivery
begin

text \<open>
  The control of the pipelines by the server (\<open>internal/agent/reliable/control.go\<close>, \<open>heartbeat.go\<close>): the
  state that a heartbeat brings, the gate in front of every read, and the reports. The channel that
  \<open>signalLocked\<close> closes and replaces is a number that it increases.
\<close>

section \<open>State\<close>

record pipeline_control =
  pc_id :: string
  pc_desired_status :: string
  pc_config_version :: int

record pipeline_state =
  ps_order :: "string list"
  ps_local_version :: "(string, int) fmap"
  ps_desired :: "(string, pipeline_control) fmap"
  ps_control_known :: bool
  ps_active :: "string fset"
  ps_failures :: "(string, string) fmap"
  ps_changed :: nat

datatype control_error =
    InvalidPipeline | DuplicatePipeline string | InvalidControl | DuplicateControl string | UnknownPipeline string

definition empty_pipeline_state :: pipeline_state where
  "empty_pipeline_state =
     \<lparr>ps_order = [], ps_local_version = fmempty, ps_desired = fmempty, ps_control_known = False, ps_active = {||},
      ps_failures = fmempty, ps_changed = 0\<rparr>"

text \<open>The pipelines of the agent, each an id and a configuration version.\<close>

fun add_pipelines :: "(string \<times> int) list \<Rightarrow> pipeline_state \<Rightarrow> control_error + pipeline_state" where
  "add_pipelines [] s = Inr s"
| "add_pipelines ((i, v) # ps) s =
     (let k = trim_space i
      in if k = [] \<or> v \<le> 0 then Inl InvalidPipeline
         else if fmlookup (ps_local_version s) k \<noteq> None then Inl (DuplicatePipeline k)
         else add_pipelines ps (s\<lparr>ps_order := ps_order s @ [k], ps_local_version := fmupd k v (ps_local_version s)\<rparr>))"

definition new_pipeline_state :: "(string \<times> int) list \<Rightarrow> control_error + pipeline_state" where
  "new_pipeline_state ps = add_pipelines ps empty_pipeline_state"

definition signal_locked :: "pipeline_state \<Rightarrow> pipeline_state" where
  "signal_locked s = s\<lparr>ps_changed := ps_changed s + 1\<rparr>"

definition valid_desired_status :: "string \<Rightarrow> bool" where
  "valid_desired_status status \<longleftrightarrow> status \<in> {''enabled'', ''paused'', ''error'', ''disabled''}"

fun collect_control :: "pipeline_control list \<Rightarrow> (string, pipeline_control) fmap \<Rightarrow> control_error + (string, pipeline_control) fmap" where
  "collect_control [] m = Inr m"
| "collect_control (p # ps) m =
     (let p' = p\<lparr>pc_id := trim_space (pc_id p)\<rparr>
      in if pc_id p' = [] \<or> pc_config_version p' \<le> 0 \<or> \<not> valid_desired_status (pc_desired_status p') then Inl InvalidControl
         else if fmlookup m (pc_id p') \<noteq> None then Inl (DuplicateControl (pc_id p'))
         else collect_control ps (fmupd (pc_id p') p' m))"

definition apply_snapshot :: "pipeline_control list \<Rightarrow> pipeline_state \<Rightarrow> control_error option \<times> pipeline_state" where
  "apply_snapshot snap s =
     (case collect_control snap fmempty of
        Inl e \<Rightarrow> (Some e, s)
      | Inr desired \<Rightarrow> (None, signal_locked (s\<lparr>ps_desired := desired, ps_control_known := True\<rparr>)))"

definition start_pipeline :: "string \<Rightarrow> pipeline_state \<Rightarrow> pipeline_state" where
  "start_pipeline i s =
     signal_locked (s\<lparr>ps_active := finsert i (ps_active s), ps_failures := fmdrop i (ps_failures s)\<rparr>)"

definition stop_pipeline :: "string \<Rightarrow> pipeline_state \<Rightarrow> pipeline_state" where
  "stop_pipeline i s = signal_locked (s\<lparr>ps_active := ps_active s |-| {|i|}\<rparr>)"

definition bounded_error :: "string option \<Rightarrow> string" where
  "bounded_error e = (case e of None \<Rightarrow> ''pipeline failed'' | Some m \<Rightarrow> if length m > 2048 then take 2048 m else m)"

definition fail_pipeline :: "string \<Rightarrow> string option \<Rightarrow> pipeline_state \<Rightarrow> pipeline_state" where
  "fail_pipeline i e s =
     signal_locked (s\<lparr>ps_active := ps_active s |-| {|i|}, ps_failures := fmupd i (bounded_error e) (ps_failures s)\<rparr>)"

text \<open>Reading a missing key of the maps gives the empty string and 0.\<close>

definition failure_of :: "pipeline_state \<Rightarrow> string \<Rightarrow> string" where
  "failure_of s i = (case fmlookup (ps_failures s) i of None \<Rightarrow> [] | Some m \<Rightarrow> m)"

definition local_version_of :: "pipeline_state \<Rightarrow> string \<Rightarrow> int" where
  "local_version_of s i = (case fmlookup (ps_local_version s) i of None \<Rightarrow> 0 | Some v \<Rightarrow> v)"

definition runnable_locked :: "pipeline_state \<Rightarrow> string \<Rightarrow> bool" where
  "runnable_locked s i \<longleftrightarrow>
     failure_of s i = [] \<and>
     (\<not> ps_control_known s \<or>
      (case fmlookup (ps_desired s) i of
         None \<Rightarrow> False
       | Some c \<Rightarrow> pc_desired_status c = ''enabled'' \<and> pc_config_version c = local_version_of s i))"

text \<open>One turn of \<open>WaitUntilRunnable\<close>.\<close>

datatype gate = GateError control_error | GateOpen | GateWaits nat

definition wait_until_runnable :: "string \<Rightarrow> pipeline_state \<Rightarrow> gate" where
  "wait_until_runnable i s =
     (if fmlookup (ps_local_version s) i = None then GateError (UnknownPipeline i)
      else if runnable_locked s i then GateOpen
      else GateWaits (ps_changed s))"

definition report_locked :: "pipeline_state \<Rightarrow> string \<Rightarrow> string \<times> string" where
  "report_locked s i =
     (if failure_of s i \<noteq> [] then (''error'', failure_of s i)
      else let running = (if i |\<in>| ps_active s then (''running'', []) else (''stopped'', [])) in
        if \<not> ps_control_known s then running
        else (case fmlookup (ps_desired s) i of
                None \<Rightarrow> (''error'', ''pipeline is not registered for this Agent'')
              | Some c \<Rightarrow>
                  if pc_config_version c \<noteq> local_version_of s i
                    then (''error'', ''config version mismatch: local='' @ int_dec (local_version_of s i) @ '' server='' @
                                     int_dec (pc_config_version c))
                  else if pc_desired_status c = ''error'' then (''error'', ''server marked pipeline as errored'')
                  else if pc_desired_status c \<noteq> ''enabled'' then (''stopped'', [])
                  else running))"

record heartbeat_pipeline =
  hp_id :: string
  hp_config_version :: int
  hp_status :: string
  hp_last_error :: "string option"

definition reports :: "pipeline_state \<Rightarrow> heartbeat_pipeline list" where
  "reports s =
     map (\<lambda>i. let (status, message) = report_locked s i
              in \<lparr>hp_id = i, hp_config_version = local_version_of s i, hp_status = status,
                  hp_last_error = (if message = [] then None else Some message)\<rparr>) (ps_order s)"

section \<open>Heartbeat\<close>

record http_heartbeat =
  hh_endpoint :: string
  hh_token :: string
  hh_version :: string

text \<open>\<open>url.Parse\<close> is an argument: the scheme, the host and the text of the URL.\<close>

definition new_http_heartbeat ::
  "(string \<Rightarrow> (string \<times> string \<times> string) option) \<Rightarrow> string \<Rightarrow> string \<Rightarrow> string \<Rightarrow> string + http_heartbeat" where
  "new_http_heartbeat parse_url endpoint token version =
     (if blank endpoint \<or> blank token then Inl ''heartbeat endpoint and token are required''
      else (case parse_url endpoint of
              None \<Rightarrow> Inl ''heartbeat endpoint must be an absolute URL''
            | Some (scheme, host, text) \<Rightarrow>
                if scheme = [] \<or> host = [] then Inl ''heartbeat endpoint must be an absolute URL''
                else Inr \<lparr>hh_endpoint = text, hh_token = token, hh_version = (if blank version then ''dev'' else version)\<rparr>))"

definition heartbeat_pipeline_json :: "heartbeat_pipeline \<Rightarrow> string" where
  "heartbeat_pipeline_json p =
     jobj ([(''id'', quote (hp_id p)), (''config_version'', int_dec (hp_config_version p)), (''status'', quote (hp_status p))] @
           (case hp_last_error p of None \<Rightarrow> [] | Some e \<Rightarrow> [(''last_error'', quote e)]))"

definition heartbeat_body :: "http_heartbeat \<Rightarrow> heartbeat_pipeline list \<Rightarrow> bytes" where
  "heartbeat_body h ps =
     jobj [(''version'', quote (hh_version h)), (''pipelines'', jarr (map heartbeat_pipeline_json ps))]"

definition set_pipeline_control_field :: "string \<Rightarrow> string \<Rightarrow> json \<Rightarrow> pipeline_control \<Rightarrow> pipeline_control option" where
  "set_pipeline_control_field n t v p =
     (if n = ''id'' then map_option (\<lambda>x. p\<lparr>pc_id := x\<rparr>) (dec_string v (pc_id p))
      else if n = ''desired_status'' then map_option (\<lambda>x. p\<lparr>pc_desired_status := x\<rparr>) (dec_string v (pc_desired_status p))
      else map_option (\<lambda>x. p\<lparr>pc_config_version := x\<rparr>) (dec_int v (pc_config_version p)))"

fun dec_controls :: "json list \<Rightarrow> pipeline_control list \<Rightarrow> pipeline_control list option" where
  "dec_controls [] old = Some []"
| "dec_controls (v # vs) old =
     do { p \<leftarrow> dec_struct False [''id'', ''desired_status'', ''config_version''] set_pipeline_control_field v
            (case old of [] \<Rightarrow> \<lparr>pc_id = [], pc_desired_status = [], pc_config_version = 0\<rparr> | o1 # _ \<Rightarrow> o1);
          ps \<leftarrow> dec_controls vs (tl old);
          Some (p # ps) }"

definition dec_control_list :: "json \<Rightarrow> pipeline_control list \<Rightarrow> pipeline_control list option" where
  "dec_control_list v old = (case v of JNull \<Rightarrow> Some [] | JArr vs \<Rightarrow> dec_controls vs old | _ \<Rightarrow> None)"

definition decode_heartbeat_response :: "bytes \<Rightarrow> pipeline_control list option" where
  "decode_heartbeat_response body =
     unmarshal (dec_struct False [''control'']
       (\<lambda>n t v old. dec_struct False [''pipelines''] (\<lambda>n t v old. dec_control_list v old) v old)) body []"

datatype heartbeat_error = HeartbeatRequest | HeartbeatSend | HeartbeatRead | HeartbeatStatus int | HeartbeatDecode

definition heartbeat_report :: "http_outcome \<Rightarrow> heartbeat_error + pipeline_control list" where
  "heartbeat_report h =
     (case h of
        RequestFails \<Rightarrow> Inl HeartbeatRequest
      | DoFails \<Rightarrow> Inl HeartbeatSend
      | BodyFails _ \<Rightarrow> Inl HeartbeatRead
      | Responds status retry body \<Rightarrow>
          if status < 200 \<or> status \<ge> 300 then Inl (HeartbeatStatus status)
          else (case decode_heartbeat_response (take 65536 body) of
                  None \<Rightarrow> Inl HeartbeatDecode
                | Some ps \<Rightarrow> Inr ps))"

text \<open>One turn of \<open>runHeartbeat\<close>: a failed report or an invalid control leaves the state.\<close>

definition heartbeat_turn :: "http_outcome \<Rightarrow> pipeline_state \<Rightarrow> pipeline_state" where
  "heartbeat_turn h s =
     (case heartbeat_report h of
        Inl e \<Rightarrow> s
      | Inr snap \<Rightarrow> snd (apply_snapshot snap s))"

section \<open>Facts\<close>

lemma report_running: "fst (report_locked s i) = ''running'' \<longleftrightarrow> runnable_locked s i \<and> i |\<in>| ps_active s"
  by (auto simp: report_locked_def runnable_locked_def Let_def split: option.splits)

lemma collect_control_lookup:
  assumes "collect_control ps m = Inr m'"
  shows "fmlookup m' i = (case fmlookup m i of Some c \<Rightarrow> Some c
    | None \<Rightarrow> map_option (\<lambda>p. p\<lparr>pc_id := i\<rparr>) (find (\<lambda>p. trim_space (pc_id p) = i) ps))"
  using assms
proof (induction ps arbitrary: m)
  case (Cons p ps)
  let ?k = "trim_space (pc_id p)"
  from Cons.prems have "fmlookup m ?k = None" "collect_control ps (fmupd ?k (p\<lparr>pc_id := ?k\<rparr>) m) = Inr m'"
    by (auto simp: Let_def split: if_splits)
  with Cons.IH [OF this(2)] show ?case by (auto split: option.splits)
qed (auto split: option.splits)

lemma collect_control_valid:
  "collect_control ps m = Inr m' \<Longrightarrow> (\<forall>i c. fmlookup m i = Some c \<longrightarrow> 0 < pc_config_version c \<and> valid_desired_status (pc_desired_status c)) \<Longrightarrow>
     fmlookup m' i = Some c \<Longrightarrow> 0 < pc_config_version c \<and> valid_desired_status (pc_desired_status c)"
  by (induction ps arbitrary: m) (fastforce simp: Let_def split: if_splits)+

end
