(* ===== verification/Agent_Source.thy ===== *)
theory Agent_Source
  imports Spool_Codec
begin

text \<open>
  The file source of the agent (\<open>internal/agent/source/durable_file.go\<close>). A file is the bytes that it
  holds; \<open>fs_path\<close> is the file that the path names now, \<open>fs_ident\<close> the text that
  \<open>persistentFileIdentity\<close> makes of its device and inode. A call of \<open>bufio.Reader.ReadString\<close> is one step:
  it reads ahead by any number of bytes. Failures of system calls and the clock are arguments.
\<close>

section \<open>Files\<close>

record file_system =
  fs_path :: "nat option"
  fs_data :: "nat \<Rightarrow> bytes"
  fs_ident :: "nat \<Rightarrow> string"

record raw_record =
  rr_observed_at :: time
  rr_content :: string
  rr_source_key :: string
  rr_file_identity :: string
  rr_end_offset :: int

record durable_source =
  ds_key :: string
  ds_identity :: string
  ds_file :: nat
  ds_buffer :: bytes
  ds_pos :: nat
  ds_pending :: bytes
  ds_read_offset :: int
  ds_checkpoint_at :: time
  ds_rotation_seen :: nat
  ds_poll_interval :: duration

datatype source_error =
    EmptyPath | EmptyKey | PathFails | OpenFails | StatFails | IdentityFails | SeekFails | ReadFails
  | KeyMismatch | NegativeOffset | RotationPartialRecord | RotationRequired | NoPersistence | SameFile
  | PersistFails spool_error | CloseFails

text \<open>The system calls that fail in a call.\<close>

record source_io =
  io_path :: bool
  io_open :: bool
  io_stat :: bool
  io_identity :: bool
  io_seek :: bool
  io_close :: bool

definition io_ok :: source_io where
  "io_ok = \<lparr>io_path = False, io_open = False, io_stat = False, io_identity = False, io_seek = False, io_close = False\<rparr>"

section \<open>Opening\<close>

text \<open>The offset and the time at which reading starts.\<close>

definition start_at :: "file_system \<Rightarrow> nat \<Rightarrow> checkpoint option \<Rightarrow> time \<Rightarrow> int \<times> time" where
  "start_at fs f cp now =
     (case cp of
        None \<Rightarrow> (0, now)
      | Some c \<Rightarrow>
          if cp_file_identity c = fs_ident fs f
          then (if int (length (fs_data fs f)) \<ge> cp_offset_bytes c then cp_offset_bytes c else 0, cp_observed_at c)
          else (0, now))"

definition new_source ::
  "file_system \<Rightarrow> source_io \<Rightarrow> string \<Rightarrow> string \<Rightarrow> checkpoint option \<Rightarrow> duration \<Rightarrow> time \<Rightarrow> source_error + durable_source"
where
  "new_source fs io path key cp poll now =
     (if blank path then Inl EmptyPath
      else if blank key then Inl EmptyKey
      else if io_path io then Inl PathFails
      else if io_open io then Inl OpenFails
      else (case fs_path fs of
              None \<Rightarrow> Inl OpenFails
            | Some f \<Rightarrow>
                if io_stat io then Inl StatFails
                else if io_identity io then Inl IdentityFails
                else if (case cp of None \<Rightarrow> False | Some c \<Rightarrow> cp_source_key c \<noteq> key) then Inl KeyMismatch
                else if (case cp of None \<Rightarrow> False | Some c \<Rightarrow> cp_offset_bytes c < 0) then Inl NegativeOffset
                else if io_seek io then Inl SeekFails
                else (let (offset, at_time) = start_at fs f cp now
                      in Inr \<lparr>ds_key = key, ds_identity = fs_ident fs f, ds_file = f, ds_buffer = [], ds_pos = nat offset,
                           ds_pending = [], ds_read_offset = offset, ds_checkpoint_at = at_time, ds_rotation_seen = 0,
                           ds_poll_interval = (if poll \<le> 0 then second else poll)\<rparr>)))"

definition initial_checkpoint :: "durable_source \<Rightarrow> checkpoint" where
  "initial_checkpoint s =
     \<lparr>cp_source_key = ds_key s, cp_file_identity = ds_identity s, cp_offset_bytes = ds_read_offset s,
      cp_observed_at = ds_checkpoint_at s\<rparr>"

section \<open>Reading\<close>

abbreviation newline :: char where "newline \<equiv> CHR 0x0A"

definition trim_suffix :: "char \<Rightarrow> string \<Rightarrow> string" where
  "trim_suffix c s = (if s \<noteq> [] \<and> last s = c then butlast s else s)"

definition line_content :: "bytes \<Rightarrow> string" where
  "line_content l = trim_suffix (CHR 0x0D) (trim_suffix newline l)"

text \<open>The reads of the call: they reach the end of the file, or one fails after \<open>k\<close> more bytes.\<close>

datatype reads = ReadsOk nat | ReadsFail nat

datatype read_end = Delimited | EndOfFile | ReadError

text \<open>\<open>ReadString('\n')\<close>: what it returns, the buffer and the position of the file after it.\<close>

definition read_string :: "bytes \<Rightarrow> reads \<Rightarrow> bytes \<Rightarrow> nat \<Rightarrow> (bytes \<times> read_end) \<times> bytes \<times> nat" where
  "read_string data rd buf pos =
     (let more = (case rd of ReadsOk _ \<Rightarrow> drop pos data | ReadsFail k \<Rightarrow> take k (drop pos data));
          all_bytes = buf @ more
      in if newline \<in> set all_bytes
         then (let line = takeWhile (\<lambda>c. c \<noteq> newline) all_bytes @ [newline];
                   rest = drop (length line) all_bytes;
                   unread = drop (length line) buf;
                   ahead = (case rd of ReadsOk a \<Rightarrow> a | ReadsFail a \<Rightarrow> a);
                   kept = (if length line \<le> length buf then unread else take ahead rest)
               in ((line, Delimited), kept, pos + (length line + length kept - length buf)))
         else ((all_bytes, case rd of ReadsOk _ \<Rightarrow> EndOfFile | ReadsFail _ \<Rightarrow> ReadError), [], pos + length more))"

definition detect_rotation :: "file_system \<Rightarrow> source_io \<Rightarrow> durable_source \<Rightarrow> source_error option \<times> durable_source" where
  "detect_rotation fs io s =
     (if io_stat io then (Some StatFails, s)
      else (case fs_path fs of
              None \<Rightarrow> (Some StatFails, s)
            | Some f \<Rightarrow>
                if f \<noteq> ds_file s then
                  (if ds_pending s \<noteq> [] then (Some RotationPartialRecord, s)
                   else (let s' = s\<lparr>ds_rotation_seen := ds_rotation_seen s + 1\<rparr>
                         in (if ds_rotation_seen s' \<ge> 2 then Some RotationRequired else None, s')))
                else
                  (let s' = s\<lparr>ds_rotation_seen := 0\<rparr>
                   in if int (length (fs_data fs f)) \<ge> ds_read_offset s then (None, s')
                      else if io_seek io then (Some SeekFails, s')
                      else (None, s'\<lparr>ds_pos := 0, ds_buffer := [], ds_pending := [], ds_read_offset := 0\<rparr>))))"

text \<open>One turn of the loop of \<open>NextRecord\<close>; \<open>Waiting\<close> is the wait for the poll interval.\<close>

datatype poll = Record raw_record | Waiting | Fatal source_error

definition poll_turn :: "file_system \<Rightarrow> source_io \<Rightarrow> reads \<Rightarrow> time \<Rightarrow> durable_source \<Rightarrow> poll \<times> durable_source" where
  "poll_turn fs io rd now s =
     (let ((line, e), buf, pos) = read_string (fs_data fs (ds_file s)) rd (ds_buffer s) (ds_pos s);
          s1 = s\<lparr>ds_buffer := buf, ds_pos := pos, ds_pending := ds_pending s @ line,
                 ds_read_offset := ds_read_offset s + int (length line)\<rparr>
      in case e of
           Delimited \<Rightarrow>
             (let s2 = s1\<lparr>ds_pending := [], ds_checkpoint_at := now, ds_rotation_seen := 0\<rparr>
              in (Record \<lparr>rr_observed_at = now, rr_content = line_content (ds_pending s1), rr_source_key = ds_key s,
                          rr_file_identity = ds_identity s, rr_end_offset = ds_read_offset s2\<rparr>, s2))
         | ReadError \<Rightarrow> (Fatal ReadFails, s1)
         | EndOfFile \<Rightarrow>
             (case detect_rotation fs io s1 of
                (Some err, s2) \<Rightarrow> (Fatal err, s2)
              | (None, s2) \<Rightarrow> (Waiting, s2)))"

text \<open>\<open>Rotate\<close>; \<open>persist\<close> is the compare-and-set on the durable checkpoint.\<close>

definition rotate ::
  "file_system \<Rightarrow> source_io \<Rightarrow> time \<Rightarrow> (checkpoint option \<Rightarrow> checkpoint \<Rightarrow> 's \<Rightarrow> 's \<times> (spool_error + unit)) option \<Rightarrow>
     durable_source \<times> 's \<Rightarrow> source_error option \<times> durable_source \<times> 's"
where
  "rotate fs io now persist st =
     (let (s, d) = st in
      case persist of
        None \<Rightarrow> (Some NoPersistence, s, d)
      | Some p \<Rightarrow>
          if ds_pending s \<noteq> [] then (Some RotationPartialRecord, s, d)
          else if io_open io then (Some OpenFails, s, d)
          else (case fs_path fs of
                  None \<Rightarrow> (Some OpenFails, s, d)
                | Some f \<Rightarrow>
                    if io_stat io then (Some StatFails, s, d)
                    else if f = ds_file s then (Some SameFile, s, d)
                    else if io_identity io then (Some IdentityFails, s, d)
                    else
                      (let nxt = \<lparr>cp_source_key = ds_key s, cp_file_identity = fs_ident fs f, cp_offset_bytes = 0,
                                  cp_observed_at = now\<rparr>
                       in case p (Some (initial_checkpoint s)) nxt d of
                            (d', Inl e) \<Rightarrow> (Some (PersistFails e), s, d')
                          | (d', Inr _) \<Rightarrow>
                              (if io_close io then Some CloseFails else None,
                               s\<lparr>ds_file := f, ds_buffer := [], ds_pos := 0, ds_identity := fs_ident fs f,
                                 ds_read_offset := 0, ds_checkpoint_at := now, ds_rotation_seen := 0\<rparr>, d'))))"

section \<open>The lines of a file\<close>

text \<open>The lines that are complete, each with its newline.\<close>

function complete_lines :: "bytes \<Rightarrow> bytes list" where
  "complete_lines d =
     (if newline \<in> set d
      then (takeWhile (\<lambda>c. c \<noteq> newline) d @ [newline]) # complete_lines (drop (Suc (length (takeWhile (\<lambda>c. c \<noteq> newline) d))) d)
      else [])"
  by pat_completeness auto
termination
  by (relation "measure length") (auto intro: diff_less dest: length_pos_if_in_set)

declare complete_lines.simps [simp del]

definition is_line :: "bytes \<Rightarrow> bool" where
  "is_line l \<longleftrightarrow> (\<exists>c. l = c @ [newline] \<and> newline \<notin> set c)"

lemma complete_lines_Cons:
  assumes "is_line l"
  shows "complete_lines (l @ d) = l # complete_lines d"
proof -
  obtain c where c: "l = c @ [newline]" "newline \<notin> set c" using assms by (auto simp: is_line_def)
  then have "takeWhile (\<lambda>c. c \<noteq> newline) (l @ d) = c" by (simp, subst takeWhile_append2) auto
  with c show ?thesis by (subst complete_lines.simps) simp
qed

lemma complete_lines_none [simp]: "newline \<notin> set d \<Longrightarrow> complete_lines d = []"
  by (subst complete_lines.simps) simp

lemma complete_lines_append:
  "\<forall>l \<in> set ls. is_line l \<Longrightarrow> complete_lines (concat ls @ d) = ls @ complete_lines d"
  by (induction ls) (simp_all add: complete_lines_Cons)

lemma first_line:
  assumes "newline \<in> set d"
  shows "is_line (takeWhile (\<lambda>c. c \<noteq> newline) d @ [newline])"
    "d = (takeWhile (\<lambda>c. c \<noteq> newline) d @ [newline]) @ drop (Suc (length (takeWhile (\<lambda>c. c \<noteq> newline) d))) d"
proof -
  show "is_line (takeWhile (\<lambda>c. c \<noteq> newline) d @ [newline])"
    using set_takeWhileD by (fastforce simp: is_line_def)
  obtain a b where ab: "d = a @ newline # b" "newline \<notin> set a" using split_list_first [OF assms] by blast
  then have "takeWhile (\<lambda>c. c \<noteq> newline) d = a" by (simp add: takeWhile_append)
  with ab show "d = (takeWhile (\<lambda>c. c \<noteq> newline) d @ [newline]) @ drop (Suc (length (takeWhile (\<lambda>c. c \<noteq> newline) d))) d" by simp
qed

lemma complete_lines_are_lines: "l \<in> set (complete_lines d) \<Longrightarrow> is_line l"
proof (induction d rule: complete_lines.induct)
  case (1 d)
  show ?case
  proof (cases "newline \<in> set d")
    case True
    then show ?thesis using 1 first_line(1) [OF True] by (auto simp: complete_lines.simps [of d])
  qed (use 1 in simp)
qed

text \<open>What the lines become: the content and the offset of their end, from an offset on.\<close>

fun line_records :: "int \<Rightarrow> bytes list \<Rightarrow> (string \<times> int) list" where
  "line_records off [] = []"
| "line_records off (l # ls) = (line_content l, off + int (length l)) # line_records (off + int (length l)) ls"

lemma line_records_append: "line_records off (xs @ ys) = line_records off xs @ line_records (off + int (length (concat xs))) ys"
  by (induction xs arbitrary: off) (simp_all add: algebra_simps)

definition record_key :: "raw_record \<Rightarrow> string \<times> int" where
  "record_key r = (rr_content r, rr_end_offset r)"

section \<open>Reading a file that grows\<close>

text \<open>
  \<open>reads_file\<close>: the path names the file of the source, and the source stands in its bytes: what is pending,
  what is buffered and what is still to be read are consecutive.
\<close>

definition unread :: "file_system \<Rightarrow> durable_source \<Rightarrow> bytes" where
  "unread fs s = ds_pending s @ ds_buffer s @ drop (ds_pos s) (fs_data fs (ds_file s))"

definition line_start :: "durable_source \<Rightarrow> int" where
  "line_start s = ds_read_offset s - int (length (ds_pending s))"

definition reads_file :: "file_system \<Rightarrow> durable_source \<Rightarrow> bool" where
  "reads_file fs s \<longleftrightarrow>
     fs_path fs = Some (ds_file s) \<and> ds_pos s \<le> length (fs_data fs (ds_file s)) \<and>
     int (ds_pos s) = ds_read_offset s + int (length (ds_buffer s)) \<and>
     0 \<le> line_start s \<and> newline \<notin> set (ds_pending s) \<and>
     drop (nat (line_start s)) (fs_data fs (ds_file s)) = unread fs s"

lemma reads_file_offset:
  assumes "reads_file fs s"
  shows "ds_read_offset s \<le> int (length (fs_data fs (ds_file s)))"
  using assms by (auto simp: reads_file_def)

lemma read_ahead:
  assumes "rest = drop b data" "b \<le> length data"
  shows "rest = take a rest @ drop (b + length (take a rest)) data \<and> b + length (take a rest) \<le> length data"
proof -
  have "drop (b + length (take a rest)) data = drop (length (take a rest)) rest" by (simp add: assms(1) add.commute)
  also have "\<dots> = drop a rest" by (cases "a \<le> length rest") simp_all
  finally have "rest = take a rest @ drop (b + length (take a rest)) data" by simp
  moreover have "b + length (take a rest) \<le> length data" using assms by simp
  ultimately show ?thesis by blast
qed

lemma poll_growing:
  assumes r: "reads_file fs s" and p: "poll_turn fs io (ReadsOk a) now s = (x, s')" and io: "\<not> io_stat io"
  shows "reads_file fs s' \<and> ds_file s' = ds_file s \<and> ds_key s' = ds_key s \<and> ds_identity s' = ds_identity s \<and>
    (case x of
       Record rec \<Rightarrow> \<exists>line. is_line line \<and> unread fs s = line @ unread fs s' \<and> ds_pending s' = [] \<and>
         rr_content rec = line_content line \<and> rr_end_offset rec = line_start s + int (length line) \<and>
         line_start s' = rr_end_offset rec \<and> rr_source_key rec = ds_key s \<and> rr_file_identity rec = ds_identity s \<and>
         rr_observed_at rec = now \<and> ds_checkpoint_at s' = now
     | Waiting \<Rightarrow> newline \<notin> set (unread fs s) \<and> unread fs s' = unread fs s \<and> line_start s' = line_start s \<and>
         ds_checkpoint_at s' = ds_checkpoint_at s
     | Fatal e \<Rightarrow> False)"
proof -
  let ?data = "fs_data fs (ds_file s)"
  let ?all = "ds_buffer s @ drop (ds_pos s) ?data"
  have pend: "newline \<notin> set (ds_pending s)" and pos: "ds_pos s \<le> length ?data"
    and off: "int (ds_pos s) = ds_read_offset s + int (length (ds_buffer s))" and start: "0 \<le> line_start s"
    and path: "fs_path fs = Some (ds_file s)" and un: "drop (nat (line_start s)) ?data = unread fs s"
    using r by (auto simp: reads_file_def)
  show ?thesis
  proof (cases "newline \<in> set ?all")
    case True
    define line where "line = takeWhile (\<lambda>c. c \<noteq> newline) ?all @ [newline]"
    define rest where "rest = drop (length line) ?all"
    have line: "is_line line" "?all = line @ rest" using first_line [OF True] by (simp_all add: line_def rest_def)
    define kept where "kept = (if length line \<le> length (ds_buffer s) then drop (length line) (ds_buffer s) else take a rest)"
    define pos' where "pos' = ds_pos s + (length line + length kept - length (ds_buffer s))"
    have rs: "read_string ?data (ReadsOk a) (ds_buffer s) (ds_pos s) = ((line, Delimited), kept, pos')"
      using True by (simp add: read_string_def Let_def line_def [symmetric] rest_def [symmetric] kept_def [symmetric] pos'_def)
        (simp add: kept_def rest_def)
    have after: "rest = kept @ drop pos' ?data" "pos' \<le> length ?data" "int pos' = int (ds_pos s) - int (length (ds_buffer s)) + int (length line) + int (length kept)"
    proof -
      have bound: "length line + length rest = length (ds_buffer s) + (length ?data - ds_pos s)"
        using arg_cong [OF line(2), of length] by simp
      show "int pos' = int (ds_pos s) - int (length (ds_buffer s)) + int (length line) + int (length kept)"
      proof (cases "length line \<le> length (ds_buffer s)")
        case True
        then show ?thesis by (simp add: pos'_def kept_def)
      next
        case False
        then show ?thesis by (simp add: pos'_def)
      qed
      have "rest = kept @ drop pos' ?data \<and> pos' \<le> length ?data"
      proof (cases "length line \<le> length (ds_buffer s)")
        case True
        then have "pos' = ds_pos s" by (simp add: pos'_def kept_def)
        with True pos show ?thesis by (simp add: rest_def kept_def)
      next
        case False
        let ?b = "ds_pos s + (length line - length (ds_buffer s))"
        have "rest = drop ?b ?data" using False by (simp add: rest_def add.commute)
        moreover have "?b \<le> length ?data" using bound pos False by linarith
        moreover have "kept = take a rest" "pos' = ?b + length kept" using False by (simp_all add: kept_def pos'_def)
        ultimately show ?thesis using read_ahead [of rest ?b ?data a] by simp
      qed
      then show "rest = kept @ drop pos' ?data" "pos' \<le> length ?data" by simp_all
    qed
    have x: "x = Record \<lparr>rr_observed_at = now, rr_content = line_content (ds_pending s @ line), rr_source_key = ds_key s,
        rr_file_identity = ds_identity s, rr_end_offset = ds_read_offset s + int (length line)\<rparr>"
      and s': "s' = s\<lparr>ds_buffer := kept, ds_pos := pos', ds_read_offset := ds_read_offset s + int (length line), ds_pending := [],
        ds_checkpoint_at := now, ds_rotation_seen := 0\<rparr>"
      using p by (auto simp: poll_turn_def rs Let_def)
    have whole: "is_line (ds_pending s @ line)"
      using line(1) pend by (auto simp: is_line_def intro: exI [of _ "ds_pending s @ _"])
    have un': "unread fs s = (ds_pending s @ line) @ unread fs s'"
      using line(2) after(1) by (simp add: unread_def s')
    have start': "line_start s' = line_start s + int (length (ds_pending s @ line))"
      by (simp add: line_start_def s')
    have drop': "drop (nat (line_start s')) ?data = unread fs s'"
    proof -
      have "drop (nat (line_start s')) ?data = drop (length (ds_pending s @ line)) (drop (nat (line_start s)) ?data)"
        using start start' by (simp add: nat_add_distrib add.commute)
      then show ?thesis by (simp add: un un')
    qed
    have "reads_file fs s'"
      using path after(2,3) off start start' drop' by (simp add: reads_file_def s' line_start_def)
    with whole un' start' show ?thesis by (auto simp: x s' line_start_def intro!: exI [of _ "ds_pending s @ line"])
  next
    case False
    have rs: "read_string ?data (ReadsOk a) (ds_buffer s) (ds_pos s) = ((?all, EndOfFile), [], length ?data)"
      using False pos by (simp add: read_string_def Let_def)
    let ?s1 = "s\<lparr>ds_buffer := [], ds_pos := length ?data, ds_pending := ds_pending s @ ?all,
      ds_read_offset := ds_read_offset s + int (length ?all)\<rparr>"
    have len: "ds_read_offset s + int (length ?all) = int (length ?data)" using pos off by simp
    have "detect_rotation fs io ?s1 = (None, ?s1\<lparr>ds_rotation_seen := 0\<rparr>)"
      using path io len by (simp add: detect_rotation_def Let_def)
    with p have xs: "x = Waiting" "s' = ?s1\<lparr>ds_rotation_seen := 0\<rparr>" by (simp_all add: poll_turn_def rs Let_def)
    have un': "unread fs s' = unread fs s" "line_start s' = line_start s" by (simp_all add: xs unread_def line_start_def)
    have "drop (nat (line_start s')) ?data = unread fs s'" using un un' by simp
    moreover have "newline \<notin> set (ds_pending s')" "int (ds_pos s') = ds_read_offset s' + int (length (ds_buffer s'))"
      "ds_pos s' = length ?data" "ds_file s' = ds_file s"
      using pend False len by (auto simp: xs)
    ultimately have "reads_file fs s'" using path start un'(2) by (simp add: reads_file_def)
    with un' pend False show ?thesis by (auto simp: xs unread_def)
  qed
qed

text \<open>The file grows and is polled, in any order.\<close>

datatype file_event = Grow bytes | Poll nat time

definition grow :: "bytes \<Rightarrow> file_system \<Rightarrow> nat \<Rightarrow> file_system" where
  "grow b fs f = fs\<lparr>fs_data := (fs_data fs)(f := fs_data fs f @ b)\<rparr>"

fun read_run :: "file_event list \<Rightarrow> file_system \<times> durable_source \<Rightarrow> raw_record list \<times> file_system \<times> durable_source" where
  "read_run [] (fs, s) = ([], fs, s)"
| "read_run (Grow b # evs) (fs, s) = read_run evs (grow b fs (ds_file s), s)"
| "read_run (Poll a now # evs) (fs, s) =
     (let (x, s1) = poll_turn fs io_ok (ReadsOk a) now s;
          (rs, st) = read_run evs (fs, s1)
      in (case x of Record r \<Rightarrow> r # rs | _ \<Rightarrow> rs, st))"

lemma reads_file_grow:
  assumes "reads_file fs s"
  shows "reads_file (grow b fs (ds_file s)) s" "unread (grow b fs (ds_file s)) s = unread fs s @ b"
proof -
  have pos: "ds_pos s \<le> length (fs_data fs (ds_file s))" and start: "0 \<le> line_start s"
    and off: "int (ds_pos s) = ds_read_offset s + int (length (ds_buffer s))"
    using assms by (auto simp: reads_file_def)
  then show u: "unread (grow b fs (ds_file s)) s = unread fs s @ b" by (simp add: unread_def grow_def)
  have "nat (line_start s) \<le> length (fs_data fs (ds_file s))"
    using pos start off by (simp add: line_start_def)
  with assms u show "reads_file (grow b fs (ds_file s)) s" by (simp add: reads_file_def grow_def)
qed

lemma not_io_ok [simp]: "\<not> io_stat io_ok" "\<not> io_open io_ok" "\<not> io_identity io_ok" "\<not> io_seek io_ok" "\<not> io_close io_ok" "\<not> io_path io_ok"
  by (simp_all add: io_ok_def)

lemma grow_data [simp]: "fs_data (grow b fs f) f = fs_data fs f @ b" "fs_path (grow b fs f) = fs_path fs" "fs_ident (grow b fs f) = fs_ident fs"
  by (simp_all add: grow_def)

lemma read_run_lines:
  assumes "reads_file fs s" "read_run evs (fs, s) = (rs, fs', s')"
  shows "reads_file fs' s' \<and> ds_file s' = ds_file s \<and>
    (\<exists>ls b. (\<forall>l \<in> set ls. is_line l) \<and> unread fs s @ b = concat ls @ unread fs' s' \<and>
       fs_data fs' (ds_file s) = fs_data fs (ds_file s) @ b \<and>
       map record_key rs = line_records (line_start s) ls \<and> line_start s' = line_start s + int (length (concat ls)))"
  using assms
proof (induction evs arbitrary: fs s rs)
  case Nil
  then show ?case by (auto intro!: exI [of _ "[]"])
next
  case (Cons ev evs)
  show ?case
  proof (cases ev)
    case (Grow b)
    with Cons.prems have run: "read_run evs (grow b fs (ds_file s), s) = (rs, fs', s')" by simp
    note g = reads_file_grow [OF Cons.prems(1), of b]
    from Cons.IH [OF g(1) run] obtain ls b' where "reads_file fs' s'" "ds_file s' = ds_file s" "\<forall>l \<in> set ls. is_line l"
      "unread fs s @ b @ b' = concat ls @ unread fs' s'" "fs_data fs' (ds_file s) = fs_data fs (ds_file s) @ b @ b'"
      "map record_key rs = line_records (line_start s) ls" "line_start s' = line_start s + int (length (concat ls))"
      by (auto simp: g(2))
    then show ?thesis by blast
  next
    case (Poll a now)
    obtain x s1 where p: "poll_turn fs io_ok (ReadsOk a) now s = (x, s1)" by fastforce
    obtain rs1 st where run0: "read_run evs (fs, s1) = (rs1, st)" by (cases "read_run evs (fs, s1)")
    with Cons.prems(2) Poll p have st: "st = (fs', s')" and rs: "rs = (case x of Record r \<Rightarrow> r # rs1 | _ \<Rightarrow> rs1)" by simp_all
    note turn = poll_growing [OF Cons.prems(1) p not_io_ok(1)]
    from Cons.IH [OF _ run0 [unfolded st]] turn obtain ls b where ih: "reads_file fs' s'" "ds_file s' = ds_file s" "\<forall>l \<in> set ls. is_line l"
      "unread fs s1 @ b = concat ls @ unread fs' s'" "fs_data fs' (ds_file s) = fs_data fs (ds_file s) @ b"
      "map record_key rs1 = line_records (line_start s1) ls" "line_start s' = line_start s1 + int (length (concat ls))"
      by auto
    show ?thesis
    proof (cases x)
      case (Record r)
      with turn obtain line where l: "is_line line" "unread fs s = line @ unread fs s1" "rr_content r = line_content line"
        "rr_end_offset r = line_start s + int (length line)" "line_start s1 = rr_end_offset r" by auto
      with ih have "unread fs s @ b = concat (line # ls) @ unread fs' s'" "map record_key rs = line_records (line_start s) (line # ls)"
        "line_start s' = line_start s + int (length (concat (line # ls)))" "\<forall>l \<in> set (line # ls). is_line l"
        by (simp_all add: rs Record record_key_def)
      with ih(1,2,5) show ?thesis by blast
    next
      case Waiting
      with ih turn have "unread fs s @ b = concat ls @ unread fs' s'" "map record_key rs = line_records (line_start s) ls"
        "line_start s' = line_start s + int (length (concat ls))" by (simp_all add: rs)
      with ih(1,2,3,5) show ?thesis by blast
    next
      case (Fatal e)
      with turn show ?thesis by simp
    qed
  qed
qed

lemma new_source_reads:
  assumes "new_source fs io path key cp poll now = Inr s"
  shows "reads_file fs s" "line_start s = ds_read_offset s" "ds_key s = key" "fs_path fs = Some (ds_file s)"
    "ds_identity s = fs_ident fs (ds_file s)" "ds_pending s = []"
    "ds_read_offset s = fst (start_at fs (ds_file s) cp now)" "0 \<le> ds_read_offset s"
proof -
  obtain f where f: "fs_path fs = Some f" "\<not> (case cp of None \<Rightarrow> False | Some c \<Rightarrow> cp_offset_bytes c < 0)"
    and s: "s = \<lparr>ds_key = key, ds_identity = fs_ident fs f, ds_file = f, ds_buffer = [], ds_pos = nat (fst (start_at fs f cp now)),
         ds_pending = [], ds_read_offset = fst (start_at fs f cp now), ds_checkpoint_at = snd (start_at fs f cp now),
         ds_rotation_seen = 0, ds_poll_interval = (if poll \<le> 0 then second else poll)\<rparr>"
    using assms by (auto simp: new_source_def Let_def split: if_splits option.splits prod.splits)
  have o: "0 \<le> fst (start_at fs f cp now)" "fst (start_at fs f cp now) \<le> int (length (fs_data fs f))"
    using f(2) by (auto simp: start_at_def split: option.splits)
  show "reads_file fs s" "line_start s = ds_read_offset s" "ds_key s = key" "fs_path fs = Some (ds_file s)"
    "ds_identity s = fs_ident fs (ds_file s)" "ds_pending s = []"
    "ds_read_offset s = fst (start_at fs (ds_file s) cp now)" "0 \<le> ds_read_offset s"
    using f(1) o by (simp_all add: s reads_file_def line_start_def unread_def)
qed

text \<open>The records that a run gives, against the lines of the file at its end.\<close>

lemma run_lines:
  assumes "reads_file fs s" "read_run evs (fs, s) = (rs, fs', s')"
  shows "map record_key rs = take (length rs) (line_records (line_start s) (complete_lines (drop (nat (line_start s)) (fs_data fs' (ds_file s)))))"
    "newline \<notin> set (unread fs' s') \<Longrightarrow>
       length rs = length (complete_lines (drop (nat (line_start s)) (fs_data fs' (ds_file s))))"
proof -
  from read_run_lines [OF assms] obtain ls b where ls: "\<forall>l \<in> set ls. is_line l" "unread fs s @ b = concat ls @ unread fs' s'"
    "fs_data fs' (ds_file s) = fs_data fs (ds_file s) @ b" "map record_key rs = line_records (line_start s) ls" by auto
  have "nat (line_start s) \<le> length (fs_data fs (ds_file s))" "drop (nat (line_start s)) (fs_data fs (ds_file s)) = unread fs s"
    using assms(1) by (auto simp: reads_file_def line_start_def)
  with ls(2,3) have "drop (nat (line_start s)) (fs_data fs' (ds_file s)) = concat ls @ unread fs' s'" by simp
  with ls(1) have cl: "complete_lines (drop (nat (line_start s)) (fs_data fs' (ds_file s))) = ls @ complete_lines (unread fs' s')"
    by (simp add: complete_lines_append)
  have "length (line_records off xs) = length xs" for off xs by (induction off xs rule: line_records.induct) simp_all
  note len = this
  have n: "length rs = length ls" using arg_cong [OF ls(4), of length] by (simp add: len)
  show "map record_key rs = take (length rs) (line_records (line_start s) (complete_lines (drop (nat (line_start s)) (fs_data fs' (ds_file s)))))"
    by (simp add: cl ls(4) n line_records_append len)
  show "newline \<notin> set (unread fs' s') \<Longrightarrow>
       length rs = length (complete_lines (drop (nat (line_start s)) (fs_data fs' (ds_file s))))"
    by (simp add: cl n)
qed

end
