(* ===== verification/Go_Encoding.thy ===== *)
theory Go_Encoding
  imports Gline_Prelude "HOL-Library.Monad_Syntax"
begin

text \<open>
  Text encodings of the Go library that the program uses: hexadecimal (\<open>encoding/hex\<close>) and the unpadded URL
  alphabet of base 64 (\<open>base64.RawURLEncoding\<close>).
\<close>

section \<open>Hexadecimal\<close>

definition hex_char :: "nat \<Rightarrow> char" where
  "hex_char n = ''0123456789abcdef'' ! (n mod 16)"

definition hex_encode :: "nat list \<Rightarrow> string" where
  "hex_encode bs = concat (map (\<lambda>b. [hex_char (b div 16), hex_char b]) bs)"

definition hex_text :: "bytes \<Rightarrow> string" where
  "hex_text s = hex_encode (map byte_val s)"

lemma length_hex_encode [simp]: "length (hex_encode bs) = 2 * length bs"
  by (induction bs) (simp_all add: hex_encode_def)

text \<open>What holds of the sixteen digits holds of every digit.\<close>

lemma hex_char_all: "list_all (\<lambda>k. P (hex_char k)) [0..<16] \<Longrightarrow> P (hex_char n)"
proof -
  assume "list_all (\<lambda>k. P (hex_char k)) [0..<16]"
  moreover have "hex_char n = hex_char (n mod 16)" "n mod 16 < 16" by (simp_all add: hex_char_def)
  ultimately show "P (hex_char n)" by (auto simp: list_all_iff)
qed

lemma hex_char_lower [simp]: "ascii_lower (hex_char n) = hex_char n"
  by (rule hex_char_all) code_simp

lemma hex_encode_lower [simp]: "map ascii_lower (hex_encode bs) = hex_encode bs"
  by (induction bs) (simp_all add: hex_encode_def)

lemma hex_char_digit: "byte_val (hex_char n) < 128"
  by (rule hex_char_all) code_simp

lemma is_ascii_hex [simp]: "is_ascii (hex_encode bs)"
  by (induction bs) (simp_all add: hex_encode_def is_ascii_def hex_char_digit)

lemma hex_char_inj: "a < 16 \<Longrightarrow> b < 16 \<Longrightarrow> hex_char a = hex_char b \<Longrightarrow> a = b"
proof -
  assume a: "a < 16" "b < 16" "hex_char a = hex_char b"
  have "list_all (\<lambda>i. list_all (\<lambda>j. hex_char i = hex_char j \<longrightarrow> i = j) [0..<16]) [0..<16]" by code_simp
  with a show "a = b" by (simp add: list_all_iff)
qed

lemma hex_encode_inj:
  "list_all (\<lambda>b. b < 256) xs \<Longrightarrow> list_all (\<lambda>b. b < 256) ys \<Longrightarrow> hex_encode xs = hex_encode ys \<Longrightarrow> xs = ys"
proof (induction xs arbitrary: ys)
  case Nil
  then show ?case by (cases ys) (simp_all add: hex_encode_def)
next
  case (Cons x xs)
  then obtain y zs where ys: "ys = y # zs" by (cases ys) (simp_all add: hex_encode_def)
  have "hex_char (x div 16) = hex_char (y div 16)" "hex_char (x mod 16) = hex_char (y mod 16)" "hex_encode xs = hex_encode zs"
    using Cons.prems(3) by (simp_all add: ys hex_encode_def) (simp add: hex_char_def)
  moreover from this(1,2) have "x div 16 = y div 16" "x mod 16 = y mod 16"
    using Cons.prems(1,2) by (auto simp: ys intro: hex_char_inj)
  ultimately show ?case using Cons.IH [of zs] Cons.prems(1,2) by (simp add: ys) (metis mult_div_mod_eq)
qed

lemma hex_text_inj: "hex_text s = hex_text t \<Longrightarrow> s = t"
proof -
  assume "hex_text s = hex_text t"
  then have "map byte_val s = map byte_val t"
    by (intro hex_encode_inj) (simp_all add: hex_text_def list_all_iff byte_val_less)
  then show "s = t" by (rule map_injective) (simp add: inj_on_def)
qed

lemma hex_text_facts [simp]: "length (hex_text s) = 2 * length s" "is_ascii (hex_text s)"
  by (simp_all add: hex_text_def)

section \<open>Base 64\<close>

definition b64_alphabet :: string where
  "b64_alphabet = ''ABCDEFGHIJKLMNOPQRSTUVWXYZabcdefghijklmnopqrstuvwxyz0123456789-_''"

definition b64_char :: "nat \<Rightarrow> char" where
  "b64_char n = b64_alphabet ! (n mod 64)"

fun b64_groups :: "nat list \<Rightarrow> nat list" where
  "b64_groups [] = []"
| "b64_groups [a] = [a div 4, (a mod 4) * 16]"
| "b64_groups [a, b] = [a div 4, (a mod 4) * 16 + b div 16, (b mod 16) * 4]"
| "b64_groups (a # b # c # r) =
     [a div 4, (a mod 4) * 16 + b div 16, (b mod 16) * 4 + c div 64, c mod 64] @ b64_groups r"

definition b64_encode :: "bytes \<Rightarrow> string" where
  "b64_encode s = map b64_char (b64_groups (map byte_val s))"

text \<open>
  \<open>DecodeString\<close>: line ends are skipped, another foreign character is an error; the last group has two or three
  characters, and the bits that are left over are dropped.
\<close>

definition b64_val :: "char \<Rightarrow> nat option" where
  "b64_val c = (if c \<in> set b64_alphabet then Some (length (takeWhile (\<lambda>x. x \<noteq> c) b64_alphabet)) else None)"

fun b64_values :: "string \<Rightarrow> nat list option" where
  "b64_values [] = Some []"
| "b64_values (c # s) =
     (if c = CHR 0x0A \<or> c = CHR 0x0D then b64_values s
      else do { v \<leftarrow> b64_val c; vs \<leftarrow> b64_values s; Some (v # vs) })"

fun b64_join :: "nat list \<Rightarrow> nat list option" where
  "b64_join [] = Some []"
| "b64_join [a] = None"
| "b64_join [a, b] = Some [a * 4 + b div 16]"
| "b64_join [a, b, c] = Some [a * 4 + b div 16, (b mod 16) * 16 + c div 4]"
| "b64_join (a # b # c # d # r) =
     map_option (\<lambda>xs. [a * 4 + b div 16, (b mod 16) * 16 + c div 4, (c mod 4) * 64 + d] @ xs) (b64_join r)"

definition b64_decode :: "string \<Rightarrow> bytes option" where
  "b64_decode s = map_option (map char_of) (Option.bind (b64_values s) b64_join)"

lemma b64_groups_small: "list_all (\<lambda>b. b < 256) xs \<Longrightarrow> list_all (\<lambda>v. v < 64) (b64_groups xs)"
  by (induction xs rule: b64_groups.induct) auto

lemma b64_split2:
  fixes b :: nat
  assumes "b < 256"
  shows "b div 16 div 16 = 0" "b div 16 mod 16 = b div 16" "16 * (b div 16) + b mod 16 = b"
  using assms by (simp_all add: div_mult2_eq [symmetric] less_mult_imp_div_less)

lemma b64_split3:
  fixes c :: nat
  assumes "c < 256"
  shows "c div 64 div 4 = 0" "c div 64 mod 4 = c div 64" "64 * (c div 64) + c mod 64 = c"
  using assms by (simp_all add: div_mult2_eq [symmetric] less_mult_imp_div_less)

lemma b64_join_groups: "list_all (\<lambda>b. b < 256) xs \<Longrightarrow> b64_join (b64_groups xs) = Some xs"
  by (induction xs rule: b64_groups.induct) (simp_all add: mult.commute b64_split2 b64_split3)

lemma b64_char_facts:
  assumes "v < 64"
  shows "b64_val (b64_char v) = Some v" "b64_char v \<noteq> CHR 0x0A" "b64_char v \<noteq> CHR 0x0D" "b64_char v \<noteq> CHR ''.''"
proof -
  have "list_all (\<lambda>k. b64_val (b64_char k) = Some k \<and> b64_char k \<noteq> CHR 0x0A \<and> b64_char k \<noteq> CHR 0x0D \<and> b64_char k \<noteq> CHR ''.'') [0..<64]"
    by code_simp
  with assms show "b64_val (b64_char v) = Some v" "b64_char v \<noteq> CHR 0x0A" "b64_char v \<noteq> CHR 0x0D" "b64_char v \<noteq> CHR ''.''"
    by (simp_all add: list_all_iff)
qed

lemma b64_values_chars: "list_all (\<lambda>v. v < 64) vs \<Longrightarrow> b64_values (map b64_char vs) = Some vs"
  by (induction vs) (simp_all add: b64_char_facts)

text \<open>What is encoded is decoded.\<close>

lemma b64_decode_encode [simp]: "b64_decode (b64_encode s) = Some s"
proof -
  have small: "list_all (\<lambda>b. b < 256) (map byte_val s)" by (simp add: list_all_iff byte_val_less)
  have "b64_values (b64_encode s) = Some (b64_groups (map byte_val s))"
    using b64_values_chars [OF b64_groups_small [OF small]] by (simp add: b64_encode_def)
  then show ?thesis by (simp add: b64_decode_def b64_join_groups [OF small] comp_def)
qed

lemma b64_encode_no_dot: "CHR ''.'' \<notin> set (b64_encode s)"
proof -
  have "list_all (\<lambda>v. v < 64) (b64_groups (map byte_val s))"
    by (rule b64_groups_small) (simp add: list_all_iff byte_val_less)
  then show ?thesis using b64_char_facts(4) by (auto simp: b64_encode_def list_all_iff) (metis)
qed

lemma length_b64_groups: "length (b64_groups xs) = length xs + (length xs + 2) div 3"
  by (induction xs rule: b64_groups.induct) auto

lemma length_b64_encode [simp]: "length (b64_encode s) = length s + (length s + 2) div 3"
  by (simp add: b64_encode_def length_b64_groups)

end
