(* ===== verification/Uuid_V4.thy ===== *)
theory Uuid_V4
  imports Gline_Domain Go_Encoding
begin

text \<open>
  Random identifiers: the text of sixteen bytes as a UUID of version 4, as \<open>newUUID\<close> of the agent and
  \<open>NewUUIDv4\<close> of the server write it. It is a valid identifier in lower case.
\<close>

text \<open>The version and the variant are set in bytes 6 and 8; the rest is hexadecimal in groups.\<close>

definition uuid_of :: "nat list \<Rightarrow> string" where
  "uuid_of raw0 =
     (let raw1 = raw0[6 := raw0 ! 6 mod 16 + 0x40];
          raw = raw1[8 := raw1 ! 8 mod 64 + 0x80];
          h = hex_encode raw
      in take 8 h @ ''-'' @ take 4 (drop 8 h) @ ''-'' @ take 4 (drop 12 h) @ ''-'' @ take 4 (drop 16 h) @ ''-'' @ drop 20 h)"

lemma hex_char_is_hex: "is_hex (hex_char n)"
  by (rule hex_char_all) code_simp

lemma hex_encode_hex: "list_all is_hex (hex_encode bs)"
  by (induction bs) (simp_all add: hex_encode_def hex_char_is_hex)

lemma uuid_group:
  assumes "list_all is_hex g" "\<forall>k \<in> {8, 13, 18, 23}. k < n \<or> n + length g \<le> k"
  shows "list_all (\<lambda>(i, c). uuid_char i c) (enumerate n g)"
proof -
  have "uuid_char (fst p) (snd p)" if "p \<in> set (enumerate n g)" for p
  proof -
    from that have p: "n \<le> fst p" "fst p < length g + n" "snd p = g ! (fst p - n)" by (auto simp: in_set_enumerate_eq)
    then have "is_hex (snd p)" using assms(1) by (simp add: list_all_length)
    moreover have "fst p \<noteq> 8 \<and> fst p \<noteq> 13 \<and> fst p \<noteq> 18 \<and> fst p \<noteq> 23" using p(1,2) assms(2) by auto
    ultimately show ?thesis by (simp add: uuid_char_def)
  qed
  then show ?thesis by (auto simp: list_all_iff)
qed

lemma list_all_take_drop: "list_all P xs \<Longrightarrow> list_all P (take k (drop n xs))"
  by (auto simp: list_all_iff dest!: in_set_takeD in_set_dropD)

lemma uuid_of_valid:
  assumes "length raw = 16"
  shows "valid_uuid (uuid_of raw)" "map ascii_lower (uuid_of raw) = uuid_of raw"
proof -
  define h where "h = hex_encode ((raw[6 := raw ! 6 mod 16 + 0x40])[8 := raw[6 := raw ! 6 mod 16 + 0x40] ! 8 mod 64 + 0x80])"
  have len: "length h = 32" using assms by (simp add: h_def)
  have hex: "list_all is_hex (take k (drop n h))" for k n by (rule list_all_take_drop) (simp add: h_def hex_encode_hex)
  have hex0: "list_all is_hex (take 8 h)" "list_all is_hex (drop 20 h)" using hex [of 8 0] hex [of 12 20] len by simp_all
  have u: "uuid_of raw = take 8 h @ ''-'' @ take 4 (drop 8 h) @ ''-'' @ take 4 (drop 12 h) @ ''-'' @ take 4 (drop 16 h) @ ''-'' @ drop 20 h"
    by (simp add: uuid_of_def Let_def h_def)
  show "valid_uuid (uuid_of raw)"
    unfolding valid_uuid_def u using len hex0 hex [of 4 8] hex [of 4 12] hex [of 4 16]
    by (simp add: enumerate_append_eq uuid_group uuid_char_def)
  have low: "map ascii_lower h = h" by (simp add: h_def)
  have "map ascii_lower (take k (drop n h)) = take k (drop n h)" for k n by (simp only: take_map [symmetric] drop_map [symmetric] low)
  note this [simp] this [of _ 0, simplified, simp]
  have "map ascii_lower (drop 20 h) = drop 20 h" by (simp only: drop_map [symmetric] low)
  then show "map ascii_lower (uuid_of raw) = uuid_of raw" by (simp add: u ascii_lower_def)
qed

end
