(* ===== verification/Go_Values.thy ===== *)
theory Go_Values
  imports Ingest_Protocol
begin

text \<open>
  \<open>json.Marshal\<close> of the values of an \<open>any\<close>, as the agent writes the attributes of a log line and the server those of
  an entry: the members of a map in the order of their keys, a number as its literal.
\<close>

fun marshal_value :: "gvalue \<Rightarrow> string option"
and marshal_items :: "gvalue list \<Rightarrow> string list option"
and marshal_members :: "attributes \<Rightarrow> (string \<times> string) list option"
where
  "marshal_value VNull = Some ''null''"
| "marshal_value (VBool b) = Some (if b then ''true'' else ''false'')"
| "marshal_value (VStr s) = Some (quote s)"
| "marshal_value (VNum lit) = (if num_ok lit then Some lit else None)"
| "marshal_value (VArr vs) = map_option jarr (marshal_items vs)"
| "marshal_value (VObj ms) = map_option (\<lambda>fs. jobj (sort_key fst fs)) (marshal_members ms)"
| "marshal_items [] = Some []"
| "marshal_items (v # vs) = do { t \<leftarrow> marshal_value v; ts \<leftarrow> marshal_items vs; Some (t # ts) }"
| "marshal_members [] = Some []"
| "marshal_members ((k, v) # ms) = do { t \<leftarrow> marshal_value v; fs \<leftarrow> marshal_members ms; Some ((k, t) # fs) }"

definition marshal_attributes :: "attributes option \<Rightarrow> string option" where
  "marshal_attributes a = (case a of None \<Rightarrow> Some ''null'' | Some ms \<Rightarrow> marshal_value (VObj ms))"

end
