(* ===== verification/Agent_Batch.thy ===== *)
theory Agent_Batch
  imports Agent_Source Ingest_Facts Uuid_V4 Go_Values
begin

text \<open>
  From records to a batch: the line parser (\<open>internal/agent/parser/stringLineLog.go\<close>) and the encoding of a
  batch (\<open>internal/agent/reliable/batch.go\<close>). The random bytes of an identifier are an argument.
\<close>

section \<open>Parser\<close>

record log_entry =
  le_timestamp :: time
  le_level :: string
  le_host :: string
  le_message :: string
  le_service :: string
  le_data :: attributes

definition parse_level :: "string \<Rightarrow> string" where
  "parse_level s = (if s \<in> {''INFO'', ''WARN'', ''ERROR'', ''FATAL'', ''DEBUG'', ''TRACE''} then s else ''UNKNOWN'')"

definition parse_line :: "raw_record \<Rightarrow> log_entry" where
  "parse_line raw =
     (let plain = \<lparr>le_timestamp = rr_observed_at raw, le_level = ''UNKNOWN'', le_host = [], le_message = rr_content raw,
                   le_service = [], le_data = []\<rparr>
      in case str_cut (CHR '' '') (rr_content raw) of
           None \<Rightarrow> plain
         | Some (level, message) \<Rightarrow>
             if parse_level level = ''UNKNOWN'' then plain
             else plain\<lparr>le_level := parse_level level, le_message := message\<rparr>)"

section \<open>Batches\<close>

text \<open>\<open>newUUID\<close>, with the bytes that \<open>crypto/rand\<close> gives.\<close>

definition new_uuid :: "nat list option \<Rightarrow> string option" where
  "new_uuid random = map_option uuid_of random"

definition wire_level :: "(string \<Rightarrow> string) \<Rightarrow> string \<Rightarrow> attributes \<Rightarrow> string \<times> attributes" where
  "wire_level umap level data =
     (let value = to_upper umap level
      in if value \<in> {''TRACE'', ''DEBUG'', ''INFO'', ''WARN'', ''ERROR'', ''FATAL''} then (value, data)
         else (''INFO'', AList.update ''gline.original_level'' (VStr value) data))"

definition wire_entry_of :: "(string \<Rightarrow> string) \<Rightarrow> nat \<Rightarrow> log_entry \<Rightarrow> wire_entry" where
  "wire_entry_of umap i e =
     (let (level, attrs) = wire_level umap (le_level e) (le_data e)
      in \<lparr>we_sequence = int i, we_observed_at = le_timestamp e, we_level = level, we_service = le_service e,
          we_host = le_host e, we_message = le_message e, we_attributes = Some attrs\<rparr>)"

definition marshal_entry :: "wire_entry \<Rightarrow> string option" where
  "marshal_entry e =
     do { at_time \<leftarrow> time_json (we_observed_at e);
          attrs \<leftarrow> marshal_attributes (we_attributes e);
          Some (jobj [(''sequence'', int_dec (we_sequence e)), (''observed_at'', at_time), (''level'', quote (we_level e)),
                      (''service'', quote (we_service e)), (''host'', quote (we_host e)),
                      (''message'', quote (we_message e)), (''attributes'', attrs)]) }"

fun marshal_entries :: "wire_entry list \<Rightarrow> string list option" where
  "marshal_entries [] = Some []"
| "marshal_entries (e # es) = do { t \<leftarrow> marshal_entry e; ts \<leftarrow> marshal_entries es; Some (t # ts) }"

definition marshal_request :: "batch_request \<Rightarrow> bytes option" where
  "marshal_request r =
     do { sent \<leftarrow> time_json (br_sent_at r);
          ts \<leftarrow> marshal_entries (br_entries r);
          Some (jobj [(''protocol_version'', int_dec (br_protocol_version r)), (''batch_id'', quote (br_batch_id r)),
                      (''agent_id'', quote (br_agent_id r)), (''pipeline_id'', quote (br_pipeline_id r)),
                      (''sequence'', int_dec (br_sequence r)), (''sent_at'', sent), (''entries'', jarr ts)]) }"

datatype batch_error = EmptyBatch | NoRandom | EncodeFails

definition request_of :: "(string \<Rightarrow> string) \<Rightarrow> string \<Rightarrow> string \<Rightarrow> string \<Rightarrow> int \<Rightarrow> log_entry list \<Rightarrow> time \<Rightarrow> batch_request" where
  "request_of umap batch agent pipeline sequence entries now =
     \<lparr>br_protocol_version = protocol_version, br_batch_id = batch, br_agent_id = agent, br_pipeline_id = pipeline,
      br_sequence = sequence, br_sent_at = now,
      br_entries = map (\<lambda>(i, e). wire_entry_of umap i e) (enumerate 0 entries)\<rparr>"

definition build_batch ::
  "(string \<Rightarrow> string) \<Rightarrow> nat list option \<Rightarrow> string \<Rightarrow> string \<Rightarrow> int \<Rightarrow> log_entry list \<Rightarrow> time \<Rightarrow> batch_error + string \<times> bytes" where
  "build_batch umap random agent pipeline sequence entries now =
     (if entries = [] then Inl EmptyBatch
      else (case new_uuid random of
              None \<Rightarrow> Inl NoRandom
            | Some batch \<Rightarrow>
                (case marshal_request (request_of umap batch agent pipeline sequence entries now) of
                   None \<Rightarrow> Inl EncodeFails
                 | Some payload \<Rightarrow> Inr (batch, payload))))"

section \<open>What is read back\<close>

text \<open>An invalid byte is written as the replacement character.\<close>

function utf8_fix :: "string \<Rightarrow> string" where
  "utf8_fix s =
     (case s of
        [] \<Rightarrow> []
      | c # cs \<Rightarrow>
          if byte_val c < 0x80 then c # utf8_fix cs
          else (case decode_multi s of
                  None \<Rightarrow> [CHR 0xEF, CHR 0xBF, CHR 0xBD] @ utf8_fix cs
                | Some (r, n) \<Rightarrow> take n s @ utf8_fix (drop n s)))"
  by pat_completeness auto
termination
  by (relation "measure length") (auto dest!: decode_multi_size)

declare utf8_fix.simps [simp del]

lemma unquote_replacement: "unquote_body (CHR 0x5C # ''ufffd'' @ t) = map_option (\<lambda>u. [CHR 0xEF, CHR 0xBF, CHR 0xBD] @ u) (unquote_body t)"
proof -
  have g: "getu4 (''fffd'' @ t) = Some 0xFFFD" by (simp add: hex_val_def)
  have e: "encode_rune 0xFFFD = [CHR 0xEF, CHR 0xBF, CHR 0xBD]" by code_simp
  show ?thesis
    by (subst unquote_body.simps) (use g e in \<open>simp add: is_surrogate_def map_option_case\<close>)
qed

lemma unquote_quote_fix: "unquote_body (quote_body s) = Some (utf8_fix s)"
proof (induction s rule: quote_body.induct)
  case (1 s)
  show ?case
  proof (cases s)
    case Nil
    then show ?thesis by (simp add: quote_body.simps unquote_body.simps utf8_fix.simps)
  next
    case (Cons c cs)
    note IH = "1.IH" [OF Cons]
    show ?thesis
    proof (cases "byte_val c < 128")
      case True
      then have "quote_body s = quote_ascii c @ quote_body cs" "utf8_fix s = c # utf8_fix cs"
        by (subst quote_body.simps, simp add: Cons) (subst utf8_fix.simps, use True in \<open>simp add: Cons\<close>)
      with True show ?thesis using IH(1) by (simp add: unquote_quote_ascii)
    next
      case False
      show ?thesis
      proof (cases "decode_multi s")
        case None
        then have "quote_body s = CHR 0x5C # ''ufffd'' @ quote_body cs" "utf8_fix s = [CHR 0xEF, CHR 0xBF, CHR 0xBD] @ utf8_fix cs"
          using False by (subst quote_body.simps, simp add: Cons) (subst utf8_fix.simps, use False None in \<open>simp add: Cons\<close>)
        then show ?thesis using IH(2) [OF False None] unquote_replacement [of "quote_body cs"] by simp
      next
        case (Some rn)
        then obtain r n where rn: "decode_multi s = Some (r, n)" by (cases rn) auto
        then have "quote_body s = quote_multi (take n s) @ quote_body (drop n s)" "utf8_fix s = take n s @ utf8_fix (drop n s)"
          using False by (subst quote_body.simps, simp add: Cons) (subst utf8_fix.simps, use False rn in \<open>simp add: Cons\<close>)
        then show ?thesis
          using IH(3) [OF False, of "(r, n)" r n] rn by (simp add: unquote_quote_multi)
      qed
    qed
  qed
qed

lemma utf8_fix_valid [simp]: "valid_utf8 s \<Longrightarrow> utf8_fix s = s"
  using unquote_quote_fix [of s] unquote_quote_body [of s] by simp

lemma dec_string_fix [simp]: "dec_string (JStr (quote_body s)) old = Some (utf8_fix s)"
  by (simp add: dec_string_def unquote_quote_fix)

text \<open>A request whose attributes are at most one text, as the parser's entries give them.\<close>

definition simple_attributes :: "attributes option \<Rightarrow> bool" where
  "simple_attributes a \<longleftrightarrow> a = Some [] \<or> (\<exists>k s. valid_utf8 k \<and> a = Some [(k, VStr s)])"

definition fix_attributes :: "attributes option \<Rightarrow> attributes option" where
  "fix_attributes a = map_option (map (\<lambda>(k, v). (k, case v of VStr s \<Rightarrow> VStr (utf8_fix s) | _ \<Rightarrow> v))) a"

definition fix_entry :: "wire_entry \<Rightarrow> wire_entry" where
  "fix_entry e =
     e\<lparr>we_level := utf8_fix (we_level e), we_service := utf8_fix (we_service e), we_host := utf8_fix (we_host e),
       we_message := utf8_fix (we_message e), we_attributes := fix_attributes (we_attributes e)\<rparr>"

definition fix_request :: "batch_request \<Rightarrow> batch_request" where
  "fix_request r =
     r\<lparr>br_batch_id := utf8_fix (br_batch_id r), br_agent_id := utf8_fix (br_agent_id r),
       br_pipeline_id := utf8_fix (br_pipeline_id r), br_entries := map fix_entry (br_entries r)\<rparr>"

lemma marshal_attributes_read:
  assumes "simple_attributes a"
  shows "\<exists>t v. marshal_attributes a = Some t \<and> renders t v \<and> dec_attributes v None = Some (fix_attributes a)"
  using assms unfolding simple_attributes_def
proof
  assume a: "a = Some []"
  have "renders (jobj []) (JObj [])" using json_parse_jobj(2) [of "[]" "[]"] by simp
  then show ?thesis
    by (intro exI [of _ "jobj []"] exI [of _ "JObj []"]) (simp add: a marshal_attributes_def dec_attributes_def fix_attributes_def)
next
  assume "\<exists>k s. valid_utf8 k \<and> a = Some [(k, VStr s)]"
  then obtain k s where a: "valid_utf8 k" "a = Some [(k, VStr s)]" by blast
  have "renders (jobj [(k, quote s)]) (JObj [(quote_body k, quote s, JStr (quote_body s))])"
    using json_parse_jobj(2) [of "[(k, quote s)]" "[JStr (quote_body s)]"] by simp
  with a show ?thesis
    by (auto simp: marshal_attributes_def dec_attributes_def fix_attributes_def unquote_quote_fix)
qed

definition entry_times_ok :: "wire_entry \<Rightarrow> bool" where
  "entry_times_ok e \<longleftrightarrow> time_text_ok (we_observed_at e) \<and> in_int64 (we_sequence e) \<and> simple_attributes (we_attributes e)"

lemma marshal_entry_read:
  assumes "entry_times_ok e"
  shows "\<exists>t v. marshal_entry e = Some t \<and> renders t v \<and> dec_wire_entry v zero_wire_entry = Some (fix_entry e)"
proof -
  obtain ta va where a: "marshal_attributes (we_attributes e) = Some ta" "renders ta va"
    "dec_attributes va None = Some (fix_attributes (we_attributes e))"
    using assms marshal_attributes_read [of "we_attributes e"] by (auto simp: entry_times_ok_def)
  define fs where "fs = [(''sequence'', int_dec (we_sequence e)), (''observed_at'', quote (time_format (we_observed_at e))),
    (''level'', quote (we_level e)), (''service'', quote (we_service e)), (''host'', quote (we_host e)),
    (''message'', quote (we_message e)), (''attributes'', ta)]"
  define vs where "vs = [JNum (int_dec (we_sequence e)), JStr (quote_body (time_format (we_observed_at e))),
    JStr (quote_body (we_level e)), JStr (quote_body (we_service e)), JStr (quote_body (we_host e)),
    JStr (quote_body (we_message e)), va]"
  have t: "marshal_entry e = Some (jobj fs)"
    using assms a(1) by (simp add: marshal_entry_def time_json_def entry_times_ok_def fs_def)
  have "renders (jobj fs) (JObj (map2 (\<lambda>f v. (quote_body (fst f), snd f, v)) fs vs))"
    by (rule json_parse_jobj(2)) (simp add: fs_def vs_def a(2))
  moreover have "dec_wire_entry (JObj (map2 (\<lambda>f v. (quote_body (fst f), snd f, v)) fs vs)) zero_wire_entry = Some (fix_entry e)"
    using assms a(3)
    by (simp add: dec_wire_entry_def dec_struct_def fs_def vs_def wire_entry_fields_def set_wire_entry_field_def
        dec_time_json entry_times_ok_def zero_wire_entry_def fix_entry_def)
  ultimately show ?thesis using t by blast
qed

lemma marshal_entries_read:
  "\<forall>e \<in> set es. entry_times_ok e \<Longrightarrow>
     \<exists>ts vs. marshal_entries es = Some ts \<and> list_all2 renders ts vs \<and> dec_elements vs [] = Some (map fix_entry es)"
proof (induction es)
  case (Cons e es)
  then obtain ts vs where ih: "marshal_entries es = Some ts" "list_all2 renders ts vs" "dec_elements vs [] = Some (map fix_entry es)"
    by auto
  from Cons.prems obtain t v where "marshal_entry e = Some t" "renders t v" "dec_wire_entry v zero_wire_entry = Some (fix_entry e)"
    using marshal_entry_read [of e] by auto
  with ih show ?case by (intro exI [of _ "t # ts"] exI [of _ "v # vs"]) simp
qed simp

text \<open>What the agent writes is read back by the strict decoder of the protocol.\<close>

lemma marshal_request_read:
  assumes "time_text_ok (br_sent_at r)" "in_int64 (br_sequence r)" "in_int64 (br_protocol_version r)"
    "\<forall>e \<in> set (br_entries r). entry_times_ok e"
  shows "\<exists>t v. marshal_request r = Some t \<and> json_parse t = Some v \<and> dec_batch_request v zero_batch_request = Some (fix_request r)"
proof -
  obtain ts vs where e: "marshal_entries (br_entries r) = Some ts" "list_all2 renders ts vs"
    "dec_elements vs [] = Some (map fix_entry (br_entries r))"
    using marshal_entries_read [OF assms(4)] by blast
  define fs where "fs = [(''protocol_version'', int_dec (br_protocol_version r)), (''batch_id'', quote (br_batch_id r)),
    (''agent_id'', quote (br_agent_id r)), (''pipeline_id'', quote (br_pipeline_id r)), (''sequence'', int_dec (br_sequence r)),
    (''sent_at'', quote (time_format (br_sent_at r))), (''entries'', jarr ts)]"
  define ws where "ws = [JNum (int_dec (br_protocol_version r)), JStr (quote_body (br_batch_id r)),
    JStr (quote_body (br_agent_id r)), JStr (quote_body (br_pipeline_id r)), JNum (int_dec (br_sequence r)),
    JStr (quote_body (time_format (br_sent_at r))), JArr vs]"
  have t: "marshal_request r = Some (jobj fs)"
    using assms(1) e(1) by (simp add: marshal_request_def time_json_def fs_def)
  have "json_parse (jobj fs) = Some (JObj (map2 (\<lambda>f v. (quote_body (fst f), snd f, v)) fs ws))"
    by (rule json_parse_jobj(1)) (simp add: fs_def ws_def renders_arr [OF e(2)])
  moreover have "dec_batch_request (JObj (map2 (\<lambda>f v. (quote_body (fst f), snd f, v)) fs ws)) zero_batch_request = Some (fix_request r)"
    using assms(1-3) e(3)
    by (simp add: dec_batch_request_def dec_struct_def fs_def ws_def batch_request_fields_def set_batch_request_field_def
        dec_time_json dec_entries_def zero_batch_request_def fix_request_def)
  ultimately show ?thesis using t by blast
qed

end
