(* ===== verification/Agent_Pipeline.thy ===== *)
theory Agent_Pipeline
  imports Agent_Control Agent_Batch
begin

text \<open>
  A pipeline of the agent (\<open>internal/agent/reliable/agent.go\<close>, \<open>runPipeline\<close>, and its construction in
  \<open>internal/agent/build/reliable.go\<close>): records of the source become entries, and a flush commits them to the
  spool together with the checkpoint of the last one. The goroutine that reads holds one record at a time.
\<close>

section \<open>The operations of a pipeline\<close>

record pipeline_config =
  pf_agent_id :: string
  pf_pipeline_id :: string
  pf_source_key :: string
  pf_path :: string
  pf_service :: string
  pf_host :: string
  pf_parser :: "raw_record \<Rightarrow> log_entry option"
  pf_upper :: "string \<Rightarrow> string"
  pf_batch_size :: int

text \<open>
  \<open>pl_raws\<close> are the records of the entries, which the code does not keep: they are there to say what a batch
  holds. \<open>pl_flushing\<close> is the commit that waits for space in the spool.
\<close>

record pipeline_run =
  pl_source :: durable_source
  pl_held :: "raw_record option"
  pl_entries :: "log_entry list"
  pl_raws :: "raw_record list"
  pl_checkpoint :: checkpoint
  pl_flushing :: "commit option"

definition record_entry :: "pipeline_config \<Rightarrow> raw_record \<Rightarrow> log_entry" where
  "record_entry cf raw =
     (case pf_parser cf raw of
        None \<Rightarrow> \<lparr>le_timestamp = rr_observed_at raw, le_level = ''UNKNOWN'', le_host = [], le_message = rr_content raw,
                 le_service = [], le_data = []\<rparr>
      | Some e \<Rightarrow> e)\<lparr>le_host := pf_host cf, le_service := pf_service cf\<rparr>"

definition record_checkpoint_of :: "raw_record \<Rightarrow> checkpoint" where
  "record_checkpoint_of raw =
     \<lparr>cp_source_key = rr_source_key raw, cp_file_identity = rr_file_identity raw, cp_offset_bytes = rr_end_offset raw,
      cp_observed_at = rr_observed_at raw\<rparr>"

definition handle_record :: "pipeline_config \<Rightarrow> raw_record \<Rightarrow> pipeline_run \<Rightarrow> pipeline_run" where
  "handle_record cf raw p =
     p\<lparr>pl_held := None, pl_entries := pl_entries p @ [record_entry cf raw], pl_raws := pl_raws p @ [raw],
       pl_checkpoint := record_checkpoint_of raw\<rparr>"

text \<open>A batch of this size is flushed before the next record is taken.\<close>

definition batch_full :: "pipeline_config \<Rightarrow> pipeline_run \<Rightarrow> bool" where
  "batch_full cf p \<longleftrightarrow> pf_batch_size cf \<le> int (length (pl_entries p))"

text \<open>\<open>flush\<close> up to its loop: the batch is built once, and then tried until it has space.\<close>

datatype flush_error = FlushBuild batch_error | FlushSpool spool_error

definition flush_start :: "pipeline_config \<Rightarrow> nat list option \<Rightarrow> time \<Rightarrow> pipeline_run \<Rightarrow> flush_error option \<times> pipeline_run" where
  "flush_start cf random now p =
     (if pl_entries p = [] then (None, p)
      else (case build_batch (pf_upper cf) random (pf_agent_id cf) (pf_pipeline_id cf) (cp_offset_bytes (pl_checkpoint p))
                   (pl_entries p) now of
              Inl e \<Rightarrow> (Some (FlushBuild e), p)
            | Inr (i, payload) \<Rightarrow>
                (None, p\<lparr>pl_flushing := Some \<lparr>cm_batch_id = i, cm_payload = payload, cm_checkpoint = pl_checkpoint p\<rparr>\<rparr>)))"

text \<open>One turn of the loop of \<open>flush\<close>: a full spool makes it wait, another error ends it.\<close>

definition flush_try :: "bool \<Rightarrow> append_io \<Rightarrow> pipeline_run \<times> wal \<Rightarrow> flush_error option \<times> pipeline_run \<times> wal" where
  "flush_try cancelled io st =
     (let (p, w) = st in
      case pl_flushing p of
        None \<Rightarrow> (None, p, w)
      | Some c \<Rightarrow>
          (case wal_commit cancelled io c w of
             (w', Inr _) \<Rightarrow> (None, p\<lparr>pl_entries := [], pl_raws := [], pl_flushing := None\<rparr>, w')
           | (w', Inl e) \<Rightarrow>
               if e = ErrFull then (None, p, w') else (Some (FlushSpool e), p\<lparr>pl_flushing := None\<rparr>, w')))"

text \<open>\<open>RotationRequired\<close>, after its flush: the source switches to the new file.\<close>

definition rotate_pipeline ::
  "file_system \<Rightarrow> source_io \<Rightarrow> time \<Rightarrow> bool \<Rightarrow> append_io \<Rightarrow> pipeline_run \<times> wal \<Rightarrow> source_error option \<times> pipeline_run \<times> wal"
where
  "rotate_pipeline fs sio now cancelled io st =
     (let (p, w) = st;
          (e, s', w') = rotate fs sio now (Some (wal_transition cancelled io)) (pl_source p, w)
      in (e, p\<lparr>pl_source := s'\<rparr>, w'))"

text \<open>The construction: the source starts at the durable checkpoint, and a new epoch is committed first.\<close>

definition initial_op :: "append_io \<Rightarrow> checkpoint option \<Rightarrow> checkpoint \<Rightarrow> spool_op option" where
  "initial_op io current c0 =
     (case current of
        None \<Rightarrow> Some (DoTransition False io None c0)
      | Some c \<Rightarrow>
          if cp_file_identity c \<noteq> cp_file_identity c0 \<or> cp_offset_bytes c \<noteq> cp_offset_bytes c0
          then Some (DoTransition False io (Some c) c0) else None)"

definition fresh_run :: "durable_source \<Rightarrow> pipeline_run" where
  "fresh_run s =
     \<lparr>pl_source = s, pl_held = None, pl_entries = [], pl_raws = [], pl_checkpoint = initial_checkpoint s, pl_flushing = None\<rparr>"

definition open_source :: "pipeline_config \<Rightarrow> file_system \<Rightarrow> source_io \<Rightarrow> time \<Rightarrow> wal \<Rightarrow> source_error + durable_source" where
  "open_source cf fs sio now w =
     new_source fs sio (pf_path cf) (pf_source_key cf) (wal_checkpoint (pf_source_key cf) w) 0 now"

definition open_pipeline ::
  "pipeline_config \<Rightarrow> file_system \<Rightarrow> source_io \<Rightarrow> append_io \<Rightarrow> time \<Rightarrow> wal \<Rightarrow> pipeline_run option \<times> wal" where
  "open_pipeline cf fs sio io now w =
     (case open_source cf fs sio now w of
        Inl e \<Rightarrow> (None, w)
      | Inr s \<Rightarrow>
          (case initial_op io (wal_checkpoint (pf_source_key cf) w) (initial_checkpoint s) of
             None \<Rightarrow> (Some (fresh_run s), w)
           | Some op \<Rightarrow>
               (case exec op w of
                  (w', None) \<Rightarrow> (Some (fresh_run s), w')
                | (w', Some e) \<Rightarrow> (None, w'))))"

section \<open>The log as a pipeline uses it\<close>

text \<open>
  What a pipeline relies on: an operation of the log either is done or is not, also when the process stops in
  the middle of it, and the checkpoint of a source is moved by the operations that name it and by no other.
\<close>

fun marks :: "spool_op \<Rightarrow> checkpoint option" where
  "marks (DoCommit x io c) = Some (cm_checkpoint c)"
| "marks (DoTransition x io expected nxt) = Some nxt"
| "marks op = None"

locale checkpoint_log =
  fixes reach :: "'w \<Rightarrow> bool"
    and mark :: "string \<Rightarrow> 'w \<Rightarrow> checkpoint option"
    and runs :: "spool_op \<Rightarrow> 'w \<Rightarrow> 'w \<Rightarrow> bool \<Rightarrow> bool"
    and reopens :: "'w \<Rightarrow> 'w \<Rightarrow> bool"
  assumes runs_reach: "reach w \<Longrightarrow> runs op w w' d \<Longrightarrow> reach w'"
    and runs_done: "reach w \<Longrightarrow> runs op w w' True \<Longrightarrow> marks op = Some c \<Longrightarrow> cp_source_key c = key \<Longrightarrow> mark key w' = Some c"
    and runs_failed: "reach w \<Longrightarrow> runs op w w' False \<Longrightarrow> mark key w' = mark key w"
    and runs_other: "reach w \<Longrightarrow> runs op w w' d \<Longrightarrow> (\<And>c. marks op = Some c \<Longrightarrow> cp_source_key c \<noteq> key) \<Longrightarrow> mark key w' = mark key w"
    and reopens_reach: "reach w \<Longrightarrow> reopens w w' \<Longrightarrow> reach w'"
    and reopens_mark: "reach w \<Longrightarrow> reopens w w' \<Longrightarrow> mark key w' = mark key w"
begin

text \<open>An operation marks the checkpoint of a key to what it names, or leaves it.\<close>

lemma runs_mark:
  assumes "reach w" "runs op w w' d"
  shows "mark key w' =
    (case marks op of None \<Rightarrow> mark key w | Some c \<Rightarrow> if d \<and> cp_source_key c = key then Some c else mark key w)"
proof (cases "d \<and> (\<exists>c. marks op = Some c \<and> cp_source_key c = key)")
  case True
  then obtain c where "d" "marks op = Some c" "cp_source_key c = key" by blast
  with assms runs_done [of w op w' c key] show ?thesis by simp
next
  case False
  show ?thesis
  proof (cases d)
    case True
    with False assms have "mark key w' = mark key w" by (intro runs_other [of w op w' d]) auto
    with True False show ?thesis by (auto split: option.split)
  next
    case no: False
    with assms runs_failed [of w op w' key] show ?thesis by (auto split: option.split)
  qed
qed

end

text \<open>
  An operation of the spool that returns, or that the process does not survive; then the next \<open>Open\<close> shows
  whether it was done.
\<close>

definition spool_returns :: "spool_op \<Rightarrow> wal \<Rightarrow> wal \<Rightarrow> bool \<Rightarrow> bool" where
  "spool_returns op w w' d \<longleftrightarrow>
     op_good (w_max_record w) op \<and> io_recovers (op_io op) \<and> w' = fst (exec op w) \<and> d = (snd (exec op w) = None)"

definition spool_dies :: "spool_config \<Rightarrow> spool_op \<Rightarrow> wal \<Rightarrow> wal \<Rightarrow> bool \<Rightarrow> bool" where
  "spool_dies sc op w w' d \<longleftrightarrow>
     op_good (w_max_record w) op \<and> open_wal True sc (w_dir (fst (exec op w))) = Inr w' \<and> d = (view w' \<noteq> view w)"

definition spool_runs :: "spool_config \<Rightarrow> spool_op \<Rightarrow> wal \<Rightarrow> wal \<Rightarrow> bool \<Rightarrow> bool" where
  "spool_runs sc op w w' d \<longleftrightarrow> spool_returns op w w' d \<or> spool_dies sc op w w' d"

definition spool_reopens :: "spool_config \<Rightarrow> wal \<Rightarrow> wal \<Rightarrow> bool" where
  "spool_reopens sc w w' \<longleftrightarrow> open_wal True sc (w_dir w) = Inr w'"

lemma mark_view: "wal_checkpoint key w = fmlookup (v_checkpoints (view w)) key"
  by (simp add: wal_checkpoint_def view_def)

lemma spool_runs_effect:
  assumes "spool_reach sc w" "spool_runs sc op w w' d"
  shows "spool_reach sc w'"
    "wal_checkpoint key w' =
       (case marks op of None \<Rightarrow> wal_checkpoint key w
        | Some c \<Rightarrow> if d \<and> cp_source_key c = key then Some c else wal_checkpoint key w)"
proof -
  from assms(2) have good: "op_good (w_max_record w) op"
    by (auto simp: spool_runs_def spool_returns_def spool_dies_def)
  from spool_reach_inv [OF assms(1)]
  have inv: "spool_inv w" "within_capacity w" "config_ok sc w" "w_max_bytes w = sc_max_bytes (effective_config sc)"
    by (simp_all add: reach_inv_def)
  have eff: "fmlookup (v_checkpoints (op_effect op w)) key =
      (case marks op of None \<Rightarrow> wal_checkpoint key w | Some c \<Rightarrow> if cp_source_key c = key then Some c else wal_checkpoint key w)"
    by (cases op) (auto simp: mark_view view_defs split: option.split)
  from assms(2) consider
      (returns) "io_recovers (op_io op)" "w' = fst (exec op w)" "d = (snd (exec op w) = None)"
    | (crash) "open_wal True sc (w_dir (fst (exec op w))) = Inr w'" "d = (view w' \<noteq> view w)"
    by (auto simp: spool_runs_def spool_returns_def spool_dies_def)
  then have "spool_reach sc w' \<and> (d \<longrightarrow> view w' = op_effect op w) \<and>
      (\<not> d \<longrightarrow> view w' = view w \<or> marks op = None \<and> view w' = op_effect op w)"
  proof cases
    case returns
    have "marks op = None" if "w_closed w'" "\<not> w_closed w"
      using that returns(2) by (cases op) (auto simp: dropped_def dest: not_closed_after(1) [OF prod.collapse [symmetric]]
          not_closed_after(2) [OF prod.collapse [symmetric]])
    moreover have "spool_reach sc w'" using spool_reach.operation [OF assms(1) good returns(1)] returns(2) by simp
    ultimately show ?thesis using exec_inv [OF inv(1) good returns(1), of w' "snd (exec op w)"] returns(2,3) by auto
  next
    case crash
    obtain v where v: "v = view w \<or> v = op_effect op w" "opens_to sc (w_dir (fst (exec op w))) v" "view_used v \<le> w_max_bytes w"
      using exec_opens [OF inv(1) good inv(3,2)] by blast
    have "view w' = v" using opens_to_inv [OF v(2) crash(1)] v(3) inv(4) by simp
    with v(1) crash(2) spool_reach.crash_append [OF assms(1) good crash(1)] show ?thesis by auto
  qed
  then show "spool_reach sc w'"
    "wal_checkpoint key w' =
       (case marks op of None \<Rightarrow> wal_checkpoint key w
        | Some c \<Rightarrow> if d \<and> cp_source_key c = key then Some c else wal_checkpoint key w)"
    using eff by (auto simp: mark_view split: option.splits)
qed

lemma spool_reopens_effect:
  assumes "spool_reach sc w" "spool_reopens sc w w'"
  shows "spool_reach sc w'" "view w' = view w"
proof -
  from assms(2) have o: "open_wal True sc (w_dir w) = Inr w'" by (simp add: spool_reopens_def)
  show "spool_reach sc w'" by (rule spool_reach.restart [OF assms(1) o])
  from spool_reach_inv [OF assms(1)]
  have "survives_in (w_dir w) w" "config_ok sc w" by (simp_all add: reach_inv_def spool_inv_def)
  from survives_opens [OF this] o show "view w' = view w" by (auto simp: opens_to_def)
qed

interpretation spool_log: checkpoint_log "spool_reach sc" wal_checkpoint "spool_runs sc" "spool_reopens sc" for sc
proof unfold_locales
  fix w op w' d c key
  assume r: "spool_reach sc w"
  show "spool_runs sc op w w' d \<Longrightarrow> spool_reach sc w'" by (rule spool_runs_effect(1) [OF r])
  show "spool_runs sc op w w' True \<Longrightarrow> marks op = Some c \<Longrightarrow> cp_source_key c = key \<Longrightarrow> wal_checkpoint key w' = Some c"
    using spool_runs_effect(2) [OF r, of op w' True key] by simp
  show "spool_runs sc op w w' False \<Longrightarrow> wal_checkpoint key w' = wal_checkpoint key w"
    using spool_runs_effect(2) [OF r, of op w' False key] by (auto split: option.splits)
  show "spool_runs sc op w w' d \<Longrightarrow> (\<And>c. marks op = Some c \<Longrightarrow> cp_source_key c \<noteq> key) \<Longrightarrow>
      wal_checkpoint key w' = wal_checkpoint key w"
    using spool_runs_effect(2) [OF r, of op w' d key] by (auto split: option.splits)
  show "spool_reopens sc w w' \<Longrightarrow> spool_reach sc w'" by (rule spool_reopens_effect(1) [OF r])
  show "spool_reopens sc w w' \<Longrightarrow> wal_checkpoint key w' = wal_checkpoint key w"
    using spool_reopens_effect(2) [OF r, of w'] by (simp add: mark_view)
qed

section \<open>The steps of an agent\<close>

text \<open>
  The file, the pipeline (\<open>None\<close> when it does not run), the spool, and the batches that were committed for
  the pipeline's source, each with its records. The file only grows. Other pipelines and the dispatcher share
  the spool. The process can stop at any point, also in the middle of an operation of the spool.
\<close>

record agent_state =
  as_files :: file_system
  as_run :: "pipeline_run option"
  as_wal :: wal
  as_history :: "(commit \<times> raw_record list) list"

text \<open>An operation of another user of the spool.\<close>

definition foreign :: "string \<Rightarrow> spool_op \<Rightarrow> bool" where
  "foreign key op \<longleftrightarrow> (\<forall>c. marks op = Some c \<longrightarrow> cp_source_key c \<noteq> key)"

inductive agent_step :: "spool_config \<Rightarrow> pipeline_config \<Rightarrow> agent_state \<Rightarrow> agent_state \<Rightarrow> bool" for sc cf where
  step_grow: "fs_path (as_files a) = Some f \<Longrightarrow> agent_step sc cf a (a\<lparr>as_files := grow b (as_files a) f\<rparr>)"
| step_poll: "as_run a = Some p \<Longrightarrow> pl_held p = None \<Longrightarrow>
    poll_turn (as_files a) io_ok (ReadsOk ahead) now (pl_source p) = (x, s) \<Longrightarrow>
    agent_step sc cf a (a\<lparr>as_run := Some (p\<lparr>pl_source := s, pl_held := (case x of Record r \<Rightarrow> Some r | _ \<Rightarrow> None)\<rparr>)\<rparr>)"
| step_record: "as_run a = Some p \<Longrightarrow> pl_held p = Some r \<Longrightarrow> pl_flushing p = None \<Longrightarrow> \<not> batch_full cf p \<Longrightarrow>
    agent_step sc cf a (a\<lparr>as_run := Some (handle_record cf r p)\<rparr>)"
| step_flush: "as_run a = Some p \<Longrightarrow> pl_flushing p = None \<Longrightarrow> flush_start cf random now p = (None, p') \<Longrightarrow>
    agent_step sc cf a (a\<lparr>as_run := Some p'\<rparr>)"
| step_try: "as_run a = Some p \<Longrightarrow> pl_flushing p = Some c \<Longrightarrow> commit_good c \<Longrightarrow> io_recovers io \<Longrightarrow>
    flush_try cancelled io (p, as_wal a) = (e, p', w') \<Longrightarrow>
    agent_step sc cf a
      (a\<lparr>as_run := (if e = None then Some p' else None), as_wal := w',
         as_history := as_history a @ (if e = None \<and> pl_flushing p' = None then [(c, pl_raws p)] else [])\<rparr>)"
| step_try_dies: "as_run a = Some p \<Longrightarrow> pl_flushing p = Some c \<Longrightarrow>
    spool_dies sc (DoCommit cancelled io c) (as_wal a) w' d \<Longrightarrow>
    agent_step sc cf a (a\<lparr>as_run := None, as_wal := w', as_history := as_history a @ (if d then [(c, pl_raws p)] else [])\<rparr>)"
| step_stop: "agent_step sc cf a (a\<lparr>as_run := None\<rparr>)"
| step_restart: "spool_reopens sc (as_wal a) w' \<Longrightarrow> agent_step sc cf a (a\<lparr>as_run := None, as_wal := w'\<rparr>)"
| step_open: "as_run a = None \<Longrightarrow> open_pipeline cf (as_files a) sio io now (as_wal a) = (r, w') \<Longrightarrow> io_recovers io \<Longrightarrow>
    (\<And>s. open_source cf (as_files a) sio now (as_wal a) = Inr s \<Longrightarrow> checkpoint_fits (w_max_record (as_wal a)) (initial_checkpoint s)) \<Longrightarrow>
    agent_step sc cf a (a\<lparr>as_run := r, as_wal := w'\<rparr>)"
| step_open_dies: "as_run a = None \<Longrightarrow> open_source cf (as_files a) sio now (as_wal a) = Inr s \<Longrightarrow>
    initial_op io (wal_checkpoint (pf_source_key cf) (as_wal a)) (initial_checkpoint s) = Some op \<Longrightarrow>
    spool_dies sc op (as_wal a) w' d \<Longrightarrow> agent_step sc cf a (a\<lparr>as_wal := w'\<rparr>)"
| step_other: "foreign (pf_source_key cf) op \<Longrightarrow> spool_returns op (as_wal a) w' d \<Longrightarrow> agent_step sc cf a (a\<lparr>as_wal := w'\<rparr>)"
| step_other_dies: "foreign (pf_source_key cf) op \<Longrightarrow> spool_dies sc op (as_wal a) w' d \<Longrightarrow>
    agent_step sc cf a (a\<lparr>as_run := None, as_wal := w'\<rparr>)"

inductive_cases agent_stepE: "agent_step sc cf a a'"

text \<open>The states of an agent that first sees the file with an empty checkpoint.\<close>

inductive agent_reach :: "spool_config \<Rightarrow> pipeline_config \<Rightarrow> nat \<Rightarrow> agent_state \<Rightarrow> bool" for sc cf f where
  agent_start: "spool_reach sc w \<Longrightarrow> wal_checkpoint (pf_source_key cf) w = None \<Longrightarrow> fs_path fs = Some f \<Longrightarrow>
    agent_reach sc cf f \<lparr>as_files = fs, as_run = None, as_wal = w, as_history = []\<rparr>"
| agent_next: "agent_reach sc cf f a \<Longrightarrow> agent_step sc cf a a' \<Longrightarrow> agent_reach sc cf f a'"

section \<open>Stretches of a file\<close>

text \<open>The records are those of the lines between two offsets.\<close>

definition stretch :: "bytes \<Rightarrow> int \<Rightarrow> int \<Rightarrow> raw_record list \<Rightarrow> bool" where
  "stretch data i j rs \<longleftrightarrow>
     0 \<le> i \<and> i \<le> j \<and> j \<le> int (length data) \<and>
     (\<exists>ls. (\<forall>l \<in> set ls. is_line l) \<and> concat ls = drop (nat i) (take (nat j) data) \<and> map record_key rs = line_records i ls)"

lemma stretch_empty [simp]: "stretch data i i [] \<longleftrightarrow> 0 \<le> i \<and> i \<le> int (length data)"
  by (auto simp: stretch_def intro!: exI [of _ "[]"])

lemma segment_join:
  fixes i j k :: nat
  assumes "i \<le> j" "j \<le> k"
  shows "drop i (take k d) = drop i (take j d) @ drop j (take k d)"
proof -
  have "drop i (take k d) = take ((j - i) + (k - j)) (drop i d)" using assms by (simp add: drop_take)
  also have "\<dots> = take (j - i) (drop i d) @ take (k - j) (drop (j - i) (drop i d))" by (rule take_add)
  also have "drop (j - i) (drop i d) = drop j d" using assms(1) by simp
  finally show ?thesis by (simp add: drop_take)
qed

lemma stretch_join:
  assumes "stretch data i j rs" "stretch data j k rs'"
  shows "stretch data i k (rs @ rs')"
proof -
  from assms obtain ls ls' where l: "\<forall>l \<in> set ls. is_line l" "concat ls = drop (nat i) (take (nat j) data)"
    "map record_key rs = line_records i ls" "\<forall>l \<in> set ls'. is_line l" "concat ls' = drop (nat j) (take (nat k) data)"
    "map record_key rs' = line_records j ls'"
    and r: "0 \<le> i" "i \<le> j" "j \<le> k" "k \<le> int (length data)" unfolding stretch_def by blast
  have "concat (ls @ ls') = drop (nat i) (take (nat k) data)"
    using segment_join [of "nat i" "nat j" "nat k" data] r l(2,5) by simp
  moreover have "i + int (length (concat ls)) = j" using r by (simp add: l(2))
  then have "map record_key (rs @ rs') = line_records i (ls @ ls')" using l(3,6) by (simp add: line_records_append)
  moreover have "\<forall>l \<in> set (ls @ ls'). is_line l" using l(1,4) by auto
  ultimately show ?thesis unfolding stretch_def using r by (intro conjI exI [of _ "ls @ ls'"]) simp_all
qed

lemma stretch_grow: "stretch data i j rs \<Longrightarrow> stretch (data @ b) i j rs"
  by (auto simp: stretch_def)

lemma stretch_single:
  assumes "stretch data i j [r]"
  shows "rr_end_offset r = j"
proof -
  from assms obtain ls where ls: "concat ls = drop (nat i) (take (nat j) data)" "map record_key [r] = line_records i ls"
    and r: "0 \<le> i" "i \<le> j" "j \<le> int (length data)" unfolding stretch_def by blast
  from ls(2) obtain l where "ls = [l]" by (cases ls; cases "tl ls") (auto simp: record_key_def)
  with ls have "rr_end_offset r = i + int (length (drop (nat i) (take (nat j) data)))" by (simp add: record_key_def)
  with r show ?thesis by simp
qed

lemma stretch_nil:
  assumes "stretch data i j []"
  shows "i = j"
proof -
  from assms obtain ls where ls: "concat ls = drop (nat i) (take (nat j) data)" "[] = line_records i ls"
    and r: "0 \<le> i" "i \<le> j" "j \<le> int (length data)" unfolding stretch_def by auto
  from ls(2) have "ls = []" by (cases ls) simp_all
  with ls(1) have "length (drop (nat i) (take (nat j) data)) = 0" by simp
  with r show ?thesis by simp
qed

lemma stretch_poll:
  assumes "reads_file fs s" "reads_file fs s'" "ds_file s' = ds_file s" "is_line line" "unread fs s = line @ unread fs s'"
    "rr_content r = line_content line" "rr_end_offset r = line_start s + int (length line)" "line_start s' = rr_end_offset r"
  shows "stretch (fs_data fs (ds_file s)) (line_start s) (line_start s') [r]"
proof -
  let ?d = "fs_data fs (ds_file s)"
  have start: "0 \<le> line_start s" and un: "drop (nat (line_start s)) ?d = unread fs s" using assms(1) by (auto simp: reads_file_def)
  have le: "line_start s' \<le> int (length ?d)"
    using reads_file_offset [OF assms(2)] assms(3) by (simp add: line_start_def)
  have "nat (line_start s') = nat (line_start s) + length line" using start assms(7,8) by simp
  then have "concat [line] = drop (nat (line_start s)) (take (nat (line_start s')) ?d)"
    by (simp add: drop_take un assms(5))
  moreover have "map record_key [r] = line_records (line_start s) [line]" by (simp add: record_key_def assms(6,7))
  ultimately show ?thesis
    unfolding stretch_def using start le assms(4,7,8) by (intro conjI exI [of _ "[line]"]) simp_all
qed

lemma stretch_lines:
  assumes "stretch data 0 j rs"
  shows "map record_key rs = line_records 0 (take (length rs) (complete_lines data))"
    "j = int (length (concat (take (length rs) (complete_lines data))))" "length rs \<le> length (complete_lines data)"
proof -
  from assms obtain ls where ls: "\<forall>l \<in> set ls. is_line l" "concat ls = take (nat j) data" "map record_key rs = line_records 0 ls"
    and j: "0 \<le> j" "j \<le> int (length data)" by (auto simp: stretch_def)
  have "length (line_records off xs) = length xs" for off xs by (induction off xs rule: line_records.induct) simp_all
  then have n: "length rs = length ls" using arg_cong [OF ls(3), of length] by simp
  have "complete_lines data = ls @ complete_lines (drop (nat j) data)"
    using complete_lines_append [OF ls(1), of "drop (nat j) data"] ls(2) by simp
  then have t: "take (length rs) (complete_lines data) = ls" "length rs \<le> length (complete_lines data)" using n by simp_all
  show "map record_key rs = line_records 0 (take (length rs) (complete_lines data))"
    "j = int (length (concat (take (length rs) (complete_lines data))))" "length rs \<le> length (complete_lines data)"
    using t ls j by simp_all
qed

section \<open>What a pipeline has read and what it has committed\<close>

definition offset_of :: "checkpoint option \<Rightarrow> int" where
  "offset_of c = (case c of None \<Rightarrow> 0 | Some x \<Rightarrow> cp_offset_bytes x)"

definition batch_holds :: "pipeline_config \<Rightarrow> commit \<Rightarrow> raw_record list \<Rightarrow> bool" where
  "batch_holds cf c rs \<longleftrightarrow>
     rs \<noteq> [] \<and> int (length rs) \<le> pf_batch_size cf \<and> cm_checkpoint c = record_checkpoint_of (last rs) \<and>
     (\<exists>random now. build_batch (pf_upper cf) random (pf_agent_id cf) (pf_pipeline_id cf) (rr_end_offset (last rs))
        (map (record_entry cf) rs) now = Inr (cm_batch_id c, cm_payload c))"

definition committed :: "agent_state \<Rightarrow> raw_record list" where
  "committed a = concat (map snd (as_history a))"

definition log_inv :: "pipeline_config \<Rightarrow> nat \<Rightarrow> file_system \<Rightarrow> checkpoint option \<Rightarrow> (commit \<times> raw_record list) list \<Rightarrow> bool" where
  "log_inv cf f fs m hist \<longleftrightarrow>
     fs_path fs = Some f \<and> (\<forall>c. m = Some c \<longrightarrow> cp_file_identity c = fs_ident fs f) \<and>
     stretch (fs_data fs f) 0 (offset_of m) (concat (map snd hist)) \<and> (\<forall>(c, rs) \<in> set hist. batch_holds cf c rs)"

definition reached :: "checkpoint option \<Rightarrow> pipeline_run \<Rightarrow> int" where
  "reached m p = (if pl_raws p = [] then offset_of m else rr_end_offset (last (pl_raws p)))"

definition run_inv :: "pipeline_config \<Rightarrow> nat \<Rightarrow> file_system \<Rightarrow> checkpoint option \<Rightarrow> pipeline_run \<Rightarrow> bool" where
  "run_inv cf f fs m p \<longleftrightarrow>
     reads_file fs (pl_source p) \<and> ds_file (pl_source p) = f \<and> ds_key (pl_source p) = pf_source_key cf \<and>
     ds_identity (pl_source p) = fs_ident fs f \<and>
     (\<forall>r \<in> set (pl_raws p @ option_list (pl_held p)). rr_source_key r = pf_source_key cf \<and> rr_file_identity r = fs_ident fs f) \<and>
     pl_entries p = map (record_entry cf) (pl_raws p) \<and> (pl_raws p \<noteq> [] \<longrightarrow> int (length (pl_raws p)) \<le> pf_batch_size cf) \<and>
     (pl_raws p \<noteq> [] \<longrightarrow> pl_checkpoint p = record_checkpoint_of (last (pl_raws p))) \<and>
     stretch (fs_data fs f) (offset_of m) (reached m p) (pl_raws p) \<and>
     stretch (fs_data fs f) (reached m p) (line_start (pl_source p)) (option_list (pl_held p)) \<and>
     (\<forall>c. pl_flushing p = Some c \<longrightarrow> batch_holds cf c (pl_raws p))"

lemma option_list_simps [simp]: "option_list None = []" "option_list (Some x) = [x]"
  by (simp_all add: option_list_def)

lemma run_inv_grow:
  assumes "run_inv cf f fs m p" "fs_path fs = Some f"
  shows "run_inv cf f (grow b fs f) m p"
  using assms reads_file_grow(1) [of fs "pl_source p" b]
  by (auto simp: run_inv_def intro: stretch_grow)

lemma log_inv_grow: "log_inv cf f fs m hist \<Longrightarrow> log_inv cf f (grow b fs f) m hist"
  by (auto simp: log_inv_def intro: stretch_grow)

lemma run_inv_poll:
  assumes i: "run_inv cf f fs m p" and h: "pl_held p = None"
    and t: "poll_turn fs io_ok (ReadsOk ahead) now (pl_source p) = (x, s)"
  shows "run_inv cf f fs m (p\<lparr>pl_source := s, pl_held := (case x of Record r \<Rightarrow> Some r | _ \<Rightarrow> None)\<rparr>)"
proof -
  have r: "reads_file fs (pl_source p)" "ds_file (pl_source p) = f" using i by (simp_all add: run_inv_def)
  note turn = poll_growing [OF r(1) t not_io_ok(1)]
  have at_end: "reached m p = line_start (pl_source p)" using i h stretch_nil by (auto simp: run_inv_def)
  show ?thesis
  proof (cases x)
    case (Record rec)
    with turn obtain line where l: "is_line line" "unread fs (pl_source p) = line @ unread fs s"
      "rr_content rec = line_content line" "rr_end_offset rec = line_start (pl_source p) + int (length line)"
      "line_start s = rr_end_offset rec" "rr_source_key rec = ds_key (pl_source p)"
      "rr_file_identity rec = ds_identity (pl_source p)" "reads_file fs s" "ds_file s = ds_file (pl_source p)"
      "ds_key s = ds_key (pl_source p)" "ds_identity s = ds_identity (pl_source p)" by auto
    from stretch_poll [OF r(1) l(8,9,1-5)] i l(6-11) at_end h Record r(2) show ?thesis
      by (auto simp: run_inv_def reached_def)
  next
    case Waiting
    with turn i h at_end show ?thesis by (auto simp: run_inv_def reached_def)
  next
    case (Fatal e)
    with turn show ?thesis by simp
  qed
qed

lemma run_inv_record:
  assumes "run_inv cf f fs m p" "pl_held p = Some r" "pl_flushing p = None" "\<not> batch_full cf p"
  shows "run_inv cf f fs m (handle_record cf r p)"
proof -
  have s: "stretch (fs_data fs f) (reached m p) (line_start (pl_source p)) [r]"
    and s0: "stretch (fs_data fs f) (offset_of m) (reached m p) (pl_raws p)" using assms by (simp_all add: run_inv_def)
  have e: "rr_end_offset r = line_start (pl_source p)" by (rule stretch_single [OF s])
  have "line_start (pl_source p) \<le> int (length (fs_data fs f))" "0 \<le> line_start (pl_source p)"
    using s by (auto simp: stretch_def)
  with assms stretch_join [OF s0 s] e show ?thesis by (auto simp: run_inv_def handle_record_def reached_def batch_full_def)
qed

lemma run_inv_flush:
  assumes "run_inv cf f fs m p" "flush_start cf random now p = (None, p')"
  shows "run_inv cf f fs m p'"
proof (cases "pl_entries p = []")
  case True
  with assms show ?thesis by (simp add: flush_start_def)
next
  case False
  then obtain i payload where b: "build_batch (pf_upper cf) random (pf_agent_id cf) (pf_pipeline_id cf)
      (cp_offset_bytes (pl_checkpoint p)) (pl_entries p) now = Inr (i, payload)"
    and p': "p' = p\<lparr>pl_flushing := Some \<lparr>cm_batch_id = i, cm_payload = payload, cm_checkpoint = pl_checkpoint p\<rparr>\<rparr>"
    using assms(2) by (auto simp: flush_start_def split: sum.splits)
  have "pl_raws p \<noteq> []" "pl_checkpoint p = record_checkpoint_of (last (pl_raws p))" "pl_entries p = map (record_entry cf) (pl_raws p)"
    "int (length (pl_raws p)) \<le> pf_batch_size cf"
    using assms(1) False by (auto simp: run_inv_def)
  with b have "batch_holds cf \<lparr>cm_batch_id = i, cm_payload = payload, cm_checkpoint = pl_checkpoint p\<rparr> (pl_raws p)"
    by (auto simp: batch_holds_def record_checkpoint_of_def)
  with assms(1) show ?thesis by (auto simp: p' run_inv_def reached_def)
qed

text \<open>A commit that is done marks the checkpoint to the end of its records.\<close>

lemma commit_done:
  assumes l: "log_inv cf f fs m hist" and r: "run_inv cf f fs m p" and c: "pl_flushing p = Some c"
  shows "cp_source_key (cm_checkpoint c) = pf_source_key cf"
    "log_inv cf f fs (Some (cm_checkpoint c)) (hist @ [(c, pl_raws p)])"
    "run_inv cf f fs (Some (cm_checkpoint c)) (p\<lparr>pl_entries := [], pl_raws := [], pl_flushing := None\<rparr>)"
proof -
  have b: "batch_holds cf c (pl_raws p)" using r c by (simp add: run_inv_def)
  then have ne: "pl_raws p \<noteq> []" and cm: "cm_checkpoint c = record_checkpoint_of (last (pl_raws p))"
    by (simp_all add: batch_holds_def)
  have last: "rr_source_key (last (pl_raws p)) = pf_source_key cf" "rr_file_identity (last (pl_raws p)) = fs_ident fs f"
    using r ne by (simp_all add: run_inv_def)
  show "cp_source_key (cm_checkpoint c) = pf_source_key cf" by (simp add: cm record_checkpoint_of_def last)
  have off: "offset_of (Some (cm_checkpoint c)) = reached m p"
    by (simp add: offset_of_def cm record_checkpoint_of_def reached_def ne)
  have s: "stretch (fs_data fs f) 0 (offset_of m) (concat (map snd hist))"
    "stretch (fs_data fs f) (offset_of m) (reached m p) (pl_raws p)" using l r by (simp_all add: log_inv_def run_inv_def)
  show "log_inv cf f fs (Some (cm_checkpoint c)) (hist @ [(c, pl_raws p)])"
    using l stretch_join [OF s] b unfolding log_inv_def off
    by (auto simp: cm record_checkpoint_of_def last)
  have z: "0 \<le> reached m p" "reached m p \<le> int (length (fs_data fs f))" using s by (auto simp: stretch_def)
  with r off show "run_inv cf f fs (Some (cm_checkpoint c)) (p\<lparr>pl_entries := [], pl_raws := [], pl_flushing := None\<rparr>)"
    by (simp add: run_inv_def reached_def)
qed

text \<open>Where a pipeline starts.\<close>

lemma open_at_mark:
  assumes l: "log_inv cf f fs (wal_checkpoint (pf_source_key cf) w) hist" and o: "open_source cf fs sio now w = Inr s"
  shows "offset_of (Some (initial_checkpoint s)) = offset_of (wal_checkpoint (pf_source_key cf) w)"
    "log_inv cf f fs (Some (initial_checkpoint s)) hist" "cp_source_key (initial_checkpoint s) = pf_source_key cf"
    "offset_of m = offset_of (wal_checkpoint (pf_source_key cf) w) \<Longrightarrow> run_inv cf f fs m (fresh_run s)"
proof -
  let ?m = "wal_checkpoint (pf_source_key cf) w"
  note n = new_source_reads [OF o [unfolded open_source_def]]
  have f: "ds_file s = f" using n(4) l by (simp add: log_inv_def)
  have range: "0 \<le> offset_of ?m" "offset_of ?m \<le> int (length (fs_data fs f))"
    and ident: "\<And>c. ?m = Some c \<Longrightarrow> cp_file_identity c = fs_ident fs f" using l by (auto simp: log_inv_def stretch_def)
  have off: "ds_read_offset s = offset_of ?m"
    using range ident by (auto simp: n(7) f start_at_def offset_of_def split: option.split)
  then show o2: "offset_of (Some (initial_checkpoint s)) = offset_of ?m" by (simp add: offset_of_def initial_checkpoint_def)
  show "cp_source_key (initial_checkpoint s) = pf_source_key cf" by (simp add: initial_checkpoint_def n(3))
  show "log_inv cf f fs (Some (initial_checkpoint s)) hist"
    using l unfolding log_inv_def o2 by (auto simp: initial_checkpoint_def n(5) f)
  show "run_inv cf f fs m (fresh_run s)" if "offset_of m = offset_of ?m"
    using n(1,2,3,5) f off that range by (simp add: run_inv_def fresh_run_def reached_def)
qed

section \<open>The invariant of an agent\<close>

definition agent_inv :: "spool_config \<Rightarrow> pipeline_config \<Rightarrow> nat \<Rightarrow> agent_state \<Rightarrow> bool" where
  "agent_inv sc cf f a \<longleftrightarrow>
     spool_reach sc (as_wal a) \<and>
     log_inv cf f (as_files a) (wal_checkpoint (pf_source_key cf) (as_wal a)) (as_history a) \<and>
     (\<forall>p. as_run a = Some p \<longrightarrow> run_inv cf f (as_files a) (wal_checkpoint (pf_source_key cf) (as_wal a)) p)"

lemma flush_try_runs:
  assumes "flush_try cancelled io (p, w) = (e, p', w')" "pl_flushing p = Some c" "commit_good c" "io_recovers io"
  shows "\<exists>d. spool_returns (DoCommit cancelled io c) w w' d \<and> d = (e = None \<and> pl_flushing p' = None) \<and>
    (e = None \<longrightarrow> p' = (if d then p\<lparr>pl_entries := [], pl_raws := [], pl_flushing := None\<rparr> else p))"
  using assms
  by (auto simp: flush_try_def spool_returns_def dropped_def split: prod.splits sum.splits if_splits)

lemma log_mark:
  "cp_file_identity c = cp_file_identity c' \<Longrightarrow> offset_of (Some c) = offset_of (Some c') \<Longrightarrow>
     log_inv cf f fs (Some c) hist = log_inv cf f fs (Some c') hist"
  by (simp add: log_inv_def)

text \<open>The operation of the start is done or not; either way the log covers what was committed.\<close>

lemma initial_runs:
  assumes r: "spool_reach sc w" and l: "log_inv cf f fs (wal_checkpoint (pf_source_key cf) w) hist"
    and o: "open_source cf fs sio now w = Inr s"
    and op: "initial_op io (wal_checkpoint (pf_source_key cf) w) (initial_checkpoint s) = Some op"
    and run: "spool_runs sc op w w' d"
  shows "spool_reach sc w'" "log_inv cf f fs (wal_checkpoint (pf_source_key cf) w') hist"
    "run_inv cf f fs (wal_checkpoint (pf_source_key cf) w') (fresh_run s)"
proof -
  have m: "marks op = Some (initial_checkpoint s)" using op by (auto simp: initial_op_def split: option.splits if_splits)
  note at_mark = open_at_mark [OF l o]
  have w': "wal_checkpoint (pf_source_key cf) w' = (if d then Some (initial_checkpoint s) else wal_checkpoint (pf_source_key cf) w)"
    using spool_log.runs_mark [OF r run, of "pf_source_key cf"] m at_mark(3) by simp
  show "spool_reach sc w'" by (rule spool_log.runs_reach [OF r run])
  show "log_inv cf f fs (wal_checkpoint (pf_source_key cf) w') hist" using l at_mark(2) by (simp add: w')
  show "run_inv cf f fs (wal_checkpoint (pf_source_key cf) w') (fresh_run s)"
    using at_mark(1) by (intro at_mark(4)) (simp add: w')
qed

lemma initial_good:
  "initial_op io m c = Some op \<Longrightarrow> io_recovers io \<Longrightarrow> checkpoint_fits (w_max_record w) c \<Longrightarrow>
     spool_returns op w (fst (exec op w)) (snd (exec op w) = None)"
  by (auto simp: initial_op_def spool_returns_def split: option.splits if_splits)

lemma agent_inv_step:
  assumes i: "agent_inv sc cf f a" and step: "agent_step sc cf a a'"
  shows "agent_inv sc cf f a'"
proof -
  let ?key = "pf_source_key cf"
  let ?m = "wal_checkpoint ?key (as_wal a)"
  have reach: "spool_reach sc (as_wal a)" and l: "log_inv cf f (as_files a) ?m (as_history a)"
    and r: "\<And>p. as_run a = Some p \<Longrightarrow> run_inv cf f (as_files a) ?m p" using i by (simp_all add: agent_inv_def)
  have other: "agent_inv sc cf f (a\<lparr>as_run := q, as_wal := w'\<rparr>)"
    if "foreign ?key op" "spool_runs sc op (as_wal a) w' d" "q = as_run a \<or> q = None" for op w' d q
    using that(3) l r spool_log.runs_reach [OF reach that(2)]
      spool_log.runs_other [OF reach that(2), of ?key] that(1) by (auto simp: agent_inv_def foreign_def)
  from step show ?thesis
  proof cases
    case (step_grow f' b)
    then have "f' = f" using l by (simp add: log_inv_def)
    with step_grow i l show ?thesis by (auto simp: agent_inv_def intro: log_inv_grow run_inv_grow)
  next
    case (step_poll p ahead now x s)
    with i run_inv_poll [OF r [OF step_poll(2)] step_poll(3,4)] show ?thesis by (simp add: agent_inv_def)
  next
    case (step_record p rec)
    with i run_inv_record [OF r [OF step_record(2)] step_record(3,4,5)] show ?thesis by (simp add: agent_inv_def)
  next
    case (step_flush p random now p')
    with i run_inv_flush [OF r [OF step_flush(2)] step_flush(4)] show ?thesis by (simp add: agent_inv_def)
  next
    case (step_try p c io cancelled e p' w')
    obtain d where run: "spool_returns (DoCommit cancelled io c) (as_wal a) w' d" and d: "d = (e = None \<and> pl_flushing p' = None)"
      and p': "e = None \<longrightarrow> p' = (if d then p\<lparr>pl_entries := [], pl_raws := [], pl_flushing := None\<rparr> else p)"
      using flush_try_runs [OF step_try(6,3,4,5)] by blast
    then have run: "spool_runs sc (DoCommit cancelled io c) (as_wal a) w' d" by (simp add: spool_runs_def)
    note moved = commit_done [OF l r [OF step_try(2)] step_try(3)]
    have w': "wal_checkpoint ?key w' = (if d then Some (cm_checkpoint c) else ?m)"
      using spool_log.runs_mark [OF reach run, of ?key] moved(1) by simp
    show ?thesis
      using spool_log.runs_reach [OF reach run] w' moved(2,3) l r [OF step_try(2)] d p'
      by (auto simp: step_try(1) agent_inv_def)
  next
    case (step_try_dies p c cancelled io w' d)
    then have run: "spool_runs sc (DoCommit cancelled io c) (as_wal a) w' d" by (simp add: spool_runs_def)
    note moved = commit_done [OF l r [OF step_try_dies(2)] step_try_dies(3)]
    have w': "wal_checkpoint ?key w' = (if d then Some (cm_checkpoint c) else ?m)"
      using spool_log.runs_mark [OF reach run, of ?key] moved(1) by simp
    show ?thesis using spool_log.runs_reach [OF reach run] w' moved(2) l by (simp add: step_try_dies(1) agent_inv_def)
  next
    case step_stop
    with i show ?thesis by (simp add: agent_inv_def)
  next
    case (step_restart w')
    with i spool_log.reopens_reach [OF reach step_restart(2)] spool_log.reopens_mark [OF reach step_restart(2), of ?key]
    show ?thesis by (simp add: agent_inv_def)
  next
    case (step_open sio io now q w')
    show ?thesis
    proof (cases "open_source cf (as_files a) sio now (as_wal a)")
      case (Inl e)
      with step_open i show ?thesis by (simp add: open_pipeline_def agent_inv_def)
    next
      case (Inr s)
      show ?thesis
      proof (cases "initial_op io ?m (initial_checkpoint s)")
        case None
        with step_open Inr have "q = Some (fresh_run s)" "w' = as_wal a" by (simp_all add: open_pipeline_def)
        with i open_at_mark(4) [OF l Inr] show ?thesis by (simp add: step_open(1) agent_inv_def)
      next
        case (Some op)
        have fits: "checkpoint_fits (w_max_record (as_wal a)) (initial_checkpoint s)" by (rule step_open(5) [OF Inr])
        have w': "w' = fst (exec op (as_wal a))" and q: "q = None \<or> q = Some (fresh_run s)"
          using step_open(3) Inr Some by (auto simp: open_pipeline_def split: prod.splits option.splits)
        have run: "spool_runs sc op (as_wal a) w' (snd (exec op (as_wal a)) = None)"
          using initial_good [OF Some step_open(4) fits] by (simp add: spool_runs_def w')
        show ?thesis using initial_runs [OF reach l Inr Some run] q by (auto simp: step_open(1) agent_inv_def)
      qed
    qed
  next
    case (step_open_dies sio now s io op w' d)
    then have run: "spool_runs sc op (as_wal a) w' d" by (simp add: spool_runs_def)
    show ?thesis using initial_runs [OF reach l step_open_dies(3,4) run] step_open_dies(2) by (simp add: step_open_dies(1) agent_inv_def)
  next
    case (step_other op w' d)
    then show ?thesis using other [of op w' d "as_run a"] by (simp add: spool_runs_def)
  next
    case (step_other_dies op w' d)
    then show ?thesis using other [of op w' d None] by (simp add: spool_runs_def)
  qed
qed

lemma agent_reach_inv: "agent_reach sc cf f a \<Longrightarrow> agent_inv sc cf f a"
proof (induction rule: agent_reach.induct)
  case (agent_start w fs)
  then show ?case by (simp add: agent_inv_def log_inv_def offset_of_def)
next
  case (agent_next a a')
  then show ?case using agent_inv_step by blast
qed

end
