(* ===== verification/Agent_Server.thy ===== *)
theory Agent_Server
  imports Agent_Pipeline
begin

text \<open>
  The contract between the agent and the server: a batch that \<open>buildBatch\<close> encodes is decoded by the strict decoder
  of the ingest protocol, and accepted by its validation when its lines are within the limits.
\<close>

section \<open>What the agent sends\<close>

lemma utf8_fix_is_valid [simp]: "valid_utf8 (utf8_fix s)"
  by (rule unquote_body_utf8 [OF unquote_quote_fix])

lemma utf8_fix_set: "set (utf8_fix s) \<subseteq> set s \<union> {CHR 0xEF, CHR 0xBF, CHR 0xBD}"
proof (induction s rule: utf8_fix.induct)
  case (1 s)
  show ?case
  proof (cases s)
    case (Cons c cs)
    show ?thesis
    proof (cases "byte_val c < 0x80")
      case True
      with 1(1) [OF Cons] show ?thesis by (subst utf8_fix.simps) (auto simp: Cons)
    next
      case low: False
      show ?thesis
      proof (cases "decode_multi s")
        case None
        with 1(2) [OF Cons low] show ?thesis by (subst utf8_fix.simps) (auto simp: Cons low)
      next
        case (Some rn)
        obtain r n where rn: "rn = (r, n)" by fastforce
        have "set (utf8_fix s) = set (take n s) \<union> set (utf8_fix (drop n s))"
          using Some low by (subst utf8_fix.simps) (simp add: Cons rn)
        with 1(3) [OF Cons low, of "(r, n)" r n] Some rn show ?thesis
          by (auto dest: in_set_takeD in_set_dropD)
      qed
    qed
  qed (subst utf8_fix.simps, simp)
qed

text \<open>An entry that the wire format takes, as the line parser makes it.\<close>

definition entry_sendable :: "log_entry \<Rightarrow> bool" where
  "entry_sendable e \<longleftrightarrow> time_text_ok (le_timestamp e) \<and> le_data e = []"

lemma wire_entry_simple: "le_data e = [] \<Longrightarrow> simple_attributes (we_attributes (wire_entry_of umap i e))"
proof -
  have k: "valid_utf8 ''gline.original_level''" by code_simp
  show "le_data e = [] \<Longrightarrow> simple_attributes (we_attributes (wire_entry_of umap i e))"
    using k by (auto simp: wire_entry_of_def wire_level_def simple_attributes_def Let_def)
qed

lemma built_request:
  assumes b: "build_batch umap random agent pipeline sequence entries now = Inr (i, payload)"
    and t: "time_text_ok now" "in_int64 sequence" "\<forall>e \<in> set entries. entry_sendable e" "length entries < 2 ^ 63"
  shows "\<exists>v. json_parse payload = Some v \<and>
      dec_batch_request v zero_batch_request = Some (fix_request (request_of umap i agent pipeline sequence entries now))"
    "random = Some raw \<Longrightarrow> i = uuid_of raw" "entries \<noteq> []"
proof -
  let ?r = "request_of umap i agent pipeline sequence entries now"
  obtain raw' where r: "random = Some raw'" "i = uuid_of raw'" "marshal_request ?r = Some payload" "entries \<noteq> []"
    using b by (auto simp: build_batch_def new_uuid_def split: if_splits option.splits)
  then show "random = Some raw \<Longrightarrow> i = uuid_of raw" "entries \<noteq> []" by simp_all
  have "\<forall>e \<in> set (br_entries ?r). entry_times_ok e"
  proof
    fix x assume "x \<in> set (br_entries ?r)"
    then obtain j e where x: "x = wire_entry_of umap j e" "j < length entries" "e \<in> set entries"
      by (auto simp: request_of_def in_set_enumerate_eq)
    then have "entry_sendable e" using t(3) by blast
    with x t(4) wire_entry_simple [of e umap j] show "entry_times_ok x"
      by (auto simp: entry_times_ok_def entry_sendable_def wire_entry_of_def in_int64_def split: prod.split)
  qed
  moreover have "time_text_ok (br_sent_at ?r)" "in_int64 (br_sequence ?r)" "in_int64 (br_protocol_version ?r)"
    using t(1,2) by (simp_all add: request_of_def protocol_version_def in_int64_def)
  ultimately show "\<exists>v. json_parse payload = Some v \<and>
      dec_batch_request v zero_batch_request = Some (fix_request (request_of umap i agent pipeline sequence entries now))"
    using marshal_request_read [of ?r] r(3) by auto
qed

text \<open>
  C19. What the agent encodes the server decodes: the strict decoder of the ingest protocol reads back every
  field of the batch (a byte that is not UTF-8 as the replacement character), and the identifier is a UUID in
  lower case, as the canonical form of the server wants it.
\<close>

theorem batch_roundtrip:
  assumes "build_batch umap (Some raw) agent pipeline sequence entries now = Inr (i, payload)" "length raw = 16"
    "time_text_ok now" "in_int64 sequence" "\<forall>e \<in> set entries. entry_sendable e" "length entries < 2 ^ 63"
    "int (length payload) \<le> 4194304"
  shows "(\<exists>n. decode (Some (payload, False)) 0 = (Inr (fix_request (request_of umap i agent pipeline sequence entries now)), n)) \<and>
    valid_uuid i \<and> map ascii_lower i = i"
  using built_request(1) [OF assms(1,3,4,5,6)] built_request(2) [OF assms(1,3,4,5,6)] uuid_of_valid [OF assms(2)] assms(7)
  by (simp add: decode_iff)

definition demo_entry :: log_entry where
  "demo_entry =
     \<lparr>le_timestamp = 63900000000000000000, le_level = ''UNKNOWN'', le_host = ''web-1'', le_message = ''one \"two\"'',
      le_service = ''app'', le_data = []\<rparr>"

definition demo_agent_id :: uuid where
  "demo_agent_id = ''00000000-0000-4000-8000-0000000000a1''"

lemma demo_built:
  obtains i payload where
    "build_batch (\<lambda>s. s) (Some [0..<16]) demo_agent_id demo_agent_id 12 [demo_entry] 63900000000000000000 = Inr (i, payload)"
    "length payload < 1000"
proof -
  have "case build_batch (\<lambda>s. s) (Some [0..<16]) demo_agent_id demo_agent_id 12 [demo_entry] 63900000000000000000 of
      Inl _ \<Rightarrow> False | Inr (i, payload) \<Rightarrow> length payload < 1000"
    by code_simp
  then show thesis by (auto split: sum.splits intro: that)
qed

lemma demo_entry_facts: "time_text_ok 63900000000000000000" "valid_uuid demo_agent_id" "valid_utf8 ''web-1''" "trim_space ''web-1'' = ''web-1''"
  "trim_space ''app'' = ''app''" "valid_utf8 ''app''"
  by code_simp+

theorem batch_roundtrip_witness:
  "\<exists>i payload n. build_batch (\<lambda>s. s) (Some [0..<16]) demo_agent_id demo_agent_id 12 [demo_entry] 63900000000000000000 = Inr (i, payload) \<and>
     decode (Some (payload, False)) 0 =
       (Inr (fix_request (request_of (\<lambda>s. s) i demo_agent_id demo_agent_id 12 [demo_entry] 63900000000000000000)), n) \<and> valid_uuid i"
proof -
  obtain i payload where b: "build_batch (\<lambda>s. s) (Some [0..<16]) demo_agent_id demo_agent_id 12 [demo_entry] 63900000000000000000 =
      Inr (i, payload)" "length payload < 1000" by (rule demo_built)
  have s: "in_int64 12" "\<forall>e \<in> set [demo_entry]. entry_sendable e"
    by (simp_all add: in_int64_def entry_sendable_def demo_entry_def demo_entry_facts)
  have l: "length [0..<16] = 16" "length [demo_entry] < 2 ^ 63" "int (length payload) \<le> 4194304" using b(2) by simp_all
  show ?thesis using batch_roundtrip [OF b(1) l(1) demo_entry_facts(1) s l(2,3)] b(1) by blast
qed

section \<open>What the server accepts\<close>

definition wire_levels :: "string list" where
  "wire_levels = [''TRACE'', ''DEBUG'', ''INFO'', ''WARN'', ''ERROR'', ''FATAL'']"

definition entry_acceptable :: "log_entry \<Rightarrow> bool" where
  "entry_acceptable e \<longleftrightarrow>
     le_level e \<in> set (wire_levels @ [''UNKNOWN'']) \<and> entry_sendable e \<and> \<not> is_zero (le_timestamp e) \<and>
     text_ok (trim_space (utf8_fix (le_service e))) 128 False \<and> text_ok (trim_space (utf8_fix (le_host e))) 255 False \<and>
     CHR 0x00 \<notin> set (le_message e) \<and> length (utf8_fix (le_message e)) \<le> 262144"

lemma level_facts:
  "list_all (\<lambda>l. utf8_fix l = l \<and> trim_space l = l \<and> is_ascii l \<and> map ascii_upper l = l \<and> valid_utf8 l \<and> CHR 0x00 \<notin> set l \<and>
     l \<noteq> [] \<and> length l \<le> 16) (wire_levels @ [''UNKNOWN''])"
  by code_simp

lemma attributes_facts:
  "canonical_json 0 8 (VObj []) = Some ''{}''"
  "(case canonical_json 0 8 (VObj [(''gline.original_level'', VStr (utf8_fix ''UNKNOWN''))]) of None \<Rightarrow> False | Some t \<Rightarrow> length t \<le> 64)"
  by code_simp+

lemma entry_accepted:
  assumes "entry_acceptable e"
  shows "entry_ok default_limits i (fix_entry (wire_entry_of umap i e)) (entry_of umap i (fix_entry (wire_entry_of umap i e)))"
    "e_message (entry_of umap i (fix_entry (wire_entry_of umap i e))) = utf8_fix (le_message e)"
proof -
  have l: "le_level e \<in> set (wire_levels @ [''UNKNOWN''])" using assms by (simp add: entry_acceptable_def)
  have lf: "utf8_fix x = x" "trim_space x = x" "to_upper umap x = x" "valid_utf8 x" "CHR 0x00 \<notin> set x" "x \<noteq> []" "length x \<le> 16"
    if "x \<in> set (wire_levels @ [''UNKNOWN''])" for x
    using level_facts that unfolding list_all_iff by (auto simp: to_upper_def)
  have info: "''INFO'' \<in> set (wire_levels @ [''UNKNOWN''])" by (simp add: wire_levels_def)
  define lv where "lv = (if le_level e \<in> set wire_levels then le_level e else ''INFO'')"
  define ats where "ats = (if le_level e \<in> set wire_levels then [] else [(''gline.original_level'', VStr ''UNKNOWN'')])"
  have w: "wire_level umap (le_level e) [] = (lv, ats)"
    using l lf(3) [OF l] by (auto simp: wire_level_def Let_def lv_def ats_def wire_levels_def)
  have d: "le_data e = []" using assms by (simp add: entry_acceptable_def entry_sendable_def)
  have lv: "lv \<in> set (wire_levels @ [''UNKNOWN''])" "valid_level lv" "lv \<in> set wire_levels"
    using info by (auto simp: lv_def wire_levels_def valid_level_def)
  have f: "fix_entry (wire_entry_of umap i e) =
      \<lparr>we_sequence = int i, we_observed_at = le_timestamp e, we_level = lv, we_service = utf8_fix (le_service e),
       we_host = utf8_fix (le_host e), we_message = utf8_fix (le_message e), we_attributes = fix_attributes (Some ats)\<rparr>"
    using lf(1) [OF lv(1)] by (simp add: fix_entry_def wire_entry_of_def d w)
  have nul: "CHR 0x00 \<notin> set (utf8_fix (le_message e))"
    using utf8_fix_set [of "le_message e"] assms by (auto simp: entry_acceptable_def)
  have "attributes_ok default_limits (entry_of umap i (fix_entry (wire_entry_of umap i e)))"
    using attributes_facts by (auto simp: attributes_ok_def f entry_of_def default_limits_def ats_def fix_attributes_def split: option.splits)
  moreover have "text_ok lv 16 False" using lf(4-7) [OF lv(1)] by (simp add: text_ok_def)
  ultimately show "entry_ok default_limits i (fix_entry (wire_entry_of umap i e)) (entry_of umap i (fix_entry (wire_entry_of umap i e)))"
    using assms lf(2,3) [OF lv(1)] lv(2) nul
    by (simp add: entry_ok_def f entry_of_def entry_acceptable_def default_limits_def text_ok_def)
  show "e_message (entry_of umap i (fix_entry (wire_entry_of umap i e))) = utf8_fix (le_message e)"
    by (simp add: f entry_of_def)
qed



end
