(* ===== verification/Agent_Properties.thy ===== *)
theory Agent_Properties
  imports Agent_Server Spool_Properties
begin

text \<open>
  What holds of the agent: reading, batching, committing, delivery and control. Each property has a witness at a
  concrete input.
\<close>

section \<open>Reading\<close>

definition demo_files :: file_system where
  "demo_files = \<lparr>fs_path = Some 7, fs_data = (\<lambda>_. ''INFO one'' @ [newline] @ ''tw''), fs_ident = (\<lambda>_. ''unix:1:2'')\<rparr>"

definition demo_source :: durable_source where
  "demo_source =
     \<lparr>ds_key = ''app'', ds_identity = ''unix:1:2'', ds_file = 7, ds_buffer = [], ds_pos = 0, ds_pending = [],
      ds_read_offset = 0, ds_checkpoint_at = 5, ds_rotation_seen = 0, ds_poll_interval = second\<rparr>"

text \<open>
  C21. A source that starts at the beginning of a line gives the lines of its file, each once, in order, without
  their line ends and with the offset of their end, however the file grows between and during the polls and
  however much is read ahead; once no newline is left unread, it has given all of them.
\<close>

theorem source_reads_lines:
  assumes "new_source fs io path key cp poll now = Inr s" "read_run evs (fs, s) = (rs, fs', s')"
  shows "let from = nat (ds_read_offset s); lines = complete_lines (drop from (fs_data fs' (ds_file s))) in
    map record_key rs = take (length rs) (line_records (ds_read_offset s) lines) \<and>
    (newline \<notin> set (unread fs' s') \<longrightarrow> length rs = length lines)"
  using run_lines [OF new_source_reads(1) [OF assms(1)] assms(2)] by (simp add: new_source_reads(2) [OF assms(1)] Let_def)

theorem source_reads_lines_witness:
  "\<exists>rs fs' s'. read_run [Poll 3 10, Grow (''o'' @ [newline]), Poll 0 11, Poll 0 12] (demo_files, demo_source) = (rs, fs', s') \<and>
     map record_key rs = [(''INFO one'', 9), (''two'', 13)]"
proof -
  obtain rs fs' s' where run: "read_run [Poll 3 10, Grow (''o'' @ [newline]), Poll 0 11, Poll 0 12] (demo_files, demo_source) = (rs, fs', s')"
    by (metis prod_cases3)
  have new: "new_source demo_files io_ok ''log'' ''app'' None 0 5 = Inr demo_source"
    by (simp add: new_source_def demo_files_def demo_source_def io_ok_def start_at_def) code_simp
  have data: "fs_data fs' 7 = ''INFO one'' @ [newline] @ ''two'' @ [newline]" "newline \<notin> set (unread fs' s')"
  proof -
    have "(case read_run [Poll 3 10, Grow (''o'' @ [newline]), Poll 0 11, Poll 0 12] (demo_files, demo_source) of
        (rs, fs', s') \<Rightarrow> fs_data fs' 7 = ''INFO one'' @ [newline] @ ''two'' @ [newline] \<and> newline \<notin> set (unread fs' s'))"
      by code_simp
    note this [unfolded run split_conv]
    then show "fs_data fs' 7 = ''INFO one'' @ [newline] @ ''two'' @ [newline]" "newline \<notin> set (unread fs' s')"
      by (rule conjunct1, rule conjunct2)
  qed
  have "line_records 0 (complete_lines (''INFO one'' @ [newline] @ ''two'' @ [newline])) = [(''INFO one'', 9), (''two'', 13)]"
    "length (complete_lines (''INFO one'' @ [newline] @ ''two'' @ [newline])) = 2"
    by code_simp+
  with source_reads_lines [OF new run] data(2) have "map record_key rs = [(''INFO one'', 9), (''two'', 13)]"
    unfolding Let_def demo_source_def by (simp add: data(1))
  with run show ?thesis by (intro exI [of _ rs] exI [of _ fs'] exI [of _ s'] conjI)
qed

text \<open>
  A file that is truncated in place and then renamed away before it has a new line: the source starts again at
  offset 0 without a transition, so the transition of the rotation expects a checkpoint that is not the durable one,
  \<open>Rotate\<close> fails with a conflict, and the pipeline stops.
\<close>

theorem copytruncate_then_rename:
  assumes "reads_file fs s" "unread fs s = []" "0 < ds_read_offset s"
    "wal_checkpoint (ds_key s) w = Some (initial_checkpoint s)" "\<not> w_closed w" "fs_path fs = Some f" "g \<noteq> f"
    "\<not> blank (ds_key s)" "\<not> blank (fs_ident fs g)" "time_text_ok now" "\<not> is_zero now"
  shows "\<exists>s1 s2 s3.
    poll_turn (fs\<lparr>fs_data := (fs_data fs)(f := [])\<rparr>) io_ok (ReadsOk a) t1 s = (Waiting, s1) \<and> ds_read_offset s1 = 0 \<and>
    poll_turn (fs\<lparr>fs_data := (fs_data fs)(f := []), fs_path := Some g\<rparr>) io_ok (ReadsOk b) t2 s1 = (Waiting, s2) \<and>
    poll_turn (fs\<lparr>fs_data := (fs_data fs)(f := []), fs_path := Some g\<rparr>) io_ok (ReadsOk c) t3 s2 = (Fatal RotationRequired, s3) \<and>
    rotate (fs\<lparr>fs_data := (fs_data fs)(f := []), fs_path := Some g\<rparr>) io_ok now (Some (wal_transition False io)) (s3, w) =
      (Some (PersistFails ErrTransitionConflict), s3, w)"
proof -
  have s: "ds_file s = f" "ds_pending s = []" "ds_buffer s = []" "drop (ds_pos s) (fs_data fs f) = []"
    using assms(1,2,6) by (auto simp: reads_file_def unread_def)
  let ?s1 = "s\<lparr>ds_pos := 0, ds_buffer := [], ds_pending := [], ds_read_offset := 0, ds_rotation_seen := 0\<rparr>"
  let ?s3 = "?s1\<lparr>ds_rotation_seen := 2\<rparr>"
  let ?nxt = "\<lparr>cp_source_key = ds_key s, cp_file_identity = fs_ident fs g, cp_offset_bytes = 0, cp_observed_at = now\<rparr>"
  have "checkpoint_json ?nxt \<noteq> None" "validate_checkpoint ?nxt = None"
    using assms by (auto simp: checkpoint_json_def validate_checkpoint_def time_json_def)
  moreover have "transition_conflict (Some (initial_checkpoint ?s3)) ?nxt w"
    using assms(3,4) by (simp add: transition_conflict_def same_checkpoint_position_def wal_checkpoint_def initial_checkpoint_def)
  ultimately have t: "wal_transition False io (Some (initial_checkpoint ?s3)) ?nxt w = (w, Inl ErrTransitionConflict)"
    using assms(5) by (auto simp: wal_transition_def split: option.split)
  show ?thesis
    by (rule exI [of _ ?s1], rule exI [of _ "?s1\<lparr>ds_rotation_seen := 1\<rparr>"], rule exI [of _ ?s3])
      (use s assms(3,6,7) t in \<open>simp add: poll_turn_def read_string_def detect_rotation_def rotate_def Let_def\<close>)
qed

theorem copytruncate_then_rename_witness:
  "\<exists>s w s3. wal_checkpoint ''app'' w = Some (initial_checkpoint s) \<and>
     rotate (demo_files\<lparr>fs_data := (fs_data demo_files)(7 := []), fs_path := Some 8\<rparr>) io_ok 9 (Some (wal_transition False IoOk)) (s3, w) =
       (Some (PersistFails ErrTransitionConflict), s3, w)"
proof -
  define fs where "fs = demo_files\<lparr>fs_data := (fs_data demo_files)(7 := ''INFO one'' @ [newline])\<rparr>"
  define s0 where "s0 = demo_source\<lparr>ds_pos := 9, ds_read_offset := 9\<rparr>"
  define w where "w = set_checkpoint (initial_checkpoint s0) demo_wal"
  have r: "reads_file fs s0" "unread fs s0 = []"
    by (simp_all add: reads_file_def unread_def line_start_def fs_def s0_def demo_files_def demo_source_def)
  have b: "\<not> blank (ds_key s0)" "\<not> blank (fs_ident fs 8)"
    by (simp_all add: s0_def fs_def demo_source_def demo_files_def) code_simp+
  have t: "time_text_ok 9" by code_simp
  have n: "(8 :: nat) \<noteq> 7" and z: "\<not> is_zero 9" by (simp_all add: is_zero_def zero_time_def)
  have m: "wal_checkpoint (ds_key s0) w = Some (initial_checkpoint s0)"
    by (simp add: w_def wal_checkpoint_def set_checkpoint_def s0_def demo_source_def initial_checkpoint_def)
  have o: "\<not> w_closed w" by (simp add: w_def set_checkpoint_def demo_wal_def empty_wal_def)
  have p: "fs_path fs = Some 7" "0 < ds_read_offset s0" by (simp_all add: fs_def demo_files_def s0_def)
  have q: "fs\<lparr>fs_data := (fs_data fs)(7 := []), fs_path := Some 8\<rparr> =
      demo_files\<lparr>fs_data := (fs_data demo_files)(7 := []), fs_path := Some 8\<rparr>"
    by (simp add: fs_def)
  obtain s3 where "rotate (fs\<lparr>fs_data := (fs_data fs)(7 := []), fs_path := Some 8\<rparr>) io_ok 9 (Some (wal_transition False IoOk)) (s3, w) =
      (Some (PersistFails ErrTransitionConflict), s3, w)"
    using copytruncate_then_rename [OF r p(2) m o p(1) n b t z] by blast
  with m show ?thesis
    unfolding q by (intro exI [of _ s0] exI [of _ w] exI [of _ s3]) (simp add: s0_def demo_source_def)
qed

section \<open>A pipeline\<close>

text \<open>
  C1. Whatever happens to the agent - the file grows, records are read and batched, commits succeed, fail, wait for
  space or die half way, other pipelines and the dispatcher use the spool, the process stops or is killed and
  starts again - the committed batches hold the lines of the file, each exactly once and in order, up to the
  durable checkpoint of the source, and a running pipeline continues with the next line. Every batch is the one
  that \<open>buildBatch\<close> makes of its records, has at most \<open>BatchSize\<close> of them and carries the checkpoint of the last of them.
\<close>

theorem pipeline_exactly_once:
  assumes "agent_reach sc cf f a"
  shows "let lines = complete_lines (fs_data (as_files a) f); rs = committed a in
    map record_key rs = line_records 0 (take (length rs) lines) \<and> length rs \<le> length lines \<and>
    offset_of (wal_checkpoint (pf_source_key cf) (as_wal a)) = int (length (concat (take (length rs) lines))) \<and>
    (\<forall>p. as_run a = Some p \<longrightarrow>
       (let ahead = rs @ pl_raws p @ option_list (pl_held p)
        in map record_key ahead = line_records 0 (take (length ahead) lines))) \<and>
    (\<forall>(c, b) \<in> set (as_history a). batch_holds cf c b)"
proof -
  let ?m = "wal_checkpoint (pf_source_key cf) (as_wal a)"
  from agent_reach_inv [OF assms] have l: "log_inv cf f (as_files a) ?m (as_history a)"
    and r: "\<And>p. as_run a = Some p \<Longrightarrow> run_inv cf f (as_files a) ?m p" by (simp_all add: agent_inv_def)
  have s: "stretch (fs_data (as_files a) f) 0 (offset_of ?m) (committed a)" using l by (simp add: log_inv_def committed_def)
  have "map record_key (committed a @ pl_raws p @ option_list (pl_held p)) =
      line_records 0 (take (length (committed a @ pl_raws p @ option_list (pl_held p))) (complete_lines (fs_data (as_files a) f)))"
    if "as_run a = Some p" for p
  proof (rule stretch_lines(1))
    show "stretch (fs_data (as_files a) f) 0 (line_start (pl_source p)) (committed a @ pl_raws p @ option_list (pl_held p))"
      using r [OF that] by (intro stretch_join [OF s] stretch_join [where j = "reached ?m p"]) (simp_all add: run_inv_def)
  qed
  with stretch_lines [OF s] l show ?thesis by (simp add: Let_def log_inv_def)
qed

definition demo_pipe :: pipeline_config where
  "demo_pipe =
     \<lparr>pf_agent_id = demo_agent_id, pf_pipeline_id = demo_agent_id, pf_source_key = ''app'', pf_path = ''/var/log/app.log'',
      pf_service = ''app'', pf_host = ''web-1'', pf_parser = (\<lambda>r. Some (parse_line r)), pf_upper = (\<lambda>s. s), pf_batch_size = 1\<rparr>"

definition demo_now :: time where "demo_now = 63900000000000000000"

definition demo_open :: durable_source where
  "demo_open = demo_source\<lparr>ds_checkpoint_at := demo_now\<rparr>"

definition demo_read :: "poll \<times> durable_source" where
  "demo_read = poll_turn demo_files io_ok (ReadsOk 0) demo_now demo_open"

definition demo_held :: pipeline_run where
  "demo_held = (fresh_run demo_open)\<lparr>pl_source := snd demo_read, pl_held := (case fst demo_read of Record r \<Rightarrow> Some r | _ \<Rightarrow> None)\<rparr>"

definition demo_flush :: "flush_error option \<times> pipeline_run" where
  "demo_flush = flush_start demo_pipe (Some [0..<16]) demo_now (handle_record demo_pipe (the (pl_held demo_held)) demo_held)"

lemma demo_flushed:
  "case pl_held demo_held of None \<Rightarrow> False | Some r \<Rightarrow> record_key r = (''INFO one'', 9)" "fst demo_flush = None"
  "case pl_flushing (snd demo_flush) of None \<Rightarrow> False | Some c \<Rightarrow> valid_utf8 (cm_batch_id c) \<and> checkpoint_good (cm_checkpoint c)"
  by code_simp+

lemma demo_compact: "case pl_flushing (snd demo_flush) of None \<Rightarrow> False | Some c \<Rightarrow> json_compact (cm_payload c) = Some (cm_payload c)"
  by code_simp

lemma demo_encoded:
  "case pl_flushing (snd demo_flush) of None \<Rightarrow> False
   | Some c \<Rightarrow> (case encode_commit c of Inl _ \<Rightarrow> False | Inr body \<Rightarrow> length body < 1000)"
  by code_simp

lemma demo_flush:
  obtains r c body where "pl_held demo_held = Some r" "fst demo_flush = None" "pl_flushing (snd demo_flush) = Some c" "commit_good c"
    "encode_commit c = Inr body" "length body < 1000" "pl_raws (snd demo_flush) = [r]" "record_key r = (''INFO one'', 9)"
proof -
  obtain r where r: "pl_held demo_held = Some r" "record_key r = (''INFO one'', 9)" using demo_flushed(1) by (auto split: option.splits)
  obtain c where c: "pl_flushing (snd demo_flush) = Some c" "valid_utf8 (cm_batch_id c)" "checkpoint_good (cm_checkpoint c)"
    using demo_flushed(3) by (auto split: option.splits)
  have g: "commit_good c" using demo_compact c by (simp add: commit_good_def)
  obtain body where b: "encode_commit c = Inr body" "length body < 1000" using demo_encoded c(1) by (auto split: sum.splits)
  have "pl_raws (snd demo_flush) = [the (pl_held demo_held)]"
    by (auto simp: demo_flush_def flush_start_def handle_record_def demo_held_def fresh_run_def split: sum.split)
  with r show thesis by (intro that [OF r(1) demo_flushed(2) c(1) g b]) simp_all
qed

lemma append_frame:
  assumes "length body < 1000"
  obtains r where "append_record IoOk kind body w = (set_file (wal_file w @ r) w, None)"
proof -
  obtain r where "frame_record kind body = Some r"
    using assms by (cases "frame_record kind body") (auto simp: frame_record_def split: if_splits)
  then show thesis by (intro that [of r]) (simp add: append_record_def)
qed

lemma demo_opened:
  obtains w where "open_pipeline demo_pipe demo_files io_ok IoOk demo_now demo_wal = (Some (fresh_run demo_open), w)"
    "w_max_record w = 8 * 2 ^ 20" "w_seen w = {}" "w_used_bytes w = 0" "w_max_bytes w = 2 ^ 30" "\<not> w_closed w"
    "checkpoint_fits (w_max_record demo_wal) (initial_checkpoint demo_open)"
    "open_source demo_pipe demo_files io_ok demo_now demo_wal = Inr demo_open"
proof -
  have c: "checkpoint_good (initial_checkpoint demo_open)" "validate_checkpoint (initial_checkpoint demo_open) = None"
    "case checkpoint_json (initial_checkpoint demo_open) of None \<Rightarrow> False | Some b \<Rightarrow> length b < 1000"
    by code_simp+
  then obtain b where b: "checkpoint_json (initial_checkpoint demo_open) = Some b" "length b < 1000" by (auto split: option.splits)
  obtain r where r: "append_record IoOk record_checkpoint b demo_wal = (set_file (wal_file demo_wal @ r) demo_wal, None)"
    using append_frame [OF b(2)] by blast
  have m: "wal_checkpoint ''app'' demo_wal = None" by (simp add: wal_checkpoint_def demo_wal_def empty_wal_def)
  have n: "\<not> blank ''/var/log/app.log''" "\<not> blank ''app''" by code_simp+
  have s: "open_source demo_pipe demo_files io_ok demo_now demo_wal = Inr demo_open"
    using n m by (simp add: open_source_def new_source_def demo_pipe_def demo_files_def start_at_def demo_open_def demo_source_def)
  have k: "cp_source_key (initial_checkpoint demo_open) = ''app''" by (simp add: initial_checkpoint_def demo_open_def demo_source_def)
  let ?w = "signal (set_checkpoint (initial_checkpoint demo_open) (set_file (wal_file demo_wal @ r) demo_wal))"
  have o: "\<not> w_closed demo_wal" by (simp add: demo_wal_def empty_wal_def)
  have "exec (DoTransition False IoOk None (initial_checkpoint demo_open)) demo_wal = (?w, None)"
    using c(2) b(1) r m k o by (simp add: dropped_def wal_transition_def transition_conflict_def wal_checkpoint_def)
  then have "open_pipeline demo_pipe demo_files io_ok IoOk demo_now demo_wal = (Some (fresh_run demo_open), ?w)"
    using s m by (simp add: open_pipeline_def initial_op_def demo_pipe_def)
  then show thesis
  proof (rule that)
    show "checkpoint_fits (w_max_record demo_wal) (initial_checkpoint demo_open)"
      using c(1) b by (simp add: checkpoint_fits_def option_list_def demo_wal_def empty_wal_def demo_limits)
    show "open_source demo_pipe demo_files io_ok demo_now demo_wal = Inr demo_open" by (rule s)
  qed (simp_all add: signal_def set_checkpoint_def set_file_def demo_wal_def empty_wal_def demo_limits)
qed

theorem pipeline_exactly_once_witness:
  "\<exists>a. agent_reach demo_config demo_pipe 7 a \<and> length (as_history a) = 1 \<and> map record_key (committed a) = [(''INFO one'', 9)]"
proof -
  obtain w where w: "open_pipeline demo_pipe demo_files io_ok IoOk demo_now demo_wal = (Some (fresh_run demo_open), w)"
    "w_max_record w = 8 * 2 ^ 20" "w_seen w = {}" "w_used_bytes w = 0" "w_max_bytes w = 2 ^ 30" "\<not> w_closed w"
    "checkpoint_fits (w_max_record demo_wal) (initial_checkpoint demo_open)"
    "open_source demo_pipe demo_files io_ok demo_now demo_wal = Inr demo_open" by (rule demo_opened)
  obtain r c body where f: "pl_held demo_held = Some r" "fst demo_flush = None" "pl_flushing (snd demo_flush) = Some c" "commit_good c"
    "encode_commit c = Inr body" "length body < 1000" "pl_raws (snd demo_flush) = [r]" "record_key r = (''INFO one'', 9)"
    by (rule demo_flush)
  let ?a = "\<lambda>run w h. \<lparr>as_files = demo_files, as_run = run, as_wal = w, as_history = h\<rparr>"
  have "wal_checkpoint (pf_source_key demo_pipe) demo_wal = None" by (simp add: wal_checkpoint_def demo_wal_def empty_wal_def)
  then have "agent_reach demo_config demo_pipe 7 (?a None demo_wal [])"
    by (intro agent_reach.agent_start [OF demo_reach]) (simp_all add: demo_files_def)
  moreover have "agent_step demo_config demo_pipe (?a None demo_wal []) (?a (Some (fresh_run demo_open)) w [])"
    using agent_step.step_open [where a = "?a None demo_wal []" and cf = demo_pipe and sc = demo_config, of io_ok IoOk demo_now] w
    by (simp add: io_recovers_def)
  ultimately have "agent_reach demo_config demo_pipe 7 (?a (Some (fresh_run demo_open)) w [])" by (rule agent_reach.agent_next)
  moreover have "agent_step demo_config demo_pipe (?a (Some (fresh_run demo_open)) w []) (?a (Some demo_held) w [])"
    using agent_step.step_poll [where a = "?a (Some (fresh_run demo_open)) w []" and cf = demo_pipe and sc = demo_config,
        of "fresh_run demo_open" 0 demo_now "fst demo_read" "snd demo_read"]
    by (simp add: demo_held_def demo_read_def fresh_run_def)
  ultimately have "agent_reach demo_config demo_pipe 7 (?a (Some demo_held) w [])" by (rule agent_reach.agent_next)
  moreover have "agent_step demo_config demo_pipe (?a (Some demo_held) w []) (?a (Some (handle_record demo_pipe r demo_held)) w [])"
    using agent_step.step_record [where a = "?a (Some demo_held) w []" and cf = demo_pipe and sc = demo_config, of demo_held r] f(1)
    by (simp add: demo_held_def fresh_run_def batch_full_def demo_pipe_def)
  ultimately have "agent_reach demo_config demo_pipe 7 (?a (Some (handle_record demo_pipe r demo_held)) w [])"
    by (rule agent_reach.agent_next)
  moreover have "agent_step demo_config demo_pipe (?a (Some (handle_record demo_pipe r demo_held)) w []) (?a (Some (snd demo_flush)) w [])"
    using agent_step.step_flush [where a = "?a (Some (handle_record demo_pipe r demo_held)) w []" and cf = demo_pipe and sc = demo_config,
        of "handle_record demo_pipe r demo_held" "Some [0..<16]" demo_now "snd demo_flush"] f(1,2)
    by (simp add: demo_flush_def prod_eq_iff handle_record_def demo_held_def fresh_run_def)
  ultimately have reach: "agent_reach demo_config demo_pipe 7 (?a (Some (snd demo_flush)) w [])" by (rule agent_reach.agent_next)
  obtain x where x: "append_record IoOk record_commit body w = (set_file (wal_file w @ x) w, None)"
    using append_frame [OF f(6)] by blast
  obtain w' where "wal_commit False IoOk c w = (w', Inr ())"
    using f(5,6) w x by (simp add: wal_commit_def Let_def record_header_bytes_def)
  then have t: "flush_try False IoOk (snd demo_flush, w) =
      (None, (snd demo_flush)\<lparr>pl_entries := [], pl_raws := [], pl_flushing := None\<rparr>, w')"
    by (simp add: flush_try_def f(3))
  have "agent_step demo_config demo_pipe (?a (Some (snd demo_flush)) w [])
      (?a (Some ((snd demo_flush)\<lparr>pl_entries := [], pl_raws := [], pl_flushing := None\<rparr>)) w' [(c, [r])])"
    using agent_step.step_try [where a = "?a (Some (snd demo_flush)) w []" and cf = demo_pipe and sc = demo_config,
        OF _ f(3,4) _, of IoOk False None _ w'] t f(7) by (simp add: io_recovers_def)
  with reach have "agent_reach demo_config demo_pipe 7
      (?a (Some ((snd demo_flush)\<lparr>pl_entries := [], pl_raws := [], pl_flushing := None\<rparr>)) w' [(c, [r])])" (is "agent_reach _ _ _ ?s")
    by (rule agent_reach.agent_next)
  moreover have "length (committed ?s) = 1" "length (as_history ?s) = 1" by (simp_all add: committed_def)
  moreover have "line_records 0 (take 1 (complete_lines (fs_data demo_files 7))) = [(''INFO one'', 9)]" by code_simp
  ultimately show ?thesis
    using pipeline_exactly_once [of demo_config demo_pipe 7 ?s] by (intro exI [of _ ?s]) (simp add: Let_def)
qed

section \<open>Delivery\<close>

definition demo_options :: dispatcher_options where
  "demo_options = \<lparr>do_base_delay = second, do_max_delay = 60 * second, do_jitter = 0\<rparr>"

definition demo_turn :: "time \<Rightarrow> turn" where
  "demo_turn now = \<lparr>tn_cancelled = False, tn_cancelled_late = False, tn_now = now, tn_draw = None, tn_io = IoOk, tn_compact = CompactOk\<rparr>"

definition demo_ack :: bytes where
  "demo_ack = ''{\"batch_id\":\"b1\",\"status\":\"accepted\"}''"

definition demo_spooled :: wal where
  "demo_spooled = fst (exec (DoCommit False IoOk demo_commit) demo_wal)"

lemma demo_spooled:
  "spool_reach demo_config demo_spooled" "wal_pending demo_spooled = [demo_commit]" "\<not> w_closed demo_spooled"
  "durable demo_spooled \<and> opened demo_spooled" "w_max_record demo_spooled = 8 * 2 ^ 20"
proof -
  have e: "exec (DoCommit False IoOk demo_commit) demo_wal = (demo_spooled, None)"
    using demo_exec by (simp add: demo_spooled_def prod_eq_iff)
  have inv: "spool_inv demo_wal" using spool_reach_inv [OF demo_reach] by (simp add: reach_inv_def)
  have good: "op_good (w_max_record demo_wal) (DoCommit False IoOk demo_commit)" "io_recovers (op_io (DoCommit False IoOk demo_commit))"
    by (simp_all add: demo_good io_recovers_def)
  show r: "spool_reach demo_config demo_spooled"
    unfolding demo_spooled_def by (rule spool_reach.operation [OF demo_reach good])
  have o: "\<not> w_closed demo_wal" by (simp add: demo_wal_def empty_wal_def)
  obtain x where "wal_commit False IoOk demo_commit demo_wal = (demo_spooled, x)"
    using e by (cases "wal_commit False IoOk demo_commit demo_wal") (auto simp: dropped_def)
  from not_closed_after(1) [OF this o] show c: "\<not> w_closed demo_spooled" .
  show "wal_pending demo_spooled = [demo_commit]"
    using exec_inv [OF inv good e]
    by (simp add: view_def view_commit_def) (simp add: demo_wal_def empty_wal_def wal_pending_def)
  show "durable demo_spooled \<and> opened demo_spooled"
    using spool_reach_inv [OF r] c by (simp add: reach_inv_def spool_inv_def)
  show "w_max_record demo_spooled = 8 * 2 ^ 20"
    using exec_max_record [of "DoCommit False IoOk demo_commit" demo_wal]
    by (simp add: demo_spooled_def) (simp add: demo_wal_def empty_wal_def demo_limits)
qed

text \<open>
  C10. A batch leaves the queue of the spool only when the server answered for it: with an acknowledgement of its own
  id as accepted or duplicate, or with 400, 409, 413 or 422, and then it is in quarantine with the answer. Every
  other outcome (no connection, an unreadable body, 408, 429, 5xx, another id, a wrong status, a terminal error) and
  every other batch leave it where it is.
\<close>

theorem batch_leaves_only_answered:
  assumes "spool_reach cf w" "c \<in> set (wal_pending w)"
    "deliver opts t c (send http_time (cm_payload c) h now) (st, w) = (e, st', w')" "io_recovers (tn_io t)"
    "quarantine_fits (w_max_record w) (quarantine_record_of t c (fst (send http_time (cm_payload c) h now)))"
    "x \<in> set (wal_pending w)" "x \<notin> set (wal_pending w')"
  shows "x = c \<and> (\<exists>status retry body. h = Responds status retry body \<and>
    (200 \<le> status \<and> status < 300 \<and> (\<exists>a. decode_acknowledgement (take 65536 body) = Some a \<and>
       payload_batch_id (cm_payload c) = Some (ak_batch_id a) \<and> ak_status a \<in> {''accepted'', ''duplicate''}) \<or>
     status \<in> {400, 409, 413, 422} \<and> quarantined_of t c (fst (send http_time (cm_payload c) h now)) \<in> set (wal_quarantined w')))"
proof -
  let ?res = "send http_time (cm_payload c) h now"
  have v: "view w' = (if turn_op t c ?res = None \<or> e \<noteq> None \<and> \<not> (w_closed w' \<and> \<not> w_closed w) then view w
     else if result_class_of ?res = ResultQuarantine then view_quarantine (quarantined_of t c (fst ?res)) (view w)
     else view_remove (cm_batch_id c) (view w))"
    using turn_op_effect [OF assms(1-4)] assms(5) by blast
  have wf: "wal_wf w"
    using spool_reach_inv [OF assms(1)] by (simp add: reach_inv_def spool_inv_def survives_in_def)
  have same: "x = c" if "cm_batch_id x = cm_batch_id c"
    using pending_lookup [OF wf assms(2)] pending_lookup [OF wf assms(6)] that by simp
  have op: "turn_op t c ?res \<noteq> None" and w': "view w' = (if result_class_of ?res = ResultQuarantine
      then view_quarantine (quarantined_of t c (fst ?res)) (view w) else view_remove (cm_batch_id c) (view w))"
    using v assms(6,7) by (auto simp: view_def split: if_splits)
  have gone: "cm_batch_id x = cm_batch_id c"
    using arg_cong [OF w', of v_pending] assms(6,7)
    by (auto simp: view_def view_remove_def view_quarantine_def quarantined_of_def split: if_splits)
  have cls: "result_class_of ?res \<in> {ResultAccepted, ResultDuplicate} \<or> result_class_of ?res = ResultQuarantine"
    using op by (auto simp: turn_op_def split: if_splits)
  then show ?thesis
  proof
    assume "result_class_of ?res \<in> {ResultAccepted, ResultDuplicate}"
    from send_accepts [OF this] same [OF gone] show ?thesis by (auto split: if_splits)
  next
    assume q: "result_class_of ?res = ResultQuarantine"
    have "wal_quarantined w' = wal_quarantined w @ [quarantined_of t c (fst ?res)]"
      using arg_cong [OF w', of v_quarantined] q by (simp add: view_def view_quarantine_def)
    with send_quarantines [OF q] same [OF gone] show ?thesis by auto
  qed
qed

theorem batch_leaves_only_answered_witness:
  "\<exists>e st' w'. deliver demo_options (demo_turn 5) demo_commit
       (send (\<lambda>_. None) (cm_payload demo_commit) (Responds 200 [] demo_ack) 5) (fresh_dispatcher, demo_spooled) = (e, st', w') \<and>
     demo_commit \<notin> set (wal_pending w') \<and>
     (\<exists>a. decode_acknowledgement demo_ack = Some a \<and> payload_batch_id (cm_payload demo_commit) = Some (ak_batch_id a))"
proof -
  let ?res = "send (\<lambda>_. None) (cm_payload demo_commit) (Responds 200 [] demo_ack) 5"
  have c: "result_class_of ?res = ResultAccepted" by code_simp
  obtain w' where ack: "wal_ack False IoOk CompactOk (cm_batch_id demo_commit) demo_spooled = (w', Inr ())"
    using ack_succeeds [of demo_spooled demo_commit] demo_spooled by auto
  then have d: "deliver demo_options (demo_turn 5) demo_commit ?res (fresh_dispatcher, demo_spooled) =
      (None, forget (cm_batch_id demo_commit) fresh_dispatcher, w')"
    using c by (simp add: deliver_def demo_turn_def)
  have io: "io_recovers (tn_io (demo_turn 5))" by (simp add: demo_turn_def io_recovers_def)
  have q: "quarantine_fits (w_max_record demo_spooled) (quarantine_record_of (demo_turn 5) demo_commit (fst ?res))"
  proof -
    let ?r = "quarantine_record_of (demo_turn 5) demo_commit (fst ?res)"
    have "quarantine_good ?r \<and> (case quarantine_json ?r of None \<Rightarrow> False | Some b \<Rightarrow> length b < 1000)" by code_simp
    then show ?thesis by (auto simp: quarantine_fits_def option_list_def demo_spooled(5) split: option.splits)
  qed
  have "view w' = view_remove (cm_batch_id demo_commit) (view demo_spooled)"
    using turn_op_effect [OF demo_spooled(1) _ d io] c demo_spooled(2) by (simp add: turn_op_def demo_turn_def)
  then have gone: "demo_commit \<notin> set (wal_pending w')" by (auto simp: view_def view_remove_def)
  have "demo_commit \<in> set (wal_pending demo_spooled)" by (simp add: demo_spooled(2))
  from batch_leaves_only_answered [OF demo_spooled(1) this d io q this gone] d gone show ?thesis
    by (auto simp: demo_ack_def)
qed

text \<open>
  C18. When the server accepts and the spool works, as many turns as there are pending batches empty the queue,
  without an error; nothing goes to quarantine. Batches that were blocked count when their delay is over.
\<close>

theorem dispatcher_drains:
  assumes "spool_reach cf w" "\<not> w_closed w" "accepts answer" "\<forall>t \<in> set ts. turn_ok start t" "length ts = length (wal_pending w)"
    "\<forall>i t. fmlookup (dp_blocked_until st) i = Some t \<longrightarrow> t \<le> start"
  shows "\<exists>st' w'. run_turns opts answer ts (st, w) = (None, st', w') \<and> spool_reach cf w' \<and> \<not> w_closed w' \<and>
    wal_pending w' = [] \<and> wal_quarantined w' = wal_quarantined w"
  by (rule drained [OF assms])

theorem dispatcher_drains_witness:
  "\<exists>st' w'. run_turns demo_options (\<lambda>p. send (\<lambda>_. None) (cm_payload demo_commit) (Responds 200 [] demo_ack) 5) [demo_turn 5]
     (fresh_dispatcher, demo_spooled) = (None, st', w') \<and> wal_pending w' = []"
proof -
  let ?answer = "\<lambda>p :: bytes. send (\<lambda>_. None) (cm_payload demo_commit) (Responds 200 [] demo_ack) 5"
  have "result_class_of (send (\<lambda>_. None) (cm_payload demo_commit) (Responds 200 [] demo_ack) 5) = ResultAccepted" by code_simp
  then have "accepts ?answer" by (simp add: accepts_def)
  moreover have "\<forall>t \<in> set [demo_turn 5]. turn_ok 5 t" by (simp add: turn_ok_def demo_turn_def)
  ultimately show ?thesis
    using dispatcher_drains [OF demo_spooled(1,3), of ?answer "[demo_turn 5]" 5 fresh_dispatcher demo_options] demo_spooled(2)
    by (auto simp: fresh_dispatcher_def)
qed

text \<open>
  The delay before attempt \<open>n\<close> is \<open>base * 2 ^ (n - 1)\<close> up to the maximum, computed without overflow; with
  jitter it stays between 0 and the maximum.
\<close>

theorem backoff_exact:
  assumes "0 < base" "base \<le> maximum" "maximum < 2 ^ 63"
  shows "backoff attempt base maximum None = min maximum (base * 2 ^ nat (max 1 attempt - 1)) \<and>
    (\<forall>f. 0 \<le> backoff attempt base maximum (Some f) \<and> backoff attempt base maximum (Some f) \<le> maximum)"
proof -
  have "(if attempt < 1 then 1 else attempt) = max 1 attempt" by (simp add: max_def)
  then have "backoff attempt base maximum None = min maximum (base * 2 ^ nat (max 1 attempt - 1))"
    by (simp add: backoff_def Let_def backoff_loop_min [OF assms] min_def)
  then show ?thesis using backoff_range [OF assms] by simp
qed

theorem backoff_exact_witness:
  "backoff 5 second (60 * second) None = 16 * second \<and> backoff 9 second (60 * second) None = 60 * second"
proof -
  have "0 < second" "second \<le> 60 * second" "60 * second < 2 ^ 63" by (simp_all add: second_def)
  from backoff_exact [OF this, of 5] backoff_exact [OF this, of 9] show ?thesis by (simp add: second_def)
qed

text \<open>
  \<open>nextPending\<close> takes the first batch of the queue whose delay is over, so that a blocked batch does not hold up
  those behind it; when all wait it takes none and says how long the first of them still has to wait.
\<close>

theorem next_pending_fair:
  assumes "zero_time \<le> now"
  shows "case next_pending blocked now w of
      (Some c, d) \<Rightarrow> d = 0 \<and> (\<exists>xs ys. wal_pending w = xs @ c # ys \<and> (\<forall>x \<in> set xs. waits blocked now x) \<and> \<not> waits blocked now c)
    | (None, d) \<Rightarrow> (\<forall>x \<in> set (wal_pending w). waits blocked now x) \<and>
        (wal_pending w \<noteq> [] \<longrightarrow> (\<exists>x \<in> set (wal_pending w). \<exists>t. fmlookup blocked (cm_batch_id x) = Some t \<and> d = time_sub t now \<and>
           (\<forall>y \<in> set (wal_pending w). \<forall>u. fmlookup blocked (cm_batch_id y) = Some u \<longrightarrow> t \<le> u)))"
proof -
  obtain r d where n: "next_pending blocked now w = (r, d)" by fastforce
  show ?thesis
  proof (cases r)
    case (Some c)
    with n next_pending_Some [of blocked now w c d] show ?thesis by simp
  next
    case None
    show ?thesis
    proof (cases "wal_pending w = []")
      case False
      then have "blocked \<noteq> fmempty" using n None by (auto simp: next_pending_def wal_peek_hd split: list.splits)
      with n None False have s: "scan_pending blocked now zero_time (wal_pending w) = (None, d)" by (simp add: next_pending_def)
      have z: "is_zero zero_time" by (simp add: is_zero_def)
      from scan_pending_None [OF s assms] z False n None show ?thesis by auto
    qed (use n None in simp)
  qed
qed

theorem next_pending_fair_witness:
  "next_pending (fmupd ''b1'' 9 fmempty) 5 demo_spooled = (None, 4)"
proof -
  obtain r d where n: "next_pending (fmupd ''b1'' 9 fmempty) 5 demo_spooled = (r, d)" by fastforce
  have "time_sub 9 5 = 4" "cm_batch_id demo_commit = ''b1''" by code_simp (simp add: demo_commit_def)
  with next_pending_fair [where now = 5 and blocked = "fmupd ''b1'' 9 fmempty" and w = demo_spooled] n demo_spooled(2) show ?thesis
    by (cases r) (auto simp: zero_time_def waits_def Cons_eq_append_conv)
qed

section \<open>Control\<close>

text \<open>A key of the snapshot has one pipeline.\<close>

lemma collect_control_known:
  "collect_control ps m = Inr m' \<Longrightarrow> fmlookup m i = Some c \<Longrightarrow>
     fmlookup m' i = Some c \<and> (\<forall>p \<in> set ps. trim_space (pc_id p) \<noteq> i)"
proof (induction ps arbitrary: m)
  case (Cons p ps)
  let ?k = "trim_space (pc_id p)"
  from Cons.prems have "fmlookup m ?k = None" and rest: "collect_control ps (fmupd ?k (p\<lparr>pc_id := ?k\<rparr>) m) = Inr m'"
    by (auto simp: Let_def split: if_splits)
  with Cons.prems(2) have "?k \<noteq> i" by auto
  with Cons.IH [OF rest] Cons.prems(2) show ?case by simp
qed simp

lemma collect_control_members:
  assumes "\<And>p. Q (p\<lparr>pc_id := i\<rparr>) = Q p"
  shows "collect_control ps m = Inr m' \<Longrightarrow> fmlookup m i = None \<Longrightarrow>
    (\<exists>c. fmlookup m' i = Some c \<and> Q c) \<longleftrightarrow> (\<exists>p \<in> set ps. trim_space (pc_id p) = i \<and> Q p)"
proof (induction ps arbitrary: m)
  case (Cons p ps)
  let ?k = "trim_space (pc_id p)"
  from Cons.prems have rest: "collect_control ps (fmupd ?k (p\<lparr>pc_id := ?k\<rparr>) m) = Inr m'"
    by (auto simp: Let_def split: if_splits)
  show ?case
  proof (cases "?k = i")
    case True
    with collect_control_known [OF rest, of i "p\<lparr>pc_id := i\<rparr>"] assms [of p] show ?thesis by auto
  next
    case False
    with Cons.IH [OF rest] Cons.prems(2) show ?thesis by auto
  qed
qed simp

text \<open>
  After a snapshot of the server was applied, a pipeline that has not failed may read exactly when the snapshot
  lists it, enabled and with the configuration version of the agent. It is reported as running exactly when it
  may read and is active; a snapshot that is refused changes nothing.
\<close>

theorem control_gate:
  assumes "apply_snapshot snap s = (e, s')" "fmlookup (ps_local_version s) i = Some v" "failure_of s i = []"
  shows "(e \<noteq> None \<longrightarrow> s' = s) \<and>
    (e = None \<longrightarrow> ps_changed s' = ps_changed s + 1 \<and>
       (wait_until_runnable i s' = GateOpen \<longleftrightarrow>
          (\<exists>p \<in> set snap. trim_space (pc_id p) = i \<and> pc_desired_status p = ''enabled'' \<and> pc_config_version p = v))) \<and>
    (fst (report_locked s' i) = ''running'' \<longleftrightarrow> wait_until_runnable i s' = GateOpen \<and> i |\<in>| ps_active s)"
proof (cases "collect_control snap fmempty")
  case (Inl x)
  with assms report_running [of s i] show ?thesis
    by (auto simp: apply_snapshot_def wait_until_runnable_def)
next
  case (Inr m)
  with assms(1) have s': "e = None" "s' = signal_locked (s\<lparr>ps_desired := m, ps_control_known := True\<rparr>)"
    by (simp_all add: apply_snapshot_def)
  have f: "failure_of s' i = []" "local_version_of s' i = v" "ps_active s' = ps_active s" "fmlookup (ps_local_version s') i = Some v"
    using assms(2,3) by (simp_all add: s' signal_locked_def failure_of_def local_version_of_def)
  have "wait_until_runnable i s' = GateOpen \<longleftrightarrow>
      (\<exists>c. fmlookup m i = Some c \<and> pc_desired_status c = ''enabled'' \<and> pc_config_version c = v)"
    using f by (auto simp: wait_until_runnable_def runnable_locked_def s' signal_locked_def split: option.split)
  also have "\<dots> \<longleftrightarrow> (\<exists>p \<in> set snap. trim_space (pc_id p) = i \<and> pc_desired_status p = ''enabled'' \<and> pc_config_version p = v)"
    using Inr by (intro collect_control_members [where m = fmempty]) simp_all
  finally show ?thesis
    using report_running [of s' i] f by (auto simp: s' wait_until_runnable_def signal_locked_def)
qed

theorem control_gate_witness:
  "\<exists>s e s'. new_pipeline_state [(''p1'', 1), (''p2'', 1)] = Inr s \<and>
     apply_snapshot [\<lparr>pc_id = '' p2 '', pc_desired_status = ''enabled'', pc_config_version = 1\<rparr>] s = (e, s') \<and>
     e = None \<and> wait_until_runnable ''p2'' s' = GateOpen"
proof -
  let ?snap = "[\<lparr>pc_id = '' p2 '', pc_desired_status = ''enabled'', pc_config_version = 1\<rparr>]"
  define s where "s = \<lparr>ps_order = [''p1'', ''p2''], ps_local_version = fmupd ''p2'' 1 (fmupd ''p1'' 1 fmempty), ps_desired = fmempty,
    ps_control_known = False, ps_active = {||}, ps_failures = fmempty, ps_changed = 0\<rparr>"
  have trim: "trim_space ''p1'' = ''p1''" "trim_space ''p2'' = ''p2''" "trim_space '' p2 '' = ''p2''" by code_simp+
  then have n: "new_pipeline_state [(''p1'', 1), (''p2'', 1)] = Inr s"
    by (simp add: new_pipeline_state_def empty_pipeline_state_def s_def Let_def)
  obtain e s' where a: "apply_snapshot ?snap s = (e, s')" by fastforce
  then have e: "e = None" using trim by (auto simp: apply_snapshot_def valid_desired_status_def Let_def)
  have "fmlookup (ps_local_version s) ''p2'' = Some 1" "failure_of s ''p2'' = []" by (simp_all add: s_def failure_of_def)
  from control_gate [OF a this] e trim have "wait_until_runnable ''p2'' s' = GateOpen" by simp
  with n a e show ?thesis by blast
qed

end
