(* ===== verification/Query_Cursor.thy ===== *)
theory Query_Cursor
  imports Store_Logs Server_Auth Go_Encoding Go_Crypto
begin

text \<open>
  The request side of the query service (\<open>internal/server/query/service.go\<close>): the parameters of a search and the
  query built from them, the fingerprint of its filters, and the cursors of its pages. A cursor is a signed JSON
  object that names the project, the fingerprint and the position of the last entry that was shown.
\<close>

section \<open>Configuration and parameters\<close>

record query_config =
  qk_max_range :: duration
  qk_execution_timeout :: duration
  qk_default_limit :: int
  qk_max_limit :: int
  qk_max_filter_items :: int
  qk_max_filter_bytes :: int
  qk_max_message_bytes :: int

definition default_query_config :: query_config where
  "default_query_config =
     \<lparr>qk_max_range = 7 * 24 * 3600 * second, qk_execution_timeout = 10 * second, qk_default_limit = 100, qk_max_limit = 500,
      qk_max_filter_items = 32, qk_max_filter_bytes = 128, qk_max_message_bytes = 512\<rparr>"

record params =
  pm_from :: string
  pm_to :: string
  pm_services :: "string list"
  pm_hosts :: "string list"
  pm_levels :: "string list"
  pm_message :: string
  pm_limit :: int
  pm_cursor :: string

section \<open>From parameters to a query\<close>

text \<open>The year that \<open>Year()\<close> gives is the one of the text, in its own zone.\<close>

definition parse_time :: "string \<Rightarrow> time option" where
  "parse_time raw =
     (if blank raw then None
      else (case time_parse raw of
              None \<Rightarrow> None
            | Some t \<Rightarrow> let year = dec_nat (take 4 raw) in if year < 1970 \<or> year > 9999 then None else Some t))"

fun normalize_values :: "(string \<Rightarrow> string) \<Rightarrow> int \<Rightarrow> bool \<Rightarrow> string list \<Rightarrow> string list option" where
  "normalize_values umap max_bytes upper [] = Some []"
| "normalize_values umap max_bytes upper (v # vs) =
     (let w = trim_space v; x = (if upper then to_upper umap w else w)
      in if x = [] \<or> \<not> valid_utf8 x \<or> CHR 0x00 \<in> set x \<or> int (length x) > max_bytes then None
         else map_option (\<lambda>xs. x # xs) (normalize_values umap max_bytes upper vs))"

definition normalize_filter :: "(string \<Rightarrow> string) \<Rightarrow> string list \<Rightarrow> int \<Rightarrow> int \<Rightarrow> bool \<Rightarrow> string list option" where
  "normalize_filter umap vs max_items max_bytes upper =
     (if int (length vs) > max_items then None
      else map_option (\<lambda>xs. sort (remdups xs)) (normalize_values umap max_bytes upper vs))"

definition filter_text :: "entry_query \<Rightarrow> string" where
  "filter_text q =
     jobj [(''from'', quote (time_format (eq_from q))), (''to'', quote (time_format (eq_to q))),
           (''services'', jarr (map quote (eq_services q))), (''hosts'', jarr (map quote (eq_hosts q))),
           (''levels'', jarr (map quote (eq_levels q))), (''message'', quote (eq_message q))]"

definition query_filter_hash :: "entry_query \<Rightarrow> bytes" where
  "query_filter_hash q = sha256 (filter_text q)"

definition build_query ::
  "(string \<Rightarrow> string) \<Rightarrow> query_config \<Rightarrow> uuid \<Rightarrow> params \<Rightarrow> server_error + (entry_query \<times> bytes)" where
  "build_query umap cfg project p =
     (case (parse_time (pm_from p), parse_time (pm_to p)) of
        (Some from, Some to) \<Rightarrow>
          if \<not> from < to \<or> time_sub to from > qk_max_range cfg then Inl InvalidTimeRange
          else
            let size = (if pm_limit p = 0 then qk_default_limit cfg else pm_limit p)
            in if size < 1 \<or> size > qk_max_limit cfg then Inl InvalidLimit
               else (case (normalize_filter umap (pm_services p) (qk_max_filter_items cfg) (qk_max_filter_bytes cfg) False,
                           normalize_filter umap (pm_hosts p) (qk_max_filter_items cfg) (qk_max_filter_bytes cfg) False,
                           normalize_filter umap (pm_levels p) (qk_max_filter_items cfg) (qk_max_filter_bytes cfg) True) of
                       (Some services, Some hosts, Some levels) \<Rightarrow>
                         let message = trim_space (pm_message p)
                         in if \<not> valid_utf8 message \<or> CHR 0x00 \<in> set message \<or> int (length message) > qk_max_message_bytes cfg
                              then Inl InvalidFilter
                            else
                              let q = \<lparr>eq_project_id = project, eq_from = from, eq_to = to, eq_services = services,
                                       eq_hosts = hosts, eq_levels = levels, eq_message = message, eq_cursor = None,
                                       eq_limit = size\<rparr>
                              in (case validate_query q (qk_max_range cfg) (qk_max_limit cfg) of
                                    Some e \<Rightarrow> Inl (Domain e)
                                  | None \<Rightarrow> Inr (q, query_filter_hash q))
                     | _ \<Rightarrow> Inl InvalidFilter)
      | _ \<Rightarrow> Inl InvalidTimeRange)"

section \<open>Cursors\<close>

definition new_cursor_codec :: "bytes \<Rightarrow> server_error + bytes" where
  "new_cursor_codec secret = (if length secret < 16 then Inl (Internal ''cursor secret'') else Inr secret)"

record cursor_payload =
  cu_version :: int
  cu_project_id :: string
  cu_filter_hash :: string
  cu_observed_at :: string
  cu_id :: int

definition cursor_payload_json :: "cursor_payload \<Rightarrow> string" where
  "cursor_payload_json c =
     jobj [(''v'', int_dec (cu_version c)), (''project_id'', quote (cu_project_id c)),
           (''filter_hash'', quote (cu_filter_hash c)), (''observed_at'', quote (cu_observed_at c)), (''id'', int_dec (cu_id c))]"

definition encode_cursor :: "bytes \<Rightarrow> uuid \<Rightarrow> bytes \<Rightarrow> entry_cursor \<Rightarrow> server_error + string" where
  "encode_cursor secret project hash pos =
     (if \<not> valid_uuid project \<or> is_zero (ec_observed_at pos) \<or> ec_id pos \<le> 0 then Inl InvalidCursor
      else let encoded = cursor_payload_json
                 \<lparr>cu_version = 1, cu_project_id = project, cu_filter_hash = hex_text hash,
                  cu_observed_at = time_format (ec_observed_at pos), cu_id = ec_id pos\<rparr>
           in Inr (b64_encode encoded @ ''.'' @ b64_encode (hmac_sha256 secret encoded)))"

definition cursor_fields :: "string list" where
  "cursor_fields = [''v'', ''project_id'', ''filter_hash'', ''observed_at'', ''id'']"

definition set_cursor_field :: "string \<Rightarrow> string \<Rightarrow> json \<Rightarrow> cursor_payload \<Rightarrow> cursor_payload option" where
  "set_cursor_field n t v c =
     (if n = ''v'' then map_option (\<lambda>x. c\<lparr>cu_version := x\<rparr>) (dec_int v (cu_version c))
      else if n = ''project_id'' then map_option (\<lambda>x. c\<lparr>cu_project_id := x\<rparr>) (dec_string v (cu_project_id c))
      else if n = ''filter_hash'' then map_option (\<lambda>x. c\<lparr>cu_filter_hash := x\<rparr>) (dec_string v (cu_filter_hash c))
      else if n = ''observed_at'' then map_option (\<lambda>x. c\<lparr>cu_observed_at := x\<rparr>) (dec_string v (cu_observed_at c))
      else map_option (\<lambda>x. c\<lparr>cu_id := x\<rparr>) (dec_int v (cu_id c)))"

definition zero_cursor_payload :: cursor_payload where
  "zero_cursor_payload = \<lparr>cu_version = 0, cu_project_id = [], cu_filter_hash = [], cu_observed_at = [], cu_id = 0\<rparr>"

definition dec_cursor_payload :: "json \<Rightarrow> cursor_payload \<Rightarrow> cursor_payload option" where
  "dec_cursor_payload = dec_struct True cursor_fields set_cursor_field"

text \<open>The two calls of \<open>Decode\<close>: one value, then the end of the input.\<close>

definition read_cursor_payload :: "bytes \<Rightarrow> cursor_payload option" where
  "read_cursor_payload payload =
     (case json_first payload of
        None \<Rightarrow> None
      | Some (v, rest) \<Rightarrow>
          (case dec_cursor_payload v zero_cursor_payload of
             None \<Rightarrow> None
           | Some c \<Rightarrow> if skip_ws rest \<noteq> [] then None else Some c))"

definition decode_cursor :: "bytes \<Rightarrow> string \<Rightarrow> uuid \<Rightarrow> bytes \<Rightarrow> server_error + entry_cursor" where
  "decode_cursor secret raw project hash =
     (if length raw > 2048 \<or> count_list raw (CHR ''.'') \<noteq> 1 then Inl InvalidCursor
      else (case str_cut (CHR ''.'') raw of
              None \<Rightarrow> Inl InvalidCursor
            | Some (payload_part, mac_part) \<Rightarrow>
                (case b64_decode payload_part of
                   None \<Rightarrow> Inl InvalidCursor
                 | Some payload \<Rightarrow>
                     if length payload > 1024 then Inl InvalidCursor
                     else (case b64_decode mac_part of
                             None \<Rightarrow> Inl InvalidCursor
                           | Some mac \<Rightarrow>
                               if length mac \<noteq> 32 \<or> mac \<noteq> hmac_sha256 secret payload then Inl InvalidCursor
                               else (case read_cursor_payload payload of
                                       None \<Rightarrow> Inl InvalidCursor
                                     | Some c \<Rightarrow>
                                         if cu_version c \<noteq> 1 \<or> cu_project_id c \<noteq> project \<or>
                                            cu_filter_hash c \<noteq> hex_text hash \<or> cu_id c \<le> 0 then Inl InvalidCursor
                                         else (case time_parse (cu_observed_at c) of
                                                 None \<Rightarrow> Inl InvalidCursor
                                               | Some t \<Rightarrow> Inr \<lparr>ec_observed_at = t, ec_id = cu_id c\<rparr>))))))"

section \<open>The codec of a payload\<close>

definition cursor_good :: "cursor_payload \<Rightarrow> bool" where
  "cursor_good c \<longleftrightarrow> valid_utf8 (cu_project_id c) \<and> valid_utf8 (cu_filter_hash c) \<and> valid_utf8 (cu_observed_at c) \<and>
     in_int64 (cu_version c) \<and> in_int64 (cu_id c)"

interpretation cursor_codec: json_codec "\<lambda>c. Some (cursor_payload_json c)" read_cursor_payload cursor_good
proof
  fix c :: cursor_payload and body
  assume good: "cursor_good c" and body: "Some (cursor_payload_json c) = Some body"
  define fs where "fs = [(''v'', int_dec (cu_version c)), (''project_id'', quote (cu_project_id c)),
    (''filter_hash'', quote (cu_filter_hash c)), (''observed_at'', quote (cu_observed_at c)), (''id'', int_dec (cu_id c))]"
  define vs where "vs = [JNum (int_dec (cu_version c)), JStr (quote_body (cu_project_id c)),
    JStr (quote_body (cu_filter_hash c)), JStr (quote_body (cu_observed_at c)), JNum (int_dec (cu_id c))]"
  have "list_all2 (\<lambda>f v. renders (snd f) v) fs vs" by (simp add: fs_def vs_def)
  from renders_json_first [OF json_parse_jobj(2) [OF this]] body
  have "json_first body = Some (JObj (map2 (\<lambda>f v. (quote_body (fst f), snd f, v)) fs vs), [])"
    by (simp add: cursor_payload_json_def fs_def)
  moreover have "dec_cursor_payload (JObj (map2 (\<lambda>f v. (quote_body (fst f), snd f, v)) fs vs)) zero_cursor_payload = Some c"
    using good
    by (simp add: dec_cursor_payload_def dec_struct_def fs_def vs_def cursor_fields_def set_cursor_field_def cursor_good_def
        zero_cursor_payload_def del: dec_members.simps(2))
  ultimately show "read_cursor_payload body = Some c" by (simp add: read_cursor_payload_def)
qed simp

section \<open>Round trip of a cursor\<close>

lemma html_safe_uuid: "valid_uuid s \<Longrightarrow> list_all html_safe s"
  by (auto simp: valid_uuid_def list_all_length nth_enumerate_eq uuid_char_def is_hex_def is_digit_def html_safe_def
      split: prod.splits if_splits)

lemma html_safe_hex [simp]: "list_all html_safe (hex_encode bs)"
proof -
  have "html_safe (hex_char n)" for n by (rule hex_char_all) code_simp
  then show ?thesis by (induction bs) (simp_all add: hex_encode_def)
qed

lemma length_quote_safe: "list_all html_safe s \<Longrightarrow> length (quote s) = length s + 2"
  by (simp add: quote_def quote_body_html_safe)

lemma length_int_dec: "in_int64 n \<Longrightarrow> length (int_dec n) \<le> 20"
proof -
  assume "in_int64 n"
  then have "nat n < 10 ^ 19" "nat (- n) < 10 ^ 19" by (auto simp: in_int64_def)
  then show ?thesis using length_nat_dec [of 19] by (fastforce simp: int_dec_def)
qed

lemma length_time_format:
  assumes "time_text_ok t"
  shows "length (time_format t) \<le> 30"
proof -
  obtain y m d where c: "civil_of_days (t div day_ns) = (y, m, d)" by (cases "civil_of_days (t div day_ns)")
  note v = civil_of_days_valid [OF c]
  have dim: "days_in y m \<le> 31" by (simp add: days_in_def)
  have pad2: "length (pad_nat 2 n) = 2" if "n < 100" for n using that length_pad_nat [of 2 n] by simp
  have md: "length (pad_nat 2 (nat m)) = 2" "length (pad_nat 2 (nat d)) = 2" 
    using v dim by (auto intro!: pad2)
  have y: "0 \<le> y" "y \<le> 9999" using assms c by (simp_all add: time_text_ok_def year_of_def)
  then have yy: "length (pad_nat 4 (nat \<bar>y\<bar>)) = 4" using length_pad_nat [of 4 "nat \<bar>y\<bar>"] by simp
  define sod where "sod = nat (t mod day_ns div 1000000000)"
  define ns where "ns = nat (t mod day_ns mod 1000000000)"
  have "t mod day_ns < 86400 * 1000000000" by (simp add: day_ns_def)
  then have "t mod day_ns div 1000000000 < 86400" by linarith
  then have sod: "sod < 86400" by (simp add: sod_def)
  have "sod div 3600 < 100" "sod mod 3600 div 60 < 100" "sod mod 60 < 100" using sod by linarith+
  then have hms: "length (pad_nat 2 (sod div 3600)) = 2" "length (pad_nat 2 (sod mod 3600 div 60)) = 2" 
     "length (pad_nat 2 (sod mod 60)) = 2" by (simp_all only: pad2)
  obtain k where "length (trim_zeros (pad_nat 9 ns)) + k = length (pad_nat 9 ns)" by (rule trim_zeros_append)
  moreover have "ns < 10 ^ 9" by (simp add: ns_def)
  ultimately have f: "length (frac_text ns) \<le> 10" using length_pad_nat [of 9 ns] by (simp add: frac_text_def)
  have "time_format t = pad_nat 4 (nat \<bar>y\<bar>) @ ''-'' @ pad_nat 2 (nat m) @ ''-'' @ pad_nat 2 (nat d) @ ''T'' @
         pad_nat 2 (sod div 3600) @ '':'' @ pad_nat 2 (sod mod 3600 div 60) @ '':'' @ pad_nat 2 (sod mod 60) @
         frac_text ns @ ''Z''"
    using y by (simp add: time_format_def c Let_def sod_def ns_def)
  then show ?thesis using md yy hms f by simp
qed

definition position_ok :: "entry_cursor \<Rightarrow> bool" where
  "position_ok pos \<longleftrightarrow> \<not> is_zero (ec_observed_at pos) \<and> time_text_ok (ec_observed_at pos) \<and> 0 < ec_id pos \<and> in_int64 (ec_id pos)"

lemma count_list_none: "c \<notin> set s \<Longrightarrow> count_list s c = 0"
  by (induction s) auto

text \<open>What a cursor that was issued for a project and a fingerprint says under another project or fingerprint.\<close>

lemma decode_encode_cursor:
  assumes "valid_uuid project" "length hash = 32" "position_ok pos"
  shows "\<exists>raw. encode_cursor secret project hash pos = Inr raw \<and> raw \<noteq> [] \<and>
     (\<forall>project' hash'. decode_cursor secret raw project' hash' =
        (if project' = project \<and> hash' = hash then Inr pos else Inl InvalidCursor))"
proof -
  define c where "c = \<lparr>cu_version = 1, cu_project_id = project, cu_filter_hash = hex_text hash,
    cu_observed_at = time_format (ec_observed_at pos), cu_id = ec_id pos\<rparr>"
  define payload where "payload = cursor_payload_json c"
  define raw where "raw = b64_encode payload @ ''.'' @ b64_encode (hmac_sha256 secret payload)"
  have pos: "\<not> is_zero (ec_observed_at pos)" "time_text_ok (ec_observed_at pos)" "0 < ec_id pos" "in_int64 (ec_id pos)"
    using assms(3) by (simp_all add: position_ok_def)
  have good: "cursor_good c"
    using valid_utf8_ascii valid_uuid_ascii [OF assms(1)] is_ascii_time_format pos(4)
    by (simp add: cursor_good_def c_def in_int64_def)
  have read: "read_cursor_payload payload = Some c" by (rule cursor_codec.dec_enc [OF good]) (simp add: payload_def)
  have len: "length payload \<le> 300"
    using length_time_format [OF pos(2)] length_int_dec [OF pos(4)] length_int_dec [of 1] assms(1,2)
    by (simp add: payload_def cursor_payload_json_def c_def jobj_def jfield_def length_quote_safe html_safe_uuid
        html_safe_time_format hex_text_def valid_uuid_def in_int64_def html_safe_def quote_def [of "_ # _"] quote_body_html_safe)
  have enc: "encode_cursor secret project hash pos = Inr raw"
    using assms(1) pos by (simp add: encode_cursor_def Let_def raw_def payload_def c_def)
  have one: "count_list raw (CHR ''.'') = 1"
    by (simp add: raw_def count_list_append count_list_none b64_encode_no_dot)
  have cut: "str_cut (CHR ''.'') raw = Some (b64_encode payload, b64_encode (hmac_sha256 secret payload))"
    by (simp add: raw_def str_cut_append b64_encode_no_dot)
  have short: "length raw \<le> 2048" using len by (simp add: raw_def)
  have "decode_cursor secret raw project' hash' = (if project' = project \<and> hash' = hash then Inr pos else Inl InvalidCursor)"
    for project' hash'
    using short one cut len read pos
    by (auto simp: decode_cursor_def c_def time_parse_format dest: hex_text_inj)
  moreover have "raw \<noteq> []" by (simp add: raw_def)
  ultimately show ?thesis using enc by blast
qed

text \<open>What \<open>Decode\<close> accepts was signed with the secret and names the project and the fingerprint.\<close>

lemma decode_cursor_signed:
  assumes "decode_cursor secret raw project hash = Inr pos"
  obtains payload c a b where "raw = a @ CHR ''.'' # b" "b64_decode a = Some payload"
    "b64_decode b = Some (hmac_sha256 secret payload)" "read_cursor_payload payload = Some c"
    "cu_project_id c = project" "cu_filter_hash c = hex_text hash" "cu_id c = ec_id pos" "0 < ec_id pos"
    "time_parse (cu_observed_at c) = Some (ec_observed_at pos)"
  using assms
  by (auto simp: decode_cursor_def split: if_splits option.splits dest!: str_cut_SomeD)

end
