(* ===== verification/Query_Limiter.thy ===== *)
theory Query_Limiter
  imports Server_Errors "HOL-Library.Multiset"
begin

text \<open>
  The limiter of concurrent queries (\<open>internal/server/bootstrap/limiter.go\<close>): one semaphore per project that has
  callers, created by the first and deleted by the last. A semaphore is an address in a heap, since a caller keeps
  its pointer while others look the project up. The operations are the atomic parts of the code: the two sections
  under the mutex, and the send and the receive on the channel. \<open>limiter_reach\<close> lets any number of callers run them
  in any order.
\<close>

section \<open>State and atomic parts\<close>

record semaphore =
  sm_tokens :: nat
  sm_users :: nat

record project_limiter =
  pl_capacity :: nat
  pl_projects :: "uuid \<Rightarrow> nat option"
  pl_heap :: "nat \<Rightarrow> semaphore"
  pl_fresh :: nat

definition new_project_limiter :: "nat \<Rightarrow> project_limiter" where
  "new_project_limiter capacity =
     \<lparr>pl_capacity = capacity, pl_projects = (\<lambda>_. None), pl_heap = (\<lambda>_. \<lparr>sm_tokens = 0, sm_users = 0\<rparr>), pl_fresh = 0\<rparr>"

definition put_sem :: "nat \<Rightarrow> (semaphore \<Rightarrow> semaphore) \<Rightarrow> project_limiter \<Rightarrow> project_limiter" where
  "put_sem a f l = l\<lparr>pl_heap := (pl_heap l)(a := f (pl_heap l a))\<rparr>"

text \<open>The first section under the mutex: the semaphore of the project, with one more user.\<close>

definition enter :: "uuid \<Rightarrow> project_limiter \<Rightarrow> nat \<times> project_limiter" where
  "enter p l =
     (case pl_projects l p of
        Some a \<Rightarrow> (a, put_sem a (sm_users_update Suc) l)
      | None \<Rightarrow>
          let a = pl_fresh l
          in (a, l\<lparr>pl_projects := (pl_projects l)(p := Some a),
                  pl_heap := (pl_heap l)(a := \<lparr>sm_tokens = 0, sm_users = 1\<rparr>), pl_fresh := Suc a\<rparr>))"

text \<open>
  The \<open>select\<close>: the send can proceed while the channel has room, the other case when the context has ended; one of
  the cases that can proceed is taken (\<open>pick\<close> decides when both can), the default when none can.
\<close>

datatype selected_case = TokenTaken | ContextEnded driver_error | DefaultTaken

definition select_case :: "driver_error option \<Rightarrow> bool \<Rightarrow> nat \<Rightarrow> project_limiter \<Rightarrow> selected_case" where
  "select_case ctx_done pick a l =
     (if sm_tokens (pl_heap l a) < pl_capacity l \<and> (ctx_done = None \<or> pick) then TokenTaken
      else (case ctx_done of Some e \<Rightarrow> ContextEnded e | None \<Rightarrow> DefaultTaken))"

definition send_token :: "nat \<Rightarrow> project_limiter \<Rightarrow> project_limiter" where
  "send_token a = put_sem a (sm_tokens_update Suc)"

definition receive_token :: "nat \<Rightarrow> project_limiter \<Rightarrow> project_limiter" where
  "receive_token a = put_sem a (sm_tokens_update (\<lambda>n. n - 1))"

definition release_user :: "uuid \<Rightarrow> nat \<Rightarrow> project_limiter \<Rightarrow> project_limiter" where
  "release_user p a l =
     (let l' = put_sem a (sm_users_update (\<lambda>n. n - 1)) l
      in if sm_users (pl_heap l' a) = 0 \<and> sm_tokens (pl_heap l' a) = 0
           then l'\<lparr>pl_projects := (pl_projects l')(p := None)\<rparr> else l')"

section \<open>Calls that nothing interrupts\<close>

text \<open>\<open>Acquire\<close>; the handle is the semaphore that the returned function holds on to.\<close>

definition acquire ::
  "driver_error option \<Rightarrow> driver_error option \<Rightarrow> bool \<Rightarrow> uuid \<Rightarrow> project_limiter \<Rightarrow> (server_error + nat) \<times> project_limiter" where
  "acquire ctx_err ctx_done pick p l =
     (case ctx_err of
        Some e \<Rightarrow> (Inl (Driver e), l)
      | None \<Rightarrow>
          let (a, l1) = enter p l
          in (case select_case ctx_done pick a l1 of
                TokenTaken \<Rightarrow> (Inr a, send_token a l1)
              | ContextEnded e \<Rightarrow> (Inl (Driver e), release_user p a l1)
              | DefaultTaken \<Rightarrow> (Inl CapacityLimited, release_user p a l1)))"

definition release :: "uuid \<Rightarrow> nat \<Rightarrow> project_limiter \<Rightarrow> project_limiter" where
  "release p a l = release_user p a (receive_token a l)"

section \<open>Interleaved calls\<close>

text \<open>Where a caller is: in front of the \<open>select\<close>, with a token, or in front of \<open>releaseUser\<close>.\<close>

datatype caller = Waiting uuid nat | Holding uuid nat | Leaving uuid nat

primrec caller_project :: "caller \<Rightarrow> uuid" where
  "caller_project (Waiting p a) = p"
| "caller_project (Holding p a) = p"
| "caller_project (Leaving p a) = p"

primrec caller_sem :: "caller \<Rightarrow> nat" where
  "caller_sem (Waiting p a) = a"
| "caller_sem (Holding p a) = a"
| "caller_sem (Leaving p a) = a"

primrec is_holding :: "caller \<Rightarrow> bool" where
  "is_holding (Waiting p a) = False"
| "is_holding (Holding p a) = True"
| "is_holding (Leaving p a) = False"

type_synonym limiter_state = "project_limiter \<times> caller multiset"

inductive limiter_step :: "limiter_state \<Rightarrow> limiter_state \<Rightarrow> bool" where
  step_enter: "enter p l = (a, l') \<Longrightarrow> limiter_step (l, cs) (l', add_mset (Waiting p a) cs)"
| step_token: "select_case ctx_done pick a l = TokenTaken \<Longrightarrow>
    limiter_step (l, add_mset (Waiting p a) cs) (send_token a l, add_mset (Holding p a) cs)"
| step_refused: "select_case ctx_done pick a l \<noteq> TokenTaken \<Longrightarrow>
    limiter_step (l, add_mset (Waiting p a) cs) (l, add_mset (Leaving p a) cs)"
| step_release: "limiter_step (l, add_mset (Holding p a) cs) (receive_token a l, add_mset (Leaving p a) cs)"
| step_leave: "limiter_step (l, add_mset (Leaving p a) cs) (release_user p a l, cs)"

inductive limiter_reach :: "nat \<Rightarrow> limiter_state \<Rightarrow> bool" for capacity where
  reach_new: "limiter_reach capacity (new_project_limiter capacity, {#})"
| reach_step: "limiter_reach capacity st \<Longrightarrow> limiter_step st st' \<Longrightarrow> limiter_reach capacity st'"

definition holders :: "uuid \<Rightarrow> caller multiset \<Rightarrow> nat" where
  "holders p cs = size (filter_mset (\<lambda>c. caller_project c = p \<and> is_holding c) cs)"

section \<open>The invariant\<close>

definition at_sem :: "nat \<Rightarrow> caller multiset \<Rightarrow> caller multiset" where
  "at_sem a cs = filter_mset (\<lambda>c. caller_sem c = a) cs"

text \<open>The counters count the callers, a caller's semaphore is the one of its project, and no two projects share one.\<close>

definition sem_ok :: "nat \<Rightarrow> caller multiset \<Rightarrow> nat \<Rightarrow> semaphore \<Rightarrow> bool" where
  "sem_ok capacity cs a s \<longleftrightarrow>
     sm_users s = size (at_sem a cs) \<and> sm_tokens s = size (filter_mset is_holding (at_sem a cs)) \<and> sm_tokens s \<le> capacity"

definition limiter_inv :: "nat \<Rightarrow> limiter_state \<Rightarrow> bool" where
  "limiter_inv capacity st \<longleftrightarrow>
     (case st of (l, cs) \<Rightarrow>
        pl_capacity l = capacity \<and>
        (\<forall>a. sem_ok capacity cs a (pl_heap l a)) \<and>
        (\<forall>c \<in># cs. pl_projects l (caller_project c) = Some (caller_sem c)) \<and>
        (\<forall>p a. pl_projects l p = Some a \<longrightarrow> a < pl_fresh l \<and> at_sem a cs \<noteq> {#}) \<and>
        (\<forall>p q a. pl_projects l p = Some a \<longrightarrow> pl_projects l q = Some a \<longrightarrow> p = q))"

lemma put_sem_simps [simp]:
  "pl_capacity (put_sem a f l) = pl_capacity l" "pl_projects (put_sem a f l) = pl_projects l"
  "pl_fresh (put_sem a f l) = pl_fresh l" "pl_heap (put_sem a f l) b = (if b = a then f (pl_heap l a) else pl_heap l b)"
  by (simp_all add: put_sem_def)

lemma at_sem_simps [simp]:
  "at_sem a {#} = {#}" "at_sem a (add_mset c cs) = (if caller_sem c = a then add_mset c (at_sem a cs) else at_sem a cs)"
  by (simp_all add: at_sem_def)

lemma at_sem_empty_iff: "at_sem a cs = {#} \<longleftrightarrow> (\<forall>c \<in># cs. caller_sem c \<noteq> a)"
  by (auto simp: at_sem_def)

lemmas limiter_ops = select_case_def send_token_def receive_token_def release_user_def enter_def

lemma inv_enter:
  assumes "limiter_inv capacity (l, cs)" "enter p l = (a, l')"
  shows "limiter_inv capacity (l', add_mset (Waiting p a) cs)"
proof (cases "pl_projects l p")
  case None
  have fresh: "at_sem (pl_fresh l) cs = {#}"
    using assms(1) by (fastforce simp: limiter_inv_def at_sem_empty_iff)
  from assms None fresh show ?thesis
    by (auto simp: limiter_inv_def enter_def sem_ok_def Let_def less_Suc_eq split: if_splits)
next
  case (Some b)
  with assms show ?thesis by (auto simp: limiter_inv_def enter_def sem_ok_def split: if_splits)
qed

lemma inv_token:
  "limiter_inv capacity (l, add_mset (Waiting p a) cs) \<Longrightarrow> select_case ctx_done pick a l = TokenTaken \<Longrightarrow>
     limiter_inv capacity (send_token a l, add_mset (Holding p a) cs)"
  by (auto simp: limiter_inv_def limiter_ops sem_ok_def split: if_splits option.splits)

lemma inv_refused:
  "limiter_inv capacity (l, add_mset (Waiting p a) cs) \<Longrightarrow> limiter_inv capacity (l, add_mset (Leaving p a) cs)"
  by (auto simp: limiter_inv_def sem_ok_def split: if_splits)

lemma inv_release:
  "limiter_inv capacity (l, add_mset (Holding p a) cs) \<Longrightarrow>
     limiter_inv capacity (receive_token a l, add_mset (Leaving p a) cs)"
  by (auto simp: limiter_inv_def limiter_ops sem_ok_def split: if_splits) (meson Suc_leD)

lemma inv_leave:
  assumes "limiter_inv capacity (l, add_mset (Leaving p a) cs)"
  shows "limiter_inv capacity (release_user p a l, cs)"
proof -
  have own: "pl_projects l p = Some a" and inj: "\<And>q. pl_projects l q = Some a \<Longrightarrow> q = p"
    using assms by (auto simp: limiter_inv_def)
  have n: "sm_users (pl_heap l a) = Suc (size (at_sem a cs))"
      "sm_tokens (pl_heap l a) = size (filter_mset is_holding (at_sem a cs))"
    using assms by (auto simp: limiter_inv_def sem_ok_def)
  show ?thesis
  proof (cases "at_sem a cs = {#}")
    case True
    then have "\<And>c. c \<in># cs \<Longrightarrow> caller_sem c \<noteq> a" by (simp add: at_sem_empty_iff)
    moreover have "caller_project c \<noteq> p" if "c \<in># cs" for c
      using that calculation [OF that] own assms by (auto simp: limiter_inv_def)
    ultimately show ?thesis using assms n True inj
      by (auto simp: limiter_inv_def limiter_ops sem_ok_def Let_def split: if_splits) metis+
  next
    case False
    with assms n show ?thesis
      by (auto simp: limiter_inv_def limiter_ops sem_ok_def Let_def split: if_splits)
  qed
qed

lemma limiter_step_inv: "limiter_step st st' \<Longrightarrow> limiter_inv capacity st \<Longrightarrow> limiter_inv capacity st'"
  by (induction rule: limiter_step.induct) (auto intro: inv_enter inv_token inv_refused inv_release inv_leave)

lemma limiter_reach_inv: "limiter_reach capacity st \<Longrightarrow> limiter_inv capacity st"
proof (induction rule: limiter_reach.induct)
  case reach_new
  show ?case by (simp add: limiter_inv_def new_project_limiter_def sem_ok_def)
next
  case (reach_step st st')
  then show ?case by (blast intro: limiter_step_inv)
qed

text \<open>The tokens of a project's semaphore are held by its callers.\<close>

lemma holders_tokens:
  assumes "limiter_inv capacity (l, cs)" "pl_projects l p = Some a"
  shows "holders p cs = sm_tokens (pl_heap l a)"
proof -
  have "caller_project c = p \<longleftrightarrow> caller_sem c = a" if "c \<in># cs" for c
    using that assms by (auto simp: limiter_inv_def)
  then have "filter_mset (\<lambda>c. caller_project c = p \<and> is_holding c) cs = filter_mset is_holding (at_sem a cs)"
    by (auto simp: at_sem_def filter_filter_mset intro!: filter_mset_cong)
  with assms show ?thesis by (simp add: holders_def limiter_inv_def sem_ok_def)
qed

lemma holders_none:
  assumes "limiter_inv capacity (l, cs)" "pl_projects l p = None"
  shows "\<forall>c \<in># cs. caller_project c \<noteq> p" "holders p cs = 0"
proof -
  show none: "\<forall>c \<in># cs. caller_project c \<noteq> p" using assms by (auto simp: limiter_inv_def)
  then show "holders p cs = 0" by (auto simp: holders_def)
qed

section \<open>The contract of a gate\<close>

text \<open>
  What a client that brackets its work with \<open>Acquire\<close> and \<open>release\<close> relies on: \<open>ok s held\<close> says that in the state
  \<open>s\<close> the handles \<open>held\<close> are out. An operation is bracketed when it acquires, works and releases.
\<close>

locale capacity_gate =
  fixes acq :: "'c \<Rightarrow> uuid \<Rightarrow> 's \<Rightarrow> (server_error + 'h) \<times> 's"
    and rel :: "uuid \<Rightarrow> 'h \<Rightarrow> 's \<Rightarrow> 's"
    and ok :: "'s \<Rightarrow> (uuid \<times> 'h) multiset \<Rightarrow> bool"
    and bound :: nat
  assumes admitted: "ok s held \<Longrightarrow> acq c p s = (Inr h, s') \<Longrightarrow> ok s' (add_mset (p, h) held)"
    and refused: "ok s held \<Longrightarrow> acq c p s = (Inl e, s') \<Longrightarrow> ok s' held"
    and released: "ok s (add_mset (p, h) held) \<Longrightarrow> ok (rel p h s) held"
    and within: "ok s held \<Longrightarrow> size (filter_mset (\<lambda>x. fst x = p) held) \<le> bound"
begin

definition bracket :: "'c \<Rightarrow> uuid \<Rightarrow> ('t \<Rightarrow> (server_error + 'a) \<times> 't) \<Rightarrow> 's \<times> 't \<Rightarrow> (server_error + 'a) \<times> 's \<times> 't" where
  "bracket c p work st =
     (case acq c p (fst st) of
        (Inl e, s) \<Rightarrow> (Inl e, s, snd st)
      | (Inr h, s) \<Rightarrow> let (r, t) = work (snd st) in (r, rel p h s, t))"

text \<open>However the work ends, nothing stays held.\<close>

lemma bracket_returns:
  assumes "ok s held" "bracket c p work (s, t) = (r, s', t')"
  shows "ok s' held"
proof -
  obtain a s1 where a: "acq c p s = (a, s1)" by (cases "acq c p s")
  show ?thesis
  proof (cases a)
    case (Inl e)
    with a assms show ?thesis by (auto simp: bracket_def dest: refused)
  next
    case (Inr h)
    with a assms show ?thesis
      by (auto simp: bracket_def split: prod.splits intro!: released dest: admitted [OF assms(1)])
  qed
qed

lemma refused_without_work: "acq c p s = (Inl e, s') \<Longrightarrow> bracket c p work (s, t) = (Inl e, s', t)"
  by (simp add: bracket_def)

lemma full_refuses:
  assumes "ok s held" "size (filter_mset (\<lambda>x. fst x = p) held) = bound"
  shows "\<exists>e s'. acq c p s = (Inl e, s')"
proof -
  obtain a s' where a: "acq c p s = (a, s')" by (cases "acq c p s")
  show ?thesis
  proof (cases a)
    case (Inr h)
    with a have "size (filter_mset (\<lambda>x. fst x = p) (add_mset (p, h) held)) \<le> bound"
      by (intro within) (auto dest: admitted [OF assms(1)])
    with assms(2) show ?thesis by simp
  qed (use a in blast)
qed

end

section \<open>The limiter keeps the contract\<close>

record acquire_call =
  qc_ctx_err :: "driver_error option"
  qc_ctx_done :: "driver_error option"
  qc_pick :: bool

definition gate_acquire :: "acquire_call \<Rightarrow> uuid \<Rightarrow> project_limiter \<Rightarrow> (server_error + nat) \<times> project_limiter" where
  "gate_acquire c = acquire (qc_ctx_err c) (qc_ctx_done c) (qc_pick c)"

definition gate_ok :: "nat \<Rightarrow> project_limiter \<Rightarrow> (uuid \<times> nat) multiset \<Rightarrow> bool" where
  "gate_ok capacity l held \<longleftrightarrow> limiter_inv capacity (l, image_mset (\<lambda>(p, a). Holding p a) held)"

lemma acquire_inv:
  assumes "limiter_inv capacity (l, cs)" "gate_acquire c p l = (r, l')"
  shows "limiter_inv capacity (l', (case r of Inl _ \<Rightarrow> cs | Inr a \<Rightarrow> add_mset (Holding p a) cs))"
proof (cases "qc_ctx_err c")
  case (Some e)
  with assms show ?thesis by (auto simp: gate_acquire_def acquire_def)
next
  case None
  obtain a l1 where e: "enter p l = (a, l1)" by (cases "enter p l")
  note i = inv_enter [OF assms(1) e]
  show ?thesis
  proof (cases "select_case (qc_ctx_done c) (qc_pick c) a l1")
    case TokenTaken
    with assms(2) None e inv_token [OF i TokenTaken] show ?thesis by (auto simp: gate_acquire_def acquire_def)
  qed (use assms(2) None e inv_leave [OF inv_refused [OF i]] in \<open>auto simp: gate_acquire_def acquire_def\<close>)
qed

lemma release_inv:
  "limiter_inv capacity (l, add_mset (Holding p a) cs) \<Longrightarrow> limiter_inv capacity (release p a l, cs)"
  unfolding release_def by (rule inv_leave [OF inv_release])

lemma tokens_bounded:
  assumes "limiter_inv capacity (l, cs)"
  shows "sm_tokens (pl_heap l a) \<le> capacity" "pl_capacity l = capacity"
proof -
  have "sem_ok capacity cs a (pl_heap l a)" "pl_capacity l = capacity" using assms by (simp_all add: limiter_inv_def)
  then show "sm_tokens (pl_heap l a) \<le> capacity" "pl_capacity l = capacity" by (simp_all add: sem_ok_def)
qed

lemma holders_bounded:
  assumes "limiter_inv capacity (l, cs)"
  shows "holders p cs \<le> capacity"
proof (cases "pl_projects l p")
  case None
  with holders_none [OF assms] show ?thesis by simp
next
  case (Some a)
  with holders_tokens [OF assms Some] tokens_bounded(1) [OF assms] show ?thesis by simp
qed

interpretation gate: capacity_gate gate_acquire release "gate_ok capacity" capacity for capacity
proof unfold_locales
  fix l l' :: project_limiter and held c p a
  assume "gate_ok capacity l held" "gate_acquire c p l = (Inr a, l')"
  then show "gate_ok capacity l' (add_mset (p, a) held)" using acquire_inv by (fastforce simp: gate_ok_def)
next
  fix l l' :: project_limiter and held c p e
  assume "gate_ok capacity l held" "gate_acquire c p l = (Inl e, l')"
  then show "gate_ok capacity l' held" using acquire_inv by (fastforce simp: gate_ok_def)
next
  fix l :: project_limiter and held p a
  assume "gate_ok capacity l (add_mset (p, a) held)"
  then show "gate_ok capacity (release p a l) held" by (simp add: gate_ok_def release_inv)
next
  fix l :: project_limiter and held :: "(uuid \<times> nat) multiset" and p
  assume "gate_ok capacity l held"
  then have "holders p (image_mset (\<lambda>(p, a). Holding p a) held) \<le> capacity" by (auto simp: gate_ok_def intro: holders_bounded)
  then show "size (filter_mset (\<lambda>x. fst x = p) held) \<le> capacity"
    by (simp add: holders_def filter_mset_image_mset case_prod_unfold)
qed

section \<open>The property\<close>

text \<open>
  C38. Under any interleaving of any number of callers, a project never has more queries in progress than the
  capacity of the limiter; a caller whose context lives on is refused exactly when the project is at its capacity at
  that moment; and the limiter keeps a semaphore for a project exactly while the project has a caller.
\<close>

theorem query_limiter_exact:
  assumes "limiter_reach capacity (l, cs)"
  shows "holders p cs \<le> capacity \<and>
     (Waiting p a \<in># cs \<longrightarrow> (select_case None pick a l = DefaultTaken \<longleftrightarrow> holders p cs = capacity)) \<and>
     (pl_projects l p = None \<longleftrightarrow> (\<forall>c \<in># cs. caller_project c \<noteq> p))"
proof (intro conjI impI)
  note inv = limiter_reach_inv [OF assms]
  show "holders p cs \<le> capacity" by (rule holders_bounded [OF inv])
  show "pl_projects l p = None \<longleftrightarrow> (\<forall>c \<in># cs. caller_project c \<noteq> p)"
  proof
    show "\<forall>c \<in># cs. caller_project c \<noteq> p \<Longrightarrow> pl_projects l p = None"
      using inv by (cases "pl_projects l p") (fastforce simp: limiter_inv_def at_sem_empty_iff)+
  qed (use holders_none [OF inv] in blast)
  assume "Waiting p a \<in># cs"
  then have "pl_projects l p = Some a" using inv by (fastforce simp: limiter_inv_def)
  from holders_tokens [OF inv this] tokens_bounded(1) [OF inv, of a] tokens_bounded(2) [OF inv]
  show "select_case None pick a l = DefaultTaken \<longleftrightarrow> holders p cs = capacity" by (auto simp: select_case_def)
qed

text \<open>Two callers at a limiter with one place.\<close>

lemma query_limiter_exact_witness:
  "\<exists>l cs. Waiting ''p'' 0 \<in># cs \<and> holders ''p'' cs = 1 \<and> select_case None True 0 l = DefaultTaken"
proof -
  define p where "p = (''p'' :: uuid)"
  define l0 where "l0 = new_project_limiter 1"
  define l1 where "l1 = snd (enter p l0)"
  define l2 where "l2 = send_token 0 l1"
  define l3 where "l3 = snd (enter p l2)"
  have e1: "enter p l0 = (0, l1)" by (simp add: l1_def l0_def enter_def new_project_limiter_def Let_def)
  have t: "select_case None True 0 l1 = TokenTaken"
    by (simp add: l1_def l0_def enter_def new_project_limiter_def Let_def select_case_def)
  have e2: "enter p l2 = (0, l3)"
    by (simp add: l3_def l2_def l1_def l0_def enter_def new_project_limiter_def Let_def send_token_def)
  have "limiter_reach 1 (l0, {#})" by (simp add: l0_def limiter_reach.reach_new)
  then have "limiter_reach 1 (l1, add_mset (Waiting p 0) {#})" by (rule reach_step) (rule step_enter [OF e1])
  then have "limiter_reach 1 (l2, add_mset (Holding p 0) {#})"
    unfolding l2_def by (rule reach_step) (rule step_token [OF t])
  then have r: "limiter_reach 1 (l3, add_mset (Waiting p 0) (add_mset (Holding p 0) {#}))"
    by (rule reach_step) (rule step_enter [OF e2])
  show ?thesis
    using query_limiter_exact [OF r, of p 0 True]
    by (intro exI [of _ l3] exI [of _ "add_mset (Waiting p 0) (add_mset (Holding p 0) {#})"]) (simp add: p_def holders_def)
qed

end
