(* ===== verification/Store_Search.thy ===== *)
theory Store_Search
  imports Store_Logs
begin

text \<open>
  What a search of the entries means (\<open>buildEntryQuery\<close> and \<open>List\<close> of \<open>internal/storage/postgres/entry.go\<close>): the
  escaped pattern of \<open>ILIKE\<close> matches exactly the texts that contain the filter, and a page is the next stretch of
  one fixed order of the entries.
\<close>

section \<open>Containment by an escaped pattern\<close>

fun ascii_apart :: "string \<Rightarrow> bool" where
  "ascii_apart (c # d # s) \<longleftrightarrow> (byte_val c < 128 \<longrightarrow> \<not> cont_byte (byte_val d)) \<and> ascii_apart (d # s)"
| "ascii_apart _ \<longleftrightarrow> True"

lemma ascii_apart_append:
  "list_all (\<lambda>c. \<not> byte_val c < 128) xs \<Longrightarrow> ascii_apart ys \<Longrightarrow> ascii_apart (xs @ ys)"
  by (induction xs rule: ascii_apart.induct) (auto, (cases ys; simp)+)

lemma decode_rune_ascii: "byte_val c < 128 \<Longrightarrow> decode_rune (c # s) = Some (byte_val c, 1)"
  by (simp add: decode_rune_def)

definition special_char :: "char \<Rightarrow> bool" where
  "special_char c \<longleftrightarrow> c = CHR 0x5C \<or> c = CHR ''%'' \<or> c = CHR ''_''"

definition special_text :: "string \<Rightarrow> bool" where
  "special_text w \<longleftrightarrow> w = [CHR 0x5C] \<or> w = ''%'' \<or> w = ''_''"

definition escape_text :: "string \<Rightarrow> string list" where
  "escape_text w = (if special_text w then [[CHR 0x5C], w] else [w])"

lemma like_any: "like [''%''] t"
  by (induction t) auto

lemma like_escape_text: "like (escape_text p @ ps) t \<longleftrightarrow> t \<noteq> [] \<and> hd t = p \<and> like ps (tl t)"
  by (cases t) (auto simp: escape_text_def special_text_def)

lemma like_escaped: "like (concat (map escape_text ps) @ [''%'']) t \<longleftrightarrow> prefix ps t"
proof (induction ps arbitrary: t)
  case Nil
  show ?case by (simp add: like_any)
next
  case (Cons p ps)
  show ?case by (cases t) (auto simp: like_escape_text Cons.IH)
qed

lemma like_contains: "like (''%'' # concat (map escape_text ps) @ [''%'']) t \<longleftrightarrow> sublist ps t"
proof (induction t)
  case Nil
  then show ?case using like_escaped [of ps "[]"] by (simp add: sublist_Nil_right)
next
  case (Cons c t)
  then show ?case using like_escaped [of ps "c # t"] by (simp add: sublist_Cons_right)
qed

lemma utf8_chars_Nil_iff [simp]: "utf8_chars s = [] \<longleftrightarrow> s = []"
  by (cases s) (auto split: list.splits)

lemma hd_utf8_chars: "s \<noteq> [] \<Longrightarrow> hd (hd (utf8_chars s)) = hd s"
  by (cases s) (auto split: list.splits)

lemma utf8_chars_Cons:
  "utf8_chars (c # s) =
     (if s \<noteq> [] \<and> cont_byte (byte_val (hd s)) then (c # hd (utf8_chars s)) # tl (utf8_chars s) else [c] # utf8_chars s)"
proof (cases "utf8_chars s")
  case (Cons w ws)
  then have "s \<noteq> []" by auto
  with hd_utf8_chars [of s] Cons show ?thesis by simp
qed simp

declare utf8_chars.simps(2) [simp del]

lemma utf8_chars_ascii: "s = [] \<or> \<not> cont_byte (byte_val (hd s)) \<Longrightarrow> utf8_chars (c # s) = [c] # utf8_chars s"
  by (auto simp: utf8_chars_Cons)

lemma special_ascii: "special_char c \<Longrightarrow> byte_val c < 128 \<and> \<not> cont_byte (byte_val c)"
  by (auto simp: special_char_def cont_byte_def)

lemma escape_char_special: "escape_char c = (if special_char c then [CHR 0x5C, c] else [c])"
  by (simp add: escape_char_def special_char_def)

lemma special_text_Cons [simp]: "special_text [c] = special_char c" "special_text (c # d # w) = False"
  by (auto simp: special_text_def special_char_def)

lemma hd_escaped_cont: "s \<noteq> [] \<Longrightarrow> cont_byte (byte_val (hd (concat (map escape_char s) @ t))) = cont_byte (byte_val (hd s))"
  by (cases s) (auto simp: escape_char_special dest: special_ascii simp: cont_byte_def)

text \<open>The characters of the escaped text are the escaped characters.\<close>

lemma utf8_chars_escaped:
  "ascii_apart s \<Longrightarrow> utf8_chars (concat (map escape_char s) @ ''%'') = concat (map escape_text (utf8_chars s)) @ [''%'']"
proof (induction s)
  case Nil
  show ?case by (simp add: utf8_chars_Cons)
next
  case (Cons c s)
  have apart: "ascii_apart s" using Cons.prems by (cases s) auto
  note ih = Cons.IH [OF apart]
  define e where "e = concat (map escape_char s) @ ''%''"
  have ne: "e \<noteq> []" by (simp add: e_def)
  have hd: "cont_byte (byte_val (hd e)) \<longleftrightarrow> s \<noteq> [] \<and> cont_byte (byte_val (hd s))"
    using hd_escaped_cont [of s] by (cases "s = []") (auto simp: e_def cont_byte_def)
  show ?case
  proof (cases "s \<noteq> [] \<and> cont_byte (byte_val (hd s))")
    case True
    then have wide: "\<not> byte_val c < 128" using Cons.prems by (cases s) auto
    then have plain: "\<not> special_char c" using special_ascii by blast
    obtain w ws where w: "utf8_chars s = w # ws" using True by (cases "utf8_chars s") auto
    have wd: "hd w = hd s" "w \<noteq> []" using hd_utf8_chars [of s] True w
      by (auto simp: utf8_chars_Cons split: if_splits) (metis hd_utf8_chars list.sel(1) list.discI neq_Nil_conv utf8_chars_Cons)
    have "\<not> special_text w" using True wd special_ascii by (cases w) (auto simp: special_text_def special_char_def cont_byte_def)
    then have "utf8_chars e = w # concat (map escape_text ws) @ [''%'']" using ih w by (simp add: e_def escape_text_def [of w])
    moreover have "concat (map escape_char (c # s)) @ ''%'' = c # e" using plain by (simp add: escape_char_special e_def)
    moreover have "c # hd s # tl w \<noteq> [CHR 0x5C]" by simp
    ultimately show ?thesis using True hd ne w wd
      by (cases w) (simp_all add: utf8_chars_Cons [of c] escape_text_def [of "_ # _"])
  next
    case False
    then have "utf8_chars (c # e) = [c] # utf8_chars e" "utf8_chars (c # s) = [c] # utf8_chars s"
      using hd ne by (auto simp: utf8_chars_Cons)
    moreover have "utf8_chars (CHR 0x5C # c # e) = [CHR 0x5C] # utf8_chars (c # e)" if "special_char c"
      using special_ascii [OF that] by (intro utf8_chars_ascii) simp
    moreover have "concat (map escape_char (c # s)) @ ''%'' = (if special_char c then CHR 0x5C # c # e else c # e)"
      by (simp add: escape_char_special e_def)
    ultimately show ?thesis using ih by (simp add: escape_text_def [of "[_]"] flip: e_def)
  qed
qed

text \<open>What \<open>lower\<close> of the database does to the characters with a meaning in a pattern: nothing.\<close>

definition fold_plain :: "pg \<Rightarrow> bool" where
  "fold_plain pg \<longleftrightarrow> (\<forall>w. special_text (pg_fold pg w) \<longleftrightarrow> special_text w) \<and> (\<forall>w. special_text w \<longrightarrow> pg_fold pg w = w)"

definition contains_text :: "pg \<Rightarrow> string \<Rightarrow> string \<Rightarrow> bool" where
  "contains_text pg v t \<longleftrightarrow> sublist (map (pg_fold pg) (utf8_chars v)) (map (pg_fold pg) (utf8_chars t))"

lemma map_fold_escape: "fold_plain pg \<Longrightarrow> map (pg_fold pg) (escape_text w) = escape_text (pg_fold pg w)"
  by (auto simp: escape_text_def fold_plain_def special_text_def)

text \<open>A valid text starts with a first byte, and after an ASCII byte comes another one.\<close>

lemma decode_multi_wide:
  assumes "decode_multi s = Some (r, n)"
  shows "list_all (\<lambda>c. \<not> byte_val c < 128) (take n s)" "\<not> cont_byte (byte_val (hd s))" "n \<le> length s" "0 < n"
proof -
  obtain c cs where s: "s = c # cs" using assms by (cases s) (auto simp: decode_multi_def)
  obtain lo hi where info: "lead_info (byte_val c) = Some (n, lo, hi)" and len: "n \<le> length s"
    and r: "multi_rune n lo hi (byte_val c) (byte_val (s ! 1)) (byte_val (s ! 2)) (byte_val (s ! 3)) = Some r"
    using assms by (auto simp: decode_multi_def s split: option.splits prod.splits if_splits)
  have lo: "128 \<le> lo" "194 \<le> byte_val c" "2 \<le> n" "n \<le> 4"
    using info by (auto simp: lead_info_def split: if_splits)
  have "\<not> byte_val (s ! i) < 128" if "i < n" for i
  proof -
    have "i = 0 \<or> i = 1 \<or> i = 2 \<and> 3 \<le> n \<or> i = 3 \<and> n = 4" using that lo by linarith
    then show ?thesis using r lo by (auto simp: multi_rune_def s cont_byte_def split: if_splits)
  qed
  then show "list_all (\<lambda>c. \<not> byte_val c < 128) (take n s)" using len by (simp add: list_all_length)
  show "\<not> cont_byte (byte_val (hd s))" "n \<le> length s" "0 < n" using lo len by (auto simp: s cont_byte_def)
qed

lemma valid_utf8_shape: "valid_utf8 s \<Longrightarrow> ascii_apart s \<and> (s \<noteq> [] \<longrightarrow> \<not> cont_byte (byte_val (hd s)))"
proof (induction s rule: valid_utf8.induct)
  case (1 s)
  show ?case
  proof (cases s)
    case (Cons c cs)
    show ?thesis
    proof (cases "byte_val c < 128")
      case True
      have "ascii_apart cs \<and> (cs \<noteq> [] \<longrightarrow> \<not> cont_byte (byte_val (hd cs)))"
        using "1.IH" [of "(byte_val c, 1)" "byte_val c" 1] "1.prems" True by (simp add: Cons decode_rune_ascii)
      then show ?thesis using True by (cases cs) (auto simp: Cons cont_byte_def)
    next
      case False
      then obtain r n where d: "decode_multi s = Some (r, n)" and v: "valid_utf8 (drop n s)"
        using "1.prems" by (auto simp: Cons valid_utf8_Cons_multi split: option.splits)
      note w = decode_multi_wide [OF d]
      have "ascii_apart (drop n s)"
        using "1.IH" [of "(r, n)" r n] d v False by (simp add: Cons decode_rune_def)
      then have "ascii_apart (take n s @ drop n s)" by (rule ascii_apart_append [OF w(1)])
      with w(2) show ?thesis by simp
    qed
  qed simp
qed

text \<open>The message filter finds exactly the entries whose message contains it, in the folding of the database.\<close>

lemma ilike_contains:
  assumes "fold_plain pg" "valid_utf8 v"
  shows "ilike pg (contains_pattern v) t \<longleftrightarrow> contains_text pg v t"
proof -
  note v = valid_utf8_shape [OF assms(2)]
  have esc: "map (pg_fold pg) (concat (map escape_text ws)) = concat (map escape_text (map (pg_fold pg) ws))" for ws
    by (induction ws) (simp_all add: map_fold_escape [OF assms(1)])
  have pct: "pg_fold pg ''%'' = ''%''" using assms(1) by (simp add: fold_plain_def special_text_def)
  have "utf8_chars (contains_pattern v) = ''%'' # concat (map escape_text (utf8_chars v)) @ [''%'']"
    using utf8_chars_escaped [of v] hd_escaped_cont [of v "''%''"] v
    by (cases "v = []") (auto simp: contains_pattern_def utf8_chars_Cons cont_byte_def)
  then show ?thesis
    using like_contains [of "map (pg_fold pg) (utf8_chars v)"] by (simp add: ilike_def contains_text_def esc pct)
qed

section \<open>Pages\<close>

definition place_of :: "entry \<Rightarrow> time \<times> int" where
  "place_of e = (e_observed_at e, e_id e)"

text \<open>Newest first, without two entries at the same place.\<close>

definition descending :: "entry list \<Rightarrow> bool" where
  "descending es \<longleftrightarrow> sorted_wrt (\<lambda>a b. place_of b < place_of a) es"

lemma newest_first_set [simp]: "set (newest_first es) = set es" "length (newest_first es) = length es"
  by (simp_all add: newest_first_def)

lemma descending_newest:
  assumes "distinct (map e_id es)"
  shows "descending (newest_first es)"
proof -
  define ks where "ks = sort_key place_of es"
  have "sorted (map place_of ks)" by (simp add: ks_def)
  moreover have "distinct (map place_of ks)"
    using assms by (auto simp: ks_def distinct_map inj_on_def place_of_def distinct_sort)
  ultimately have "sorted_wrt (<) (map place_of ks)" by (simp add: strict_sorted_iff)
  then show ?thesis
    by (simp add: descending_def newest_first_def sorted_wrt_rev sorted_wrt_map flip: ks_def place_of_def [abs_def])
qed

lemma descending_append:
  "descending (xs @ ys) \<longleftrightarrow> descending xs \<and> descending ys \<and> (\<forall>x \<in> set xs. \<forall>y \<in> set ys. place_of y < place_of x)"
  by (auto simp: descending_def sorted_wrt_append)

lemma descending_distinct: "descending es \<Longrightarrow> distinct es"
  unfolding descending_def by (induction es) auto

lemma cursor_of_simps [simp]: "ec_observed_at (cursor_of e) = e_observed_at e" "ec_id (cursor_of e) = e_id e"
  by (simp_all add: cursor_of_def)

text \<open>A page: all the entries and no cursor, or the first ones and the cursor of the last of them.\<close>

lemma page_cases:
  assumes "0 < limit" "page = page_of limit (limited (limit + 1) es)" "descending es"
  obtains (final) "page = \<lparr>ep_entries = es, ep_next = None\<rparr>"
  | (more) e where "ep_next page = Some (cursor_of e)" "e \<in> set (ep_entries page)" "set (ep_entries page) \<subseteq> set es"
      "length (ep_entries page) = nat limit" "descending (ep_entries page)"
      "\<And>x. x \<in> set es \<Longrightarrow> x \<notin> set (ep_entries page) \<Longrightarrow> place_of x < place_of e"
      "\<And>x. x \<in> set (ep_entries page) \<Longrightarrow> place_of e \<le> place_of x"
proof (cases "limit < int (length es)")
  case False
  with assms(1,2) show thesis by (intro final) (simp add: page_of_def limited_def)
next
  case True
  define xs where "xs = take (nat limit) es"
  have page: "page = \<lparr>ep_entries = xs, ep_next = Some (cursor_of (last xs))\<rparr>"
    using True assms(1,2) by (simp add: page_of_def limited_def xs_def min_def nat_le_iff)
  have ne: "xs \<noteq> []" using True assms(1) by (auto simp: xs_def)
  have es: "es = xs @ drop (nat limit) es" by (simp add: xs_def)
  then have d: "descending xs" "\<forall>x \<in> set xs. \<forall>y \<in> set (drop (nat limit) es). place_of y < place_of x"
    using assms(3) descending_append by metis+
  have "xs = butlast xs @ [last xs]" using ne by simp
  then have l: "\<forall>x \<in> set (butlast xs). place_of (last xs) < place_of x"
    using d(1) descending_append [of "butlast xs" "[last xs]"] by simp
  show thesis
  proof (rule more [of "last xs"])
    show "ep_next page = Some (cursor_of (last xs))" "last xs \<in> set (ep_entries page)" "set (ep_entries page) \<subseteq> set es"
        "length (ep_entries page) = nat limit" "descending (ep_entries page)"
      using True ne d(1) set_take_subset [of "nat limit" es] by (simp_all add: page xs_def)
    show "place_of x < place_of (last xs)" if "x \<in> set es" "x \<notin> set (ep_entries page)" for x
      using that d(2) ne es by (auto simp: page) (metis UnE last_in_set set_append)
    show "place_of (last xs) \<le> place_of x" if "x \<in> set (ep_entries page)" for x
      using that l \<open>xs = butlast xs @ [last xs]\<close> by (auto simp: page) (metis Un_iff insert_iff empty_iff less_imp_le list.set(1) list.simps(15) order_refl set_append)
  qed
qed

end
