(* ===== verification/Query_Service.thy ===== *)
theory Query_Service
  imports Query_Cursor Query_Limiter Store_Search Store_Control
begin

text \<open>
  The search of the query service (\<open>internal/server/query/service.go\<close>): authorization, the query, the project, the
  cursor, the limiter, the page and the cursor of the next one. The state of a call is the limiter, when there is
  one, and the session with the database; the outcomes of the session include the end of the context.
\<close>

section \<open>Service\<close>

record query_service =
  qs_secret :: bytes
  qs_config :: query_config

definition new_query_service :: "bytes \<Rightarrow> query_config \<Rightarrow> server_error + query_service" where
  "new_query_service secret cfg0 =
     (let cfg = (if qk_execution_timeout cfg0 = 0
                 then cfg0\<lparr>qk_execution_timeout := qk_execution_timeout default_query_config\<rparr> else cfg0)
      in if qk_max_range cfg \<le> 0 \<or> qk_execution_timeout cfg \<le> 0 \<or> qk_default_limit cfg \<le> 0 \<or>
            qk_max_limit cfg < qk_default_limit cfg \<or> qk_max_filter_items cfg \<le> 0 \<or> qk_max_filter_bytes cfg \<le> 0 \<or>
            qk_max_message_bytes cfg \<le> 0 then Inl (Internal ''query service has invalid limits'')
         else (case new_cursor_codec secret of
                 Inl e \<Rightarrow> Inl e
               | Inr key \<Rightarrow> Inr \<lparr>qs_secret = key, qs_config = cfg\<rparr>))"

record query_page =
  pe_entries :: "entry list"
  pe_next :: string

definition classify_execution_error :: "server_error \<Rightarrow> server_error" where
  "classify_execution_error e =
     (if err_is e (\<lambda>x. x = Driver DeadlineExceeded) then Joined ExecutionTimeout e else e)"

definition classified :: "('s, 'a) act \<Rightarrow> ('s, 'a) act" where
  "classified m s = (case m s of (Inl e, s') \<Rightarrow> (Inl (classify_execution_error e), s') | (Inr x, s') \<Rightarrow> (Inr x, s'))"

section \<open>Search\<close>

text \<open>The position to go on from, which must lie in the range of the query.\<close>

definition resume :: "query_service \<Rightarrow> params \<Rightarrow> entry_query \<Rightarrow> bytes \<Rightarrow> server_error + entry_query" where
  "resume svc p q hash =
     (if pm_cursor p = [] then Inr q
      else (case decode_cursor (qs_secret svc) (pm_cursor p) (eq_project_id q) hash of
              Inl e \<Rightarrow> Inl e
            | Inr pos \<Rightarrow>
                if ec_observed_at pos < eq_from q \<or> \<not> ec_observed_at pos < eq_to q then Inl InvalidCursor
                else Inr (q\<lparr>eq_cursor := Some pos\<rparr>)))"

definition next_cursor :: "query_service \<Rightarrow> uuid \<Rightarrow> bytes \<Rightarrow> entry_page \<Rightarrow> server_error + query_page" where
  "next_cursor svc project hash page =
     (case ep_next page of
        None \<Rightarrow> Inr \<lparr>pe_entries = ep_entries page, pe_next = []\<rparr>
      | Some pos \<Rightarrow>
          (case encode_cursor (qs_secret svc) project hash pos of
             Inl e \<Rightarrow> Inl e
           | Inr c \<Rightarrow> Inr \<lparr>pe_entries = ep_entries page, pe_next = c\<rparr>))"

definition list_page :: "pg \<Rightarrow> query_service \<Rightarrow> uuid \<Rightarrow> entry_query \<Rightarrow> bytes \<Rightarrow> query_page sql" where
  "list_page pg svc project q hash =
     andthen (classified (entries_list pg q)) (\<lambda>page. lift (next_cursor svc project hash page))"

type_synonym query_state = "project_limiter option \<times> pgstate"

definition on_db :: "'a sql \<Rightarrow> (query_state, 'a) act" where
  "on_db m st = (case m (snd st) of (r, s) \<Rightarrow> (r, fst st, s))"

text \<open>\<open>Acquire\<close>, the work and the deferred \<open>release\<close>.\<close>

definition gated :: "acquire_call \<Rightarrow> uuid \<Rightarrow> 'a sql \<Rightarrow> (query_state, 'a) act" where
  "gated c project work st =
     (case fst st of
        None \<Rightarrow> on_db work st
      | Some l \<Rightarrow>
          (case gate_acquire c project l of
             (Inl e, l1) \<Rightarrow> (Inl (classify_execution_error e), Some l1, snd st)
           | (Inr a, l1) \<Rightarrow> (case work (snd st) of (r, s) \<Rightarrow> (r, Some (release project a l1), s))))"

definition search ::
  "pg \<Rightarrow> (string \<Rightarrow> string) \<Rightarrow> query_service \<Rightarrow> principal \<Rightarrow> params \<Rightarrow> acquire_call \<Rightarrow> (query_state, query_page) act" where
  "search pg umap svc pr p c =
     andthen (check (require_scope pr ''query'')) (\<lambda>_.
     andthen (lift (build_query umap (qs_config svc) (pr_project_id pr) p)) (\<lambda>(q0, hash).
     andthen (on_db (classified (projects_get (pr_project_id pr)))) (\<lambda>project.
     andthen (check (domain_check (can_query project))) (\<lambda>_.
     andthen (lift (resume svc p q0 hash)) (\<lambda>q.
     gated c (pr_project_id pr) (list_page pg svc (pr_project_id pr) q hash))))))"

section \<open>What the observer is told\<close>

definition filter_shape :: "params \<Rightarrow> string" where
  "filter_shape p =
     (let service = (pm_services p \<noteq> []); level = (pm_levels p \<noteq> []); host = (pm_hosts p \<noteq> [])
      in if \<not> blank (pm_message p) then ''message_time''
         else if service \<and> level \<and> \<not> host then ''service_level_time''
         else if service \<and> \<not> level \<and> \<not> host then ''service_time''
         else if level \<and> \<not> service \<and> \<not> host then ''level_time''
         else if \<not> service \<and> \<not> level \<and> \<not> host then ''time_only''
         else ''other_bounded'')"

text \<open>The three tests are made one after the other, so the last that holds decides.\<close>

definition query_outcome :: "server_error + query_page \<Rightarrow> string" where
  "query_outcome r =
     (case r of
        Inr _ \<Rightarrow> ''success''
      | Inl e \<Rightarrow> if err_is e (\<lambda>x. x = ExecutionTimeout) then ''timeout''
                 else if err_is e (\<lambda>x. x = CapacityLimited) then ''rate_limited'' else ''rejected'')"

definition observed_rows :: "server_error + query_page \<Rightarrow> nat" where
  "observed_rows r = (case r of Inr page \<Rightarrow> length (pe_entries page) | Inl _ \<Rightarrow> 0)"

section \<open>One page\<close>

text \<open>What a query asks for, said without patterns and cursors.\<close>

definition wanted :: "pg \<Rightarrow> entry_query \<Rightarrow> entry \<Rightarrow> bool" where
  "wanted pg q e \<longleftrightarrow>
     e_project_id e = pg_uuid (eq_project_id q) \<and> pg_time pg (eq_from q) \<le> e_observed_at e \<and>
     e_observed_at e < pg_time pg (eq_to q) \<and> in_filter (eq_services q) (e_service e) \<and> in_filter (eq_hosts q) (e_host e) \<and>
     in_filter (eq_levels q) (e_level e) \<and> (eq_message q \<noteq> [] \<longrightarrow> contains_text pg (eq_message q) (e_message e))"

definition after_entry :: "entry option \<Rightarrow> entry \<Rightarrow> bool" where
  "after_entry b e \<longleftrightarrow> (case b of None \<Rightarrow> True | Some k \<Rightarrow> place_of e < place_of k)"

text \<open>An entry as the database returns it: its instant is one that the column holds, its key is positive.\<close>

definition entry_stable :: "pg \<Rightarrow> entry \<Rightarrow> bool" where
  "entry_stable pg e \<longleftrightarrow> pg_time pg (e_observed_at e) = e_observed_at e \<and> position_ok (cursor_of e)"

definition table_ok :: "pg \<Rightarrow> entry list \<Rightarrow> bool" where
  "table_ok pg es \<longleftrightarrow> distinct (map e_id es) \<and> list_all (entry_stable pg) es"

text \<open>A call that meets no failure: the database answers, the project may be queried, the limiter admits.\<close>

definition ready :: "pg \<Rightarrow> principal \<Rightarrow> acquire_call \<times> query_state \<Rightarrow> bool" where
  "ready pg pr call =
     (case call of (c, l, s) \<Rightarrow>
        ps_outcomes s = [] \<and>
        (case projects_get (pr_project_id pr) s of (Inr row, _) \<Rightarrow> can_query row = None | _ \<Rightarrow> False) \<and>
        (case l of None \<Rightarrow> True | Some lim' \<Rightarrow> (case gate_acquire c (pr_project_id pr) lim' of (Inr _, _) \<Rightarrow> True | _ \<Rightarrow> False)) \<and>
        table_ok pg (t_entries (ps_db s)))"

definition page_after :: "pg \<Rightarrow> entry_query \<Rightarrow> entry option \<Rightarrow> entry list \<Rightarrow> entry_page" where
  "page_after pg q b es =
     page_of (eq_limit q) (limited (eq_limit q + 1) (newest_first (filter (\<lambda>x. wanted pg q x \<and> after_entry b x) es)))"

text \<open>The cursor of a request stands for the last entry that was shown.\<close>

definition stands_for :: "query_service \<Rightarrow> entry_query \<Rightarrow> bytes \<Rightarrow> string \<Rightarrow> entry option \<Rightarrow> bool" where
  "stands_for svc q hash raw b \<longleftrightarrow>
     (case b of
        None \<Rightarrow> raw = []
      | Some e \<Rightarrow> encode_cursor (qs_secret svc) (eq_project_id q) hash (cursor_of e) = Inr raw)"

lemma build_query_Inr:
  assumes "build_query umap cfg project p = Inr (q, hash)"
  shows "eq_project_id q = project" "eq_cursor q = None" "hash = query_filter_hash q" "valid_utf8 (eq_message q)"
    "validate_query q (qk_max_range cfg) (qk_max_limit cfg) = None"
  using assms by (auto simp: build_query_def Let_def split: option.splits if_splits)

lemma params_cursor_update:
  "pm_from (p\<lparr>pm_cursor := c\<rparr>) = pm_from p" "pm_to (p\<lparr>pm_cursor := c\<rparr>) = pm_to p"
  "pm_services (p\<lparr>pm_cursor := c\<rparr>) = pm_services p" "pm_hosts (p\<lparr>pm_cursor := c\<rparr>) = pm_hosts p"
  "pm_levels (p\<lparr>pm_cursor := c\<rparr>) = pm_levels p" "pm_message (p\<lparr>pm_cursor := c\<rparr>) = pm_message p"
  "pm_limit (p\<lparr>pm_cursor := c\<rparr>) = pm_limit p"
  by simp_all

lemma build_query_cursor [simp]: "build_query umap cfg project (p\<lparr>pm_cursor := c\<rparr>) = build_query umap cfg project p"
  unfolding build_query_def params_cursor_update ..

lemma validate_query_bounds:
  assumes "validate_query q a b = None"
  shows "valid_uuid (eq_project_id q)" "0 < eq_limit q"
  using assms by (auto simp: validate_query_def split: if_splits)

lemma validate_query_resumed:
  assumes "validate_query q a b = None" "eq_limit q \<le> 500" "eq_cursor q = None" "\<forall>k. pos = Some k \<longrightarrow> position_ok k"
  shows "validate_query (q\<lparr>eq_cursor := pos\<rparr>) 0 500 = None"
  using assms by (auto simp: validate_query_def position_ok_def split: if_splits option.splits)

lemma resumed_query:
  assumes "build_query umap cfg project p = Inr (q, hash)" "stands_for svc q hash (pm_cursor p) b"
    and "\<And>e. b = Some e \<Longrightarrow> entry_stable pg e \<and> wanted pg q e"
    and "pg_time pg (eq_from q) = eq_from q" "pg_time pg (eq_to q) \<le> eq_to q"
  shows "resume svc p q hash = Inr (q\<lparr>eq_cursor := map_option cursor_of b\<rparr>)"
proof (cases b)
  case None
  with assms(2) build_query_Inr(2) [OF assms(1)] show ?thesis by (simp add: stands_for_def resume_def)
next
  case (Some e)
  note e = assms(3) [OF Some]
  have "valid_uuid (eq_project_id q)" using validate_query_bounds(1) build_query_Inr(5) [OF assms(1)] by blast
  moreover have "length hash = 32" using build_query_Inr(3) [OF assms(1)] by (simp add: query_filter_hash_def)
  moreover have "position_ok (cursor_of e)" using e by (simp add: entry_stable_def)
  ultimately obtain raw where raw: "encode_cursor (qs_secret svc) (eq_project_id q) hash (cursor_of e) = Inr raw" "raw \<noteq> []"
      "decode_cursor (qs_secret svc) raw (eq_project_id q) hash = Inr (cursor_of e)"
    using decode_encode_cursor by metis
  have "pm_cursor p = raw" using assms(2) raw(1) Some by (simp add: stands_for_def)
  then show ?thesis using raw e assms(4,5) Some by (auto simp: resume_def wanted_def)
qed

lemma selected_after:
  assumes "fold_plain pg" "valid_utf8 (eq_message q)" "\<And>e. b = Some e \<Longrightarrow> entry_stable pg e"
  shows "selected pg (q\<lparr>eq_cursor := map_option cursor_of b\<rparr>) x \<longleftrightarrow> wanted pg q x \<and> after_entry b x"
  using assms
  by (cases b) (auto simp: selected_def wanted_def after_entry_def before_cursor_def ilike_contains place_of_def entry_stable_def)

lemma search_ready:
  assumes build: "build_query umap (qs_config svc) (pr_project_id pr) p = Inr (q, hash)"
    and scope: "require_scope pr ''query'' = None"
    and ready: "ready pg pr (c, l, s)"
    and cursor: "stands_for svc q hash (pm_cursor p) b" "\<And>e. b = Some e \<Longrightarrow> entry_stable pg e \<and> wanted pg q e"
    and db: "fold_plain pg" "pg_time pg (eq_from q) = eq_from q" "pg_time pg (eq_to q) \<le> eq_to q" "eq_limit q \<le> 500"
  shows "fst (search pg umap svc pr p c (l, s)) =
     next_cursor svc (eq_project_id q) hash (page_after pg q b (t_entries (ps_db s)))"
proof -
  note q = build_query_Inr [OF build]
  define q' where "q' = q\<lparr>eq_cursor := map_option cursor_of b\<rparr>"
  have resume: "resume svc p q hash = Inr q'"
    unfolding q'_def by (rule resumed_query [OF build cursor db(2,3)])
  have valid: "validate_query q' 0 500 = None"
    unfolding q'_def using cursor(2) by (intro validate_query_resumed [OF q(5) db(4) q(2)]) (auto simp: entry_stable_def)
  obtain row s1 where pj: "projects_get (pr_project_id pr) s = (Inr row, s1)" "can_query row = None"
    using ready by (auto simp: ready_def split: prod.splits sum.splits)
  have s1: "s1 = s" using pj(1) ready
    by (auto simp: ready_def projects_get_def act_cases query_row_def reading_def stmt_def scan_first_def lift_def
        split: list.splits)
  have "selected pg q' = (\<lambda>x. wanted pg q x \<and> after_entry b x)"
    using selected_after [OF db(1) q(4)] cursor(2) by (auto simp: q'_def fun_eq_iff)
  moreover have "eq_limit q' = eq_limit q" by (simp add: q'_def)
  moreover have "ps_outcomes s = []" using ready by (simp add: ready_def)
  ultimately have "entries_list pg q' s = (Inr (page_after pg q b (t_entries (ps_db s))), s)"
    by (simp add: entries_list_def andthen_def domain_check_def valid reading_def stmt_def select_entries_def page_after_def)
  then have page: "list_page pg svc (pr_project_id pr) q' hash s =
      (next_cursor svc (pr_project_id pr) hash (page_after pg q b (t_entries (ps_db s))), s)"
    by (simp add: list_page_def andthen_def classified_def lift_def)
  have "\<exists>h l1. gate_acquire c (pr_project_id pr) lim' = (Inr h, l1)" if "l = Some lim'" for lim'
    using ready that by (auto simp: ready_def split: prod.splits sum.splits)
  then have "fst (gated c (pr_project_id pr) (list_page pg svc (pr_project_id pr) q' hash) (l, s)) =
      next_cursor svc (pr_project_id pr) hash (page_after pg q b (t_entries (ps_db s)))"
    by (cases l) (auto simp: gated_def on_db_def page)
  then show ?thesis
    by (simp add: search_def andthen_def scope build lift_def on_db_def classified_def pj s1 domain_check_def resume q(1))
qed

end
