(* ===== verification/Query_Properties.thy ===== *)
theory Query_Properties
  imports Query_Service Server_Properties
begin

text \<open>
  Properties of the query service: cursors are read back where they were issued and nowhere else, and a client that
  follows them sees every entry that its query asks for once, in order, and comes to an end, also while entries are
  added; the bracket of a search leaves the limiter as it was.
\<close>

section \<open>Following the cursors\<close>

text \<open>A client repeats its request with the cursor of the last page, until there is none; each call meets its own state.\<close>

fun follow ::
  "pg \<Rightarrow> (string \<Rightarrow> string) \<Rightarrow> query_service \<Rightarrow> principal \<Rightarrow> params \<Rightarrow> (acquire_call \<times> query_state) list \<Rightarrow>
     (server_error + query_page) list" where
  "follow pg umap svc pr p [] = []"
| "follow pg umap svc pr p ((c, st) # calls) =
     (case fst (search pg umap svc pr p c st) of
        Inl e \<Rightarrow> [Inl e]
      | Inr page \<Rightarrow>
          Inr page # (if pe_next page = [] then [] else follow pg umap svc pr (p\<lparr>pm_cursor := pe_next page\<rparr>) calls))"

definition call_entries :: "acquire_call \<times> query_state \<Rightarrow> entry list" where
  "call_entries call = (case call of (c, l, s) \<Rightarrow> t_entries (ps_db s))"

definition shown :: "query_page list \<Rightarrow> entry list" where
  "shown ps = concat (map pe_entries ps)"

text \<open>
  What holds of the pages from the entry \<open>b\<close> on: they are in order and beyond \<open>b\<close>, full but for the last, and when
  the last has no cursor nothing that was there all the time is missing.
\<close>

definition pages_ok ::
  "pg \<Rightarrow> entry_query \<Rightarrow> entry option \<Rightarrow> (acquire_call \<times> query_state) list \<Rightarrow> query_page list \<Rightarrow> bool" where
  "pages_ok pg q b calls ps \<longleftrightarrow>
     descending (shown ps) \<and>
     (\<forall>e \<in> set (shown ps). wanted pg q e \<and> after_entry b e \<and> (\<exists>call \<in> set calls. e \<in> set (call_entries call))) \<and>
     (ps \<noteq> [] \<and> pe_next (last ps) = [] \<longrightarrow>
        (\<forall>e. wanted pg q e \<and> after_entry b e \<and> (\<forall>call \<in> set calls. e \<in> set (call_entries call)) \<longrightarrow> e \<in> set (shown ps))) \<and>
     (ps = [] \<or> pe_next (last ps) \<noteq> [] \<longrightarrow> length (shown ps) = nat (eq_limit q) * length calls)"

lemma pages_okD:
  assumes "pages_ok pg q b calls ps"
  shows "descending (shown ps)"
    "e \<in> set (shown ps) \<Longrightarrow> wanted pg q e \<and> after_entry b e \<and> (\<exists>call \<in> set calls. e \<in> set (call_entries call))"
    "ps \<noteq> [] \<Longrightarrow> pe_next (last ps) = [] \<Longrightarrow> wanted pg q e \<Longrightarrow> after_entry b e \<Longrightarrow>
       \<forall>call \<in> set calls. e \<in> set (call_entries call) \<Longrightarrow> e \<in> set (shown ps)"
    "ps = [] \<or> pe_next (last ps) \<noteq> [] \<Longrightarrow> length (shown ps) = nat (eq_limit q) * length calls"
  using assms unfolding pages_ok_def by blast+

lemma shown_simps [simp]: "shown [] = []" "shown (x # ps) = pe_entries x @ shown ps"
  by (simp_all add: shown_def)

lemma pages_ok_more:
  assumes ps: "pages_ok pg q (Some e) calls ps"
    and mem: "\<And>x. x \<in> set es \<longleftrightarrow> x \<in> set (call_entries call) \<and> wanted pg q x \<and> after_entry b x"
    and e: "e \<in> set xs" and xs: "set xs \<subseteq> set es" "length xs = nat (eq_limit q)" "descending xs"
    and rest: "\<And>x. x \<in> set es \<Longrightarrow> x \<notin> set xs \<Longrightarrow> place_of x < place_of e"
    and above: "\<And>x. x \<in> set xs \<Longrightarrow> place_of e \<le> place_of x"
    and raw: "raw \<noteq> []"
  shows "pages_ok pg q b (call # calls) (\<lparr>pe_entries = xs, pe_next = raw\<rparr> # ps)"
proof -
  let ?ps = "\<lparr>pe_entries = xs, pe_next = raw\<rparr> # ps"
  have last: "pe_next (last ?ps) = (if ps = [] then raw else pe_next (last ps))" by simp
  have below: "place_of x < place_of e" if "x \<in> set (shown ps)" for x
    using pages_okD(2) [OF ps that] by (simp add: after_entry_def)
  have "after_entry b e" using e xs(1) mem by blast
  then have down: "after_entry b x" if "place_of x < place_of e" for x
    using that by (cases b) (auto simp: after_entry_def)
  have "descending (xs @ shown ps)"
    unfolding descending_append using xs(3) pages_okD(1) [OF ps] below above less_le_trans by blast
  moreover have "wanted pg q x \<and> after_entry b x \<and> (\<exists>call \<in> set (call # calls). x \<in> set (call_entries call))"
    if "x \<in> set (xs @ shown ps)" for x
    using that pages_okD(2) [OF ps, of x] below down mem xs(1) by auto
  moreover have "x \<in> set (xs @ shown ps)"
    if "pe_next (last ?ps) = []" "wanted pg q x" "after_entry b x" "\<forall>call \<in> set (call # calls). x \<in> set (call_entries call)" for x
  proof (cases "x \<in> set xs")
    case False
    then have "after_entry (Some e) x" using rest mem that by (simp add: after_entry_def)
    moreover have "ps \<noteq> []" "pe_next (last ps) = []" using that(1) raw unfolding last by (auto split: if_splits)
    ultimately show ?thesis using pages_okD(3) [OF ps, of x] that by simp
  qed simp
  moreover have "length (xs @ shown ps) = nat (eq_limit q) * length (call # calls)" if "pe_next (last ?ps) \<noteq> []"
    using pages_okD(4) [OF ps] that xs(2) unfolding last by (auto split: if_splits)
  ultimately show ?thesis unfolding pages_ok_def shown_simps by simp
qed

lemma follow_pages:
  assumes build: "build_query umap (qs_config svc) (pr_project_id pr) p = Inr (q, hash)"
    and scope: "require_scope pr ''query'' = None"
    and ready: "\<forall>call \<in> set calls. ready pg pr call"
    and cursor: "stands_for svc q hash (pm_cursor p) b" "\<And>e. b = Some e \<Longrightarrow> entry_stable pg e \<and> wanted pg q e"
    and db: "fold_plain pg" "pg_time pg (eq_from q) = eq_from q" "pg_time pg (eq_to q) \<le> eq_to q" "eq_limit q \<le> 500"
  shows "\<exists>ps. follow pg umap svc pr p calls = map Inr ps \<and> pages_ok pg q b calls ps"
  using build ready cursor
proof (induction calls arbitrary: p b)
  case Nil
  show ?case by (simp add: pages_ok_def descending_def)
next
  case (Cons call calls)
  obtain c l s where call: "call = (c, l, s)" by (cases call) auto
  define es where "es = newest_first (filter (\<lambda>x. wanted pg q x \<and> after_entry b x) (t_entries (ps_db s)))"
  define page where "page = page_after pg q b (t_entries (ps_db s))"
  have rd: "ready pg pr (c, l, s)" using Cons.prems(2) by (simp add: call)
  have lim: "0 < eq_limit q" and project: "valid_uuid (eq_project_id q)"
    using validate_query_bounds build_query_Inr(5) [OF build] by blast+
  have hash: "length hash = 32" using build_query_Inr(3) [OF build] by (simp add: query_filter_hash_def)
  have table: "distinct (map e_id (t_entries (ps_db s)))" "\<And>e. e \<in> set (t_entries (ps_db s)) \<Longrightarrow> entry_stable pg e"
    using rd by (auto simp: ready_def table_ok_def list_all_iff)
  have desc: "descending es" unfolding es_def by (rule descending_newest) (simp add: distinct_map_filter table(1))
  have mem: "e \<in> set es \<longleftrightarrow> e \<in> set (call_entries call) \<and> wanted pg q e \<and> after_entry b e" for e
    by (auto simp: es_def call_entries_def call)
  have res: "fst (search pg umap svc pr p c (l, s)) = next_cursor svc (eq_project_id q) hash page"
    unfolding page_def by (rule search_ready [OF Cons.prems(1) scope rd Cons.prems(3,4) db])
  have page: "page = page_of (eq_limit q) (limited (eq_limit q + 1) es)"
    by (simp add: page_def page_after_def es_def)
  from lim page desc show ?case
  proof (cases rule: page_cases)
    case final
    then have "follow pg umap svc pr p (call # calls) = map Inr [\<lparr>pe_entries = es, pe_next = []\<rparr>]"
      by (simp add: call res next_cursor_def)
    moreover have "pages_ok pg q b (call # calls) [\<lparr>pe_entries = es, pe_next = []\<rparr>]"
      using desc mem by (simp add: pages_ok_def)
    ultimately show ?thesis by blast
  next
    case (more e)
    have e: "entry_stable pg e" "wanted pg q e"
      using more(2,3) mem table(2) by (auto simp: call call_entries_def)
    from e(1) have "position_ok (cursor_of e)" by (simp add: entry_stable_def)
    from decode_encode_cursor [OF project hash this]
    obtain raw where raw: "encode_cursor (qs_secret svc) (eq_project_id q) hash (cursor_of e) = Inr raw" "raw \<noteq> []" by blast
    have "\<exists>ps. follow pg umap svc pr (p\<lparr>pm_cursor := raw\<rparr>) calls = map Inr ps \<and> pages_ok pg q (Some e) calls ps"
      using Cons.prems(1,2) raw(1) e by (intro Cons.IH) (simp_all add: stands_for_def)
    then obtain ps where ps: "follow pg umap svc pr (p\<lparr>pm_cursor := raw\<rparr>) calls = map Inr ps" "pages_ok pg q (Some e) calls ps"
      by blast
    have "follow pg umap svc pr p (call # calls) = map Inr (\<lparr>pe_entries = ep_entries page, pe_next = raw\<rparr> # ps)"
      using ps(1) raw more(1) by (simp add: call res next_cursor_def)
    moreover note pages_ok_more [OF ps(2) mem more(2-7) raw(2)]
    ultimately show ?thesis by blast
  qed
qed

section \<open>Properties\<close>

text \<open>
  C36. A client that follows the cursors, while entries are added between its calls, is never refused; it sees its
  entries newest first and none twice, all of them wanted by its query (the message filter being containment, whatever
  its characters); and once it may make more calls than pages are needed it has come to the last page and has seen
  every wanted entry that was there all the time.
\<close>

theorem search_pages:
  assumes "build_query umap (qs_config svc) (pr_project_id pr) p = Inr (q, hash)" "pm_cursor p = []"
    and "require_scope pr ''query'' = None" "\<forall>call \<in> set calls. ready pg pr call"
    and "fold_plain pg" "pg_time pg (eq_from q) = eq_from q" "pg_time pg (eq_to q) \<le> eq_to q" "eq_limit q \<le> 500"
  shows "\<exists>ps. follow pg umap svc pr p calls = map Inr ps \<and> descending (shown ps) \<and>
     (\<forall>e \<in> set (shown ps). wanted pg q e \<and> (\<exists>call \<in> set calls. e \<in> set (call_entries call))) \<and>
     (card {e. wanted pg q e \<and> (\<exists>call \<in> set calls. e \<in> set (call_entries call))} < nat (eq_limit q) * length calls \<longrightarrow>
        ps \<noteq> [] \<and> pe_next (last ps) = [] \<and>
        (\<forall>e. wanted pg q e \<and> (\<forall>call \<in> set calls. e \<in> set (call_entries call)) \<longrightarrow> e \<in> set (shown ps)))"
proof -
  let ?all = "{e. wanted pg q e \<and> (\<exists>call \<in> set calls. e \<in> set (call_entries call))}"
  have "\<exists>ps. follow pg umap svc pr p calls = map Inr ps \<and> pages_ok pg q None calls ps"
    by (rule follow_pages [OF assms(1,3,4) _ _ assms(5-8)]) (simp_all add: stands_for_def assms(2))
  then obtain ps where ps: "follow pg umap svc pr p calls = map Inr ps" "pages_ok pg q None calls ps" by blast
  have sub: "set (shown ps) \<subseteq> ?all" using pages_okD(2) [OF ps(2)] by blast
  have "finite ?all" by (rule finite_subset [of _ "\<Union>call \<in> set calls. set (call_entries call)"]) auto
  from card_mono [OF this sub] ps(2) have "length (shown ps) \<le> card ?all"
    by (simp add: pages_okD(1) descending_distinct distinct_card)
  then have ended: "ps \<noteq> [] \<and> pe_next (last ps) = []" if "card ?all < nat (eq_limit q) * length calls"
    using that pages_okD(4) [OF ps(2)] by fastforce
  have top: "after_entry None e" for e by (simp add: after_entry_def)
  show ?thesis
    using ps(1) pages_okD(1,2) [OF ps(2)] pages_okD(3) [OF ps(2) _ _ _ top] ended by (intro exI [of _ ps]) blast
qed

definition sample_params :: params where
  "sample_params =
     \<lparr>pm_from = ''2026-01-01T00:00:00Z'', pm_to = ''2026-01-02T00:00:00Z'', pm_services = [], pm_hosts = [], pm_levels = [''info''],
      pm_message = ''ok'', pm_limit = 1, pm_cursor = []\<rparr>"

definition sample_query :: entry_query where
  "sample_query =
     \<lparr>eq_project_id = uid (CHR ''1''), eq_from = 63902822400 * second, eq_to = 63902908800 * second, eq_services = [],
      eq_hosts = [], eq_levels = [''INFO''], eq_message = ''ok'', eq_cursor = None, eq_limit = 1\<rparr>"

definition sample_service :: query_service where
  "sample_service = \<lparr>qs_secret = ''0123456789abcdef'', qs_config = default_query_config\<rparr>"

definition reader :: principal where
  "reader = \<lparr>pr_key_id = uid (CHR ''9''), pr_project_id = uid (CHR ''1''), pr_agent_id = None, pr_scopes = {''query''}\<rparr>"

definition found_row :: "int \<Rightarrow> entry" where
  "found_row i = sample_row\<lparr>e_id := i, e_project_id := uid (CHR ''1''), e_observed_at := (63902822400 + i) * second\<rparr>"

definition search_state :: query_state where
  "search_state = (Some (new_project_limiter 4), (sample_state [])\<lparr>ps_db := sample_db\<lparr>t_entries := [found_row 1, found_row 2]\<rparr>\<rparr>)"

definition sample_acquire :: acquire_call where
  "sample_acquire = \<lparr>qc_ctx_err = None, qc_ctx_done = None, qc_pick = True\<rparr>"

lemma sample_build:
  "build_query (\<lambda>s. s) (qs_config sample_service) (pr_project_id reader) sample_params = Inr (sample_query, query_filter_hash sample_query)"
proof -
  have "parse_time ''2026-01-01T00:00:00Z'' = Some (63902822400 * second)" by code_simp
  moreover have "parse_time ''2026-01-02T00:00:00Z'' = Some (63902908800 * second)" by code_simp
  moreover have "normalize_filter (\<lambda>s. s) [''info''] 32 128 True = Some [''INFO'']" by code_simp
  moreover have "normalize_filter (\<lambda>s. s) [] 32 128 b = Some []" for b by (simp add: normalize_filter_def)
  moreover have "trim_space ''ok'' = ''ok''" "valid_utf8 ''ok''" by code_simp+
  moreover have "validate_query sample_query (7 * 24 * 3600 * second) 500 = None" by code_simp
  ultimately show ?thesis
    by (simp add: build_query_def sample_params_def sample_service_def default_query_config_def reader_def
        second_def time_sub_def sample_query_def Let_def)
qed

text \<open>Two entries and pages of one: two pages, then the end.\<close>

theorem search_pages_witness:
  "\<exists>ps. follow sample_pg (\<lambda>s. s) sample_service reader sample_params (replicate 3 (sample_acquire, search_state)) = map Inr ps \<and>
     pe_next (last ps) = [] \<and> found_row 1 \<in> set (shown ps) \<and> found_row 2 \<in> set (shown ps)"
proof -
  let ?calls = "replicate 3 (sample_acquire, search_state)"
  let ?all = "{e. wanted sample_pg sample_query e \<and> (\<exists>call \<in> set ?calls. e \<in> set (call_entries call))}"
  have ready: "ready sample_pg reader (sample_acquire, search_state)" by code_simp
  have fold: "fold_plain sample_pg" by (simp add: fold_plain_def sample_pg_def)
  have time: "pg_time sample_pg t = t" for t by (simp add: sample_pg_def)
  have scope: "require_scope reader ''query'' = None" by code_simp
  have entries: "set (call_entries (sample_acquire, search_state)) = {found_row 1, found_row 2}"
    by (simp add: call_entries_def search_state_def)
  have want: "wanted sample_pg sample_query (found_row 1)" "wanted sample_pg sample_query (found_row 2)" by code_simp+
  have "?all \<subseteq> {found_row 1, found_row 2}" using entries by auto
  then have "card ?all \<le> card {found_row 1, found_row 2}" by (intro card_mono) simp_all
  also have "\<dots> \<le> 2" by (simp add: card_insert_if)
  finally have few: "card ?all < nat (eq_limit sample_query) * length ?calls" by (simp add: sample_query_def)
  from search_pages [OF sample_build _ scope _ fold, of ?calls] obtain ps where
    "follow sample_pg (\<lambda>s. s) sample_service reader sample_params ?calls = map Inr ps"
    "ps \<noteq> [] \<and> pe_next (last ps) = [] \<and>
       (\<forall>e. wanted sample_pg sample_query e \<and> (\<forall>call \<in> set ?calls. e \<in> set (call_entries call)) \<longrightarrow> e \<in> set (shown ps))"
    using few ready by (auto simp: time sample_params_def [of] sample_query_def)
  with want entries show ?thesis by (intro exI [of _ ps]) auto
qed



text \<open>A search returns what it takes from the limiter, on every path.\<close>

lemma search_releases:
  assumes "gate_ok capacity l held" "search pg umap svc pr p c (Some l, s) = (r, l', s')"
  shows "\<exists>l1. l' = Some l1 \<and> gate_ok capacity l1 held"
proof -
  have g: "gated c project work (Some l, s1) = (r, l', s') \<Longrightarrow> \<exists>l1. l' = Some l1 \<and> gate_ok capacity l1 held"
    for project s1 and work :: "query_page sql"
  proof -
    assume "gated c project work (Some l, s1) = (r, l', s')"
    moreover obtain rb lb sb where b: "gate.bracket c project work (l, s1) = (rb, lb, sb)"
      by (cases "gate.bracket c project work (l, s1)") auto
    ultimately have "l' = Some lb" by (auto simp: gated_def gate.bracket_def split: prod.splits sum.splits)
    with gate.bracket_returns [OF assms(1) b] show ?thesis by blast
  qed
  show ?thesis
    using assms g
    by (auto simp: search_def andthen_def check_def lift_def on_db_def split: prod.splits sum.splits option.splits)
qed

end
