(* ===== verification/Control_Service.thy ===== *)
theory Control_Service
  imports Operations_Service Server_Auth Store_Control Uuid_V4
begin

text \<open>
  The control service (\<open>internal/server/control/service.go\<close>): projects, keys, agents and pipelines. Every operation
  checks the scope and the project of its principal and does its work in one transaction that also writes the audit
  event. What a call takes from outside is the record \<open>control_call\<close>: the answers of the generators of identifiers and
  secrets, and the clock.
\<close>

section \<open>What a call takes from outside\<close>

record control_call =
  cc_new_id :: "server_error + string"
  cc_secret :: "server_error + bytes"
  cc_now :: time

definition default_retention_max_age :: duration where
  "default_retention_max_age = 14 * 24 * 3600 * second"

text \<open>\<open>projectID\<close>, \<open>apiKeyID\<close>, \<open>agentID\<close> and \<open>pipelineID\<close>.\<close>

definition generated_id :: "control_call \<Rightarrow> server_error + uuid" where
  "generated_id c =
     (case cc_new_id c of
        Inl e \<Rightarrow> Inl e
      | Inr v \<Rightarrow> if valid_uuid v then Inr v else Inl (Domain (ErrInvalid ''generated id'')))"

definition new_uuid_v4 :: "server_error + nat list \<Rightarrow> server_error + string" where
  "new_uuid_v4 random = (case random of Inl e \<Rightarrow> Inl e | Inr raw \<Rightarrow> Inr (uuid_of raw))"

definition random_bytes :: "(nat \<Rightarrow> server_error + bytes) \<Rightarrow> int \<Rightarrow> server_error + bytes" where
  "random_bytes random n =
     (if n \<le> 0 \<or> n > 2 ^ 20 then Inl (Domain (ErrInvalid ''random byte count'')) else random (nat n))"

definition new_control_service :: "bool \<Rightarrow> bytes \<Rightarrow> server_error + bytes" where
  "new_control_service has_tx pepper =
     (if \<not> has_tx \<or> length pepper < 16 then Inl (Internal ''control service'') else Inr pepper)"

definition control_audit ::
  "pg \<Rightarrow> principal \<Rightarrow> uuid \<Rightarrow> string \<Rightarrow> string \<Rightarrow> string \<Rightarrow> (string \<times> string) list option \<Rightarrow> unit sql" where
  "control_audit pg p project action resource resource_id metadata =
     append_audit pg p project action resource resource_id ''success'' metadata"

text \<open>\<open>principal.Require\<close> and \<open>principal.RequireProject\<close>, the first steps of most operations.\<close>

definition authorized :: "principal \<Rightarrow> string \<Rightarrow> uuid \<Rightarrow> unit sql" where
  "authorized p scope project =
     andthen (check (require_scope p scope)) (\<lambda>_. check (require_project p project))"

section \<open>Projects\<close>

definition create_project :: "pg \<Rightarrow> principal \<Rightarrow> string \<Rightarrow> string \<Rightarrow> control_call \<Rightarrow> project sql" where
  "create_project pg p slug name c =
     andthen (check (require_scope p ''project:write'')) (\<lambda>_.
     andthen (lift (generated_id c)) (\<lambda>i.
     let project = \<lparr>pj_id = i, pj_slug = trim_space slug, pj_name = trim_space name, pj_status = ''active'',
                    pj_created_at = cc_now c, pj_updated_at = cc_now c\<rparr>
     in andthen (check (domain_check (validate_project project))) (\<lambda>_.
        within_tx (
          andthen (projects_create project) (\<lambda>created.
          andthen (retention_upsert \<lparr>rp_project_id = pj_id created, rp_max_age = default_retention_max_age, rp_max_bytes = None,
                                     rp_enabled = True, rp_updated_at = cc_now c\<rparr>) (\<lambda>_.
          andthen (control_audit pg p (pj_id created) ''project.create'' ''project'' (pj_id created) None) (\<lambda>_.
          ret created)))))))"

definition set_project_status :: "pg \<Rightarrow> principal \<Rightarrow> uuid \<Rightarrow> string \<Rightarrow> project sql" where
  "set_project_status pg p project status =
     andthen (authorized p ''project:write'' project) (\<lambda>_.
     if status \<notin> set project_statuses then fail (Domain (ErrInvalid ''project status''))
     else within_tx (
       andthen (projects_get project) (\<lambda>current.
       if pj_status current = status then ret current
       else
         andthen (projects_set_status project status) (\<lambda>updated.
         andthen (if status = ''disabled'' then andthen (pipelines_pause_by_project project) (\<lambda>_. ret ()) else ret ()) (\<lambda>_.
         andthen (control_audit pg p project ''project.status.set'' ''project'' project (Some [(''status'', quote status)])) (\<lambda>_.
         ret updated))))))"

section \<open>Keys\<close>

record create_key_input =
  ck_project_id :: uuid
  ck_agent_id :: "uuid option"
  ck_name :: string
  ck_scopes :: "string list"
  ck_expires_at :: "time option"

record created_key =
  cd_key :: api_key
  cd_secret :: string

definition key_prefix :: "uuid \<Rightarrow> string" where
  "key_prefix i = ''glk_'' @ take 12 (filter (\<lambda>c. c \<noteq> CHR ''-'') i)"

definition new_key :: "bytes \<Rightarrow> create_key_input \<Rightarrow> uuid \<Rightarrow> string \<Rightarrow> time \<Rightarrow> api_key" where
  "new_key pepper input i secret now =
     \<lparr>k_id = i, k_project_id = ck_project_id input, k_agent_id = ck_agent_id input, k_name = trim_space (ck_name input),
      k_prefix = key_prefix i, k_secret_hash = hash_secret secret pepper, k_scopes = ck_scopes input, k_status = ''active'',
      k_expires_at = ck_expires_at input, k_last_used_at = None, k_created_at = now, k_revoked_at = None\<rparr>"

definition store_key ::
  "pg \<Rightarrow> principal \<Rightarrow> create_key_input \<Rightarrow> uuid option \<Rightarrow> time \<Rightarrow> api_key \<Rightarrow> api_key sql" where
  "store_key pg p input revoke now key =
     andthen (projects_get (ck_project_id input)) (\<lambda>project.
     andthen (check (domain_check (can_ingest project))) (\<lambda>_.
     andthen (case ck_agent_id input of None \<Rightarrow> ret () | Some a \<Rightarrow> andthen (agents_get pg (ck_project_id input) a) (\<lambda>_. ret ())) (\<lambda>_.
     andthen (keys_create pg key) (\<lambda>created.
     andthen (case revoke of None \<Rightarrow> ret ()
              | Some old \<Rightarrow> andthen (keys_revoke pg (ck_project_id input) old now) (\<lambda>_. ret ())) (\<lambda>_.
     andthen (control_audit pg p (ck_project_id input) ''key.create'' ''api_key'' (k_id created)
       (Some [(''rotated_from'', case revoke of None \<Rightarrow> ''null'' | Some old \<Rightarrow> quote old),
              (''scopes'', jarr (map quote (ck_scopes input)))])) (\<lambda>_.
     ret created))))))"

definition make_key ::
  "pg \<Rightarrow> bytes \<Rightarrow> principal \<Rightarrow> create_key_input \<Rightarrow> uuid option \<Rightarrow> control_call \<Rightarrow> created_key sql" where
  "make_key pg pepper p input revoke c =
     andthen (lift (generated_id c)) (\<lambda>i.
     andthen (lift (cc_secret c)) (\<lambda>random.
     if length random < 24 then fail (Internal ''secret generator returned fewer than 24 bytes'')
     else
       let secret = b64_encode random; key = new_key pepper input i secret (cc_now c)
       in if (case ck_expires_at input of None \<Rightarrow> False | Some e \<Rightarrow> \<not> cc_now c < e) then fail (Domain (ErrInvalid ''key expiry''))
          else andthen (check (domain_check (validate_api_key key))) (\<lambda>_.
               andthen (within_tx (store_key pg p input revoke (cc_now c) key)) (\<lambda>created.
               ret \<lparr>cd_key = created, cd_secret = key_prefix i @ ''.'' @ secret\<rparr>))))"

definition create_key :: "pg \<Rightarrow> bytes \<Rightarrow> principal \<Rightarrow> create_key_input \<Rightarrow> control_call \<Rightarrow> created_key sql" where
  "create_key pg pepper p input c =
     andthen (authorized p ''key:manage'' (ck_project_id input)) (\<lambda>_. make_key pg pepper p input None c)"

definition revoke_key :: "pg \<Rightarrow> principal \<Rightarrow> uuid \<Rightarrow> uuid \<Rightarrow> control_call \<Rightarrow> api_key sql" where
  "revoke_key pg p project i c =
     andthen (authorized p ''key:manage'' project) (\<lambda>_.
     if \<not> valid_uuid i then fail (Domain (ErrInvalid ''api key id''))
     else within_tx (
       andthen (keys_revoke pg project i (cc_now c)) (\<lambda>key.
       andthen (control_audit pg p project ''key.revoke'' ''api_key'' i None) (\<lambda>_.
       ret key))))"

definition rotate_key ::
  "pg \<Rightarrow> bytes \<Rightarrow> principal \<Rightarrow> uuid \<Rightarrow> create_key_input \<Rightarrow> bool \<Rightarrow> control_call \<Rightarrow> created_key sql" where
  "rotate_key pg pepper p old input revoke_old c =
     andthen (authorized p ''key:manage'' (ck_project_id input)) (\<lambda>_.
     if \<not> valid_uuid old then fail (Domain (ErrInvalid ''old api key id''))
     else make_key pg pepper p input (if revoke_old then Some old else None) c)"

section \<open>Agents\<close>

record register_agent_input =
  ra_project_id :: uuid
  ra_name :: string
  ra_hostname :: string
  ra_version :: string

definition register_agent :: "pg \<Rightarrow> principal \<Rightarrow> register_agent_input \<Rightarrow> control_call \<Rightarrow> agent sql" where
  "register_agent pg p input c =
     andthen (authorized p ''agent:write'' (ra_project_id input)) (\<lambda>_.
     andthen (lift (generated_id c)) (\<lambda>i.
     let agent = \<lparr>ag_id = i, ag_project_id = ra_project_id input, ag_name = trim_space (ra_name input),
                  ag_hostname = trim_space (ra_hostname input), ag_version = trim_space (ra_version input), ag_status = ''active'',
                  ag_last_heartbeat = None, ag_last_seen_ip = [], ag_created_at = cc_now c, ag_updated_at = cc_now c\<rparr>
     in andthen (check (domain_check (validate_agent agent))) (\<lambda>_.
        within_tx (
          andthen (projects_get (ra_project_id input)) (\<lambda>project.
          andthen (check (domain_check (can_ingest project))) (\<lambda>_.
          andthen (agents_register pg agent) (\<lambda>registered.
          andthen (control_audit pg p (ra_project_id input) ''agent.register'' ''agent'' (ag_id registered) None) (\<lambda>_.
          ret registered))))))))"

record pipeline_report =
  pt_id :: uuid
  pt_config_version :: int
  pt_status :: string
  pt_last_error :: "string option"

record heartbeat_input =
  hb_project_id :: uuid
  hb_agent_id :: uuid
  hb_version :: string
  hb_ip :: bytes
  hb_pipelines :: "pipeline_report list"

record control_view =
  pc_id :: uuid
  pc_desired_status :: string
  pc_config_version :: int

record heartbeat_result =
  hr_agent :: agent
  hr_pipelines :: "control_view list"

text \<open>The loop over the reports, with the identifiers seen so far.\<close>

fun apply_reports :: "pg \<Rightarrow> uuid \<Rightarrow> uuid \<Rightarrow> time \<Rightarrow> uuid set \<Rightarrow> pipeline_report list \<Rightarrow> unit sql" where
  "apply_reports pg project agent now seen [] = ret ()"
| "apply_reports pg project agent now seen (r # rs) =
     (if \<not> valid_uuid (pt_id r) \<or> pt_config_version r \<le> 0 \<or> pt_status r \<notin> set reported_statuses
        then fail (Domain (ErrInvalid ''pipeline report''))
      else if pt_id r \<in> seen then fail (Domain (ErrInvalid ''duplicate pipeline report''))
      else if (case pt_last_error r of None \<Rightarrow> False | Some e \<Rightarrow> length e > 2048)
        then fail (Domain (ErrInvalid ''pipeline error summary''))
      else andthen (pipelines_get project (pt_id r)) (\<lambda>pipeline.
        if pl_agent_id pipeline \<noteq> agent then fail ResourceBinding
        else andthen (pipelines_report_status pg project (pt_id r) (pt_status r) now (pt_last_error r)) (\<lambda>_.
          apply_reports pg project agent now (insert (pt_id r) seen) rs)))"

definition control_of :: "pipeline \<Rightarrow> control_view" where
  "control_of p = \<lparr>pc_id = pl_id p, pc_desired_status = pl_status p, pc_config_version = pl_config_version p\<rparr>"

definition heartbeat :: "pg \<Rightarrow> principal \<Rightarrow> heartbeat_input \<Rightarrow> control_call \<Rightarrow> heartbeat_result sql" where
  "heartbeat pg p input c =
     andthen (authorized p ''agent:write'' (hb_project_id input)) (\<lambda>_.
     andthen (check (require_agent p (hb_agent_id input))) (\<lambda>_.
     if length (hb_pipelines input) > 256 \<or> length (hb_version input) > 128
       then fail (Domain (ErrInvalid ''heartbeat limits''))
     else within_tx (
       andthen (projects_get (hb_project_id input)) (\<lambda>_.
       andthen (agents_heartbeat pg (hb_project_id input) (hb_agent_id input) (trim_space (hb_version input)) (cc_now c)
         (hb_ip input)) (\<lambda>agent.
       andthen (apply_reports pg (hb_project_id input) (hb_agent_id input) (cc_now c) {} (hb_pipelines input)) (\<lambda>_.
       andthen (pipelines_list_by_agent (hb_project_id input) (hb_agent_id input) 256) (\<lambda>pipelines.
       ret \<lparr>hr_agent = agent, hr_pipelines = map control_of pipelines\<rparr>)))))))"

section \<open>Pipelines\<close>

record create_pipeline_input =
  cn_project_id :: uuid
  cn_agent_id :: uuid
  cn_name :: string
  cn_service :: string
  cn_config :: bytes

definition create_pipeline :: "pg \<Rightarrow> principal \<Rightarrow> create_pipeline_input \<Rightarrow> control_call \<Rightarrow> pipeline sql" where
  "create_pipeline pg p input c =
     andthen (authorized p ''pipeline:write'' (cn_project_id input)) (\<lambda>_.
     andthen (lift (generated_id c)) (\<lambda>i.
     let pipeline = \<lparr>pl_id = i, pl_project_id = cn_project_id input, pl_agent_id = cn_agent_id input,
                     pl_name = trim_space (cn_name input), pl_service = trim_space (cn_service input),
                     pl_config = cn_config input, pl_config_version = 1, pl_status = ''enabled'',
                     pl_reported_status = ''stopped'', pl_reported_at = None, pl_last_error = None, pl_updated_at = cc_now c\<rparr>
     in andthen (check (domain_check (validate_pipeline pipeline))) (\<lambda>_.
        within_tx (
          andthen (projects_get (cn_project_id input)) (\<lambda>project.
          andthen (check (domain_check (can_ingest project))) (\<lambda>_.
          andthen (agents_get pg (cn_project_id input) (cn_agent_id input)) (\<lambda>agent.
          if ag_status agent = ''disabled'' then fail ResourceDisabled
          else
            andthen (pipelines_create pg pipeline) (\<lambda>created.
            andthen (control_audit pg p (cn_project_id input) ''pipeline.create'' ''pipeline'' (pl_id created) None) (\<lambda>_.
            ret created)))))))))"

definition update_pipeline_config :: "pg \<Rightarrow> principal \<Rightarrow> uuid \<Rightarrow> uuid \<Rightarrow> int \<Rightarrow> bytes \<Rightarrow> pipeline sql" where
  "update_pipeline_config pg p project i expected config =
     andthen (authorized p ''pipeline:write'' project) (\<lambda>_.
     within_tx (
       andthen (pipelines_get project i) (\<lambda>current.
       if pl_status current = ''disabled'' then fail ResourceDisabled
       else if pl_config_version current \<noteq> expected then fail VersionConflict
       else
         andthen (pipelines_update_config pg project i expected config) (\<lambda>pipeline.
         andthen (control_audit pg p project ''pipeline.config.update'' ''pipeline'' i
           (Some [(''config_version'', int_dec (pl_config_version pipeline))])) (\<lambda>_.
         ret pipeline)))))"

definition set_pipeline_status :: "pg \<Rightarrow> principal \<Rightarrow> uuid \<Rightarrow> uuid \<Rightarrow> string \<Rightarrow> pipeline sql" where
  "set_pipeline_status pg p project i status =
     andthen (authorized p ''pipeline:write'' project) (\<lambda>_.
     if status \<notin> set pipeline_statuses then fail (Domain (ErrInvalid ''pipeline status''))
     else within_tx (
       andthen (pipelines_set_desired_status project i status) (\<lambda>pipeline.
       andthen (control_audit pg p project ''pipeline.status.set'' ''pipeline'' i (Some [(''status'', quote status)])) (\<lambda>_.
       ret pipeline))))"

end
