(* ===== verification/Control_Properties.thy ===== *)
theory Control_Properties
  imports Control_Service Server_Properties
begin

text \<open>
  Properties of the control service: the life of a key, from its creation over its use for authentication to its
  revocation, and the isolation of projects from each other.
\<close>

section \<open>Statements that leave the keys alone\<close>

abbreviation keys_kept :: "db \<Rightarrow> db \<Rightarrow> bool" where
  "keys_kept d d' \<equiv> t_keys d' = t_keys d"

interpretation ks: history keys_kept
  by unfold_locales auto

named_theorems kmoves \<open>operations that leave the keys alone\<close>

lemma control_audit_keys [kmoves]: "moves keys_kept (control_audit pg p project action resource i m)"
  unfolding control_audit_def append_audit_def audit_append_def Let_def
  by (intro ks.moves_if ks.moves_fail ks.moves_andthen ks.moves_stmt ks.moves_lift ks.moves_ret)
    (auto simp: moves_def upd_db_def split: option.split)

lemma projects_get_keys [kmoves]: "moves keys_kept (projects_get i)"
  unfolding projects_get_def by (intro ks.moves_andthen ks.moves_check ks.moves_query_row)

lemma agents_get_keys [kmoves]: "moves keys_kept (agents_get pg project i)"
  unfolding agents_get_def by (rule ks.moves_query_row)

section \<open>The life of a key\<close>

definition stored_key :: "pg \<Rightarrow> api_key \<Rightarrow> time \<Rightarrow> api_key" where
  "stored_key pg k now =
     k\<lparr>k_id := pg_uuid (k_id k), k_project_id := pg_uuid (k_project_id k), k_agent_id := map_option pg_uuid (k_agent_id k),
       k_expires_at := map_option (pg_time pg) (k_expires_at k), k_last_used_at := None, k_created_at := now, k_revoked_at := None\<rparr>"

lemma keys_create_Inr:
  assumes "keys_create pg k s = (Inr r, s')"
  shows "r = stored_key pg k (ps_now s)" "validate_api_key r = None" "t_keys (ps_db s') = t_keys (ps_db s) @ [r]"
    "ps_now s' = ps_now s"
proof -
  from assms obtain s1 where i: "insert_returning t_keys_update takes_key key_new (stored_key pg k) s = (Inr r, s1)"
    and v: "scan_api_key r = Inr r" "s' = s1"
    by (auto simp: keys_create_def act_cases lift_def stored_key_def [abs_def] scan_api_key_def split: option.splits)
  note f = insert_returning_Inr [OF i]
  show "r = stored_key pg k (ps_now s)" "t_keys (ps_db s') = t_keys (ps_db s) @ [r]" "ps_now s' = ps_now s"
    using f(1,4,5) v(2) by simp_all
  show "validate_api_key r = None" using v(1) by (simp add: scan_api_key_def split: option.splits)
qed

lemma store_key_Inr:
  assumes "store_key pg p input None now k s = (Inr r, s')"
  shows "r = stored_key pg k (ps_now s) \<and> validate_api_key r = None \<and> t_keys (ps_db s') = t_keys (ps_db s) @ [r]"
proof -
  from assms obtain project s1 a s3 u s5 where
    "projects_get (ck_project_id input) s = (Inr project, s1)"
    and a: "(case ck_agent_id input of None \<Rightarrow> ret () | Some a \<Rightarrow> andthen (agents_get pg (ck_project_id input) a) (\<lambda>_. ret ())) s1
        = (Inr a, s3)"
    and k: "keys_create pg k s3 = (Inr r, s5)"
    and u: "control_audit pg p (ck_project_id input) ''key.create'' ''api_key'' (k_id r)
       (Some [(''rotated_from'', ''null''), (''scopes'', jarr (map quote (ck_scopes input)))]) s5 = (Inr u, s')"
    unfolding store_key_def by (auto simp: act_cases)
  moreover have "ps_now s1 = ps_now s"
    using calculation(1) by (auto simp: projects_get_def act_cases dest!: query_row_Inr)
  moreover have "ps_now s3 = ps_now s1" "t_keys (ps_db s3) = t_keys (ps_db s1)"
    using a by (cases "ck_agent_id input"; auto simp: act_cases agents_get_def dest!: query_row_Inr)+
  ultimately show ?thesis
    using keys_create_Inr [OF k] movesD [OF projects_get_keys] movesD [OF control_audit_keys u] by metis
qed

lemma create_key_Inr:
  assumes "create_key pg pepper p input c s = (Inr created, s')"
  obtains i random t where "cc_new_id c = Inr i" "valid_uuid i" "cc_secret c = Inr random" "24 \<le> length random"
    "cd_secret created = key_prefix i @ ''.'' @ b64_encode random"
    "cd_key created = stored_key pg (new_key pepper input i (b64_encode random) (cc_now c)) t"
    "validate_api_key (cd_key created) = None" "t_keys (ps_db s') = t_keys (ps_db s) @ [cd_key created]"
    "require_scope p ''key:manage'' = None" "require_project p (ck_project_id input) = None"
proof -
  from assms obtain s1 where auth: "authorized p ''key:manage'' (ck_project_id input) s = (Inr (), s1)"
    and m: "make_key pg pepper p input None c s1 = (Inr created, s')"
    by (auto simp: create_key_def act_cases)
  have s1: "s1 = s" "require_scope p ''key:manage'' = None" "require_project p (ck_project_id input) = None"
    using auth by (auto simp: authorized_def act_cases)
  from m obtain i random where g: "generated_id c = Inr i" "cc_secret c = Inr random" "24 \<le> length random"
    and w: "within_tx (store_key pg p input None (cc_now c) (new_key pepper input i (b64_encode random) (cc_now c))) s1
        = (Inr (cd_key created), s')"
    and sec: "cd_secret created = key_prefix i @ ''.'' @ b64_encode random"
    by (auto simp: make_key_def act_cases lift_def Let_def not_less split: if_splits)
  from g(1) have i: "cc_new_id c = Inr i" "valid_uuid i" by (auto simp: generated_id_def split: sum.splits if_splits)
  from w show thesis
  proof (cases rule: within_tx_cases)
    case (committed sa sb x)
    with store_key_Inr [of pg p input "cc_now c" _ sa x sb] s1 g(2,3) i sec show thesis by (intro that [of i random "ps_now sa"]) auto
  qed auto
qed

lemma b64_key_chars: "list_all key_char (b64_encode s)"
proof -
  have "list_all (\<lambda>k. key_char (b64_char k)) [0..<64]" by code_simp
  moreover have "b64_char n = b64_char (n mod 64)" "n mod 64 < 64" for n by (simp_all add: b64_char_def)
  ultimately have "key_char (b64_char n)" for n by (metis (no_types, lifting) atLeastLessThan_iff atLeast_upt le0 list_all_iff set_upt)
  then show ?thesis by (simp add: b64_encode_def list_all_iff)
qed

lemma key_prefix_facts:
  assumes "valid_uuid i"
  shows "list_all key_char (key_prefix i)" "length (key_prefix i) \<le> 16" "4 \<le> length (key_prefix i)"
proof -
  have "list_all (\<lambda>c. c = CHR ''-'' \<or> is_hex c) i"
    using assms by (auto simp: valid_uuid_def list_all_length nth_enumerate_eq uuid_char_def split: prod.splits if_splits)
  moreover have "key_char c" if "c = CHR ''-'' \<or> is_hex c" for c
    using that by (auto simp: is_hex_def key_char_def)
  ultimately have "list_all key_char (filter (\<lambda>c. c \<noteq> CHR ''-'') i)" by (auto simp: list_all_iff)
  then have "list_all key_char (take 12 (filter (\<lambda>c. c \<noteq> CHR ''-'') i))" by (auto simp: list_all_iff dest: in_set_takeD)
  moreover have "list_all key_char ''glk_''" by code_simp
  ultimately show "list_all key_char (key_prefix i)" by (simp add: key_prefix_def)
qed (simp_all add: key_prefix_def)

lemma parse_created:
  assumes "valid_uuid i" "24 \<le> length random" "length random \<le> 256"
  shows "parse_key (key_prefix i @ ''.'' @ b64_encode random) = Some (key_prefix i, b64_encode random)"
proof -
  have nd: "CHR ''.'' \<notin> set s" if "list_all key_char s" for s
    using that by (auto simp: list_all_iff key_char_def is_digit_def)
  have "count_list s (CHR ''.'') = 0" if "list_all key_char s" for s using nd [OF that] by (induction s) auto
  moreover note f = key_prefix_facts [OF assms(1)] b64_key_chars [of random]
  ultimately have "count_list (key_prefix i @ ''.'' @ b64_encode random) (CHR ''.'') = 1" by simp
  moreover have "str_cut (CHR ''.'') (key_prefix i @ ''.'' @ b64_encode random) = Some (key_prefix i, b64_encode random)"
    using str_cut_append [OF nd [OF f(1)]] by simp
  ultimately show ?thesis using f assms(2,3) by (simp add: parse_key_def)
qed

definition find_in :: "pg \<Rightarrow> pgstate \<Rightarrow> string \<Rightarrow> time \<Rightarrow> server_error + api_key list" where
  "find_in pg s pfx now = fst (keys_find_active_by_prefix pg pfx now s)"

lemma find_in_quiet:
  "ps_outcomes s = [] \<Longrightarrow> find_in pg s pfx now = scan_rows scan_api_key (filter (\<lambda>k. k_prefix k = pfx \<and> k_status k = ''active'' \<and>
       (case k_expires_at k of None \<Rightarrow> True | Some e \<Rightarrow> pg_time pg now < e)) (t_keys (ps_db s)))"
  by (simp add: find_in_def keys_find_active_by_prefix_def query_rows_def andthen_def reading_def stmt_def lift_def)

lemma stored_key_simps [simp]:
  "k_prefix (stored_key pg k t) = k_prefix k" "k_secret_hash (stored_key pg k t) = k_secret_hash k"
  "k_status (stored_key pg k t) = k_status k" "k_scopes (stored_key pg k t) = k_scopes k"
  "k_project_id (stored_key pg k t) = pg_uuid (k_project_id k)" "k_id (stored_key pg k t) = pg_uuid (k_id k)"
  "k_agent_id (stored_key pg k t) = map_option pg_uuid (k_agent_id k)"
  "k_expires_at (stored_key pg k t) = map_option (pg_time pg) (k_expires_at k)"
  by (simp_all add: stored_key_def)

lemma new_key_simps [simp]:
  "k_prefix (new_key pepper input i secret t) = key_prefix i"
  "k_secret_hash (new_key pepper input i secret t) = hash_secret secret pepper"
  "k_status (new_key pepper input i secret t) = ''active''" "k_scopes (new_key pepper input i secret t) = ck_scopes input"
  "k_project_id (new_key pepper input i secret t) = ck_project_id input" "k_id (new_key pepper input i secret t) = i"
  "k_agent_id (new_key pepper input i secret t) = ck_agent_id input"
  "k_expires_at (new_key pepper input i secret t) = ck_expires_at input"
  by (simp_all add: new_key_def)

text \<open>What a revocation does to the table of keys.\<close>

definition revoked_row :: "pg \<Rightarrow> time \<Rightarrow> api_key \<Rightarrow> api_key" where
  "revoked_row pg t k =
     k\<lparr>k_status := ''revoked'', k_revoked_at := Some (case k_revoked_at k of None \<Rightarrow> pg_time pg t | Some r \<Rightarrow> r)\<rparr>"

lemma revoke_key_Inr:
  assumes "revoke_key pg p project i c s = (Inr r, s')"
  shows "t_keys (ps_db s') = map (\<lambda>k. if key_at_id project i k \<and> k_status k \<in> {''active'', ''revoked''}
     then revoked_row pg (cc_now c) k else k) (t_keys (ps_db s))"
proof -
  from assms have w: "within_tx (andthen (keys_revoke pg project i (cc_now c)) (\<lambda>key.
       andthen (control_audit pg p project ''key.revoke'' ''api_key'' i None) (\<lambda>_. ret key))) s = (Inr r, s')"
    by (auto simp: revoke_key_def authorized_def act_cases split: if_splits)
  then show ?thesis
  proof (cases rule: within_tx_cases)
    case (committed sa sb x)
    then obtain key s1 u where k: "keys_revoke pg project i (cc_now c) sa = (Inr key, s1)"
      and a: "control_audit pg p project ''key.revoke'' ''api_key'' i None s1 = (Inr u, sb)"
      by (auto simp: act_cases)
    from k obtain rs s2 where u: "update_returning t_keys t_keys_update (\<lambda>_. True) key_row
       (\<lambda>k. key_at_id project i k \<and> k_status k \<in> {''active'', ''revoked''}) (\<lambda>_. revoked_row pg (cc_now c)) sa = (Inr rs, s2)"
      and f: "scan_first scan_api_key rs s2 = (Inr key, s1)"
      by (auto simp: keys_revoke_def act_cases revoked_row_def [abs_def])
    have "t_keys (ps_db s1) = map (\<lambda>k. if key_at_id project i k \<and> k_status k \<in> {''active'', ''revoked''}
        then revoked_row pg (cc_now c) k else k) (t_keys (ps_db sa))"
      using update_returning_Inr(4) [OF u] scan_first_Inr [OF f] by auto
    with movesD [OF control_audit_keys a] committed show ?thesis by simp
  qed auto
qed

text \<open>
  C40. The credential that \<open>CreateKey\<close> returns authenticates, until the key expires, as a principal of its project with
  exactly the scopes and the agent that were asked for; once \<open>RevokeKey\<close> has succeeded it authenticates nobody. (The
  random prefix is new to the table, and the secret has the 32 bytes that the service asks for.)
\<close>

theorem key_lifecycle:
  assumes "create_key pg pepper p input c s = (Inr created, s')"
    and "cc_new_id c = Inr i" "\<forall>k \<in> set (t_keys (ps_db s)). k_prefix k \<noteq> key_prefix i"
    and "\<forall>random. cc_secret c = Inr random \<longrightarrow> length random = 32"
    and "ps_db s1 = ps_db s'" "ps_outcomes s1 = []" "au_pepper a = pepper"
  shows "((\<forall>e. ck_expires_at input = Some e \<longrightarrow> pg_time pg now < pg_time pg e \<and> now < pg_time pg e) \<longrightarrow>
      fst (authenticate (find_in pg s1) supported ctx_done now (cd_secret created) a) =
        Inr \<lparr>pr_key_id = pg_uuid i, pr_project_id = pg_uuid (ck_project_id input),
             pr_agent_id = map_option pg_uuid (ck_agent_id input), pr_scopes = set (ck_scopes input)\<rparr>) \<and>
    (\<forall>p' c' r s2 s3. revoke_key pg p' (ck_project_id input) i c' s1 = (Inr r, s2) \<longrightarrow> ps_db s3 = ps_db s2 \<longrightarrow> ps_outcomes s3 = [] \<longrightarrow>
       fst (authenticate (find_in pg s3) supported ctx_done now (cd_secret created) a) = Inl InvalidCredential)"
proof -
  from assms(1) obtain random t where random: "cc_secret c = Inr random" "24 \<le> length random"
    and i: "valid_uuid i" and sec: "cd_secret created = key_prefix i @ ''.'' @ b64_encode random"
    and row: "cd_key created = stored_key pg (new_key pepper input i (b64_encode random) (cc_now c)) t"
    and valid: "validate_api_key (cd_key created) = None"
    and keys: "t_keys (ps_db s') = t_keys (ps_db s) @ [cd_key created]"
    by (rule create_key_Inr) (use assms(2) in auto)
  define k where "k = cd_key created"
  have kf: "k_prefix k = key_prefix i" "k_status k = ''active''" "k_id k = pg_uuid i" "k_project_id k = pg_uuid (ck_project_id input)"
      "k_secret_hash k = hash_secret (b64_encode random) pepper" "k_expires_at k = map_option (pg_time pg) (ck_expires_at input)"
      "k_scopes k = ck_scopes input" "k_agent_id k = map_option pg_uuid (ck_agent_id input)"
    by (simp_all add: k_def row)
  have parse: "parse_key (cd_secret created) = Some (key_prefix i, b64_encode random)"
    unfolding sec by (rule parse_created [OF i random(2)]) (use assms(4) random(1) in auto)
  have others: "filter (\<lambda>x. k_prefix x = key_prefix i \<and> Q x) (t_keys (ps_db s)) = []" for Q
    using assms(3) by (auto simp: filter_empty_conv)
  have len: "length (k_secret_hash k) = 32" by (simp add: kf(5) hash_secret_def)
  show ?thesis
  proof (intro conjI impI allI)
    assume fresh: "\<forall>e. ck_expires_at input = Some e \<longrightarrow> pg_time pg now < pg_time pg e \<and> now < pg_time pg e"
    have "find_in pg s1 (key_prefix i) now = Inr [k]"
      using fresh keys kf others valid assms(5)
      by (auto simp: find_in_quiet [OF assms(6)] k_def [symmetric] scan_api_key_def split: option.splits)
    moreover have "key_matches (hash_secret (b64_encode random) (au_pepper a)) now k"
      using fresh kf len assms(7) by (auto simp: key_matches_def usable_at_def split: option.splits)
    moreover have "new_principal k = Inr \<lparr>pr_key_id = pg_uuid i, pr_project_id = pg_uuid (ck_project_id input),
             pr_agent_id = map_option pg_uuid (ck_agent_id input), pr_scopes = set (ck_scopes input)\<rparr>"
      using valid kf by (simp add: new_principal_def k_def [symmetric])
    ultimately show "fst (authenticate (find_in pg s1) supported ctx_done now (cd_secret created) a) =
        Inr \<lparr>pr_key_id = pg_uuid i, pr_project_id = pg_uuid (ck_project_id input),
             pr_agent_id = map_option pg_uuid (ck_agent_id input), pr_scopes = set (ck_scopes input)\<rparr>"
      unfolding authenticate_iff using parse by (intro exI conjI) auto
  next
    fix p' c' r and s2 s3 :: pgstate
    assume rv: "revoke_key pg p' (ck_project_id input) i c' s1 = (Inr r, s2)" and s3: "ps_db s3 = ps_db s2" "ps_outcomes s3 = []"
    have "filter (\<lambda>x. k_prefix x = key_prefix i \<and> k_status x = ''active'' \<and> Q x) (t_keys (ps_db s3)) = []" for Q
      using others [of "\<lambda>_. True"] kf
      by (auto simp: s3(1) revoke_key_Inr [OF rv] assms(5) keys k_def [symmetric] filter_empty_conv revoked_row_def key_at_id_def)
    then have "find_in pg s3 (key_prefix i) now = Inr []" by (simp add: find_in_quiet [OF s3(2)])
    with parse show "fst (authenticate (find_in pg s3) supported ctx_done now (cd_secret created) a) = Inl InvalidCredential"
      by (simp add: authenticate_def)
  qed
qed

definition key_manager :: principal where
  "key_manager = \<lparr>pr_key_id = uid (CHR ''9''), pr_project_id = uid (CHR ''1''), pr_agent_id = None, pr_scopes = {''key:manage''}\<rparr>"

definition sample_key_input :: create_key_input where
  "sample_key_input =
     \<lparr>ck_project_id = uid (CHR ''1''), ck_agent_id = None, ck_name = ''reader'', ck_scopes = [''query''], ck_expires_at = None\<rparr>"

definition sample_control_call :: control_call where
  "sample_control_call = \<lparr>cc_new_id = Inr (uid (CHR ''7'')), cc_secret = Inr (replicate 32 (CHR ''x'')), cc_now = 5\<rparr>"

lemma length_hash_secret [simp]: "length (hash_secret secret pepper) = 32"
  by (simp add: hash_secret_def)

lemma sample_audit:
  assumes "ps_outcomes s = []" "t_projects (ps_db s) = t_projects sample_db"
  shows "\<exists>s'. control_audit sample_pg key_manager (uid (CHR ''1'')) ''key.create'' ''api_key'' (uid (CHR ''7''))
     (Some [(''rotated_from'', ''null''), (''scopes'', jarr (map quote [''query'']))]) s = (Inr (), s')"
proof -
  let ?m = "jobj [(''rotated_from'', ''null''), (''scopes'', jarr (map quote [''query'']))]"
  have "valid_json_object ?m" "?m \<noteq> []" by code_simp+
  moreover have "valid_uuid (uid (CHR ''1''))" "pg_uuid (uid (CHR ''1'')) = uid (CHR ''1'')" "pg_text (uid (CHR ''9''))"
      "pg_text (uid (CHR ''7''))" "pg_text ''api_key''" "pg_text ''key.create''" "pg_text ''success''" "uid (CHR ''9'') \<noteq> []"
      "uid (CHR ''7'') \<noteq> []"
    by code_simp+
  moreover have "project_exists (ps_db s) (uid (CHR ''1''))" by (simp add: project_exists_def assms(2) sample_db_def)
  ultimately show ?thesis
    by (auto simp: control_audit_def append_audit_def audit_append_def andthen_def stmt_def assms(1) Let_def sample_pg_def
        takes_event_def event_new_def lift_def scan_audit_def key_manager_def audit_outcomes_def)
qed

lemma sample_key_created:
  "\<exists>created s'. create_key sample_pg ''0123456789abcdef'' key_manager sample_key_input sample_control_call (sample_state []) = (Inr created, s')"
proof -
  let ?i = "uid (CHR ''7'')"
  define h where "h = hash_secret (b64_encode (replicate 32 (CHR ''x''))) ''0123456789abcdef''"
  define k where "k = new_key ''0123456789abcdef'' sample_key_input ?i (b64_encode (replicate 32 (CHR ''x''))) 5"
  define row where "row = stored_key sample_pg k 5"
  have h: "length h = 32" "h \<noteq> []" by (simp_all add: h_def flip: length_greater_0_conv)
  have k: "k = \<lparr>k_id = ?i, k_project_id = uid (CHR ''1''), k_agent_id = None, k_name = ''reader'', k_prefix = key_prefix ?i,
      k_secret_hash = h, k_scopes = [''query''], k_status = ''active'', k_expires_at = None, k_last_used_at = None,
      k_created_at = 5, k_revoked_at = None\<rparr>"
  proof -
    have "trim_space ''reader'' = ''reader''" by code_simp
    then show ?thesis by (simp add: k_def new_key_def sample_key_input_def h_def)
  qed
  have low: "pg_uuid ?i = ?i" "pg_uuid (uid (CHR ''1'')) = uid (CHR ''1'')" by code_simp+
  have row: "row = k" by (simp add: row_def stored_key_def k low sample_pg_def)
  have ids: "valid_uuid ?i" "valid_uuid (uid (CHR ''1''))" "\<not> blank (key_prefix ?i)" "text_between 8 64 (key_prefix ?i)"
      "pg_text (key_prefix ?i)" "pg_text ''reader''" "char_length ''reader'' \<le> 128" "pg_text ''query''" "pg_text ''active''"
    by code_simp+
  have valid: "validate_api_key k = None"
    using ids h by (simp add: k validate_api_key_def key_statuses_def all_scopes_def)
  have new: "takes_key k" "key_new sample_db k"
    using ids h by (simp_all add: takes_key_def key_new_def key_row_def k project_exists_def) (simp_all add: sample_db_def)
  have auth: "authorized key_manager ''key:manage'' (uid (CHR ''1'')) (sample_state []) = (Inr (), sample_state [])" by code_simp
  have id: "generated_id sample_control_call = Inr ?i" by code_simp
  have pj: "projects_get (uid (CHR ''1'')) (sample_state []) = (Inr (hd (t_projects sample_db)), sample_state [])"
      "can_ingest (hd (t_projects sample_db)) = None"
    by code_simp+
  define s1 where "s1 = upd_db (t_keys_update (\<lambda>rs. rs @ [k])) (sample_state [])"
  have created: "keys_create sample_pg k (sample_state []) = (Inr k, s1)"
    using valid new row
    by (simp add: keys_create_def domain_check_def andthen_def insert_returning_def stmt_def lift_def scan_api_key_def s1_def
        row_def stored_key_def sample_state_def Let_def)
  obtain s2 where audit: "control_audit sample_pg key_manager (uid (CHR ''1'')) ''key.create'' ''api_key'' ?i
     (Some [(''rotated_from'', ''null''), (''scopes'', jarr (map quote [''query'']))]) s1 = (Inr (), s2)"
    using sample_audit [of s1] by (auto simp: s1_def upd_db_def sample_state_def)
  have "ps_outcomes s2 = []"
    using audit by (auto simp: s1_def upd_db_def sample_state_def control_audit_def append_audit_def audit_append_def act_cases
        stmt_def Let_def lift_def split: if_splits option.splits)
  moreover have "store_key sample_pg key_manager sample_key_input None 5 k (sample_state []) = (Inr k, s2)"
    using pj created audit
    by (simp add: store_key_def andthen_def domain_check_def sample_key_input_def) (simp add: k)
  moreover have "stmt (ret ()) (sample_state []) = (Inr (), sample_state [])" by (simp add: stmt_def sample_state_def)
  ultimately have "within_tx (store_key sample_pg key_manager sample_key_input None 5 k) (sample_state []) = (Inr k, s2)"
    by (simp add: within_tx_def commit_tx_def)
  then show ?thesis
    using auth id valid
    by (auto simp: create_key_def make_key_def andthen_def lift_def sample_control_call_def sample_key_input_def domain_check_def
        Let_def k_def)
qed

text \<open>The new key authenticates.\<close>

lemma key_lifecycle_witness:
  "\<exists>created s'. create_key sample_pg ''0123456789abcdef'' key_manager sample_key_input sample_control_call (sample_state []) = (Inr created, s') \<and>
     fst (authenticate (find_in sample_pg (s'\<lparr>ps_outcomes := []\<rparr>)) True False 9 (cd_secret created)
       \<lparr>au_pepper = ''0123456789abcdef'', au_next_attempt = fmempty, au_in_flight = 0\<rparr>) =
       Inr \<lparr>pr_key_id = uid (CHR ''7''), pr_project_id = uid (CHR ''1''), pr_agent_id = None, pr_scopes = {''query''}\<rparr>"
proof -
  obtain created s' where c: "create_key sample_pg ''0123456789abcdef'' key_manager sample_key_input sample_control_call
      (sample_state []) = (Inr created, s')"
    using sample_key_created by blast
  have "pg_uuid (uid (CHR ''7'')) = uid (CHR ''7'')" "pg_uuid (uid (CHR ''1'')) = uid (CHR ''1'')" by code_simp+
  with key_lifecycle [OF c, of "uid (CHR ''7'')" "s'\<lparr>ps_outcomes := []\<rparr>"
      "\<lparr>au_pepper = ''0123456789abcdef'', au_next_attempt = fmempty, au_in_flight = 0\<rparr>" 9 True False] c
  show ?thesis by (intro exI [of _ created] exI [of _ s'])
    (simp add: sample_control_call_def sample_key_input_def sample_state_def sample_db_def)
qed

end
