(* ===== verification/Tenant_Isolation.thy ===== *)
theory Tenant_Isolation
  imports Control_Properties
begin

text \<open>
  The server's operations side by side: whatever the principals of some projects ask for, in any order and with any
  faults of the database, the rows of every other project stay as they are. The relation \<open>outside S\<close> is a \<open>history\<close> of
  \<open>Store_Base\<close>, so each operation is checked once, statement by statement.
\<close>

section \<open>The rows of a project\<close>

definition tenant_rows ::
  "uuid \<Rightarrow> db \<Rightarrow> project list \<times> agent list \<times> pipeline list \<times> api_key list \<times> stored_batch list \<times> entry list \<times>
     quarantine_batch list \<times> retention_policy list \<times> usage_bucket list \<times> audit_event list" where
  "tenant_rows q d =
     (filter (\<lambda>r. pj_id r = q) (t_projects d), filter (\<lambda>r. ag_project_id r = q) (t_agents d),
      filter (\<lambda>r. pl_project_id r = q) (t_pipelines d), filter (\<lambda>r. k_project_id r = q) (t_keys d),
      filter (\<lambda>r. sb_project_id r = q) (t_batches d), filter (\<lambda>r. e_project_id r = q) (t_entries d),
      filter (\<lambda>r. qb_project_id r = q) (t_quarantine d), filter (\<lambda>r. rp_project_id r = q) (t_retention d),
      filter (\<lambda>r. ub_project_id r = q) (t_usage d), filter (\<lambda>r. au_project_id r = Some q) (t_audit d))"

definition outside :: "uuid set \<Rightarrow> db \<Rightarrow> db \<Rightarrow> bool" where
  "outside S d d' \<longleftrightarrow> (\<forall>q. q \<notin> S \<longrightarrow> tenant_rows q d' = tenant_rows q d)"

interpretation iso: history "outside S" for S
  by unfold_locales (auto simp: outside_def)

lemma outside_mono: "outside S d d' \<Longrightarrow> S \<subseteq> T \<Longrightarrow> outside T d d'"
  by (auto simp: outside_def)

lemma filter_map_outside:
  assumes "\<And>x. hit x \<Longrightarrow> proj x \<in> S \<and> proj (f x) = proj x" "q \<notin> S"
  shows "filter (\<lambda>x. proj x = q) (map (\<lambda>x. if hit x then f x else x) xs) = filter (\<lambda>x. proj x = q) xs"
  using assms by (induction xs) auto

section \<open>The statements\<close>

named_theorems imoves \<open>operations within one project\<close>

lemmas iso_intros = iso.moves_if iso.moves_fail iso.moves_ret iso.moves_check iso.moves_lift iso.moves_andthen
  iso.moves_scan_first iso.moves_require_affected iso.moves_query_row iso.moves_query_rows

lemma projects_get_iso [imoves]: "moves (outside S) (projects_get i)"
  unfolding projects_get_def by (intro iso_intros)

lemma projects_create_iso [imoves]: "pg_uuid (pj_id p) \<in> S \<Longrightarrow> moves (outside S) (projects_create p)"
  unfolding projects_create_def
  by (intro iso_intros iso.moves_insert_returning) (auto simp: outside_def tenant_rows_def)

lemma projects_set_status_iso [imoves]: "pg_uuid i \<in> S \<Longrightarrow> moves (outside S) (projects_set_status i status)"
  unfolding projects_set_status_def
  by (intro iso_intros iso.moves_update_returning) (auto simp: outside_def tenant_rows_def intro!: filter_map_outside [where S = S])

lemma agents_get_iso [imoves]: "moves (outside S) (agents_get pg project i)"
  unfolding agents_get_def by (intro iso_intros)

lemma agents_get_by_name_iso [imoves]: "moves (outside S) (agents_get_by_name pg project n)"
  unfolding agents_get_by_name_def by (intro iso_intros)

lemma agents_insert_or_nothing_iso [imoves]:
  "pg_uuid (ag_project_id a) \<in> S \<Longrightarrow> moves (outside S) (agents_insert_or_nothing pg a)"
  unfolding agents_insert_or_nothing_def
  by (rule iso.moves_stmt) (auto simp: moves_def Let_def iso.same outside_def tenant_rows_def agent_of_def)

lemma agents_register_iso [imoves]: 
  assumes "pg_uuid (ag_project_id a) \<in> S"
  shows "moves (outside S) (agents_register pg a)"
proof -
  have m: "moves (outside S) (andthen (agents_insert_or_nothing pg a) (scan_first (scan_agent pg)))"
    using assms by (intro iso_intros imoves)
  have g: "moves (outside S) (andthen (agents_get_by_name pg (ag_project_id a) (ag_name a)) (\<lambda>existing.
                 if ag_hostname existing \<noteq> ag_hostname a \<or> ag_status existing = ''disabled'' then fail Conflict
                 else ret existing))"
    by (intro iso_intros imoves)
  show ?thesis
    unfolding agents_register_def
  proof (intro iso_intros)
    show "moves (outside S) (\<lambda>s. case andthen (agents_insert_or_nothing pg a) (scan_first (scan_agent pg)) s of
        (Inl e, s') \<Rightarrow>
          if \<not> err_is e (\<lambda>x. x = NotFound) then (Inl e, s')
          else andthen (agents_get_by_name pg (ag_project_id a) (ag_name a)) (\<lambda>existing.
                 if ag_hostname existing \<noteq> ag_hostname a \<or> ag_status existing = ''disabled'' then fail Conflict
                 else ret existing) s'
      | (Inr created, s') \<Rightarrow> (Inr created, s'))"
      unfolding moves_def
      using movesD [OF m] iso.followed [OF movesD [OF m]] g [unfolded moves_def]
      by (auto split: prod.splits sum.splits)
  qed
qed

lemma agents_heartbeat_iso [imoves]: "pg_uuid project \<in> S \<Longrightarrow> moves (outside S) (agents_heartbeat pg project i v t ip)"
  unfolding agents_heartbeat_def
  by (intro iso_intros iso.moves_update_returning) (auto simp: outside_def tenant_rows_def intro!: filter_map_outside [where S = S])

lemma pipelines_create_iso [imoves]: "pg_uuid (pl_project_id p) \<in> S \<Longrightarrow> moves (outside S) (pipelines_create pg p)"
  unfolding pipelines_create_def
  by (cases "pg_json pg (pl_config p)"; simp only: option.case; intro iso_intros iso.moves_stmt iso.moves_insert_returning)
    (auto simp: outside_def tenant_rows_def)

lemma pipelines_get_iso [imoves]: "moves (outside S) (pipelines_get project i)"
  unfolding pipelines_get_def by (intro iso_intros)

lemma pipelines_list_by_agent_iso [imoves]: "moves (outside S) (pipelines_list_by_agent project a n)"
  unfolding pipelines_list_by_agent_def by (intro iso_intros)

lemma update_pipeline_iso:
  assumes "\<And>p. hit p \<Longrightarrow> pl_project_id p \<in> S" "\<And>p. pl_project_id (f p) = pl_project_id p"
  shows "moves (outside S) (update_pipeline hit f)"
  unfolding update_pipeline_def
  by (intro iso_intros iso.moves_update_returning)
    (auto simp: outside_def tenant_rows_def assms intro!: filter_map_outside [where S = S])

lemma pipelines_update_config_iso [imoves]:
  "pg_uuid project \<in> S \<Longrightarrow> moves (outside S) (pipelines_update_config pg project i n config)"
  unfolding pipelines_update_config_def
  by (cases "pg_json pg config"; simp only: option.case; intro iso_intros iso.moves_stmt update_pipeline_iso)
    (auto simp: pipeline_at_def)

lemma pipelines_set_desired_status_iso [imoves]:
  "pg_uuid project \<in> S \<Longrightarrow> moves (outside S) (pipelines_set_desired_status project i status)"
  unfolding pipelines_set_desired_status_def by (intro iso_intros update_pipeline_iso) (auto simp: pipeline_at_def)

lemma pipelines_report_status_iso [imoves]:
  "pg_uuid project \<in> S \<Longrightarrow> moves (outside S) (pipelines_report_status pg project i status t e)"
  unfolding pipelines_report_status_def by (intro iso_intros update_pipeline_iso) (auto simp: pipeline_at_def)

lemma pipelines_pause_by_project_iso [imoves]:
  "pg_uuid project \<in> S \<Longrightarrow> moves (outside S) (pipelines_pause_by_project project)"
  unfolding pipelines_pause_by_project_def
  by (intro iso_intros iso.moves_update_returning) (auto simp: outside_def tenant_rows_def intro!: filter_map_outside [where S = S])

lemma keys_create_iso [imoves]: "pg_uuid (k_project_id k) \<in> S \<Longrightarrow> moves (outside S) (keys_create pg k)"
  unfolding keys_create_def
  by (intro iso_intros iso.moves_insert_returning) (auto simp: outside_def tenant_rows_def)

lemma keys_revoke_iso [imoves]: "pg_uuid project \<in> S \<Longrightarrow> moves (outside S) (keys_revoke pg project i t)"
  unfolding keys_revoke_def
  by (intro iso_intros iso.moves_update_returning)
    (auto simp: outside_def tenant_rows_def key_at_id_def intro!: filter_map_outside [where S = S])

lemma retention_upsert_iso [imoves]:
  assumes "pg_uuid (rp_project_id p) \<in> S"
  shows "moves (outside S) (retention_upsert p)"
  unfolding retention_upsert_def Let_def
  by (intro iso_intros iso.moves_stmt)
    (use assms in \<open>auto simp: moves_def iso.same outside_def tenant_rows_def intro!: filter_map_outside [where S = S]\<close>)

lemma audit_append_iso [imoves]:
  assumes "\<forall>p. au_project_id e = Some p \<longrightarrow> pg_uuid p \<in> S" 
  shows "moves (outside S) (audit_append pg e)"
  unfolding audit_append_def Let_def
  by (intro iso_intros iso.moves_stmt)
    (use assms in \<open>auto simp: moves_def iso.same outside_def tenant_rows_def split: option.split\<close>)

lemma append_audit_iso [imoves]: "pg_uuid project \<in> S \<Longrightarrow> moves (outside S) (append_audit pg p project action resource i r m)"
  unfolding append_audit_def by (intro iso_intros imoves) simp

lemma control_audit_iso [imoves]: "pg_uuid project \<in> S \<Longrightarrow> moves (outside S) (control_audit pg p project action resource i m)"
  unfolding control_audit_def by (intro imoves)

lemma update_quarantine_iso:
  assumes "\<And>q. hit q \<Longrightarrow> qb_project_id q \<in> S" "\<And>t q. qb_project_id (f t q) = qb_project_id q"
  shows "moves (outside S) (update_quarantine hit f)"
  unfolding update_quarantine_def
  by (intro iso.moves_update_returning)
    (auto simp: outside_def tenant_rows_def assms intro!: filter_map_outside [where S = S])

lemma quarantine_claim_iso [imoves]: "pg_uuid project \<in> S \<Longrightarrow> moves (outside S) (quarantine_claim project i)"
  unfolding quarantine_claim_def
  by (intro iso_intros update_quarantine_iso) (auto simp: quarantine_at_def claim_row_def)

lemma quarantine_mark_terminal_iso [imoves]:
  "pg_uuid project \<in> S \<Longrightarrow> moves (outside S) (quarantine_mark_terminal pg project i status detail t)"
  unfolding quarantine_mark_terminal_def
  by (intro iso_intros update_quarantine_iso) (auto simp: quarantine_at_def)

lemma quarantine_release_iso [imoves]:
  "pg_uuid project \<in> S \<Longrightarrow> moves (outside S) (quarantine_release_for_retry project i detail)"
  unfolding quarantine_release_for_retry_def
  by (intro iso_intros update_quarantine_iso) (auto simp: quarantine_at_def release_row_def)

lemma insert_batch_iso [imoves]: "pg_uuid (b_project_id b) \<in> S \<Longrightarrow> moves (outside S) (insert_batch pg b t)"
  unfolding insert_batch_def Let_def
  by (intro iso_intros iso.moves_stmt) (auto simp: moves_def iso.same outside_def tenant_rows_def batch_of_def)

lemma find_batch_iso [imoves]: "moves (outside S) (find_batch project i)"
  unfolding find_batch_def by (intro iso_intros)

lemma entry_rows_project: "entry_rows pg b now i es = Some rs \<Longrightarrow> e \<in> set rs \<Longrightarrow> e_project_id e = pg_uuid (b_project_id b)"
  by (induction es arbitrary: i rs) (auto simp: entry_row_of_def split: option.splits)

lemma insert_entries_iso [imoves]:
  assumes "pg_uuid (b_project_id b) \<in> S"
  shows "moves (outside S) (insert_entries pg b)"
  unfolding insert_entries_def
  by (intro iso_intros iso.moves_stmt)
    (use assms in \<open>auto simp: moves_def iso.same outside_def tenant_rows_def filter_empty_conv dest: entry_rows_project
      split: option.split\<close>)

lemma usage_add_iso [imoves]:
  assumes "pg_uuid project \<in> S"
  shows "moves (outside S) (usage_add pg project t n m k)"
  unfolding usage_add_def
proof (intro iso_intros iso.moves_stmt)
  show "moves (outside S) (upsert_usage (pg_uuid project) (pg_minute pg (pg_time pg t)) n m k)"
    using assms
    by (auto simp: moves_def upsert_usage_def Let_def iso.same outside_def tenant_rows_def bucket_at_def add_usage_def
        split: list.split intro!: filter_map_outside [where S = S])
qed

section \<open>The operations\<close>

text \<open>The guards of an operation: what comes after them may rely on them.\<close>

lemma authorized_iso [imoves]: "moves (outside S) (authorized p scope project)"
  unfolding authorized_def by (intro iso_intros)

lemma authorized_Inr: "authorized p scope project s = (Inr u, s') \<Longrightarrow> pr_project_id p = project \<and> s' = s"
  by (auto simp: authorized_def act_cases require_project_None_iff)

lemma moves_authorized:
  assumes "pr_project_id p = project \<Longrightarrow> moves (outside S) m"
  shows "moves (outside S) (andthen (authorized p scope project) (\<lambda>_. m))"
proof (cases "pr_project_id p = project")
  case True
  then show ?thesis using assms by (intro iso.moves_andthen imoves)
next
  case False
  then have "ps_db (snd (andthen (authorized p scope project) (\<lambda>_. m) s)) = ps_db s" for s
    using authorized_Inr [of p scope project s] by (auto simp: andthen_def authorized_def check_def split: prod.splits sum.splits option.splits)
  then show ?thesis by (rule iso.moves_nothing)
qed

abbreviation tenant :: "principal \<Rightarrow> uuid set" where
  "tenant p \<equiv> {pg_uuid (pr_project_id p)}"

lemma set_project_status_iso [imoves]: "moves (outside (tenant p)) (set_project_status pg p project status)"
  unfolding set_project_status_def
  by (intro moves_authorized iso_intros iso.moves_within_tx imoves) simp_all

lemma moves_case_option: "moves R m \<Longrightarrow> (\<And>x. moves R (f x)) \<Longrightarrow> moves R (case o' of None \<Rightarrow> m | Some x \<Rightarrow> f x)"
  by (cases o') simp_all

lemma store_key_iso:
  assumes "pg_uuid (ck_project_id input) \<in> S" "pg_uuid (k_project_id k) \<in> S"
  shows "moves (outside S) (store_key pg p input revoke now k)"
proof -
  have "moves (outside S) (case ck_agent_id input of None \<Rightarrow> ret ()
      | Some a \<Rightarrow> andthen (agents_get pg (ck_project_id input) a) (\<lambda>_. ret ()))"
    by (intro moves_case_option iso_intros imoves)
  moreover have "moves (outside S) (case revoke of None \<Rightarrow> ret ()
      | Some old \<Rightarrow> andthen (keys_revoke pg (ck_project_id input) old now) (\<lambda>_. ret ()))"
    by (intro moves_case_option iso_intros imoves assms(1))
  ultimately show ?thesis
    unfolding store_key_def using assms by (intro iso_intros imoves)
qed

lemma make_key_iso:
  assumes "pg_uuid (ck_project_id input) \<in> S"
  shows "moves (outside S) (make_key pg pepper p input revoke c)"
  unfolding make_key_def Let_def
  by (intro iso_intros iso.moves_within_tx store_key_iso) (simp_all add: assms)

lemma create_key_iso [imoves]: "moves (outside (tenant p)) (create_key pg pepper p input c)"
  unfolding create_key_def by (intro moves_authorized make_key_iso) simp

lemma revoke_key_iso [imoves]: "moves (outside (tenant p)) (revoke_key pg p project i c)"
  unfolding revoke_key_def by (intro moves_authorized iso_intros iso.moves_within_tx imoves) simp_all

lemma rotate_key_iso [imoves]: "moves (outside (tenant p)) (rotate_key pg pepper p old input ro c)"
  unfolding rotate_key_def by (intro moves_authorized iso_intros make_key_iso) simp_all

lemma register_agent_iso [imoves]: "moves (outside (tenant p)) (register_agent pg p input c)"
  unfolding register_agent_def Let_def by (intro moves_authorized iso_intros iso.moves_within_tx imoves) simp_all

lemma apply_reports_iso:
  assumes "pg_uuid project \<in> S"
  shows "moves (outside S) (apply_reports pg project agent now seen rs)"
  using assms by (induction rs arbitrary: seen) (simp_all only: apply_reports.simps, (intro iso_intros imoves; simp)+)

lemma heartbeat_iso [imoves]: "moves (outside (tenant p)) (heartbeat pg p input c)"
  unfolding heartbeat_def
  by (intro moves_authorized iso_intros iso.moves_within_tx apply_reports_iso imoves) simp_all

lemma create_pipeline_iso [imoves]: "moves (outside (tenant p)) (create_pipeline pg p input c)"
  unfolding create_pipeline_def Let_def by (intro moves_authorized iso_intros iso.moves_within_tx imoves) simp_all

lemma update_pipeline_config_iso [imoves]: "moves (outside (tenant p)) (update_pipeline_config pg p project i n config)"
  unfolding update_pipeline_config_def by (intro moves_authorized iso_intros iso.moves_within_tx imoves) simp_all

lemma set_pipeline_status_iso [imoves]: "moves (outside (tenant p)) (set_pipeline_status pg p project i status)"
  unfolding set_pipeline_status_def by (intro moves_authorized iso_intros iso.moves_within_tx imoves) simp_all

lemma pg_uuid_idem: "pg_uuid (pg_uuid u) = pg_uuid u"
proof -
  have "ascii_lower (ascii_lower c) = ascii_lower c" for c
    by (auto simp: ascii_lower_def byte_val_char_of)
  then show ?thesis by (simp add: pg_uuid_def)
qed

text \<open>A new project is none of the projects that there are.\<close>

lemma create_project_others:
  assumes "create_project pg p slug n c s = (r, s')" "project_exists (ps_db s) q"
  shows "tenant_rows q (ps_db s') = tenant_rows q (ps_db s)"
proof -
  define body where "body = (\<lambda>project. andthen (projects_create project) (\<lambda>created.
      andthen (retention_upsert \<lparr>rp_project_id = pj_id created, rp_max_age = default_retention_max_age, rp_max_bytes = None,
                                 rp_enabled = True, rp_updated_at = cc_now c\<rparr>) (\<lambda>_.
      andthen (control_audit pg p (pj_id created) ''project.create'' ''project'' (pj_id created) None) (\<lambda>_. ret created))))"
  have step: "tenant_rows q (ps_db s2) = tenant_rows q (ps_db s1)"
    if b: "body project s1 = (Inr x, s2)" and e: "project_exists (ps_db s1) q" for project x s1 s2
  proof -
    from b obtain created s3 where c: "projects_create project s1 = (Inr created, s3)"
      and m: "andthen (retention_upsert \<lparr>rp_project_id = pj_id created, rp_max_age = default_retention_max_age,
          rp_max_bytes = None, rp_enabled = True, rp_updated_at = cc_now c\<rparr>) (\<lambda>_.
        andthen (control_audit pg p (pj_id created) ''project.create'' ''project'' (pj_id created) None) (\<lambda>_. ret created)) s3
        = (Inr x, s2)"
      unfolding body_def andthen_Inr by blast
    define i where "i = pg_uuid (pj_id project)"
    from c obtain r s4 where r: "insert_returning t_projects_update takes_project project_new
        (\<lambda>now. \<lparr>pj_id = i, pj_slug = pj_slug project, pj_name = pj_name project, pj_status = pj_status project,
               pj_created_at = now, pj_updated_at = now\<rparr>) s1 = (Inr r, s4)" "scan_project r = Inr created"
      by (auto simp: projects_create_def act_cases lift_def i_def)
    from insert_returning_Inr(1,3) [OF r(1)] r(2)
    have row: "pj_id created = i" "\<forall>r \<in> set (t_projects (ps_db s1)). pj_id r \<noteq> i"
      by (auto simp: scan_project_def project_new_def split: option.splits)
    have "q \<noteq> i" using e row(2) by (auto simp: project_exists_def)
    moreover have "pg_uuid i = i" by (simp add: i_def pg_uuid_idem)
    then have "moves (outside {i}) (andthen (retention_upsert \<lparr>rp_project_id = pj_id created, rp_max_age = default_retention_max_age,
          rp_max_bytes = None, rp_enabled = True, rp_updated_at = cc_now c\<rparr>) (\<lambda>_.
        andthen (control_audit pg p (pj_id created) ''project.create'' ''project'' (pj_id created) None) (\<lambda>_. ret created)))"
      by (intro iso_intros imoves) (simp_all add: row(1))
    from movesD [OF this m] movesD [OF projects_create_iso c, of "{i}"] have "outside {i} (ps_db s1) (ps_db s2)"
      using iso.followed by (simp add: i_def)
    ultimately show ?thesis by (simp add: outside_def)
  qed
  show ?thesis
  proof (cases "\<exists>project s1. ps_db s1 = ps_db s \<and> within_tx (body project) s1 = (r, s')")
    case True
    then obtain project s1 where s1: "ps_db s1 = ps_db s" and w: "within_tx (body project) s1 = (r, s')" by blast
    from w show ?thesis
    proof (cases rule: within_tx_cases)
      case (failed e)
      then show ?thesis by (simp add: s1)
    next
      case (lost e sa sb x)
      with step [of project sa x sb] assms(2) s1 show ?thesis by simp
    next
      case (committed sa sb x)
      with step [of project sa x sb] assms(2) s1 show ?thesis by simp
    qed
  next
    case False
    then have "ps_db s' = ps_db s"
      using assms(1)
      by (auto simp: create_project_def andthen_def Let_def lift_def check_def body_def split: prod.splits sum.splits option.splits)
    then show ?thesis by simp
  qed
qed

lemma set_retention_iso [imoves]: "moves (outside (tenant p)) (set_retention pg p policy)"
proof (cases "require_scope p ''retention:manage'' = None \<and> require_project p (rp_project_id policy) = None")
  case True
  then have "pr_project_id p = rp_project_id policy" by (simp add: require_project_None_iff)
  then have in_p: "pg_uuid (rp_project_id policy) \<in> tenant p" by simp
  show ?thesis
    unfolding set_retention_def conjunct1 [OF True] conjunct2 [OF True] option.case
    by (intro iso_intros iso.moves_within_tx imoves in_p)
next
  case False
  then show ?thesis by (auto simp: set_retention_def split: option.split)
qed

lemma discard_iso: "moves (outside (tenant p)) (discard_quarantine pg p project i t)"
proof (cases "require_replay p project i")
  case None
  then have p: "pr_project_id p = project" by (auto simp: require_replay_def require_project_None_iff split: option.splits if_splits)
  have "moves (outside (tenant p)) (within_tx (andthen (quarantine_claim project i) (\<lambda>q.
    andthen (quarantine_mark_terminal pg project i ''discarded'' ''discarded by operator'' t) (\<lambda>_.
    andthen (append_audit pg p project ''quarantine.discard'' ''quarantine_batch'' i ''success'' None) (\<lambda>_. ret q)))))"
    by (intro iso_intros iso.moves_within_tx imoves) (simp_all add: p)
  from movesD [OF this] show ?thesis
    unfolding moves_def discard_quarantine_def by (auto simp: iso.same split: option.split sum.split prod.split)
next
  case (Some e)
  then show ?thesis by (simp add: discard_quarantine_def moves_def iso.same)
qed

text \<open>Operations on the limiter and the database.\<close>

definition st_moves :: "uuid set \<Rightarrow> ('l \<times> pgstate, 'a) act \<Rightarrow> bool" where
  "st_moves S m \<longleftrightarrow> (\<forall>st. outside S (ps_db (snd st)) (ps_db (snd (snd (m st)))))"

lemma st_movesD: "st_moves S m \<Longrightarrow> m st = (r, st') \<Longrightarrow> outside S (ps_db (snd st)) (ps_db (snd st'))"
  unfolding st_moves_def by (metis snd_conv)

lemma st_moves_on_pg: "moves (outside S) m \<Longrightarrow> st_moves S (on_pg m)"
  by (auto simp: st_moves_def on_pg_def moves_def split: prod.split) (metis snd_conv)

lemma accept_body_iso:
  assumes "pg_uuid (b_project_id b) \<in> S"
  shows "moves (outside S) (accept_body pg p b t)"
  unfolding accept_body_def store_batch_def
  by (intro iso_intros imoves assms)

lemma accept_iso: "st_moves (tenant p) (accept pg p candidate c)"
proof -
  have "outside (tenant p) (ps_db s) (ps_db s')"
    if "prepare_batch p candidate = Inr b" "within_tx (accept_body pg p b (ac_committed_at c)) s = (r, s')" for b r s s'
  proof -
    have "moves (outside (tenant p)) (within_tx (accept_body pg p b (ac_committed_at c)))"
      using prepare_batch_Inr(3) [OF that(1)] by (intro iso.moves_within_tx accept_body_iso) simp
    from movesD [OF this that(2)] show ?thesis .
  qed
  then show ?thesis
    by (auto simp: st_moves_def accept_def iso.same Let_def split: sum.split option.split prod.split)
qed

lemma replay_iso: "st_moves (tenant p) (replay_quarantine pg err_text umap lmap lims p project i c t)"
proof (cases "require_replay p project i")
  case (Some e)
  then show ?thesis by (simp add: replay_quarantine_def st_moves_def iso.same)
next
  case None
  then have p: "pr_project_id p = project" by (auto simp: require_replay_def require_project_None_iff split: option.splits if_splits)
  have claim: "st_moves (tenant p) (on_pg (replay_claim pg p project i) :: (limiter option \<times> pgstate, quarantine_batch) act)"
    unfolding replay_claim_def by (intro st_moves_on_pg iso_intros iso.moves_within_tx imoves) (simp_all add: p)
  have ingest: "st_moves (tenant p) (replay_ingest pg umap lmap lims p project payload c)" for payload
    using st_movesD [OF accept_iso [of "replay_principal p"]]
    by (auto simp: replay_ingest_def st_moves_def andthen_def iso.same replay_principal_def split: sum.split prod.split)
  have resolve: "moves (outside (tenant p)) (replay_resolve pg p project i t)"
    unfolding replay_resolve_def by (intro iso_intros iso.moves_within_tx imoves) (simp_all add: p)
  have release: "moves (outside (tenant p)) (replay_release pg err_text p q e)" if "qb_project_id q = pg_uuid project" for q e
    unfolding replay_release_def Let_def by (intro iso_intros iso.moves_within_tx imoves) (simp_all add: p that pg_uuid_idem)
  have finish: "st_moves (tenant p) (on_pg (replay_finish pg err_text p project i q r t) :: (limiter option \<times> pgstate, quarantine_batch) act)"
    if "qb_project_id q = pg_uuid project" for q r
    using movesD [OF resolve] movesD [OF release [OF that]]
    by (intro st_moves_on_pg) (auto simp: moves_def replay_finish_def split: sum.split prod.split)
  have row: "qb_project_id q = pg_uuid project" if "on_pg (replay_claim pg p project i) st = (Inr q, st')" for q st and st' :: "limiter option \<times> pgstate"
  proof -
    obtain r s' where c: "replay_claim pg p project i (snd st) = (r, s')" by (cases "replay_claim pg p project i (snd st)")
    with that have "r = Inr q" by (simp add: on_pg_def)
    with replay_claim_Inr [of pg p project i "snd st" q s'] c show ?thesis by (auto simp: quarantine_at_def same_identity_def)
  qed
  show ?thesis
    unfolding st_moves_def
  proof
    fix st :: "limiter option \<times> pgstate"
    obtain r1 st1 where c1: "on_pg (replay_claim pg p project i) st = (r1, st1)" by (cases "on_pg (replay_claim pg p project i) st")
    show "outside (tenant p) (ps_db (snd st)) (ps_db (snd (snd (replay_quarantine pg err_text umap lmap lims p project i c t st))))"
    proof (cases r1)
      case (Inl e)
      then show ?thesis using st_movesD [OF claim c1] by (simp add: replay_quarantine_def None c1)
    next
      case (Inr q)
      obtain r2 st2 where c2: "replay_ingest pg umap lmap lims p project (qb_payload q) c st1 = (r2, st2)"
        by (cases "replay_ingest pg umap lmap lims p project (qb_payload q) c st1")
      obtain r3 st3 where c3: "on_pg (replay_finish pg err_text p project i q r2 t) st2 = (r3, st3)"
        by (cases "on_pg (replay_finish pg err_text p project i q r2 t) st2")
      have "qb_project_id q = pg_uuid project" using row c1 Inr by simp
      from st_movesD [OF finish [OF this] c3] st_movesD [OF ingest c2] st_movesD [OF claim c1]
      show ?thesis by (simp add: replay_quarantine_def None c1 Inr c2 c3) (meson iso.followed)
    qed
  qed
qed

section \<open>Requests\<close>

text \<open>
  What a principal can ask for, and what else happens at a call: the values it takes from outside, the clock of the
  database and the outcomes of its interactions with it.
\<close>

datatype request =
    CreateProject string string
  | SetProjectStatus uuid string
  | CreateKey create_key_input
  | RevokeKey uuid uuid
  | RotateKey uuid create_key_input bool
  | RegisterAgent register_agent_input
  | Heartbeat heartbeat_input
  | CreatePipeline create_pipeline_input
  | UpdatePipelineConfig uuid uuid int bytes
  | SetPipelineStatus uuid uuid string
  | SetRetention retention_policy
  | ReplayQuarantine uuid uuid
  | DiscardQuarantine uuid uuid
  | AcceptBatch batch

record request_call =
  rq_principal :: principal
  rq_request :: request
  rq_control :: control_call
  rq_accept :: accept_call
  rq_now :: time
  rq_outcomes :: "outcome list"

definition only_state :: "('s, 'a) act \<Rightarrow> 's \<Rightarrow> 's" where
  "only_state m st = snd (m st)"

definition serve :: "ops_env \<Rightarrow> bytes \<Rightarrow> request_call \<Rightarrow> limiter option \<times> pgstate \<Rightarrow> limiter option \<times> pgstate" where
  "serve env pepper rq st0 =
     (let pg = oe_pg env; p = rq_principal rq; c = rq_control rq;
          st = (fst st0, (snd st0)\<lparr>ps_now := rq_now rq, ps_outcomes := rq_outcomes rq\<rparr>)
      in (case rq_request rq of
            CreateProject slug n \<Rightarrow> only_state (on_pg (create_project pg p slug n c)) st
          | SetProjectStatus project status \<Rightarrow> only_state (on_pg (set_project_status pg p project status)) st
          | CreateKey input \<Rightarrow> only_state (on_pg (create_key pg pepper p input c)) st
          | RevokeKey project i \<Rightarrow> only_state (on_pg (revoke_key pg p project i c)) st
          | RotateKey old input revoke_old \<Rightarrow> only_state (on_pg (rotate_key pg pepper p old input revoke_old c)) st
          | RegisterAgent input \<Rightarrow> only_state (on_pg (register_agent pg p input c)) st
          | Heartbeat input \<Rightarrow> only_state (on_pg (heartbeat pg p input c)) st
          | CreatePipeline input \<Rightarrow> only_state (on_pg (create_pipeline pg p input c)) st
          | UpdatePipelineConfig project i n config \<Rightarrow> only_state (on_pg (update_pipeline_config pg p project i n config)) st
          | SetPipelineStatus project i status \<Rightarrow> only_state (on_pg (set_pipeline_status pg p project i status)) st
          | SetRetention policy \<Rightarrow> only_state (on_pg (set_retention pg p policy)) st
          | ReplayQuarantine project i \<Rightarrow>
              only_state (replay_quarantine pg (oe_err_text env) (oe_upper env) (oe_lower env) (oe_limits env) p project i
                (rq_accept rq) (cc_now c)) st
          | DiscardQuarantine project i \<Rightarrow> only_state (on_pg (discard_quarantine pg p project i (cc_now c))) st
          | AcceptBatch b \<Rightarrow> only_state (accept pg p b (rq_accept rq)) st))"

lemma serve_others:
  assumes "pg_uuid (pr_project_id (rq_principal rq)) \<noteq> q" "project_exists (st_db st) q"
  shows "tenant_rows q (st_db (serve env pepper rq st)) = tenant_rows q (st_db st)"
proof -
  define st1 where "st1 = (fst st, (snd st)\<lparr>ps_now := rq_now rq, ps_outcomes := rq_outcomes rq\<rparr>)"
  have db: "st_db st1 = st_db st" by (simp add: st1_def)
  have st: "tenant_rows q (st_db (only_state m st1)) = tenant_rows q (st_db st)"
    if "st_moves (tenant (rq_principal rq)) m" for m :: "(limiter option \<times> pgstate, 'a) act"
    using that assms(1) db unfolding st_moves_def only_state_def outside_def by (metis singletonD)
  have pg: "tenant_rows q (st_db (only_state (on_pg m) st1)) = tenant_rows q (st_db st)"
    if "moves (outside (tenant (rq_principal rq))) m" for m :: "'b sql"
    using st [OF st_moves_on_pg [OF that]] .
  have new: "tenant_rows q (st_db (only_state (on_pg (create_project (oe_pg env) (rq_principal rq) slug n c)) st1)) =
      tenant_rows q (st_db st)" for slug n c
  proof -
    obtain r s' where c: "create_project (oe_pg env) (rq_principal rq) slug n c (snd st1) = (r, s')"
      by (cases "create_project (oe_pg env) (rq_principal rq) slug n c (snd st1)")
    from create_project_others [OF c] assms(2) show ?thesis by (simp add: only_state_def on_pg_def c db)
  qed
  have "serve env pepper rq st = (case rq_request rq of
            CreateProject slug n \<Rightarrow> only_state (on_pg (create_project (oe_pg env) (rq_principal rq) slug n (rq_control rq))) st1
          | _ \<Rightarrow> serve env pepper rq st)"
    by (cases "rq_request rq") (simp_all add: serve_def Let_def st1_def)
  moreover note new pg [OF set_project_status_iso] pg [OF create_key_iso] pg [OF revoke_key_iso] pg [OF rotate_key_iso]
    pg [OF register_agent_iso] pg [OF heartbeat_iso] pg [OF create_pipeline_iso] pg [OF update_pipeline_config_iso]
    pg [OF set_pipeline_status_iso] pg [OF set_retention_iso] pg [OF discard_iso] st [OF replay_iso] st [OF accept_iso]
  ultimately show ?thesis
    unfolding serve_def Let_def st1_def [symmetric] by (cases "rq_request rq") (simp_all only: request.case)
qed

lemma project_exists_rows: "project_exists d q \<longleftrightarrow> fst (tenant_rows q d) \<noteq> []"
  by (simp add: project_exists_def tenant_rows_def filter_empty_conv)

text \<open>
  C39. Whatever the principals of other projects ask for, in any order, with any faults of the database and any limiter,
  the rows of a project stay what they are, in every table; a new project takes nothing from the ones that exist.
\<close>

theorem tenant_isolation:
  assumes "project_exists (st_db st) q" "\<forall>rq \<in> set rqs. pg_uuid (pr_project_id (rq_principal rq)) \<noteq> q"
  shows "tenant_rows q (st_db (fold (serve env pepper) rqs st)) = tenant_rows q (st_db st)"
  using assms
proof (induction rqs arbitrary: st)
  case (Cons rq rqs)
  note one = serve_others [of rq q st env pepper] 
  have kept: "tenant_rows q (st_db (serve env pepper rq st)) = tenant_rows q (st_db st)"
    using Cons.prems by (intro one) simp_all
  then have "project_exists (st_db (serve env pepper rq st)) q"
    using Cons.prems(1) by (simp add: project_exists_rows)
  with Cons.IH [of "serve env pepper rq st"] Cons.prems(2) kept show ?case by simp
qed simp

definition other_project :: project where
  "other_project = \<lparr>pj_id = uid (CHR ''5''), pj_slug = ''other'', pj_name = ''Other'', pj_status = ''active'', pj_created_at = 1, pj_updated_at = 1\<rparr>"

definition two_projects :: "limiter option \<times> pgstate" where
  "two_projects = (None, (sample_state [])\<lparr>ps_db := t_projects_update (\<lambda>ps. ps @ [other_project]) sample_db\<rparr>)"

text \<open>A disabled project and an accepted batch, next to another project.\<close>

lemma tenant_isolation_witness:
  "\<forall>env pepper.
     let rq = \<lparr>rq_principal = sample_principal, rq_request = AcceptBatch (sample_batch (uid (CHR ''4''))),
             rq_control = sample_control_call, rq_accept = sample_call, rq_now = 5, rq_outcomes = []\<rparr>;
         st = fold (serve env pepper) [rq\<lparr>rq_request := SetProjectStatus (uid (CHR ''1'')) ''disabled''\<rparr>, rq] two_projects
     in tenant_rows (uid (CHR ''5'')) (st_db st) = tenant_rows (uid (CHR ''5'')) (st_db two_projects)"
proof -
  have "pg_uuid (pr_project_id sample_principal) \<noteq> uid (CHR ''5'')" by code_simp
  moreover have "project_exists (st_db two_projects) (uid (CHR ''5''))"
    by (simp add: project_exists_def two_projects_def other_project_def)
  ultimately show ?thesis unfolding Let_def by (intro allI tenant_isolation) simp_all
qed

end
