(* ===== verification/Http_Errors.thy ===== *)
theory Http_Errors
  imports Server_Errors
begin

text \<open>
  The errors of the HTTP layer (\<open>internal/server/httpapi/errors.go\<close>): \<open>mapError\<close> gives every error of the server a
  status, a stable code and a message that says nothing of its cause; \<open>writeError\<close> adds the header \<open>Retry-After\<close> and
  writes the JSON body. \<open>Joined\<close> errors are searched as \<open>errors.As\<close> and \<open>errors.Is\<close> do. No error of the modelled
  services wraps a \<open>json.SyntaxError\<close> (\<open>Decode\<close> reports it as text), so that branch of \<open>mapError\<close> is not there.
\<close>

section \<open>Responses\<close>

record http_response =
  rs_status :: int
  rs_headers :: "(string \<times> string) list"
  rs_body :: bytes

text \<open>\<open>Header.Get\<close>, for names in canonical form: the first value, or nothing.\<close>

definition header_of :: "string \<Rightarrow> http_response \<Rightarrow> string" where
  "header_of name r = (case map_of (rs_headers r) name of None \<Rightarrow> [] | Some v \<Rightarrow> v)"

section \<open>The typed error\<close>

record api_error =
  ae_status :: int
  ae_code :: string
  ae_message :: string
  ae_details :: "field_error list option"

definition err_unauthorized :: server_error where
  "err_unauthorized = ApiError 401 ''invalid_credential'' ''API token is missing, invalid, or expired''"

definition err_forbidden :: "string \<Rightarrow> server_error" where
  "err_forbidden message = ApiError 403 ''forbidden'' message"

definition err_bad_request :: "string \<Rightarrow> string \<Rightarrow> server_error" where
  "err_bad_request code message = ApiError 400 code message"

section \<open>From an error to a response\<close>

text \<open>\<open>errors.As\<close>: the first error of the tree that has the wanted type.\<close>

fun err_find :: "(server_error \<Rightarrow> 'a option) \<Rightarrow> server_error \<Rightarrow> 'a option" where
  "err_find f (Joined a b) = (case err_find f a of None \<Rightarrow> err_find f b | Some x \<Rightarrow> Some x)"
| "err_find f e = f e"

definition as_api_error :: "server_error \<Rightarrow> api_error option" where
  "as_api_error e =
     (case e of
        ApiError status code message \<Rightarrow>
          Some \<lparr>ae_status = status, ae_code = code, ae_message = message, ae_details = None\<rparr>
      | _ \<Rightarrow> None)"

definition as_validation :: "server_error \<Rightarrow> field_error list option" where
  "as_validation e = (case e of Protocol (ValidationError fs) \<Rightarrow> Some fs | _ \<Rightarrow> None)"

definition as_limit :: "server_error \<Rightarrow> duration option" where
  "as_limit e = (case e of Limited _ d \<Rightarrow> Some d | _ \<Rightarrow> None)"

text \<open>The sentinels that stand for several values of the model.\<close>

definition is_limited :: "server_error \<Rightarrow> bool" where
  "is_limited e \<longleftrightarrow> as_limit e \<noteq> None"

definition is_invalid :: "server_error \<Rightarrow> bool" where
  "is_invalid e \<longleftrightarrow>
     (case e of Domain (ErrInvalid _) \<Rightarrow> True | Protocol (InvalidBatch (ErrInvalid _)) \<Rightarrow> True | _ \<Rightarrow> False)"

definition sentinel :: "int \<Rightarrow> string \<Rightarrow> string \<Rightarrow> api_error" where
  "sentinel status code message = \<lparr>ae_status = status, ae_code = code, ae_message = message, ae_details = None\<rparr>"

text \<open>The \<open>switch\<close>: the tests in their order, each with its answer.\<close>

definition sentinel_rules :: "((server_error \<Rightarrow> bool) \<times> api_error) list" where
  "sentinel_rules =
     [(\<lambda>x. x = InvalidCredential, sentinel 401 ''invalid_credential'' ''API token is missing, invalid, or expired''),
      (\<lambda>x. x = Domain ErrScopeDenied, sentinel 403 ''scope_denied'' ''API token does not grant the required scope''),
      (\<lambda>x. x = ProjectMismatch \<or> x = AgentMismatch,
         sentinel 403 ''tenant_mismatch'' ''resource belongs to another authentication boundary''),
      (\<lambda>x. x = NotFound, sentinel 404 ''not_found'' ''resource was not found''),
      (\<lambda>x. x = Domain ErrIdempotencyConflict,
         sentinel 409 ''idempotency_conflict'' ''batch id was already committed with a different payload''),
      (\<lambda>x. x = Conflict \<or> x = Domain ErrInvalidTransition \<or> x = VersionConflict,
         sentinel 409 ''conflict'' ''resource state conflicts with the request''),
      (\<lambda>x. x = ResourceBinding,
         sentinel 400 ''invalid_resource_binding'' ''resource does not belong to the requested parent''),
      (\<lambda>x. x = Domain ErrProjectDisabled \<or> x = ResourceDisabled \<or> x = AgentIsDisabled \<or> x = PipelineUnavailable,
         sentinel 409 ''resource_unavailable'' ''resource is disabled or unavailable''),
      (\<lambda>x. x = Protocol BodyTooLarge, sentinel 413 ''body_too_large'' ''request body exceeds the configured limit''),
      (\<lambda>x. x = BatchExceedsCapacity,
         sentinel 413 ''admission_capacity_exceeded'' ''batch cost exceeds the configured ingest capacity''),
      (is_limited, sentinel 429 ''rate_limited'' ''ingest capacity is temporarily exhausted''),
      (\<lambda>x. x = CapacityLimited, sentinel 429 ''query_capacity_limited'' ''query capacity is temporarily exhausted''),
      (\<lambda>x. x = ExecutionTimeout, sentinel 504 ''query_timeout'' ''query execution exceeded its time budget''),
      (\<lambda>x. x = Protocol UnsupportedVersion,
         sentinel 422 ''unsupported_protocol'' ''ingest protocol version is not supported''),
      (\<lambda>x. x = Protocol InvalidJSON \<or> x = Protocol TrailingJSON,
         sentinel 400 ''invalid_json'' ''request body is not valid JSON''),
      (\<lambda>x. x = InvalidTimeRange,
         sentinel 400 ''invalid_time_range'' ''from and to must define a bounded RFC3339 range''),
      (\<lambda>x. x = InvalidLimit \<or> x = InvalidFilter \<or> x = InvalidCursor \<or> is_invalid x,
         sentinel 400 ''invalid_request'' ''request parameters are invalid'')]"

definition internal_answer :: api_error where
  "internal_answer = sentinel 500 ''internal_error'' ''the server could not complete the request''"

fun first_rule :: "((server_error \<Rightarrow> bool) \<times> api_error) list \<Rightarrow> server_error \<Rightarrow> api_error" where
  "first_rule [] e = internal_answer"
| "first_rule ((test, answer) # rules) e = (if err_is e test then answer else first_rule rules e)"

definition map_error :: "server_error \<Rightarrow> api_error" where
  "map_error e =
     (case err_find as_api_error e of
        Some explicit \<Rightarrow> explicit
      | None \<Rightarrow>
          (case err_find as_validation e of
             Some fs \<Rightarrow>
               \<lparr>ae_status = 422, ae_code = ''invalid_batch'', ae_message = ''batch validation failed'', ae_details = Some fs\<rparr>
           | None \<Rightarrow> first_rule sentinel_rules e))"

definition field_error_json :: "field_error \<Rightarrow> string" where
  "field_error_json f = jobj [(''path'', quote (fst f)), (''reason'', quote (snd f))]"

text \<open>\<open>json.Marshal\<close> of a \<open>gin.H\<close> writes its keys in order.\<close>

definition error_json :: "string \<Rightarrow> api_error \<Rightarrow> string" where
  "error_json request_id a =
     jobj [(''error'',
       jobj ([(''code'', quote (ae_code a))] @
             (case ae_details a of None \<Rightarrow> [] | Some fs \<Rightarrow> [(''details'', jarr (map field_error_json fs))]) @
             [(''message'', quote (ae_message a)), (''request_id'', quote request_id)]))]"

text \<open>
  The seconds are rounded up. The code does it in floating point, which is exact for delays of less than \<open>2 ^ 22\<close>
  seconds; the limiter asks for at most a minute.
\<close>

definition ceil_seconds :: "duration \<Rightarrow> int" where
  "ceil_seconds d = - ((- d) div second)"

definition retry_after_header :: "server_error \<Rightarrow> (string \<times> string) list" where
  "retry_after_header e =
     (case err_find as_limit e of
        Some d \<Rightarrow> [(''Retry-After'', int_dec (max 1 (ceil_seconds d)))]
      | None \<Rightarrow> if err_is e (\<lambda>x. x = CapacityLimited) then [(''Retry-After'', ''1'')] else [])"

definition write_error :: "string \<Rightarrow> server_error \<Rightarrow> http_response" where
  "write_error request_id e =
     (let mapped = map_error e
      in \<lparr>rs_status = ae_status mapped, rs_headers = retry_after_header e, rs_body = error_json request_id mapped\<rparr>)"

section \<open>Facts\<close>

lemma err_find_is: "err_find f e \<noteq> None \<longleftrightarrow> err_is e (\<lambda>x. f x \<noteq> None)"
  by (induction e) (auto split: option.split)

lemma first_rule_cases:
  "first_rule rules e = internal_answer \<or> (\<exists>(test, answer) \<in> set rules. err_is e test \<and> first_rule rules e = answer)"
  by (induction rules e rule: first_rule.induct) auto

end
