(* ===== verification/Http_Dto.thy ===== *)
theory Http_Dto
  imports Http_Errors Control_Service Go_Values
begin

text \<open>
  The bodies of the answers (\<open>internal/server/httpapi/dto.go\<close>): each function gives the JSON text that
  \<open>json.Marshal\<close> writes for the data transfer object of a domain value, or nothing when it cannot be written, which
  happens for an instant outside the years 0 to 9999 and for a document that is not JSON.
\<close>

section \<open>Members\<close>

definition struct_json :: "(string \<times> string option) list \<Rightarrow> string option" where
  "struct_json fs = map_option (\<lambda>ts. jobj (zip (map fst fs) ts)) (those (map snd fs))"

definition list_json :: "('a \<Rightarrow> string option) \<Rightarrow> 'a list \<Rightarrow> string option" where
  "list_json f xs = map_option jarr (those (map f xs))"

text \<open>A pointer: \<open>null\<close> when it is nil, or left out with \<open>omitempty\<close>; empty strings and documents are left out too.\<close>

definition or_null :: "('a \<Rightarrow> string option) \<Rightarrow> 'a option \<Rightarrow> string option" where
  "or_null f v = (case v of None \<Rightarrow> Some ''null'' | Some x \<Rightarrow> f x)"

definition or_left_out :: "string \<Rightarrow> ('a \<Rightarrow> string option) \<Rightarrow> 'a option \<Rightarrow> (string \<times> string option) list" where
  "or_left_out name f v = (case v of None \<Rightarrow> [] | Some x \<Rightarrow> [(name, f x)])"

abbreviation text_json :: "string \<Rightarrow> string option" where
  "text_json s \<equiv> Some (quote s)"

abbreviation int_json :: "int \<Rightarrow> string option" where
  "int_json n \<equiv> Some (int_dec n)"

abbreviation bool_json :: "bool \<Rightarrow> string option" where
  "bool_json b \<equiv> Some (if b then ''true'' else ''false'')"

definition nonempty :: "string \<Rightarrow> string option" where
  "nonempty s = (if s = [] then None else Some s)"

section \<open>Data transfer objects\<close>

definition project_response :: "project \<Rightarrow> string option" where
  "project_response v =
     struct_json [(''id'', text_json (pj_id v)), (''slug'', text_json (pj_slug v)), (''name'', text_json (pj_name v)),
       (''status'', text_json (pj_status v)), (''created_at'', time_json (pj_created_at v)),
       (''updated_at'', time_json (pj_updated_at v))]"

text \<open>\<open>append([]Scope(nil), scopes...)\<close> is nil when there is none.\<close>

definition scopes_json :: "string list \<Rightarrow> string option" where
  "scopes_json scopes = (if scopes = [] then Some ''null'' else list_json text_json scopes)"

definition key_members :: "api_key \<Rightarrow> (string \<times> string option) list" where
  "key_members v =
     [(''id'', text_json (k_id v)), (''project_id'', text_json (k_project_id v))] @
     or_left_out ''agent_id'' text_json (k_agent_id v) @
     or_left_out ''name'' text_json (nonempty (k_name v)) @
     [(''prefix'', text_json (k_prefix v)), (''scopes'', scopes_json (k_scopes v)), (''status'', text_json (k_status v)),
      (''expires_at'', or_null time_json (k_expires_at v)), (''last_used_at'', or_null time_json (k_last_used_at v)),
      (''created_at'', time_json (k_created_at v))] @
     or_left_out ''revoked_at'' time_json (k_revoked_at v)"

definition key_response :: "api_key \<Rightarrow> string option" where
  "key_response v = struct_json (key_members v)"

definition created_key_response :: "created_key \<Rightarrow> string option" where
  "created_key_response v =
     struct_json (key_members (cd_key v) @ or_left_out ''secret'' text_json (nonempty (cd_secret v)) @
       [(''warning'', text_json ''This secret is shown once and cannot be recovered.'')])"

definition agent_response :: "agent \<Rightarrow> string option" where
  "agent_response v =
     struct_json ([(''id'', text_json (ag_id v)), (''project_id'', text_json (ag_project_id v)),
       (''name'', text_json (ag_name v)), (''hostname'', text_json (ag_hostname v)), (''version'', text_json (ag_version v)),
       (''status'', text_json (ag_status v)), (''last_heartbeat_at'', or_null time_json (ag_last_heartbeat v))] @
       or_left_out ''last_seen_ip'' text_json (nullable_ip_string (ag_last_seen_ip v)) @
       [(''created_at'', time_json (ag_created_at v)), (''updated_at'', time_json (ag_updated_at v))])"

text \<open>A \<open>json.RawMessage\<close> is written compact.\<close>

definition pipeline_response :: "pipeline \<Rightarrow> string option" where
  "pipeline_response v =
     struct_json ([(''id'', text_json (pl_id v)), (''project_id'', text_json (pl_project_id v)),
       (''agent_id'', text_json (pl_agent_id v)), (''name'', text_json (pl_name v)), (''service'', text_json (pl_service v))] @
       or_left_out ''config'' json_compact (nonempty (pl_config v)) @
       [(''config_version'', int_json (pl_config_version v)), (''status'', text_json (pl_status v)),
        (''reported_status'', text_json (pl_reported_status v)), (''reported_at'', or_null time_json (pl_reported_at v)),
        (''last_error'', or_null text_json (pl_last_error v)), (''updated_at'', time_json (pl_updated_at v))])"

definition entry_response :: "entry \<Rightarrow> string option" where
  "entry_response v =
     struct_json [(''id'', int_json (e_id v)), (''batch_id'', text_json (e_batch_id v)), (''agent_id'', text_json (e_agent_id v)),
       (''pipeline_id'', text_json (e_pipeline_id v)), (''service'', text_json (e_service v)), (''host'', text_json (e_host v)),
       (''level'', text_json (e_level v)), (''message'', text_json (e_message v)),
       (''observed_at'', time_json (e_observed_at v)), (''ingested_at'', time_json (e_ingested_at v)),
       (''attributes'', marshal_attributes (Some (e_attributes v)))]"

definition retention_response :: "retention_policy \<Rightarrow> string option" where
  "retention_response v =
     struct_json [(''project_id'', text_json (rp_project_id v)), (''max_age_seconds'', int_json (whole_seconds (rp_max_age v))),
       (''max_bytes'', or_null (\<lambda>n. int_json n) (rp_max_bytes v)), (''enabled'', bool_json (rp_enabled v)),
       (''updated_at'', time_json (rp_updated_at v))]"

definition usage_response :: "usage_bucket \<Rightarrow> string option" where
  "usage_response v =
     struct_json [(''project_id'', text_json (ub_project_id v)), (''bucket_start'', time_json (ub_bucket_start v)),
       (''entries'', int_json (ub_entries v)), (''bytes'', int_json (ub_bytes v)),
       (''failed_batches'', int_json (ub_failed_batches v))]"

definition audit_response :: "audit_event \<Rightarrow> string option" where
  "audit_response v =
     struct_json [(''id'', int_json (au_id v)), (''project_id'', or_null text_json (au_project_id v)),
       (''actor_type'', text_json (au_actor_type v)), (''actor_id'', text_json (au_actor_id v)),
       (''action'', text_json (au_action v)), (''resource'', text_json (au_resource v)),
       (''resource_id'', text_json (au_resource_id v)), (''outcome'', text_json (au_outcome v)),
       (''metadata'', json_compact (if au_metadata v = [] then ''{}'' else au_metadata v)),
       (''created_at'', time_json (au_created_at v))]"

definition quarantine_response :: "quarantine_batch \<Rightarrow> string option" where
  "quarantine_response v =
     struct_json [(''id'', text_json (qb_id v)), (''project_id'', text_json (qb_project_id v)),
       (''batch_id'', text_json (qb_batch_id v)), (''error_code'', text_json (qb_error_code v)),
       (''error_detail'', text_json (qb_error_detail v)), (''status'', text_json (qb_status v)),
       (''attempts'', int_json (qb_attempts v)), (''created_at'', time_json (qb_created_at v)),
       (''claimed_at'', or_null time_json (qb_claimed_at v)), (''resolved_at'', or_null time_json (qb_resolved_at v))]"

text \<open>What the handlers put around them; the keys of a \<open>gin.H\<close> are in order.\<close>

definition control_response :: "control_view \<Rightarrow> string option" where
  "control_response v =
     struct_json [(''config_version'', int_json (pc_config_version v)), (''desired_status'', text_json (pc_desired_status v)),
       (''id'', text_json (pc_id v))]"

definition heartbeat_response :: "heartbeat_result \<Rightarrow> string option" where
  "heartbeat_response v =
     struct_json [(''agent'', agent_response (hr_agent v)),
       (''control'', struct_json [(''pipelines'', list_json control_response (hr_pipelines v))])]"

definition accepted_response :: "ingest_result \<Rightarrow> string option" where
  "accepted_response v =
     struct_json [(''accepted_entries'', int_json (ir_accepted v)), (''batch_id'', text_json (ir_batch_id v)),
       (''status'', text_json (case ir_status v of Accepted \<Rightarrow> ''accepted'' | Duplicate \<Rightarrow> ''duplicate''))]"

definition page_response :: "entry list \<Rightarrow> string \<Rightarrow> string option" where
  "page_response es cursor =
     struct_json [(''entries'', list_json entry_response es), (''next_cursor'', or_null text_json (nonempty cursor))]"

end
