(* ===== verification/Http_Middleware.thy ===== *)
theory Http_Middleware
  imports Http_Dto Query_Service Go_Net
begin

text \<open>
  What stands in front of the handlers: the configuration and its checks (\<open>internal/server/httpapi/router.go\<close>), the
  request identifier, cross-origin requests, authentication and the principal of a project (\<open>middleware.go\<close>), and the
  readers of bodies and parameters (\<open>encoding.go\<close>). A request is what the router has matched and parsed: its headers,
  query parameters and body. \<open>recovery\<close> is not modelled, since no modelled operation panics.
\<close>

section \<open>The server\<close>

record http_config =
  hc_bootstrap_token :: bytes
  hc_origins :: "string list"
  hc_max_json :: int
  hc_limits :: limits
  hc_version :: string
  hc_ready_timeout :: duration

definition default_http_config :: http_config where
  "default_http_config =
     \<lparr>hc_bootstrap_token = [], hc_origins = [], hc_max_json = 2 ^ 20, hc_limits = default_limits, hc_version = ''dev'',
      hc_ready_timeout = 2 * second\<rparr>"

text \<open>The loop over the origins of \<open>New\<close>.\<close>

fun checked_origins :: "string list \<Rightarrow> string list option" where
  "checked_origins [] = Some []"
| "checked_origins (x # xs) =
     (let origin = trim_space x
      in if origin = [] \<or> origin = ''*'' \<or> CHR 0x0D \<in> set origin \<or> CHR 0x0A \<in> set origin then None
         else map_option (\<lambda>ys. origin # ys) (checked_origins xs))"

definition new_handler :: "bool \<Rightarrow> http_config \<Rightarrow> server_error + http_config" where
  "new_handler has_deps cfg =
     (if \<not> has_deps then Inl (Internal ''http api requires all dependencies'')
      else if length (hc_bootstrap_token cfg) < 24
        then Inl (Internal ''http api bootstrap token must contain at least 24 bytes'')
      else
        (let max_json = (if hc_max_json cfg \<le> 0 then 2 ^ 20 else hc_max_json cfg);
             limits = (if l_max_entries (hc_limits cfg) \<le> 0 then default_limits else hc_limits cfg);
             timeout = (if hc_ready_timeout cfg \<le> 0 then 2 * second else hc_ready_timeout cfg);
             version = (if blank (hc_version cfg) then ''dev'' else hc_version cfg)
         in (case checked_origins (hc_origins cfg) of
               None \<Rightarrow> Inl (Internal ''http api contains an invalid CORS origin'')
             | Some origins \<Rightarrow>
                 Inr \<lparr>hc_bootstrap_token = hc_bootstrap_token cfg, hc_origins = origins, hc_max_json = max_json,
                      hc_limits = limits, hc_version = version, hc_ready_timeout = timeout\<rparr>)))"

text \<open>The parts of the server, with the values they were built from; what a request changes; what a request takes from outside.\<close>

record server_env =
  se_ops :: ops_env
  se_query :: query_service
  se_pepper :: bytes
  se_http :: http_config

record server =
  sv_auth :: authenticator
  sv_touches :: "touch list"
  sv_admission :: "limiter option"
  sv_gate :: "project_limiter option"
  sv_pg :: pgstate

record http_call =
  hl_random :: "nat list option"
  hl_now :: time
  hl_auth_now :: time
  hl_ctx_done :: bool
  hl_control :: control_call
  hl_accept :: accept_call
  hl_acquire :: acquire_call
  hl_resolved_at :: time
  hl_draining :: bool
  hl_ping_ok :: bool
  hl_latency :: int

text \<open>A header that is absent is empty; the body is its bytes and whether reading it ends in an error.\<close>

record http_request =
  hq_options :: bool
  hq_authorization :: string
  hq_origin :: string
  hq_request_id :: string
  hq_query :: "(string \<times> string) list"
  hq_body :: "bytes \<times> bool"
  hq_remote_ip :: string

definition on_store :: "'a sql \<Rightarrow> (server, 'a) act" where
  "on_store m sv = (case m (sv_pg sv) of (r, s) \<Rightarrow> (r, sv\<lparr>sv_pg := s\<rparr>))"

definition on_ingest :: "(limiter option \<times> pgstate, 'a) act \<Rightarrow> (server, 'a) act" where
  "on_ingest m sv = (case m (sv_admission sv, sv_pg sv) of (r, l, s) \<Rightarrow> (r, sv\<lparr>sv_admission := l, sv_pg := s\<rparr>))"

definition on_search :: "(query_state, 'a) act \<Rightarrow> (server, 'a) act" where
  "on_search m sv = (case m (sv_gate sv, sv_pg sv) of (r, g, s) \<Rightarrow> (r, sv\<lparr>sv_gate := g, sv_pg := s\<rparr>))"

section \<open>Request identifier and origins\<close>

text \<open>A rune beyond ASCII starts with a byte beyond 127.\<close>

definition request_id_char :: "char \<Rightarrow> bool" where
  "request_id_char c \<longleftrightarrow> byte_val c \<le> 127 \<and> \<not> (byte_val c < 32 \<or> byte_val c = 127) \<and> byte_val c \<noteq> 32"

definition valid_request_id :: "string \<Rightarrow> bool" where
  "valid_request_id value \<longleftrightarrow> value \<noteq> [] \<and> length value \<le> 128 \<and> list_all request_id_char value"

definition request_id :: "nat list option \<Rightarrow> http_request \<Rightarrow> string" where
  "request_id random rq =
     (if valid_request_id (hq_request_id rq) then hq_request_id rq
      else case random of Some raw \<Rightarrow> hex_encode raw | None \<Rightarrow> ''request-id-unavailable'')"

text \<open>\<open>cors\<close>: an answer that ends the chain, and the headers of the response.\<close>

definition allow_headers :: "string \<Rightarrow> (string \<times> string) list" where
  "allow_headers origin =
     [(''Access-Control-Allow-Origin'', origin), (''Vary'', ''Origin''),
      (''Access-Control-Allow-Headers'', ''Authorization, Content-Type, X-Request-ID''),
      (''Access-Control-Allow-Methods'', ''GET, POST, PUT, OPTIONS''),
      (''Access-Control-Expose-Headers'', ''X-Request-ID'')]"

definition cors :: "string list \<Rightarrow> string \<Rightarrow> http_request \<Rightarrow> http_response option \<times> (string \<times> string) list" where
  "cors origins rid rq =
     (let origin = hq_origin rq; allowed = origin \<in> set origins;
          headers = (if origin \<noteq> [] \<and> allowed then allow_headers origin else [])
      in if origin \<noteq> [] \<and> \<not> allowed \<and> hq_options rq
           then (Some (write_error rid (err_forbidden ''origin is not allowed'')), headers)
         else if hq_options rq then (Some \<lparr>rs_status = 204, rs_headers = [], rs_body = []\<rparr>, headers)
         else (None, headers))"

section \<open>Authentication\<close>

record http_caller =
  cl_bootstrap :: bool
  cl_principal :: principal

definition bootstrap_key_id :: uuid where
  "bootstrap_key_id = ''00000000-0000-4000-8000-000000000001''"

definition bootstrap_project_id :: uuid where
  "bootstrap_project_id = ''00000000-0000-4000-8000-000000000002''"

definition bootstrap_principal :: principal where
  "bootstrap_principal =
     \<lparr>pr_key_id = bootstrap_key_id, pr_project_id = bootstrap_project_id, pr_agent_id = None,
      pr_scopes = {''ingest'', ''query'', ''project:read'', ''project:write'', ''key:manage'', ''agent:read'', ''agent:write'',
        ''pipeline:read'', ''pipeline:write'', ''quarantine:read'', ''quarantine:replay'', ''retention:manage'', ''audit:read''}\<rparr>"

text \<open>None of the letters of \<open>Bearer\<close> is the fold of a rune beyond ASCII.\<close>

definition bearer_token :: "string \<Rightarrow> string option" where
  "bearer_token header =
     (if length header < 8 \<or> map ascii_lower (take 7 header) \<noteq> ''bearer '' then None
      else let raw = trim_space (drop 7 header)
           in if raw \<noteq> [] \<and> list_all (\<lambda>c. c \<noteq> CHR '' '' \<and> c \<noteq> CHR 0x09 \<and> c \<noteq> CHR 0x0D \<and> c \<noteq> CHR 0x0A) raw \<and>
                length raw \<le> 768 then Some raw else None)"

definition secure_equal :: "string \<Rightarrow> bytes \<Rightarrow> bool" where
  "secure_equal raw expected \<longleftrightarrow> length raw = length expected \<and> raw = expected"

text \<open>\<open>Authenticate\<close> with the repository of the store: the candidates are read only for a well-formed credential.\<close>

definition authenticate_key :: "pg \<Rightarrow> http_call \<Rightarrow> string \<Rightarrow> (server, principal) act" where
  "authenticate_key pg c raw sv =
     (let (found, s) = (case parse_key raw of
                          None \<Rightarrow> (Inr [], sv_pg sv)
                        | Some (pfx, _) \<Rightarrow> keys_find_active_by_prefix pg pfx (hl_auth_now c) (sv_pg sv));
          (r, a, touched) = authenticate (\<lambda>_ _. found) True (hl_ctx_done c) (hl_auth_now c) raw (sv_auth sv)
      in (r, sv\<lparr>sv_auth := a, sv_touches := sv_touches sv @ (case touched of None \<Rightarrow> [] | Some t \<Rightarrow> [t]), sv_pg := s\<rparr>))"

definition authenticate_request :: "server_env \<Rightarrow> http_call \<Rightarrow> http_request \<Rightarrow> (server, http_caller) act" where
  "authenticate_request env c rq sv =
     (case bearer_token (hq_authorization rq) of
        None \<Rightarrow> fail err_unauthorized sv
      | Some raw \<Rightarrow>
          if secure_equal raw (hc_bootstrap_token (se_http env))
            then ret \<lparr>cl_bootstrap = True, cl_principal = bootstrap_principal\<rparr> sv
          else (case authenticate_key (oe_pg (se_ops env)) c raw sv of
                  (Inl e, sv') \<Rightarrow> fail (if err_is e (\<lambda>x. x = InvalidCredential) then err_unauthorized else e) sv'
                | (Inr p, sv') \<Rightarrow>
                    if \<not> principal_valid p then fail err_unauthorized sv'
                    else ret \<lparr>cl_bootstrap = False, cl_principal = p\<rparr> sv'))"

text \<open>The goroutine that records the last use of a key, some time later.\<close>

definition finish_touch :: "pg \<Rightarrow> nat \<Rightarrow> server \<Rightarrow> server" where
  "finish_touch pg n sv =
     (if n < length (sv_touches sv)
      then (let t = sv_touches sv ! n
            in sv\<lparr>sv_auth := observation_done (sv_auth sv),
                  sv_touches := take n (sv_touches sv) @ drop (Suc n) (sv_touches sv),
                  sv_pg := snd (keys_touch_last_used pg (t_project t) (t_key t) (t_at t) (sv_pg sv))\<rparr>)
      else sv)"

text \<open>\<open>projectPrincipal\<close> and \<open>queryProjectPrincipal\<close>: the principal with the project it acts for.\<close>

definition project_principal :: "http_caller \<Rightarrow> string \<Rightarrow> string \<Rightarrow> server_error + principal" where
  "project_principal c raw scope =
     (let project = trim_space raw; p = cl_principal c
      in if \<not> valid_uuid project then Inl (err_bad_request ''invalid_project_id'' ''project_id must be a UUID'')
         else (case require_scope p scope of
                 Some e \<Rightarrow> Inl e
               | None \<Rightarrow>
                   if cl_bootstrap c then Inr (p\<lparr>pr_project_id := project\<rparr>)
                   else (case require_project p project of Some e \<Rightarrow> Inl e | None \<Rightarrow> Inr p)))"

section \<open>Parameters and bodies\<close>

definition query_get :: "http_request \<Rightarrow> string \<Rightarrow> string" where
  "query_get rq name = (case map_of (hq_query rq) name of None \<Rightarrow> [] | Some v \<Rightarrow> v)"

definition query_array :: "http_request \<Rightarrow> string \<Rightarrow> string list" where
  "query_array rq name = map snd (filter (\<lambda>kv. fst kv = name) (hq_query rq))"

definition query_project_principal :: "http_caller \<Rightarrow> http_request \<Rightarrow> string \<Rightarrow> server_error + principal" where
  "query_project_principal c rq scope =
     (let given = trim_space (query_get rq ''project_id'');
          raw = (if given = [] \<and> \<not> cl_bootstrap c then pr_project_id (cl_principal c) else given)
      in if raw = [] then Inl (err_bad_request ''project_required'' ''project_id is required for bootstrap requests'')
         else project_principal c raw scope)"

definition query_int :: "http_request \<Rightarrow> string \<Rightarrow> int \<Rightarrow> int \<Rightarrow> server_error + int" where
  "query_int rq name fallback maximum =
     (let raw = trim_space (query_get rq name)
      in if raw = [] then Inr fallback
         else (case parse_int64 raw of
                 Some n \<Rightarrow> if n \<le> 0 \<or> n > maximum
                            then Inl (err_bad_request (''invalid_'' @ name) (name @ '' is outside the allowed range'')) else Inr n
               | None \<Rightarrow> Inl (err_bad_request (''invalid_'' @ name) (name @ '' is outside the allowed range''))))"

definition parse_rfc3339 :: "string \<Rightarrow> string \<Rightarrow> server_error + time" where
  "parse_rfc3339 raw field =
     (let text = trim_space raw
      in case time_parse text of
           Some t \<Rightarrow> (let year = dec_nat (take 4 text)
                       in if year < 1970 \<or> year > 9999
                          then Inl (err_bad_request (''invalid_'' @ field) (field @ '' must be an RFC3339 timestamp'')) else Inr t)
         | None \<Rightarrow> Inl (err_bad_request (''invalid_'' @ field) (field @ '' must be an RFC3339 timestamp'')))"

definition decode_json :: "(json \<Rightarrow> 'a \<Rightarrow> 'a option) \<Rightarrow> 'a \<Rightarrow> int \<Rightarrow> http_request \<Rightarrow> server_error + 'a" where
  "decode_json dec zero max_bytes rq =
     (let (content, fails) = hq_body rq; raw = take (nat (max_bytes + 1)) content
      in if fails \<and> int (length content) \<le> max_bytes then Inl (Internal ''read request body'')
         else if int (length raw) > max_bytes then Inl (Protocol BodyTooLarge)
         else (case json_first raw of
                 None \<Rightarrow> Inl (err_bad_request ''invalid_json'' ''request body is not valid JSON'')
               | Some (v, rest) \<Rightarrow>
                   (case dec v zero of
                      None \<Rightarrow> Inl (err_bad_request ''invalid_json'' ''request body is not valid JSON'')
                    | Some x \<Rightarrow>
                        if skip_ws rest \<noteq> []
                          then Inl (err_bad_request ''invalid_json'' ''request body must contain exactly one JSON object'')
                        else Inr x)))"

end
