(* ===== verification/Http_Api.thy ===== *)
theory Http_Api
  imports Http_Middleware
begin

text \<open>
  The handlers of the HTTP API (\<open>internal/server/httpapi/handlers.go\<close>) and the routes (\<open>router.go\<close>). A handler is an
  action on the server that ends in a reply or in an error; \<open>http_serve\<close> is the chain of the middleware around it. The
  router that matches a path is third-party code: a request comes with its route and the parameters of the path.
\<close>

section \<open>Replies\<close>

text \<open>A body that cannot be written as JSON leaves the status and no body.\<close>

datatype reply = Json int "string option" | NoContent

definition reply_response :: "reply \<Rightarrow> http_response" where
  "reply_response r =
     (case r of
        Json status body \<Rightarrow> \<lparr>rs_status = status, rs_headers = [], rs_body = (case body of None \<Rightarrow> [] | Some t \<Rightarrow> t)\<rparr>
      | NoContent \<Rightarrow> \<lparr>rs_status = 204, rs_headers = [], rs_body = []\<rparr>)"

definition reply_one :: "int \<Rightarrow> string \<Rightarrow> string option \<Rightarrow> ('s, reply) act" where
  "reply_one status name body = ret (Json status (struct_json [(name, body)]))"

section \<open>Request bodies\<close>

definition dec_bool :: "json \<Rightarrow> bool \<Rightarrow> bool option" where
  "dec_bool v old = (case v of JNull \<Rightarrow> Some old | JBool b \<Rightarrow> Some b | _ \<Rightarrow> None)"

definition dec_pointer :: "(json \<Rightarrow> 'a \<Rightarrow> 'a option) \<Rightarrow> 'a \<Rightarrow> json \<Rightarrow> 'a option \<Rightarrow> 'a option option" where
  "dec_pointer dec zero v old =
     (case v of JNull \<Rightarrow> Some None | _ \<Rightarrow> map_option Some (dec v (case old of None \<Rightarrow> zero | Some x \<Rightarrow> x)))"

fun dec_items :: "(json \<Rightarrow> 'a \<Rightarrow> 'a option) \<Rightarrow> 'a \<Rightarrow> json list \<Rightarrow> 'a list \<Rightarrow> 'a list option" where
  "dec_items dec zero [] old = Some []"
| "dec_items dec zero (v # vs) old =
     (case dec v (case old of [] \<Rightarrow> zero | x # _ \<Rightarrow> x) of
        None \<Rightarrow> None
      | Some x \<Rightarrow> map_option (\<lambda>xs. x # xs) (dec_items dec zero vs (tl old)))"

definition dec_slice :: "(json \<Rightarrow> 'a \<Rightarrow> 'a option) \<Rightarrow> 'a \<Rightarrow> json \<Rightarrow> 'a list \<Rightarrow> 'a list option" where
  "dec_slice dec zero v old = (case v of JNull \<Rightarrow> Some [] | JArr vs \<Rightarrow> dec_items dec zero vs old | _ \<Rightarrow> None)"

record project_body = bp_slug :: string  bp_name :: string

definition dec_project_body :: "json \<Rightarrow> project_body \<Rightarrow> project_body option" where
  "dec_project_body = dec_struct True [''slug'', ''name''] (\<lambda>n t v b.
     if n = ''slug'' then map_option (\<lambda>x. b\<lparr>bp_slug := x\<rparr>) (dec_string v (bp_slug b))
     else map_option (\<lambda>x. b\<lparr>bp_name := x\<rparr>) (dec_string v (bp_name b)))"

record key_body =
  bk_name :: string
  bk_agent_id :: "uuid option"
  bk_scopes :: "string list"
  bk_expires_at :: "time option"

definition dec_key_body :: "json \<Rightarrow> key_body \<Rightarrow> key_body option" where
  "dec_key_body = dec_struct True [''name'', ''agent_id'', ''scopes'', ''expires_at''] (\<lambda>n t v b.
     if n = ''name'' then map_option (\<lambda>x. b\<lparr>bk_name := x\<rparr>) (dec_string v (bk_name b))
     else if n = ''agent_id'' then map_option (\<lambda>x. b\<lparr>bk_agent_id := x\<rparr>) (dec_pointer dec_string [] v (bk_agent_id b))
     else if n = ''scopes'' then map_option (\<lambda>x. b\<lparr>bk_scopes := x\<rparr>) (dec_slice dec_string [] v (bk_scopes b))
     else map_option (\<lambda>x. b\<lparr>bk_expires_at := x\<rparr>) (dec_pointer dec_time zero_time v (bk_expires_at b)))"

record agent_body = ba_name :: string  ba_hostname :: string  ba_version :: string

definition dec_agent_body :: "json \<Rightarrow> agent_body \<Rightarrow> agent_body option" where
  "dec_agent_body = dec_struct True [''name'', ''hostname'', ''version''] (\<lambda>n t v b.
     if n = ''name'' then map_option (\<lambda>x. b\<lparr>ba_name := x\<rparr>) (dec_string v (ba_name b))
     else if n = ''hostname'' then map_option (\<lambda>x. b\<lparr>ba_hostname := x\<rparr>) (dec_string v (ba_hostname b))
     else map_option (\<lambda>x. b\<lparr>ba_version := x\<rparr>) (dec_string v (ba_version b)))"

definition dec_report :: "json \<Rightarrow> pipeline_report \<Rightarrow> pipeline_report option" where
  "dec_report = dec_struct True [''id'', ''config_version'', ''status'', ''last_error''] (\<lambda>n t v b.
     if n = ''id'' then map_option (\<lambda>x. b\<lparr>pt_id := x\<rparr>) (dec_string v (pt_id b))
     else if n = ''config_version'' then map_option (\<lambda>x. b\<lparr>pt_config_version := x\<rparr>) (dec_int v (pt_config_version b))
     else if n = ''status'' then map_option (\<lambda>x. b\<lparr>pt_status := x\<rparr>) (dec_string v (pt_status b))
     else map_option (\<lambda>x. b\<lparr>pt_last_error := x\<rparr>) (dec_pointer dec_string [] v (pt_last_error b)))"

record heartbeat_request_body = bh_version :: string  bh_pipelines :: "pipeline_report list"

definition dec_heartbeat_body :: "json \<Rightarrow> heartbeat_request_body \<Rightarrow> heartbeat_request_body option" where
  "dec_heartbeat_body = dec_struct True [''version'', ''pipelines''] (\<lambda>n t v b.
     if n = ''version'' then map_option (\<lambda>x. b\<lparr>bh_version := x\<rparr>) (dec_string v (bh_version b))
     else map_option (\<lambda>x. b\<lparr>bh_pipelines := x\<rparr>)
       (dec_slice dec_report \<lparr>pt_id = [], pt_config_version = 0, pt_status = [], pt_last_error = None\<rparr> v (bh_pipelines b)))"

text \<open>A \<open>json.RawMessage\<close> takes the text of the value, also of \<open>null\<close>.\<close>

record pipeline_body = bn_agent_id :: uuid  bn_name :: string  bn_service :: string  bn_config :: bytes

definition dec_pipeline_body :: "json \<Rightarrow> pipeline_body \<Rightarrow> pipeline_body option" where
  "dec_pipeline_body = dec_struct True [''agent_id'', ''name'', ''service'', ''config''] (\<lambda>n t v b.
     if n = ''agent_id'' then map_option (\<lambda>x. b\<lparr>bn_agent_id := x\<rparr>) (dec_string v (bn_agent_id b))
     else if n = ''name'' then map_option (\<lambda>x. b\<lparr>bn_name := x\<rparr>) (dec_string v (bn_name b))
     else if n = ''service'' then map_option (\<lambda>x. b\<lparr>bn_service := x\<rparr>) (dec_string v (bn_service b))
     else Some (b\<lparr>bn_config := t\<rparr>))"

record config_body = bc_expected_version :: int  bc_config :: bytes

definition dec_config_body :: "json \<Rightarrow> config_body \<Rightarrow> config_body option" where
  "dec_config_body = dec_struct True [''expected_version'', ''config''] (\<lambda>n t v b.
     if n = ''expected_version'' then map_option (\<lambda>x. b\<lparr>bc_expected_version := x\<rparr>) (dec_int v (bc_expected_version b))
     else Some (b\<lparr>bc_config := t\<rparr>))"

record retention_body = br_max_age_seconds :: int  br_max_bytes :: "int option"  br_enabled :: bool

definition dec_retention_body :: "json \<Rightarrow> retention_body \<Rightarrow> retention_body option" where
  "dec_retention_body = dec_struct True [''max_age_seconds'', ''max_bytes'', ''enabled''] (\<lambda>n t v b.
     if n = ''max_age_seconds'' then map_option (\<lambda>x. b\<lparr>br_max_age_seconds := x\<rparr>) (dec_int v (br_max_age_seconds b))
     else if n = ''max_bytes'' then map_option (\<lambda>x. b\<lparr>br_max_bytes := x\<rparr>) (dec_pointer dec_int 0 v (br_max_bytes b))
     else map_option (\<lambda>x. b\<lparr>br_enabled := x\<rparr>) (dec_bool v (br_enabled b)))"

definition body_of :: "server_env \<Rightarrow> (json \<Rightarrow> 'a \<Rightarrow> 'a option) \<Rightarrow> 'a \<Rightarrow> http_request \<Rightarrow> (server, 'a) act" where
  "body_of env dec zero rq = lift (decode_json dec zero (hc_max_json (se_http env)) rq)"

section \<open>Health\<close>

definition health_reply :: "http_config \<Rightarrow> http_call \<Rightarrow> reply" where
  "health_reply cfg c =
     Json 200 (struct_json [(''observed_at'', time_json (hl_now c)), (''status'', text_json ''healthy''),
       (''version'', text_json (hc_version cfg))])"

definition database_check :: "http_call \<Rightarrow> string \<Rightarrow> string option" where
  "database_check c status =
     struct_json [(''database'', struct_json [(''latency_ms'', int_json (hl_latency c)), (''status'', text_json status)])]"

definition ready_reply :: "http_config \<Rightarrow> http_call \<Rightarrow> reply" where
  "ready_reply cfg c =
     (if hl_draining c
        then Json 503 (struct_json [(''checks'', struct_json [(''server'', struct_json [(''status'', text_json ''draining'')])]),
          (''observed_at'', time_json (hl_now c)), (''status'', text_json ''draining''), (''version'', text_json (hc_version cfg))])
      else if \<not> hl_ping_ok c
        then Json 503 (struct_json [(''checks'', database_check c ''unavailable''), (''observed_at'', time_json (hl_now c)),
          (''status'', text_json ''unavailable''), (''version'', text_json (hc_version cfg))])
      else Json 200 (struct_json [(''checks'', database_check c ''healthy''), (''observed_at'', time_json (hl_now c)),
          (''status'', text_json ''healthy''), (''version'', text_json (hc_version cfg))]))"

section \<open>Projects and keys\<close>

type_synonym handler = "server_env \<Rightarrow> http_call \<Rightarrow> http_request \<Rightarrow> http_caller \<Rightarrow> (server, reply) act"

definition list_projects :: handler where
  "list_projects env c rq cl =
     andthen (check (require_scope (cl_principal cl) ''project:read'')) (\<lambda>_.
     andthen (if cl_bootstrap cl then on_store (projects_list 1000)
              else andthen (on_store (projects_get (pr_project_id (cl_principal cl)))) (\<lambda>project. ret [project])) (\<lambda>projects.
     reply_one 200 ''projects'' (list_json project_response projects)))"

definition post_project :: handler where
  "post_project env c rq cl =
     (if \<not> cl_bootstrap cl then fail (err_forbidden ''only the bootstrap administrator can create projects'')
      else andthen (body_of env dec_project_body \<lparr>bp_slug = [], bp_name = []\<rparr> rq) (\<lambda>body.
        andthen (on_store (create_project (oe_pg (se_ops env)) (cl_principal cl) (bp_slug body) (bp_name body) (hl_control c))) (\<lambda>project.
        reply_one 201 ''project'' (project_response project))))"

definition post_project_status :: "string \<Rightarrow> bool \<Rightarrow> handler" where
  "post_project_status project enable env c rq cl =
     andthen (lift (project_principal cl project ''project:write'')) (\<lambda>p.
     andthen (on_store (set_project_status (oe_pg (se_ops env)) p (pr_project_id p) (if enable then ''active'' else ''disabled''))) (\<lambda>row.
     reply_one 200 ''project'' (project_response row)))"

definition list_keys :: "string \<Rightarrow> handler" where
  "list_keys project env c rq cl =
     andthen (lift (project_principal cl project ''key:manage'')) (\<lambda>p.
     andthen (on_store (keys_list (pr_project_id p) 1000)) (\<lambda>keys.
     reply_one 200 ''keys'' (list_json key_response keys)))"

definition post_key :: "string \<Rightarrow> handler" where
  "post_key project env c rq cl =
     andthen (lift (project_principal cl project ''key:manage'')) (\<lambda>p.
     andthen (body_of env dec_key_body \<lparr>bk_name = [], bk_agent_id = None, bk_scopes = [], bk_expires_at = None\<rparr> rq) (\<lambda>body.
     if length (bk_name body) > 128 then fail (err_bad_request ''invalid_name'' ''name exceeds 128 bytes'')
     else andthen (on_store (create_key (oe_pg (se_ops env)) (se_pepper env) p
            \<lparr>ck_project_id = pr_project_id p, ck_agent_id = bk_agent_id body, ck_name = bk_name body,
             ck_scopes = bk_scopes body, ck_expires_at = bk_expires_at body\<rparr> (hl_control c))) (\<lambda>created.
       reply_one 201 ''key'' (created_key_response created))))"

definition post_key_revoke :: "string \<Rightarrow> string \<Rightarrow> handler" where
  "post_key_revoke project key env c rq cl =
     andthen (lift (project_principal cl project ''key:manage'')) (\<lambda>p.
     if \<not> valid_uuid key then fail (err_bad_request ''invalid_key_id'' ''keyID must be a UUID'')
     else andthen (on_store (revoke_key (oe_pg (se_ops env)) p (pr_project_id p) key (hl_control c))) (\<lambda>_. ret NoContent))"

section \<open>Agents and pipelines\<close>

definition list_agents :: handler where
  "list_agents env c rq cl =
     andthen (lift (query_project_principal cl rq ''agent:read'')) (\<lambda>p.
     andthen (on_store (agents_list (oe_pg (se_ops env)) (pr_project_id p) 1000)) (\<lambda>agents.
     reply_one 200 ''agents'' (list_json agent_response agents)))"

definition post_agent :: "string \<Rightarrow> handler" where
  "post_agent project env c rq cl =
     andthen (lift (project_principal cl project ''agent:write'')) (\<lambda>p.
     andthen (body_of env dec_agent_body \<lparr>ba_name = [], ba_hostname = [], ba_version = []\<rparr> rq) (\<lambda>body.
     andthen (on_store (register_agent (oe_pg (se_ops env)) p
       \<lparr>ra_project_id = pr_project_id p, ra_name = ba_name body, ra_hostname = ba_hostname body, ra_version = ba_version body\<rparr>
       (hl_control c))) (\<lambda>agent.
     reply_one 201 ''agent'' (agent_response agent))))"

definition post_heartbeat :: "string \<Rightarrow> handler" where
  "post_heartbeat agent env c rq cl =
     andthen (lift (query_project_principal cl rq ''agent:write'')) (\<lambda>p.
     if \<not> valid_uuid agent then fail (err_bad_request ''invalid_agent_id'' ''agentID must be a UUID'')
     else andthen (body_of env dec_heartbeat_body \<lparr>bh_version = [], bh_pipelines = []\<rparr> rq) (\<lambda>body.
       andthen (on_store (heartbeat (oe_pg (se_ops env)) p
         \<lparr>hb_project_id = pr_project_id p, hb_agent_id = agent, hb_version = bh_version body,
          hb_ip = parse_ip (hq_remote_ip rq), hb_pipelines = bh_pipelines body\<rparr> (hl_control c))) (\<lambda>result.
       ret (Json 200 (heartbeat_response result)))))"

definition list_pipelines :: handler where
  "list_pipelines env c rq cl =
     andthen (lift (query_project_principal cl rq ''pipeline:read'')) (\<lambda>p.
     andthen (on_store (pipelines_list (pr_project_id p) 1000)) (\<lambda>pipelines.
     reply_one 200 ''pipelines'' (list_json pipeline_response pipelines)))"

definition post_pipeline :: "string \<Rightarrow> handler" where
  "post_pipeline project env c rq cl =
     andthen (lift (project_principal cl project ''pipeline:write'')) (\<lambda>p.
     andthen (body_of env dec_pipeline_body \<lparr>bn_agent_id = [], bn_name = [], bn_service = [], bn_config = []\<rparr> rq) (\<lambda>body.
     andthen (on_store (create_pipeline (oe_pg (se_ops env)) p
       \<lparr>cn_project_id = pr_project_id p, cn_agent_id = bn_agent_id body, cn_name = bn_name body,
        cn_service = bn_service body, cn_config = bn_config body\<rparr> (hl_control c))) (\<lambda>pipeline.
     reply_one 201 ''pipeline'' (pipeline_response pipeline))))"

definition pipeline_principal :: "http_caller \<Rightarrow> string \<Rightarrow> string \<Rightarrow> server_error + principal" where
  "pipeline_principal cl project pipeline =
     (case project_principal cl project ''pipeline:write'' of
        Inl e \<Rightarrow> Inl e
      | Inr p \<Rightarrow>
          if \<not> valid_uuid pipeline then Inl (err_bad_request ''invalid_pipeline_id'' ''pipelineID must be a UUID'') else Inr p)"

definition put_pipeline :: "string \<Rightarrow> string \<Rightarrow> handler" where
  "put_pipeline project pipeline env c rq cl =
     andthen (lift (pipeline_principal cl project pipeline)) (\<lambda>p.
     andthen (body_of env dec_config_body \<lparr>bc_expected_version = 0, bc_config = []\<rparr> rq) (\<lambda>body.
     andthen (on_store (update_pipeline_config (oe_pg (se_ops env)) p (pr_project_id p) pipeline (bc_expected_version body)
       (bc_config body))) (\<lambda>row.
     reply_one 200 ''pipeline'' (pipeline_response row))))"

definition action_status :: "string \<Rightarrow> string option" where
  "action_status = map_of [(''enable'', ''enabled''), (''pause'', ''paused''), (''disable'', ''disabled'')]"

definition post_pipeline_status :: "string \<Rightarrow> string \<Rightarrow> string \<Rightarrow> handler" where
  "post_pipeline_status project pipeline action env c rq cl =
     andthen (lift (pipeline_principal cl project pipeline)) (\<lambda>p.
     case action_status action of
       None \<Rightarrow> fail (err_bad_request ''invalid_pipeline_action'' ''pipeline action must be enable, pause, or disable'')
     | Some status \<Rightarrow>
         andthen (on_store (set_pipeline_status (oe_pg (se_ops env)) p (pr_project_id p) pipeline status)) (\<lambda>row.
         reply_one 200 ''pipeline'' (pipeline_response row)))"

section \<open>Batches and entries\<close>

definition post_batch :: handler where
  "post_batch env c rq cl =
     (if cl_bootstrap cl then fail (err_forbidden ''bootstrap credentials cannot ingest agent batches'')
      else
        (let p = cl_principal cl; lims = oe_limits (se_ops env);
             (decoded, n) = decode (Some (hq_body rq)) (l_max_body_bytes lims)
         in (case decoded of
               Inl e \<Rightarrow> fail (Protocol e)
             | Inr request \<Rightarrow>
                 (case normalize (oe_upper (se_ops env)) (oe_lower (se_ops env)) request (pr_project_id p) (int n) lims of
                    Inl e \<Rightarrow> fail (Protocol e)
                  | Inr batch \<Rightarrow>
                      andthen (on_ingest (accept (oe_pg (se_ops env)) p batch (hl_accept c))) (\<lambda>result.
                      ret (Json 200 (accepted_response result)))))))"

definition search_params :: "http_request \<Rightarrow> int \<Rightarrow> params" where
  "search_params rq limit =
     \<lparr>pm_from = query_get rq ''from'', pm_to = query_get rq ''to'', pm_services = query_array rq ''service'',
      pm_hosts = query_array rq ''host'', pm_levels = query_array rq ''level'', pm_message = query_get rq ''q'',
      pm_limit = limit, pm_cursor = query_get rq ''cursor''\<rparr>"

definition search_entries :: handler where
  "search_entries env c rq cl =
     andthen (lift (query_project_principal cl rq ''query'')) (\<lambda>p.
     andthen (lift (query_int rq ''limit'' 0 500)) (\<lambda>limit.
     andthen (on_search (search (oe_pg (se_ops env)) (oe_upper (se_ops env)) (se_query env) p (search_params rq limit)
       (hl_acquire c))) (\<lambda>page.
     ret (Json 200 (page_response (pe_entries page) (pe_next page))))))"

section \<open>Retention, usage, audit and quarantine\<close>

definition get_retention :: "string \<Rightarrow> handler" where
  "get_retention project env c rq cl =
     andthen (lift (project_principal cl project ''retention:manage'')) (\<lambda>p.
     andthen (on_store (retention_get (pr_project_id p))) (\<lambda>policy.
     reply_one 200 ''policy'' (retention_response policy)))"

definition put_retention :: "string \<Rightarrow> handler" where
  "put_retention project env c rq cl =
     andthen (lift (project_principal cl project ''retention:manage'')) (\<lambda>p.
     andthen (body_of env dec_retention_body \<lparr>br_max_age_seconds = 0, br_max_bytes = None, br_enabled = False\<rparr> rq) (\<lambda>body.
     if br_max_age_seconds body \<le> 0 \<or> br_max_age_seconds body > 10 * 365 * 24 * 3600 \<or>
        (case br_max_bytes body of None \<Rightarrow> False | Some n \<Rightarrow> n \<le> 0)
       then fail (err_bad_request ''invalid_retention'' ''retention limits are outside the allowed range'')
     else andthen (on_store (set_retention (oe_pg (se_ops env)) p
            \<lparr>rp_project_id = pr_project_id p, rp_max_age = br_max_age_seconds body * second,
             rp_max_bytes = br_max_bytes body, rp_enabled = br_enabled body, rp_updated_at = zero_time\<rparr>)) (\<lambda>policy.
       reply_one 200 ''policy'' (retention_response policy))))"

definition usage_range :: "http_request \<Rightarrow> server_error + time \<times> time" where
  "usage_range rq =
     (case parse_rfc3339 (query_get rq ''from'') ''from'' of
        Inl e \<Rightarrow> Inl e
      | Inr from \<Rightarrow>
          (case parse_rfc3339 (query_get rq ''to'') ''to'' of
             Inr to \<Rightarrow>
               if \<not> from < to \<or> time_sub to from > 366 * 24 * 3600 * second
                 then Inl (err_bad_request ''invalid_time_range'' ''usage range must be positive and at most 366 days'')
               else Inr (from, to)
           | Inl _ \<Rightarrow> Inl (err_bad_request ''invalid_time_range'' ''usage range must be positive and at most 366 days'')))"

definition get_usage :: "string \<Rightarrow> handler" where
  "get_usage project env c rq cl =
     andthen (lift (project_principal cl project ''project:read'')) (\<lambda>p.
     andthen (lift (usage_range rq)) (\<lambda>(from, to).
     andthen (on_store (usage_list (oe_pg (se_ops env)) (pr_project_id p) from to)) (\<lambda>buckets.
     reply_one 200 ''buckets'' (list_json usage_response buckets))))"

definition audit_before :: "http_request \<Rightarrow> server_error + time option" where
  "audit_before rq =
     (let raw = query_get rq ''before''
      in if raw = [] then Inr None
         else (case parse_rfc3339 raw ''before'' of Inl e \<Rightarrow> Inl e | Inr t \<Rightarrow> Inr (Some t)))"

definition with_null_cursor :: "string \<Rightarrow> string option \<Rightarrow> reply" where
  "with_null_cursor name body = Json 200 (struct_json [(name, body), (''next_cursor'', Some ''null'')])"

definition list_audit :: handler where
  "list_audit env c rq cl =
     andthen (lift (query_project_principal cl rq ''audit:read'')) (\<lambda>p.
     andthen (lift (query_int rq ''limit'' 100 500)) (\<lambda>limit.
     andthen (lift (audit_before rq)) (\<lambda>before.
     andthen (on_store (audit_list (oe_pg (se_ops env)) (pr_project_id p) before limit)) (\<lambda>events.
     ret (with_null_cursor ''events'' (list_json audit_response events))))))"

definition list_quarantine :: handler where
  "list_quarantine env c rq cl =
     andthen (lift (query_project_principal cl rq ''quarantine:read'')) (\<lambda>p.
     andthen (lift (query_int rq ''limit'' 100 1000)) (\<lambda>limit.
     andthen (on_store (quarantine_list (pr_project_id p) limit)) (\<lambda>batches.
     ret (with_null_cursor ''batches'' (list_json quarantine_response batches)))))"

text \<open>The project of the row is looked up only for the bootstrap administrator.\<close>

definition quarantine_project :: "http_caller \<Rightarrow> http_request \<Rightarrow> string \<Rightarrow> (server, string) act" where
  "quarantine_project cl rq i =
     (let given = trim_space (query_get rq ''project_id'')
      in andthen (if given = [] \<and> cl_bootstrap cl then on_store (quarantine_find_project i) else ret given) (\<lambda>project.
         ret (if project = [] then pr_project_id (cl_principal cl) else project)))"

definition post_quarantine :: "string \<Rightarrow> bool \<Rightarrow> handler" where
  "post_quarantine i replay env c rq cl =
     (if \<not> valid_uuid i then fail (err_bad_request ''invalid_quarantine_id'' ''quarantine id must be a UUID'')
      else
        andthen (quarantine_project cl rq i) (\<lambda>project.
        andthen (lift (project_principal cl project ''quarantine:replay'')) (\<lambda>p.
        andthen (if replay
                   then on_ingest (replay_quarantine (oe_pg (se_ops env)) (oe_err_text (se_ops env)) (oe_upper (se_ops env))
                     (oe_lower (se_ops env)) (oe_limits (se_ops env)) p (pr_project_id p) i (hl_accept c) (hl_resolved_at c))
                 else on_store (discard_quarantine (oe_pg (se_ops env)) p (pr_project_id p) i (hl_resolved_at c))) (\<lambda>batch.
        reply_one 200 ''batch'' (quarantine_response batch)))))"

section \<open>Routes\<close>

datatype route =
    Healthz | Livez | Readyz
  | ApiListProjects
  | ApiCreateProject
  | ApiProjectStatus string bool
  | ApiListKeys string
  | ApiCreateKey string
  | ApiRevokeKey string string
  | ApiListAgents
  | ApiCreateAgent string
  | ApiHeartbeat string
  | ApiListPipelines
  | ApiCreatePipeline string
  | ApiUpdatePipeline string string
  | ApiPipelineAction string string string
  | ApiIngest
  | ApiSearch
  | ApiGetRetention string
  | ApiSetRetention string
  | ApiUsage string
  | ApiAudit
  | ApiListQuarantine
  | ApiReplay string
  | ApiDiscard string

text \<open>The public routes have no handler here: \<open>route_action\<close> answers them without a credential.\<close>

definition api_handler :: "route \<Rightarrow> handler" where
  "api_handler r =
     (case r of
        ApiListProjects \<Rightarrow> list_projects
      | ApiCreateProject \<Rightarrow> post_project
      | ApiProjectStatus project enable \<Rightarrow> post_project_status project enable
      | ApiListKeys project \<Rightarrow> list_keys project
      | ApiCreateKey project \<Rightarrow> post_key project
      | ApiRevokeKey project key \<Rightarrow> post_key_revoke project key
      | ApiListAgents \<Rightarrow> list_agents
      | ApiCreateAgent project \<Rightarrow> post_agent project
      | ApiHeartbeat agent \<Rightarrow> post_heartbeat agent
      | ApiListPipelines \<Rightarrow> list_pipelines
      | ApiCreatePipeline project \<Rightarrow> post_pipeline project
      | ApiUpdatePipeline project pipeline \<Rightarrow> put_pipeline project pipeline
      | ApiPipelineAction project pipeline action \<Rightarrow> post_pipeline_status project pipeline action
      | ApiIngest \<Rightarrow> post_batch
      | ApiSearch \<Rightarrow> search_entries
      | ApiGetRetention project \<Rightarrow> get_retention project
      | ApiSetRetention project \<Rightarrow> put_retention project
      | ApiUsage project \<Rightarrow> get_usage project
      | ApiAudit \<Rightarrow> list_audit
      | ApiListQuarantine \<Rightarrow> list_quarantine
      | ApiReplay i \<Rightarrow> post_quarantine i True
      | ApiDiscard i \<Rightarrow> post_quarantine i False
      | _ \<Rightarrow> (\<lambda>env c rq cl. ret (ready_reply (se_http env) c)))"

definition route_action :: "route \<Rightarrow> server_env \<Rightarrow> http_call \<Rightarrow> http_request \<Rightarrow> (server, reply) act" where
  "route_action r env c rq =
     (case r of
        Healthz \<Rightarrow> ret (health_reply (se_http env) c)
      | Livez \<Rightarrow> ret (health_reply (se_http env) c)
      | Readyz \<Rightarrow> ret (ready_reply (se_http env) c)
      | _ \<Rightarrow> andthen (authenticate_request env c rq) (\<lambda>cl. api_handler r env c rq cl))"

text \<open>The middleware in its order: the request identifier, the origins, and for the routes of the API the credential.\<close>

definition finished :: "string \<Rightarrow> (string \<times> string) list \<Rightarrow> http_response \<Rightarrow> http_response" where
  "finished rid headers r = r\<lparr>rs_headers := [(''X-Request-ID'', rid)] @ headers @ rs_headers r\<rparr>"

definition http_serve ::
  "server_env \<Rightarrow> route \<Rightarrow> http_call \<Rightarrow> http_request \<Rightarrow> server \<Rightarrow> http_response \<times> server" where
  "http_serve env r c rq sv =
     (let rid = request_id (hl_random c) rq; (stopped, headers) = cors (hc_origins (se_http env)) rid rq
      in (case stopped of
            Some response \<Rightarrow> (finished rid headers response, sv)
          | None \<Rightarrow>
              (case route_action r env c rq sv of
                 (Inl e, sv') \<Rightarrow> (finished rid headers (write_error rid e), sv')
               | (Inr reply, sv') \<Rightarrow> (finished rid headers (reply_response reply), sv'))))"

end
