(* ===== verification/Http_Isolation.thy ===== *)
theory Http_Isolation
  imports Http_Api Tenant_Isolation Query_Properties
begin

text \<open>
  Isolation at the edge of the server: what a client can change without a credential of a project, nor the bootstrap
  token, is nothing of that project. The handlers are checked one by one over the isolation of the services; the
  goroutine that records the last use of a key is a step of its own between the requests.
\<close>

section \<open>Handlers\<close>

abbreviation sv_db :: "server \<Rightarrow> db" where
  "sv_db sv \<equiv> ps_db (sv_pg sv)"

definition sv_moves :: "uuid set \<Rightarrow> (server, 'a) act \<Rightarrow> bool" where
  "sv_moves S m \<longleftrightarrow>
     (\<forall>sv. outside S (sv_db sv) (sv_db (snd (m sv))) \<and> sv_touches (snd (m sv)) = sv_touches sv)"

named_theorems svmoves \<open>handlers within one project\<close>

lemma sv_movesD:
  "sv_moves S m \<Longrightarrow> m sv = (r, sv') \<Longrightarrow> outside S (sv_db sv) (sv_db sv') \<and> sv_touches sv' = sv_touches sv"
  unfolding sv_moves_def by (metis snd_conv)

lemma sv_ret [svmoves]: "sv_moves S (ret x)" and sv_fail [svmoves]: "sv_moves S (fail e)"
  and sv_check [svmoves]: "sv_moves S (check w)" and sv_lift [svmoves]: "sv_moves S (lift r)"
  by (auto simp: sv_moves_def lift_def check_def iso.same split: option.split)

lemma sv_andthen [svmoves]: "sv_moves S m \<Longrightarrow> (\<And>x. sv_moves S (f x)) \<Longrightarrow> sv_moves S (andthen m f)"
  unfolding sv_moves_def andthen_def
  by (auto split: prod.split sum.split) (metis iso.followed snd_conv)+

lemma sv_andthen_lift: "(\<And>p. r = Inr p \<Longrightarrow> sv_moves S (f p)) \<Longrightarrow> sv_moves S (andthen (lift r) f)"
  by (cases r) (auto simp: sv_moves_def andthen_def lift_def iso.same)

lemma sv_if [svmoves]: "sv_moves S m \<Longrightarrow> sv_moves S m' \<Longrightarrow> sv_moves S (if b then m else m')"
  by simp

lemma sv_on_store [svmoves]: "moves (outside S) m \<Longrightarrow> sv_moves S (on_store m)"
  by (auto simp: sv_moves_def on_store_def moves_def split: prod.split) (metis snd_conv)

lemma sv_on_ingest [svmoves]: "st_moves S m \<Longrightarrow> sv_moves S (on_ingest m)"
  by (auto simp: sv_moves_def on_ingest_def st_moves_def split: prod.split) (metis snd_conv)

lemma sv_on_search [svmoves]: "st_moves S m \<Longrightarrow> sv_moves S (on_search m)"
  by (auto simp: sv_moves_def on_search_def st_moves_def split: prod.split) (metis snd_conv)

lemma sv_reply_one [svmoves]: "sv_moves S (reply_one status name body)"
  by (simp add: reply_one_def svmoves)

lemma sv_body_of [svmoves]: "sv_moves S (body_of env dec zero rq)"
  by (simp add: body_of_def svmoves)

section \<open>Searching\<close>

lemma st_andthen: "st_moves S m \<Longrightarrow> (\<And>x. st_moves S (f x)) \<Longrightarrow> st_moves S (andthen m f)"
  unfolding st_moves_def andthen_def
  by (auto split: prod.split sum.split) (metis iso.followed snd_conv)+

lemma st_nothing: "(\<And>st. snd (snd (m st)) = snd st) \<Longrightarrow> st_moves S m"
  by (simp add: st_moves_def iso.same)

lemma st_on_db: "moves (outside S) m \<Longrightarrow> st_moves S (on_db m)"
  by (auto simp: st_moves_def on_db_def moves_def split: prod.split) (metis snd_conv)

lemma classified_iso: "moves (outside S) m \<Longrightarrow> moves (outside S) (classified m)"
  by (auto simp: moves_def classified_def split: prod.split sum.split) (metis snd_conv)+

lemma entries_list_iso [imoves]: "moves (outside S) (entries_list pg q)"
  unfolding entries_list_def by (intro iso_intros iso.moves_reading)

lemma gated_iso: "moves (outside S) m \<Longrightarrow> st_moves S (gated c project m)"
  by (auto simp: st_moves_def gated_def on_db_def moves_def iso.same split: prod.split sum.split option.split) (metis snd_conv)+

lemma search_iso: "st_moves S (search pg umap svc pr p c)"
proof -
  have "moves (outside S) (list_page pg svc project q hash)" for project q hash
    unfolding list_page_def by (intro iso_intros classified_iso imoves)
  then show ?thesis
    unfolding search_def split_def
    by (intro st_andthen st_on_db classified_iso gated_iso imoves st_nothing) (simp_all add: lift_def check_def split: option.split)
qed

section \<open>Every handler\<close>

lemma project_principal_own: "project_principal cl raw scope = Inr p \<Longrightarrow> \<not> cl_bootstrap cl \<Longrightarrow> p = cl_principal cl"
  by (auto simp: project_principal_def Let_def split: if_splits option.splits)

lemma query_principal_own: "query_project_principal cl rq scope = Inr p \<Longrightarrow> \<not> cl_bootstrap cl \<Longrightarrow> p = cl_principal cl"
  by (auto simp: query_project_principal_def Let_def dest: project_principal_own split: if_splits)

lemma pipeline_principal_own: "pipeline_principal cl project i = Inr p \<Longrightarrow> \<not> cl_bootstrap cl \<Longrightarrow> p = cl_principal cl"
  by (auto simp: pipeline_principal_def dest: project_principal_own split: sum.splits if_splits)

lemmas own_principal = project_principal_own query_principal_own pipeline_principal_own

lemma own_andthen:
  assumes "\<And>p. r = Inr p \<Longrightarrow> p = cl_principal cl" "sv_moves (tenant (cl_principal cl)) (f (cl_principal cl))"
  shows "sv_moves (tenant (cl_principal cl)) (andthen (lift r) f)"
  using assms by (intro sv_andthen_lift) auto

lemma store_lists_iso [imoves]:
  "moves (outside S) (projects_list n)" "moves (outside S) (keys_list project n)" "moves (outside S) (agents_list pg project n)"
  "moves (outside S) (pipelines_list project n)" "moves (outside S) (retention_get project)"
  "moves (outside S) (usage_list pg project from to)" "moves (outside S) (audit_list pg project before n)"
  "moves (outside S) (quarantine_list project n)" "moves (outside S) (quarantine_find_project i)"
  unfolding projects_list_def keys_list_def agents_list_def pipelines_list_def retention_get_def usage_list_def
    audit_list_def quarantine_list_def quarantine_find_project_def
  by (intro iso_intros)+

lemma api_handler_iso:
  assumes nb: "\<not> cl_bootstrap cl"
  shows "sv_moves (tenant (cl_principal cl)) (api_handler r env c rq cl)"
proof -
  note own = own_principal [OF _ nb]
  note steps = own_andthen svmoves imoves accept_iso replay_iso discard_iso search_iso
  have projects: "sv_moves (tenant (cl_principal cl)) (list_projects env c rq cl)"
    unfolding list_projects_def by (intro steps)
  have create: "sv_moves (tenant (cl_principal cl)) (post_project env c rq cl)"
    unfolding post_project_def if_P [OF nb] by (intro steps)
  have status: "sv_moves (tenant (cl_principal cl)) (post_project_status project e env c rq cl)" for project e
    unfolding post_project_status_def by (intro steps) (rule own)
  have keys: "sv_moves (tenant (cl_principal cl)) (list_keys project env c rq cl)" for project
    unfolding list_keys_def by (intro steps) (rule own)
  have key: "sv_moves (tenant (cl_principal cl)) (post_key project env c rq cl)" for project
    unfolding post_key_def by (intro steps) (rule own)
  have revoke: "sv_moves (tenant (cl_principal cl)) (post_key_revoke project k env c rq cl)" for project k
    unfolding post_key_revoke_def by (intro steps) (rule own)
  have agents: "sv_moves (tenant (cl_principal cl)) (list_agents env c rq cl)"
    unfolding list_agents_def by (intro steps) (rule own)
  have agent: "sv_moves (tenant (cl_principal cl)) (post_agent project env c rq cl)" for project
    unfolding post_agent_def by (intro steps) (rule own)
  have beat: "sv_moves (tenant (cl_principal cl)) (post_heartbeat a env c rq cl)" for a
    unfolding post_heartbeat_def by (intro steps) (rule own)
  have pipelines: "sv_moves (tenant (cl_principal cl)) (list_pipelines env c rq cl)"
    unfolding list_pipelines_def by (intro steps) (rule own)
  have pipeline: "sv_moves (tenant (cl_principal cl)) (post_pipeline project env c rq cl)" for project
    unfolding post_pipeline_def by (intro steps) (rule own)
  have config: "sv_moves (tenant (cl_principal cl)) (put_pipeline project i env c rq cl)" for project i
    unfolding put_pipeline_def by (intro steps) (rule own)
  have action: "sv_moves (tenant (cl_principal cl)) (post_pipeline_status project i a env c rq cl)" for project i a
    unfolding post_pipeline_status_def
    by (cases "action_status a"; simp only: option.case; intro steps) (rule own)+
  have batch: "sv_moves (tenant (cl_principal cl)) (post_batch env c rq cl)"
    unfolding post_batch_def if_not_P [OF nb] Let_def split_def
    by (cases "fst (decode (Some (hq_body rq)) (l_max_body_bytes (oe_limits (se_ops env))))"; simp only: sum.case)
      (auto intro!: steps split: sum.split)
  have entries: "sv_moves (tenant (cl_principal cl)) (search_entries env c rq cl)"
    unfolding search_entries_def by (intro steps) (rule own)
  have retention: "sv_moves (tenant (cl_principal cl)) (get_retention project env c rq cl)" for project
    unfolding get_retention_def by (intro steps) (rule own)
  have set: "sv_moves (tenant (cl_principal cl)) (put_retention project env c rq cl)" for project
    unfolding put_retention_def by (intro steps set_retention_iso) (rule own)
  have usage: "sv_moves (tenant (cl_principal cl)) (get_usage project env c rq cl)" for project
    unfolding get_usage_def split_def by (intro steps) (rule own)
  have audit: "sv_moves (tenant (cl_principal cl)) (list_audit env c rq cl)"
    unfolding list_audit_def by (intro steps) (rule own)
  have quarantine: "sv_moves (tenant (cl_principal cl)) (list_quarantine env c rq cl)"
    unfolding list_quarantine_def by (intro steps) (rule own)
  have transition: "sv_moves (tenant (cl_principal cl)) (post_quarantine i b env c rq cl)" for i b
    unfolding post_quarantine_def quarantine_project_def Let_def by (intro steps) (rule own)
  show ?thesis
    unfolding api_handler_def
    by (cases r; simp only: route.case; rule projects create status keys key revoke agents agent beat pipelines pipeline
        config action batch entries retention set usage audit quarantine transition sv_ret)
qed

section \<open>Credentials\<close>

text \<open>The request carries the bootstrap token or the secret of a key of the project.\<close>

definition shows_credential :: "server_env \<Rightarrow> uuid \<Rightarrow> http_request \<Rightarrow> server \<Rightarrow> bool" where
  "shows_credential env q rq sv \<longleftrightarrow>
     (case bearer_token (hq_authorization rq) of
        None \<Rightarrow> False
      | Some raw \<Rightarrow>
          raw = hc_bootstrap_token (se_http env) \<or>
          (case parse_key raw of
             None \<Rightarrow> False
           | Some (pfx, secret) \<Rightarrow>
               list_ex (\<lambda>k. pg_uuid (k_project_id k) = q \<and> k_secret_hash k = hash_secret secret (au_pepper (sv_auth sv)))
                 (t_keys (sv_db sv))))"

definition touches_of :: "uuid \<Rightarrow> server \<Rightarrow> bool" where
  "touches_of q sv \<longleftrightarrow> list_ex (\<lambda>t. pg_uuid (t_project t) = q) (sv_touches sv)"

lemma scan_rows_member: "scan_rows scan rs = Inr xs \<Longrightarrow> x \<in> set xs \<Longrightarrow> \<exists>r \<in> set rs. scan r = Inr x"
  by (induction rs arbitrary: xs) (auto split: sum.splits)

lemma found_keys:
  assumes "keys_find_active_by_prefix pg pfx now s = (Inr candidates, s')"
  shows "set candidates \<subseteq> set (t_keys (ps_db s))" "ps_db s' = ps_db s"
proof -
  obtain rs where rs: "reading (\<lambda>d. filter (\<lambda>k. k_prefix k = pfx \<and> k_status k = ''active'' \<and>
       (case k_expires_at k of None \<Rightarrow> True | Some e \<Rightarrow> pg_time pg now < e)) (t_keys d)) s = (Inr rs, s')"
      "scan_rows scan_api_key rs = Inr candidates"
    using assms by (auto simp: keys_find_active_by_prefix_def query_rows_def andthen_Inr lift_def)
  have "set rs \<subseteq> set (t_keys (ps_db s))" "ps_db s' = ps_db s"
    using rs(1) by (auto simp: reading_def dest!: stmt_Inr)
  moreover have "x = y" if "scan_api_key x = Inr y" for x y
    using that by (auto simp: scan_api_key_def split: option.splits)
  ultimately show "set candidates \<subseteq> set (t_keys (ps_db s))" "ps_db s' = ps_db s"
    using scan_rows_member [OF rs(2)] by blast+
qed

interpretation still: history "\<lambda>d d'. d' = d"
  by unfold_locales auto

lemma find_keys_db: "ps_db (snd (keys_find_active_by_prefix pg pfx now s)) = ps_db s"
proof -
  have "moves (\<lambda>d d'. d' = d) (keys_find_active_by_prefix pg pfx now)"
    unfolding keys_find_active_by_prefix_def by (rule still.moves_query_rows)
  then show ?thesis by (simp add: moves_def)
qed

lemma authenticate_touched:
  assumes "authenticate f supported ctx_done now raw a = (r, a', t)"
  shows "au_pepper a' = au_pepper a" "\<And>x. t = Some x \<Longrightarrow> \<exists>p. r = Inr p \<and> t_project x = pr_project_id p"
  using assms
  by (auto simp: authenticate_def observe_last_used_def Let_def new_principal_def
      split: option.splits prod.splits sum.splits if_splits)

lemma authenticate_key_own:
  assumes a: "authenticate_key pg c raw sv = (r, sv')"
    and foreign: "\<And>pfx secret k. parse_key raw = Some (pfx, secret) \<Longrightarrow> k \<in> set (t_keys (sv_db sv)) \<Longrightarrow>
      k_secret_hash k = hash_secret secret (au_pepper (sv_auth sv)) \<Longrightarrow> pg_uuid (k_project_id k) \<noteq> q"
  shows "sv_db sv' = sv_db sv" "touches_of q sv' \<Longrightarrow> touches_of q sv"
    "\<And>p. r = Inr p \<Longrightarrow> pg_uuid (pr_project_id p) \<noteq> q"
proof -
  define look where "look = (case parse_key raw of None \<Rightarrow> (Inr [], sv_pg sv)
    | Some (pfx, _) \<Rightarrow> keys_find_active_by_prefix pg pfx (hl_auth_now c) (sv_pg sv))"
  obtain found s where l: "look = (found, s)" by (cases look)
  obtain a1 t where at: "authenticate (\<lambda>_ _. found) True (hl_ctx_done c) (hl_auth_now c) raw (sv_auth sv) = (r, a1, t)"
    and sv': "sv' = sv\<lparr>sv_auth := a1, sv_touches := sv_touches sv @ (case t of None \<Rightarrow> [] | Some x \<Rightarrow> [x]), sv_pg := s\<rparr>"
    using a by (auto simp: authenticate_key_def look_def [symmetric] l split: prod.splits)
  have "ps_db (snd look) = sv_db sv"
    unfolding look_def by (auto simp: find_keys_db split: option.split prod.split)
  then show "sv_db sv' = sv_db sv" by (simp add: sv' l)
  show own: "pg_uuid (pr_project_id p) \<noteq> q" if "r = Inr p" for p
  proof -
    have "fst (authenticate (\<lambda>_ _. found) True (hl_ctx_done c) (hl_auth_now c) raw (sv_auth sv)) = Inr p" by (simp add: at that)
    then obtain pfx secret candidates k where k: "parse_key raw = Some (pfx, secret)" "found = Inr candidates"
        "filter (key_matches (hash_secret secret (au_pepper (sv_auth sv))) (hl_auth_now c)) candidates = [k]"
        "new_principal k = Inr p"
      unfolding authenticate_iff by blast
    from k(3) have "k \<in> set (filter (key_matches (hash_secret secret (au_pepper (sv_auth sv))) (hl_auth_now c)) candidates)"
      by (simp only: list.set insertI1)
    then have km: "k \<in> set candidates" "key_matches (hash_secret secret (au_pepper (sv_auth sv))) (hl_auth_now c) k" by simp_all
    have "keys_find_active_by_prefix pg pfx (hl_auth_now c) (sv_pg sv) = (Inr candidates, s)"
      using l k(1,2) by (simp add: look_def)
    from found_keys(1) [OF this] km(1) have "k \<in> set (t_keys (sv_db sv))" by blast
    moreover have "pr_project_id p = k_project_id k" using k(4) by (auto simp: new_principal_def split: option.splits)
    ultimately show ?thesis using foreign [OF k(1)] km(2) by (auto simp: key_matches_def)
  qed
  have "pg_uuid (t_project x) \<noteq> q" if x: "t = Some x" for x
  proof -
    from authenticate_touched(2) [OF at x] obtain p where "r = Inr p" "t_project x = pr_project_id p" by blast
    with own show ?thesis by simp
  qed
  then show "touches_of q sv' \<Longrightarrow> touches_of q sv"
    by (auto simp: touches_of_def sv' split: option.splits)
qed

lemma authenticate_request_own:
  assumes a: "authenticate_request env c rq sv = (r, sv')" and n: "\<not> shows_credential env q rq sv"
  shows "sv_db sv' = sv_db sv" "touches_of q sv' \<Longrightarrow> touches_of q sv"
    "\<And>cl. r = Inr cl \<Longrightarrow> \<not> cl_bootstrap cl \<and> pg_uuid (pr_project_id (cl_principal cl)) \<noteq> q"
proof -
  have all: "sv_db sv' = sv_db sv \<and> (touches_of q sv' \<longrightarrow> touches_of q sv) \<and>
      (\<forall>cl. r = Inr cl \<longrightarrow> \<not> cl_bootstrap cl \<and> pg_uuid (pr_project_id (cl_principal cl)) \<noteq> q)"
  proof (cases "bearer_token (hq_authorization rq)")
    case None
    then show ?thesis using a by (auto simp: authenticate_request_def)
  next
    case (Some raw)
    obtain r1 sv1 where k: "authenticate_key (oe_pg (se_ops env)) c raw sv = (r1, sv1)"
      by (cases "authenticate_key (oe_pg (se_ops env)) c raw sv")
    have f: "pg_uuid (k_project_id k) \<noteq> q"
      if "parse_key raw = Some (pfx, secret)" "k \<in> set (t_keys (sv_db sv))"
        "k_secret_hash k = hash_secret secret (au_pepper (sv_auth sv))" for pfx secret k
      using n that by (auto simp: shows_credential_def Some list_ex_iff)
    have own: "sv_db sv1 = sv_db sv" "touches_of q sv1 \<Longrightarrow> touches_of q sv"
        "\<And>p. r1 = Inr p \<Longrightarrow> pg_uuid (pr_project_id p) \<noteq> q"
      using authenticate_key_own [OF k, of q] f by blast+
    have "raw \<noteq> hc_bootstrap_token (se_http env)" using n by (simp add: shows_credential_def Some)
    then show ?thesis
      using a own by (cases r1) (auto simp: authenticate_request_def Some secure_equal_def k split: if_splits)
  qed
  then show "sv_db sv' = sv_db sv" "touches_of q sv' \<Longrightarrow> touches_of q sv"
    "\<And>cl. r = Inr cl \<Longrightarrow> \<not> cl_bootstrap cl \<and> pg_uuid (pr_project_id (cl_principal cl)) \<noteq> q"
    by blast+
qed

section \<open>Requests and goroutines\<close>

text \<open>
  A history of the server: requests, each with the clock of the database and the outcomes of its interactions with it,
  and the goroutines that record the last use of a key, in any order.
\<close>

datatype server_event =
    Serves route http_call http_request time "outcome list"
  | Touches nat time "outcome list"

definition begun :: "time \<Rightarrow> outcome list \<Rightarrow> server \<Rightarrow> server" where
  "begun now outcomes sv = sv\<lparr>sv_pg := (sv_pg sv)\<lparr>ps_now := now, ps_outcomes := outcomes\<rparr>\<rparr>"

definition server_step :: "server_env \<Rightarrow> server_event \<Rightarrow> server \<Rightarrow> server" where
  "server_step env e sv =
     (case e of
        Serves r c rq now outcomes \<Rightarrow> snd (http_serve env r c rq (begun now outcomes sv))
      | Touches n now outcomes \<Rightarrow> finish_touch (oe_pg (se_ops env)) n (begun now outcomes sv))"

definition event_foreign :: "server_env \<Rightarrow> uuid \<Rightarrow> server_event \<Rightarrow> server \<Rightarrow> bool" where
  "event_foreign env q e sv \<longleftrightarrow> (case e of Serves r c rq now outcomes \<Rightarrow> \<not> shows_credential env q rq sv | Touches _ _ _ \<Rightarrow> True)"

fun all_foreign :: "server_env \<Rightarrow> uuid \<Rightarrow> server_event list \<Rightarrow> server \<Rightarrow> bool" where
  "all_foreign env q [] sv \<longleftrightarrow> True"
| "all_foreign env q (e # es) sv \<longleftrightarrow> event_foreign env q e sv \<and> all_foreign env q es (server_step env e sv)"

lemma begun_simps [simp]:
  "sv_db (begun now outcomes sv) = sv_db sv" "sv_auth (begun now outcomes sv) = sv_auth sv"
  "sv_touches (begun now outcomes sv) = sv_touches sv"
  by (simp_all add: begun_def)

lemma begun_credential [simp]: "shows_credential env q rq (begun now outcomes sv) = shows_credential env q rq sv"
  unfolding shows_credential_def begun_simps ..

lemma begun_touches [simp]: "touches_of q (begun now outcomes sv) = touches_of q sv"
  by (simp add: touches_of_def)

lemma serve_own:
  assumes "\<not> shows_credential env q rq sv"
  shows "tenant_rows q (sv_db (snd (http_serve env r c rq sv))) = tenant_rows q (sv_db sv)"
    "touches_of q (snd (http_serve env r c rq sv)) \<Longrightarrow> touches_of q sv"
proof -
  obtain a sv1 where a: "authenticate_request env c rq sv = (a, sv1)" by (cases "authenticate_request env c rq sv")
  note own = authenticate_request_own [OF a assms]
  define kept where "kept sv' \<longleftrightarrow> tenant_rows q (sv_db sv') = tenant_rows q (sv_db sv) \<and> (touches_of q sv' \<longrightarrow> touches_of q sv)" for sv'
  have same: "kept sv" by (simp add: kept_def)
  have handled: "kept (snd (andthen (authenticate_request env c rq) (\<lambda>cl. api_handler r env c rq cl) sv))"
  proof (cases a)
    case (Inr cl)
    from own(3) [OF this] have cl: "\<not> cl_bootstrap cl" "q \<notin> tenant (cl_principal cl)" by auto
    obtain r2 sv2 where h: "api_handler r env c rq cl sv1 = (r2, sv2)" by (cases "api_handler r env c rq cl sv1")
    from sv_movesD [OF api_handler_iso [OF cl(1)] h] cl(2) own(1,2) show ?thesis
      by (simp add: kept_def andthen_def a Inr h outside_def touches_of_def)
  qed (simp add: kept_def andthen_def a own(1,2))
  have "kept (snd (route_action r env c rq sv))"
    using handled same by (cases r) (simp_all add: route_action_def)
  then have "kept (snd (http_serve env r c rq sv))"
    using same by (auto simp: http_serve_def Let_def split: prod.split option.split sum.split)
  then show "tenant_rows q (sv_db (snd (http_serve env r c rq sv))) = tenant_rows q (sv_db sv)"
    "touches_of q (snd (http_serve env r c rq sv)) \<Longrightarrow> touches_of q sv"
    by (simp_all add: kept_def)
qed

lemma keys_touch_iso [imoves]: "pg_uuid project \<in> S \<Longrightarrow> moves (outside S) (keys_touch_last_used pg project i t)"
  unfolding keys_touch_last_used_def
  by (intro iso_intros iso.moves_update_returning)
    (auto simp: outside_def tenant_rows_def key_at_id_def intro!: filter_map_outside [where S = S])

lemma touch_own:
  assumes "\<not> touches_of q sv"
  shows "tenant_rows q (sv_db (finish_touch pg n sv)) = tenant_rows q (sv_db sv)" "\<not> touches_of q (finish_touch pg n sv)"
proof -
  define t where "t = sv_touches sv ! n"
  have t: "pg_uuid (t_project t) \<noteq> q" if "n < length (sv_touches sv)"
    using assms that by (auto simp: touches_of_def list_ex_iff t_def)
  have "moves (outside {pg_uuid (t_project t)}) (keys_touch_last_used pg (t_project t) (t_key t) (t_at t))"
    by (intro imoves) simp
  then show "tenant_rows q (sv_db (finish_touch pg n sv)) = tenant_rows q (sv_db sv)"
    using t by (auto simp: finish_touch_def Let_def t_def [symmetric] moves_def outside_def)
  show "\<not> touches_of q (finish_touch pg n sv)"
    using assms by (auto simp: finish_touch_def Let_def touches_of_def list_ex_iff dest: in_set_takeD in_set_dropD)
qed

text \<open>
  C7. Whatever is sent to the server without the bootstrap token and without a credential of a project, with any
  parameters, bodies and faults and with the goroutines that record the use of keys in between, the rows of that
  project stay the same in every table.
\<close>

theorem http_isolation:
  assumes "all_foreign env q es sv" "\<not> touches_of q sv"
  shows "tenant_rows q (sv_db (fold (server_step env) es sv)) = tenant_rows q (sv_db sv)"
  using assms
proof (induction es arbitrary: sv)
  case (Cons e es)
  have "tenant_rows q (sv_db (server_step env e sv)) = tenant_rows q (sv_db sv) \<and> \<not> touches_of q (server_step env e sv)"
  proof (cases e)
    case (Serves r c rq now outcomes)
    with Cons.prems have "\<not> shows_credential env q rq (begun now outcomes sv)" by (simp add: event_foreign_def)
    from serve_own [OF this, of r c] Cons.prems(2) show ?thesis by (auto simp: server_step_def Serves)
  next
    case (Touches n now outcomes)
    from Cons.prems(2) have "\<not> touches_of q (begun now outcomes sv)" by simp
    from touch_own [OF this] show ?thesis by (simp add: server_step_def Touches)
  qed
  with Cons.IH [of "server_step env e sv"] Cons.prems(1) show ?case by simp
qed simp

text \<open>A key of one project disables it over HTTP, and its use is recorded, next to another project.\<close>

definition sample_env :: server_env where
  "sample_env =
     \<lparr>se_ops = \<lparr>oe_pg = sample_pg, oe_err_text = (\<lambda>_. ''error''), oe_upper = (\<lambda>s. s), oe_lower = (\<lambda>s. s), oe_limits = default_limits\<rparr>,
      se_query = sample_service, se_pepper = ''0123456789abcdef'',
      se_http = default_http_config\<lparr>hc_bootstrap_token := ''bootstrap-token-for-tests''\<rparr>\<rparr>"

definition sample_secret :: string where
  "sample_secret = replicate 32 (CHR ''s'')"

definition writer_key :: "bytes \<Rightarrow> api_key" where
  "writer_key pepper =
     new_key pepper (sample_key_input\<lparr>ck_scopes := [''project:write'']\<rparr>) (uid (CHR ''7'')) sample_secret 1"

definition sample_server :: "authenticator \<Rightarrow> server" where
  "sample_server a =
     \<lparr>sv_auth = a, sv_touches = [], sv_admission = None, sv_gate = None,
      sv_pg = (snd two_projects)\<lparr>ps_db := t_keys_update (\<lambda>_. [writer_key (au_pepper a)]) (st_db two_projects)\<rparr>\<rparr>"

definition sample_http_request :: http_request where
  "sample_http_request =
     \<lparr>hq_options = False, hq_authorization = ''Bearer '' @ key_prefix (uid (CHR ''7'')) @ ''.'' @ sample_secret, hq_origin = [],
      hq_request_id = ''r-1'', hq_query = [], hq_body = ([], False), hq_remote_ip = ''10.0.0.7''\<rparr>"

definition sample_http_call :: http_call where
  "sample_http_call =
     \<lparr>hl_random = None, hl_now = 5, hl_auth_now = 5, hl_ctx_done = False, hl_control = sample_control_call, hl_accept = sample_call,
      hl_acquire = sample_acquire, hl_resolved_at = 5, hl_draining = False, hl_ping_ok = True, hl_latency = 1\<rparr>"

lemma sample_foreign: "\<not> shows_credential sample_env (uid (CHR ''5'')) sample_http_request (sample_server a)"
proof -
  have "bearer_token (hq_authorization sample_http_request) = Some (key_prefix (uid (CHR ''7'')) @ ''.'' @ sample_secret)"
    "key_prefix (uid (CHR ''7'')) @ ''.'' @ sample_secret \<noteq> hc_bootstrap_token (se_http sample_env)"
    "pg_uuid (uid (CHR ''1'')) \<noteq> uid (CHR ''5'')"
    by code_simp+
  then show ?thesis
    by (auto simp: shows_credential_def sample_server_def writer_key_def new_key_def sample_key_input_def split: option.split)
qed

lemma http_isolation_witness:
  "\<forall>a. tenant_rows (uid (CHR ''5''))
      (sv_db (fold (server_step sample_env)
        [Serves (ApiProjectStatus (uid (CHR ''1'')) False) sample_http_call sample_http_request 5 [], Touches 0 6 []] (sample_server a))) =
     tenant_rows (uid (CHR ''5'')) (sv_db (sample_server a))"
  by (intro allI http_isolation) (simp_all add: event_foreign_def sample_foreign, simp add: touches_of_def sample_server_def)

end
