(* ===== verification/Http_Upload.thy ===== *)
theory Http_Upload
  imports Http_Isolation Agent_Server
begin

text \<open>
  The upload of a batch from end to end: the transport of the agent against the route of the server. The agent reads
  back the status, the code and the delay of every answer, so what it does with a batch follows from what happened to
  it on the server.
\<close>

section \<open>The answer that the agent reads\<close>

lemma length_quote_ascii: "byte_val c < 0x80 \<Longrightarrow> length (quote_ascii c) \<le> 6"
  by (simp add: quote_ascii_def u00_escape_def)

lemma length_quote_body: "length (quote_body s) \<le> 6 * length s"
proof (induction s rule: quote_body.induct)
  case (1 s)
  show ?case
  proof (cases s)
    case (Cons c cs)
    show ?thesis
    proof (cases "byte_val c < 0x80")
      case True
      with 1(1) [OF Cons] length_quote_ascii [of c] show ?thesis by (subst quote_body.simps) (simp add: Cons)
    next
      case False
      show ?thesis
      proof (cases "decode_multi s")
        case None
        with 1(2) [OF Cons False] False show ?thesis by (subst quote_body.simps) (simp add: Cons)
      next
        case (Some rn)
        obtain r n where rn: "rn = (r, n)" by fastforce
        have n: "1 \<le> n" "n \<le> length s" using decode_multi_size [of s r n] Some rn by auto
        have "length (quote_multi (take n s)) \<le> 6 * n" using n by (auto simp: quote_multi_def)
        moreover have "length (quote_body (drop n s)) \<le> 6 * (length s - n)" using 1(3) [OF Cons False Some rn [symmetric]] by simp
        ultimately show ?thesis using Some False n by (subst quote_body.simps) (simp add: Cons rn)
      qed
    qed
  qed (subst quote_body.simps, simp)
qed

lemma length_quote: "length (quote s) \<le> 6 * length s + 2"
  using length_quote_body [of s] by (simp add: quote_def)

text \<open>The object of an error, whatever the identifier of the request and the details are.\<close>

definition details_value :: "field_error list \<Rightarrow> json" where
  "details_value fs =
     JArr (map (\<lambda>f. JObj [(quote_body ''path'', quote (fst f), JStr (quote_body (fst f))),
                          (quote_body ''reason'', quote (snd f), JStr (quote_body (snd f)))]) fs)"

lemma renders_details: "renders (jarr (map field_error_json fs)) (details_value fs)"
proof -
  have "renders (field_error_json f) (JObj [(quote_body ''path'', quote (fst f), JStr (quote_body (fst f))),
      (quote_body ''reason'', quote (snd f), JStr (quote_body (snd f)))])" for f
    unfolding field_error_json_def by (rule renders_obj) simp
  then show ?thesis unfolding details_value_def by (intro renders_arr) (simp add: list_all2_conv_all_nth)
qed

definition error_members :: "string \<Rightarrow> api_error \<Rightarrow> (string \<times> string \<times> json) list" where
  "error_members rid a =
     [(quote_body ''code'', quote (ae_code a), JStr (quote_body (ae_code a)))] @
     (case ae_details a of None \<Rightarrow> [] | Some fs \<Rightarrow> [(quote_body ''details'', jarr (map field_error_json fs), details_value fs)]) @
     [(quote_body ''message'', quote (ae_message a), JStr (quote_body (ae_message a))),
      (quote_body ''request_id'', quote rid, JStr (quote_body rid))]"

lemma error_json_parse:
  "json_parse (error_json rid a) =
     Some (JObj [(quote_body ''error'',
       jobj ([(''code'', quote (ae_code a))] @
             (case ae_details a of None \<Rightarrow> [] | Some fs \<Rightarrow> [(''details'', jarr (map field_error_json fs))]) @
             [(''message'', quote (ae_message a)), (''request_id'', quote rid)]), JObj (error_members rid a))])"
proof (rule renders_json_parse)
  have inner: "renders (jobj ([(''code'', quote (ae_code a))] @
        (case ae_details a of None \<Rightarrow> [] | Some fs \<Rightarrow> [(''details'', jarr (map field_error_json fs))]) @
        [(''message'', quote (ae_message a)), (''request_id'', quote rid)])) (JObj (error_members rid a))"
    unfolding error_members_def
    by (rule renders_obj) (cases "ae_details a"; simp add: renders_details)
  show "renders (error_json rid a) (JObj [(quote_body ''error'',
       jobj ([(''code'', quote (ae_code a))] @
             (case ae_details a of None \<Rightarrow> [] | Some fs \<Rightarrow> [(''details'', jarr (map field_error_json fs))]) @
             [(''message'', quote (ae_message a)), (''request_id'', quote rid)]), JObj (error_members rid a))])"
    unfolding error_json_def using inner by (intro renders_obj) simp
qed

lemma failure_names:
  "valid_utf8 ''error''" "valid_utf8 ''code''" "valid_utf8 ''details''" "valid_utf8 ''message''" "valid_utf8 ''request_id''"
  "field_name [''error'', ''code''] ''error'' = Some ''error''" "field_name [''code''] ''code'' = Some ''code''"
  "field_name [''code''] ''details'' = None" "field_name [''code''] ''message'' = None"
  "field_name [''code''] ''request_id'' = None"
  by code_simp+

lemma error_members_code:
  assumes "valid_utf8 (ae_code a)"
  shows "dec_struct False [''code''] (\<lambda>n t v old. Some (lenient_string v old)) (JObj (error_members rid a)) [] = Some (ae_code a)"
  using assms
  by (cases "ae_details a") (simp_all add: error_members_def dec_struct_def failure_names lenient_string_def)

lemma failure_code_error:
  assumes "valid_utf8 (ae_code a)"
  shows "failure_code (error_json rid a) = ae_code a"
  by (simp add: failure_code_def unmarshal_def error_json_parse dec_struct_def failure_names set_failure_field_def
      error_members_code [OF assms, unfolded dec_struct_def, simplified])

section \<open>What the agent does about an error of the server\<close>

text \<open>
  The errors of the route of batches are simple: none is joined or typed, except the two of the middleware.
\<close>

definition simple_error :: "server_error \<Rightarrow> bool" where
  "simple_error e \<longleftrightarrow> (case e of Joined _ _ \<Rightarrow> False | ApiError _ _ _ \<Rightarrow> False | _ \<Rightarrow> True)"

text \<open>
  A disabled resource holds the batch back. What may pass is tried again: a failure of the database, a limit, an error
  of the server. What the batch itself is refused for puts it into quarantine. All else stops the delivery.
\<close>

definition delivery_class :: "server_error \<Rightarrow> result_class" where
  "delivery_class e =
     (case e of
        AgentIsDisabled \<Rightarrow> ResultBlocked | PipelineUnavailable \<Rightarrow> ResultBlocked | ResourceDisabled \<Rightarrow> ResultBlocked
      | Domain ErrProjectDisabled \<Rightarrow> ResultBlocked
      | Driver _ \<Rightarrow> ResultRetryable | CorruptRow \<Rightarrow> ResultRetryable | Internal _ \<Rightarrow> ResultRetryable
      | Limited _ _ \<Rightarrow> ResultRetryable | CapacityLimited \<Rightarrow> ResultRetryable | ExecutionTimeout \<Rightarrow> ResultRetryable
      | Protocol ReadFailed \<Rightarrow> ResultRetryable | Protocol EntryCountMismatch \<Rightarrow> ResultRetryable
      | Protocol CanonicalFailed \<Rightarrow> ResultRetryable
      | Protocol (InvalidBatch (ErrInvalid _)) \<Rightarrow> ResultQuarantine | Protocol (InvalidBatch _) \<Rightarrow> ResultRetryable
      | InvalidCredential \<Rightarrow> ResultTerminal | Domain ErrScopeDenied \<Rightarrow> ResultTerminal | ProjectMismatch \<Rightarrow> ResultTerminal
      | AgentMismatch \<Rightarrow> ResultTerminal | NotFound \<Rightarrow> ResultTerminal | ApiError _ _ _ \<Rightarrow> ResultTerminal
      | _ \<Rightarrow> ResultQuarantine)"

lemma map_error_class:
  assumes "simple_error e"
  shows "failure_class (ae_status (map_error e)) (ae_code (map_error e)) = delivery_class e"
proof (cases e)
  case (Domain d)
  then show ?thesis
    by (cases d) (simp_all add: map_error_def as_api_error_def as_validation_def sentinel_rules_def sentinel_def is_limited_def
        as_limit_def is_invalid_def delivery_class_def failure_class_def internal_answer_def)
next
  case (Protocol d)
  then show ?thesis
  proof (cases d)
    case (InvalidBatch x)
    with Protocol show ?thesis
      by (cases x) (simp_all add: map_error_def as_api_error_def as_validation_def sentinel_rules_def sentinel_def is_limited_def
        as_limit_def is_invalid_def delivery_class_def failure_class_def internal_answer_def)
  qed (simp_all add: map_error_def as_api_error_def as_validation_def sentinel_rules_def sentinel_def is_limited_def
        as_limit_def is_invalid_def delivery_class_def failure_class_def internal_answer_def)
qed (use assms in \<open>simp_all add: simple_error_def map_error_def as_api_error_def as_validation_def sentinel_rules_def
    sentinel_def is_limited_def as_limit_def is_invalid_def delivery_class_def failure_class_def internal_answer_def\<close>)

text \<open>The answers are short, with codes in ASCII.\<close>

definition short_answer :: "api_error \<Rightarrow> bool" where
  "short_answer a \<longleftrightarrow> valid_utf8 (ae_code a) \<and> length (ae_code a) \<le> 64 \<and> length (ae_message a) \<le> 128 \<and>
     ae_details a = None \<and> 400 \<le> ae_status a"

lemma short_rules: "list_all (\<lambda>(test, a). short_answer a) sentinel_rules" "short_answer internal_answer"
  "valid_utf8 ''invalid_batch''" "valid_utf8 ''invalid_credential''" "valid_utf8 ''forbidden''"
  by code_simp+

lemma short_first_rule: "list_all (\<lambda>(test, a). short_answer a) rules \<Longrightarrow> short_answer (first_rule rules e)"
  using first_rule_cases [of rules e] short_rules(2) by (fastforce simp: list_all_iff)

lemma error_json_length:
  assumes "short_answer a" "length rid \<le> 128"
  shows "length (error_json rid a) \<le> 65536"
  using assms length_quote [of "ae_code a"] length_quote [of "ae_message a"] length_quote [of rid]
    length_quote [of "''error''"] length_quote [of "''code''"] length_quote [of "''message''"] length_quote [of "''request_id''"]
  by (simp add: short_answer_def error_json_def jobj_def jfield_def)

section \<open>Which errors an action can end in\<close>

definition raises :: "(server_error \<Rightarrow> bool) \<Rightarrow> ('s, 'a) act \<Rightarrow> bool" where
  "raises P m \<longleftrightarrow> (\<forall>s. case m s of (Inl e, s') \<Rightarrow> P e | (Inr x, s') \<Rightarrow> True)"

lemma raisesD: "raises P m \<Longrightarrow> m s = (Inl e, s') \<Longrightarrow> P e"
  by (auto simp: raises_def dest!: spec [of _ s])

lemma raisesI: "(\<And>s e s'. m s = (Inl e, s') \<Longrightarrow> P e) \<Longrightarrow> raises P m"
  by (auto simp: raises_def split: prod.split sum.split)

text \<open>A kind of errors that has those of the database.\<close>

locale error_kind =
  fixes P :: "server_error \<Rightarrow> bool"
  assumes of_driver: "P (Driver d)"
    and of_missing: "P NotFound"
begin

lemma raises_ret: "raises P (ret x)"
  by (rule raisesI) simp

lemma raises_fail: "P e \<Longrightarrow> raises P (fail e)"
  by (rule raisesI) simp

lemma raises_check: "(\<And>e. w = Some e \<Longrightarrow> P e) \<Longrightarrow> raises P (check w)"
  by (cases w) (auto intro: raisesI)

lemma raises_lift: "(\<And>e. r = Inl e \<Longrightarrow> P e) \<Longrightarrow> raises P (lift r)"
  by (rule raisesI) (simp add: lift_def)

lemma raises_andthen: "raises P m \<Longrightarrow> (\<And>x. raises P (f x)) \<Longrightarrow> raises P (andthen m f)"
  by (rule raisesI) (auto simp: andthen_Inl dest: raisesD)

lemma raises_if: "(b \<Longrightarrow> raises P m) \<Longrightarrow> (\<not> b \<Longrightarrow> raises P m') \<Longrightarrow> raises P (if b then m else m')"
  by simp

lemma raises_stmt: "raises P m \<Longrightarrow> raises P (stmt m)"
  by (rule raisesI) (auto simp: stmt_def of_driver dest: raisesD split: list.splits outcome.splits)

lemma raises_query_row: "(\<And>r e. scan r = Inl e \<Longrightarrow> P e) \<Longrightarrow> raises P (query_row sel scan)"
  unfolding query_row_def reading_def
  by (intro raises_andthen raises_stmt)
    (auto intro!: raisesI simp: scan_first_def lift_def of_missing split: list.splits)

lemma scan_rows_Inl: "scan_rows scan rs = Inl e \<Longrightarrow> \<exists>r. scan r = Inl e"
  by (induction rs) (auto split: sum.splits)

lemma raises_query_rows: "(\<And>r e. scan r = Inl e \<Longrightarrow> P e) \<Longrightarrow> raises P (query_rows sel scan)"
  unfolding query_rows_def reading_def
  by (intro raises_andthen raises_stmt) (auto intro!: raisesI simp: lift_def dest!: scan_rows_Inl)

lemma raises_within_tx: "raises P m \<Longrightarrow> raises P (within_tx m)"
  by (rule raisesI)
    (auto simp: within_tx_def stmt_def commit_tx_def of_driver dest: raisesD split: list.splits outcome.splits prod.splits sum.splits)

end

interpretation simple: error_kind simple_error
  by unfold_locales (simp_all add: simple_error_def)

section \<open>The route of batches\<close>

named_theorems plain \<open>errors without structure\<close>

lemma simple_domain [plain, simp]: "simple_error (Domain e)" "simple_error (Protocol x)" "simple_error NotFound"
  "simple_error Conflict" "simple_error CorruptRow" "simple_error (Driver d)" "simple_error AgentIsDisabled"
  "simple_error PipelineUnavailable" "simple_error ProjectMismatch" "simple_error AgentMismatch" "simple_error InvalidCredential"
  "simple_error (Limited reason t)" "simple_error BatchExceedsCapacity"
  by (simp_all add: simple_error_def)

lemma simple_domain_check: "domain_check w = Some e \<Longrightarrow> simple_error e"
  by (auto simp: domain_check_def)

lemma simple_gets:
  "raises simple_error (projects_get i)" "raises simple_error (agents_get pg project i)" "raises simple_error (pipelines_get project i)"
  "raises simple_error (find_batch project i)" "raises simple_error (keys_find_active_by_prefix pg pfx now)"
  unfolding projects_get_def agents_get_def pipelines_get_def find_batch_def keys_find_active_by_prefix_def
  by (intro simple.raises_andthen simple.raises_check simple.raises_query_row simple.raises_query_rows;
      auto simp: scan_project_def scan_agent_def scan_pipeline_def scan_stored_batch_def scan_api_key_def Let_def
        dest: simple_domain_check split: option.splits if_splits)+

lemma simple_writes:
  "raises simple_error (insert_batch pg b t)" "raises simple_error (insert_entries pg b)"
  "raises simple_error (usage_add pg project instant n m k)"
  unfolding insert_batch_def insert_entries_def usage_add_def
  by (intro simple.raises_andthen simple.raises_check simple.raises_if simple.raises_fail simple.raises_stmt;
      auto intro!: raisesI simp: Let_def upsert_usage_def scan_first_def lift_def scan_usage_def
        dest: simple_domain_check split: option.splits if_splits list.splits)+

lemma simple_accept_body: "raises simple_error (accept_body pg p b t)"
  unfolding accept_body_def store_batch_def
  by (intro simple.raises_andthen simple.raises_check simple.raises_if simple.raises_fail simple.raises_ret simple_gets simple_writes)
    (auto dest: simple_domain_check)

lemma bind_project_simple: "bind_project project es = Inl e \<Longrightarrow> simple_error e"
  by (induction es) (auto split: if_splits sum.splits)

lemma prepare_batch_simple: "prepare_batch p b = Inl e \<Longrightarrow> simple_error e"
  by (auto simp: prepare_batch_def Let_def require_scope_def require_agent_def
      dest: bind_project_simple split: option.splits if_splits sum.splits)

lemma allow_ingest_simple: "allow_ingest w key project n m now l = (Inl e, l') \<Longrightarrow> simple_error e"
  by (auto simp: allow_ingest_def Let_def split: if_splits)

lemma accept_simple: "raises simple_error (accept pg p b c)"
proof (rule raisesI)
  fix st e and st' :: "limiter option \<times> pgstate"
  assume a: "accept pg p b c st = (Inl e, st')"
  have "raises simple_error (within_tx (accept_body pg p b' t))" for b' t
    by (intro simple.raises_within_tx simple_accept_body)
  from raisesD [OF this] a show "simple_error e"
    by (auto simp: accept_def Let_def dest: prepare_batch_simple allow_ingest_simple split: sum.splits option.splits prod.splits)
qed

section \<open>What the agent reads back\<close>

lemma trim_space_digits: "list_all is_digit s \<Longrightarrow> trim_space s = s"
  by (rule trim_space_visible) (auto simp: list_all_iff is_digit_def visible_def)

text \<open>The delay that the server asks for is not shortened on the way.\<close>

lemma retry_after_read:
  assumes "d \<le> 3600 * second"
  shows "d \<le> parse_retry_after http_time (int_dec (max 1 (ceil_seconds d))) now"
proof -
  define n where "n = max 1 (ceil_seconds d)"
  have "- d = (- d) div second * second + (- d) mod second" by simp
  moreover have "0 \<le> (- d) mod second" by (simp add: second_def)
  moreover have "(- 3600 * second) div second \<le> (- d) div second"
    using assms by (intro zdiv_mono1) (simp_all add: second_def)
  ultimately have c: "d \<le> ceil_seconds d * second" "ceil_seconds d \<le> 3600"
    by (simp_all add: ceil_seconds_def second_def)
  have n: "1 \<le> n" "n \<le> 3600" "d \<le> n * second"
    using c by (auto simp: n_def second_def)
  then have i: "in_int64 n" "int_dec n = nat_dec (nat n)" by (auto simp: in_int64_def int_dec_def)
  have "int_dec n \<noteq> []" "trim_space (int_dec n) = int_dec n" by (simp_all add: i(2) trim_space_digits)
  then have "parse_retry_after http_time (int_dec n) now = wrap_int64 (n * second)"
    using n(1) i(1) by (simp add: parse_retry_after_def)
  also have "\<dots> = n * second" using n by (intro wrap_int64_id) (simp_all add: second_def)
  finally show ?thesis using n(3) by (simp add: n_def)
qed

lemma failure_class_other: "status \<noteq> 409 \<Longrightarrow> failure_class status c = failure_class status c'"
  by (simp add: failure_class_def)

lemma map_error_short:
  assumes "simple_error e"
  shows "ae_status (map_error e) = 422 \<or> short_answer (map_error e)"
  using assms short_first_rule [OF short_rules(1), of e]
  by (cases e) (auto simp: simple_error_def map_error_def as_api_error_def split: option.split)

text \<open>The class of an error, read from the answer.\<close>

lemma error_class_read:
  assumes "simple_error e \<or> e = err_unauthorized \<or> (\<exists>m. e = err_forbidden m)" "length rid \<le> 128"
  shows "failure_class (ae_status (map_error e)) (failure_code (take 65536 (error_json rid (map_error e)))) = delivery_class e"
proof (cases "simple_error e")
  case True
  show ?thesis
  proof (cases "ae_status (map_error e) = 422")
    case True
    then have "failure_class (ae_status (map_error e)) c = failure_class (ae_status (map_error e)) (ae_code (map_error e))" for c
      by (intro failure_class_other) simp
    then show ?thesis using map_error_class [OF \<open>simple_error e\<close>] by simp
  next
    case False
    with map_error_short [OF True] have s: "short_answer (map_error e)" by blast
    then have "take 65536 (error_json rid (map_error e)) = error_json rid (map_error e)"
      using error_json_length assms(2) by simp
    moreover have "failure_code (error_json rid (map_error e)) = ae_code (map_error e)"
      using s by (intro failure_code_error) (simp add: short_answer_def)
    ultimately show ?thesis using map_error_class [OF True] by simp
  qed
next
  case False
  then show ?thesis using assms(1)
    by (auto simp: err_unauthorized_def err_forbidden_def map_error_def as_api_error_def delivery_class_def failure_class_def)
qed

lemma accepted_body:
  "accepted_response v = Some (jobj [(''accepted_entries'', int_dec (ir_accepted v)), (''batch_id'', quote (ir_batch_id v)),
     (''status'', quote (case ir_status v of Accepted \<Rightarrow> ''accepted'' | Duplicate \<Rightarrow> ''duplicate''))])"
  by (simp add: accepted_response_def struct_json_def)

lemma ack_names:
  "valid_utf8 ''accepted_entries''" "valid_utf8 ''batch_id''" "valid_utf8 ''status''" "valid_utf8 ''accepted''" "valid_utf8 ''duplicate''"
  "field_name [''batch_id'', ''status''] ''accepted_entries'' = None"
  by code_simp+

lemma acknowledgement_read:
  assumes "valid_utf8 (ir_batch_id v)"
  shows "decode_acknowledgement (jobj [(''accepted_entries'', int_dec (ir_accepted v)), (''batch_id'', quote (ir_batch_id v)),
     (''status'', quote (case ir_status v of Accepted \<Rightarrow> ''accepted'' | Duplicate \<Rightarrow> ''duplicate''))]) =
   Some \<lparr>ak_batch_id = ir_batch_id v, ak_status = (case ir_status v of Accepted \<Rightarrow> ''accepted'' | Duplicate \<Rightarrow> ''duplicate'')\<rparr>"
proof -
  let ?st = "case ir_status v of Accepted \<Rightarrow> ''accepted'' | Duplicate \<Rightarrow> ''duplicate''"
  have "valid_utf8 ?st" by (simp add: ack_names split: accept_status.split)
  moreover have "json_parse (jobj [(''accepted_entries'', int_dec (ir_accepted v)), (''batch_id'', quote (ir_batch_id v)), (''status'', quote ?st)]) =
      Some (JObj [(quote_body ''accepted_entries'', int_dec (ir_accepted v), JNum (int_dec (ir_accepted v))),
        (quote_body ''batch_id'', quote (ir_batch_id v), JStr (quote_body (ir_batch_id v))),
        (quote_body ''status'', quote ?st, JStr (quote_body ?st))])"
    using json_parse_jobj(1) [of "[(''accepted_entries'', int_dec (ir_accepted v)), (''batch_id'', quote (ir_batch_id v)), (''status'', quote ?st)]"
        "[JNum (int_dec (ir_accepted v)), JStr (quote_body (ir_batch_id v)), JStr (quote_body ?st)]"] by simp
  ultimately show ?thesis
    using assms by (simp add: decode_acknowledgement_def unmarshal_def dec_struct_def ack_names set_ack_field_def)
qed

text \<open>The strict decoder of the server and the lenient one of the agent find the same identifier in a batch.\<close>

lemma request_folds:
  "list_all (\<lambda>n. fold_key n = fold_key ''batch_id'' \<longrightarrow> n = ''batch_id'') batch_request_fields" "''batch_id'' \<in> set batch_request_fields"
  by code_simp+

lemma batch_id_field:
  assumes "field_name batch_request_fields key = Some n"
  shows "field_name [''batch_id''] key = (if n = ''batch_id'' then Some ''batch_id'' else None)"
proof -
  have n: "n \<in> set batch_request_fields" "fold_key n = fold_key key"
    using assms by (auto simp: field_name_def find_Some_iff split: if_splits)
  have k: "key = ''batch_id'' \<Longrightarrow> n = ''batch_id''" using assms request_folds(2) by simp
  have "n \<noteq> ''batch_id'' \<Longrightarrow> fold_key key \<noteq> fold_key ''batch_id''"
    using request_folds(1) n unfolding list_all_iff by metis
  then show ?thesis
    using n(2) k by (cases "key = ''batch_id''"; cases "n = ''batch_id''") (simp_all add: field_name_def del: fold_key.simps)
qed

lemma set_field_batch_id:
  assumes "set_batch_request_field n t v r = Some r'"
  shows "(if n = ''batch_id'' then dec_string v (br_batch_id r) else Some (br_batch_id r)) = Some (br_batch_id r')"
  using assms by (auto simp: set_batch_request_field_def split: if_splits)

lemma members_batch_id:
  assumes "dec_members True batch_request_fields set_batch_request_field ms r = Some r'"
  shows "dec_members False [''batch_id''] (\<lambda>n t v old. dec_string v old) ms (br_batch_id r) = Some (br_batch_id r')"
  using assms
proof (induction ms arbitrary: r)
  case (Cons m ms)
  obtain k t v where m: "m = (k, t, v)" by (cases m)
  obtain key n r1 where s: "unquote_body k = Some key" "field_name batch_request_fields key = Some n"
      "set_batch_request_field n t v r = Some r1" "dec_members True batch_request_fields set_batch_request_field ms r1 = Some r'"
    using Cons.prems by (auto simp: m split: option.splits Option.bind_splits)
  from Cons.IH [OF s(4)] set_field_batch_id [OF s(3)] batch_id_field [OF s(2)] show ?case
    by (cases "n = ''batch_id''") (simp_all add: m s(1))
qed simp

lemma decoded_batch_id:
  assumes "decode (Some (payload, False)) max_bytes = (Inr r, n)"
  shows "payload_batch_id payload = Some (br_batch_id r)"
proof -
  obtain v where v: "json_parse payload = Some v" "dec_batch_request v zero_batch_request = Some r"
    using decode_iff [of payload max_bytes r] assms by blast
  then show ?thesis
    using members_batch_id [of _ zero_batch_request r]
    by (cases v) (auto simp: payload_batch_id_def unmarshal_def dec_batch_request_def dec_struct_def zero_batch_request_def)
qed

section \<open>How the route ends\<close>

text \<open>It ends in an error of one of three forms, or in the answer to a batch that is stored.\<close>

definition route_error :: "server_error \<Rightarrow> bool" where
  "route_error e \<longleftrightarrow> simple_error e \<or> e = err_unauthorized \<or> (\<exists>m. e = err_forbidden m)"

interpretation route: error_kind route_error
  by unfold_locales (simp_all add: route_error_def)

lemma authenticate_key_simple: "raises simple_error (authenticate_key pg c raw)"
proof (rule raisesI)
  fix sv e sv'
  assume a: "authenticate_key pg c raw sv = (Inl e, sv')"
  define look where "look = (case parse_key raw of None \<Rightarrow> (Inr [], sv_pg sv)
    | Some (pfx, _) \<Rightarrow> keys_find_active_by_prefix pg pfx (hl_auth_now c) (sv_pg sv))"
  obtain found s where l: "look = (found, s)" by (cases look)
  have "simple_error e'" if "found = Inl e'" for e'
    using l that raisesD [OF simple_gets(5)] by (auto simp: look_def split: option.splits prod.splits)
  moreover have "simple_error e'" if "find_match w t ks k = Inl e'" for w t ks k e'
    using that by (induction ks arbitrary: k) (auto split: if_splits)
  moreover have "fst (authenticate (\<lambda>_ _. found) True (hl_ctx_done c) (hl_auth_now c) raw (sv_auth sv)) = Inl e"
    using a by (auto simp: authenticate_key_def look_def [symmetric] l split: prod.splits)
  ultimately show "simple_error e"
    by (auto simp: authenticate_def new_principal_def split: option.splits prod.splits sum.splits)
qed

lemma authenticate_request_route: "raises route_error (authenticate_request env c rq)"
proof (rule raisesI)
  fix sv e sv'
  assume a: "authenticate_request env c rq sv = (Inl e, sv')"
  have "simple_error e'" if "authenticate_key (oe_pg (se_ops env)) c raw sv = (Inl e', s)" for raw e' s
    using raisesD [OF authenticate_key_simple that] .
  with a show "route_error e"
    by (auto simp: authenticate_request_def route_error_def split: option.splits if_splits prod.splits sum.splits)
qed

lemma on_ingest_Inr: "on_ingest m sv = (Inr x, sv') \<Longrightarrow> \<exists>st'. m (sv_admission sv, sv_pg sv) = (Inr x, st') \<and> snd st' = sv_pg sv'"
  by (auto simp: on_ingest_def split: prod.splits)

lemma on_ingest_raises: "raises P m \<Longrightarrow> raises P (on_ingest m)"
  by (rule raisesI) (auto simp: on_ingest_def dest: raisesD split: prod.splits)

lemma post_batch_raises: "raises route_error (post_batch env c rq cl)"
proof -
  have "raises route_error (on_ingest (accept pg p b call))" for pg p b call
    by (rule raisesI) (simp add: route_error_def raisesD [OF on_ingest_raises [OF accept_simple]])
  then show ?thesis
    unfolding post_batch_def Let_def split_def
    by (auto intro!: route.raises_fail route.raises_andthen route.raises_ret simp: route_error_def split: sum.split)
qed

lemma normalize_batch_id: "normalize umap lmap r project n lims = Inr b \<Longrightarrow> b_id b = br_batch_id r"
  by (auto simp: normalize_def Let_def split: sum.splits option.splits if_splits)

lemma store_batch_result:
  assumes "store_batch pg b t s = (Inr res, s')"
  shows "ir_batch_id res = b_id b" "ir_status res = Accepted \<Longrightarrow> in_int4 (ir_accepted res)"
proof -
  have "ir_batch_id res = b_id b \<and> (ir_status res = Accepted \<longrightarrow> in_int4 (ir_accepted res))"
    using assms
    by (auto simp: store_batch_def act_cases insert_batch_def Let_def takes_batch_def batch_of_def dest!: stmt_Inr split: if_splits)
  then show "ir_batch_id res = b_id b" "ir_status res = Accepted \<Longrightarrow> in_int4 (ir_accepted res)" by blast+
qed

lemma accept_result:
  assumes "accept pg p candidate c st = (Inr res, st')"
  shows "ir_batch_id res = b_id candidate" "ir_status res = Accepted \<Longrightarrow> in_int4 (ir_accepted res)"
proof -
  obtain b where b: "prepare_batch p candidate = Inr b" using assms by (auto simp: accept_def split: sum.splits)
  obtain s1 where "within_tx (accept_body pg p b (ac_committed_at c)) (snd st) = (Inr res, s1)"
    using assms b by (auto simp: accept_def Let_def split: option.splits prod.splits sum.splits)
  then obtain s s2 where "accept_body pg p b (ac_committed_at c) s = (Inr res, s2)" by (cases rule: within_tx_cases) auto
  then obtain s3 where "store_batch pg b (ac_committed_at c) s3 = (Inr res, s2)" by (rule accept_body_Inr)
  from store_batch_result [OF this] prepare_batch_Inr(5) [OF b]
  show "ir_batch_id res = b_id candidate" "ir_status res = Accepted \<Longrightarrow> in_int4 (ir_accepted res)" by simp_all
qed

lemma post_batch_Inr:
  assumes "post_batch env c rq cl sv = (Inr reply, sv')" "hq_body rq = (payload, False)"
  obtains res b where "reply = Json 200 (accepted_response res)" "payload_batch_id payload = Some (b_id b)"
    "ir_batch_id res = b_id b" "valid_uuid (b_id b)" "already_stored b (ir_accepted res) (sv_db sv')"
    "ir_status res = Duplicate \<Longrightarrow> already_stored b (ir_accepted res) (sv_db sv)"
    "ir_status res = Accepted \<Longrightarrow> in_int4 (ir_accepted res)"
proof -
  define lims where "lims = oe_limits (se_ops env)"
  obtain r n where d: "decode (Some (payload, False)) (l_max_body_bytes lims) = (Inr r, n)"
    using assms by (auto simp: post_batch_def lims_def Let_def split: if_splits prod.splits sum.splits)
  then obtain b0 where b0: "normalize (oe_upper (se_ops env)) (oe_lower (se_ops env)) r (pr_project_id (cl_principal cl)) (int n) lims = Inr b0"
    using assms by (auto simp: post_batch_def lims_def Let_def split: if_splits sum.splits)
  obtain res where res: "on_ingest (accept (oe_pg (se_ops env)) (cl_principal cl) b0 (hl_accept c)) sv = (Inr res, sv')"
      "reply = Json 200 (accepted_response res)"
    using assms d b0 by (auto simp: post_batch_def lims_def Let_def andthen_Inr split: if_splits)
  from on_ingest_Inr [OF res(1)] obtain st' where
    a: "accept (oe_pg (se_ops env)) (cl_principal cl) b0 (hl_accept c) (sv_admission sv, sv_pg sv) = (Inr res, st')" "snd st' = sv_pg sv'"
    by blast
  note ar = accept_result [OF a(1)]
  have stored: "\<exists>b. prepare_batch (cl_principal cl) b0 = Inr b \<and> already_stored b (ir_accepted res) (sv_db sv') \<and>
      (ir_status res = Duplicate \<longrightarrow> already_stored b (ir_accepted res) (sv_db sv))"
    using a(1)
  proof (cases rule: accept_cases)
    case (duplicate res1 b)
    then show ?thesis using a(2) by auto
  next
    case (accepted res1 b)
    then show ?thesis using a(2) stores_batch_stored by (fastforce simp: already_stored_def)
  qed simp_all
  then obtain b where b: "prepare_batch (cl_principal cl) b0 = Inr b" "already_stored b (ir_accepted res) (sv_db sv')"
      "ir_status res = Duplicate \<Longrightarrow> already_stored b (ir_accepted res) (sv_db sv)" by blast
  have i: "b_id b = b_id b0" "validate_batch b = None" using prepare_batch_Inr(4,5) [OF b(1)] by simp_all
  show thesis
  proof (rule that [OF res(2) _ _ _ b(2,3) ar(2)])
    show "payload_batch_id payload = Some (b_id b)" using decoded_batch_id [OF d] normalize_batch_id [OF b0] i by simp
    show "ir_batch_id res = b_id b" using ar(1) i by simp
    show "valid_uuid (b_id b)" using i(2) by (auto simp: validate_batch_def split: if_splits)
  qed
qed

end
