(* ===== verification/Http_Types.thy ===== *)
theory Http_Types
  imports Http_Upload
begin

text \<open>
  The form of every answer: a body is one JSON object that a client can parse, an error names its code and the request,
  and no header breaks a line, whatever the request and the rows of the database hold.
\<close>

section \<open>Bodies that can be parsed\<close>

definition is_json :: "string option \<Rightarrow> bool" where
  "is_json t \<longleftrightarrow> (\<forall>s. t = Some s \<longrightarrow> (\<exists>v. renders s v))"

definition is_object :: "string option \<Rightarrow> bool" where
  "is_object t \<longleftrightarrow> (\<forall>s. t = Some s \<longrightarrow> (\<exists>ms. renders s (JObj ms)))"

named_theorems jsons \<open>texts that are JSON\<close>

lemma is_object_json: "is_object t \<Longrightarrow> is_json t"
  by (auto simp: is_object_def is_json_def)

lemma is_json_texts [jsons]: "is_json (text_json s)" "is_json (int_json n)" "is_json (bool_json b)" "is_json (Some ''null'')"
  unfolding is_json_def using renders_quote renders_int_dec renders_bool [of b] renders_null by blast+

lemma is_json_time [jsons]: "is_json (time_json t)"
  by (auto simp: is_json_def time_json_def intro: renders_quote)

lemma is_json_compact [jsons]: "is_json (json_compact s)"
  by (auto simp: is_json_def json_compact_def dest!: json_parse_ok intro: renders_jtext(1))

lemma is_json_null [jsons]: "(\<And>x. is_json (f x)) \<Longrightarrow> is_json (or_null f v)"
  using is_json_texts(4) by (simp add: or_null_def split: option.split)

lemma those_list: "those xs = Some ys \<Longrightarrow> list_all is_json xs \<Longrightarrow> \<exists>vs. list_all2 renders ys vs"
proof (induction xs arbitrary: ys)
  case (Cons x xs)
  then obtain y zs where y: "x = Some y" "those xs = Some zs" "ys = y # zs" by (auto split: option.splits)
  then obtain v vs where "renders y v" "list_all2 renders zs vs" using Cons.IH [OF y(2)] Cons.prems(2) by (force simp: is_json_def)
  then show ?case using y(3) by (intro exI [of _ "v # vs"]) simp
qed (simp add: exI [of _ "[]"])

lemma length_those: "those xs = Some ys \<Longrightarrow> length ys = length xs"
  by (induction xs arbitrary: ys) (auto split: option.splits)

text \<open>The members of an object are JSON.\<close>

definition members_json :: "(string \<times> string option) list \<Rightarrow> bool" where
  "members_json fs \<longleftrightarrow> list_all is_json (map snd fs)"

lemma members_json_simps [jsons]:
  "members_json []" "members_json ((n, t) # fs) \<longleftrightarrow> is_json t \<and> members_json fs"
  "members_json (fs @ gs) \<longleftrightarrow> members_json fs \<and> members_json gs"
  by (simp_all add: members_json_def)

lemma members_json_left_out [jsons]: "(\<And>x. is_json (f x)) \<Longrightarrow> members_json (or_left_out name f v)"
  by (simp add: or_left_out_def members_json_def split: option.split)

lemma is_object_struct [jsons]:
  assumes "members_json fs"
  shows "is_object (struct_json fs)"
proof -
  have "\<exists>ms. renders s (JObj ms)" if s: "struct_json fs = Some s" for s
  proof -
    obtain ts where ts: "those (map snd fs) = Some ts" "jobj (zip (map fst fs) ts) = s" using s unfolding struct_json_def by blast
    obtain vs where "list_all2 renders ts vs" using those_list [OF ts(1)] assms by (auto simp: members_json_def)
    then have "list_all2 (\<lambda>f v. renders (snd f) v) (zip (map fst fs) ts) vs"
      using length_those [OF ts(1)] by (auto simp: list_all2_conv_all_nth)
    from json_parse_jobj(2) [OF this] show ?thesis unfolding ts(2) by blast
  qed
  then show ?thesis by (simp add: is_object_def)
qed

lemma is_json_struct [jsons]: "members_json fs \<Longrightarrow> is_json (struct_json fs)"
  by (rule is_object_json [OF is_object_struct])

lemma is_json_list [jsons]: "(\<And>x. is_json (f x)) \<Longrightarrow> is_json (list_json f xs)"
  using those_list [of "map f xs"] by (fastforce simp: list_json_def is_json_def list_all_iff intro: renders_arr)

lemma marshal_json:
  "marshal_value v = Some s \<Longrightarrow> \<exists>x. renders s x"
  "marshal_items vs = Some ts \<Longrightarrow> \<exists>xs. list_all2 renders ts xs"
  "marshal_members ms = Some fs \<Longrightarrow> \<forall>f \<in> set fs. \<exists>x. renders (snd f) x"
proof (induction v and vs and ms arbitrary: s and ts and fs rule: marshal_value_marshal_items_marshal_members.induct)
  case (2 b)
  then show ?case using renders_bool [of b] by auto
next
  case (4 lit)
  then show ?case by (auto split: if_splits intro: renders_num)
next
  case (5 vs)
  then show ?case by (auto intro: renders_arr)
next
  case (6 ms)
  then obtain fs where fs: "marshal_members ms = Some fs" "s = jobj (sort_key fst fs)" by auto
  then have "\<forall>f \<in> set (sort_key fst fs). \<exists>x. renders (snd f) x" using 6 by simp
  then obtain g where g: "\<forall>f \<in> set (sort_key fst fs). renders (snd f) (g f)" by metis
  have "list_all2 (\<lambda>f v. renders (snd f) v) (sort_key fst fs) (map g (sort_key fst fs))"
    unfolding list_all2_map2 using g by (intro list.rel_refl_strong) auto
  from json_parse_jobj(2) [OF this] show ?case unfolding fs(2) by blast
next
  case (8 v vs)
  then show ?case by (fastforce split: Option.bind_splits)
next
  case (10 k v ms)
  then show ?case by (fastforce split: Option.bind_splits)
qed (auto intro: renders_quote renders_null)

lemma is_json_attributes [jsons]: "is_json (marshal_attributes a)"
proof (cases a)
  case None
  then show ?thesis using is_json_texts(4) by (simp add: marshal_attributes_def)
next
  case (Some ms)
  then show ?thesis using marshal_json(1) [of "VObj ms"] by (simp add: is_json_def marshal_attributes_def)
qed

lemmas response_defs =
  project_response_def key_response_def created_key_response_def key_members_def agent_response_def pipeline_response_def
  entry_response_def retention_response_def usage_response_def audit_response_def quarantine_response_def control_response_def
  scopes_json_def

lemma is_object_responses [jsons]:
  "is_object (project_response p)" "is_object (key_response k)" "is_object (created_key_response ck)" "is_object (agent_response a)"
  "is_object (pipeline_response l)" "is_object (entry_response e)" "is_object (retention_response r)" "is_object (usage_response u)"
  "is_object (audit_response au)" "is_object (quarantine_response q)" "is_object (control_response cv)"
  unfolding response_defs by (simp_all add: jsons)

lemmas is_json_responses [jsons] = is_object_responses [THEN is_object_json]

lemma is_object_answers [jsons]:
  "is_object (heartbeat_response h)" "is_object (accepted_response v)" "is_object (page_response es cursor)"
  unfolding heartbeat_response_def accepted_response_def page_response_def by (simp_all add: jsons)

section \<open>Replies\<close>

definition reply_ok :: "reply \<Rightarrow> bool" where
  "reply_ok r \<longleftrightarrow> (case r of Json status body \<Rightarrow> status \<in> {200, 201, 503} \<and> is_object body | NoContent \<Rightarrow> True)"

definition gives :: "('a \<Rightarrow> bool) \<Rightarrow> ('s, 'a) act \<Rightarrow> bool" where
  "gives P m \<longleftrightarrow> (\<forall>s x s'. m s = (Inr x, s') \<longrightarrow> P x)"

lemma gives_ret: "P x \<Longrightarrow> gives P (ret x)" and gives_fail: "gives P (fail e)"
  by (auto simp: gives_def)

lemma gives_andthen: "(\<And>x. gives P (f x)) \<Longrightarrow> gives P (andthen m f)"
  by (auto simp: gives_def andthen_def split: prod.splits sum.splits)

lemma gives_if: "gives P m \<Longrightarrow> gives P m' \<Longrightarrow> gives P (if b then m else m')"
  by simp

lemma gives_one: "is_json body \<Longrightarrow> gives reply_ok (reply_one 200 name body)"
  "is_json body \<Longrightarrow> gives reply_ok (reply_one 201 name body)"
  unfolding reply_one_def by (intro gives_ret; simp add: reply_ok_def jsons)+

lemma reply_ok_answers:
  "reply_ok (Json 200 (heartbeat_response h))" "reply_ok (Json 200 (accepted_response v))" "reply_ok (Json 200 (page_response es cursor))"
  "is_json body \<Longrightarrow> reply_ok (with_null_cursor name body)" "reply_ok NoContent"
  by (simp_all add: reply_ok_def with_null_cursor_def jsons)

lemma public_ok: "reply_ok (ready_reply cfg c)" "reply_ok (health_reply cfg c)"
  by (simp_all add: ready_reply_def health_reply_def database_check_def reply_ok_def jsons)

lemmas replies = gives_andthen gives_if gives_fail gives_one gives_ret reply_ok_answers public_ok is_json_list is_json_responses

lemma api_handler_ok: "gives reply_ok (api_handler r env c rq cl)"
proof -
  have batch: "gives reply_ok (post_batch env c rq cl)"
    unfolding post_batch_def Let_def split_def
    by (intro gives_if gives_fail) (auto intro!: gives_fail gives_andthen gives_ret reply_ok_answers split: sum.split)
  have action: "gives reply_ok (post_pipeline_status project i a env c rq cl)" for project i a
    unfolding post_pipeline_status_def by (cases "action_status a"; simp only: option.case; intro replies)
  show ?thesis
    unfolding api_handler_def
    by (cases r; simp only: route.case list_projects_def post_project_def post_project_status_def list_keys_def post_key_def
        post_key_revoke_def list_agents_def post_agent_def post_heartbeat_def list_pipelines_def post_pipeline_def put_pipeline_def
        search_entries_def get_retention_def put_retention_def get_usage_def list_audit_def list_quarantine_def post_quarantine_def split_def;
      intro replies batch action)
qed

section \<open>Responses\<close>

definition header_safe :: "string \<Rightarrow> bool" where
  "header_safe v \<longleftrightarrow> CHR 0x0D \<notin> set v \<and> CHR 0x0A \<notin> set v"

definition well_formed :: "http_response \<Rightarrow> bool" where
  "well_formed r \<longleftrightarrow>
     list_all (\<lambda>h. header_safe (snd h)) (rs_headers r) \<and>
     (rs_body r = [] \<or> (case json_parse (rs_body r) of Some (JObj _) \<Rightarrow> True | _ \<Rightarrow> False))"

lemma header_safe_chars: "list_all (\<lambda>c. 32 < byte_val c) v \<Longrightarrow> header_safe v"
  by (auto simp: header_safe_def list_all_iff)

lemma header_safe_hex: "header_safe (hex_encode bs)"
proof (rule header_safe_chars)
  have "32 < byte_val (hex_char n)" for n by (rule hex_char_all) code_simp
  then show "list_all (\<lambda>c. 32 < byte_val c) (hex_encode bs)" by (induction bs) (simp_all add: hex_encode_def)
qed

lemma header_safe_nat_dec: "header_safe (nat_dec n)"
proof (rule header_safe_chars)
  have "list_all is_digit (nat_dec n)" by simp
  then show "list_all (\<lambda>c. 32 < byte_val c) (nat_dec n)" by (rule list.pred_mono_strong) (simp add: is_digit_def)
qed

lemma header_safe_request_id: "header_safe (request_id random rq)"
proof -
  have "header_safe (hq_request_id rq)" if "valid_request_id (hq_request_id rq)"
  proof (rule header_safe_chars)
    show "list_all (\<lambda>c. 32 < byte_val c) (hq_request_id rq)"
      using that by (auto simp: valid_request_id_def request_id_char_def list_all_iff)
  qed
  moreover have "header_safe ''request-id-unavailable''" by code_simp
  ultimately show ?thesis using header_safe_hex by (auto simp: request_id_def split: option.split)
qed

lemma retry_after_safe: "list_all (\<lambda>h. header_safe (snd h)) (retry_after_header e)"
proof -
  have "header_safe (int_dec (max 1 n))" for n using header_safe_nat_dec by (simp add: int_dec_def)
  moreover have "header_safe ''1''" by code_simp
  ultimately show ?thesis by (simp add: retry_after_header_def split: option.split)
qed

lemma cors_safe:
  assumes "\<forall>x \<in> set origins. header_safe x"
  shows "list_all (\<lambda>h. header_safe (snd h)) (snd (cors origins rid rq))"
proof -
  have "list_all (\<lambda>h. header_safe (snd h)) (tl (allow_headers origin))" for origin
    by (simp add: allow_headers_def header_safe_def)
  moreover have "allow_headers origin = (''Access-Control-Allow-Origin'', origin) # tl (allow_headers origin)" for origin
    by (simp add: allow_headers_def)
  ultimately have "header_safe origin \<Longrightarrow> list_all (\<lambda>h. header_safe (snd h)) (allow_headers origin)" for origin
    by (metis list.pred_inject(2) snd_conv)
  with assms show ?thesis by (auto simp: cors_def Let_def)
qed

lemma write_error_formed: "well_formed (write_error rid e)"
  using retry_after_safe by (simp add: well_formed_def write_error_def error_json_parse Let_def)

lemma reply_formed: "reply_ok r \<Longrightarrow> well_formed (reply_response r) \<and> rs_status (reply_response r) \<in> {200, 201, 204, 503}"
proof (cases r)
  case (Json status body)
  assume "reply_ok r"
  then have ok: "status \<in> {200, 201, 503}" "is_object body" by (simp_all add: Json reply_ok_def)
  show ?thesis
  proof (cases body)
    case (Some t)
    then obtain ms where "renders t (JObj ms)" using ok(2) by (auto simp: is_object_def)
    then have "json_parse t = Some (JObj ms)" by (rule renders_json_parse)
    then show ?thesis using ok(1) by (auto simp: Json Some reply_response_def well_formed_def)
  qed (use ok(1) in \<open>auto simp: Json reply_response_def well_formed_def\<close>)
qed (simp add: reply_response_def well_formed_def)

lemma finished_formed:
  assumes "well_formed r" "header_safe rid" "list_all (\<lambda>h. header_safe (snd h)) headers"
  shows "well_formed (finished rid headers r)"
  using assms by (simp add: well_formed_def finished_def)

lemma route_action_ok: "gives reply_ok (route_action r env c rq)"
  unfolding route_action_def using api_handler_ok public_ok by (cases r) (auto intro!: gives_andthen gives_ret)

text \<open>
  C12. Every answer of the server is well formed: its body is empty or one JSON object, its headers break no line, and it is
  a reply of a handler with one of its statuses or the error object with the code of an error and the request identifier.
\<close>

theorem responses_well_formed:
  assumes "\<forall>x \<in> set (hc_origins (se_http env)). header_safe x"
  shows "well_formed (fst (http_serve env r c rq sv)) \<and>
    (rs_status (fst (http_serve env r c rq sv)) \<in> {200, 201, 204, 503} \<or>
     (\<exists>e. rs_status (fst (http_serve env r c rq sv)) = ae_status (map_error e) \<and>
        rs_body (fst (http_serve env r c rq sv)) = error_json (request_id (hl_random c) rq) (map_error e)))"
proof -
  define rid where "rid = request_id (hl_random c) rq"
  obtain stopped headers where h: "cors (hc_origins (se_http env)) rid rq = (stopped, headers)" by (cases "cors (hc_origins (se_http env)) rid rq")
  have safe: "header_safe rid" "list_all (\<lambda>h. header_safe (snd h)) headers"
    using header_safe_request_id cors_safe [OF assms, of rid rq] h by (simp_all add: rid_def)
  note formed = finished_formed [OF _ safe]
  have error: "rs_status (finished rid headers (write_error rid e)) = ae_status (map_error e)"
    "rs_body (finished rid headers (write_error rid e)) = error_json rid (map_error e)" for e
    by (simp_all add: finished_def write_error_def Let_def)
  show ?thesis
  proof (cases stopped)
    case (Some resp)
    then have resp: "resp = write_error rid (err_forbidden ''origin is not allowed'') \<or> resp = \<lparr>rs_status = 204, rs_headers = [], rs_body = []\<rparr>"
      using h by (auto simp: cors_def Let_def split: if_splits)
    have serve: "fst (http_serve env r c rq sv) = finished rid headers resp"
      using h Some by (simp add: http_serve_def rid_def Let_def)
    from resp show ?thesis
    proof
      assume "resp = write_error rid (err_forbidden ''origin is not allowed'')"
      then show ?thesis unfolding serve using formed [OF write_error_formed] error rid_def by blast
    next
      assume r: "resp = \<lparr>rs_status = 204, rs_headers = [], rs_body = []\<rparr>"
      have "well_formed resp" by (simp add: r well_formed_def)
      moreover have "rs_status (finished rid headers resp) = 204" by (simp add: r finished_def)
      ultimately show ?thesis unfolding serve using formed by simp
    qed
  next
    case None
    obtain x s where x: "route_action r env c rq sv = (x, s)" by fastforce
    show ?thesis
    proof (cases x)
      case (Inl e)
      then have serve: "fst (http_serve env r c rq sv) = finished rid headers (write_error rid e)"
        using h None x by (simp add: http_serve_def rid_def Let_def)
      show ?thesis unfolding serve using formed [OF write_error_formed] error rid_def by blast
    next
      case (Inr reply)
      then have serve: "fst (http_serve env r c rq sv) = finished rid headers (reply_response reply)"
        using h None x by (simp add: http_serve_def rid_def Let_def)
      have "reply_ok reply" using route_action_ok [of r env c rq] x Inr unfolding gives_def by blast
      note ok = reply_formed [OF this]
      have "rs_status (finished rid headers (reply_response reply)) = rs_status (reply_response reply)" by (simp add: finished_def)
      then show ?thesis unfolding serve using formed ok by simp
    qed
  qed
qed

lemma responses_well_formed_witness:
  "\<forall>a. well_formed (fst (http_serve sample_env ApiIngest sample_http_call sample_http_request (sample_server a)))"
proof
  fix a
  have "\<forall>x \<in> set (hc_origins (se_http sample_env)). header_safe x" by (simp add: sample_env_def default_http_config_def)
  from responses_well_formed [OF this] show "well_formed (fst (http_serve sample_env ApiIngest sample_http_call sample_http_request (sample_server a)))"
    by blast
qed

end
