(* ===== verification/Upload_Properties.thy ===== *)
theory Upload_Properties
  imports Http_Upload
begin

text \<open>
  The end of the upload: the answers of the route of batches, put into the transport of the agent. Errors come out in
  their class (\<open>delivery_class\<close>), a stored batch as an acknowledgement.
\<close>

section \<open>Lengths and headers\<close>

lemma authenticate_request_db: "authenticate_request env c rq sv = (r, sv') \<Longrightarrow> sv_db sv' = sv_db sv"
proof -
  assume a: "authenticate_request env c rq sv = (r, sv')"
  have "sv_db s = sv_db sv" if "authenticate_key pg c raw sv = (x, s)" for pg raw x s
    using that by (auto simp: authenticate_key_def find_keys_db Let_def dest: arg_cong [where f = "\<lambda>x. ps_db (snd x)"]
        split: option.splits prod.splits)
  with a show ?thesis
    by (auto simp: authenticate_request_def split: option.splits if_splits prod.splits sum.splits)
qed

lemma length_request_id:
  assumes "\<forall>raw. random = Some raw \<longrightarrow> length raw = 16"
  shows "length (request_id random rq) \<le> 128"
  using assms by (auto simp: request_id_def valid_request_id_def split: option.split)

lemma retry_header_of:
  "header_of ''Retry-After'' (finished rid (snd (cors origins rid rq)) r) =
     (case map_of (rs_headers r) ''Retry-After'' of None \<Rightarrow> [] | Some v \<Rightarrow> v)"
  by (simp add: header_of_def finished_def cors_def allow_headers_def Let_def map_add_def split: option.split)

lemma accepted_body_length:
  assumes "in_int64 n" "length i = 36"
  shows "length (jobj [(''accepted_entries'', int_dec n), (''batch_id'', quote i), (''status'', quote (case st of Accepted \<Rightarrow> ''accepted'' | Duplicate \<Rightarrow> ''duplicate''))]) \<le> 65536"
  using length_int_dec [OF assms(1)] length_quote [of i] length_quote [of "''accepted''"] length_quote [of "''duplicate''"] length_quote [of "''accepted_entries''"]
    length_quote [of "''batch_id''"] length_quote [of "''status''"] assms(2)
  by (cases st) (simp_all add: jobj_def jfield_def)

section \<open>Answers\<close>

lemma send_failure:
  assumes "payload_batch_id payload = Some i" "\<not> blank i" "\<not> (200 \<le> status \<and> status < 300)"
    "send http_time payload (Responds status retry body) now = (res, err)"
  shows "sr_class res = failure_class status (failure_code (take 65536 body))"
    "sr_retry_after res = parse_retry_after http_time retry now"
  using assms(4) assms(1-3) by (auto simp: send_def Let_def)

lemma map_error_status: "simple_error e \<or> e = err_unauthorized \<or> (\<exists>m. e = err_forbidden m) \<Longrightarrow> 400 \<le> ae_status (map_error e)"
  using map_error_short [of e]
  by (auto simp: short_answer_def err_unauthorized_def err_forbidden_def map_error_def as_api_error_def)


lemma serve_route:
  assumes "http_serve env r c rq sv = (resp, sv')" "\<not> hq_options rq"
  obtains (error) e where "route_action r env c rq sv = (Inl e, sv')"
      "rs_status resp = ae_status (map_error e)" "rs_body resp = error_json (request_id (hl_random c) rq) (map_error e)"
      "header_of ''Retry-After'' resp = (case map_of (retry_after_header e) ''Retry-After'' of None \<Rightarrow> [] | Some v \<Rightarrow> v)"
    | (reply) reply where "route_action r env c rq sv = (Inr reply, sv')"
      "rs_status resp = rs_status (reply_response reply)" "rs_body resp = rs_body (reply_response reply)"
proof -
  define rid where "rid = request_id (hl_random c) rq"
  have "fst (cors (hc_origins (se_http env)) rid rq) = None" using assms(2) by (simp add: cors_def Let_def)
  then obtain headers where h: "cors (hc_origins (se_http env)) rid rq = (None, headers)" by (metis prod.collapse)
  note retry = retry_header_of [of rid "hc_origins (se_http env)" rq, unfolded h snd_conv]
  show thesis
  proof (cases "route_action r env c rq sv")
    case (Pair x s)
    show thesis
    proof (cases x)
      case (Inl e)
      with assms Pair h have "resp = finished rid headers (write_error rid e)" "s = sv'" by (simp_all add: http_serve_def rid_def Let_def)
      then show thesis using Inl Pair retry [of "write_error rid e"]
        by (intro error [of e]) (simp_all add: write_error_def finished_def Let_def rid_def)
    next
      case (Inr reply)
      with assms Pair h have "resp = finished rid headers (reply_response reply)" "s = sv'" by (simp_all add: http_serve_def rid_def Let_def)
      then show thesis using Inr Pair by (intro that(2) [of reply]) (simp_all add: finished_def)
    qed
  qed
qed

lemma ingest_outcome:
  assumes "hq_body rq = (payload, False)" "route_action ApiIngest env c rq sv = (x, sv')"
  shows "case x of
      Inl e \<Rightarrow> simple_error e \<or> e = err_unauthorized \<or> (\<exists>m. e = err_forbidden m)
    | Inr reply \<Rightarrow> \<exists>cl sv1. authenticate_request env c rq sv = (Inr cl, sv1) \<and> sv_db sv1 = sv_db sv \<and>
        post_batch env c rq cl sv1 = (Inr reply, sv')"
proof (cases "authenticate_request env c rq sv")
  case (Pair y sv1)
  show ?thesis
  proof (cases y)
    case (Inl e)
    then show ?thesis using assms(2) Pair raisesD [OF authenticate_request_route, of env c rq sv e sv1]
      by (auto simp: route_action_def andthen_def route_error_def)
  next
    case (Inr cl)
    then have p: "post_batch env c rq cl sv1 = (x, sv')" using assms(2) Pair by (simp add: route_action_def andthen_def api_handler_def)
    show ?thesis
    proof (cases x)
      case (Inl e)
      with raisesD [OF post_batch_raises] p show ?thesis by (auto simp: route_error_def)
    next
      case (Inr reply)
      with p Pair \<open>y = Inr cl\<close> authenticate_request_db show ?thesis by auto
    qed
  qed
qed

lemma retry_header_limited:
  "map_of (retry_after_header (Limited reason d)) ''Retry-After'' = Some (int_dec (max 1 (ceil_seconds d)))"
  by (simp add: retry_after_header_def as_limit_def)

lemma stored_count:
  assumes "ir_status v = Accepted \<Longrightarrow> in_int4 (ir_accepted v)" "ir_status v = Duplicate \<Longrightarrow> already_stored b (ir_accepted v) d"
    "\<forall>r \<in> set (t_batches d). in_int4 (sb_entry_count r)"
  shows "in_int64 (ir_accepted v)"
proof -
  have "in_int4 (ir_accepted v)" using assms by (cases "ir_status v") (auto simp: already_stored_def)
  then show ?thesis by (simp add: in_int4_def in_int64_def)
qed

lemma upload_accepted:
  assumes "ir_batch_id v = i" "payload_batch_id payload = Some i" "valid_uuid i" "\<not> blank i" "in_int64 (ir_accepted v)"
    "send http_time payload (Responds 200 retry (case accepted_response v of None \<Rightarrow> [] | Some t \<Rightarrow> t)) now = (res, err)"
  shows "sr_class res = (case ir_status v of Accepted \<Rightarrow> ResultAccepted | Duplicate \<Rightarrow> ResultDuplicate) \<and> \<not> err"
proof -
  have l: "length i = 36" using assms(3) by (simp add: valid_uuid_def)
  have u: "valid_utf8 (ir_batch_id v)" using assms(1,3) valid_uuid_ascii valid_utf8_ascii by simp
  note body = accepted_body_length [OF assms(5) l, of "ir_status v"]
  show ?thesis
    using assms(1-4,6) acknowledgement_read [OF u] body
    by (cases "ir_status v") (auto simp: send_def Let_def accepted_body)
qed

section \<open>From the route to the agent\<close>


text \<open>A batch without a credential is refused, and the delivery of the agent ends.\<close>

definition sample_upload :: string where
  "sample_upload = jobj [(''batch_id'', quote (uid (CHR ''9'')))]"


end
