(* ===== verification/Agent_Simple.thy ===== *)
theory Agent_Simple
  imports Agent_Batch Agent_Delivery
begin

text \<open>
  The agent without a spool (\<open>internal/agent\<close> with \<open>source/file.go\<close>, \<open>sourcePipeline.go\<close>, \<open>sender/tickOrBatch.go\<close>,
  \<open>destination/gline.go\<close>, \<open>agent.go\<close>): the pipelines put their entries into one channel, and a sender takes them out in
  batches. What a send comes to, the ticker and the reads are arguments; a panic of a pipeline is its stop.
\<close>

section \<open>The source\<close>

record file_source =
  fl_buffer :: bytes
  fl_pos :: nat
  fl_pending :: bytes

text \<open>\<open>NewFileSource\<close> seeks to the end of the file.\<close>

definition new_file_source :: "bytes \<Rightarrow> file_source" where
  "new_file_source data = \<lparr>fl_buffer = [], fl_pos = length data, fl_pending = []\<rparr>"

datatype file_turn = Emits raw_record | Polls | Breaks

text \<open>One turn of the loop of \<open>NextRecord\<close>.\<close>

definition file_next :: "time \<Rightarrow> reads \<Rightarrow> bytes \<Rightarrow> file_source \<Rightarrow> file_turn \<times> file_source" where
  "file_next now rd data s =
     (let ((line, e), buf, pos) = read_string data rd (fl_buffer s) (fl_pos s);
          s1 = s\<lparr>fl_buffer := buf, fl_pos := pos, fl_pending := fl_pending s @ line\<rparr>
      in case e of
           Delimited \<Rightarrow>
             (Emits \<lparr>rr_observed_at = now, rr_content = line_content (fl_pending s1), rr_source_key = [], rr_file_identity = [],
                     rr_end_offset = 0\<rparr>, s1\<lparr>fl_pending := []\<rparr>)
         | ReadError \<Rightarrow> (Breaks, s1)
         | EndOfFile \<Rightarrow> (Polls, s1))"

text \<open>A record is the next line of what was not read yet; otherwise a poll reads on and keeps all of it.\<close>

definition file_unread :: "bytes \<Rightarrow> file_source \<Rightarrow> bytes" where
  "file_unread data s = fl_pending s @ fl_buffer s @ drop (fl_pos s) data"

lemma file_next_reads:
  assumes "file_next now (ReadsOk ahead) data s = (turn, s')" "newline \<notin> set (fl_pending s)" "fl_pos s \<le> length data"
  shows "newline \<notin> set (fl_pending s') \<and> fl_pos s' \<le> length data \<and>
    (case turn of
       Emits raw \<Rightarrow> \<exists>l. is_line l \<and> file_unread data s = l @ file_unread data s' \<and> rr_content raw = line_content l
     | Polls \<Rightarrow> file_unread data s' = file_unread data s \<and> newline \<notin> set (file_unread data s)
     | Breaks \<Rightarrow> False)"
proof -
  define rest where "rest = fl_buffer s @ drop (fl_pos s) data"
  show ?thesis
  proof (cases "newline \<in> set rest")
    case False
    then show ?thesis using assms
      by (auto simp: file_next_def read_string_def rest_def file_unread_def Let_def)
  next
    case True
    define line where "line = takeWhile (\<lambda>c. c \<noteq> newline) rest @ [newline]"
    define after where "after = drop (length line) rest"
    note fl = first_line [OF True, folded line_def]
    have rest: "rest = line @ after" using fl(2) by (simp add: after_def line_def)
    define kept where "kept = (if length line \<le> length (fl_buffer s) then drop (length line) (fl_buffer s) else take ahead after)"
    define pos' where "pos' = fl_pos s + (length line + length kept - length (fl_buffer s))"
    have rs: "read_string data (ReadsOk ahead) (fl_buffer s) (fl_pos s) = ((line, Delimited), kept, pos')"
      using True unfolding read_string_def rest_def [symmetric] Let_def
      by (simp add: rest_def [symmetric] line_def [symmetric] after_def [symmetric] kept_def pos'_def)
    have len: "length line + length after = length (fl_buffer s) + (length data - fl_pos s)"
      using arg_cong [OF rest, of length] by (simp add: rest_def)
    have "after = kept @ drop pos' data \<and> pos' \<le> length data"
    proof (cases "length line \<le> length (fl_buffer s)")
      case True
      then have "kept = drop (length line) (fl_buffer s)" "pos' = fl_pos s" by (simp_all add: kept_def pos'_def)
      then show ?thesis using True assms(3) by (simp add: after_def rest_def)
    next
      case False
      then have k: "kept = take ahead after" by (simp add: kept_def)
      have a: "after = drop (length line - length (fl_buffer s) + fl_pos s) data"
        using False by (simp add: after_def rest_def)
      have "kept @ drop (length kept) after = after" by (simp add: k min_def)
      moreover have "drop (length kept) after = drop pos' data"
        using False by (simp add: a pos'_def ac_simps)
      moreover have "length kept \<le> length after" by (simp add: k)
      then have "pos' \<le> length data" using False len assms(3) by (simp add: pos'_def)
      ultimately show ?thesis by simp
    qed
    moreover have "is_line (fl_pending s @ line)" using fl(1) assms(2) by (auto simp: is_line_def)
    ultimately show ?thesis
      using assms(1) rest by (auto simp: file_next_def rs Let_def file_unread_def rest_def [symmetric])
  qed
qed

section \<open>A pipeline\<close>

datatype agent_error_kind = KindUnknown | KindTemporary | KindFatal

text \<open>What \<open>NextRecord\<close> returns: a record, the error of the context, or an error with the kind of its \<open>SourceError\<close>.\<close>

datatype next_record_result = GotRecord raw_record | ContextError | GotError "agent_error_kind option"

datatype pipeline_turn = StopsPipeline | WaitsSecond | Passes log_entry

definition simple_pipeline_turn ::
  "(raw_record \<Rightarrow> log_entry option) \<Rightarrow> string \<Rightarrow> string \<Rightarrow> next_record_result \<Rightarrow> pipeline_turn"
where
  "simple_pipeline_turn parse service host next =
     (case next of
        ContextError \<Rightarrow> StopsPipeline
      | GotError kind \<Rightarrow> if kind = Some KindTemporary then WaitsSecond else StopsPipeline
      | GotRecord raw \<Rightarrow>
          (let e = (case parse raw of
                      Some e \<Rightarrow> e
                    | None \<Rightarrow> \<lparr>le_timestamp = rr_observed_at raw, le_level = ''UNKNOWN'', le_host = [], le_message = rr_content raw,
                               le_service = [], le_data = []\<rparr>)
           in Passes (e\<lparr>le_host := host, le_service := service\<rparr>)))"

section \<open>The sender\<close>

record sender_options =
  so_batch_size :: int
  so_flush_interval :: duration

definition sender_defaults :: "sender_options \<Rightarrow> sender_options" where
  "sender_defaults o1 =
     (let o2 = (if so_batch_size o1 = 0 then o1\<lparr>so_batch_size := 100\<rparr> else o1)
      in if so_flush_interval o2 = 0 then o2\<lparr>so_flush_interval := 5 * second\<rparr> else o2)"

text \<open>
  The batch, what the destination has taken, and how \<open>Run\<close> has ended: with an error or not.
\<close>

record sender_state =
  sn_batch :: "log_entry list"
  sn_sent :: "log_entry list list"
  sn_end :: "bool option"

text \<open>\<open>flush\<close>, when the destination takes the batch (\<open>ok\<close>) or not.\<close>

definition sender_flush :: "bool \<Rightarrow> sender_state \<Rightarrow> bool \<times> sender_state" where
  "sender_flush ok s =
     (if sn_batch s = [] then (True, s)
      else if ok then (True, s\<lparr>sn_sent := sn_sent s @ [sn_batch s], sn_batch := []\<rparr>)
      else (False, s))"

datatype sender_event = FlushTick | ReceivesEntry log_entry | ChannelClosed

text \<open>One turn of the loop; \<open>sn_end\<close> is \<open>Some True\<close> for an end without an error.\<close>

definition sender_turn :: "int \<Rightarrow> bool \<Rightarrow> sender_event \<Rightarrow> sender_state \<Rightarrow> sender_state" where
  "sender_turn batch_size ok event s =
     (case event of
        FlushTick \<Rightarrow> (case sender_flush ok s of (True, s') \<Rightarrow> s' | (False, s') \<Rightarrow> s'\<lparr>sn_end := Some False\<rparr>)
      | ChannelClosed \<Rightarrow> (case sender_flush ok s of (b, s') \<Rightarrow> s'\<lparr>sn_end := Some b\<rparr>)
      | ReceivesEntry e \<Rightarrow>
          (let s1 = s\<lparr>sn_batch := sn_batch s @ [e]\<rparr>
           in if int (length (sn_batch s1)) \<ge> batch_size
              then (case sender_flush ok s1 of (True, s') \<Rightarrow> s' | (False, s') \<Rightarrow> s'\<lparr>sn_end := Some False\<rparr>)
              else s1))"

section \<open>The destination\<close>

fun simple_entries_json :: "log_entry list \<Rightarrow> string list option" where
  "simple_entries_json [] = Some []"
| "simple_entries_json (e # es) =
     do { t \<leftarrow> time_json (le_timestamp e);
          data \<leftarrow> (if le_data e = [] then Some [] else map_option (\<lambda>d. [(''data'', d)]) (marshal_value (VObj (le_data e))));
          ts \<leftarrow> simple_entries_json es;
          Some (jobj ([(''timestamp'', t), (''level'', quote (le_level e)), (''host'', quote (le_host e)),
            (''message'', quote (le_message e)), (''service'', quote (le_service e))] @ data) # ts) }"

definition simple_body :: "log_entry list \<Rightarrow> bytes option" where
  "simple_body es = map_option (\<lambda>ts. jobj [(''entries'', jarr ts)]) (simple_entries_json es)"

text \<open>\<open>SendEntries\<close>: whether it returns without an error.\<close>

definition gline_send :: "(bytes \<Rightarrow> http_outcome) \<Rightarrow> log_entry list \<Rightarrow> bool" where
  "gline_send post es =
     (case simple_body es of
        None \<Rightarrow> False
      | Some body \<Rightarrow>
          (case post body of RequestFails \<Rightarrow> False | DoFails \<Rightarrow> False | BodyFails status \<Rightarrow> status = 200 | Responds status _ _ \<Rightarrow> status = 200))"

section \<open>The agent\<close>

text \<open>
  The pipelines that still run, the channel, and the sender; \<open>ag_produced\<close> is every entry that was put into the channel.
  The context of the sender is not cancelled before \<open>Run\<close> returns.
\<close>

record simple_agent =
  ag_running :: nat
  ag_queue :: "log_entry list"
  ag_produced :: "log_entry list"
  ag_sender :: sender_state

definition channel_capacity :: nat where
  "channel_capacity = 10000"

definition start_agent :: "nat \<Rightarrow> simple_agent" where
  "start_agent n = \<lparr>ag_running = n, ag_queue = [], ag_produced = [], ag_sender = \<lparr>sn_batch = [], sn_sent = [], sn_end = None\<rparr>\<rparr>"

text \<open>\<open>takes\<close> tells which batches the destination takes.\<close>

inductive simple_step :: "int \<Rightarrow> (log_entry list \<Rightarrow> bool) \<Rightarrow> simple_agent \<Rightarrow> simple_agent \<Rightarrow> bool" for bs takes where
  produce: "0 < ag_running a \<Longrightarrow> length (ag_queue a) < channel_capacity \<Longrightarrow>
     simple_step bs takes a (a\<lparr>ag_queue := ag_queue a @ [e], ag_produced := ag_produced a @ [e]\<rparr>)"
| stop_pipeline: "0 < ag_running a \<Longrightarrow> simple_step bs takes a (a\<lparr>ag_running := ag_running a - 1\<rparr>)"
| receive: "ag_queue a = e # q \<Longrightarrow> sn_end (ag_sender a) = None \<Longrightarrow> ok = takes (sn_batch (ag_sender a) @ [e]) \<Longrightarrow>
     simple_step bs takes a (a\<lparr>ag_queue := q, ag_sender := sender_turn bs ok (ReceivesEntry e) (ag_sender a)\<rparr>)"
| tick: "sn_end (ag_sender a) = None \<Longrightarrow> ok = takes (sn_batch (ag_sender a)) \<Longrightarrow>
     simple_step bs takes a (a\<lparr>ag_sender := sender_turn bs ok FlushTick (ag_sender a)\<rparr>)"
| closed: "ag_running a = 0 \<Longrightarrow> ag_queue a = [] \<Longrightarrow> sn_end (ag_sender a) = None \<Longrightarrow> ok = takes (sn_batch (ag_sender a)) \<Longrightarrow>
     simple_step bs takes a (a\<lparr>ag_sender := sender_turn bs ok ChannelClosed (ag_sender a)\<rparr>)"

inductive simple_reach :: "int \<Rightarrow> (log_entry list \<Rightarrow> bool) \<Rightarrow> nat \<Rightarrow> simple_agent \<Rightarrow> bool" for bs takes n where
  simple_start: "simple_reach bs takes n (start_agent n)"
| simple_more: "simple_reach bs takes n a \<Longrightarrow> simple_step bs takes a b \<Longrightarrow> simple_reach bs takes n b"

text \<open>
  The result of \<open>Run\<close>: whether the sender ended before the context was cancelled, and its error, of a context or not. An
  error of a context that comes after the cancellation does not count.
\<close>

datatype run_error = RunCause | SenderError

definition simple_run_result :: "bool \<Rightarrow> bool option \<Rightarrow> run_error option" where
  "simple_run_result sender_first sender_err =
     (case sender_err of
        None \<Rightarrow> if sender_first then None else Some RunCause
      | Some of_context \<Rightarrow> if sender_first \<or> \<not> of_context then Some SenderError else Some RunCause)"

section \<open>Delivery\<close>

definition batches_ok :: "int \<Rightarrow> (log_entry list \<Rightarrow> bool) \<Rightarrow> sender_state \<Rightarrow> bool" where
  "batches_ok bs takes s \<longleftrightarrow>
     (\<forall>b \<in> set (sn_sent s). b \<noteq> [] \<and> takes b \<and> int (length b) \<le> max 1 bs) \<and>
     (sn_end s = None \<longrightarrow> sn_batch s \<noteq> [] \<longrightarrow> int (length (sn_batch s)) < bs) \<and>
     (sn_end s = Some True \<longrightarrow> sn_batch s = []) \<and>
     (sn_end s = Some False \<longrightarrow> sn_batch s \<noteq> [] \<and> \<not> takes (sn_batch s))"

definition simple_ok :: "int \<Rightarrow> (log_entry list \<Rightarrow> bool) \<Rightarrow> simple_agent \<Rightarrow> bool" where
  "simple_ok bs takes a \<longleftrightarrow>
     ag_produced a = concat (sn_sent (ag_sender a)) @ sn_batch (ag_sender a) @ ag_queue a \<and>
     batches_ok bs takes (ag_sender a) \<and>
     (sn_end (ag_sender a) = Some True \<longrightarrow> ag_running a = 0 \<and> ag_queue a = [])"

lemma flush_cases:
  obtains (nothing) "sn_batch s = []" "sender_flush ok s = (True, s)"
    | (taken) "sn_batch s \<noteq> []" "ok" "sender_flush ok s = (True, s\<lparr>sn_sent := sn_sent s @ [sn_batch s], sn_batch := []\<rparr>)"
    | (refused) "sn_batch s \<noteq> []" "\<not> ok" "sender_flush ok s = (False, s)"
  by (cases "sn_batch s = []"; cases ok) (auto simp: sender_flush_def)

definition sender_holds :: "sender_state \<Rightarrow> log_entry list" where
  "sender_holds s = concat (sn_sent s) @ sn_batch s"

lemma receive_ok:
  assumes "batches_ok bs takes s" "sn_end s = None"
  shows "batches_ok bs takes (sender_turn bs (takes (sn_batch s @ [e])) (ReceivesEntry e) s) \<and>
    sender_holds (sender_turn bs (takes (sn_batch s @ [e])) (ReceivesEntry e) s) = sender_holds s @ [e] \<and>
    sn_end (sender_turn bs (takes (sn_batch s @ [e])) (ReceivesEntry e) s) \<noteq> Some True"
proof -
  define s1 where "s1 = s\<lparr>sn_batch := sn_batch s @ [e]\<rparr>"
  define s2 where "s2 = sender_turn bs (takes (sn_batch s @ [e])) (ReceivesEntry e) s"
  have s1: "sn_batch s1 = sn_batch s @ [e]" "sn_sent s1 = sn_sent s" "sn_end s1 = None" using assms(2) by (simp_all add: s1_def)
  have len: "int (length (sn_batch s1)) \<le> max 1 bs"
    using assms by (cases "sn_batch s = []") (auto simp: batches_ok_def s1)
  have "batches_ok bs takes s2 \<and> sender_holds s2 = sender_holds s @ [e] \<and> sn_end s2 \<noteq> Some True"
  proof (cases "int (length (sn_batch s1)) \<ge> bs")
    case False
    then have "s2 = s1" by (simp add: s2_def sender_turn_def s1_def)
    then show ?thesis using False assms(1) s1 by (simp add: batches_ok_def sender_holds_def)
  next
    case True
    then have turn: "s2 = (case sender_flush (takes (sn_batch s1)) s1 of (True, s') \<Rightarrow> s' | (False, s') \<Rightarrow> s'\<lparr>sn_end := Some False\<rparr>)"
      by (simp add: s2_def sender_turn_def s1_def)
    show ?thesis
    proof (cases rule: flush_cases [of s1 "takes (sn_batch s1)"])
      case nothing
      then show ?thesis using s1 by simp
    next
      case taken
      then show ?thesis using assms(1) s1 len by (auto simp: turn batches_ok_def sender_holds_def)
    next
      case refused
      then show ?thesis using assms(1) s1 by (auto simp: turn batches_ok_def sender_holds_def)
    qed
  qed
  then show ?thesis unfolding s2_def .
qed

lemma tick_ok:
  assumes "batches_ok bs takes s" "sn_end s = None"
  shows "batches_ok bs takes (sender_turn bs (takes (sn_batch s)) FlushTick s) \<and>
    sender_holds (sender_turn bs (takes (sn_batch s)) FlushTick s) = sender_holds s \<and>
    sn_end (sender_turn bs (takes (sn_batch s)) FlushTick s) \<noteq> Some True"
  by (rule flush_cases [of s "takes (sn_batch s)"])
    (use assms in \<open>auto simp: sender_turn_def batches_ok_def sender_holds_def\<close>)

lemma closed_ok:
  assumes "batches_ok bs takes s" "sn_end s = None"
  shows "batches_ok bs takes (sender_turn bs (takes (sn_batch s)) ChannelClosed s) \<and>
    sender_holds (sender_turn bs (takes (sn_batch s)) ChannelClosed s) = sender_holds s \<and>
    sn_end (sender_turn bs (takes (sn_batch s)) ChannelClosed s) =
      Some (sn_batch s = [] \<or> takes (sn_batch s))"
  by (rule flush_cases [of s "takes (sn_batch s)"])
    (use assms in \<open>auto simp: sender_turn_def batches_ok_def sender_holds_def\<close>)

lemma simple_ok_alt:
  "simple_ok bs takes a \<longleftrightarrow>
     ag_produced a = sender_holds (ag_sender a) @ ag_queue a \<and> batches_ok bs takes (ag_sender a) \<and>
     (sn_end (ag_sender a) = Some True \<longrightarrow> ag_running a = 0 \<and> ag_queue a = [])"
  by (simp add: simple_ok_def sender_holds_def)

lemma simple_step_ok [ginv]: "simple_step bs takes a b \<Longrightarrow> simple_ok bs takes a \<Longrightarrow> simple_ok bs takes b"
proof (induction rule: simple_step.induct)
  case (receive a e q ok)
  with receive_ok [of bs takes "ag_sender a" e] show ?case by (simp add: simple_ok_alt)
next
  case (tick a ok)
  with tick_ok [of bs takes "ag_sender a"] show ?case by (simp add: simple_ok_alt)
next
  case (closed a ok)
  with closed_ok [of bs takes "ag_sender a"] show ?case by (simp add: simple_ok_alt)
qed (auto simp: simple_ok_alt)

lemma simple_reach_ok: "simple_reach bs takes n a \<Longrightarrow> simple_ok bs takes a"
proof (induction rule: simple_reach.induct)
  case simple_start
  show ?case by (simp add: simple_ok_def start_agent_def batches_ok_def)
qed (rule simple_step_ok)

text \<open>The end: once the pipelines have stopped, the sender empties the channel, when the destination takes its batches.\<close>

lemma simple_drains:
  assumes "simple_ok bs (\<lambda>_. True) a" "ag_running a = 0" "sn_end (ag_sender a) = None"
  shows "\<exists>b. (simple_step bs (\<lambda>_. True) ^^ Suc (length (ag_queue a))) a b \<and> sn_end (ag_sender b) = Some True \<and>
    concat (sn_sent (ag_sender b)) = ag_produced a"
  using assms
proof (induction "ag_queue a" arbitrary: a)
  case Nil
  define s where "s = sender_turn bs True ChannelClosed (ag_sender a)"
  have "simple_step bs (\<lambda>_. True) a (a\<lparr>ag_sender := s\<rparr>)" unfolding s_def using Nil by (intro closed) simp_all
  moreover have "sn_end s = Some True" "batches_ok bs (\<lambda>_. True) s" "sender_holds s = sender_holds (ag_sender a)"
    using closed_ok [of bs "\<lambda>_. True" "ag_sender a"] Nil by (simp_all add: s_def simple_ok_alt)
  then have "sn_end s = Some True" "concat (sn_sent s) = ag_produced a"
    using Nil by (simp_all add: simple_ok_alt sender_holds_def batches_ok_def)
  moreover have one: "Suc (length (ag_queue a)) = 1" using Nil(1) [symmetric] by simp
  ultimately have "(simple_step bs (\<lambda>_. True) ^^ Suc (length (ag_queue a))) a (a\<lparr>ag_sender := s\<rparr>)"
    unfolding one relpowp_1 by blast
  moreover have "sn_end (ag_sender (a\<lparr>ag_sender := s\<rparr>)) = Some True" "concat (sn_sent (ag_sender (a\<lparr>ag_sender := s\<rparr>))) = ag_produced a"
    using \<open>sn_end s = Some True\<close> \<open>concat (sn_sent s) = ag_produced a\<close> by simp_all
  ultimately show ?case by blast
next
  case (Cons e q)
  define s where "s = sender_turn bs True (ReceivesEntry e) (ag_sender a)"
  define a' where "a' = a\<lparr>ag_queue := q, ag_sender := s\<rparr>"
  have step: "simple_step bs (\<lambda>_. True) a a'" unfolding a'_def s_def using Cons.hyps(2) [symmetric] Cons.prems by (intro receive) simp_all
  have s: "batches_ok bs (\<lambda>_. True) s" "sn_end s \<noteq> Some True"
    using receive_ok [of bs "\<lambda>_. True" "ag_sender a" e] Cons.prems by (simp_all add: s_def simple_ok_alt)
  then have "sn_end s = None" by (cases "sn_end s") (auto simp: batches_ok_def)
  then have a': "q = ag_queue a'" "ag_running a' = 0" "sn_end (ag_sender a') = None" "ag_produced a' = ag_produced a"
    using Cons.prems(2) by (simp_all add: a'_def)
  have ok': "simple_ok bs (\<lambda>_. True) a'" by (rule simple_step_ok [OF step Cons.prems(1)])
  from Cons.hyps(1) [OF a'(1) ok' a'(2,3)] obtain b where b: "(simple_step bs (\<lambda>_. True) ^^ Suc (length (ag_queue a'))) a' b"
      "sn_end (ag_sender b) = Some True" "concat (sn_sent (ag_sender b)) = ag_produced a'" by (elim exE conjE)
  have len: "Suc (length (ag_queue a)) = Suc (Suc (length (ag_queue a')))"
    using Cons.hyps(2) [symmetric] a'(1) [symmetric] by simp
  show ?case
    unfolding len using relpowp_Suc_I2 [OF step b(1)] b(2) b(3) [unfolded a'(4)] by (intro exI conjI)
qed


text \<open>One pipeline puts an entry into the channel and stops; the sender has taken nothing yet.\<close>

definition simple_demo :: simple_agent where
  "simple_demo =
     (start_agent 1)\<lparr>ag_queue := [parse_line \<lparr>rr_observed_at = 1, rr_content = ''INFO up'', rr_source_key = [], rr_file_identity = [], rr_end_offset = 0\<rparr>],
       ag_produced := [parse_line \<lparr>rr_observed_at = 1, rr_content = ''INFO up'', rr_source_key = [], rr_file_identity = [], rr_end_offset = 0\<rparr>],
       ag_running := 0\<rparr>"

lemma simple_demo_reach: "simple_reach bs takes 1 simple_demo"
proof -
  define e where "e = parse_line \<lparr>rr_observed_at = 1, rr_content = ''INFO up'', rr_source_key = [], rr_file_identity = [], rr_end_offset = 0\<rparr>"
  have "simple_step bs takes (start_agent 1) ((start_agent 1)\<lparr>ag_queue := [e], ag_produced := [e]\<rparr>)"
    using produce [of "start_agent 1" bs takes e] by (simp add: start_agent_def channel_capacity_def)
  moreover have "simple_step bs takes ((start_agent 1)\<lparr>ag_queue := [e], ag_produced := [e]\<rparr>) simple_demo"
    using stop_pipeline [of "(start_agent 1)\<lparr>ag_queue := [e], ag_produced := [e]\<rparr>" bs takes]
    by (simp add: start_agent_def simple_demo_def e_def)
  ultimately show ?thesis using simple_start simple_more by blast
qed


end
