(* ===== verification/Simple_Upload.thy ===== *)
theory Simple_Upload
  imports Upload_Properties Agent_Simple
begin

text \<open>
  The agent without a spool against the server: what \<open>destination/gline.go\<close> sends is not a batch of the protocol, so
  the route of batches refuses it, whoever asks, and the sender of the agent ends with its first flush.
\<close>

definition plain_entry :: "log_entry \<Rightarrow> bool" where
  "plain_entry e \<longleftrightarrow> (\<exists>raw service host. simple_pipeline_turn (\<lambda>r. Some (parse_line r)) service host (GotRecord raw) = Passes e)"

lemma parse_line_data: "le_data (parse_line raw) = []"
  by (simp add: parse_line_def Let_def split: option.split)

lemma plain_entry_data: "plain_entry e \<Longrightarrow> le_data e = []"
  by (auto simp: plain_entry_def simple_pipeline_turn_def parse_line_data)

lemma simple_entries_render:
  assumes "\<forall>e \<in> set es. le_data e = []" "simple_entries_json es = Some ts"
  shows "\<exists>vs. list_all2 renders ts vs \<and> (\<forall>v \<in> set vs. \<exists>t x ms. v = JObj ((quote_body ''timestamp'', t, x) # ms)) \<and> (es \<noteq> [] \<longrightarrow> vs \<noteq> [])"
  using assms
proof (induction es arbitrary: ts)
  case (Cons e es)
  obtain us where us: "time_text_ok (le_timestamp e)" "simple_entries_json es = Some us"
      "ts = jobj [(''timestamp'', quote (time_format (le_timestamp e))), (''level'', quote (le_level e)), (''host'', quote (le_host e)),
            (''message'', quote (le_message e)), (''service'', quote (le_service e))] # us"
    using Cons.prems by (auto simp: time_json_def split: Option.bind_splits if_splits)
  obtain vs where vs: "list_all2 renders us vs" "\<forall>v \<in> set vs. \<exists>t x ms. v = JObj ((quote_body ''timestamp'', t, x) # ms)"
    using Cons.IH [OF _ us(2)] Cons.prems(1) by auto
  define fs where "fs = [(''timestamp'', quote (time_format (le_timestamp e))), (''level'', quote (le_level e)), (''host'', quote (le_host e)),
            (''message'', quote (le_message e)), (''service'', quote (le_service e))]"
  define ws where "ws = map JStr [quote_body (time_format (le_timestamp e)), quote_body (le_level e), quote_body (le_host e),
            quote_body (le_message e), quote_body (le_service e)]"
  have "renders (jobj fs) (JObj (map2 (\<lambda>f v. (quote_body (fst f), snd f, v)) fs ws))"
    by (rule json_parse_jobj(2)) (simp add: fs_def ws_def)
  then show ?case
    using vs us(3) by (intro exI [of _ "JObj (map2 (\<lambda>f v. (quote_body (fst f), snd f, v)) fs ws) # vs"]) (auto simp: fs_def ws_def)
qed simp

lemma simple_names:
  "valid_utf8 ''entries''" "valid_utf8 ''timestamp''" "field_name batch_request_fields ''entries'' = Some ''entries''"
  "field_name wire_entry_fields ''timestamp'' = None"
  by code_simp+

lemma simple_body_refused:
  assumes "es \<noteq> []" "\<forall>e \<in> set es. le_data e = []" "simple_body es = Some body"
  shows "\<exists>e n. decode (Some (body, False)) max_bytes = (Inl e, n)"
proof -
  obtain ts where ts: "simple_entries_json es = Some ts" "body = jobj [(''entries'', jarr ts)]"
    using assms(3) by (auto simp: simple_body_def)
  obtain vs where vs: "list_all2 renders ts vs" "\<forall>v \<in> set vs. \<exists>t x ms. v = JObj ((quote_body ''timestamp'', t, x) # ms)" "vs \<noteq> []"
    using simple_entries_render [OF assms(2) ts(1)] assms(1) by blast
  have p: "json_parse body = Some (JObj [(quote_body ''entries'', jarr ts, JArr vs)])"
    unfolding ts(2) using renders_arr [OF vs(1)] json_parse_jobj(1) [of "[(''entries'', jarr ts)]" "[JArr vs]"] by simp
  obtain t x ms vs' where v: "vs = JObj ((quote_body ''timestamp'', t, x) # ms) # vs'" using vs(2,3) by (cases vs) auto
  have "dec_wire_entry (JObj ((quote_body ''timestamp'', t, x) # ms)) zero_wire_entry = None"
    by (simp add: dec_wire_entry_def dec_struct_def simple_names)
  then have "dec_entries (JArr vs) [] = None" by (simp add: dec_entries_def v)
  then have "dec_batch_request (JObj [(quote_body ''entries'', jarr ts, JArr vs)]) zero_batch_request = None"
    by (simp add: dec_batch_request_def dec_struct_def simple_names set_batch_request_field_def zero_batch_request_def)
  with p decode_iff [of body max_bytes] have "\<nexists>r n. decode (Some (body, False)) max_bytes = (Inr r, n)" by auto
  then show ?thesis by (metis old.sum.exhaust prod.collapse)
qed

text \<open>
  C29. A server of Gline refuses what an agent without a spool sends: whatever the credential, the entries and the state of
  the server are, the answer is an error, nothing is stored, and the first flush ends the sender, so that the agent stops.
\<close>

theorem simple_gline_refused:
  assumes "es \<noteq> []" "\<forall>e \<in> set es. plain_entry e" "simple_body es = Some body"
    and "hq_body rq = (body, False)" "\<not> hq_options rq" and served: "http_serve env ApiIngest c rq sv = (resp, sv')"
  shows "400 \<le> rs_status resp \<and> sv_db sv' = sv_db sv \<and> \<not> gline_send (\<lambda>_. Responds (rs_status resp) retry (rs_body resp)) es \<and>
    (\<forall>s bs. sn_batch s = es \<longrightarrow>
       sn_end (sender_turn bs (gline_send (\<lambda>_. Responds (rs_status resp) retry (rs_body resp)) es) FlushTick s) = Some False)"
proof -
  obtain e n where d: "decode (Some (body, False)) (l_max_body_bytes (oe_limits (se_ops env))) = (Inl e, n)"
    using simple_body_refused [OF assms(1) _ assms(3)] plain_entry_data assms(2) by blast
  have post: "\<exists>e. post_batch env c rq cl s = (Inl e, s)" for cl s
    using d assms(4) by (simp add: post_batch_def fail_def)
  have "400 \<le> rs_status resp \<and> sv_db sv' = sv_db sv"
    using served assms(5)
  proof (cases rule: serve_route)
    case (error e)
    have "400 \<le> rs_status resp" using map_error_status ingest_outcome [OF assms(4) error(1)] error(2) by simp
    moreover have "sv_db sv' = sv_db sv"
    proof (cases "authenticate_request env c rq sv")
      case (Pair x s)
      then have "sv_db s = sv_db sv" by (rule authenticate_request_db)
      moreover have "sv' = s"
      proof (cases x)
        case (Inl e')
        with error(1) Pair show ?thesis by (simp add: route_action_def andthen_def)
      next
        case (Inr cl)
        obtain e' where "post_batch env c rq cl s = (Inl e', s)" using post by blast
        with error(1) Pair Inr show ?thesis by (simp add: route_action_def andthen_def api_handler_def)
      qed
      ultimately show ?thesis by simp
    qed
    ultimately show ?thesis by blast
  next
    case (reply reply)
    then obtain cl s where "post_batch env c rq cl s = (Inr reply, sv')" using ingest_outcome [OF assms(4) reply(1)] by auto
    with post [of cl s] show ?thesis by auto
  qed
  moreover from this have "\<not> gline_send (\<lambda>_. Responds (rs_status resp) retry (rs_body resp)) es"
    using assms(3) by (simp add: gline_send_def)
  ultimately show ?thesis using assms(1) by (auto simp: sender_turn_def sender_flush_def)
qed

definition simple_line :: log_entry where
  "simple_line = parse_line \<lparr>rr_observed_at = 63900000000000000000, rr_content = ''INFO up'', rr_source_key = [], rr_file_identity = [], rr_end_offset = 0\<rparr>"

lemma simple_gline_refused_witness:
  "\<forall>a. \<exists>body. simple_body [simple_line] = Some body \<and>
     400 \<le> rs_status (fst (http_serve sample_env ApiIngest sample_http_call (sample_http_request\<lparr>hq_body := (body, False)\<rparr>) (sample_server a)))"
proof
  fix a
  have "simple_pipeline_turn (\<lambda>r. Some (parse_line r)) [] [] (GotRecord \<lparr>rr_observed_at = 63900000000000000000, rr_content = ''INFO up'',
      rr_source_key = [], rr_file_identity = [], rr_end_offset = 0\<rparr>) = Passes simple_line"
    by code_simp
  then have p: "\<forall>e \<in> set [simple_line]. plain_entry e" by (auto simp: plain_entry_def)
  have "simple_body [simple_line] \<noteq> None" by code_simp
  then obtain body where b: "simple_body [simple_line] = Some body" by blast
  define rq where "rq = sample_http_request\<lparr>hq_body := (body, False)\<rparr>"
  obtain resp sv' where s: "http_serve sample_env ApiIngest sample_http_call rq (sample_server a) = (resp, sv')" by fastforce
  have "hq_body rq = (body, False)" "\<not> hq_options rq" by (simp_all add: rq_def sample_http_request_def)
  from simple_gline_refused [OF _ p b this s] b s
  show "\<exists>body. simple_body [simple_line] = Some body \<and>
     400 \<le> rs_status (fst (http_serve sample_env ApiIngest sample_http_call (sample_http_request\<lparr>hq_body := (body, False)\<rparr>) (sample_server a)))"
    by (auto simp: rq_def)
qed

end
