(* ===== verification/Server_Config.thy ===== *)
theory Server_Config
  imports Go_Time Ingest_Protocol
begin

text \<open>
  The configuration of the server (\<open>internal/server/config/config.go\<close>): environment variables with defaults, and their
  bounds; with \<open>time.ParseDuration\<close>. The product of the fraction of a number with its unit is computed in floating
  point, so it is an argument here.
\<close>

section \<open>Durations\<close>

fun leading_int :: "int \<Rightarrow> string \<Rightarrow> (int \<times> string) option" where
  "leading_int x [] = Some (x, [])"
| "leading_int x (c # s) =
     (if \<not> is_digit c then Some (x, c # s)
      else if x > 2 ^ 63 div 10 then None
      else (let y = x * 10 + int (digit_val c) in if y > 2 ^ 63 then None else leading_int y s))"

text \<open>The digits after the point: their number, its power of ten, and the rest; digits beyond 63 bits are dropped.\<close>

fun leading_fraction :: "bool \<Rightarrow> int \<Rightarrow> int \<Rightarrow> string \<Rightarrow> int \<times> int \<times> string" where
  "leading_fraction overflow x scale [] = (x, scale, [])"
| "leading_fraction overflow x scale (c # s) =
     (if \<not> is_digit c then (x, scale, c # s)
      else if overflow \<or> x > (2 ^ 63 - 1) div 10 then leading_fraction True x scale s
      else (let y = x * 10 + int (digit_val c)
            in if y > 2 ^ 63 then leading_fraction True x scale s else leading_fraction False y (scale * 10) s))"

definition duration_unit :: "string \<Rightarrow> int option" where
  "duration_unit =
     map_of [(''ns'', 1), (''us'', 1000), ([CHR 0xC2, CHR 0xB5, CHR ''s''], 1000), ([CHR 0xCE, CHR 0xBC, CHR ''s''], 1000),
             (''ms'', 1000000), (''s'', second), (''m'', 60 * second), (''h'', 3600 * second)]"

text \<open>One number with its unit, in front of the rest: its nanoseconds.\<close>

definition duration_term :: "(int \<Rightarrow> int \<Rightarrow> int \<Rightarrow> int) \<Rightarrow> string \<Rightarrow> (int \<times> string) option" where
  "duration_term fp s =
     (if s = [] \<or> \<not> (hd s = CHR ''.'' \<or> is_digit (hd s)) then None
      else
        (case leading_int 0 s of
           None \<Rightarrow> None
         | Some (v, s1) \<Rightarrow>
             (let point = s1 \<noteq> [] \<and> hd s1 = CHR ''.'';
                  (f, scale, s2) = (if point then leading_fraction False 0 1 (tl s1) else (0, 1, s1));
                  pre = length s1 \<noteq> length s; post = point \<and> length s2 \<noteq> length (tl s1);
                  u = takeWhile (\<lambda>c. c \<noteq> CHR ''.'' \<and> \<not> is_digit c) s2
              in if \<not> pre \<and> \<not> post then None
                 else (case duration_unit u of
                         None \<Rightarrow> None
                       | Some unit \<Rightarrow>
                           if v > 2 ^ 63 div unit then None
                           else (let w = (if f > 0 then (v * unit + fp f unit scale) mod 2 ^ 64 else v * unit)
                                 in if f > 0 \<and> w > 2 ^ 63 then None else Some (w, drop (length u) s2))))))"

lemma leading_int_length: "leading_int x s = Some (v, r) \<Longrightarrow> length r \<le> length s"
  by (induction x s rule: leading_int.induct) (auto simp: Let_def split: if_splits)

lemma leading_fraction_length: "leading_fraction b x scale s = (v, w, r) \<Longrightarrow> length r \<le> length s"
  by (induction b x scale s rule: leading_fraction.induct) (auto simp: Let_def split: if_splits)

lemma duration_term_shorter: "duration_term fp s = Some (v, r) \<Longrightarrow> length r < length s"
proof -
  assume a: "duration_term fp s = Some (v, r)"
  then obtain n s1 where n: "leading_int 0 s = Some (n, s1)" "s \<noteq> []" by (auto simp: duration_term_def split: if_splits option.splits)
  define point where "point = (s1 \<noteq> [] \<and> hd s1 = CHR ''.'')"
  obtain f scale s2 where f: "(if point then leading_fraction False 0 1 (tl s1) else (0, 1, s1)) = (f, scale, s2)" by (metis prod_cases3)
  define u where "u = takeWhile (\<lambda>c. c \<noteq> CHR ''.'' \<and> \<not> is_digit c) s2"
  have u: "u \<noteq> []" "r = drop (length u) s2"
    using a n f by (auto simp: duration_term_def point_def [symmetric] u_def [symmetric] duration_unit_def Let_def split: if_splits option.splits)
  have "length s2 \<le> length s1" using f leading_fraction_length by (fastforce split: if_splits)
  moreover have "u \<noteq> [] \<Longrightarrow> length u \<le> length s2" by (simp add: u_def length_takeWhile_le)
  ultimately show ?thesis using u leading_int_length [OF n(1)] by (cases u) auto
qed

function parse_terms :: "(int \<Rightarrow> int \<Rightarrow> int \<Rightarrow> int) \<Rightarrow> int \<Rightarrow> string \<Rightarrow> int option" where
  "parse_terms fp d s =
     (if s = [] then Some d
      else (case duration_term fp s of
              None \<Rightarrow> None
            | Some (v, rest) \<Rightarrow>
                (let d' = (d + v) mod 2 ^ 64 in if d' > 2 ^ 63 then None else parse_terms fp d' rest)))"
  by pat_completeness auto
termination
  by (relation "measure (\<lambda>(fp, d, s). length s)") (auto dest: duration_term_shorter)

declare parse_terms.simps [simp del]

definition parse_duration :: "(int \<Rightarrow> int \<Rightarrow> int \<Rightarrow> int) \<Rightarrow> string \<Rightarrow> duration option" where
  "parse_duration fp text =
     (let signed = text \<noteq> [] \<and> (hd text = CHR ''-'' \<or> hd text = CHR ''+''); s = (if signed then tl text else text)
      in if s = ''0'' then Some 0
         else if s = [] then None
         else (case parse_terms fp 0 s of
                 None \<Rightarrow> None
               | Some d \<Rightarrow>
                   if signed \<and> hd text = CHR ''-'' then Some (- d)
                   else if d > 2 ^ 63 - 1 then None else Some d))"

section \<open>The environment\<close>

record server_config =
  sf_http_addr :: string
  sf_database_url :: string
  sf_bootstrap_token :: string
  sf_api_key_pepper :: string
  sf_allowed_origins :: "string list"
  sf_shutdown_timeout :: duration
  sf_database_timeout :: duration
  sf_max_request_bytes :: int
  sf_requests_per_minute :: int
  sf_entries_per_minute :: int
  sf_bytes_per_minute :: int
  sf_max_inflight :: int
  sf_query_max_range :: duration
  sf_query_timeout :: duration
  sf_query_max_page_size :: int
  sf_query_concurrency :: int
  sf_maintenance_every :: duration
  sf_agent_stale_after :: duration
  sf_retention_batch :: int

text \<open>An unset variable is empty.\<close>

type_synonym env_vars = "string \<Rightarrow> string"

definition env_or :: "env_vars \<Rightarrow> string \<Rightarrow> string \<Rightarrow> string" where
  "env_or vars name fallback = (let v = trim_space (vars name) in if v \<noteq> [] then v else fallback)"

text \<open>\<open>strings.Split\<close> at commas.\<close>

fun split_commas :: "string \<Rightarrow> string list" where
  "split_commas [] = [[]]"
| "split_commas (c # s) =
     (if c = CHR '','' then [] # split_commas s
      else (case split_commas s of [] \<Rightarrow> [[c]] | p # ps \<Rightarrow> (c # p) # ps))"

definition split_csv :: "string \<Rightarrow> string list" where
  "split_csv value =
     (if trim_space value = [] then [] else filter (\<lambda>item. item \<noteq> []) (map trim_space (split_commas value)))"

definition duration_env :: "(int \<Rightarrow> int \<Rightarrow> int \<Rightarrow> int) \<Rightarrow> env_vars \<Rightarrow> string \<Rightarrow> duration \<Rightarrow> string + duration" where
  "duration_env fp vars name fallback =
     (let value = trim_space (vars name)
      in if value = [] then Inr fallback
         else (case parse_duration fp value of
                 None \<Rightarrow> Inl (name @ '' must be a positive duration'')
               | Some d \<Rightarrow> if d \<le> 0 then Inl (name @ '' must be a positive duration'') else Inr d))"

definition int64_env :: "env_vars \<Rightarrow> string \<Rightarrow> int \<Rightarrow> string + int" where
  "int64_env vars name fallback =
     (let value = trim_space (vars name)
      in if value = [] then Inr fallback
         else (case parse_int64 value of
                 None \<Rightarrow> Inl (name @ '' must be a positive integer'')
               | Some n \<Rightarrow> if n \<le> 0 then Inl (name @ '' must be a positive integer'') else Inr n))"

text \<open>A setting is read, or the configuration fails with its error.\<close>

definition setting :: "('a \<Rightarrow> server_config \<Rightarrow> server_config) \<Rightarrow> ('a \<Rightarrow> string + 'a) \<Rightarrow> (server_config \<Rightarrow> 'a) \<Rightarrow> string + server_config \<Rightarrow> string + server_config" where
  "setting put read get r =
     (case r of
        Inl e \<Rightarrow> Inl e
      | Inr c \<Rightarrow> (case read (get c) of Inl e \<Rightarrow> Inl e | Inr v \<Rightarrow> Inr (put v c)))"

definition base_config :: "env_vars \<Rightarrow> server_config" where
  "base_config vars =
     \<lparr>sf_http_addr = env_or vars ''GLINE_HTTP_ADDR'' '':8080'',
      sf_database_url = trim_space (vars ''GLINE_DATABASE_URL''),
      sf_bootstrap_token = trim_space (vars ''GLINE_BOOTSTRAP_TOKEN''),
      sf_api_key_pepper = trim_space (vars ''GLINE_API_KEY_PEPPER''),
      sf_allowed_origins = split_csv (vars ''GLINE_ALLOWED_ORIGINS''),
      sf_shutdown_timeout = 15 * second, sf_database_timeout = 10 * second, sf_max_request_bytes = 8 * 2 ^ 20,
      sf_requests_per_minute = 600, sf_entries_per_minute = 120000, sf_bytes_per_minute = 256 * 2 ^ 20, sf_max_inflight = 16,
      sf_query_max_range = 7 * 24 * 3600 * second, sf_query_timeout = 10 * second, sf_query_max_page_size = 500,
      sf_query_concurrency = 8, sf_maintenance_every = 60 * second, sf_agent_stale_after = 120 * second,
      sf_retention_batch = 1000\<rparr>"

definition read_settings :: "(int \<Rightarrow> int \<Rightarrow> int \<Rightarrow> int) \<Rightarrow> env_vars \<Rightarrow> string + server_config" where
  "read_settings fp vars =
     setting (\<lambda>v. sf_retention_batch_update (\<lambda>_. v)) (int64_env vars ''GLINE_RETENTION_BATCH_SIZE'') sf_retention_batch
     (setting (\<lambda>v. sf_agent_stale_after_update (\<lambda>_. v)) (duration_env fp vars ''GLINE_AGENT_STALE_AFTER'') sf_agent_stale_after
     (setting (\<lambda>v. sf_maintenance_every_update (\<lambda>_. v)) (duration_env fp vars ''GLINE_MAINTENANCE_INTERVAL'') sf_maintenance_every
     (setting (\<lambda>v. sf_query_concurrency_update (\<lambda>_. v)) (int64_env vars ''GLINE_QUERY_CONCURRENCY'') sf_query_concurrency
     (setting (\<lambda>v. sf_query_max_page_size_update (\<lambda>_. v)) (int64_env vars ''GLINE_QUERY_MAX_PAGE_SIZE'') sf_query_max_page_size
     (setting (\<lambda>v. sf_max_inflight_update (\<lambda>_. v)) (int64_env vars ''GLINE_INGEST_MAX_INFLIGHT'') sf_max_inflight
     (setting (\<lambda>v. sf_bytes_per_minute_update (\<lambda>_. v)) (int64_env vars ''GLINE_INGEST_BYTES_PER_MINUTE'') sf_bytes_per_minute
     (setting (\<lambda>v. sf_entries_per_minute_update (\<lambda>_. v)) (int64_env vars ''GLINE_INGEST_ENTRIES_PER_MINUTE'') sf_entries_per_minute
     (setting (\<lambda>v. sf_requests_per_minute_update (\<lambda>_. v)) (int64_env vars ''GLINE_INGEST_REQUESTS_PER_MINUTE'') sf_requests_per_minute
     (setting (\<lambda>v. sf_max_request_bytes_update (\<lambda>_. v)) (int64_env vars ''GLINE_MAX_REQUEST_BYTES'') sf_max_request_bytes
     (setting (\<lambda>v. sf_query_timeout_update (\<lambda>_. v)) (duration_env fp vars ''GLINE_QUERY_TIMEOUT'') sf_query_timeout
     (setting (\<lambda>v. sf_query_max_range_update (\<lambda>_. v)) (duration_env fp vars ''GLINE_QUERY_MAX_RANGE'') sf_query_max_range
     (setting (\<lambda>v. sf_database_timeout_update (\<lambda>_. v)) (duration_env fp vars ''GLINE_DATABASE_TIMEOUT'') sf_database_timeout
     (setting (\<lambda>v. sf_shutdown_timeout_update (\<lambda>_. v)) (duration_env fp vars ''GLINE_SHUTDOWN_TIMEOUT'') sf_shutdown_timeout
     (Inr (base_config vars)))))))))))))))"

definition effective_ingest_body :: "server_config \<Rightarrow> int" where
  "effective_ingest_body c =
     (if sf_max_request_bytes c > l_max_body_bytes default_limits then l_max_body_bytes default_limits else sf_max_request_bytes c)"

definition operational_bounds :: "server_config \<Rightarrow> bool" where
  "operational_bounds c \<longleftrightarrow>
     \<not> (sf_max_request_bytes c \<le> 0 \<or> sf_requests_per_minute c \<le> 0 \<or> sf_requests_per_minute c > 1000000 \<or>
        sf_entries_per_minute c \<le> 0 \<or> sf_entries_per_minute c > 1000000000 \<or>
        sf_bytes_per_minute c \<le> 0 \<or> sf_bytes_per_minute c > 2 ^ 50 \<or> sf_max_inflight c \<le> 0 \<or> sf_max_inflight c > 10000 \<or>
        sf_query_max_page_size c \<le> 0 \<or> sf_query_max_page_size c > 1000 \<or>
        sf_query_concurrency c \<le> 0 \<or> sf_query_concurrency c > 1024 \<or>
        sf_retention_batch c \<le> 0 \<or> sf_retention_batch c > 10000 \<or> sf_agent_stale_after c \<le> sf_maintenance_every c)"

definition from_env :: "(int \<Rightarrow> int \<Rightarrow> int \<Rightarrow> int) \<Rightarrow> env_vars \<Rightarrow> string + server_config" where
  "from_env fp vars =
     (case read_settings fp vars of
        Inl e \<Rightarrow> Inl e
      | Inr c \<Rightarrow>
          if sf_database_url c = [] then Inl ''GLINE_DATABASE_URL is required''
          else if length (sf_bootstrap_token c) < 24 then Inl ''GLINE_BOOTSTRAP_TOKEN must contain at least 24 characters''
          else if length (sf_api_key_pepper c) < 24 then Inl ''GLINE_API_KEY_PEPPER must contain at least 24 characters''
          else if \<not> operational_bounds c then Inl ''operational limits must be positive and bounded''
          else if sf_entries_per_minute c < l_max_entries default_limits \<or> sf_bytes_per_minute c < effective_ingest_body c
            then Inl ''ingest minute capacity must fit one maximum protocol batch''
          else Inr c)"

section \<open>Facts\<close>

lemma duration_env_positive: "duration_env fp vars name v = Inr w \<Longrightarrow> 0 < v \<Longrightarrow> 0 < w"
  by (auto simp: duration_env_def Let_def split: if_splits option.splits)

text \<open>What every setting keeps of the configuration so far.\<close>

definition durations_positive :: "server_config \<Rightarrow> bool" where
  "durations_positive c \<longleftrightarrow>
     0 < sf_shutdown_timeout c \<and> 0 < sf_database_timeout c \<and> 0 < sf_query_max_range c \<and> 0 < sf_query_timeout c \<and>
     0 < sf_maintenance_every c \<and> 0 < sf_agent_stale_after c"

definition keeps_settings :: "env_vars \<Rightarrow> string + server_config \<Rightarrow> bool" where
  "keeps_settings vars r \<longleftrightarrow>
     (case r of
        Inl e \<Rightarrow> True
      | Inr c \<Rightarrow> durations_positive c \<and> sf_allowed_origins c = split_csv (vars ''GLINE_ALLOWED_ORIGINS''))"

lemma setting_keeps:
  assumes "keeps_settings vars r"
    and "\<And>c v. durations_positive c \<Longrightarrow> read (get c) = Inr v \<Longrightarrow> durations_positive (put v c) \<and> sf_allowed_origins (put v c) = sf_allowed_origins c"
  shows "keeps_settings vars (setting put read get r)"
  using assms by (auto simp: keeps_settings_def setting_def split: sum.splits)

lemma read_settings_keeps: "keeps_settings vars (read_settings fp vars)"
  unfolding read_settings_def
  by (intro setting_keeps; (simp add: durations_positive_def duration_env_positive)?)
    (simp add: keeps_settings_def durations_positive_def base_config_def second_def)

lemma from_env_facts:
  assumes "from_env fp vars = Inr c"
  shows "durations_positive c" "operational_bounds c" "24 \<le> length (sf_bootstrap_token c)" "24 \<le> length (sf_api_key_pepper c)"
    "l_max_entries default_limits \<le> sf_entries_per_minute c" "effective_ingest_body c \<le> sf_bytes_per_minute c"
    "sf_allowed_origins c = split_csv (vars ''GLINE_ALLOWED_ORIGINS'')"
  using assms read_settings_keeps [of vars fp]
  by (auto simp: from_env_def keeps_settings_def split: sum.splits if_splits)

end
