(* ===== verification/Store_Migrate.thy ===== *)
theory Store_Migrate
  imports Store_Base
begin

text \<open>
  The schema migrations (\<open>internal/storage/postgres/migrate.go\<close>): the immutable files are read and checked, and each is
  applied once, in a transaction with its entry in the ledger. What a script does to the schema is an argument. The
  advisory lock makes a run one step for the other migrators; a process that is killed is a run that fails there.
\<close>

section \<open>The files\<close>

record migration =
  mg_name :: string
  mg_sql :: bytes
  mg_checksum :: bytes

text \<open>An entry of the directory; a file that cannot be read has no body.\<close>

record dir_entry =
  de_name :: string
  de_is_dir :: bool
  de_body :: "bytes option"

definition is_migration :: "dir_entry \<Rightarrow> bool" where
  "is_migration f \<longleftrightarrow> \<not> de_is_dir f \<and> suffix ''.up.sql'' (de_name f)"

fun read_migrations :: "dir_entry list \<Rightarrow> server_error + migration list" where
  "read_migrations [] = Inr []"
| "read_migrations (f # fs) =
     (if \<not> is_migration f then read_migrations fs
      else (case de_body f of
              None \<Rightarrow> Inl (Internal (''read migration '' @ de_name f))
            | Some body \<Rightarrow>
                if trim_space body = [] then Inl (Internal (''migration '' @ de_name f @ '' is empty''))
                else (case read_migrations fs of
                        Inl e \<Rightarrow> Inl e
                      | Inr ms \<Rightarrow> Inr (\<lparr>mg_name = de_name f, mg_sql = body, mg_checksum = sha256 body\<rparr> # ms))))"

fun check_names :: "migration list \<Rightarrow> server_error option" where
  "check_names (a # b # ms) =
     (if mg_name a = mg_name b then Some (Internal (''duplicate migration '' @ mg_name b))
      else if take 4 (mg_name a) = take 4 (mg_name b)
        then Some (Internal (''duplicate migration version '' @ take 4 (mg_name b)))
      else check_names (b # ms))"
| "check_names ms = None"

definition load_migrations :: "dir_entry list option \<Rightarrow> server_error + migration list" where
  "load_migrations source =
     (case source of
        None \<Rightarrow> Inl (Internal ''read migrations'')
      | Some fs \<Rightarrow>
          (case read_migrations fs of
             Inl e \<Rightarrow> Inl e
           | Inr found \<Rightarrow>
               let ms = sort_key mg_name found
               in (case check_names ms of
                     Some e \<Rightarrow> Inl e
                   | None \<Rightarrow> if ms = [] then Inl (Internal ''no .up.sql migrations found'') else Inr ms)))"

section \<open>The runner\<close>

text \<open>The schema, the ledger (\<open>None\<close> before its table is there) and the outcomes of the next interactions.\<close>

record 's mig_db =
  md_schema :: 's
  md_ledger :: "(string \<times> bytes) list option"
  md_outcomes :: "outcome list"

definition mig_stmt :: "('s mig_db, 'a) act \<Rightarrow> ('s mig_db, 'a) act" where
  "mig_stmt f d =
     (case md_outcomes d of
        [] \<Rightarrow> f d
      | Done # os \<Rightarrow> f (d\<lparr>md_outcomes := os\<rparr>)
      | Failed e # os \<Rightarrow> (Inl (Driver e), d\<lparr>md_outcomes := os\<rparr>)
      | Lost e # os \<Rightarrow> (Inl (Driver e), d\<lparr>md_outcomes := os\<rparr>))"

definition ledger :: "'s mig_db \<Rightarrow> (string \<times> bytes) list" where
  "ledger d = (case md_ledger d of None \<Rightarrow> [] | Some l \<Rightarrow> l)"

definition ensure_ledger :: "('s mig_db, unit) act" where
  "ensure_ledger = mig_stmt (\<lambda>d. ret () (d\<lparr>md_ledger := Some (ledger d)\<rparr>))"

definition read_checksum :: "string \<Rightarrow> ('s mig_db, bytes option) act" where
  "read_checksum name = mig_stmt (\<lambda>d. ret (map_of (ledger d) name) d)"

definition run_script :: "(bytes \<Rightarrow> 's \<Rightarrow> 's option) \<Rightarrow> bytes \<Rightarrow> ('s mig_db, unit) act" where
  "run_script run text =
     mig_stmt (\<lambda>d. case run text (md_schema d) of
       None \<Rightarrow> fail (Internal ''script'') d | Some s \<Rightarrow> ret () (d\<lparr>md_schema := s\<rparr>))"

text \<open>\<open>name\<close> is the primary key; the column \<open>checksum\<close> has a check of its length.\<close>

definition add_ledger :: "migration \<Rightarrow> ('s mig_db, unit) act" where
  "add_ledger m =
     mig_stmt (\<lambda>d.
       if mg_name m \<in> fst ` set (ledger d) \<or> length (mg_checksum m) \<noteq> 32 then fail (Internal ''ledger'') d
       else ret () (d\<lparr>md_ledger := Some (ledger d @ [(mg_name m, mg_checksum m)])\<rparr>))"

text \<open>\<open>Rollback\<close> and \<open>Commit\<close>; the answer to a commit may be lost.\<close>

definition back_to :: "'s mig_db \<Rightarrow> 's mig_db \<Rightarrow> 's mig_db" where
  "back_to d d' = d'\<lparr>md_schema := md_schema d, md_ledger := md_ledger d\<rparr>"

definition end_tx :: "'s mig_db \<Rightarrow> ('s mig_db, unit) act" where
  "end_tx d0 d =
     (case md_outcomes d of
        [] \<Rightarrow> ret () d
      | Done # os \<Rightarrow> ret () (d\<lparr>md_outcomes := os\<rparr>)
      | Failed e # os \<Rightarrow> fail (Driver e) (back_to d0 (d\<lparr>md_outcomes := os\<rparr>))
      | Lost e # os \<Rightarrow> fail (Driver e) (d\<lparr>md_outcomes := os\<rparr>))"

definition apply_migration :: "(bytes \<Rightarrow> 's \<Rightarrow> 's option) \<Rightarrow> migration \<Rightarrow> ('s mig_db, unit) act" where
  "apply_migration run m =
     andthen (mig_stmt (ret ())) (\<lambda>_ d0.
       (case andthen (run_script run (mg_sql m)) (\<lambda>_. add_ledger m) d0 of
          (Inl e, d) \<Rightarrow> fail e (back_to d0 d)
        | (Inr _, d) \<Rightarrow> end_tx d0 d))"

definition migration_drift :: "string \<Rightarrow> server_error" where
  "migration_drift name = Internal (''postgres: applied migration checksum changed: '' @ name)"

fun apply_all :: "(bytes \<Rightarrow> 's \<Rightarrow> 's option) \<Rightarrow> migration list \<Rightarrow> ('s mig_db, unit) act" where
  "apply_all run [] = ret ()"
| "apply_all run (m # ms) =
     andthen (read_checksum (mg_name m)) (\<lambda>applied.
       case applied of
         Some was \<Rightarrow> if was \<noteq> mg_checksum m then fail (migration_drift (mg_name m)) else apply_all run ms
       | None \<Rightarrow> andthen (apply_migration run m) (\<lambda>_. apply_all run ms))"

text \<open>The connection, the lock, the ledger, the migrations; the result of the unlock does not count.\<close>

definition migrate :: "(bytes \<Rightarrow> 's \<Rightarrow> 's option) \<Rightarrow> bool \<Rightarrow> dir_entry list option \<Rightarrow> ('s mig_db, unit) act" where
  "migrate run has_deps source =
     (if \<not> has_deps then fail (Internal ''postgres: nil migration dependency'')
      else
        andthen (lift (load_migrations source)) (\<lambda>ms.
        andthen (mig_stmt (ret ())) (\<lambda>_.
        andthen (mig_stmt (ret ())) (\<lambda>_ d.
          (case andthen ensure_ledger (\<lambda>_. apply_all run ms) d of
             (r, d') \<Rightarrow> (r, snd (mig_stmt (ret ()) d')))))))"

section \<open>Facts about the files\<close>

lemma check_names_distinct:
  "check_names ms = None \<Longrightarrow> sorted (map mg_name ms) \<Longrightarrow> distinct (map mg_name ms)"
proof (induction ms rule: check_names.induct)
  case (1 a b ms)
  then have ne: "mg_name a \<noteq> mg_name b" "check_names (b # ms) = None" by (auto split: if_splits)
  have "mg_name a < mg_name c" if "c \<in> set (b # ms)" for c
    using 1(3) ne(1) that by (fastforce intro: le_less_trans)
  then show ?case using 1 ne by fastforce
qed simp_all

lemma read_migrations_sum: "read_migrations fs = Inr ms \<Longrightarrow> m \<in> set ms \<Longrightarrow> mg_checksum m = sha256 (mg_sql m)"
  by (induction fs arbitrary: ms) (auto split: if_splits option.splits sum.splits)

definition fit :: "migration list \<Rightarrow> bool" where
  "fit ms \<longleftrightarrow> distinct (map mg_name ms) \<and> (\<forall>m \<in> set ms. length (mg_checksum m) = 32)"

lemma load_fit: "load_migrations source = Inr ms \<Longrightarrow> fit ms"
  using check_names_distinct [of ms] read_migrations_sum
  by (fastforce simp: fit_def load_migrations_def Let_def split: option.splits sum.splits if_splits)

section \<open>How far the schema is\<close>

fun scripts :: "(bytes \<Rightarrow> 's \<Rightarrow> 's option) \<Rightarrow> migration list \<Rightarrow> 's \<Rightarrow> 's option" where
  "scripts run [] s = Some s"
| "scripts run (m # ms) s = (case run (mg_sql m) s of None \<Rightarrow> None | Some s' \<Rightarrow> scripts run ms s')"

definition ledger_row :: "migration \<Rightarrow> string \<times> bytes" where
  "ledger_row m = (mg_name m, mg_checksum m)"

definition applied_to :: "(bytes \<Rightarrow> 's \<Rightarrow> 's option) \<Rightarrow> migration list \<Rightarrow> 's \<Rightarrow> nat \<Rightarrow> 's mig_db \<Rightarrow> bool" where
  "applied_to run ms s0 k d \<longleftrightarrow>
     k \<le> length ms \<and> ledger d = map ledger_row (take k ms) \<and> scripts run (take k ms) s0 = Some (md_schema d)"

lemma applied_outcomes [simp]: "applied_to run ms s0 k (d\<lparr>md_outcomes := os\<rparr>) = applied_to run ms s0 k d"
  by (simp add: applied_to_def ledger_def)

lemma scripts_append: "scripts run (xs @ ys) s = (case scripts run xs s of None \<Rightarrow> None | Some s' \<Rightarrow> scripts run ys s')"
  by (induction xs arbitrary: s) (simp_all split: option.split)

lemma mig_stmt_cases:
  assumes "mig_stmt f d = (r, d')"
  obtains (runs) os where "f (d\<lparr>md_outcomes := os\<rparr>) = (r, d')" "md_outcomes d = [] \<Longrightarrow> os = []"
    | (fails) e os where "r = Inl (Driver e)" "d' = d\<lparr>md_outcomes := os\<rparr>" "md_outcomes d \<noteq> []"
proof (cases "md_outcomes d")
  case Nil
  then have same: "d\<lparr>md_outcomes := []\<rparr> = d" by (cases d) simp
  have "f (d\<lparr>md_outcomes := []\<rparr>) = (r, d')" unfolding same using assms Nil by (simp add: mig_stmt_def)
  then show thesis by (rule runs) simp
next
  case (Cons o' os)
  with assms show thesis by (cases o') (auto simp: mig_stmt_def intro: that)
qed

lemma mig_stmt_none: "md_outcomes d = [] \<Longrightarrow> mig_stmt f d = f d"
  by (simp add: mig_stmt_def)

lemma map_of_rows: "distinct (map mg_name ms) \<Longrightarrow> map_of (map ledger_row ms) n = map_option mg_checksum (find (\<lambda>m. mg_name m = n) ms)"
  by (induction ms) (auto simp: ledger_row_def)

lemma ledger_lookup:
  assumes "fit ms" "applied_to run ms s0 k d" "j < length ms"
  shows "map_of (ledger d) (mg_name (ms ! j)) = (if j < k then Some (mg_checksum (ms ! j)) else None)"
proof -
  have d: "distinct (map mg_name ms)" using assms(1) by (simp add: fit_def)
  have "(mg_name (ms ! j), mg_checksum (ms ! j)) \<in> set (ledger d)" if "j < k"
  proof -
    have "ms ! j \<in> set (take k ms)" using that assms(3) by (auto simp: in_set_conv_nth intro!: exI [of _ j])
    then show ?thesis using assms(2) by (auto simp: applied_to_def ledger_row_def)
  qed
  moreover have "distinct (map fst (ledger d))"
    using assms(2) d by (simp add: applied_to_def ledger_row_def comp_def distinct_take flip: take_map)
  moreover have "mg_name (ms ! j) \<notin> fst ` set (ledger d)" if "\<not> j < k"
  proof
    assume "mg_name (ms ! j) \<in> fst ` set (ledger d)"
    then obtain i where "i < k" "i < length ms" "mg_name (ms ! j) = mg_name (ms ! i)"
      using assms(2) by (auto simp: applied_to_def ledger_row_def in_set_conv_nth)
    with d assms(3) that show False by (metis distinct_conv_nth length_map nth_map)
  qed
  ultimately show ?thesis by (auto simp: map_of_eq_None_iff)
qed

section \<open>One migration\<close>

lemma run_script_Inr:
  assumes "run_script run text d = (Inr x, d')"
  obtains os where "run text (md_schema d) = Some (md_schema d')" "ledger d' = ledger d" "md_outcomes d = [] \<Longrightarrow> md_outcomes d' = []"
  using assms unfolding run_script_def
  by (auto elim!: mig_stmt_cases simp: fail_def ret_def ledger_def split: option.splits)

lemma add_ledger_Inr:
  assumes "add_ledger m d = (Inr x, d')"
  shows "ledger d' = ledger d @ [ledger_row m] \<and> md_schema d' = md_schema d"
  using assms unfolding add_ledger_def
  by (auto elim!: mig_stmt_cases simp: fail_def ret_def ledger_def ledger_row_def split: if_splits)

lemma back_applied: "applied_to run ms s0 k d0 \<Longrightarrow> applied_to run ms s0 k (back_to d0 d)"
  by (simp add: applied_to_def back_to_def ledger_def)

lemma applied_next:
  assumes "applied_to run ms s0 k d" "k < length ms" "run (mg_sql (ms ! k)) (md_schema d) = Some (md_schema d')"
    "ledger d' = ledger d @ [ledger_row (ms ! k)]"
  shows "applied_to run ms s0 (Suc k) d'"
  using assms by (simp add: applied_to_def take_Suc_conv_app_nth scripts_append)

text \<open>A migration that fails leaves nothing behind, unless it is the answer to its commit that is lost.\<close>

lemma apply_migration_step:
  assumes a: "applied_to run ms s0 k d" "k < length ms" and r: "apply_migration run (ms ! k) d = (r, d')"
  shows "applied_to run ms s0 (Suc k) d' \<or> (applied_to run ms s0 k d' \<and> r \<noteq> Inr ())"
proof (cases "mig_stmt (ret ()) d")
  case (Pair b d0)
  then have d0: "applied_to run ms s0 k d0"
    using a(1) by (auto elim!: mig_stmt_cases simp: ret_def)
  show ?thesis
  proof (cases b)
    case (Inl e)
    then show ?thesis using r Pair d0 by (auto simp: apply_migration_def andthen_def)
  next
    case (Inr u)
    obtain q d2 where t: "andthen (run_script run (mg_sql (ms ! k))) (\<lambda>_. add_ledger (ms ! k)) d0 = (q, d2)" by fastforce
    show ?thesis
    proof (cases q)
      case (Inl e)
      with r Pair \<open>b = Inr u\<close> t have "r = Inl e" "d' = back_to d0 d2" by (simp_all add: apply_migration_def andthen_def fail_def)
      then show ?thesis using back_applied [OF d0] by simp
    next
      case q: (Inr v)
      with t obtain d1 where d1: "run_script run (mg_sql (ms ! k)) d0 = (Inr (), d1)" "add_ledger (ms ! k) d1 = (Inr v, d2)"
        by (auto simp: andthen_def split: prod.splits sum.splits)
      from run_script_Inr [OF d1(1)] add_ledger_Inr [OF d1(2)] have d2: "applied_to run ms s0 (Suc k) d2"
        by (intro applied_next [OF d0 a(2)]) auto
      moreover have "(r, d') = end_tx d0 d2" using r Pair Inr t q by (simp add: apply_migration_def andthen_def)
      ultimately show ?thesis
        by (auto simp: end_tx_def ret_def fail_def back_applied [OF d0] split: list.splits outcome.splits)
    qed
  qed
qed

lemma apply_migration_works:
  assumes "fit ms" "applied_to run ms s0 k d" "k < length ms" "scripts run ms s0 \<noteq> None" "md_outcomes d = []"
  shows "\<exists>d'. apply_migration run (ms ! k) d = (Inr (), d') \<and> md_outcomes d' = []"
proof -
  have "ms = take k ms @ ms ! k # drop (Suc k) ms" using assms(3) by (simp add: id_take_nth_drop)
  then have "scripts run (take k ms @ ms ! k # drop (Suc k) ms) s0 \<noteq> None" using assms(4) by metis
  then obtain s where s: "run (mg_sql (ms ! k)) (md_schema d) = Some s"
    using assms(2) by (auto simp: scripts_append applied_to_def split: option.splits)
  have l: "mg_name (ms ! k) \<notin> fst ` set (ledger d)" "length (mg_checksum (ms ! k)) = 32"
    using ledger_lookup [OF assms(1,2,3)] assms(1,3) by (simp_all add: map_of_eq_None_iff fit_def)
  have "ledger (d\<lparr>md_schema := s\<rparr>) = ledger d" by (simp add: ledger_def)
  then show ?thesis
    using assms(5) s l
    by (simp add: apply_migration_def andthen_def mig_stmt_none ret_def run_script_def add_ledger_def end_tx_def)
qed

section \<open>A run\<close>

lemma read_checksum_step:
  assumes "read_checksum name d = (r, d')"
  shows "applied_to run ms s0 k d \<Longrightarrow> applied_to run ms s0 k d'" "r = Inr x \<Longrightarrow> x = map_of (ledger d) name"
    "md_outcomes d = [] \<Longrightarrow> r = Inr (map_of (ledger d) name) \<and> d' = d"
  using assms unfolding read_checksum_def
  by (auto elim!: mig_stmt_cases simp: ret_def ledger_def mig_stmt_none)

lemma drop_take_Cons: "j < n \<Longrightarrow> n \<le> length ms \<Longrightarrow> drop j (take n ms) = ms ! j # drop (Suc j) (take n ms)"
  by (metis Cons_nth_drop_Suc length_take min.absorb2 nth_take)

lemma apply_all_step:
  assumes "fit ms" "n \<le> length ms" "j \<le> k" "applied_to run ms s0 k d" "apply_all run (drop j (take n ms)) d = (r, d')"
  shows "\<exists>k'. applied_to run ms s0 k' d' \<and> (r = Inr () \<longrightarrow> n \<le> k')"
  using assms(3-5)
proof (induction "n - j" arbitrary: j k d)
  case 0
  then show ?case using assms(2) by (auto simp: ret_def)
next
  case (Suc i)
  then have j: "j < n" "j < length ms" "i = n - Suc j" using assms(2) by simp_all
  note cons = drop_take_Cons [OF j(1) assms(2)]
  obtain q d1 where rc: "read_checksum (mg_name (ms ! j)) d = (q, d1)" by fastforce
  note d1 = read_checksum_step(1) [OF rc Suc.prems(2)]
  show ?case
  proof (cases q)
    case (Inl e)
    then show ?thesis using Suc.prems(3) rc d1 by (auto simp: cons andthen_def)
  next
    case (Inr x)
    then have x: "x = (if j < k then Some (mg_checksum (ms ! j)) else None)"
      using read_checksum_step(2) [OF rc] ledger_lookup [OF assms(1) Suc.prems(2) j(2)] by simp
    show ?thesis
    proof (cases "j < k")
      case True
      with Suc.prems(3) rc Inr x have "apply_all run (drop (Suc j) (take n ms)) d1 = (r, d')" by (simp add: cons andthen_def)
      from Suc.hyps(1) [OF j(3) _ d1 this] True show ?thesis by simp
    next
      case False
      then have k: "k = j" using Suc.prems(1) by simp
      obtain b d2 where am: "apply_migration run (ms ! j) d1 = (b, d2)" by fastforce
      note step = apply_migration_step [OF d1 [unfolded k] j(2) am]
      show ?thesis
      proof (cases b)
        case (Inl e)
        then show ?thesis using step Suc.prems(3) rc Inr \<open>q = Inr x\<close> x False am by (auto simp: cons andthen_def)
      next
        case b: (Inr u)
        then have "apply_all run (drop (Suc j) (take n ms)) d2 = (r, d')"
          using Suc.prems(3) rc Inr x False am by (simp add: cons andthen_def)
        from Suc.hyps(1) [OF j(3) _ _ this, of "Suc j"] step b show ?thesis by auto
      qed
    qed
  qed
qed

lemma apply_all_works:
  assumes "fit ms" "scripts run ms s0 \<noteq> None" "j \<le> k" "applied_to run ms s0 k d" "md_outcomes d = []"
  shows "\<exists>d'. apply_all run (drop j ms) d = (Inr (), d')"
  using assms(3-5)
proof (induction "length ms - j" arbitrary: j k d)
  case 0
  then show ?case by (auto simp: ret_def)
next
  case (Suc i)
  then have j: "j < length ms" "i = length ms - Suc j" by simp_all
  note cons = Cons_nth_drop_Suc [OF j(1), symmetric]
  obtain q d1 where rc: "read_checksum (mg_name (ms ! j)) d = (q, d1)" by fastforce
  then have q: "q = Inr (if j < k then Some (mg_checksum (ms ! j)) else None)" "d1 = d"
    using read_checksum_step(3) [OF rc Suc.prems(3)] ledger_lookup [OF assms(1) Suc.prems(2) j(1)] by simp_all
  show ?case
  proof (cases "j < k")
    case True
    with Suc.hyps(1) [OF j(2) _ Suc.prems(2,3)] rc q show ?thesis by (simp add: cons andthen_def)
  next
    case False
    then have k: "k = j" using Suc.prems(1) by simp
    obtain d2 where d2: "apply_migration run (ms ! j) d = (Inr (), d2)" "md_outcomes d2 = []"
      using apply_migration_works [OF assms(1) Suc.prems(2) _ assms(2) Suc.prems(3)] j(1) k by auto
    then have "applied_to run ms s0 (Suc j) d2"
      using apply_migration_step [OF Suc.prems(2) _ d2(1) [folded k]] j(1) k by auto
    from Suc.hyps(1) [OF j(2) _ this d2(2)] rc q False d2(1) show ?thesis by (simp add: cons andthen_def)
  qed
qed

lemma apply_migration_ledger: "apply_migration run m d = (Inr u, d') \<Longrightarrow> ledger d' = ledger d @ [ledger_row m]"
proof -
  assume a: "apply_migration run m d = (Inr u, d')"
  then obtain v d0 w d2 where s: "mig_stmt (ret ()) d = (Inr v, d0)" "andthen (run_script run (mg_sql m)) (\<lambda>_. add_ledger m) d0 = (Inr w, d2)"
      "end_tx d0 d2 = (Inr u, d')"
    by (auto simp: apply_migration_def andthen_def fail_def split: prod.splits sum.splits)
  have "ledger d0 = ledger d" using s(1) by (auto elim!: mig_stmt_cases simp: ret_def ledger_def)
  moreover obtain d1 where "run_script run (mg_sql m) d0 = (Inr (), d1)" "add_ledger m d1 = (Inr w, d2)"
    using s(2) by (auto simp: andthen_def split: prod.splits sum.splits)
  then have "ledger d2 = ledger d0 @ [ledger_row m]" using run_script_Inr add_ledger_Inr by metis
  moreover have "ledger d' = ledger d2"
    using s(3) by (auto simp: end_tx_def ret_def fail_def ledger_def split: list.splits outcome.splits)
  ultimately show ?thesis by simp
qed

lemma apply_all_checks:
  "apply_all run ns d = (Inr u, d') \<Longrightarrow> m \<in> set ns \<Longrightarrow> map_of (ledger d) (mg_name m) = Some c \<Longrightarrow> c = mg_checksum m"
proof (induction ns arbitrary: d)
  case (Cons n ns)
  obtain q d1 where rc: "read_checksum (mg_name n) d = (q, d1)" by fastforce
  then have d1: "ledger d1 = ledger d" unfolding read_checksum_def
    by (auto elim!: mig_stmt_cases simp: ret_def ledger_def)
  obtain x where x: "q = Inr x" "x = map_of (ledger d) (mg_name n)"
    using Cons.prems(1) rc read_checksum_step(2) [OF rc] by (cases q) (auto simp: andthen_def)
  show ?case
  proof (cases x)
    case None
    then obtain v d2 where d2: "apply_migration run n d1 = (Inr v, d2)" "apply_all run ns d2 = (Inr u, d')"
      using Cons.prems(1) rc x(1) by (auto simp: andthen_def split: prod.splits sum.splits)
    have "map_of (ledger d2) (mg_name m) = Some c"
      using apply_migration_ledger [OF d2(1)] d1 Cons.prems(3) by simp
    with Cons.IH [OF d2(2)] Cons.prems(2,3) x(2) None show ?thesis by auto
  next
    case (Some was)
    with Cons.prems(1) rc x(1) have "was = mg_checksum n" "apply_all run ns d1 = (Inr u, d')"
      by (auto simp: andthen_def fail_def split: if_splits)
    with Cons.IH [of d1] Cons.prems(2,3) x(2) Some d1 show ?thesis by auto
  qed
qed simp

lemma migrate_cases:
  assumes "load_migrations source = Inr ns" "migrate run True source d = (r, d')"
  obtains (early) e os where "r = Inl e" "d' = d\<lparr>md_outcomes := os\<rparr>"
    | (whole) d1 d2 os os' where "apply_all run ns d1 = (r, d2)" "d' = d2\<lparr>md_outcomes := os\<rparr>"
        "d1 = d\<lparr>md_outcomes := os', md_ledger := Some (ledger d)\<rparr>" "md_outcomes d = [] \<Longrightarrow> os' = []"
proof -
  obtain x1 d1 where s1: "mig_stmt (ret ()) d = (x1, d1)" by fastforce
  obtain x2 d2 where s2: "mig_stmt (ret ()) d1 = (x2, d2)" by fastforce
  obtain x3 d3 where s3: "ensure_ledger d2 = (x3, d3)" by fastforce
  obtain x4 d4 where s4: "apply_all run ns d3 = (x4, d4)" by fastforce
  have m: "migrate run True source d = (case x1 of Inl e \<Rightarrow> (Inl e, d1) | Inr _ \<Rightarrow> (case x2 of Inl e \<Rightarrow> (Inl e, d2) | Inr _ \<Rightarrow>
      (case x3 of Inl e \<Rightarrow> (Inl e, snd (mig_stmt (ret ()) d3)) | Inr _ \<Rightarrow> (x4, snd (mig_stmt (ret ()) d4)))))"
    by (simp add: migrate_def assms(1) andthen_def lift_def s1 s2 s3 s4 split: sum.split)
  have snd_out: "\<exists>os. snd (mig_stmt (ret ()) d0) = d0\<lparr>md_outcomes := os\<rparr>" for d0 :: "'a mig_db"
    by (cases "mig_stmt (ret ()) d0") (auto elim!: mig_stmt_cases simp: ret_def)
  obtain os1 where o1: "d1 = d\<lparr>md_outcomes := os1\<rparr>" "x1 = Inr () \<Longrightarrow> md_outcomes d = [] \<Longrightarrow> os1 = []"
    using s1 by (auto elim!: mig_stmt_cases simp: ret_def)
  obtain os2 where o2: "d2 = d\<lparr>md_outcomes := os2\<rparr>" "x2 = Inr () \<Longrightarrow> os1 = [] \<Longrightarrow> os2 = []"
    using s2 o1(1) by (auto elim!: mig_stmt_cases simp: ret_def)
  have o3: "\<exists>os3. (x3 = Inr () \<and> d3 = d\<lparr>md_outcomes := os3, md_ledger := Some (ledger d)\<rparr> \<and> (os2 = [] \<longrightarrow> os3 = [])) \<or>
      ((\<exists>e. x3 = Inl e) \<and> d3 = d\<lparr>md_outcomes := os3\<rparr>)"
    using s3 o2(1) unfolding ensure_ledger_def by (auto elim!: mig_stmt_cases simp: ret_def ledger_def)
  obtain os5 where o5: "snd (mig_stmt (ret ()) d3) = d3\<lparr>md_outcomes := os5\<rparr>" using snd_out by blast
  obtain os6 where o6: "snd (mig_stmt (ret ()) d4) = d4\<lparr>md_outcomes := os6\<rparr>" using snd_out by blast
  show thesis
  proof (cases "(\<exists>e. x1 = Inl e) \<or> (\<exists>e. x2 = Inl e) \<or> (\<exists>e. x3 = Inl e)")
    case True
    then have "\<exists>e os. r = Inl e \<and> d' = d\<lparr>md_outcomes := os\<rparr>"
      using m assms(2) o1(1) o2(1) o3 o5 by (auto split: sum.splits)
    then show thesis using early by blast
  next
    case False
    then have x: "x1 = Inr ()" "x2 = Inr ()" "x3 = Inr ()" by (cases x1; cases x2; cases x3; simp)+
    then obtain os3 where os3: "d3 = d\<lparr>md_outcomes := os3, md_ledger := Some (ledger d)\<rparr>" "os2 = [] \<longrightarrow> os3 = []"
      using o3 by auto
    show thesis
      by (rule whole [OF _ _ os3(1)]) (use m assms(2) x s4 o6 o1(2) o2(2) os3(2) in auto)
  qed
qed

lemma migrate_applied:
  assumes "fit ms" "load_migrations source = Inr (take n ms)" "n \<le> length ms" "applied_to run ms s0 k d"
    "migrate run True source d = (r, d')"
  shows "\<exists>k'. applied_to run ms s0 k' d'"
  using assms(2,5)
proof (cases rule: migrate_cases)
  case (early e os)
  with assms(4) show ?thesis by auto
next
  case (whole d1 d2 os os')
  have "applied_to run ms s0 k d1" using assms(4) by (simp add: whole(3) applied_to_def ledger_def)
  from apply_all_step [OF assms(1,3) _ this, of 0] whole(1,2) show ?thesis by fastforce
qed

text \<open>A release: its files, and what the runner meets.\<close>

definition run_releases ::
  "(bytes \<Rightarrow> 's \<Rightarrow> 's option) \<Rightarrow> (dir_entry list option \<times> outcome list) list \<Rightarrow> 's mig_db \<Rightarrow> 's mig_db"
where
  "run_releases run =
     fold (\<lambda>(source, outcomes) d. snd (migrate run True source (d\<lparr>md_outcomes := outcomes\<rparr>)))"

lemma run_releases_applied:
  assumes "fit ms" "\<forall>(source, os) \<in> set rs. \<exists>n \<le> length ms. load_migrations source = Inr (take n ms)" "applied_to run ms s0 k d"
  shows "\<exists>k'. applied_to run ms s0 k' (run_releases run rs d)"
  using assms(2,3)
proof (induction rs arbitrary: k d)
  case (Cons r rs)
  obtain source os where r: "r = (source, os)" by (cases r)
  obtain n where n: "n \<le> length ms" "load_migrations source = Inr (take n ms)" using Cons.prems(1) by (auto simp: r)
  obtain x d' where m: "migrate run True source (d\<lparr>md_outcomes := os\<rparr>) = (x, d')" by fastforce
  then obtain k' where "applied_to run ms s0 k' d'"
    using migrate_applied [OF assms(1) n(2,1) _ m] Cons.prems(2) by auto
  from Cons.IH [OF _ this] Cons.prems(1) m show ?case by (simp add: run_releases_def r)
qed (auto simp: run_releases_def)

lemma migrate_completes:
  assumes "fit ms" "load_migrations source = Inr ms" "applied_to run ms s0 k d" "md_outcomes d = []" "scripts run ms s0 = Some s"
  shows "\<exists>d'. migrate run True source d = (Inr (), d') \<and> md_schema d' = s \<and> ledger d' = map ledger_row ms"
proof -
  define d1 where "d1 = d\<lparr>md_ledger := Some (ledger d)\<rparr>"
  have a: "applied_to run ms s0 k d1" "md_outcomes d1 = []"
    using assms(3,4) by (simp_all add: d1_def applied_to_def ledger_def)
  then obtain d2 where d2: "apply_all run ms d1 = (Inr (), d2)"
    using apply_all_works [OF assms(1) _ _ a(1,2), of 0] assms(5) by auto
  from apply_all_step [OF assms(1) le_refl _ a(1), of 0] d2 obtain k' where k: "applied_to run ms s0 k' d2" "length ms \<le> k'" by auto
  obtain x d' where u: "mig_stmt (ret ()) d2 = (x, d')" by fastforce
  then have d': "md_schema d' = md_schema d2" "ledger d' = ledger d2"
    by (auto elim!: mig_stmt_cases simp: ret_def ledger_def)
  have "migrate run True source d = (Inr (), d')"
    using assms(2,4) d2 u
    by (simp add: migrate_def andthen_def lift_def mig_stmt_none ret_def ensure_ledger_def d1_def)
  moreover have "md_schema d' = s" "ledger d' = map ledger_row ms"
    using k d' assms(5) by (simp_all add: applied_to_def)
  ultimately show ?thesis by blast
qed

lemma migrate_drift:
  assumes "load_migrations source = Inr ns" "m \<in> set ns" "map_of (ledger d) (mg_name m) = Some c" "c \<noteq> mg_checksum m"
  shows "fst (migrate run True source d) \<noteq> Inr ()"
proof
  assume "fst (migrate run True source d) = Inr ()"
  then obtain d' where "migrate run True source d = (Inr (), d')" by (metis prod.collapse)
  with assms(1) show False
  proof (cases rule: migrate_cases)
    case (whole d1 d2 os os')
    have "map_of (ledger d1) (mg_name m) = Some c" using assms(3) by (simp add: whole(3) ledger_def)
    from apply_all_checks [OF whole(1) assms(2) this] assms(4) show False by simp
  qed simp
qed

section \<open>The property\<close>

definition empty_schema :: "'s \<Rightarrow> 's mig_db" where
  "empty_schema s0 = \<lparr>md_schema = s0, md_ledger = None, md_outcomes = []\<rparr>"

text \<open>
  C34. However often the migrations of the releases of the program are run, and wherever each run fails or is killed,
  the schema is that of the first \<open>k\<close> scripts, each run once and in order, and the ledger lists exactly these; an
  undisturbed run of the last release then brings the schema to its end; a release in which a script was edited after it
  was applied is refused.
\<close>

theorem migrations_converge:
  assumes "load_migrations latest = Inr ms"
    and "\<forall>(source, os) \<in> set rs. \<exists>n \<le> length ms. load_migrations source = Inr (take n ms)"
  shows "\<exists>k \<le> length ms. \<exists>s. scripts run (take k ms) s0 = Some s \<and>
      md_schema (run_releases run rs (empty_schema s0)) = s \<and>
      ledger (run_releases run rs (empty_schema s0)) = map ledger_row (take k ms) \<and>
      (\<forall>s'. scripts run ms s0 = Some s' \<longrightarrow>
        (\<exists>d'. migrate run True latest ((run_releases run rs (empty_schema s0))\<lparr>md_outcomes := []\<rparr>) = (Inr (), d') \<and>
           md_schema d' = s' \<and> ledger d' = map ledger_row ms)) \<and>
      (\<forall>other ns m os. load_migrations other = Inr ns \<longrightarrow> m \<in> set ns \<longrightarrow>
        (\<exists>i < k. mg_name (ms ! i) = mg_name m \<and> mg_checksum (ms ! i) \<noteq> mg_checksum m) \<longrightarrow>
        fst (migrate run True other ((run_releases run rs (empty_schema s0))\<lparr>md_outcomes := os\<rparr>)) \<noteq> Inr ())"
proof -
  define d where "d = run_releases run rs (empty_schema s0)"
  note fit = load_fit [OF assms(1)]
  have "applied_to run ms s0 0 (empty_schema s0)" by (simp add: applied_to_def empty_schema_def ledger_def)
  from run_releases_applied [OF fit assms(2) this] obtain k where k: "applied_to run ms s0 k d" unfolding d_def by blast
  then have "\<exists>d'. migrate run True latest (d\<lparr>md_outcomes := []\<rparr>) = (Inr (), d') \<and> md_schema d' = s' \<and> ledger d' = map ledger_row ms"
    if "scripts run ms s0 = Some s'" for s'
    using migrate_completes [OF fit assms(1) _ _ that, of k "d\<lparr>md_outcomes := []\<rparr>"] by simp
  moreover have "fst (migrate run True other (d\<lparr>md_outcomes := os\<rparr>)) \<noteq> Inr ()"
    if "load_migrations other = Inr ns" "m \<in> set ns" "i < k" "mg_name (ms ! i) = mg_name m" "mg_checksum (ms ! i) \<noteq> mg_checksum m"
    for other ns m os i
  proof (rule migrate_drift [OF that(1,2) _ that(5)])
    have "i < length ms" using k that(3) by (simp add: applied_to_def)
    from ledger_lookup [OF fit k this] that(3,4) show "map_of (ledger (d\<lparr>md_outcomes := os\<rparr>)) (mg_name m) = Some (mg_checksum (ms ! i))"
      by (simp add: ledger_def)
  qed
  ultimately show ?thesis unfolding d_def [symmetric] using k by (auto simp: applied_to_def)
qed

text \<open>Two scripts; the commit of the second one is lost, and its run is repeated.\<close>

definition sample_files :: "dir_entry list" where
  "sample_files =
     [\<lparr>de_name = ''0001_a.up.sql'', de_is_dir = False, de_body = Some ''create a''\<rparr>,
      \<lparr>de_name = ''embed.go'', de_is_dir = False, de_body = None\<rparr>,
      \<lparr>de_name = ''0002_b.up.sql'', de_is_dir = False, de_body = Some ''create b''\<rparr>]"

definition sample_migrations :: "migration list" where
  "sample_migrations =
     [\<lparr>mg_name = ''0001_a.up.sql'', mg_sql = ''create a'', mg_checksum = sha256 ''create a''\<rparr>,
      \<lparr>mg_name = ''0002_b.up.sql'', mg_sql = ''create b'', mg_checksum = sha256 ''create b''\<rparr>]"

lemma sample_suffixes:
  "suffix ''.up.sql'' ''0001_a.up.sql''" "suffix ''.up.sql'' ''0002_b.up.sql''" "\<not> suffix ''.up.sql'' ''embed.go''"
  "trim_space ''create a'' \<noteq> []" "trim_space ''create b'' \<noteq> []" "''0001_a.up.sql'' \<le> ''0002_b.up.sql''"
  by code_simp+

lemma sample_loaded: "load_migrations (Some sample_files) = Inr sample_migrations"
  by (simp add: load_migrations_def sample_files_def is_migration_def sample_suffixes sample_migrations_def)

lemma migrations_converge_witness:
  "\<exists>k \<le> 2. ledger (run_releases (\<lambda>text s. Some (s @ [text])) [(Some sample_files, replicate 12 Done @ [Lost ConnectionLost])] (empty_schema [])) =
     map ledger_row (take k sample_migrations)"
proof -
  have "\<forall>(source, os) \<in> set [(Some sample_files, replicate 12 Done @ [Lost ConnectionLost])].
      \<exists>n \<le> length sample_migrations. load_migrations source = Inr (take n sample_migrations)"
    by (auto simp: sample_loaded intro!: exI [of _ 2]) (simp_all add: sample_migrations_def)
  from migrations_converge [OF sample_loaded this, of "\<lambda>text s. Some (s @ [text])" "[]"]
  have "\<exists>k \<le> length sample_migrations. ledger (run_releases (\<lambda>text s. Some (s @ [text]))
      [(Some sample_files, replicate 12 Done @ [Lost ConnectionLost])] (empty_schema [])) = map ledger_row (take k sample_migrations)"
    by blast
  moreover have "length sample_migrations = 2" by (simp add: sample_migrations_def)
  ultimately show ?thesis by simp
qed

end
