(* ===== verification/Server_Bootstrap.thy ===== *)
theory Server_Bootstrap
  imports Server_Config Store_Migrate Http_Api Maintenance_Worker
begin

text \<open>
  The server put together (\<open>internal/server/bootstrap/application.go\<close>): \<open>New\<close> opens and migrates the database and builds
  every service from the configuration, \<open>Run\<close> serves until something ends and then stops everything. Metrics and the
  timeouts of the HTTP server are left out; the files of \<open>migrations\<close> and what they do are arguments.
\<close>

section \<open>New\<close>

record application =
  ap_env :: server_env
  ap_auth :: authenticator
  ap_admission :: limiter
  ap_gate :: project_limiter
  ap_worker :: maintenance_config
  ap_shutdown :: duration

definition app_limits :: "server_config \<Rightarrow> limits" where
  "app_limits cfg =
     (if sf_max_request_bytes cfg < l_max_body_bytes default_limits
      then default_limits\<lparr>l_max_body_bytes := sf_max_request_bytes cfg\<rparr> else default_limits)"

definition app_limiter_config :: "server_config \<Rightarrow> limiter_config" where
  "app_limiter_config cfg =
     \<lparr>lc_requests = sf_requests_per_minute cfg, lc_entries = sf_entries_per_minute cfg, lc_bytes = sf_bytes_per_minute cfg,
      lc_max_inflight = sf_max_inflight cfg, lc_state_ttl = 0\<rparr>"

definition app_query_config :: "server_config \<Rightarrow> query_config" where
  "app_query_config cfg =
     (let q = default_query_config\<lparr>qk_max_range := sf_query_max_range cfg, qk_execution_timeout := sf_query_timeout cfg,
                qk_max_limit := sf_query_max_page_size cfg\<rparr>
      in if qk_default_limit q > qk_max_limit q then q\<lparr>qk_default_limit := qk_max_limit q\<rparr> else q)"

definition app_cursor_secret :: "server_config \<Rightarrow> bytes" where
  "app_cursor_secret cfg = sha256 (''gline-query-cursor-v1'' @ [CHR 0x00] @ sf_api_key_pepper cfg)"

definition app_http_config :: "server_config \<Rightarrow> string \<Rightarrow> http_config" where
  "app_http_config cfg version =
     \<lparr>hc_bootstrap_token = sf_bootstrap_token cfg, hc_origins = sf_allowed_origins cfg, hc_max_json = sf_max_request_bytes cfg,
      hc_limits = app_limits cfg, hc_version = version, hc_ready_timeout = sf_database_timeout cfg\<rparr>"

definition app_worker_config :: "server_config \<Rightarrow> maintenance_config" where
  "app_worker_config cfg =
     default_maintenance\<lparr>mc_interval := sf_maintenance_every cfg, mc_agent_stale_after := sf_agent_stale_after cfg,
       mc_batch_size := sf_retention_batch cfg\<rparr>"

text \<open>The services in their order; the ingest and operations services cannot fail here.\<close>

definition assemble :: "ops_env \<Rightarrow> server_config \<Rightarrow> string \<Rightarrow> server_error + application" where
  "assemble base cfg version =
     (case new_authenticator (sf_api_key_pepper cfg) of
        Inl e \<Rightarrow> Inl e
      | Inr auth \<Rightarrow>
     (case new_control_service True (sf_api_key_pepper cfg) of
        Inl e \<Rightarrow> Inl e
      | Inr pepper \<Rightarrow>
     (case new_limiter (app_limiter_config cfg) of
        Inl e \<Rightarrow> Inl e
      | Inr admission \<Rightarrow>
     (case new_query_service (app_cursor_secret cfg) (app_query_config cfg) of
        Inl e \<Rightarrow> Inl e
      | Inr query \<Rightarrow>
     (case new_handler True (app_http_config cfg version) of
        Inl e \<Rightarrow> Inl e
      | Inr http \<Rightarrow>
     (case new_worker (app_worker_config cfg) of
        Inl e \<Rightarrow> Inl e
      | Inr worker \<Rightarrow>
          Inr \<lparr>ap_env = \<lparr>se_ops = base\<lparr>oe_limits := app_limits cfg\<rparr>, se_query = query, se_pepper = pepper, se_http = http\<rparr>,
               ap_auth = auth, ap_admission = admission, ap_gate = new_project_limiter (nat (sf_query_concurrency cfg)),
               ap_worker = worker, ap_shutdown = sf_shutdown_timeout cfg\<rparr>))))))"

definition new_application ::
  "(bytes \<Rightarrow> 's \<Rightarrow> 's option) \<Rightarrow> dir_entry list option \<Rightarrow> ops_env \<Rightarrow> bool \<Rightarrow> server_config \<Rightarrow> string \<Rightarrow> ('s mig_db, application) act"
where
  "new_application run files base open_ok cfg version =
     (if \<not> open_ok then fail (Internal ''open postgres'')
      else andthen (mig_stmt (ret ())) (\<lambda>_.
           andthen (migrate run True files) (\<lambda>_.
           lift (assemble base cfg version))))"

text \<open>The server before its first request, over a database.\<close>

definition app_server :: "application \<Rightarrow> pgstate \<Rightarrow> server" where
  "app_server app s =
     \<lparr>sv_auth = ap_auth app, sv_touches = [], sv_admission = Some (ap_admission app), sv_gate = Some (ap_gate app), sv_pg = s\<rparr>"

section \<open>Run\<close>

text \<open>What ends first; \<open>None\<close> is an end that counts as none: \<open>ErrServerClosed\<close>, \<open>context.Canceled\<close>.\<close>

datatype app_event = CallerCancels | ServerEnds "server_error option" | WorkerEnds "server_error option"

datatype app_effect = StartsDraining | CancelsWork | ShutsServerDown | AwaitsWorker | ClosesStore

definition join_errors :: "server_error option \<Rightarrow> server_error option \<Rightarrow> server_error option" where
  "join_errors a b =
     (case (a, b) of (Some x, Some y) \<Rightarrow> Some (Joined x y) | (Some x, None) \<Rightarrow> Some x | (None, y) \<Rightarrow> y)"

text \<open>\<open>worker_end\<close> is how the worker ends in the time that is left; \<open>None\<close> when it does not.\<close>

definition run_application ::
  "app_event \<Rightarrow> server_error option \<Rightarrow> server_error option option \<Rightarrow> server_error option \<Rightarrow> server_error option \<times> app_effect list"
where
  "run_application event shutdown_err worker_end close_err =
     (let worker_stopped = (case event of WorkerEnds _ \<Rightarrow> True | _ \<Rightarrow> False);
          run_err = (case event of CallerCancels \<Rightarrow> None | ServerEnds e \<Rightarrow> e | WorkerEnds e \<Rightarrow> e);
          run_err' = (if worker_stopped then run_err
                      else join_errors run_err (case worker_end of Some e \<Rightarrow> e | None \<Rightarrow> Some (Driver DeadlineExceeded)))
      in (join_errors (join_errors run_err' shutdown_err) close_err,
          [StartsDraining, CancelsWork, ShutsServerDown] @ (if worker_stopped then [] else [AwaitsWorker]) @ [ClosesStore]))"

lemma run_application_clean:
  "fst (run_application event shutdown_err worker_end close_err) = None \<longleftrightarrow>
     shutdown_err = None \<and> close_err = None \<and>
     (case event of CallerCancels \<Rightarrow> worker_end = Some None | ServerEnds e \<Rightarrow> e = None \<and> worker_end = Some None | WorkerEnds e \<Rightarrow> e = None)"
  by (auto simp: run_application_def join_errors_def Let_def split: app_event.splits option.splits)

section \<open>A configuration that is accepted\<close>

definition plain_origin :: "string \<Rightarrow> bool" where
  "plain_origin origin \<longleftrightarrow> origin \<noteq> ''*'' \<and> CHR 0x0D \<notin> set origin \<and> CHR 0x0A \<notin> set origin"

lemma checked_origins_iff:
  "checked_origins xs \<noteq> None \<longleftrightarrow> list_all (\<lambda>x. trim_space x \<noteq> [] \<and> plain_origin (trim_space x)) xs"
  by (induction xs) (auto simp: plain_origin_def Let_def)

definition good_origins :: "server_config \<Rightarrow> bool" where
  "good_origins cfg \<longleftrightarrow> list_all (\<lambda>x. trim_space x \<noteq> [] \<and> plain_origin (trim_space x)) (sf_allowed_origins cfg)"

lemma new_handler_app:
  assumes "24 \<le> length (sf_bootstrap_token cfg)"
  shows "case new_handler True (app_http_config cfg version) of
      Inl e \<Rightarrow> \<not> good_origins cfg \<and> e = Internal ''http api contains an invalid CORS origin''
    | Inr http \<Rightarrow> good_origins cfg"
  using assms checked_origins_iff [of "sf_allowed_origins cfg"]
  by (auto simp: new_handler_def app_http_config_def good_origins_def Let_def split: option.split)

lemma app_limits_bounds:
  "l_max_body_bytes (app_limits cfg) = effective_ingest_body cfg" "l_max_entries (app_limits cfg) = l_max_entries default_limits"
  by (auto simp: app_limits_def effective_ingest_body_def)

lemma limiter_app:
  assumes "operational_bounds cfg"
  shows "\<exists>l. new_limiter (app_limiter_config cfg) = Inr l \<and> lc_entries (lm_config l) = sf_entries_per_minute cfg \<and>
    lc_bytes (lm_config l) = sf_bytes_per_minute cfg \<and> lc_requests (lm_config l) = sf_requests_per_minute cfg \<and>
    lc_max_inflight (lm_config l) = sf_max_inflight cfg \<and> lm_keys l = fmempty \<and> lm_projects l = fmempty"
  using assms by (auto simp: new_limiter_def app_limiter_config_def operational_bounds_def minute_def second_def Let_def)

lemma query_app:
  assumes "operational_bounds cfg" "durations_positive cfg"
  shows "\<exists>q. new_query_service (app_cursor_secret cfg) (app_query_config cfg) = Inr q"
  using assms
  by (auto simp: new_query_service_def app_query_config_def default_query_config_def operational_bounds_def durations_positive_def
      new_cursor_codec_def app_cursor_secret_def Let_def)

lemma worker_app:
  assumes "operational_bounds cfg" "durations_positive cfg"
  shows "new_worker (app_worker_config cfg) = Inr (app_worker_config cfg)"
  using assms by (auto simp: new_worker_def app_worker_config_def default_maintenance_def operational_bounds_def durations_positive_def second_def)

lemma assemble_result:
  assumes "from_env fp vars = Inr cfg"
  shows "case assemble base cfg version of
      Inl e \<Rightarrow> \<not> good_origins cfg \<and> e = Internal ''http api contains an invalid CORS origin''
    | Inr app \<Rightarrow> good_origins cfg \<and> oe_limits (se_ops (ap_env app)) = app_limits cfg \<and>
        new_limiter (app_limiter_config cfg) = Inr (ap_admission app)"
proof -
  note f = from_env_facts [OF assms]
  obtain l where l: "new_limiter (app_limiter_config cfg) = Inr l" using limiter_app [OF f(2)] by blast
  obtain q where q: "new_query_service (app_cursor_secret cfg) (app_query_config cfg) = Inr q" using query_app [OF f(2,1)] by blast
  have "16 \<le> length (sf_api_key_pepper cfg)" using f(4) by simp
  then show ?thesis
    using new_handler_app [OF f(3), of version] worker_app [OF f(2,1)] l q
    by (cases "new_handler True (app_http_config cfg version)")
      (simp_all add: assemble_def new_authenticator_def new_control_service_def)
qed

lemma never_exceeds:
  assumes "n \<le> lc_entries (lm_config l)" "b \<le> lc_bytes (lm_config l)"
  shows "fst (allow_ingest w key project n b now l) \<noteq> Inl BatchExceedsCapacity"
  using assms by (auto simp: allow_ingest_def Let_def)

text \<open>The buckets of a limiter that has seen nothing are full.\<close>

lemma first_batch_admitted:
  assumes "lm_keys l = fmempty" "lm_projects l = fmempty" "1 \<le> lc_requests (lm_config l)" "1 \<le> lc_max_inflight (lm_config l)"
    "valid_uuid key" "valid_uuid project" "0 < n" "0 < b" "n \<le> lc_entries (lm_config l)" "b \<le> lc_bytes (lm_config l)"
  shows "\<exists>rv. fst (allow_ingest None key project n b now l) = Inr rv"
proof -
  define l1 where "l1 = cleanup now l"
  have l1: "lm_keys l1 = fmempty" "lm_projects l1 = fmempty" "lm_config l1 = lm_config l"
    using assms(1,2) by (auto simp: l1_def cleanup_def Let_def)
  show ?thesis
    using assms l1
    by (simp add: allow_ingest_def Let_def l1_def [symmetric] key_at_def project_at_def refill_def full_bucket_def)
qed


text \<open>The variables that are required, and one origin.\<close>

definition sample_vars :: env_vars where
  "sample_vars name =
     (if name = ''GLINE_DATABASE_URL'' then ''postgres://localhost/gline''
      else if name = ''GLINE_BOOTSTRAP_TOKEN'' then ''bootstrap-token-for-tests''
      else if name = ''GLINE_API_KEY_PEPPER'' then ''a-pepper-of-24-characters''
      else if name = ''GLINE_ALLOWED_ORIGINS'' then ''http://localhost:5173, ''
      else if name = ''GLINE_SHUTDOWN_TIMEOUT'' then ''1m30s''
      else [])"

definition sample_server_config :: server_config where
  "sample_server_config = (base_config sample_vars)\<lparr>sf_shutdown_timeout := 90 * second\<rparr>"

lemma sample_configured: "from_env (\<lambda>_ _ _. 0) sample_vars = Inr sample_server_config" "good_origins sample_server_config"
  by code_simp+


end
