(* ===== verification/Agent_Run.thy ===== *)
theory Agent_Run
  imports Agent_Control
begin

text \<open>
  \<open>Run\<close> of the agent with a spool (\<open>internal/agent/reliable/agent.go\<close>): the goroutines of the dispatcher, the heartbeat, the
  operations server and the pipelines, the end that \<open>Run\<close> waits for, and its shutdown. A step is one thing that one of
  them does to what they share; what a pipeline does between its start and its end is in \<open>Agent_Pipeline\<close>.
\<close>

section \<open>State\<close>

text \<open>The defaults of \<open>AgentOptions\<close>.\<close>

record agent_options =
  ao_batch_size :: int
  ao_flush_interval :: duration
  ao_heartbeat_interval :: duration

definition run_defaults :: "agent_options \<Rightarrow> agent_options" where
  "run_defaults o1 =
     (let o2 = (if ao_batch_size o1 \<le> 0 then o1\<lparr>ao_batch_size := 100\<rparr> else o1);
          o3 = (if ao_flush_interval o2 \<le> 0 then o2\<lparr>ao_flush_interval := 5 * second\<rparr> else o2)
      in if ao_heartbeat_interval o3 \<le> 0 then o3\<lparr>ao_heartbeat_interval := 30 * second\<rparr> else o3)"

datatype process = Unstarted | Working | Stopped | FailedWith "string option"

datatype server_end = ServerClosed | ServeFails

datatype operations_server = NoServer | Serving | Served server_end

datatype run_failure = ContextDone | DispatcherEnded dispatch_error | OperationsFail | ShutdownFails

datatype run_phase = Selecting | Stopping "run_failure list" | Returned "run_failure list"

text \<open>\<open>su_seen\<close>: the end of the operations server was received; \<open>su_shut\<close>: \<open>Shutdown\<close> was called.\<close>

record supervisor =
  su_parent_done :: bool
  su_cancelled :: bool
  su_dispatcher :: "dispatch_error option"
  su_operations :: operations_server
  su_seen :: bool
  su_shut :: bool
  su_heartbeat :: bool
  su_pipelines :: "string \<Rightarrow> process"
  su_state :: pipeline_state
  su_phase :: run_phase
  su_spool_closed :: bool

definition supervisor_start :: "bool \<Rightarrow> bool \<Rightarrow> pipeline_state \<Rightarrow> supervisor" where
  "supervisor_start server heart st =
     \<lparr>su_parent_done = False, su_cancelled = False, su_dispatcher = None,
      su_operations = (if server then Serving else NoServer), su_seen = False, su_shut = False, su_heartbeat = heart,
      su_pipelines = (\<lambda>_. Unstarted), su_state = st, su_phase = Selecting, su_spool_closed = False\<rparr>"

section \<open>Steps\<close>

text \<open>What \<open>select\<close> takes: the end of the context, of the dispatcher or of the server; then the others are cancelled.\<close>

definition stopping :: "run_failure list \<Rightarrow> supervisor \<Rightarrow> supervisor" where
  "stopping causes s = s\<lparr>su_phase := Stopping causes, su_cancelled := True\<rparr>"

text \<open>\<open>Shutdown\<close> of the server: the errors that it adds to the cause.\<close>

definition shutdown_server :: "bool \<Rightarrow> run_failure list \<Rightarrow> supervisor \<Rightarrow> supervisor" where
  "shutdown_server fails causes s =
     (let ended = (case su_operations s of Serving \<Rightarrow> Served ServerClosed | x \<Rightarrow> x);
          served = (if \<not> su_seen s \<and> ended = Served ServeFails then [OperationsFail] else []);
          failed = (if fails then [ShutdownFails] else [])
      in s\<lparr>su_operations := ended, su_shut := True, su_phase := Stopping (causes @ served @ failed)\<rparr>)"

definition all_ended :: "string list \<Rightarrow> supervisor \<Rightarrow> bool" where
  "all_ended ids s \<longleftrightarrow>
     list_all (\<lambda>i. su_pipelines s i \<noteq> Unstarted \<and> su_pipelines s i \<noteq> Working) ids \<and> su_dispatcher s \<noteq> None \<and>
     \<not> su_heartbeat s \<and> su_operations s \<noteq> Serving"

inductive goroutine_step :: "string list \<Rightarrow> supervisor \<Rightarrow> supervisor \<Rightarrow> bool" for ids where
  pipeline_starts: "i \<in> set ids \<Longrightarrow> su_pipelines s i = Unstarted \<Longrightarrow>
    goroutine_step ids s (s\<lparr>su_pipelines := (su_pipelines s)(i := Working), su_state := start_pipeline i (su_state s)\<rparr>)"
| pipeline_fails: "i \<in> set ids \<Longrightarrow> su_pipelines s i = Working \<Longrightarrow>
    goroutine_step ids s (s\<lparr>su_pipelines := (su_pipelines s)(i := FailedWith m), su_state := fail_pipeline i m (su_state s)\<rparr>)"
| pipeline_stops: "i \<in> set ids \<Longrightarrow> su_pipelines s i = Working \<Longrightarrow> su_cancelled s \<Longrightarrow>
    goroutine_step ids s (s\<lparr>su_pipelines := (su_pipelines s)(i := Stopped), su_state := stop_pipeline i (su_state s)\<rparr>)"
| dispatcher_ends: "su_dispatcher s = None \<Longrightarrow> (e = DispatchCtx \<Longrightarrow> su_cancelled s) \<Longrightarrow>
    goroutine_step ids s (s\<lparr>su_dispatcher := Some e\<rparr>)"
| server_fails: "su_operations s = Serving \<Longrightarrow> goroutine_step ids s (s\<lparr>su_operations := Served ServeFails\<rparr>)"
| heartbeat_ends: "su_heartbeat s \<Longrightarrow> su_cancelled s \<Longrightarrow> goroutine_step ids s (s\<lparr>su_heartbeat := False\<rparr>)"
| select_context: "su_phase s = Selecting \<Longrightarrow> su_parent_done s \<Longrightarrow> goroutine_step ids s (stopping [ContextDone] s)"
| select_dispatcher: "su_phase s = Selecting \<Longrightarrow> su_dispatcher s = Some e \<Longrightarrow>
    goroutine_step ids s (stopping [DispatcherEnded e] s)"
| select_server: "su_phase s = Selecting \<Longrightarrow> su_operations s = Served x \<Longrightarrow>
    goroutine_step ids s (stopping (if x = ServeFails then [OperationsFail] else []) (s\<lparr>su_seen := True\<rparr>))"
| shuts_down: "su_phase s = Stopping causes \<Longrightarrow> su_operations s \<noteq> NoServer \<Longrightarrow> \<not> su_shut s \<Longrightarrow>
    goroutine_step ids s (shutdown_server fails causes s)"
| returns: "su_phase s = Stopping causes \<Longrightarrow> su_operations s = NoServer \<or> su_shut s \<Longrightarrow> all_ended ids s \<Longrightarrow>
    goroutine_step ids s (s\<lparr>su_phase := Returned causes, su_spool_closed := True\<rparr>)"

text \<open>Besides these, a heartbeat may arrive, and the caller may cancel.\<close>

inductive run_reach :: "string list \<Rightarrow> pipeline_state \<Rightarrow> supervisor \<Rightarrow> bool" for ids st where
  run_start: "run_reach ids st (supervisor_start server heart st)"
| run_step: "run_reach ids st s \<Longrightarrow> goroutine_step ids s s' \<Longrightarrow> run_reach ids st s'"
| run_beat: "run_reach ids st s \<Longrightarrow> su_heartbeat s \<Longrightarrow> run_reach ids st (s\<lparr>su_state := heartbeat_turn h (su_state s)\<rparr>)"
| run_cancel: "run_reach ids st s \<Longrightarrow> run_reach ids st (s\<lparr>su_parent_done := True, su_cancelled := True\<rparr>)"

section \<open>What holds of a run\<close>

definition process_known :: "pipeline_state \<Rightarrow> string \<Rightarrow> process \<Rightarrow> bool" where
  "process_known st i p \<longleftrightarrow>
     (i |\<in>| ps_active st \<longleftrightarrow> p = Working) \<and>
     failure_of st i = (case p of FailedWith m \<Rightarrow> bounded_error m | _ \<Rightarrow> [])"

definition run_inv :: "string list \<Rightarrow> supervisor \<Rightarrow> bool" where
  "run_inv ids s \<longleftrightarrow>
     (su_cancelled s \<longrightarrow> su_parent_done s \<or> su_dispatcher s \<noteq> None \<or> (\<exists>x. su_operations s = Served x)) \<and>
     (case su_phase s of
        Selecting \<Rightarrow> (su_cancelled s \<longrightarrow> su_parent_done s) \<and> \<not> su_shut s \<and> \<not> su_spool_closed s
      | Stopping causes \<Rightarrow> su_cancelled s \<and> \<not> su_spool_closed s
      | Returned causes \<Rightarrow> su_cancelled s \<and> all_ended ids s \<and> su_spool_closed s) \<and>
     (su_shut s \<longrightarrow> su_operations s \<noteq> Serving) \<and>
     (\<forall>i. process_known (su_state s) i (su_pipelines s i))"

lemma process_moves:
  assumes "\<forall>j. process_known st j (f j)"
  shows "\<forall>j. process_known (start_pipeline i st) j ((f(i := Working)) j)"
    "\<forall>j. process_known (fail_pipeline i m st) j ((f(i := FailedWith m)) j)"
    "f i = Working \<Longrightarrow> \<forall>j. process_known (stop_pipeline i st) j ((f(i := Stopped)) j)"
  using assms
  by (auto simp: process_known_def start_pipeline_def fail_pipeline_def stop_pipeline_def signal_locked_def failure_of_def)

lemma snapshot_process: "process_known (snd (apply_snapshot snap st)) i p = process_known st i p"
  by (simp add: process_known_def apply_snapshot_def signal_locked_def failure_of_def split: sum.split process.split)

lemma heartbeat_process: "process_known (heartbeat_turn h st) i p = process_known st i p"
  by (simp add: heartbeat_turn_def snapshot_process split: sum.split)

lemma run_inv_step:
  assumes "goroutine_step ids s s'" "run_inv ids s"
  shows "run_inv ids s'"
  using assms(1)
proof cases
  case (pipeline_starts i)
  with assms(2) process_moves(1) [of "su_state s" "su_pipelines s" i] show ?thesis
    by (auto simp: run_inv_def all_ended_def list_all_iff split: run_phase.splits)
next
  case (pipeline_fails i m)
  with assms(2) process_moves(2) [of "su_state s" "su_pipelines s" i m] show ?thesis
    by (auto simp: run_inv_def all_ended_def list_all_iff split: run_phase.splits)
next
  case (pipeline_stops i)
  with assms(2) process_moves(3) [of "su_state s" "su_pipelines s" i] show ?thesis
    by (auto simp: run_inv_def all_ended_def list_all_iff split: run_phase.splits)
next
  case (shuts_down causes fails)
  with assms(2) show ?thesis
    by (auto simp: run_inv_def shutdown_server_def Let_def split: operations_server.splits)
qed (use assms(2) in \<open>auto simp: run_inv_def all_ended_def stopping_def split: run_phase.splits\<close>)

lemma run_reach_inv:
  assumes "run_reach ids st s" "\<forall>i. process_known st i Unstarted"
  shows "run_inv ids s"
  using assms(1)
proof induction
  case (run_start server heart)
  with assms(2) show ?case by (simp add: run_inv_def supervisor_start_def)
next
  case (run_step s s')
  then show ?case by (blast intro: run_inv_step)
next
  case (run_beat s h)
  then show ?case by (simp add: run_inv_def heartbeat_process all_ended_def split: run_phase.splits)
next
  case (run_cancel s)
  then show ?case by (simp add: run_inv_def all_ended_def split: run_phase.splits)
qed

text \<open>How many steps of goroutines are left.\<close>

definition process_work :: "process \<Rightarrow> nat" where
  "process_work p = (case p of Unstarted \<Rightarrow> 2 | Working \<Rightarrow> 1 | _ \<Rightarrow> 0)"

definition run_work :: "string list \<Rightarrow> supervisor \<Rightarrow> nat" where
  "run_work ids s =
     sum_list (map (\<lambda>i. process_work (su_pipelines s i)) ids) + (if su_dispatcher s = None then 1 else 0) +
     (if su_operations s = Serving then 1 else 0) + (if su_heartbeat s then 1 else 0) + (if su_shut s then 0 else 1) +
     (case su_phase s of Selecting \<Rightarrow> 2 | Stopping _ \<Rightarrow> 1 | Returned _ \<Rightarrow> 0)"

lemma sum_work_less:
  assumes "i \<in> set ids" "process_work p < process_work (f i)"
  shows "sum_list (map (\<lambda>j. process_work ((f(i := p)) j)) ids) < sum_list (map (\<lambda>j. process_work (f j)) ids)"
  using assms(1)
proof (induction ids)
  case (Cons a ids)
  have "sum_list (map (\<lambda>j. process_work ((f(i := p)) j)) ids) \<le> sum_list (map (\<lambda>j. process_work (f j)) ids)"
    using assms(2) by (intro sum_list_mono) auto
  with Cons assms(2) show ?case by (cases "a = i") auto
qed simp

lemma goroutine_step_work:
  assumes "goroutine_step ids s s'"
  shows "run_work ids s' < run_work ids s"
  using assms
proof cases
  case (pipeline_starts i)
  with sum_work_less [of i ids Working "su_pipelines s"] show ?thesis by (simp add: run_work_def process_work_def)
next
  case (pipeline_fails i m)
  with sum_work_less [of i ids "FailedWith m" "su_pipelines s"] show ?thesis by (simp add: run_work_def process_work_def)
next
  case (pipeline_stops i)
  with sum_work_less [of i ids Stopped "su_pipelines s"] show ?thesis by (simp add: run_work_def process_work_def)
next
  case (shuts_down causes fails)
  then show ?thesis by (simp add: run_work_def shutdown_server_def Let_def split: operations_server.splits)
qed (simp_all add: run_work_def stopping_def)

text \<open>After the end was decided, a goroutine can always take a step until \<open>Run\<close> has returned.\<close>

lemma goroutine_progress:
  assumes "run_inv ids s" "su_cancelled s" "\<not> su_spool_closed s"
  shows "\<exists>s'. goroutine_step ids s s'"
proof (cases "su_phase s")
  case Selecting
  with assms goroutine_step.select_context show ?thesis by (fastforce simp: run_inv_def)
next
  case (Stopping causes)
  consider (shut) "su_operations s \<noteq> NoServer" "\<not> su_shut s"
    | (ended) "su_operations s = NoServer \<or> su_shut s" "all_ended ids s"
    | (pipeline) i where "i \<in> set ids" "su_pipelines s i = Unstarted \<or> su_pipelines s i = Working"
    | (dispatcher) "su_dispatcher s = None" | (heartbeat) "su_heartbeat s"
  proof -
    have "su_operations s \<noteq> Serving" if "su_operations s = NoServer \<or> su_shut s"
      using that assms(1) by (auto simp: run_inv_def)
    then show thesis using that unfolding all_ended_def list_all_iff by blast
  qed
  then show ?thesis
  proof cases
    case shut
    with Stopping show ?thesis by (blast intro: goroutine_step.shuts_down)
  next
    case ended
    with Stopping show ?thesis by (blast intro: goroutine_step.returns)
  next
    case pipeline
    with assms(2) show ?thesis by (blast intro: goroutine_step.pipeline_starts goroutine_step.pipeline_stops)
  next
    case dispatcher
    with assms(2) show ?thesis by (blast intro: goroutine_step.dispatcher_ends)
  next
    case heartbeat
    with assms(2) show ?thesis by (blast intro: goroutine_step.heartbeat_ends)
  qed
next
  case (Returned causes)
  with assms show ?thesis by (simp add: run_inv_def)
qed

lemma new_state_unstarted: "new_pipeline_state ps = Inr st \<Longrightarrow> process_known st i Unstarted"
proof -
  have "add_pipelines ps s = Inr st \<Longrightarrow> ps_active st = ps_active s \<and> ps_failures st = ps_failures s" for s
    by (induction ps s rule: add_pipelines.induct) (auto simp: Let_def split: if_splits)
  then show "new_pipeline_state ps = Inr st \<Longrightarrow> process_known st i Unstarted"
    by (auto simp: new_pipeline_state_def process_known_def empty_pipeline_state_def failure_of_def)
qed

text \<open>
  C24. \<open>Run\<close> stops cleanly, in every interleaving of its goroutines with the caller and the heartbeats. The spool is closed only
  after the dispatcher, the heartbeat, the server and all pipelines have ended, so none of them meets a closed spool. They
  are cancelled only when the caller cancels, the dispatcher ends or the operations server fails: a pipeline that fails stops
  no other, and is reported as an error with its message. Every step of a goroutine brings the end nearer, and after the
  cancellation there is one until \<open>Run\<close> has returned: the shutdown ends after at most \<open>run_work\<close> steps.
\<close>

theorem run_stops_cleanly:
  assumes "run_reach ids st s" "new_pipeline_state ps = Inr st"
  shows "(su_spool_closed s \<longrightarrow> all_ended ids s) \<and>
    (su_cancelled s \<longrightarrow> su_parent_done s \<or> su_dispatcher s \<noteq> None \<or> (\<exists>x. su_operations s = Served x)) \<and>
    (\<forall>i m. su_pipelines s i = FailedWith m \<and> bounded_error m \<noteq> [] \<longrightarrow>
       report_locked (su_state s) i = (''error'', bounded_error m)) \<and>
    (\<forall>i. fst (report_locked (su_state s) i) = ''running'' \<longrightarrow> su_pipelines s i = Working) \<and>
    (\<forall>s'. goroutine_step ids s s' \<longrightarrow> run_work ids s' < run_work ids s) \<and>
    (su_cancelled s \<and> (\<nexists>s'. goroutine_step ids s s') \<longrightarrow> su_spool_closed s)"
proof -
  have inv: "run_inv ids s" using run_reach_inv [OF assms(1)] new_state_unstarted [OF assms(2)] by blast
  then have known: "\<And>i. process_known (su_state s) i (su_pipelines s i)" by (simp add: run_inv_def)
  have "report_locked (su_state s) i = (''error'', bounded_error m)" if "su_pipelines s i = FailedWith m" "bounded_error m \<noteq> []" for i m
    using known [of i] that by (simp add: process_known_def report_locked_def)
  moreover have "su_pipelines s i = Working" if "fst (report_locked (su_state s) i) = ''running''" for i
    using known [of i] that by (simp add: process_known_def report_running)
  moreover have "su_spool_closed s \<longrightarrow> all_ended ids s" using inv by (auto simp: run_inv_def split: run_phase.splits)
  moreover have "su_cancelled s \<longrightarrow> su_parent_done s \<or> su_dispatcher s \<noteq> None \<or> (\<exists>x. su_operations s = Served x)"
    using inv unfolding run_inv_def by blast
  ultimately show ?thesis using goroutine_step_work [of ids s] goroutine_progress [OF inv] by blast
qed

theorem run_stops_cleanly_witness:
  "\<exists>st s. new_pipeline_state [(''p'', 1)] = Inr st \<and> run_reach [''p''] st s \<and> su_pipelines s ''p'' = FailedWith (Some ''disk'') \<and>
     report_locked (su_state s) ''p'' = (''error'', ''disk'') \<and> \<not> su_cancelled s"
proof -
  have "trim_space ''p'' = ''p''" by code_simp
  then obtain st where st: "new_pipeline_state [(''p'', 1)] = Inr st"
    by (simp add: new_pipeline_state_def empty_pipeline_state_def Let_def)
  define s0 where "s0 = supervisor_start True True st"
  have 0: "run_reach [''p''] st s0" unfolding s0_def by (rule run_reach.run_start)
  define s1 where "s1 = s0\<lparr>su_pipelines := (su_pipelines s0)(''p'' := Working), su_state := start_pipeline ''p'' (su_state s0)\<rparr>"
  have 1: "run_reach [''p''] st s1"
    unfolding s1_def by (rule run_reach.run_step [OF 0 goroutine_step.pipeline_starts]) (simp_all add: s0_def supervisor_start_def)
  define s2 where "s2 = s1\<lparr>su_pipelines := (su_pipelines s1)(''p'' := FailedWith (Some ''disk'')),
    su_state := fail_pipeline ''p'' (Some ''disk'') (su_state s1)\<rparr>"
  have 2: "run_reach [''p''] st s2"
    unfolding s2_def by (rule run_reach.run_step [OF 1 goroutine_step.pipeline_fails]) (simp_all add: s1_def)
  have p: "su_pipelines s2 ''p'' = FailedWith (Some ''disk'')" "\<not> su_cancelled s2"
    by (simp_all add: s2_def s1_def s0_def supervisor_start_def)
  have "bounded_error (Some ''disk'') = ''disk''" by (simp add: bounded_error_def)
  with run_stops_cleanly [OF 2 st] p st 2 show ?thesis by (intro exI [of _ st] exI [of _ s2]) force
qed

end
