(* ===== verification/Agent_Config.thy ===== *)
theory Agent_Config
  imports Gline_Domain Go_Net Go_Struct
begin

text \<open>
  The configuration of the agent (\<open>internal/agent/config\<close>): its data and \<open>Validate\<close>, with \<open>net.SplitHostPort\<close>,
  \<open>IP.IsLoopback\<close> and \<open>strings.EqualFold\<close> as far as it uses them. Parameters of a part are YAML text that the
  constructors decode later.
\<close>

section \<open>Data\<close>

record agent_log_config =
  lg_level :: string
  lg_file :: string

record agent_config =
  ac_id :: string
  ac_version :: string
  ac_metrics_addr :: string
  ac_log :: agent_log_config

text \<open>The type and the parameters of a source, a parser or a destination.\<close>

record part_config =
  pa_type :: string
  pa_params :: bytes

record agent_pipeline_config =
  gp_id :: string
  gp_config_version :: int
  gp_service :: string
  gp_host :: string
  gp_source :: part_config
  gp_parser :: part_config

record sender_config =
  se_type :: string
  se_params :: bytes
  se_destination :: part_config

record gline_agent_config =
  gc_version :: int
  gc_agent :: agent_config
  gc_pipelines :: "agent_pipeline_config list"
  gc_sender :: sender_config

record tick_or_batch_params =
  tb_batch_size :: int
  tb_flush_interval :: duration

record reliable_retry_params =
  ry_base_delay :: duration
  ry_max_delay :: duration
  ry_jitter :: rat

record reliable_sender_params =
  rs_spool_path :: string
  rs_max_spool_bytes :: int
  rs_max_record_bytes :: int
  rs_batch_size :: int
  rs_flush_interval :: duration
  rs_heartbeat_interval :: duration
  rs_retry :: reliable_retry_params

record file_source_params =
  fp_path :: string
  fp_source_key :: string

record gline_destination_params =
  gd_url :: string
  gd_heartbeat_url :: string
  gd_token :: string

section \<open>Addresses\<close>

text \<open>\<open>net.SplitHostPort\<close>; \<open>None\<close> is its error.\<close>

definition before_last :: "char \<Rightarrow> string \<Rightarrow> string \<times> string" where
  "before_last c s = (let port = rev (takeWhile (\<lambda>x. x \<noteq> c) (rev s)) in (take (length s - length port - 1) s, port))"

definition split_host_port :: "string \<Rightarrow> (string \<times> string) option" where
  "split_host_port s =
     (if CHR '':'' \<notin> set s then None
      else (let (left, port) = before_last (CHR '':'') s in
        if s \<noteq> [] \<and> hd s = CHR ''['' then
          (let inner = takeWhile (\<lambda>x. x \<noteq> CHR '']'') (tl s) in
           if CHR '']'' \<notin> set s then None
           else if length inner + 2 \<noteq> length left then None
           else if CHR ''['' \<in> set (tl s) \<or> CHR '']'' \<in> set port then None
           else Some (inner, port))
        else if CHR '':'' \<in> set left then None
        else if CHR ''['' \<in> set s \<or> CHR '']'' \<in> set s then None
        else Some (left, port)))"

text \<open>An address has its 16-byte form here; \<open>To4\<close> finds the mapped ones.\<close>

definition is_loopback :: "bytes \<Rightarrow> bool" where
  "is_loopback ip \<longleftrightarrow>
     (let b = map of_char ip :: nat list in
      if take 12 b = replicate 10 0 @ [255, 255] \<and> length b = 16 then b ! 12 = 127 else b = replicate 15 0 @ [1])"

definition equal_fold :: "string \<Rightarrow> string \<Rightarrow> bool" where
  "equal_fold s t \<longleftrightarrow> fold_key s = fold_key t"

section \<open>Validation\<close>

definition config_valid_uuid :: "string \<Rightarrow> bool" where
  "config_valid_uuid value \<longleftrightarrow>
     length value = 36 \<and> value ! 8 = CHR ''-'' \<and> value ! 13 = CHR ''-'' \<and> value ! 18 = CHR ''-'' \<and> value ! 23 = CHR ''-'' \<and>
     list_all (\<lambda>(i, c). i \<in> {8, 13, 18, 23} \<or> is_hex c) (enumerate 0 value)"

datatype pipeline_problem =
    IdEmpty | IdRepeated string nat | ServiceEmpty | ConfigVersionNegative | SourceTypeEmpty | ParserTypeEmpty
  | IdNoUuid | HostEmpty | SourceNoFile

datatype config_error =
    UnsupportedVersion int | PipelinesEmpty | PipelinesExceed | PipelineProblem nat pipeline_problem
  | SenderTypeEmpty | DestinationTypeEmpty | AgentIdNoUuid | DestinationNoGline
  | MetricsNoReliable | MetricsNoHostPort | MetricsNoPort | MetricsNoLoopback

definition current_version :: int where "current_version = 1"

text \<open>The first loop: \<open>ids\<close> are the identifiers seen so far with their positions.\<close>

fun validate_pipelines :: "nat \<Rightarrow> (string \<times> nat) list \<Rightarrow> agent_pipeline_config list \<Rightarrow> (nat \<times> pipeline_problem) option" where
  "validate_pipelines i ids [] = None"
| "validate_pipelines i ids (p # ps) =
     (if blank (gp_id p) then Some (i, IdEmpty)
      else (case map_of ids (gp_id p) of
              Some prev \<Rightarrow> Some (i, IdRepeated (gp_id p) prev)
            | None \<Rightarrow>
                if blank (gp_service p) then Some (i, ServiceEmpty)
                else if gp_config_version p < 0 then Some (i, ConfigVersionNegative)
                else if blank (pa_type (gp_source p)) then Some (i, SourceTypeEmpty)
                else if blank (pa_type (gp_parser p)) then Some (i, ParserTypeEmpty)
                else validate_pipelines (i + 1) ((gp_id p, i) # ids) ps))"

text \<open>The loop of the reliable mode.\<close>

fun validate_reliable :: "nat \<Rightarrow> agent_pipeline_config list \<Rightarrow> (nat \<times> pipeline_problem) option" where
  "validate_reliable i [] = None"
| "validate_reliable i (p # ps) =
     (if \<not> config_valid_uuid (gp_id p) then Some (i, IdNoUuid)
      else if blank (gp_host p) then Some (i, HostEmpty)
      else if pa_type (gp_source p) \<noteq> ''file'' then Some (i, SourceNoFile)
      else validate_reliable (i + 1) ps)"

definition validate_metrics_addr :: "string \<Rightarrow> string \<Rightarrow> config_error option" where
  "validate_metrics_addr sender address =
     (if address = [] then None
      else if sender \<noteq> ''reliable'' then Some MetricsNoReliable
      else (case split_host_port address of
              None \<Rightarrow> Some MetricsNoHostPort
            | Some (host, port) \<Rightarrow>
                if blank host \<or> blank port then Some MetricsNoHostPort
                else if (case parse_int64 port of None \<Rightarrow> True | Some n \<Rightarrow> n < 1 \<or> 65535 < n) then Some MetricsNoPort
                else if \<not> equal_fold host ''localhost'' \<and> (parse_ip host = [] \<or> \<not> is_loopback (parse_ip host))
                  then Some MetricsNoLoopback
                else None))"

definition validate_config :: "gline_agent_config \<Rightarrow> config_error option" where
  "validate_config cfg =
     (let sender = gc_sender cfg; ps = gc_pipelines cfg in
      if gc_version cfg \<noteq> current_version then Some (UnsupportedVersion (gc_version cfg))
      else if ps = [] then Some PipelinesEmpty
      else if 128 < length ps then Some PipelinesExceed
      else (case validate_pipelines 0 [] ps of
              Some (i, e) \<Rightarrow> Some (PipelineProblem i e)
            | None \<Rightarrow>
                if blank (se_type sender) then Some SenderTypeEmpty
                else if blank (pa_type (se_destination sender)) then Some DestinationTypeEmpty
                else (case (if se_type sender \<noteq> ''reliable'' then None
                            else if \<not> config_valid_uuid (ac_id (gc_agent cfg)) then Some AgentIdNoUuid
                            else if pa_type (se_destination sender) \<noteq> ''gline'' then Some DestinationNoGline
                            else map_option (\<lambda>(i, e). PipelineProblem i e) (validate_reliable 0 ps)) of
                        Some e \<Rightarrow> Some e
                      | None \<Rightarrow> validate_metrics_addr (se_type sender) (trim_space (ac_metrics_addr (gc_agent cfg))))))"

section \<open>What a valid configuration has\<close>

text \<open>The two checks of an identifier, of the agent and of the server, are the same.\<close>

lemma uuid_char_dash: "uuid_char i c = (if i \<in> {8, 13, 18, 23} then c = CHR ''-'' else is_hex c)"
  by (simp add: uuid_char_def)

lemma config_valid_uuid_same: "config_valid_uuid v = valid_uuid v"
proof -
  have "list_all (\<lambda>(i, c). i \<in> A \<or> is_hex c) (enumerate 0 v) \<and> (\<forall>i \<in> A. v ! i = CHR ''-'') \<longleftrightarrow>
      list_all (\<lambda>(i, c). if i \<in> A then c = CHR ''-'' else is_hex c) (enumerate 0 v)"
    if "length v = 36" "\<forall>i \<in> A. i < 36" for A
    using that by (auto simp: list_all_length nth_enumerate_eq)
  note dashes = this [of "{8, 13, 18, 23}"]
  have "(\<forall>i \<in> {8, 13, 18, 23 :: nat}. v ! i = CHR ''-'') \<longleftrightarrow>
      v ! 8 = CHR ''-'' \<and> v ! 13 = CHR ''-'' \<and> v ! 18 = CHR ''-'' \<and> v ! 23 = CHR ''-''" by simp
  moreover have "\<forall>i \<in> {8, 13, 18, 23 :: nat}. i < 36" by simp
  ultimately show ?thesis
    using dashes unfolding config_valid_uuid_def valid_uuid_def uuid_char_dash by blast
qed

lemma valid_uuid_visible: "valid_uuid u \<Longrightarrow> list_all visible u"
  by (auto simp: valid_uuid_def uuid_char_def is_hex_def is_digit_def visible_def list_all_length nth_enumerate_eq split: if_splits)

lemma valid_uuid_trim: "valid_uuid u \<Longrightarrow> trim_space u = u"
  by (rule trim_space_visible [OF valid_uuid_visible])

lemma validate_pipelines_None:
  "validate_pipelines i ids ps = None \<Longrightarrow>
     distinct (map gp_id ps) \<and> (\<forall>p \<in> set ps. gp_id p \<notin> fst ` set ids \<and> 0 \<le> gp_config_version p)"
proof (induction i ids ps rule: validate_pipelines.induct)
  case (2 i ids p ps)
  then have n: "map_of ids (gp_id p) = None" "0 \<le> gp_config_version p"
    "validate_pipelines (i + 1) ((gp_id p, i) # ids) ps = None" by (auto split: if_splits option.splits)
  moreover have "distinct (map gp_id ps) \<and> (\<forall>q \<in> set ps. gp_id q \<notin> fst ` set ((gp_id p, i) # ids) \<and> 0 \<le> gp_config_version q)"
    using 2 n by (auto split: if_splits)
  ultimately show ?case by (auto simp: map_of_eq_None_iff)
qed simp

lemma validate_reliable_None:
  "validate_reliable i ps = None \<longleftrightarrow>
     (\<forall>p \<in> set ps. valid_uuid (gp_id p) \<and> \<not> blank (gp_host p) \<and> pa_type (gp_source p) = ''file'')"
  by (induction i ps rule: validate_reliable.induct) (auto simp: config_valid_uuid_same)

lemma validate_config_None:
  assumes "validate_config cfg = None"
  shows "gc_pipelines cfg \<noteq> []" "length (gc_pipelines cfg) \<le> 128" "distinct (map gp_id (gc_pipelines cfg))"
    "\<forall>p \<in> set (gc_pipelines cfg). 0 \<le> gp_config_version p"
    "se_type (gc_sender cfg) = ''reliable'' \<Longrightarrow>
      valid_uuid (ac_id (gc_agent cfg)) \<and> pa_type (se_destination (gc_sender cfg)) = ''gline'' \<and>
      (\<forall>p \<in> set (gc_pipelines cfg). valid_uuid (gp_id p) \<and> pa_type (gp_source p) = ''file'')"
proof -
  have v: "validate_pipelines 0 [] (gc_pipelines cfg) = None"
    using assms by (auto simp: validate_config_def Let_def split: if_splits option.splits)
  show "gc_pipelines cfg \<noteq> []" "length (gc_pipelines cfg) \<le> 128"
    using assms by (auto simp: validate_config_def Let_def split: if_splits)
  show "distinct (map gp_id (gc_pipelines cfg))" "\<forall>p \<in> set (gc_pipelines cfg). 0 \<le> gp_config_version p"
    using validate_pipelines_None [OF v] by blast+
  assume "se_type (gc_sender cfg) = ''reliable''"
  with assms v show "valid_uuid (ac_id (gc_agent cfg)) \<and> pa_type (se_destination (gc_sender cfg)) = ''gline'' \<and>
      (\<forall>p \<in> set (gc_pipelines cfg). valid_uuid (gp_id p) \<and> pa_type (gp_source p) = ''file'')"
    by (auto simp: validate_config_def Let_def config_valid_uuid_same validate_reliable_None split: if_splits option.splits)
qed

end
