(* ===== verification/Agent_Build.thy ===== *)
theory Agent_Build
  imports Agent_Config Agent_Pipeline Agent_Simple
begin

text \<open>
  The construction of an agent from its configuration (\<open>internal/agent/build\<close>, with \<open>NewHTTPTransport\<close> of
  \<open>reliable/transport.go\<close>). What is open is kept as state: the log file, the spool, the sources. The YAML decoder
  and \<open>url.Parse\<close> are arguments, and so is what the system calls of a pipeline come to.
\<close>

section \<open>What the constructors are given\<close>

record open_call =
  oc_files :: file_system
  oc_source :: source_io
  oc_append :: append_io
  oc_now :: time

text \<open>\<open>be_parse_url\<close>: the scheme, the host, the path, and the text of the URL as a function of its path.\<close>

record build_env =
  be_yaml_reliable :: "bytes \<Rightarrow> reliable_sender_params option"
  be_yaml_tick :: "bytes \<Rightarrow> tick_or_batch_params option"
  be_yaml_file :: "bytes \<Rightarrow> file_source_params option"
  be_yaml_gline :: "bytes \<Rightarrow> gline_destination_params option"
  be_parse_url :: "string \<Rightarrow> (string \<times> string \<times> string \<times> (string \<Rightarrow> string)) option"
  be_log_fails :: bool
  be_truncates :: bool
  be_calls :: "nat \<Rightarrow> open_call"

datatype build_error =
    BuildConfig config_error | LogFileFails | DecodeSender | SpoolPathEmpty | SpoolOpen spool_error
  | DecodeSource string | OpenSource string source_error | PersistCheckpoint string spool_error
  | UnknownParser string | UnknownSource string | UnknownSender string | UnknownDestination string
  | OpenFile | DecodeDestination | TransportInvalid string | HeartbeatUnderivable | HeartbeatInvalid string
  | DispatcherInvalid dispatch_error | StateInvalid control_error

section \<open>The agent with a spool\<close>

record reliable_pipeline =
  lp_id :: string
  lp_config_version :: int
  lp_source :: durable_source
  lp_service :: string
  lp_host :: string

record http_transport =
  ht_endpoint :: string
  ht_token :: string

definition new_http_transport :: "string \<Rightarrow> string \<Rightarrow> string + http_transport" where
  "new_http_transport endpoint token =
     (if blank endpoint then Inl ''reliable transport endpoint is empty''
      else if blank token then Inl ''reliable transport token is empty''
      else Inr \<lparr>ht_endpoint = endpoint, ht_token = token\<rparr>)"

record reliable_agent =
  rl_agent_id :: string
  rl_pipelines :: "reliable_pipeline list"
  rl_transport :: http_transport
  rl_heartbeat :: http_heartbeat
  rl_dispatcher :: dispatcher_options
  rl_state :: pipeline_state
  rl_operations :: "string option"
  rl_batch_size :: int
  rl_flush_interval :: duration
  rl_heartbeat_interval :: duration

text \<open>The spool and the sources that are open.\<close>

type_synonym opened_parts = "wal \<times> durable_source multiset"

definition close_on_error :: "build_error \<Rightarrow> reliable_pipeline list \<Rightarrow> opened_parts \<Rightarrow> (build_error + 'a) \<times> opened_parts" where
  "close_on_error cause ps st = (Inl cause, (wal_close (fst st), snd st - mset (map lp_source ps)))"

definition source_key_of :: "agent_pipeline_config \<Rightarrow> file_source_params \<Rightarrow> string" where
  "source_key_of p fp = (if blank (fp_source_key fp) then gp_id p else trim_space (fp_source_key fp))"

text \<open>The loop over the pipelines; a checkpoint is persisted when the source does not start at the durable one.\<close>

fun build_pipelines ::
  "build_env \<Rightarrow> nat \<Rightarrow> agent_pipeline_config list \<Rightarrow> reliable_pipeline list \<Rightarrow> opened_parts \<Rightarrow>
     (build_error + reliable_pipeline list) \<times> opened_parts"
where
  "build_pipelines env i [] built_ones st = (Inr built_ones, st)"
| "build_pipelines env i (p # ps) built_ones (w, open_sources) =
     (case be_yaml_file env (pa_params (gp_source p)) of
        None \<Rightarrow> close_on_error (DecodeSource (gp_id p)) built_ones (w, open_sources)
      | Some fp \<Rightarrow>
          (let c = be_calls env i; key = source_key_of p fp; current = wal_checkpoint key w in
           case new_source (oc_files c) (oc_source c) (fp_path fp) key current 0 (oc_now c) of
             Inl e \<Rightarrow> close_on_error (OpenSource (gp_id p) e) built_ones (w, open_sources)
           | Inr s \<Rightarrow>
               (case (case initial_op (oc_append c) current (initial_checkpoint s) of
                        None \<Rightarrow> (w, None) | Some op \<Rightarrow> exec op w) of
                  (w', Some e) \<Rightarrow>
                    close_on_error (PersistCheckpoint (gp_id p) e) built_ones (w', add_mset s open_sources - {#s#})
                | (w', None) \<Rightarrow>
                    if pa_type (gp_parser p) \<noteq> ''string_line''
                      then close_on_error (UnknownParser (pa_type (gp_parser p))) built_ones (w', add_mset s open_sources - {#s#})
                    else build_pipelines env (i + 1) ps
                      (built_ones @ [\<lparr>lp_id = gp_id p,
                                      lp_config_version = (if gp_config_version p = 0 then 1 else gp_config_version p),
                                      lp_source = s, lp_service = gp_service p, lp_host = gp_host p\<rparr>])
                      (w', add_mset s open_sources))))"

text \<open>\<open>url.PathEscape\<close>.\<close>

definition path_escape :: "string \<Rightarrow> string" where
  "path_escape s =
     concat (map (\<lambda>c. let b = byte_val c in
       if is_digit c \<or> (65 \<le> b \<and> b \<le> 90) \<or> (97 \<le> b \<and> b \<le> 122) \<or> c \<in> set ''-_.~$&+=:@'' then [c]
       else [CHR ''%'', (''0123456789ABCDEF'' ! (b div 16)), (''0123456789ABCDEF'' ! (b mod 16))]) s)"

text \<open>The path of the heartbeat is that of the batches with \<open>/batches\<close> replaced.\<close>

definition trim_slashes :: "string \<Rightarrow> string" where
  "trim_slashes s = rev (dropWhile (\<lambda>c. c = CHR ''/'') (rev s))"

definition heartbeat_url_of :: "build_env \<Rightarrow> gline_destination_params \<Rightarrow> string \<Rightarrow> string option" where
  "heartbeat_url_of env dp agent =
     (if \<not> blank (gd_heartbeat_url dp) then Some (trim_space (gd_heartbeat_url dp))
      else (case be_parse_url env (gd_url dp) of
              None \<Rightarrow> None
            | Some (scheme, host, path, text) \<Rightarrow>
                if scheme = [] \<or> host = [] \<or> \<not> suffix ''/batches'' (trim_slashes path) then None
                else Some (text (take (length (trim_slashes path) - 8) (trim_slashes path) @
                                 ''/agents/'' @ path_escape agent @ ''/heartbeat''))))"

definition url_text :: "build_env \<Rightarrow> string \<Rightarrow> (string \<times> string \<times> string) option" where
  "url_text env s = map_option (\<lambda>(scheme, host, path, text). (scheme, host, text path)) (be_parse_url env s)"

text \<open>After the pipelines: the transport, the heartbeat, the dispatcher and the state.\<close>

definition finish_reliable ::
  "build_env \<Rightarrow> gline_agent_config \<Rightarrow> reliable_sender_params \<Rightarrow> reliable_pipeline list \<Rightarrow> build_error + reliable_agent" where
  "finish_reliable env cfg sp ps =
     (case be_yaml_gline env (pa_params (se_destination (gc_sender cfg))) of
        None \<Rightarrow> Inl DecodeDestination
      | Some dp \<Rightarrow>
          (case new_http_transport (gd_url dp) (gd_token dp) of
             Inl e \<Rightarrow> Inl (TransportInvalid e)
           | Inr transport \<Rightarrow>
               (case heartbeat_url_of env dp (ac_id (gc_agent cfg)) of
                  None \<Rightarrow> Inl HeartbeatUnderivable
                | Some url \<Rightarrow>
                    (case new_http_heartbeat (url_text env) url (gd_token dp) (ac_version (gc_agent cfg)) of
                       Inl e \<Rightarrow> Inl (HeartbeatInvalid e)
                     | Inr hb \<Rightarrow>
                         (case new_dispatcher \<lparr>do_base_delay = ry_base_delay (rs_retry sp), do_max_delay = ry_max_delay (rs_retry sp),
                                 do_jitter = ry_jitter (rs_retry sp)\<rparr> of
                            Inl e \<Rightarrow> Inl (DispatcherInvalid e)
                          | Inr disp \<Rightarrow>
                              (case new_pipeline_state (map (\<lambda>p. (lp_id p, lp_config_version p)) ps) of
                                 Inl e \<Rightarrow> Inl (StateInvalid e)
                               | Inr st \<Rightarrow>
                                   Inr \<lparr>rl_agent_id = ac_id (gc_agent cfg), rl_pipelines = ps, rl_transport = transport,
                                        rl_heartbeat = hb, rl_dispatcher = disp, rl_state = st,
                                        rl_operations = (if blank (ac_metrics_addr (gc_agent cfg)) then None
                                                         else Some (trim_space (ac_metrics_addr (gc_agent cfg)))),
                                        rl_batch_size = rs_batch_size sp, rl_flush_interval = rs_flush_interval sp,
                                        rl_heartbeat_interval = rs_heartbeat_interval sp\<rparr>))))))"

definition spool_config_of :: "reliable_sender_params \<Rightarrow> spool_config" where
  "spool_config_of sp =
     \<lparr>sc_path = rs_spool_path sp, sc_max_bytes = rs_max_spool_bytes sp, sc_max_record_bytes = rs_max_record_bytes sp\<rparr>"

definition build_reliable ::
  "build_env \<Rightarrow> gline_agent_config \<Rightarrow> spool_dir \<Rightarrow> (build_error + reliable_agent) \<times> opened_parts option" where
  "build_reliable env cfg d =
     (case be_yaml_reliable env (se_params (gc_sender cfg)) of
        None \<Rightarrow> (Inl DecodeSender, None)
      | Some sp \<Rightarrow>
          if blank (rs_spool_path sp) then (Inl SpoolPathEmpty, None)
          else (case open_wal (be_truncates env) (spool_config_of sp) d of
                  Inl e \<Rightarrow> (Inl (SpoolOpen e), None)
                | Inr w \<Rightarrow>
                    (case build_pipelines env 0 (gc_pipelines cfg) [] (w, {#}) of
                       (Inl e, st) \<Rightarrow> (Inl e, Some st)
                     | (Inr ps, st) \<Rightarrow>
                         (case finish_reliable env cfg sp ps of
                            Inl e \<Rightarrow> map_prod id Some (close_on_error e ps st)
                          | Inr a \<Rightarrow> (Inr a, Some st)))))"

section \<open>The agent without a spool\<close>

record simple_pipeline =
  si_id :: string
  si_service :: string
  si_host :: string
  si_source :: file_source

datatype simple_destination = TerminalDest | GlineDest string string

definition build_destination :: "build_env \<Rightarrow> part_config \<Rightarrow> build_error + simple_destination" where
  "build_destination env c =
     (if pa_type c = ''terminal'' then Inr TerminalDest
      else if pa_type c = ''gline'' then
        (case be_yaml_gline env (pa_params c) of
           None \<Rightarrow> Inl DecodeDestination
         | Some dp \<Rightarrow> Inr (GlineDest (gd_url dp) (gd_token dp)))
      else Inl (UnknownDestination (pa_type c)))"

definition build_sender :: "build_env \<Rightarrow> sender_config \<Rightarrow> build_error + (simple_destination \<times> sender_options)" where
  "build_sender env c =
     (if se_type c \<noteq> ''tick_or_batch'' then Inl (UnknownSender (se_type c))
      else (case be_yaml_tick env (se_params c) of
              None \<Rightarrow> Inl DecodeSender
            | Some tp \<Rightarrow>
                (case build_destination env (se_destination c) of
                   Inl e \<Rightarrow> Inl e
                 | Inr dest \<Rightarrow>
                     Inr (dest, sender_defaults \<lparr>so_batch_size = tb_batch_size tp, so_flush_interval = tb_flush_interval tp\<rparr>))))"

text \<open>\<open>NewFileSource\<close> and the sources that it leaves open; an open that is followed by a failed seek is one of them.\<close>

definition build_source :: "build_env \<Rightarrow> nat \<Rightarrow> part_config \<Rightarrow> nat \<Rightarrow> (build_error + file_source) \<times> nat" where
  "build_source env i c opens =
     (if pa_type c \<noteq> ''file'' then (Inl (UnknownSource (pa_type c)), opens)
      else (case be_yaml_file env (pa_params c) of
              None \<Rightarrow> (Inl (DecodeSource []), opens)
            | Some fp \<Rightarrow>
                (let call = be_calls env i in
                 if io_open (oc_source call) then (Inl OpenFile, opens)
                 else (case fs_path (oc_files call) of
                         None \<Rightarrow> (Inl OpenFile, opens)
                       | Some f \<Rightarrow>
                           if io_seek (oc_source call) then (Inl OpenFile, opens + 1)
                           else (Inr (new_file_source (fs_data (oc_files call) f)), opens + 1)))))"

fun build_simple_pipelines ::
  "build_env \<Rightarrow> nat \<Rightarrow> agent_pipeline_config list \<Rightarrow> simple_pipeline list \<Rightarrow> nat \<Rightarrow> (build_error + simple_pipeline list) \<times> nat"
where
  "build_simple_pipelines env i [] built_ones opens = (Inr built_ones, opens)"
| "build_simple_pipelines env i (p # ps) built_ones opens =
     (case build_source env i (gp_source p) opens of
        (Inl e, n) \<Rightarrow> (Inl e, n)
      | (Inr s, n) \<Rightarrow>
          if pa_type (gp_parser p) \<noteq> ''string_line'' then (Inl (UnknownParser (pa_type (gp_parser p))), n)
          else build_simple_pipelines env (i + 1) ps
            (built_ones @ [\<lparr>si_id = gp_id p, si_service = gp_service p, si_host = gp_host p, si_source = s\<rparr>]) n)"

section \<open>The agent\<close>

datatype agent_runtime =
    ReliableRuntime reliable_agent
  | SimpleRuntime "simple_pipeline list" simple_destination sender_options

text \<open>What is open at the end: the log file, the spool with the sources of its pipelines, and other sources.\<close>

record build_world =
  bw_log :: bool
  bw_spool :: "opened_parts option"
  bw_files :: nat

definition build_agent :: "build_env \<Rightarrow> gline_agent_config \<Rightarrow> spool_dir \<Rightarrow> (build_error + agent_runtime) \<times> build_world" where
  "build_agent env cfg d =
     (case validate_config cfg of
        Some e \<Rightarrow> (Inl (BuildConfig e), \<lparr>bw_log = False, bw_spool = None, bw_files = 0\<rparr>)
      | None \<Rightarrow>
          if be_log_fails env then (Inl LogFileFails, \<lparr>bw_log = False, bw_spool = None, bw_files = 0\<rparr>)
          else if se_type (gc_sender cfg) = ''reliable'' then
            (case build_reliable env cfg d of
               (Inl e, parts) \<Rightarrow> (Inl e, \<lparr>bw_log = False, bw_spool = parts, bw_files = 0\<rparr>)
             | (Inr a, parts) \<Rightarrow> (Inr (ReliableRuntime a), \<lparr>bw_log = True, bw_spool = parts, bw_files = 0\<rparr>))
          else
            (case build_simple_pipelines env 0 (gc_pipelines cfg) [] 0 of
               (Inl e, n) \<Rightarrow> (Inl e, \<lparr>bw_log = False, bw_spool = None, bw_files = n\<rparr>)
             | (Inr ps, n) \<Rightarrow>
                 (case build_sender env (gc_sender cfg) of
                    Inl e \<Rightarrow> (Inl e, \<lparr>bw_log = False, bw_spool = None, bw_files = n\<rparr>)
                  | Inr (dest, opts) \<Rightarrow> (Inr (SimpleRuntime ps dest opts), \<lparr>bw_log = True, bw_spool = None, bw_files = n\<rparr>))))"

text \<open>\<open>zerolog\<close> levels of the log; an unknown one is the debug level.\<close>

datatype log_level = DebugLevel | InfoLevel | WarnLevel | ErrorLevel | FatalLevel | PanicLevel

definition log_level_of :: "string \<Rightarrow> log_level" where
  "log_level_of s =
     (if s = ''debug'' then DebugLevel else if s = ''info'' then InfoLevel else if s = ''warn'' then WarnLevel
      else if s = ''error'' then ErrorLevel else if s = ''fatal'' then FatalLevel else if s = ''panic'' then PanicLevel
      else DebugLevel)"

section \<open>What is built\<close>

lemma add_pipelines_Inr:
  assumes "\<forall>(i, v) \<in> set xs. trim_space i = i \<and> i \<noteq> [] \<and> 0 < v" "distinct (map fst xs)"
    "\<forall>i \<in> fst ` set xs. fmlookup (ps_local_version s) i = None"
  shows "\<exists>m. add_pipelines xs s = Inr (s\<lparr>ps_order := ps_order s @ map fst xs, ps_local_version := m\<rparr>) \<and>
    (\<forall>i. fmlookup m i = (case map_of xs i of Some v \<Rightarrow> Some v | None \<Rightarrow> fmlookup (ps_local_version s) i))"
  using assms
proof (induction xs arbitrary: s)
  case Nil
  then show ?case by (auto intro: exI [of _ "ps_local_version s"])
next
  case (Cons x xs)
  obtain i v where x: "x = (i, v)" by fastforce
  let ?s = "s\<lparr>ps_order := ps_order s @ [i], ps_local_version := fmupd i v (ps_local_version s)\<rparr>"
  obtain m where m: "add_pipelines xs ?s = Inr (?s\<lparr>ps_order := ps_order ?s @ map fst xs, ps_local_version := m\<rparr>)"
    "\<forall>j. fmlookup m j = (case map_of xs j of Some v \<Rightarrow> Some v | None \<Rightarrow> fmlookup (ps_local_version ?s) j)"
  proof -
    have "\<forall>(i, v) \<in> set xs. trim_space i = i \<and> i \<noteq> [] \<and> 0 < v" "distinct (map fst xs)" using Cons.prems by simp_all
    moreover have "\<forall>j \<in> fst ` set xs. fmlookup (ps_local_version ?s) j = None" using Cons.prems x by auto
    ultimately show thesis using Cons.IH [of ?s] that by blast
  qed
  have "add_pipelines (x # xs) s = Inr (s\<lparr>ps_order := ps_order s @ map fst (x # xs), ps_local_version := m\<rparr>)"
    using m(1) Cons.prems x by (simp add: Let_def)
  moreover have "map_of xs i = None" using Cons.prems(2) x by (simp add: map_of_eq_None_iff)
  moreover have "fmlookup m j = (case map_of (x # xs) j of Some v \<Rightarrow> Some v | None \<Rightarrow> fmlookup (ps_local_version s) j)" for j
    using m(2) x \<open>map_of xs i = None\<close> by (auto split: option.split)
  ultimately show ?case by blast
qed

text \<open>A source starts where the spool has it.\<close>

definition starts_durable :: "wal \<Rightarrow> reliable_pipeline \<Rightarrow> bool" where
  "starts_durable w p \<longleftrightarrow>
     (case wal_checkpoint (ds_key (lp_source p)) w of
        None \<Rightarrow> False
      | Some c \<Rightarrow> cp_file_identity c = ds_identity (lp_source p) \<and> cp_offset_bytes c = ds_read_offset (lp_source p))"

definition pipeline_key :: "reliable_pipeline \<Rightarrow> string" where
  "pipeline_key p = ds_key (lp_source p)"

lemma transition_marks:
  assumes "exec (DoTransition x io expected nxt) w = (w', None)"
  shows "w_closed w' = w_closed w"
    "wal_checkpoint key w' = (if key = cp_source_key nxt then Some nxt else wal_checkpoint key w)"
proof -
  obtain body w1 where a: "append_record io record_checkpoint body w = (w1, None)" and w': "w' = signal (set_checkpoint nxt w1)"
    using assms by (auto simp: dropped_def wal_transition_def split: if_splits option.splits prod.splits)
  from a obtain r where "w1 = set_file (wal_file w @ r) w" by (rule append_record_done)
  with w' show "w_closed w' = w_closed w"
    "wal_checkpoint key w' = (if key = cp_source_key nxt then Some nxt else wal_checkpoint key w)"
    by (simp_all add: signal_def set_checkpoint_def set_file_def wal_checkpoint_def)
qed

lemma new_source_key: "new_source fs sio path key cp poll now = Inr s \<Longrightarrow> ds_key s = key"
  by (auto simp: new_source_def Let_def split: if_splits option.splits prod.splits)

lemma initial_op_marks:
  assumes "new_source fs sio path key (wal_checkpoint key w) poll now = Inr s"
    "(case initial_op io (wal_checkpoint key w) (initial_checkpoint s) of None \<Rightarrow> (w, None) | Some op \<Rightarrow> exec op w) = (w', None)"
    "lp_source p = s"
  shows "w_closed w' = w_closed w" "starts_durable w' p" "k \<noteq> key \<Longrightarrow> wal_checkpoint k w' = wal_checkpoint k w"
proof -
  have key: "ds_key s = key" by (rule new_source_key [OF assms(1)])
  have c: "cp_source_key (initial_checkpoint s) = key" "cp_file_identity (initial_checkpoint s) = ds_identity s"
    "cp_offset_bytes (initial_checkpoint s) = ds_read_offset s" by (simp_all add: initial_checkpoint_def key)
  consider (same) c0 where "wal_checkpoint key w = Some c0" "cp_file_identity c0 = ds_identity s"
      "cp_offset_bytes c0 = ds_read_offset s" "w' = w"
    | (moved) expected where "exec (DoTransition False io expected (initial_checkpoint s)) w = (w', None)"
  proof (cases "wal_checkpoint key w")
    case None
    with assms(2) moved show ?thesis by (simp add: initial_op_def)
  next
    case (Some c0)
    with assms(2) c same moved show ?thesis by (auto simp: initial_op_def simp del: exec.simps split: if_splits)
  qed
  then have "w_closed w' = w_closed w \<and> starts_durable w' p \<and> (k \<noteq> key \<longrightarrow> wal_checkpoint k w' = wal_checkpoint k w)"
  proof cases
    case same
    then show ?thesis by (simp add: starts_durable_def assms(3) key)
  next
    case moved
    then show ?thesis using transition_marks [OF moved] c by (simp add: starts_durable_def assms(3) key)
  qed
  then show "w_closed w' = w_closed w" "starts_durable w' p" "k \<noteq> key \<Longrightarrow> wal_checkpoint k w' = wal_checkpoint k w" by simp_all
qed

lemma open_wal_open: "open_wal truncate_ok c d = Inr w \<Longrightarrow> \<not> w_closed w"
  by (auto simp: open_wal_def Let_def wal_recover_def empty_wal_def set_file_def dest!: recover_records_dir
      split: if_splits sum.splits prod.splits)

definition parts_built :: "opened_parts \<Rightarrow> reliable_pipeline list \<Rightarrow> bool" where
  "parts_built st ps \<longleftrightarrow>
     \<not> w_closed (fst st) \<and> snd st = mset (map lp_source ps) \<and>
     (distinct (map pipeline_key ps) \<longrightarrow> (\<forall>p \<in> set ps. starts_durable (fst st) p))"

definition parts_closed :: "opened_parts \<Rightarrow> bool" where
  "parts_closed st \<longleftrightarrow> w_closed (fst st) \<and> snd st = {#}"

lemma close_on_error_closes:
  "snd st = mset (map lp_source ps) \<Longrightarrow> \<exists>st'. close_on_error e ps st = (Inl e, st') \<and> parts_closed st'"
  by (auto simp: close_on_error_def parts_closed_def wal_close_def signal_def)

lemma built_version: "(if v = 0 then 1 else v) > 0 \<longleftrightarrow> 0 \<le> (v :: int)"
  by auto

lemma build_pipelines_result:
  assumes "build_pipelines env i cs ps st = (r, st')" "parts_built st ps"
  shows "case r of
      Inl e \<Rightarrow> parts_closed st' \<and> (\<forall>x. e \<noteq> StateInvalid x)
    | Inr ps' \<Rightarrow> parts_built st' ps' \<and>
        map (\<lambda>p. (lp_id p, lp_config_version p)) ps' = map (\<lambda>p. (lp_id p, lp_config_version p)) ps @
          map (\<lambda>c. (gp_id c, if gp_config_version c = 0 then 1 else gp_config_version c)) cs"
  using assms
proof (induction env i cs ps st rule: build_pipelines.induct)
  case (2 env i p cs ps w srcs)
  have srcs: "srcs = mset (map lp_source ps)" using "2.prems"(2) by (simp add: parts_built_def)
  have failed: ?case if "\<exists>e w1. close_on_error e ps (w1, srcs) = (r, st') \<and> (\<forall>x. e \<noteq> StateInvalid x)"
    using that srcs by (auto simp: close_on_error_def parts_closed_def wal_close_def signal_def)
  show ?case
  proof (cases "be_yaml_file env (pa_params (gp_source p))")
    case None
    with "2.prems"(1) show ?thesis by (intro failed) auto
  next
    case (Some fp)
    define c key where "c = be_calls env i" and "key = source_key_of p fp"
    show ?thesis
    proof (cases "new_source (oc_files c) (oc_source c) (fp_path fp) key (wal_checkpoint key w) 0 (oc_now c)")
      case (Inl e)
      with "2.prems"(1) Some show ?thesis by (intro failed) (auto simp: c_def key_def Let_def)
    next
      case (Inr s)
      obtain w1 e where op: "(case initial_op (oc_append c) (wal_checkpoint key w) (initial_checkpoint s) of
          None \<Rightarrow> (w, None) | Some op \<Rightarrow> exec op w) = (w1, e)" by fastforce
      define q where "q = \<lparr>lp_id = gp_id p, lp_config_version = (if gp_config_version p = 0 then 1 else gp_config_version p),
                          lp_source = s, lp_service = gp_service p, lp_host = gp_host p\<rparr>"
      note unfold = "2.prems"(1) Some Inr [unfolded c_def key_def] op [unfolded c_def key_def]
      show ?thesis
      proof (cases "e = None \<and> pa_type (gp_parser p) = ''string_line''")
        case False
        with unfold show ?thesis by (intro failed) (auto simp: Let_def split: option.splits if_splits)
      next
        case True
        then have op': "(case initial_op (oc_append c) (wal_checkpoint key w) (initial_checkpoint s) of
          None \<Rightarrow> (w, None) | Some op \<Rightarrow> exec op w) = (w1, None)" using op by simp
        have rest: "build_pipelines env (i + 1) cs (ps @ [q]) (w1, add_mset s srcs) = (r, st')"
          using unfold True by (simp add: Let_def q_def)
        have "lp_source q = s" "pipeline_key q = key" using new_source_key [OF Inr] by (simp_all add: q_def pipeline_key_def)
        with initial_op_marks [OF Inr op' this(1)] "2.prems"(2) have built: "parts_built (w1, add_mset s srcs) (ps @ [q])"
          by (auto simp: parts_built_def starts_durable_def pipeline_key_def image_iff)
        from "2.IH" [OF Some c_def key_def refl Inr op' [symmetric] refl _ rest [unfolded q_def] built [unfolded q_def]] True
        show ?thesis by (auto split: sum.splits)
      qed
    qed
  qed
qed auto

lemma finish_reliable_result:
  assumes "distinct (map lp_id ps)" "\<forall>p \<in> set ps. valid_uuid (lp_id p) \<and> 0 < lp_config_version p"
  shows "case finish_reliable env cfg sp ps of
      Inl e \<Rightarrow> \<forall>x. e \<noteq> StateInvalid x
    | Inr a \<Rightarrow> rl_pipelines a = ps \<and> ps_order (rl_state a) = map lp_id ps \<and>
        (\<forall>p \<in> set ps. wait_until_runnable (lp_id p) (rl_state a) = GateOpen)"
proof -
  let ?xs = "map (\<lambda>p. (lp_id p, lp_config_version p)) ps"
  have ids: "map fst ?xs = map lp_id ps" by simp
  have "\<forall>(i, v) \<in> set ?xs. trim_space i = i \<and> i \<noteq> [] \<and> 0 < v"
    using assms(2) by (auto simp: valid_uuid_trim valid_uuid_def)
  moreover have "distinct (map fst ?xs)" "\<forall>i \<in> fst ` set ?xs. fmlookup (ps_local_version empty_pipeline_state) i = None"
    using assms(1) by (simp_all add: ids comp_def empty_pipeline_state_def del: map_map)
  ultimately obtain m where
    a: "add_pipelines ?xs empty_pipeline_state =
        Inr (empty_pipeline_state\<lparr>ps_order := ps_order empty_pipeline_state @ map fst ?xs, ps_local_version := m\<rparr>)" and
    l: "\<forall>i. fmlookup m i =
        (case map_of ?xs i of Some v \<Rightarrow> Some v | None \<Rightarrow> fmlookup (ps_local_version empty_pipeline_state) i)"
    using add_pipelines_Inr [of ?xs empty_pipeline_state] by blast
  have m: "new_pipeline_state ?xs = Inr (empty_pipeline_state\<lparr>ps_order := map lp_id ps, ps_local_version := m\<rparr>)"
    using a unfolding ids by (simp add: new_pipeline_state_def empty_pipeline_state_def)
  have known: "\<exists>v. map_of ?xs (lp_id p) = Some v" if "p \<in> set ps" for p
    using that by (metis (no_types, lifting) ids list.set_map imageI weak_map_of_SomeI map_of_eq_None_iff not_None_eq)
  have "wait_until_runnable (lp_id p) (empty_pipeline_state\<lparr>ps_order := map lp_id ps, ps_local_version := m\<rparr>) = GateOpen"
    if "p \<in> set ps" for p
    using known [OF that] l by (auto simp: wait_until_runnable_def runnable_locked_def failure_of_def empty_pipeline_state_def)
  with m show ?thesis by (auto simp: finish_reliable_def split: option.splits sum.splits)
qed

text \<open>What \<open>Validate\<close> says of the pipelines that were built.\<close>

lemma built_ids_valid:
  assumes "validate_config cfg = None" "se_type (gc_sender cfg) = ''reliable''"
    "map (\<lambda>p. (lp_id p, lp_config_version p)) ps =
       map (\<lambda>c. (gp_id c, if gp_config_version c = 0 then 1 else gp_config_version c)) (gc_pipelines cfg)"
  shows "map lp_id ps = map gp_id (gc_pipelines cfg)" "distinct (map lp_id ps)"
    "\<forall>p \<in> set ps. valid_uuid (lp_id p) \<and> 0 < lp_config_version p"
proof -
  note valid = validate_config_None [OF assms(1)]
  show ids: "map lp_id ps = map gp_id (gc_pipelines cfg)" using arg_cong [OF assms(3), of "map fst"] by (simp add: comp_def)
  show "distinct (map lp_id ps)" using valid(3) by (simp add: ids)
  have "\<forall>p \<in> set ps. (lp_id p, lp_config_version p) \<in> (\<lambda>c. (gp_id c, if gp_config_version c = 0 then 1 else gp_config_version c)) `
      set (gc_pipelines cfg)" using arg_cong [OF assms(3), of set] by force
  then show "\<forall>p \<in> set ps. valid_uuid (lp_id p) \<and> 0 < lp_config_version p"
    using valid(4) valid(5) [OF assms(2)] by (fastforce simp: image_iff)
qed

lemma build_reliable_result:
  assumes "build_reliable env cfg d = (br, parts)" "validate_config cfg = None" "se_type (gc_sender cfg) = ''reliable''"
  shows "case br of
      Inl e \<Rightarrow> (\<forall>st. parts = Some st \<longrightarrow> parts_closed st) \<and> (\<forall>x. e \<noteq> StateInvalid x)
    | Inr a \<Rightarrow> \<exists>st. parts = Some st \<and> parts_built st (rl_pipelines a) \<and>
        map lp_id (rl_pipelines a) = map gp_id (gc_pipelines cfg) \<and> ps_order (rl_state a) = map gp_id (gc_pipelines cfg) \<and>
        (\<forall>p \<in> set (rl_pipelines a). wait_until_runnable (lp_id p) (rl_state a) = GateOpen)"
proof (cases "\<exists>sp w. be_yaml_reliable env (se_params (gc_sender cfg)) = Some sp \<and> \<not> blank (rs_spool_path sp) \<and>
    open_wal (be_truncates env) (spool_config_of sp) d = Inr w")
  case False
  with assms(1) show ?thesis by (auto simp: build_reliable_def split: option.splits if_splits sum.splits)
next
  case True
  then obtain sp w where sp: "be_yaml_reliable env (se_params (gc_sender cfg)) = Some sp" "\<not> blank (rs_spool_path sp)"
    "open_wal (be_truncates env) (spool_config_of sp) d = Inr w" by blast
  obtain pr st where pr: "build_pipelines env 0 (gc_pipelines cfg) [] (w, {#}) = (pr, st)" by (rule prod.exhaust)
  have "parts_built (w, {#}) []" using open_wal_open [OF sp(3)] by (simp add: parts_built_def)
  note result = build_pipelines_result [OF pr this]
  show ?thesis
  proof (cases pr)
    case (Inl e)
    with result assms(1) sp pr show ?thesis by (auto simp: build_reliable_def)
  next
    case (Inr ps)
    with result have built: "parts_built st ps" and ids: "map (\<lambda>p. (lp_id p, lp_config_version p)) ps =
        map (\<lambda>c. (gp_id c, if gp_config_version c = 0 then 1 else gp_config_version c)) (gc_pipelines cfg)" by simp_all
    note valid = built_ids_valid [OF assms(2,3) ids]
    note final = finish_reliable_result [OF valid(2,3), of env cfg sp]
    show ?thesis
    proof (cases "finish_reliable env cfg sp ps")
      case (Inl e)
      obtain st' where c: "close_on_error e ps st = (Inl e :: build_error + reliable_agent, st')" "parts_closed st'"
        using close_on_error_closes built by (metis parts_built_def)
      have "build_reliable env cfg d = map_prod id Some (close_on_error e ps st)"
        by (simp add: build_reliable_def sp pr \<open>pr = Inr ps\<close> Inl)
      then have "br = Inl e" "parts = Some st'" using assms(1) by (simp_all add: c(1))
      with c(2) final Inl show ?thesis by simp
    next
      case (Inr a)
      have "build_reliable env cfg d = (Inr a, Some st)" by (simp add: build_reliable_def sp pr \<open>pr = Inr ps\<close> Inr)
      then have "br = Inr a" "parts = Some st" using assms(1) by simp_all
      with final Inr built valid(1) show ?thesis by simp
    qed
  qed
qed

text \<open>
  C25. The construction of an agent with a spool is all or nothing. On any error nothing stays open: not the log file, not
  the spool, and no source. An agent that is built has the pipelines of its configuration in order, each with an open
  source, and all of them may run; the identifiers that \<open>Validate\<close> lets pass are never refused by the state of the
  pipelines. When no two sources share a key, every source starts exactly where the spool has its checkpoint.
\<close>

theorem agent_build_safe:
  assumes "build_agent env cfg d = (r, world)" "se_type (gc_sender cfg) = ''reliable''"
  shows "case r of
      Inl e \<Rightarrow> \<not> bw_log world \<and> bw_files world = 0 \<and> (\<forall>st. bw_spool world = Some st \<longrightarrow> parts_closed st) \<and> (\<forall>x. e \<noteq> StateInvalid x)
    | Inr rt \<Rightarrow> bw_log world \<and> (\<exists>a st. rt = ReliableRuntime a \<and> bw_spool world = Some st \<and> parts_built st (rl_pipelines a) \<and>
        map lp_id (rl_pipelines a) = map gp_id (gc_pipelines cfg) \<and> ps_order (rl_state a) = map gp_id (gc_pipelines cfg) \<and>
        (\<forall>p \<in> set (rl_pipelines a). wait_until_runnable (lp_id p) (rl_state a) = GateOpen))"
proof (cases "validate_config cfg = None \<and> \<not> be_log_fails env")
  case False
  with assms show ?thesis by (auto simp: build_agent_def split: option.splits if_splits)
next
  case True
  obtain br parts where br: "build_reliable env cfg d = (br, parts)" by fastforce
  with assms True have "world = \<lparr>bw_log = (\<exists>a. br = Inr a), bw_spool = parts, bw_files = 0\<rparr>"
    "r = (case br of Inl e \<Rightarrow> Inl e | Inr a \<Rightarrow> Inr (ReliableRuntime a))"
    by (auto simp: build_agent_def split: sum.splits)
  with build_reliable_result [OF br conjunct1 [OF True] assms(2)] show ?thesis by (cases br) auto
qed

definition sample_id :: "char \<Rightarrow> string" where
  "sample_id c = ''00000000-0000-4000-8000-00000000000'' @ [c]"

definition sample_config :: gline_agent_config where
  "sample_config =
     \<lparr>gc_version = 1,
      gc_agent = \<lparr>ac_id = sample_id (CHR ''a''), ac_version = ''1'', ac_metrics_addr = ''127.0.0.1:9109'',
                  ac_log = \<lparr>lg_level = ''info'', lg_file = ''agent.log''\<rparr>\<rparr>,
      gc_pipelines =
        [\<lparr>gp_id = sample_id (CHR ''b''), gp_config_version = 0, gp_service = ''app'', gp_host = ''web-1'',
          gp_source = \<lparr>pa_type = ''file'', pa_params = []\<rparr>, gp_parser = \<lparr>pa_type = ''string_line'', pa_params = []\<rparr>\<rparr>],
      gc_sender =
        \<lparr>se_type = ''reliable'', se_params = [], se_destination = \<lparr>pa_type = ''gline'', pa_params = []\<rparr>\<rparr>\<rparr>"

definition sample_env :: build_env where
  "sample_env =
     \<lparr>be_yaml_reliable = (\<lambda>_. Some \<lparr>rs_spool_path = ''spool'', rs_max_spool_bytes = 0, rs_max_record_bytes = 0, rs_batch_size = 100,
        rs_flush_interval = second, rs_heartbeat_interval = 0, rs_retry = \<lparr>ry_base_delay = 0, ry_max_delay = 0, ry_jitter = 0\<rparr>\<rparr>),
      be_yaml_tick = (\<lambda>_. None), be_yaml_file = (\<lambda>_. Some \<lparr>fp_path = ''app.log'', fp_source_key = []\<rparr>),
      be_yaml_gline = (\<lambda>_. Some \<lparr>gd_url = ''http://h/v1/batches'', gd_heartbeat_url = [], gd_token = ''t''\<rparr>),
      be_parse_url = (\<lambda>_. Some (''http'', ''h'', ''/v1/batches'', \<lambda>path. ''http://h'' @ path)),
      be_log_fails = False, be_truncates = True,
      be_calls = (\<lambda>_. \<lparr>oc_files = \<lparr>fs_path = Some 0, fs_data = (\<lambda>_. ''one''), fs_ident = (\<lambda>_. ''1:2'')\<rparr>, oc_source = io_ok,
        oc_append = IoOk, oc_now = 63900000000000000000\<rparr>)\<rparr>"

definition no_files :: spool_dir where
  "no_files = \<lparr>d_main = None, d_backup = None, d_temp = None\<rparr>"

lemma sample_source:
  "new_source (oc_files (be_calls sample_env 0)) (oc_source (be_calls sample_env 0)) ''app.log'' (sample_id (CHR ''b'')) None 0
     (oc_now (be_calls sample_env 0)) =
   Inr \<lparr>ds_key = sample_id (CHR ''b''), ds_identity = ''1:2'', ds_file = 0, ds_buffer = [], ds_pos = 0, ds_pending = [],
        ds_read_offset = 0, ds_checkpoint_at = 63900000000000000000, ds_rotation_seen = 0, ds_poll_interval = second\<rparr>"
  by code_simp

definition sample_checkpoint :: checkpoint where
  "sample_checkpoint =
     \<lparr>cp_source_key = sample_id (CHR ''b''), cp_file_identity = ''1:2'', cp_offset_bytes = 0,
      cp_observed_at = 63900000000000000000\<rparr>"

lemma sample_transition:
  assumes "\<not> w_closed w" "wal_checkpoint (sample_id (CHR ''b'')) w = None"
  shows "\<exists>w'. exec (DoTransition False IoOk None sample_checkpoint) w = (w', None)"
proof -
  have "case checkpoint_json sample_checkpoint of Some body \<Rightarrow> length body < 1000 | None \<Rightarrow> False" by code_simp
  then obtain body where b: "checkpoint_json sample_checkpoint = Some body" "length body < 1000" by (auto split: option.splits)
  have "validate_checkpoint sample_checkpoint = None" by code_simp
  moreover have "\<not> transition_conflict None sample_checkpoint w"
    using assms(2) by (simp add: transition_conflict_def sample_checkpoint_def wal_checkpoint_def)
  ultimately show ?thesis using assms(1) b
    by (simp add: wal_transition_def append_record_def frame_record_def dropped_def)
qed

definition sample_params :: reliable_sender_params where
  "sample_params = the (be_yaml_reliable sample_env [])"

lemma sample_open:
  "\<exists>w. open_wal True (spool_config_of sample_params) no_files = Inr w \<and> \<not> w_closed w \<and> (\<forall>key. wal_checkpoint key w = None)"
proof -
  have b: "\<not> blank ''spool''" by code_simp
  show ?thesis
    by (simp add: b sample_params_def sample_env_def spool_config_of_def open_wal_def Let_def effective_config_def default_max_bytes_def
        default_max_record_bytes_def no_files_def recover_replacement_def wal_recover_def wal_file_def empty_wal_def wal_checkpoint_def)
qed

lemma sample_pipelines:
  assumes "\<not> w_closed w" "wal_checkpoint (sample_id (CHR ''b'')) w = None"
  shows "\<exists>ps st. build_pipelines sample_env 0 (gc_pipelines sample_config) [] (w, {#}) = (Inr ps, st)"
proof -
  have k: "source_key_of (hd (gc_pipelines sample_config)) \<lparr>fp_path = ''app.log'', fp_source_key = []\<rparr> = sample_id (CHR ''b'')"
    by (simp add: source_key_of_def sample_config_def)
  have y: "be_yaml_file sample_env b = Some \<lparr>fp_path = ''app.log'', fp_source_key = []\<rparr>" for b by (simp add: sample_env_def)
  have i: "initial_op (oc_append (be_calls sample_env 0)) None c = Some (DoTransition False IoOk None c)" for c
    by (simp add: initial_op_def sample_env_def)
  have g: "gc_pipelines sample_config = [hd (gc_pipelines sample_config)]"
    "pa_type (gp_parser (hd (gc_pipelines sample_config))) = ''string_line''" by (simp_all add: sample_config_def)
  obtain w' where t: "exec (DoTransition False IoOk None sample_checkpoint) w = (w', None)" using sample_transition [OF assms] by blast
  show ?thesis
    by (subst g(1)) (simp add: y k Let_def assms(2) sample_source i t g(2) initial_checkpoint_def
        sample_checkpoint_def [symmetric] del: exec.simps)
qed

lemma sample_finish:
  assumes "distinct (map lp_id ps)" "\<forall>p \<in> set ps. valid_uuid (lp_id p) \<and> 0 < lp_config_version p"
  shows "\<exists>a. finish_reliable sample_env sample_config sample_params ps = Inr a"
proof -
  have b: "\<not> blank ''http://h/v1/batches''" "\<not> blank ''t''" "\<not> blank ''http://h/v1/agents/00000000-0000-4000-8000-00000000000a/heartbeat''"
    by code_simp+
  have u: "heartbeat_url_of sample_env \<lparr>gd_url = ''http://h/v1/batches'', gd_heartbeat_url = [], gd_token = ''t''\<rparr>
      (ac_id (gc_agent sample_config)) = Some ''http://h/v1/agents/00000000-0000-4000-8000-00000000000a/heartbeat''"
    by code_simp
  have d: "\<exists>o1. new_dispatcher \<lparr>do_base_delay = ry_base_delay (rs_retry sample_params), do_max_delay = ry_max_delay (rs_retry sample_params),
      do_jitter = ry_jitter (rs_retry sample_params)\<rparr> = Inr o1"
    by (simp add: new_dispatcher_def sample_params_def sample_env_def second_def)
  have y: "be_yaml_gline sample_env c = Some \<lparr>gd_url = ''http://h/v1/batches'', gd_heartbeat_url = [], gd_token = ''t''\<rparr>"
    "url_text sample_env s = Some (''http'', ''h'', ''http://h/v1/batches'')" for c s
    by (simp_all add: sample_env_def url_text_def)
  obtain o1 where o1: "new_dispatcher \<lparr>do_base_delay = ry_base_delay (rs_retry sample_params), do_max_delay = ry_max_delay (rs_retry sample_params),
      do_jitter = ry_jitter (rs_retry sample_params)\<rparr> = Inr o1" using d by blast
  show ?thesis
    using finish_reliable_result [OF assms, of sample_env sample_config sample_params]
    by (auto simp: finish_reliable_def y u b o1 new_http_transport_def new_http_heartbeat_def split: sum.splits)
qed

theorem agent_build_safe_witness:
  "\<exists>a st. fst (build_agent sample_env sample_config no_files) = Inr (ReliableRuntime a) \<and>
     bw_spool (snd (build_agent sample_env sample_config no_files)) = Some st \<and> parts_built st (rl_pipelines a) \<and>
     map lp_id (rl_pipelines a) = [sample_id (CHR ''b'')]"
proof -
  have v: "validate_config sample_config = None" by code_simp
  have p: "se_type (gc_sender sample_config) = ''reliable''" "be_log_fails sample_env = False" "be_truncates sample_env = True"
    "be_yaml_reliable sample_env c = Some sample_params" "\<not> blank (rs_spool_path sample_params)" for c
  proof -
    have "\<not> blank ''spool''" by code_simp
    then show "\<not> blank (rs_spool_path sample_params)" by (simp add: sample_params_def sample_env_def)
  qed (simp_all add: sample_config_def sample_env_def sample_params_def)
  obtain w where w: "open_wal True (spool_config_of sample_params) no_files = Inr w" "\<not> w_closed w" "\<forall>key. wal_checkpoint key w = None"
    using sample_open by blast
  obtain ps st where ps: "build_pipelines sample_env 0 (gc_pipelines sample_config) [] (w, {#}) = (Inr ps, st)"
    using sample_pipelines w(2,3) by blast
  have "map (\<lambda>p. (lp_id p, lp_config_version p)) ps = [(sample_id (CHR ''b''), 1)]"
    using build_pipelines_result [OF ps] w(2) by (simp add: parts_built_def sample_config_def)
  moreover have "valid_uuid (sample_id (CHR ''b''))" by code_simp
  ultimately obtain a where "finish_reliable sample_env sample_config sample_params ps = Inr a"
    using sample_finish [of ps] by (auto simp: map_eq_Cons_conv)
  then have "\<exists>a. fst (build_agent sample_env sample_config no_files) = Inr a"
    by (simp add: build_agent_def build_reliable_def v p w(1) ps)
  moreover have "se_type (gc_sender sample_config) = ''reliable''" "map gp_id (gc_pipelines sample_config) = [sample_id (CHR ''b'')]"
    by (simp_all add: sample_config_def)
  ultimately show ?thesis
    using agent_build_safe [of sample_env sample_config no_files "fst (build_agent sample_env sample_config no_files)"
        "snd (build_agent sample_env sample_config no_files)"] by auto
qed

end
