(* ===== verification/Agent_Main.thy ===== *)
theory Agent_Main
  imports Agent_Build Spool_Properties
begin

text \<open>
  The management of the local quarantine (\<open>cmd/agent/main.go\<close>, \<open>manageQuarantine\<close>): it lists the quarantined batches of
  the spool, or discards one of them. The spool that it opens is closed at the end.
\<close>

record quarantine_summary =
  qs_batch_id :: string
  qs_http_status :: int
  qs_error_code :: string
  qs_quarantined_at :: string
  qs_source_key :: string
  qs_offset_bytes :: int
  qs_payload_bytes :: nat

definition quarantine_summary_of :: "quarantined \<Rightarrow> quarantine_summary" where
  "quarantine_summary_of q =
     \<lparr>qs_batch_id = cm_batch_id (q_commit q), qs_http_status = q_http_code q, qs_error_code = q_error_code q,
      qs_quarantined_at = time_format (q_quarantined_at q),
      qs_source_key = cp_source_key (cm_checkpoint (q_commit q)), qs_offset_bytes = cp_offset_bytes (cm_checkpoint (q_commit q)),
      qs_payload_bytes = length (cm_payload (q_commit q))\<rparr>"

datatype manage_error = FlagsExclusive | ModeNotReliable | ParamsUndecodable | SpoolFails spool_error | NotQuarantined string

datatype manage_output = NotHandled | Discarded string | Listed "quarantine_summary list"

definition manage_quarantine ::
  "build_env \<Rightarrow> gline_agent_config \<Rightarrow> bool \<Rightarrow> string \<Rightarrow> append_io \<Rightarrow> compact_io \<Rightarrow> spool_dir \<Rightarrow>
     (manage_error + manage_output) \<times> wal option"
where
  "manage_quarantine env cfg listing discard io cio d =
     (if \<not> listing \<and> discard = [] then (Inr NotHandled, None)
      else if listing \<and> discard \<noteq> [] then (Inl FlagsExclusive, None)
      else if se_type (gc_sender cfg) \<noteq> ''reliable'' then (Inl ModeNotReliable, None)
      else (case be_yaml_reliable env (se_params (gc_sender cfg)) of
              None \<Rightarrow> (Inl ParamsUndecodable, None)
            | Some sp \<Rightarrow>
                (case open_wal (be_truncates env) (spool_config_of sp) d of
                   Inl e \<Rightarrow> (Inl (SpoolFails e), None)
                 | Inr w \<Rightarrow>
                     if discard \<noteq> [] then
                       (if \<not> list_ex (\<lambda>q. cm_batch_id (q_commit q) = discard) (wal_quarantined w)
                          then (Inl (NotQuarantined discard), Some (wal_close w))
                        else (case wal_ack False io cio discard w of
                                (w', Inl e) \<Rightarrow> (Inl (SpoolFails e), Some (wal_close w'))
                              | (w', Inr _) \<Rightarrow> (Inr (Discarded discard), Some (wal_close w'))))
                     else (Inr (Listed (map quarantine_summary_of (wal_quarantined w))), Some (wal_close w)))))"

section \<open>What it leaves\<close>

text \<open>Between pending and quarantined batches no identifier is shared.\<close>

lemma pending_not_quarantined:
  assumes "wal_wf w" "c \<in> set (v_pending (view w))" "q \<in> set (v_quarantined (view w))"
  shows "cm_batch_id c \<noteq> cm_batch_id (q_commit q)"
proof -
  obtain i where i: "fmlookup (w_pending w) i = Some c"
    using assms(2) by (auto simp: view_def wal_pending_def List.map_filter_def split: option.splits)
  obtain j where j: "fmlookup (w_quarantined w) j = Some q"
    using assms(3) by (auto simp: view_def wal_quarantined_def List.map_filter_def split: option.splits)
  from wal_wfD(6) [OF assms(1) i] wal_wfD(7) [OF assms(1) j] wal_wfD(5) [OF assms(1), of j] i show ?thesis by auto
qed

lemma view_remove_quarantined:
  assumes "wal_wf w" "q \<in> set (v_quarantined (view w))" "cm_batch_id (q_commit q) = i"
  shows "view_remove i (view w) = (view w)\<lparr>v_quarantined := filter (\<lambda>q. cm_batch_id (q_commit q) \<noteq> i) (v_quarantined (view w))\<rparr>"
proof -
  have "filter (\<lambda>c. cm_batch_id c \<noteq> i) (v_pending (view w)) = v_pending (view w)"
    using pending_not_quarantined [OF assms(1) _ assms(2)] assms(3) by (auto simp: filter_id_conv)
  then show ?thesis by (simp add: view_remove_def)
qed

text \<open>An acknowledgement that returns has written its record.\<close>

lemma ack_done_recovers: "wal_ack False io cio i w = (w', Inr u) \<Longrightarrow> is_quarantined i w \<Longrightarrow> \<not> w_closed w \<Longrightarrow> io_recovers io"
  using append_record_unrecovered [of io record_ack "ack_json i" w]
  by (auto simp: wal_ack_def Let_def split: if_splits prod.splits option.splits)

text \<open>What a directory opens to after an acknowledgement of a quarantined batch, done or not.\<close>

lemma ack_opens:
  assumes "reach_inv c w" "wal_ack False io cio i w = (w', res)" "is_quarantined i w" "\<not> w_closed w"
  shows "\<exists>v. (v = view w \<or> v = view_remove i (view w)) \<and> ((\<exists>u. res = Inr u) \<longrightarrow> v = view_remove i (view w)) \<and> opens_to c (w_dir w') v"
proof -
  have inv: "spool_inv w" "within_capacity w" "config_ok c w" using assms(1) by (simp_all add: reach_inv_def)
  have ex: "exec (DoAck False io cio i) w = (w', case res of Inl e \<Rightarrow> Some e | Inr _ \<Rightarrow> None)"
    by (simp add: assms(2) dropped_def)
  show ?thesis
  proof (cases res)
    case (Inl e)
    with exec_opens [OF inv(1) _ inv(3,2), of "DoAck False io cio i"] ex show ?thesis by auto
  next
    case (Inr u)
    have "io_recovers io" using ack_done_recovers assms(2-4) Inr by blast
    then have "spool_inv w' \<and> view w' = view_remove i (view w)" using exec_inv [OF inv(1) _ _ ex] Inr by simp
    moreover have "config_ok c w'" using inv(3) exec_max_record [of "DoAck False io cio i" w] ex by (simp add: config_ok_def)
    ultimately show ?thesis using survives_opens [of "w_dir w'" w' c] by (auto simp: spool_inv_def)
  qed
qed

definition quarantined_ids :: "spool_view \<Rightarrow> string set" where
  "quarantined_ids v = (\<lambda>q. cm_batch_id (q_commit q)) ` set (v_quarantined v)"

text \<open>
  C26. Discarding from the command line touches nothing but the quarantine. Whatever the spool of a stopped agent has gone
  through, and whatever system call fails, the pending batches and the checkpoints stay as they are; success means that
  exactly the batch that was named has left the quarantine, and a batch that is not there, such as one that still
  waits for its delivery, is refused.
\<close>

theorem quarantine_discard_exact:
  assumes "manage_quarantine env cfg False i io cio (w_dir w0) = (r, after)" "i \<noteq> []"
    "spool_reach (spool_config_of sp) w0" "be_yaml_reliable env (se_params (gc_sender cfg)) = Some sp" "be_truncates env"
    "se_type (gc_sender cfg) = ''reliable''"
  shows "\<exists>w w2. after = Some w \<and> open_wal True (spool_config_of sp) (w_dir w) = Inr w2 \<and>
    v_pending (view w2) = v_pending (view w0) \<and> v_checkpoints (view w2) = v_checkpoints (view w0) \<and>
    (case r of
       Inl e \<Rightarrow> (i \<notin> quarantined_ids (view w0) \<longrightarrow> e = NotQuarantined i \<and> view w2 = view w0) \<and>
         quarantined_ids (view w0) - {i} \<subseteq> quarantined_ids (view w2)
     | Inr out \<Rightarrow> out = Discarded i \<and> i \<in> quarantined_ids (view w0) \<and>
         v_quarantined (view w2) = filter (\<lambda>q. cm_batch_id (q_commit q) \<noteq> i) (v_quarantined (view w0)))"
proof -
  let ?sc = "spool_config_of sp"
  have inv0: "reach_inv ?sc w0" by (rule spool_reach_inv [OF assms(3)])
  then have "opens_to ?sc (w_dir w0) (view w0)" by (intro survives_opens) (simp_all add: reach_inv_def spool_inv_def)
  then obtain w1 where w1: "open_wal True ?sc (w_dir w0) = Inr w1" "view w1 = view w0" "\<not> w_closed w1"
    by (auto simp: opens_to_def)
  have inv: "spool_inv w1" "within_capacity w1" "config_ok ?sc w1"
    using spool_reach_inv [OF spool_reach.restart [OF assms(3) w1(1)]] by (simp_all add: reach_inv_def)
  then have wf: "wal_wf w1" and surv: "survives_in (w_dir w1) w1" by (simp_all add: spool_inv_def survives_in_def)
  have dir: "w_dir (wal_close w) = w_dir w" for w by (simp add: wal_close_def signal_def)
  have listed: "list_ex (\<lambda>q. cm_batch_id (q_commit q) = i) (wal_quarantined w1) \<longleftrightarrow> i \<in> quarantined_ids (view w0)"
    unfolding w1(2) [symmetric] by (auto simp: quarantined_ids_def view_def list_ex_iff)
  show ?thesis
  proof (cases "i \<in> quarantined_ids (view w0)")
    case False
    then have "r = Inl (NotQuarantined i)" "after = Some (wal_close w1)"
      using assms w1(1) listed by (auto simp: manage_quarantine_def)
    with survives_opens [OF surv inv(3)] w1(2) show ?thesis by (auto simp: opens_to_def dir)
  next
    case True
    then obtain q where q: "q \<in> set (v_quarantined (view w1))" "cm_batch_id (q_commit q) = i"
      by (auto simp: quarantined_ids_def w1(2))
    then have isq: "is_quarantined i w1"
      using wal_wfD(7) [OF wf] by (fastforce simp: view_def wal_quarantined_def is_quarantined_def List.map_filter_def)
    obtain w' res where ack: "wal_ack False io cio i w1 = (w', res)" by fastforce
    have after: "after = Some (wal_close w')" "r = (case res of Inl e \<Rightarrow> Inl (SpoolFails e) | Inr _ \<Rightarrow> Inr (Discarded i))"
      using assms w1(1) listed True ack by (auto simp: manage_quarantine_def split: sum.splits)
    note removed = view_remove_quarantined [OF wf q]
    have "\<exists>v. (v = view w1 \<or> v = view_remove i (view w1)) \<and> ((\<exists>u. res = Inr u) \<longrightarrow> v = view_remove i (view w1)) \<and> opens_to ?sc (w_dir w') v"
      using ack_opens [OF _ ack isq w1(3)] spool_reach_inv [OF spool_reach.restart [OF assms(3) w1(1)]] by blast
    then obtain v w2 where v: "v = view w1 \<or> v = view_remove i (view w1)" "(\<exists>u. res = Inr u) \<longrightarrow> v = view_remove i (view w1)"
      "open_wal True ?sc (w_dir w') = Inr w2" "view w2 = v" by (auto simp: opens_to_def)
    have "view w2 = view w0 \<or> view w2 = (view w0)\<lparr>v_quarantined := filter (\<lambda>q. cm_batch_id (q_commit q) \<noteq> i) (v_quarantined (view w0))\<rparr>"
      "(\<exists>u. res = Inr u) \<longrightarrow> view w2 = (view w0)\<lparr>v_quarantined := filter (\<lambda>q. cm_batch_id (q_commit q) \<noteq> i) (v_quarantined (view w0))\<rparr>"
      using v(1,2,4) removed w1(2) by auto
    with v(3) after dir True show ?thesis
      by (intro exI [of _ "wal_close w'"] exI [of _ w2]) (auto simp: quarantined_ids_def split: sum.splits)
  qed
qed

definition stopped_env :: build_env where
  "stopped_env = sample_env\<lparr>be_yaml_reliable := (\<lambda>_. Some (sample_params\<lparr>rs_spool_path := ''/var/lib/agent.wal''\<rparr>))\<rparr>"

theorem quarantine_discard_exact_witness:
  "\<exists>w w2. manage_quarantine stopped_env sample_config False ''b1'' IoOk CompactOk
       (w_dir (fst (exec (DoCommit False IoOk demo_commit) demo_wal))) = (Inl (NotQuarantined ''b1''), Some w) \<and>
     open_wal True demo_config (w_dir w) = Inr w2 \<and> v_pending (view w2) = [demo_commit]"
proof -
  let ?w0 = "fst (exec (DoCommit False IoOk demo_commit) demo_wal)"
  let ?sp = "sample_params\<lparr>rs_spool_path := ''/var/lib/agent.wal''\<rparr>"
  have c: "spool_config_of ?sp = demo_config"
    by (simp add: spool_config_of_def sample_params_def sample_env_def demo_config_def)
  have reach: "spool_reach (spool_config_of ?sp) ?w0"
    unfolding c by (rule spool_reach.operation [OF demo_reach]) (simp_all add: demo_good io_recovers_def)
  have "view ?w0 = view_commit demo_commit (view demo_wal)"
    using exec_inv [of demo_wal "DoCommit False IoOk demo_commit" ?w0 None] demo_exec demo_good spool_reach_inv [OF demo_reach]
    by (simp add: reach_inv_def io_recovers_def prod_eq_iff)
  then have v: "v_pending (view ?w0) = [demo_commit]" "quarantined_ids (view ?w0) = {}"
    by (simp_all add: view_commit_def view_def demo_wal_def empty_wal_def wal_pending_def wal_quarantined_def quarantined_ids_def)
  have p: "be_yaml_reliable stopped_env (se_params (gc_sender sample_config)) = Some ?sp" "be_truncates stopped_env"
    "se_type (gc_sender sample_config) = ''reliable''" "''b1'' \<noteq> []"
    by (simp_all add: stopped_env_def sample_env_def sample_config_def)
  define m where "m = manage_quarantine stopped_env sample_config False ''b1'' IoOk CompactOk (w_dir ?w0)"
  obtain r after where m: "m = (r, after)" by fastforce
  from quarantine_discard_exact [OF m [unfolded m_def] p(4) reach p(1,2,3)]
  obtain w w2 where w: "after = Some w" "open_wal True demo_config (w_dir w) = Inr w2" "v_pending (view w2) = [demo_commit]"
    "r = Inl (NotQuarantined ''b1'')"
    unfolding c v by (cases r) auto
  with m show ?thesis unfolding m_def by (intro exI [of _ w] exI [of _ w2]) simp
qed

end
