(* ===== verification/Agent_Identity.thy ===== *)
theory Agent_Identity
  imports Agent_Build Server_Properties
begin

text \<open>
  The identifier of an agent between its configuration and the ingest service: \<open>Validate\<close> of the agent takes a UUID in
  either case, PostgreSQL returns the columns in lower case, and \<open>Accept\<close> compares the two as texts.
\<close>

definition in_upper_case :: "gline_agent_config \<Rightarrow> gline_agent_config" where
  "in_upper_case cfg = cfg\<lparr>gc_agent := (gc_agent cfg)\<lparr>ac_id := map ascii_upper (ac_id (gc_agent cfg))\<rparr>\<rparr>"

lemma ascii_upper_byte: "byte_val (ascii_upper c) = (if 97 \<le> byte_val c \<and> byte_val c \<le> 122 then byte_val c - 32 else byte_val c)"
  by (auto simp: ascii_upper_def)

lemma ascii_lower_byte: "byte_val (ascii_lower c) = (if 65 \<le> byte_val c \<and> byte_val c \<le> 90 then byte_val c + 32 else byte_val c)"
  by (auto simp: ascii_lower_def)

lemma uuid_char_upper: "uuid_char i c \<Longrightarrow> uuid_char i (ascii_upper c)"
  by (auto simp: uuid_char_def is_hex_def is_digit_def ascii_upper_byte) (simp_all add: ascii_upper_def)

lemma valid_uuid_upper: "valid_uuid u \<Longrightarrow> valid_uuid (map ascii_upper u)"
  by (auto simp: valid_uuid_def list_all_length nth_enumerate_eq intro: uuid_char_upper)

lemma upper_not_lower:
  assumes "valid_uuid u" "c \<in> set u" "97 \<le> byte_val c"
  shows "pg_uuid (map ascii_upper u) \<noteq> map ascii_upper u"
proof
  assume e: "pg_uuid (map ascii_upper u) = map ascii_upper u"
  obtain i where i: "i < length u" "u ! i = c" using assms(2) by (auto simp: in_set_conv_nth)
  then have "uuid_char i c" using assms(1) by (auto simp: valid_uuid_def list_all_length nth_enumerate_eq)
  with assms(3) have "byte_val c \<le> 102" by (auto simp: uuid_char_def is_hex_def is_digit_def split: if_splits)
  moreover have "ascii_lower (ascii_upper c) = ascii_upper c"
    using arg_cong [OF e, of "\<lambda>l. l ! i"] i by (simp add: pg_uuid_def)
  then have "byte_val (ascii_lower (ascii_upper c)) = byte_val (ascii_upper c)" by simp
  ultimately show False using assms(3) by (auto simp: ascii_lower_byte ascii_upper_byte split: if_splits)
qed

lemma validate_upper:
  assumes "validate_config cfg = None" "se_type (gc_sender cfg) = ''reliable''"
  shows "validate_config (in_upper_case cfg) = None"
proof -
  have "valid_uuid (ac_id (gc_agent cfg))" using validate_config_None(5) [OF assms] by simp
  with assms valid_uuid_upper [of "ac_id (gc_agent cfg)"] show ?thesis
    by (auto simp: validate_config_def in_upper_case_def Let_def config_valid_uuid_same split: option.splits if_splits)
qed

text \<open>What \<open>Accept\<close> stores or answers belongs to an agent whose identifier is that of the pipeline's row.\<close>

lemma accept_agent_row:
  assumes "accept pg p candidate c (lm, s) = (r, (lm', s'))" "(\<exists>res. r = Inr res) \<or> ps_db s' \<noteq> ps_db s"
  shows "\<exists>q \<in> set (t_pipelines (ps_db s)). pl_agent_id q = b_agent_id candidate"
proof (cases "prepare_batch p candidate")
  case (Inl e)
  with assms show ?thesis by (auto simp: accept_def)
next
  case (Inr b)
  from accept_ran [OF assms(1) Inr assms(2)] obtain s1 res s1' where
    "accept_body pg p b (ac_committed_at c) s1 = (Inr res, s1')" "ps_db s1 = ps_db s" by blast
  then show ?thesis using prepare_batch_Inr(7) [OF Inr] by (auto elim!: accept_body_Inr)
qed

text \<open>
  C27. An agent identifier may be written in upper case: \<open>Validate\<close> of the agent accepts it as it accepts the same one in lower
  case. But whatever such an agent sends, with any key and at any time, the ingest service stores nothing of it and
  answers with an error, because the rows that PostgreSQL returns hold identifiers in lower case.
\<close>

theorem upper_case_agent_refused:
  assumes "validate_config cfg = None" "se_type (gc_sender cfg) = ''reliable''"
    "a \<in> set (ac_id (gc_agent cfg))" "97 \<le> byte_val a"
    "\<forall>q \<in> set (t_pipelines (ps_db s)). pl_agent_id q = pg_uuid (pl_agent_id q)"
    "b_agent_id candidate = ac_id (gc_agent (in_upper_case cfg))" "accept pg p candidate c (lm, s) = (r, (lm', s'))"
  shows "validate_config (in_upper_case cfg) = None \<and> (\<exists>e. r = Inl e) \<and> ps_db s' = ps_db s"
proof -
  have "valid_uuid (ac_id (gc_agent cfg))" using validate_config_None(5) [OF assms(1,2)] by simp
  from upper_not_lower [OF this assms(3,4)] have "pg_uuid (b_agent_id candidate) \<noteq> b_agent_id candidate"
    by (simp add: assms(6) in_upper_case_def)
  then have "\<not> ((\<exists>res. r = Inr res) \<or> ps_db s' \<noteq> ps_db s)" using accept_agent_row [OF assms(7)] assms(5) by metis
  then show ?thesis using validate_upper [OF assms(1,2)] by (cases r) auto
qed

text \<open>The same batch is accepted from the agent of the row.\<close>

theorem upper_case_agent_refused_witness:
  "(\<exists>e. fst (accept sample_pg sample_principal ((sample_batch (uid (CHR ''4'')))\<lparr>b_agent_id := ac_id (gc_agent (in_upper_case sample_config))\<rparr>)
     sample_call (None, sample_state [])) = Inl e) \<and>
   validate_config (in_upper_case sample_config) = None \<and>
   (\<exists>res. fst (accept sample_pg sample_principal (sample_batch (uid (CHR ''4''))) sample_call (None, sample_state [])) = Inr res)"
proof -
  let ?b = "(sample_batch (uid (CHR ''4'')))\<lparr>b_agent_id := ac_id (gc_agent (in_upper_case sample_config))\<rparr>"
  have v: "validate_config sample_config = None" by code_simp
  have p: "se_type (gc_sender sample_config) = ''reliable''" "CHR ''a'' \<in> set (ac_id (gc_agent sample_config))" "97 \<le> byte_val (CHR ''a'')"
    by (simp_all add: sample_config_def sample_id_def)
  have "pg_uuid (uid (CHR ''2'')) = uid (CHR ''2'')" by code_simp
  then have rows: "\<forall>q \<in> set (t_pipelines (ps_db (sample_state []))). pl_agent_id q = pg_uuid (pl_agent_id q)"
    by (simp add: sample_state_def sample_db_def)
  obtain r lm' s' where a: "accept sample_pg sample_principal ?b sample_call (None, sample_state []) = (r, (lm', s'))"
    by (metis prod.collapse)
  from upper_case_agent_refused [OF v p rows _ a] have "(\<exists>e. r = Inl e) \<and> validate_config (in_upper_case sample_config) = None" by simp
  moreover have "(case fst (accept sample_pg sample_principal (sample_batch (uid (CHR ''4''))) sample_call (None, sample_state [])) of
      Inl _ \<Rightarrow> False | Inr _ \<Rightarrow> True)" by code_simp
  ultimately show ?thesis using a by (auto split: sum.splits)
qed

end
